(* ===== verification/Reef_Prelude.thy ===== *)
theory Reef_Prelude
  imports Main "HOL-Library.Word" "HOL-Library.Monad_Syntax"
begin

text \<open>
  Shared vocabulary of the development: the C integer types as machine words, the error
  numbers the firmware returns, the lemma collections of the development and the generic
  facts on words, lists and the option monad that the component theories use.

  A C integer of width \<open>w\<close> is a \<open>w word\<close>. Whether it is signed is a matter of the
  operations applied to it: \<open>sint\<close>, \<open>scast\<close>, \<open>signed_drop_bit\<close> and the orders
  \<open><s\<close>, \<open>\<le>s\<close> read it as two's complement; \<open>uint\<close>, \<open>unat\<close>, \<open>ucast\<close>, \<open>drop_bit\<close>
  and \<open><\<close> as unsigned. Where C leaves signed overflow undefined, the words wrap, as the
  code the target's compiler emits does; the theorems that need it say that nothing overflows.

  An operation that may reach undefined behaviour (an out-of-range array index, a division by
  zero, a dereferenced \<open>NULL\<close>) returns an \<open>option\<close>: \<open>None\<close> is that fault, never an error
  return of the code. Error returns are values, the negative numbers of \<open>errno.h\<close>.
\<close>

section \<open>Integer types and error numbers\<close>

type_synonym u8 = "8 word"
type_synonym u16 = "16 word"
type_synonym u32 = "32 word"
type_synonym s16 = "16 word"
type_synonym s32 = "32 word"
type_synonym s64 = "64 word"

abbreviation (input) EIO :: int where "EIO \<equiv> 5"
abbreviation (input) EAGAIN :: int where "EAGAIN \<equiv> 11"
abbreviation (input) ENOMEM :: int where "ENOMEM \<equiv> 12"
abbreviation (input) EBUSY :: int where "EBUSY \<equiv> 16"
abbreviation (input) ENODEV :: int where "ENODEV \<equiv> 19"
abbreviation (input) EINVAL :: int where "EINVAL \<equiv> 22"
abbreviation (input) ETIME :: int where "ETIME \<equiv> 62"

text \<open>\<open>MAX_INT\<close> of include/reef/reef.h.\<close>

definition MAX_INT :: u32 where "MAX_INT = 0xffffffff"

named_theorems reef_defs "definitions unfolded to evaluate the model on concrete inputs"
named_theorems frame_simps "what an operation leaves unchanged"

section \<open>Signed words\<close>

lemma sint_eq_if_fits:
  assumes "- (2 ^ (LENGTH('a) - 1)) \<le> k" and "k < 2 ^ (LENGTH('a) - 1)"
  shows "sint (word_of_int k :: 'a::len word) = k"
  using assms by (simp add: signed_take_bit_int_eq_self sint_sbintrunc')

lemma sint_range:
  "- (2 ^ (LENGTH('a) - 1)) \<le> sint (w :: 'a::len word)"
  "sint (w :: 'a::len word) < 2 ^ (LENGTH('a) - 1)"
  using sint_greater_eq [of w] sint_less [of w] by simp_all

lemma sint_range32: "- 2147483648 \<le> sint (w :: 32 word)" "sint (w :: 32 word) \<le> 2147483647"
  using sint_range [of w] by simp_all

lemma sint_range16: "- 32768 \<le> sint (w :: 16 word)" "sint (w :: 16 word) \<le> 32767"
  using sint_range [of w] by simp_all

lemma sint_range64:
  "- 9223372036854775808 \<le> sint (w :: 64 word)" "sint (w :: 64 word) \<le> 9223372036854775807"
  using sint_range [of w] by simp_all

lemma sint_add_fits:
  fixes x y :: "'a::len word"
  assumes "- (2 ^ (LENGTH('a) - 1)) \<le> sint x + sint y" "sint x + sint y < 2 ^ (LENGTH('a) - 1)"
  shows "sint (x + y) = sint x + sint y"
  using assms by (simp add: sint_word_ariths signed_take_bit_int_eq_self)

lemma sint_sub_fits:
  fixes x y :: "'a::len word"
  assumes "- (2 ^ (LENGTH('a) - 1)) \<le> sint x - sint y" "sint x - sint y < 2 ^ (LENGTH('a) - 1)"
  shows "sint (x - y) = sint x - sint y"
  using assms by (simp add: sint_word_ariths signed_take_bit_int_eq_self)

lemma sint_mult_fits:
  fixes x y :: "'a::len word"
  assumes "- (2 ^ (LENGTH('a) - 1)) \<le> sint x * sint y" "sint x * sint y < 2 ^ (LENGTH('a) - 1)"
  shows "sint (x * y) = sint x * sint y"
  using assms by (simp add: sint_word_ariths signed_take_bit_int_eq_self)

lemma sint_shr: "sint (signed_drop_bit n w) = sint w div 2 ^ n"
  by (simp add: sint_signed_drop_bit_eq drop_bit_eq_div)

lemma sint_scast_32_64 [simp]: "sint (scast (w :: 32 word) :: 64 word) = sint w"
  by (rule sint_up_scast) (simp add: is_up)

lemma sint_scast_16_32 [simp]: "sint (scast (w :: 16 word) :: 32 word) = sint w"
  by (rule sint_up_scast) (simp add: is_up)

lemma sint_scast_16_64 [simp]: "sint (scast (w :: 16 word) :: 64 word) = sint w"
  by (rule sint_up_scast) (simp add: is_up)

text \<open>The narrowing conversion keeps a value that fits.\<close>

lemma sint_scast_fits:
  fixes w :: "'a::len word"
  assumes "- (2 ^ (LENGTH('b) - 1)) \<le> sint w" "sint w < 2 ^ (LENGTH('b) - 1)"
  shows "sint (scast w :: 'b::len word) = sint w"
  using assms by (simp add: signed_scast_eq signed_take_bit_int_eq_self)

lemma sint_scast_64_32:
  fixes w :: "64 word"
  assumes "- 2147483648 \<le> sint w" "sint w \<le> 2147483647"
  shows "sint (scast w :: 32 word) = sint w"
  using assms by (intro sint_scast_fits) simp_all

lemma abs_prod_bound:
  fixes a b :: int
  assumes "\<bar>a\<bar> \<le> A" "\<bar>b\<bar> \<le> B"
  shows "\<bar>a * b\<bar> \<le> A * B"
  unfolding abs_mult using assms by (intro mult_mono) auto

lemma prod32_bounds:
  "- 4611686018427387904 \<le> sint (x :: 32 word) * sint (y :: 32 word)"
  "sint (x :: 32 word) * sint (y :: 32 word) \<le> 4611686018427387904"
proof -
  have "\<bar>sint x\<bar> \<le> 2147483648" "\<bar>sint y\<bar> \<le> 2147483648"
    using sint_range32 [of x] sint_range32 [of y] by arith+
  from abs_prod_bound [OF this] show
    "- 4611686018427387904 \<le> sint x * sint y" "sint x * sint y \<le> 4611686018427387904"
    by linarith+
qed

text \<open>A 32 by 32 bit product is exact in 64 bits.\<close>

lemma sint_prod_32_32 [simp]:
  "sint ((scast (x :: 32 word) :: 64 word) * scast (y :: 32 word)) = sint x * sint y"
  using prod32_bounds [of x y] by (subst sint_mult_fits) simp_all

section \<open>Unsigned words\<close>

lemma unat_sub_le: "b \<le> a \<Longrightarrow> unat (a - b :: 'a::len word) = unat a - unat b"
  by (rule unat_sub)

lemma unat_add_fits:
  "unat a + unat b < 2 ^ LENGTH('a) \<Longrightarrow> unat (a + b :: 'a::len word) = unat a + unat b"
  by (simp add: unat_word_ariths)

lemma unat_mult_fits:
  "unat a * unat b < 2 ^ LENGTH('a) \<Longrightarrow> unat (a * b :: 'a::len word) = unat a * unat b"
  by (simp add: unat_word_ariths)

lemma unat_of_nat_fits: "n < 2 ^ LENGTH('a) \<Longrightarrow> unat (of_nat n :: 'a::len word) = n"
  by (simp add: unat_of_nat)

lemma unat8_lt: "unat (w :: 8 word) < 256"
  using unsigned_less [of w, where 'a = nat] by simp

lemma unat16_lt: "unat (w :: 16 word) < 65536"
  using unsigned_less [of w, where 'a = nat] by simp

lemma unat32_lt: "unat (w :: 32 word) < 4294967296"
  using unsigned_less [of w, where 'a = nat] by simp

lemma unat_ucast_16_32 [simp]: "unat (ucast (w :: 16 word) :: 32 word) = unat w"
  using unat16_lt [of w] by (simp add: unsigned_ucast_eq take_bit_nat_eq_self)

lemma sint_small32: "unat (w :: 32 word) < 2147483648 \<Longrightarrow> sint w = int (unat w)"
proof -
  assume a: "unat w < 2147483648"
  have "uint w = int (unat w)" by simp
  then have "- 2147483648 \<le> uint w" "uint w < 2147483648" using a by linarith+
  then have "signed_take_bit 31 (uint w) = uint w" by (intro signed_take_bit_int_eq_self) simp_all
  then show ?thesis by (simp add: sint_uint)
qed

section \<open>Lists\<close>

lemma nth_list_update_if:
  "i < length xs \<Longrightarrow> xs[i := v] ! j = (if j = i then v else xs ! j)"
  by (simp add: nth_list_update)

lemma count_list_update:
  assumes "i < length xs"
  shows "length (filter P (xs[i := v])) + of_bool (P (xs ! i))
       = length (filter P xs) + of_bool (P v)"
  using assms
proof (induction xs arbitrary: i)
  case Nil
  then show ?case by simp
next
  case (Cons x xs)
  then show ?case by (cases i) auto
qed

lemma list_all_update: "list_all P xs \<Longrightarrow> P v \<Longrightarrow> list_all P (xs[i := v])"
  by (cases "i < length xs") (auto simp: list_all_length nth_list_update)

text \<open>A checked array read and write: \<open>None\<close> outside the array.\<close>

definition aget :: "'a list \<Rightarrow> nat \<Rightarrow> 'a option" where
  "aget xs i = (if i < length xs then Some (xs ! i) else None)"

definition aset :: "'a list \<Rightarrow> nat \<Rightarrow> 'a \<Rightarrow> 'a list option" where
  "aset xs i v = (if i < length xs then Some (xs[i := v]) else None)"

lemma aget_Some [simp]: "aget xs i = Some v \<longleftrightarrow> i < length xs \<and> v = xs ! i"
  by (auto simp: aget_def)

lemma aset_Some [simp]: "aset xs i v = Some ys \<longleftrightarrow> i < length xs \<and> ys = xs[i := v]"
  by (auto simp: aset_def)

lemma aget_in [simp]: "i < length xs \<Longrightarrow> aget xs i = Some (xs ! i)"
  by (simp add: aget_def)

lemma aset_in [simp]: "i < length xs \<Longrightarrow> aset xs i v = Some (xs[i := v])"
  by (simp add: aset_def)

text \<open>Array accesses at a C \<open>int\<close> index.\<close>

definition iget :: "'a list \<Rightarrow> int \<Rightarrow> 'a option" where
  "iget xs i = (if 0 \<le> i then aget xs (nat i) else None)"

definition iset :: "'a list \<Rightarrow> int \<Rightarrow> 'a \<Rightarrow> 'a list option" where
  "iset xs i v = (if 0 \<le> i then aset xs (nat i) v else None)"

lemma iget_Some [simp]: "iget xs i = Some v \<longleftrightarrow> 0 \<le> i \<and> nat i < length xs \<and> v = xs ! nat i"
  by (auto simp: iget_def)

lemma iset_Some [simp]: "iset xs i v = Some ys \<longleftrightarrow> 0 \<le> i \<and> nat i < length xs \<and> ys = xs[nat i := v]"
  by (auto simp: iset_def)

text \<open>Going back \<open>k\<close> positions from \<open>r\<close> in a ring of \<open>L\<close>.\<close>

lemma tap_index:
  assumes "0 \<le> r" "r < L" "0 \<le> k" "k < L"
  shows "(r - k) mod L = (if k \<le> r then r - k else L + r - k :: int)"
proof (cases "k \<le> r")
  case True
  then show ?thesis using assms by (simp add: mod_pos_pos_trivial)
next
  case False
  have "(r - k) mod L = (r - k + L) mod L" by simp
  also have "\<dots> = r - k + L" using False assms by (intro mod_pos_pos_trivial) simp_all
  finally show ?thesis using False by simp
qed

lemma sum_split:
  fixes f :: "nat \<Rightarrow> int"
  shows "(\<Sum>k < n. f k) + (\<Sum>k < m. f (n + k)) = (\<Sum>k < n + m. f k)"
  by (induction m) (simp_all add: add.assoc [symmetric])

lemma sint_of_nat32: "k < 2 ^ 31 \<Longrightarrow> sint (of_nat k :: u32) = int k"
  by (subst sint_small32) (simp_all add: unat_of_nat_fits)

lemma uint_of_nat32: "k < 2 ^ 32 \<Longrightarrow> uint (of_nat k :: u32) = int k"
  by (simp add: uint_nat unat_of_nat_fits)

lemma uint_of_int32: "0 \<le> k \<Longrightarrow> k < 2 ^ 32 \<Longrightarrow> uint (word_of_int k :: u32) = k"
  by (simp add: uint_word_of_int)

lemma unat_count: "unat x + j < 2 ^ 32 \<Longrightarrow> unat (x + of_nat j) = unat x + j" for x :: u32
proof -
  assume l: "unat x + j < 2 ^ 32"
  then have "unat (of_nat j :: u32) = j" by (intro unat_of_nat_fits) simp
  then show ?thesis using l unat_plus_simple [of x "of_nat j"] no_olen_add_nat [of x "of_nat j"] by simp
qed

lemma below_bits: "x < 2 ^ k \<Longrightarrow> k \<le> n \<Longrightarrow> \<not> bit x n" for x :: u32
proof -
  assume x: "x < 2 ^ k" and n: "k \<le> n"
  show "\<not> bit x n"
  proof (cases "k < 32")
    case True
    then have "unat (2 ^ k :: u32) = 2 ^ k" using unat_of_nat_fits [of "2 ^ k", where 'a = 32] power_strict_increasing [of k 32 "2 :: nat"] by simp
    then have "take_bit k x = x" using x by (simp add: word_less_nat_alt word_unat_eq_iff unsigned_take_bit_eq take_bit_nat_eq_self)
    then show ?thesis using n by (metis bit_take_bit_iff linorder_not_le)
  next
    case False
    then show ?thesis using n bit_imp_le_length [of x n] by auto
  qed
qed

end
