(* ===== verification/Reef_List.thy ===== *)
theory Reef_List
  imports Reef_Prelude
begin

text \<open>
  The intrusive doubly linked lists of src/src/include/reef/list.h. Every subsystem keeps its
  objects (drivers, work items, tasks, notifiers, buffers, IPC messages) on such lists. The
  model keeps the list items in an explicit store from addresses to the two pointers and writes
  every pointer assignment of the C functions as an update of that store.

  \<open>dll\<close> relates a store to the sequence of items a list head carries; the operations are proved
  to implement \<open>#\<close>, \<open>@\<close> and removal on that sequence, and the iteration macro to visit exactly
  that sequence. The locale \<open>list_interface\<close> states this contract; what clients need of it
  (first in, first out, multiset of items, iteration) is proved once inside. The other theories
  keep such a list as a HOL list in that order.
\<close>

section \<open>The store and the operations\<close>

type_synonym laddr = u32

record list_item =
  nxt :: laddr
  prv :: laddr

type_synonym lstore = "laddr \<Rightarrow> list_item"

definition set_nxt :: "laddr \<Rightarrow> laddr \<Rightarrow> lstore \<Rightarrow> lstore" where
  "set_nxt p v h = h(p := (h p)\<lparr>nxt := v\<rparr>)"

definition set_prv :: "laddr \<Rightarrow> laddr \<Rightarrow> lstore \<Rightarrow> lstore" where
  "set_prv p v h = h(p := (h p)\<lparr>prv := v\<rparr>)"

definition list_init :: "laddr \<Rightarrow> lstore \<Rightarrow> lstore" where
  "list_init l h = set_prv l l (set_nxt l l h)"

definition list_item_prepend :: "laddr \<Rightarrow> laddr \<Rightarrow> lstore \<Rightarrow> lstore" where
  "list_item_prepend item l h =
     (let n = nxt (h l);
          h = set_prv n item h;
          h = set_nxt item n h;
          h = set_prv item l h
      in set_nxt l item h)"

definition list_item_append :: "laddr \<Rightarrow> laddr \<Rightarrow> lstore \<Rightarrow> lstore" where
  "list_item_append item l h =
     (let tail = prv (h l);
          h = set_nxt tail item h;
          h = set_nxt item l h;
          h = set_prv item tail h
      in set_prv l item h)"

definition list_item_del :: "laddr \<Rightarrow> lstore \<Rightarrow> lstore" where
  "list_item_del item h =
     (let h = set_prv (nxt (h item)) (prv (h item)) h
      in set_nxt (prv (h item)) (nxt (h item)) h)"

definition list_item_is_last :: "laddr \<Rightarrow> laddr \<Rightarrow> lstore \<Rightarrow> bool" where
  "list_item_is_last item l h \<longleftrightarrow> nxt (h item) = l"

definition list_is_empty :: "laddr \<Rightarrow> lstore \<Rightarrow> bool" where
  "list_is_empty l h \<longleftrightarrow> nxt (h l) = l"

definition list_first_item :: "laddr \<Rightarrow> lstore \<Rightarrow> laddr" where
  "list_first_item l h = nxt (h l)"

text \<open>
  \<open>list_for_item(item, list)\<close> as the sequence of items its body sees; \<open>fuel\<close> bounds the steps,
  \<open>None\<close> is a walk that has not come back to the head. \<open>list_for_item_prev\<close> follows \<open>prv\<close>.
\<close>

fun list_walk :: "nat \<Rightarrow> (list_item \<Rightarrow> laddr) \<Rightarrow> lstore \<Rightarrow> laddr \<Rightarrow> laddr \<Rightarrow> laddr list option" where
  "list_walk 0 step h l item = None"
| "list_walk (Suc fuel) step h l item =
     (if item = l then Some []
      else map_option ((#) item) (list_walk fuel step h l (step (h item))))"

definition list_for_item :: "nat \<Rightarrow> laddr \<Rightarrow> lstore \<Rightarrow> laddr list option" where
  "list_for_item fuel l h = list_walk fuel nxt h l (nxt (h l))"

definition list_for_item_prev :: "nat \<Rightarrow> laddr \<Rightarrow> lstore \<Rightarrow> laddr list option" where
  "list_for_item_prev fuel l h = list_walk fuel prv h l (prv (h l))"

section \<open>Abstraction to sequences\<close>

fun chain :: "lstore \<Rightarrow> laddr list \<Rightarrow> bool" where
  "chain h [] = True"
| "chain h [a] = True"
| "chain h (a # b # xs) = (nxt (h a) = b \<and> prv (h b) = a \<and> chain h (b # xs))"

definition dll :: "lstore \<Rightarrow> laddr \<Rightarrow> laddr list \<Rightarrow> bool" where
  "dll h l xs \<longleftrightarrow> distinct (l # xs) \<and> chain h (l # xs @ [l])"

lemma chain_append:
  "chain h (xs @ a # ys) \<longleftrightarrow> chain h (xs @ [a]) \<and> chain h (a # ys)"
proof (induction xs)
  case Nil
  then show ?case by simp
next
  case (Cons x xs)
  then show ?case by (cases xs) auto
qed

lemma chain_two: "chain h (xs @ [a, b]) \<longleftrightarrow> chain h (xs @ [a]) \<and> nxt (h a) = b \<and> prv (h b) = a"
  using chain_append [of h xs a "[b]"] by simp

text \<open>Only the \<open>nxt\<close> fields before the last node and the \<open>prv\<close> fields after the first matter.\<close>

lemma chain_cong:
  assumes "chain h (a # xs)"
    and "\<And>x. x \<in> set (butlast (a # xs)) \<Longrightarrow> nxt (h' x) = nxt (h x)"
    and "\<And>x. x \<in> set xs \<Longrightarrow> prv (h' x) = prv (h x)"
  shows "chain h' (a # xs)"
  using assms
proof (induction xs arbitrary: a)
  case Nil
  then show ?case by simp
next
  case (Cons b xs)
  have "chain h' (b # xs)"
    by (rule Cons.IH) (use Cons.prems in \<open>auto split: if_splits\<close>)
  with Cons.prems show ?case by auto
qed

lemma store_upd_simps [simp]:
  "nxt (set_nxt p v h q) = (if q = p then v else nxt (h q))"
  "prv (set_nxt p v h q) = prv (h q)"
  "prv (set_prv p v h q) = (if q = p then v else prv (h q))"
  "nxt (set_prv p v h q) = nxt (h q)"
  by (simp_all add: set_nxt_def set_prv_def)

lemma dll_Nil: "dll h l [] \<longleftrightarrow> nxt (h l) = l \<and> prv (h l) = l"
  by (simp add: dll_def)

lemma dll_nxt: "dll h l (x # xs) \<Longrightarrow> nxt (h l) = x"
  by (simp add: dll_def)

lemma dll_prv: "dll h l (xs @ [x]) \<Longrightarrow> prv (h l) = x"
  using chain_two [of h "l # xs" x l] by (simp add: dll_def)

lemma dll_init: "dll (list_init l h) l []"
  by (simp add: dll_Nil list_init_def)

lemma dll_is_empty: "dll h l xs \<Longrightarrow> list_is_empty l h \<longleftrightarrow> xs = []"
  by (cases xs) (auto simp: dll_def list_is_empty_def)

lemma dll_is_last:
  assumes "dll h l (xs @ x # ys)"
  shows "list_item_is_last x l h \<longleftrightarrow> ys = []"
proof -
  from assms have "chain h ((l # xs) @ x # (ys @ [l]))" by (simp add: dll_def)
  then have "chain h (x # ys @ [l])" using chain_append by blast
  with assms show ?thesis
    by (cases ys) (auto simp: list_item_is_last_def dll_def)
qed

section \<open>The operations implement sequence operations\<close>

lemma dll_prepend:
  assumes d: "dll h l xs" and new: "x \<notin> set (l # xs)"
  shows "dll (list_item_prepend x l h) l (x # xs)"
proof -
  let ?h = "list_item_prepend x l h"
  obtain n ys where ns: "xs @ [l] = n # ys" by (cases "xs @ [l]") auto
  have n: "nxt (h l) = n" using d ns by (simp add: dll_def)
  have ch: "chain h (n # ys)" using d ns by (simp add: dll_def)
  have set_ns: "set (n # ys) = set (l # xs)" using ns by (metis set_append set_simps(2) list.set(1) Un_commute insert_is_Un)
  have dy: "distinct (n # ys)" using d ns by (metis dll_def distinct_append distinct.simps(2) distinct1_rotate rotate1.simps(2))
  have bl: "butlast (n # ys) = xs" using ns by (metis butlast_snoc)
  have "chain ?h (n # ys)"
    by (rule chain_cong [OF ch])
       (use dy bl d new set_ns in \<open>auto simp: list_item_prepend_def Let_def n dll_def\<close>)
  moreover have "nxt (?h x) = n" "prv (?h n) = x" "nxt (?h l) = x" "prv (?h x) = l"
    using new set_ns by (auto simp: list_item_prepend_def Let_def n)
  ultimately have "chain ?h (l # x # n # ys)" by simp
  then show ?thesis using d new by (auto simp: dll_def ns)
qed

lemma dll_append:
  assumes d: "dll h l xs" and new: "x \<notin> set (l # xs)"
  shows "dll (list_item_append x l h) l (xs @ [x])"
proof -
  let ?h = "list_item_append x l h"
  obtain t ys where ys: "l # xs = ys @ [t]" by (metis rev_exhaust list.distinct(1))
  then have eq: "l # xs @ [l] = ys @ [t, l]" "l # (xs @ [x]) @ [l] = ys @ t # [x, l]"
    by (metis append_Cons append_assoc append_Nil)+
  have ch: "chain h (ys @ [t, l])" using d unfolding dll_def eq(1) by blast
  then have t: "prv (h l) = t" by (simp add: chain_two)
  have inset: "t \<in> set (l # xs)" using ys by (metis in_set_conv_decomp)
  have dist: "distinct (ys @ [t])" using d ys by (simp add: dll_def)
  have front: "chain h (l # xs)" using ch ys by (simp add: chain_two)
  have bl: "butlast (l # xs) = ys" using ys by simp
  have "chain ?h (l # xs)"
    by (rule chain_cong [OF front])
       (use bl dist d new inset in \<open>auto simp: list_item_append_def Let_def t dll_def dest: in_set_butlastD split: if_splits\<close>)
  then have "chain ?h (ys @ [t])" using ys by simp
  moreover have "nxt (?h t) = x" "prv (?h x) = t" "nxt (?h x) = l" "prv (?h l) = x"
    using new inset by (auto simp: list_item_append_def Let_def t)
  ultimately have "chain ?h (l # (xs @ [x]) @ [l])"
    unfolding eq(2) chain_append [of ?h ys t "[x, l]"] by simp
  then show ?thesis using d new by (auto simp: dll_def)
qed

text \<open>Joining two untouched chains by two new pointers.\<close>

lemma chain_join:
  assumes front: "chain h (a # as)" and rear: "chain h (n # ns)" and p: "last (a # as) = p"
    and new: "nxt (h' p) = n" "prv (h' n) = p"
    and same_n: "\<And>q. q \<in> set (butlast (a # as)) \<union> set (butlast (n # ns)) \<Longrightarrow> nxt (h' q) = nxt (h q)"
    and same_p: "\<And>q. q \<in> set as \<union> set ns \<Longrightarrow> prv (h' q) = prv (h q)"
  shows "chain h' ((a # as) @ n # ns)"
proof -
  have f: "chain h' (a # as)" and b: "chain h' (n # ns)"
    by (rule chain_cong [OF front], (simp add: same_n same_p)+)
       (rule chain_cong [OF rear], (simp add: same_n same_p)+)
  obtain ps where ps: "a # as = ps @ [p]" using p by (metis append_butlast_last_id list.distinct(1))
  then have "(a # as) @ n # ns = ps @ p # n # ns" by simp
  with f b new ps show ?thesis using chain_append [of h' ps p "n # ns"] by simp
qed

lemma dll_split:
  assumes d: "dll h l (xs @ x # ys)"
  shows "chain h (l # xs)" "chain h (ys @ [l])"
    "nxt (h (last (l # xs))) = x" "prv (h x) = last (l # xs)"
    "nxt (h x) = hd (ys @ [l])" "prv (h (hd (ys @ [l]))) = x"
proof -
  obtain ps p where ps: "l # xs = ps @ [p]" by (metis rev_exhaust list.distinct(1))
  then have p: "last (l # xs) = p" by simp
  obtain n ns where ns: "ys @ [l] = n # ns" by (cases "ys @ [l]") auto
  have eq: "l # (xs @ x # ys) @ [l] = ps @ p # x # n # ns"
    using ps ns by (metis append_Cons append_assoc append_Nil)
  have "chain h (ps @ p # x # n # ns)" using d unfolding dll_def eq by blast
  then have "chain h (ps @ [p])" "nxt (h p) = x" "prv (h x) = p"
    "nxt (h x) = n" "prv (h n) = x" "chain h (n # ns)"
    using chain_append [of h ps p "x # n # ns"] by auto
  then show "chain h (l # xs)" "chain h (ys @ [l])"
    "nxt (h (last (l # xs))) = x" "prv (h x) = last (l # xs)"
    "nxt (h x) = hd (ys @ [l])" "prv (h (hd (ys @ [l]))) = x"
    unfolding p ns ps by simp_all
qed

lemma dll_del:
  assumes d: "dll h l (xs @ x # ys)"
  shows "dll (list_item_del x h) l (xs @ ys)"
proof -
  let ?h = "list_item_del x h" and ?p = "last (l # xs)"
  obtain n ns where ns: "ys @ [l] = n # ns" by (cases "ys @ [l]") auto
  note sp = dll_split [OF d, unfolded ns list.sel]
  have dist: "distinct (l # xs @ x # ys)" using d by (simp add: dll_def)
  have bn: "butlast (n # ns) = ys" using ns by (metis butlast_snoc)
  have nmem: "n \<in> set (ys @ [l])" by (simp add: ns)
  have "distinct (ys @ [l])" using dist by auto
  then have dns: "n \<notin> set ns" unfolding ns by simp
  have pmem: "?p \<in> set (l # xs)" by (metis last_in_set list.distinct(1))
  have pbl: "?p \<notin> set (butlast (l # xs))"
    using dist by (metis append_butlast_last_id distinct.simps(2) distinct_append disjoint_insert(1)
        list.distinct(1) list.simps(15) append_Cons)
  have px: "?p \<noteq> x" "n \<noteq> x" using pmem nmem dist by auto
  have h: "nxt (?h q) = (if q = ?p then n else nxt (h q))"
          "prv (?h q) = (if q = n then ?p else prv (h q))" for q
    using sp px by (auto simp: list_item_del_def Let_def)
  have "chain ?h ((l # xs) @ n # ns)"
  proof (rule chain_join [OF sp(1) sp(2)])
    show "last (l # xs) = ?p" "nxt (?h ?p) = n" "prv (?h n) = ?p" by (simp_all add: h)
    show "nxt (?h q) = nxt (h q)" if "q \<in> set (butlast (l # xs)) \<union> set (butlast (n # ns))" for q
      using that pbl pmem dist unfolding bn h by auto
    show "prv (?h q) = prv (h q)" if "q \<in> set xs \<union> set ns" for q
      using that dns nmem dist unfolding h by auto
  qed
  then have "chain ?h (l # (xs @ ys) @ [l])" by (simp add: ns)
  with dist show ?thesis by (simp add: dll_def)
qed

section \<open>Iteration\<close>

lemma list_walk_nxt:
  assumes "chain h (p # xs @ [l])" "l \<notin> set xs" "length xs < fuel"
  shows "list_walk fuel nxt h l (nxt (h p)) = Some xs"
  using assms
proof (induction xs arbitrary: p fuel)
  case Nil
  then show ?case by (cases fuel) auto
next
  case (Cons x xs)
  then obtain f where "fuel = Suc f" "length xs < f" by (cases fuel) auto
  with Cons show ?case by (auto intro: Cons.IH)
qed

lemma list_walk_prv:
  assumes "chain h (l # xs @ [p])" "l \<notin> set xs" "length xs < fuel"
  shows "list_walk fuel prv h l (prv (h p)) = Some (rev xs)"
  using assms
proof (induction xs arbitrary: p fuel rule: rev_induct)
  case Nil
  then show ?case by (cases fuel) auto
next
  case (snoc x xs)
  then obtain f where f: "fuel = Suc f" "length xs < f" by (cases fuel) auto
  have "chain h ((l # xs) @ [x, p])" using snoc.prems by simp
  then have "chain h (l # xs @ [x])" "prv (h p) = x"
    using chain_two [of h "l # xs" x p] by simp_all
  with snoc f show ?case by (auto intro: snoc.IH)
qed

lemma dll_list_for_item:
  "dll h l xs \<Longrightarrow> length xs < fuel \<Longrightarrow> list_for_item fuel l h = Some xs"
  by (auto simp: dll_def list_for_item_def intro!: list_walk_nxt)

lemma dll_list_for_item_prev:
  "dll h l xs \<Longrightarrow> length xs < fuel \<Longrightarrow> list_for_item_prev fuel l h = Some (rev xs)"
  by (auto simp: dll_def list_for_item_prev_def intro!: list_walk_prv)

section \<open>Operations leave the other lists alone\<close>

lemma dll_cong:
  assumes "dll h m ys" and "\<And>q. q \<in> set (m # ys) \<Longrightarrow> h' q = h q"
  shows "dll h' m ys"
  using assms by (auto simp: dll_def intro!: chain_cong [of h m "ys @ [m]" h'] dest: in_set_butlastD)

lemma nxt_in: "dll h l xs \<Longrightarrow> nxt (h l) \<in> set (l # xs)"
  by (cases xs) (auto simp: dll_def)

lemma prv_in: "dll h l xs \<Longrightarrow> prv (h l) \<in> set (l # xs)"
  by (cases xs rule: rev_cases) (auto simp: dll_Nil dest: dll_prv)

lemma upd_other [simp]:
  "q \<noteq> p \<Longrightarrow> set_nxt p v h q = h q" "q \<noteq> p \<Longrightarrow> set_prv p v h q = h q"
  by (simp_all add: set_nxt_def set_prv_def)

lemma prepend_other:
  assumes "dll h l xs" "q \<notin> set (x # l # xs)"
  shows "list_item_prepend x l h q = h q"
proof -
  have "q \<noteq> nxt (h l)" using assms nxt_in [OF assms(1)] by auto
  with assms(2) show ?thesis by (simp add: list_item_prepend_def Let_def)
qed

lemma append_other:
  assumes "dll h l xs" "q \<notin> set (x # l # xs)"
  shows "list_item_append x l h q = h q"
proof -
  have "q \<noteq> prv (h l)" using assms prv_in [OF assms(1)] by auto
  with assms(2) show ?thesis by (simp add: list_item_append_def Let_def)
qed

lemma del_other:
  assumes d: "dll h l (xs @ x # ys)" and q: "q \<notin> set (l # xs @ x # ys)"
  shows "list_item_del x h q = h q"
proof -
  have "hd (ys @ [l]) \<in> set (ys @ [l])" "last (l # xs) \<in> set (l # xs)"
    by (metis hd_in_set append_is_Nil_conv list.distinct(1)) (metis last_in_set list.distinct(1))
  with dll_split(4,5) [OF d] q have "q \<noteq> nxt (h x)" "q \<noteq> prv (h x)" by auto
  then show ?thesis by (simp add: list_item_del_def Let_def)
qed

section \<open>The list interface\<close>

locale list_interface =
  fixes rep :: "'s \<Rightarrow> 'a \<Rightarrow> 'a list \<Rightarrow> bool"
    and prepend :: "'a \<Rightarrow> 'a \<Rightarrow> 's \<Rightarrow> 's"
    and append :: "'a \<Rightarrow> 'a \<Rightarrow> 's \<Rightarrow> 's"
    and del :: "'a \<Rightarrow> 's \<Rightarrow> 's"
    and first :: "'a \<Rightarrow> 's \<Rightarrow> 'a"
  assumes rep_distinct: "rep s l xs \<Longrightarrow> distinct (l # xs)"
    and rep_prepend: "rep s l xs \<Longrightarrow> x \<notin> set (l # xs) \<Longrightarrow> rep (prepend x l s) l (x # xs)"
    and rep_append: "rep s l xs \<Longrightarrow> x \<notin> set (l # xs) \<Longrightarrow> rep (append x l s) l (xs @ [x])"
    and rep_del: "rep s l (xs @ x # ys) \<Longrightarrow> rep (del x s) l (xs @ ys)"
    and rep_first: "rep s l (x # xs) \<Longrightarrow> first l s = x"
    and frame_append: "rep s l xs \<Longrightarrow> rep s m ys \<Longrightarrow> set (x # l # xs) \<inter> set (m # ys) = {} \<Longrightarrow>
      rep (append x l s) m ys"
    and frame_del: "rep s l (xs @ x # zs) \<Longrightarrow> rep s m ys \<Longrightarrow>
      set (l # xs @ x # zs) \<inter> set (m # ys) = {} \<Longrightarrow> rep (del x s) m ys"
begin

lemma append_all:
  "rep s l xs \<Longrightarrow> distinct (l # xs @ ys) \<Longrightarrow> rep (fold (\<lambda>x. append x l) ys s) l (xs @ ys)"
proof (induction ys arbitrary: s xs)
  case Nil
  then show ?case by simp
next
  case (Cons y ys)
  then have "rep (append y l s) l (xs @ [y])" by (intro rep_append) auto
  with Cons.prems Cons.IH [of "append y l s" "xs @ [y]"] show ?case by simp
qed

lemma prepend_all:
  "rep s l xs \<Longrightarrow> distinct (l # xs @ ys) \<Longrightarrow> rep (fold (\<lambda>x. prepend x l) ys s) l (rev ys @ xs)"
proof (induction ys arbitrary: s xs)
  case Nil
  then show ?case by simp
next
  case (Cons y ys)
  then have "rep (prepend y l s) l (y # xs)" by (intro rep_prepend) auto
  with Cons.prems Cons.IH [of "prepend y l s" "y # xs"] show ?case by simp
qed

text \<open>First in, first out: what was appended first is taken first.\<close>

lemma fifo:
  assumes "rep s l []" "distinct (l # y # ys)"
  shows "first l (fold (\<lambda>x. append x l) (y # ys) s) = y"
    and "rep (del y (fold (\<lambda>x. append x l) (y # ys) s)) l ys"
proof -
  have r: "rep (fold (\<lambda>x. append x l) (y # ys) s) l (y # ys)"
    using append_all [OF assms(1), of "y # ys"] assms(2) by simp
  then show "first l (fold (\<lambda>x. append x l) (y # ys) s) = y" by (rule rep_first)
  show "rep (del y (fold (\<lambda>x. append x l) (y # ys) s)) l ys"
    using rep_del [of _ l "[]" y ys] r by simp
qed

text \<open>Moving the first item of one list to the tail of another, as the message queues do.\<close>

lemma move_first:
  assumes l: "rep s l (x # xs)" and m: "rep s m ys" and dj: "set (l # x # xs) \<inter> set (m # ys) = {}"
  shows "rep (append x m (del x s)) l xs" "rep (append x m (del x s)) m (ys @ [x])"
proof -
  have l': "rep (del x s) l xs" using rep_del [of s l "[]" x xs] l by simp
  have m': "rep (del x s) m ys" using frame_del [of s l "[]" x xs m ys] l m dj by simp
  have x: "x \<notin> set (m # ys)" "x \<notin> set (l # xs)" using dj rep_distinct [OF l] by auto
  show "rep (append x m (del x s)) m (ys @ [x])" using m' x(1) by (rule rep_append)
  show "rep (append x m (del x s)) l xs"
    using m' l' by (rule frame_append) (use x dj in auto)
qed

end

interpretation reef_list: list_interface dll list_item_prepend list_item_append list_item_del list_first_item
proof unfold_locales
  show "distinct (l # xs)" if "dll s l xs" for s l xs using that by (simp add: dll_def)
  show "dll (list_item_append x l s) m ys"
    if "dll s l xs" "dll s m ys" "set (x # l # xs) \<inter> set (m # ys) = {}" for s l xs m ys x
    by (rule dll_cong [OF that(2)], rule append_other [OF that(1)]) (use that(3) in blast)
  show "dll (list_item_del x s) m ys"
    if "dll s l (xs @ x # zs)" "dll s m ys" "set (l # xs @ x # zs) \<inter> set (m # ys) = {}"
    for s l xs x zs m ys
    by (rule dll_cong [OF that(2)], rule del_other [OF that(1)]) (use that(3) in blast)
qed (simp_all add: dll_prepend dll_append dll_del list_first_item_def dll_nxt)

end
