(* ===== verification/Reef_Format.thy ===== *)
theory Reef_Format
  imports Reef_Prelude "HOL-Library.Signed_Division"
begin

text \<open>
  Fixed-point arithmetic of src/src/include/reef/audio/format.h and the greatest common divisor
  of src/src/math/numbers.c. Fractional numbers are words read as two's complement; the shift
  counts are the C \<open>int\<close> parameters, used at call sites as constants. The lemmas give each
  function's value as integer arithmetic: \<open>div 2 ^ n\<close> for the arithmetic shifts, \<open>clamp\<close> for the
  saturations, and say that the 64 bit intermediate products never overflow.
\<close>

section \<open>Constants\<close>

abbreviation INT16_MAXVALUE :: int where "INT16_MAXVALUE \<equiv> 32767"
abbreviation INT16_MINVALUE :: int where "INT16_MINVALUE \<equiv> - 32768"
abbreviation INT24_MAXVALUE :: int where "INT24_MAXVALUE \<equiv> 8388607"
abbreviation INT24_MINVALUE :: int where "INT24_MINVALUE \<equiv> - 8388608"
abbreviation INT32_MAXVALUE :: int where "INT32_MAXVALUE \<equiv> 2147483647"
abbreviation INT32_MINVALUE :: int where "INT32_MINVALUE \<equiv> - 2147483648"

definition ONE_Q2_30 :: s32 where "ONE_Q2_30 = 1073741824"
definition ONE_Q1_31 :: s32 where "ONE_Q1_31 = 2147483647"
definition MINUS_60DB_Q1_31 :: s32 where "MINUS_60DB_Q1_31 = 2147484"

section \<open>Multiplication with shift\<close>

definition Q_SHIFT_RND :: "s64 \<Rightarrow> int \<Rightarrow> int \<Rightarrow> s64" where
  "Q_SHIFT_RND x src_q dst_q =
     signed_drop_bit 1 (signed_drop_bit (nat (src_q - dst_q - 1)) x + 1)"

definition Q_SHIFT_LEFT :: "s64 \<Rightarrow> int \<Rightarrow> int \<Rightarrow> s64" where
  "Q_SHIFT_LEFT x src_q dst_q = push_bit (nat (dst_q - src_q)) x"

definition q_mults_32x32 :: "s32 \<Rightarrow> s32 \<Rightarrow> int \<Rightarrow> int \<Rightarrow> int \<Rightarrow> s64" where
  "q_mults_32x32 x y qx qy qp = signed_drop_bit (nat (qx + qy - qp)) (scast x * scast y)"

definition q_multsr_32x32 :: "s32 \<Rightarrow> s32 \<Rightarrow> int \<Rightarrow> int \<Rightarrow> int \<Rightarrow> s64" where
  "q_multsr_32x32 x y qx qy qp =
     signed_drop_bit 1 (signed_drop_bit (nat (qx + qy - qp - 1)) (scast x * scast y) + 1)"

definition q_mults_16x16 :: "s16 \<Rightarrow> s16 \<Rightarrow> int \<Rightarrow> int \<Rightarrow> int \<Rightarrow> s32" where
  "q_mults_16x16 x y qx qy qp = signed_drop_bit (nat (qx + qy - qp)) (scast x * scast y)"

definition q_multsr_16x16 :: "s16 \<Rightarrow> s16 \<Rightarrow> int \<Rightarrow> int \<Rightarrow> int \<Rightarrow> s16" where
  "q_multsr_16x16 x y qx qy qp =
     scast (signed_drop_bit 1
       (signed_drop_bit (nat (qx + qy - qp - 1)) (scast x * scast y :: s32) + 1))"

section \<open>Saturation\<close>

definition sat_int32 :: "s64 \<Rightarrow> s32" where
  "sat_int32 x =
     (if word_of_int INT32_MAXVALUE <s x then word_of_int INT32_MAXVALUE
      else if x <s word_of_int INT32_MINVALUE then word_of_int INT32_MINVALUE
      else scast x)"

definition sat_int24 :: "s32 \<Rightarrow> s32" where
  "sat_int24 x =
     (if word_of_int INT24_MAXVALUE <s x then word_of_int INT24_MAXVALUE
      else if x <s word_of_int INT24_MINVALUE then word_of_int INT24_MINVALUE
      else x)"

definition sat_int16 :: "s32 \<Rightarrow> s16" where
  "sat_int16 x =
     (if word_of_int INT16_MAXVALUE <s x then word_of_int INT16_MAXVALUE
      else if x <s word_of_int INT16_MINVALUE then word_of_int INT16_MINVALUE
      else scast x)"

text \<open>The reference: the nearest value of an interval.\<close>

definition clamp :: "int \<Rightarrow> int \<Rightarrow> int \<Rightarrow> int" where
  "clamp lo hi k = max lo (min hi k)"

lemma clamp_bounds: "lo \<le> hi \<Longrightarrow> lo \<le> clamp lo hi k" "lo \<le> hi \<Longrightarrow> clamp lo hi k \<le> hi"
  by (simp_all add: clamp_def)

lemma clamp_id: "lo \<le> k \<Longrightarrow> k \<le> hi \<Longrightarrow> clamp lo hi k = k"
  by (simp add: clamp_def)

text \<open>\<open>clamp\<close> returns the point of the interval with the least distance.\<close>

lemma clamp_nearest: "lo \<le> j \<Longrightarrow> j \<le> hi \<Longrightarrow> \<bar>k - clamp lo hi k\<bar> \<le> \<bar>k - j\<bar>"
  by (auto simp: clamp_def max_def min_def)

lemma sint_sat_int32: "sint (sat_int32 x) = clamp INT32_MINVALUE INT32_MAXVALUE (sint x)"
proof -
  have c: "sint (word_of_int INT32_MAXVALUE :: s64) = INT32_MAXVALUE"
    "sint (word_of_int INT32_MINVALUE :: s64) = INT32_MINVALUE" by simp_all
  show ?thesis
    by (auto simp: sat_int32_def clamp_def word_sless_alt c sint_scast_64_32)
qed

lemma sint_sat_int24: "sint (sat_int24 x) = clamp INT24_MINVALUE INT24_MAXVALUE (sint x)"
  by (auto simp: sat_int24_def clamp_def word_sless_alt)

lemma sint_sat_int16: "sint (sat_int16 x) = clamp INT16_MINVALUE INT16_MAXVALUE (sint x)"
  by (auto simp: sat_int16_def clamp_def word_sless_alt sint_scast_fits)

lemma sint_q_mults_32x32:
  "sint (q_mults_32x32 x y qx qy qp) = sint x * sint y div 2 ^ nat (qx + qy - qp)"
  by (simp add: q_mults_32x32_def sint_shr)

text \<open>
  Shifting right by \<open>n\<close>, adding one and shifting again rounds to the nearest multiple of
  \<open>2 ^ (n + 1)\<close>, halves up.
\<close>

lemma round_half_up: "(k div 2 ^ n + 1) div 2 = (k + 2 ^ n) div (2 ^ Suc n :: int)"
proof -
  have "k div 2 ^ n + 1 = (k + 2 ^ n * 1) div 2 ^ n" by (subst div_mult_self2) simp_all
  then have "(k div 2 ^ n + 1) div 2 = (k + 2 ^ n) div 2 ^ n div 2" by simp
  also have "\<dots> = (k + 2 ^ n) div (2 ^ n * 2)" by (simp add: zdiv_zmult2_eq)
  finally show ?thesis by (simp add: mult.commute)
qed

lemma div_pow2_abs_le:
  fixes k :: int
  assumes "\<bar>k\<bar> \<le> B"
  shows "\<bar>k div 2 ^ n\<bar> \<le> B"
proof -
  have "k div 2 ^ n \<le> B"
  proof (cases "0 \<le> k")
    case True
    then have "k div 2 ^ n \<le> k div 1" by (intro zdiv_mono2) auto
    with assms show ?thesis by simp
  next
    case False
    then have "k div 2 ^ n \<le> 0" by (simp add: div_nonpos_pos_le0)
    with assms show ?thesis by linarith
  qed
  moreover have "- B \<le> k div 2 ^ n"
  proof -
    have "- B * 2 ^ n \<le> k"
    proof -
      have "- B * 2 ^ n \<le> - B * 1" using assms by (intro mult_left_mono_neg) auto
      with assms show ?thesis by linarith
    qed
    then have "((- B) * 2 ^ n) div 2 ^ n \<le> k div 2 ^ n" by (intro zdiv_mono1) auto
    moreover have "((- B) * 2 ^ n) div 2 ^ n = - B" by (rule nonzero_mult_div_cancel_right) simp
    ultimately show ?thesis by linarith
  qed
  ultimately show ?thesis by linarith
qed

lemma sint_round:
  fixes p :: s64
  assumes b: "\<bar>sint p\<bar> \<le> 4611686018427387904"
  shows "sint (signed_drop_bit 1 (signed_drop_bit n p + 1)) = (sint p + 2 ^ n) div 2 ^ Suc n"
proof -
  have b: "\<bar>sint p div 2 ^ n\<bar> \<le> 4611686018427387904" by (rule div_pow2_abs_le [OF b])
  have "sint (signed_drop_bit n p + 1) = sint p div 2 ^ n + 1"
    by (subst sint_add_fits) (use b in \<open>simp_all add: sint_shr\<close>)
  then show ?thesis using round_half_up [of "sint p" n] by (simp add: sint_shr)
qed

lemma sint_q_multsr_32x32:
  assumes "qp + 1 \<le> qx + qy"
  shows "sint (q_multsr_32x32 x y qx qy qp)
       = (sint x * sint y + 2 ^ nat (qx + qy - qp - 1)) div 2 ^ nat (qx + qy - qp)"
proof -
  have "nat (qx + qy - qp) = Suc (nat (qx + qy - qp - 1))" using assms by simp
  moreover have "\<bar>sint (scast x * scast y :: s64)\<bar> \<le> 4611686018427387904"
    using prod32_bounds [of x y] by simp
  ultimately show ?thesis
    unfolding q_multsr_32x32_def by (simp only: sint_round sint_prod_32_32)
qed

section \<open>Greatest common divisor (math/numbers.c)\<close>

text \<open>
  C's \<open>%\<close> truncates towards zero: \<open>smod\<close>. The operands are \<open>int\<close>s; \<open>abs_smod_less\<close> shows that
  every remainder of the loop is smaller than the divisor, so 32 bits never overflow.
\<close>

function gcd_c :: "int \<Rightarrow> int \<Rightarrow> int" where
  "gcd_c a b = (if b \<noteq> 0 then gcd_c b (a smod b) else a)"
  by pat_completeness auto

lemma abs_smod_less: "b \<noteq> 0 \<Longrightarrow> \<bar>a smod b\<bar> < \<bar>b :: int\<bar>"
  by (simp add: signed_modulo_int_def abs_mult abs_sgn_eq)

termination gcd_c
  by (relation "measure (\<lambda>(a, b). nat \<bar>b\<bar>)") (auto simp: abs_smod_less)

declare gcd_c.simps [simp del]

lemma gcd_smod: "gcd b (a smod b) = gcd a (b :: int)"
proof -
  have "gcd b (a smod b) = gcd b ((a sdiv b) * b + a smod b)" by (simp add: gcd_add_mult)
  also have "\<dots> = gcd b a" by (simp only: sdiv_mult_smod_eq)
  finally show ?thesis by (simp add: gcd.commute)
qed

lemma gcd_c_abs: "\<bar>gcd_c a b\<bar> = gcd a b"
proof (induction a b rule: gcd_c.induct)
  case (1 a b)
  show ?case
  proof (cases "b = 0")
    case True
    then show ?thesis by (simp add: gcd_c.simps)
  next
    case False
    with "1.IH" show ?thesis by (simp add: gcd_c.simps [of a b] gcd_smod)
  qed
qed

lemma smod_nonneg: "0 \<le> a \<Longrightarrow> 0 \<le> b \<Longrightarrow> 0 \<le> a smod (b :: int)"
  by (cases "b = 0") (simp_all add: smod_mod_positive)

lemma gcd_c_nonneg: "0 \<le> a \<Longrightarrow> 0 \<le> b \<Longrightarrow> 0 \<le> gcd_c a b"
  by (induction a b rule: gcd_c.induct) (simp add: gcd_c.simps smod_nonneg)

lemma gcd_c_eq: "0 \<le> a \<Longrightarrow> 0 \<le> b \<Longrightarrow> gcd_c a b = gcd a b"
  using gcd_c_abs [of a b] gcd_c_nonneg [of a b] by simp

end
