(* ===== verification/Reef_Memory.thy ===== *)
theory Reef_Memory
  imports Reef_Prelude
begin

unbundle bit_operations_syntax

text \<open>
  The DSP's byte-addressed memory and the two byte routines of src/src/lib/lib.c. A memory maps
  32 bit addresses to bytes; 16 and 32 bit accesses are little endian, as on the Baytrail DSP.
  The lemmas say that a load returns the last store to its bytes and that a store changes its
  own bytes only, in terms of the address interval \<open>region\<close>; \<open>bzero\<close> and \<open>memset\<close> are proved to
  fill exactly the bytes they are given.
\<close>

section \<open>Loads and stores\<close>

type_synonym mem = "u32 \<Rightarrow> u8"

definition byte_of :: "nat \<Rightarrow> 'a::len word \<Rightarrow> u8" where
  "byte_of k w = ucast (drop_bit (8 * k) w)"

definition load16 :: "mem \<Rightarrow> u32 \<Rightarrow> u16" where
  "load16 m a = ucast (m a) OR push_bit 8 (ucast (m (a + 1)))"

definition load32 :: "mem \<Rightarrow> u32 \<Rightarrow> u32" where
  "load32 m a = ucast (m a) OR push_bit 8 (ucast (m (a + 1)))
     OR push_bit 16 (ucast (m (a + 2))) OR push_bit 24 (ucast (m (a + 3)))"

definition store16 :: "mem \<Rightarrow> u32 \<Rightarrow> u16 \<Rightarrow> mem" where
  "store16 m a v = m(a := byte_of 0 v, a + 1 := byte_of 1 v)"

definition store32 :: "mem \<Rightarrow> u32 \<Rightarrow> u32 \<Rightarrow> mem" where
  "store32 m a v = m(a := byte_of 0 v, a + 1 := byte_of 1 v,
     a + 2 := byte_of 2 v, a + 3 := byte_of 3 v)"

lemma load16_store16 [simp]: "load16 (store16 m a v) a = v"
  by (rule bit_word_eqI) (auto simp: load16_def store16_def byte_of_def bit_simps)

lemma load32_store32 [simp]: "load32 (store32 m a v) a = v"
proof (rule bit_word_eqI)
  fix n assume "n < LENGTH(32)"
  then have "n < 32" by simp
  then consider "n < 8" | "8 \<le> n" "n < 16" | "16 \<le> n" "n < 24" | "24 \<le> n" "n < 32" by linarith
  then show "bit (load32 (store32 m a v) a) n = bit v n"
    by cases (auto simp: load32_def store32_def byte_of_def bit_simps)
qed

section \<open>Address intervals\<close>

text \<open>\<open>region a n\<close>: the \<open>n\<close> byte addresses from \<open>a\<close>; \<open>fits a n\<close>: they do not wrap around.\<close>

definition region :: "u32 \<Rightarrow> nat \<Rightarrow> nat set" where
  "region a n = {unat a ..< unat a + n}"

definition fits :: "u32 \<Rightarrow> nat \<Rightarrow> bool" where
  "fits a n \<longleftrightarrow> unat a + n \<le> 2 ^ 32"

lemma unat_offset: "fits a n \<Longrightarrow> k < n \<Longrightarrow> unat (a + of_nat k) = unat a + k"
  by (simp add: fits_def unat_word_ariths unat_of_nat)

lemma fits_offset: "fits a (k + n) \<Longrightarrow> 0 < n \<Longrightarrow> fits (a + of_nat k) n"
  using unat_offset [of a "k + n" k] by (simp add: fits_def)

lemma fits_le: "fits a n \<Longrightarrow> k \<le> n \<Longrightarrow> fits a k"
  by (simp add: fits_def)

lemma region_offset: "fits a (k + n) \<Longrightarrow> 0 < n \<Longrightarrow> region (a + of_nat k) n \<subseteq> region a (k + n)"
  using unat_offset [of a "k + n" k] by (auto simp: region_def)

lemma region_le: "k \<le> n \<Longrightarrow> region a k \<subseteq> region a n"
  by (auto simp: region_def)

lemma region_before: "unat a + n \<le> unat b \<Longrightarrow> region a n \<inter> region b m = {}"
  by (auto simp: region_def)

lemma region_after: "unat b + m \<le> unat a \<Longrightarrow> region a n \<inter> region b m = {}"
  by (auto simp: region_def)

lemma store16_other: "fits a 2 \<Longrightarrow> unat x \<notin> region a 2 \<Longrightarrow> store16 m a v x = m x"
  using unat_offset [of a 2 1] by (auto simp: store16_def region_def)

lemma store32_other: "fits a 4 \<Longrightarrow> unat x \<notin> region a 4 \<Longrightarrow> store32 m a v x = m x"
  using unat_offset [of a 4 1] unat_offset [of a 4 2] unat_offset [of a 4 3]
  by (auto simp: store32_def region_def)

lemma load16_cong:
  assumes "fits a 2" "\<And>x. unat x \<in> region a 2 \<Longrightarrow> m' x = m x"
  shows "load16 m' a = load16 m a"
  using assms unat_offset [of a 2 1] by (auto simp: load16_def region_def)

lemma load32_cong:
  assumes "fits a 4" "\<And>x. unat x \<in> region a 4 \<Longrightarrow> m' x = m x"
  shows "load32 m' a = load32 m a"
  using assms unat_offset [of a 4 1] unat_offset [of a 4 2] unat_offset [of a 4 3]
  by (auto simp: load32_def region_def)

section \<open>bzero and memset\<close>

text \<open>\<open>for (i = 0; i < d; i++) d32[i] = 0\<close> and the byte loops of \<open>bzero\<close> and \<open>memset\<close>.\<close>

fun zero_words :: "nat \<Rightarrow> nat \<Rightarrow> u32 \<Rightarrow> mem \<Rightarrow> mem" where
  "zero_words 0 i s m = m"
| "zero_words (Suc d) i s m = zero_words d (Suc i) s (store32 m (s + of_nat (4 * i)) 0)"

fun set_bytes :: "nat \<Rightarrow> nat \<Rightarrow> u32 \<Rightarrow> u8 \<Rightarrow> mem \<Rightarrow> mem" where
  "set_bytes 0 i s v m = m"
| "set_bytes (Suc r) i s v m = set_bytes r (Suc i) s v (m(s + of_nat i := v))"

definition bzero :: "mem \<Rightarrow> u32 \<Rightarrow> u32 \<Rightarrow> mem" where
  "bzero m s n =
     (let d = unat (drop_bit 2 n); r = unat (n mod 4);
          m = zero_words d 0 s m
      in set_bytes r 0 (s + of_nat (4 * d)) 0 m)"

definition memset :: "mem \<Rightarrow> u32 \<Rightarrow> s32 \<Rightarrow> u32 \<Rightarrow> mem" where
  "memset m s c n = set_bytes (unat n) 0 s (ucast c) m"

lemma set_bytes_eq:
  "fits s (i + r) \<Longrightarrow> set_bytes r i s v m x = (if unat s + i \<le> unat x \<and> unat x < unat s + i + r then v else m x)"
proof (induction r arbitrary: i m)
  case 0
  then show ?case by auto
next
  case (Suc r)
  have "unat (s + of_nat i) = unat s + i" using Suc.prems by (intro unat_offset) auto
  then have "x = s + of_nat i \<longleftrightarrow> unat x = unat s + i" by (metis unsigned_word_eqI)
  moreover have "set_bytes r (Suc i) s v (m(s + of_nat i := v)) x =
      (if unat s + Suc i \<le> unat x \<and> unat x < unat s + Suc i + r then v else (m(s + of_nat i := v)) x)"
    by (rule Suc.IH) (use Suc.prems in simp)
  ultimately show ?case unfolding set_bytes.simps by auto
qed

lemma store32_zero_eq:
  "fits a 4 \<Longrightarrow> store32 m a 0 x = (if unat x \<in> region a 4 then 0 else m x)"
proof (cases "unat x \<in> region a 4")
  case True
  assume f: "fits a 4"
  have u: "unat (a + 1) = unat a + 1" "unat (a + 2) = unat a + 2" "unat (a + 3) = unat a + 3"
    using unat_offset [OF f, of 1] unat_offset [OF f, of 2] unat_offset [OF f, of 3] by simp_all
  from True have "unat x \<in> {unat a, unat a + 1, unat a + 2, unat a + 3}" by (auto simp: region_def)
  then have "x \<in> {a, a + 1, a + 2, a + 3}" using u by (auto simp: word_unat_eq_iff)
  with True show ?thesis by (auto simp: store32_def byte_of_def)
qed (simp add: store32_other)

lemma zero_words_eq:
  "fits s (4 * (i + d)) \<Longrightarrow> zero_words d i s m x =
     (if unat s + 4 * i \<le> unat x \<and> unat x < unat s + 4 * (i + d) then 0 else m x)"
proof (induction d arbitrary: i m)
  case 0
  then show ?case by auto
next
  case (Suc d)
  have f: "fits (s + of_nat (4 * i)) 4"
    using Suc.prems by (intro fits_offset) (auto elim: fits_le)
  have "unat (s + of_nat (4 * i)) = unat s + 4 * i"
    using Suc.prems by (intro unat_offset) auto
  then have "unat x \<in> region (s + of_nat (4 * i)) 4 \<longleftrightarrow> unat s + 4 * i \<le> unat x \<and> unat x < unat s + 4 * i + 4"
    by (auto simp: region_def)
  moreover have "zero_words d (Suc i) s (store32 m (s + of_nat (4 * i)) 0) x =
      (if unat s + 4 * Suc i \<le> unat x \<and> unat x < unat s + 4 * (Suc i + d) then 0
       else store32 m (s + of_nat (4 * i)) 0 x)"
    by (rule Suc.IH) (use Suc.prems in simp)
  ultimately show ?case unfolding zero_words.simps store32_zero_eq [OF f] by auto
qed

lemma bzero_eq:
  assumes f: "fits s (unat n)"
  shows "bzero m s n x = (if unat x \<in> region s (unat n) then 0 else m x)"
proof -
  let ?d = "unat n div 4" and ?r = "unat n mod 4"
  have d: "unat (drop_bit 2 n) = ?d" by (simp add: drop_bit_eq_div unat_div)
  have r: "unat (n mod 4) = ?r" by (simp add: unat_mod)
  have n: "unat n = 4 * ?d + ?r" by (rule mult_div_mod_eq [symmetric])
  have lt: "4 * ?d < unat n" if "?r \<noteq> 0" using n that by linarith
  have w: "zero_words ?d 0 s m x = (if unat s \<le> unat x \<and> unat x < unat s + 4 * ?d then 0 else m x)"
    using zero_words_eq [of s 0 ?d m x] f by (simp add: fits_def)
  show ?thesis
  proof (cases "?r = 0")
    case True
    then show ?thesis unfolding bzero_def Let_def d r using n w by (simp add: region_def)
  next
    case False
    have f': "fits (s + of_nat (4 * ?d)) ?r" using f False by (intro fits_offset) simp_all
    have u: "unat (s + of_nat (4 * ?d)) = unat s + 4 * ?d"
      by (rule unat_offset [OF f lt [OF False]])
    have "bzero m s n x = (if unat s + 4 * ?d \<le> unat x \<and> unat x < unat s + 4 * ?d + ?r then 0
        else zero_words ?d 0 s m x)"
      unfolding bzero_def Let_def d r using set_bytes_eq [of "s + of_nat (4 * ?d)" 0 ?r 0 _ x] f' u by simp
    with w n show ?thesis by (auto simp: region_def)
  qed
qed

lemma memset_eq:
  "fits s (unat n) \<Longrightarrow> memset m s c n x = (if unat x \<in> region s (unat n) then ucast c else m x)"
  using set_bytes_eq [of s 0 "unat n" "ucast c" m x] by (auto simp: memset_def region_def)

end
