(* ===== verification/Reef_Alloc.thy ===== *)
theory Reef_Alloc
  imports Reef_Memory
begin

unbundle bit_operations_syntax

text \<open>
  The heap of src/src/lib/alloc.c with the Baytrail configuration of
  platform/baytrail/include/platform/memory.h: the system zone (a pointer that only grows), the
  runtime zone (seven maps of fixed-size blocks) and the buffer zone (one map, with contiguous
  multi-block allocations). \<open>rt_heap_map\<close> and \<open>buf_heap_map\<close> are the static arrays the C heaps
  point to. A pointer is a 32 bit address, \<open>NULL\<close> is 0. A result \<open>None\<close> is a call that does not
  return normally: \<open>panic(PANIC_MEM)\<close>, a read outside a block header array or a division by a
  zero block size. The spinlock around each entry point makes it one atomic step.
\<close>

section \<open>State\<close>

record block_hdr =
  bh_size :: u16
  bh_flags :: u16

record block_map =
  block_size :: u16
  blk_count :: u16
  free_count :: u16
  first_free :: u16
  block :: "block_hdr list"
  base :: u32

record mm_info =
  mi_used :: u32
  mi_free :: u32

record mm_heap =
  hblocks :: u32
  heap :: u32
  heap_size :: u32
  info :: mm_info

record memmap =
  runtime :: mm_heap
  system :: mm_heap
  buffer :: mm_heap
  total :: mm_info
  rt_heap_map :: "block_map list"
  buf_heap_map :: "block_map list"

definition RFLAGS_NONE :: u16 where "RFLAGS_NONE = 0"
definition RFLAGS_USED :: u16 where "RFLAGS_USED = 1"

datatype zone = RZONE_SYS | RZONE_RUNTIME | RZONE_BUFFER

text \<open>Which heap (and so which block map array) \<open>alloc_block\<close> and \<open>free_block\<close> are given.\<close>

datatype heap_sel = Runtime_Heap | Buffer_Heap

fun heap_maps :: "heap_sel \<Rightarrow> memmap \<Rightarrow> block_map list" where
  "heap_maps Runtime_Heap st = rt_heap_map st"
| "heap_maps Buffer_Heap st = buf_heap_map st"

fun put_map :: "heap_sel \<Rightarrow> nat \<Rightarrow> block_map \<Rightarrow> memmap \<Rightarrow> memmap" where
  "put_map Runtime_Heap i m st = st\<lparr>rt_heap_map := (rt_heap_map st)[i := m]\<rparr>"
| "put_map Buffer_Heap i m st = st\<lparr>buf_heap_map := (buf_heap_map st)[i := m]\<rparr>"

fun upd_info :: "heap_sel \<Rightarrow> (mm_info \<Rightarrow> mm_info) \<Rightarrow> memmap \<Rightarrow> memmap" where
  "upd_info Runtime_Heap f st = st\<lparr>runtime := (runtime st)\<lparr>info := f (info (runtime st))\<rparr>\<rparr>"
| "upd_info Buffer_Heap f st = st\<lparr>buffer := (buffer st)\<lparr>info := f (info (buffer st))\<rparr>\<rparr>"

definition use_bytes :: "u32 \<Rightarrow> mm_info \<Rightarrow> mm_info" where
  "use_bytes n i = i\<lparr>mi_used := mi_used i + n, mi_free := mi_free i - n\<rparr>"

definition release_bytes :: "u32 \<Rightarrow> mm_info \<Rightarrow> mm_info" where
  "release_bytes n i = i\<lparr>mi_used := mi_used i - n, mi_free := mi_free i + n\<rparr>"

section \<open>Static configuration (platform/memory.h, alloc.c)\<close>

definition DRAM0_BASE :: u32 where "DRAM0_BASE = 0xFF300000"
definition DRAM0_SIZE :: u32 where "DRAM0_SIZE = 0x28000"
definition REEF_DATA_SIZE :: u32 where "REEF_DATA_SIZE = 0x6800"
definition REEF_STACK_SIZE :: u32 where "REEF_STACK_SIZE = 0x1000"
definition HEAP_SYSTEM_BASE :: u32 where "HEAP_SYSTEM_BASE = DRAM0_BASE + REEF_DATA_SIZE"
definition HEAP_SYSTEM_SIZE :: u32 where "HEAP_SYSTEM_SIZE = 0x2000"
definition HEAP_RUNTIME_BASE :: u32 where "HEAP_RUNTIME_BASE = HEAP_SYSTEM_BASE + HEAP_SYSTEM_SIZE"
definition HEAP_RUNTIME_SIZE :: u32 where
  "HEAP_RUNTIME_SIZE = 0 * 8 + 256 * 16 + 128 * 32 + 64 * 64 + 32 * 128 + 16 * 256 + 8 * 512 + 4 * 1024"
definition HEAP_BUFFER_BASE :: u32 where "HEAP_BUFFER_BASE = HEAP_RUNTIME_BASE + HEAP_RUNTIME_SIZE"
definition HEAP_BUFFER_SIZE :: u32 where
  "HEAP_BUFFER_SIZE = DRAM0_SIZE - HEAP_RUNTIME_SIZE - REEF_STACK_SIZE - HEAP_SYSTEM_SIZE"
definition HEAP_BUFFER_BLOCK_SIZE :: u32 where "HEAP_BUFFER_BLOCK_SIZE = 0x180"
definition HEAP_BUFFER_COUNT :: u32 where
  "HEAP_BUFFER_COUNT = HEAP_BUFFER_SIZE div HEAP_BUFFER_BLOCK_SIZE"

lemmas heap_config [reef_defs] = DRAM0_BASE_def DRAM0_SIZE_def REEF_DATA_SIZE_def
  REEF_STACK_SIZE_def HEAP_SYSTEM_BASE_def HEAP_SYSTEM_SIZE_def HEAP_RUNTIME_BASE_def
  HEAP_RUNTIME_SIZE_def HEAP_BUFFER_BASE_def HEAP_BUFFER_SIZE_def HEAP_BUFFER_BLOCK_SIZE_def
  HEAP_BUFFER_COUNT_def

text \<open>\<open>BLOCK_DEF\<close>: a map whose (static, zeroed) header array has \<open>cnt\<close> entries.\<close>

definition BLOCK_DEF :: "nat \<Rightarrow> nat \<Rightarrow> block_map" where
  "BLOCK_DEF sz cnt = \<lparr>block_size = of_nat sz, blk_count = of_nat cnt, free_count = of_nat cnt,
     first_free = 0, block = replicate cnt \<lparr>bh_size = 0, bh_flags = 0\<rparr>, base = 0\<rparr>"

definition memmap_static :: memmap where
  "memmap_static =
     \<lparr>runtime = \<lparr>hblocks = 7, heap = HEAP_RUNTIME_BASE, heap_size = HEAP_RUNTIME_SIZE,
        info = \<lparr>mi_used = 0, mi_free = HEAP_RUNTIME_SIZE\<rparr>\<rparr>,
      system = \<lparr>hblocks = 0, heap = HEAP_SYSTEM_BASE, heap_size = HEAP_SYSTEM_SIZE,
        info = \<lparr>mi_used = 0, mi_free = HEAP_SYSTEM_SIZE\<rparr>\<rparr>,
      buffer = \<lparr>hblocks = 1, heap = HEAP_BUFFER_BASE, heap_size = HEAP_BUFFER_SIZE,
        info = \<lparr>mi_used = 0, mi_free = HEAP_BUFFER_SIZE\<rparr>\<rparr>,
      total = \<lparr>mi_used = 0, mi_free = HEAP_SYSTEM_SIZE + HEAP_RUNTIME_SIZE + HEAP_BUFFER_SIZE\<rparr>,
      rt_heap_map = [BLOCK_DEF 16 256, BLOCK_DEF 32 128, BLOCK_DEF 64 64, BLOCK_DEF 128 32,
        BLOCK_DEF 256 16, BLOCK_DEF 512 8, BLOCK_DEF 1024 4],
      buf_heap_map = [BLOCK_DEF (unat HEAP_BUFFER_BLOCK_SIZE) (unat HEAP_BUFFER_COUNT)]\<rparr>"

text \<open>\<open>init_heap\<close>: each map starts where the previous one ends.\<close>

fun set_bases :: "u32 \<Rightarrow> block_map list \<Rightarrow> block_map list" where
  "set_bases b [] = []"
| "set_bases b (m # ms) =
     m\<lparr>base := b\<rparr> # set_bases (b + ucast (block_size m) * ucast (blk_count m)) ms"

definition init_heap :: "memmap \<Rightarrow> memmap" where
  "init_heap st = st\<lparr>buf_heap_map := set_bases (heap (buffer st)) (buf_heap_map st),
                     rt_heap_map := set_bases (heap (runtime st)) (rt_heap_map st)\<rparr>"

section \<open>Single blocks\<close>

text \<open>The loop that looks for the next free block: \<open>for (i = i0; i < n; ++i) if (!flags) break\<close>.\<close>

function find_free :: "block_hdr list \<Rightarrow> nat \<Rightarrow> nat \<Rightarrow> nat option" where
  "find_free bl i n =
     (if i < n then (if bh_flags (bl ! i) = 0 then Some i else find_free bl (Suc i) n) else None)"
  by pat_completeness auto
termination by (relation "measure (\<lambda>(bl, i, n). n - i)") auto

declare find_free.simps [simp del]

definition block_ptr :: "block_map \<Rightarrow> nat \<Rightarrow> u32" where
  "block_ptr m j = base m + of_nat j * ucast (block_size m)"

text \<open>What \<open>alloc_block\<close> does to the map; the header array has \<open>count\<close> entries.\<close>

definition take_block :: "u16 \<Rightarrow> block_map \<Rightarrow> (u32 \<times> block_map) option" where
  "take_block bflags m =
     (let ff = unat (first_free m) in
      if ff < length (block m) \<and> unat (blk_count m) \<le> length (block m) then
        (let ptr = block_ptr m ff;
             bl = (block m)[ff := \<lparr>bh_size = 1, bh_flags = RFLAGS_USED OR bflags\<rparr>];
             m = m\<lparr>free_count := free_count m - 1, block := bl\<rparr>
         in Some (ptr, case find_free bl ff (unat (blk_count m)) of
                         None \<Rightarrow> m
                       | Some i \<Rightarrow> m\<lparr>first_free := of_nat i\<rparr>))
      else None)"

definition alloc_block :: "heap_sel \<Rightarrow> nat \<Rightarrow> u16 \<Rightarrow> memmap \<Rightarrow> (u32 \<times> memmap) option" where
  "alloc_block h level bflags st = do {
     m \<leftarrow> aget (heap_maps h st) level;
     (ptr, m') \<leftarrow> take_block bflags m;
     Some (ptr, put_map h level m' (upd_info h (use_bytes (ucast (block_size m))) st)) }"

text \<open>
  The free loop of \<open>free_block\<close>: its bound reads \<open>hdr->size\<close> of the header visited last, which the
  body has just cleared.
\<close>

function free_loop :: "nat \<Rightarrow> nat \<Rightarrow> nat \<Rightarrow> block_map \<Rightarrow> mm_info \<Rightarrow> (block_map \<times> mm_info) option" where
  "free_loop blk i hdr m mi =
     (if i < blk + unat (bh_size (block m ! hdr)) then
        (if i < length (block m) then
           free_loop blk (Suc i) i
             (m\<lparr>block := (block m)[i := \<lparr>bh_size = 0, bh_flags = 0\<rparr>], free_count := free_count m + 1\<rparr>)
             (release_bytes (ucast (block_size m)) mi)
         else None)
      else Some (m, mi))"
  by pat_completeness auto
termination
  by (relation "measure (\<lambda>(blk, i, hdr, m, mi). blk + unat (bh_size (block m ! hdr)) - i)") auto

declare free_loop.simps [simp del]

text \<open>\<open>for (i = 0; i < ARRAY_SIZE(rt_heap_map) - 1; i++)\<close>: the last map is never searched.\<close>

fun find_map :: "u32 \<Rightarrow> block_map list \<Rightarrow> nat option" where
  "find_map ptr (m # m' # ms) =
     (if base m \<le> ptr \<and> ptr < base m' then Some 0 else map_option Suc (find_map ptr (m' # ms)))"
| "find_map ptr _ = None"

definition free_block :: "heap_sel \<Rightarrow> u32 \<Rightarrow> memmap \<Rightarrow> memmap option" where
  "free_block h ptr st =
     (if ptr = 0 then Some st
      else case find_map ptr (rt_heap_map st) of
        None \<Rightarrow> Some st
      | Some i \<Rightarrow>
          (let m = rt_heap_map st ! i in
           if block_size m = 0 then None
           else
             (let blk = unat ((ptr - base m) div ucast (block_size m)) in
              if blk < length (block m) then do {
                (m', mi) \<leftarrow> free_loop blk blk blk m
                  (info (case h of Runtime_Heap \<Rightarrow> runtime st | Buffer_Heap \<Rightarrow> buffer st));
                let m'' = (if blk < unat (first_free m') then m'\<lparr>first_free := of_nat blk\<rparr> else m');
                Some (upd_info h (\<lambda>_. mi) (st\<lparr>rt_heap_map := (rt_heap_map st)[i := m'']\<rparr>))
              } else None)))"

section \<open>Contiguous blocks\<close>

text \<open>
  The inner scan from \<open>current\<close>: \<open>Some True\<close> when \<open>n\<close> headers were passed, \<open>Some False\<close> at one
  whose flags equal \<open>RFLAGS_USED\<close>, \<open>None\<close> when it leaves the header array.
\<close>

fun run_free :: "block_hdr list \<Rightarrow> nat \<Rightarrow> nat \<Rightarrow> bool option" where
  "run_free bl current 0 = Some True"
| "run_free bl current (Suc n) =
     (if current < length bl then
        (if bh_flags (bl ! current) = RFLAGS_USED then Some False else run_free bl (Suc current) n)
      else None)"

function find_run :: "block_hdr list \<Rightarrow> nat \<Rightarrow> nat \<Rightarrow> nat \<Rightarrow> nat option option" where
  "find_run bl count start remaining =
     (if start < remaining then
        (case run_free bl start count of
           None \<Rightarrow> None
         | Some True \<Rightarrow> Some (Some start)
         | Some False \<Rightarrow> find_run bl count (Suc start) remaining)
      else Some None)"
  by pat_completeness auto
termination by (relation "measure (\<lambda>(bl, count, start, remaining). remaining - start)") auto

declare find_run.simps [simp del]

text \<open>\<open>for (current = start; current < end; current++) hdr->flags = RFLAGS_USED | bflags\<close>\<close>

fun mark_used :: "u16 \<Rightarrow> nat \<Rightarrow> nat \<Rightarrow> block_hdr list \<Rightarrow> block_hdr list" where
  "mark_used bflags current 0 bl = bl"
| "mark_used bflags current (Suc n) bl =
     mark_used bflags (Suc current) n (bl[current := (bl ! current)\<lparr>bh_flags := RFLAGS_USED OR bflags\<rparr>])"

text \<open>The number of blocks a request takes, and the bound \<open>remaining\<close> of the outer loop.\<close>

definition cont_count :: "block_map \<Rightarrow> u32 \<Rightarrow> u32" where
  "cont_count m bytes =
     (let count = bytes div ucast (block_size m)
      in if bytes mod ucast (block_size m) \<noteq> 0 then count + 1 else count)"

definition cont_remaining :: "block_map \<Rightarrow> u32 \<Rightarrow> u32" where
  "cont_remaining m bytes = ucast (blk_count m) - bytes div ucast (block_size m)"

definition take_run :: "u16 \<Rightarrow> nat \<Rightarrow> nat \<Rightarrow> block_map \<Rightarrow> block_map" where
  "take_run bflags start count m =
     (let bl = (block m)[start := (block m ! start)\<lparr>bh_size := of_nat count\<rparr>];
          bl = mark_used bflags start count bl;
          m' = m\<lparr>free_count := free_count m - of_nat count, block := bl\<rparr>
      in if start = unat (first_free m) then
           (case find_free bl (start + count) (unat (blk_count m)) of
              None \<Rightarrow> m'
            | Some i \<Rightarrow> m'\<lparr>first_free := of_nat i\<rparr>)
         else m')"

definition alloc_cont_blocks :: "heap_sel \<Rightarrow> nat \<Rightarrow> u16 \<Rightarrow> u32 \<Rightarrow> memmap \<Rightarrow> (u32 \<times> memmap) option" where
  "alloc_cont_blocks h level bflags bytes st = do {
     m \<leftarrow> aget (heap_maps h st) level;
     if block_size m = 0 then None
     else do {
       let count = unat (cont_count m bytes);
       found \<leftarrow> find_run (block m) count (unat (first_free m)) (unat (cont_remaining m bytes));
       case found of
         None \<Rightarrow> Some (0, st)
       | Some start \<Rightarrow>
           Some (block_ptr m start,
                 put_map h level (take_run bflags start count m)
                   (upd_info h (use_bytes (of_nat count * ucast (block_size m))) st))
     } }"

section \<open>The entry points\<close>

definition rmalloc_sys :: "u32 \<Rightarrow> memmap \<Rightarrow> (u32 \<times> memmap) option" where
  "rmalloc_sys bytes st =
     (let ptr = heap (system st);
          new = ptr + bytes
      in if HEAP_SYSTEM_BASE + HEAP_SYSTEM_SIZE \<le> new then None
         else Some (ptr, st\<lparr>system := (system st)\<lparr>heap := new\<rparr>\<rparr>))"

text \<open>The first map from index \<open>i\<close> on whose blocks are big enough and that has a free one.\<close>

fun fit_level :: "u32 \<Rightarrow> nat \<Rightarrow> block_map list \<Rightarrow> nat option" where
  "fit_level bytes i [] = None"
| "fit_level bytes i (m # ms) =
     (if ucast (block_size m) < bytes then fit_level bytes (Suc i) ms
      else if free_count m = 0 then fit_level bytes (Suc i) ms
      else Some i)"

definition rmalloc_runtime :: "u16 \<Rightarrow> u32 \<Rightarrow> memmap \<Rightarrow> (u32 \<times> memmap) option" where
  "rmalloc_runtime bflags bytes st =
     (case fit_level bytes 0 (rt_heap_map st) of
        None \<Rightarrow> Some (0, st)
      | Some i \<Rightarrow> alloc_block Runtime_Heap i bflags st)"

fun rmalloc :: "zone \<Rightarrow> u16 \<Rightarrow> u32 \<Rightarrow> memmap \<Rightarrow> (u32 \<times> memmap) option" where
  "rmalloc RZONE_SYS bflags bytes st = rmalloc_sys bytes st"
| "rmalloc RZONE_RUNTIME bflags bytes st = rmalloc_runtime bflags bytes st"
| "rmalloc RZONE_BUFFER bflags bytes st = Some (0, st)"

definition rzalloc :: "zone \<Rightarrow> u16 \<Rightarrow> u32 \<Rightarrow> memmap \<times> mem \<Rightarrow> (u32 \<times> memmap \<times> mem) option" where
  "rzalloc z bflags bytes s = do {
     (ptr, st) \<leftarrow> rmalloc z bflags bytes (fst s);
     Some (ptr, st, if ptr \<noteq> 0 then bzero (snd s) ptr bytes else snd s) }"

text \<open>The search for a block size when the buffer heap has several maps; its results are dropped.\<close>

fun alloc_each :: "nat \<Rightarrow> u16 \<Rightarrow> u32 \<Rightarrow> block_map list \<Rightarrow> memmap \<Rightarrow> memmap option" where
  "alloc_each i bflags bytes [] st = Some st"
| "alloc_each i bflags bytes (m # ms) st =
     (if ucast (block_size m) < bytes then do {
        (_, st) \<leftarrow> alloc_cont_blocks Buffer_Heap i bflags bytes st;
        alloc_each (Suc i) bflags bytes ms st }
      else alloc_each (Suc i) bflags bytes ms st)"

definition rballoc :: "zone \<Rightarrow> u16 \<Rightarrow> u32 \<Rightarrow> memmap \<Rightarrow> (u32 \<times> memmap) option" where
  "rballoc z bflags bytes st =
     (case fit_level bytes 0 (buf_heap_map st) of
        Some i \<Rightarrow> alloc_block Buffer_Heap i bflags st
      | None \<Rightarrow>
          if length (buf_heap_map st) = 1 then alloc_cont_blocks Buffer_Heap 0 bflags bytes st
          else do {
            st \<leftarrow> alloc_each 0 bflags bytes (buf_heap_map st) st;
            alloc_cont_blocks Buffer_Heap (length (buf_heap_map st) - 1) bflags bytes st })"

definition rfree :: "u32 \<Rightarrow> memmap \<Rightarrow> memmap option" where
  "rfree ptr st = free_block Runtime_Heap ptr st"

definition rbfree :: "u32 \<Rightarrow> memmap \<Rightarrow> memmap option" where
  "rbfree ptr st = free_block Buffer_Heap ptr st"

section \<open>Saved context size\<close>

definition block_get_size :: "block_map \<Rightarrow> u32" where
  "block_get_size m = 16 + ucast (blk_count m) * (ucast (block_size m) + 4)"

definition heap_get_size :: "block_map list \<Rightarrow> u32" where
  "heap_get_size ms = 24 + sum_list (map block_get_size ms)"

definition mm_pm_context_size :: "memmap \<Rightarrow> u32 \<times> memmap" where
  "mm_pm_context_size st =
     (mi_used (info (buffer st)) + mi_used (info (runtime st)) + mi_used (info (system st))
        + heap_get_size (buf_heap_map st) + heap_get_size (rt_heap_map st) + heap_get_size [],
      st\<lparr>total := \<lparr>mi_used = mi_used (info (buffer st)) + mi_used (info (runtime st)) + mi_used (info (system st)),
                  mi_free = mi_free (info (buffer st)) + mi_free (info (runtime st)) + mi_free (info (system st))\<rparr>\<rparr>)"

section \<open>Well-formed maps\<close>

definition used_hdr :: "block_hdr \<Rightarrow> bool" where
  "used_hdr h \<longleftrightarrow> bh_flags h \<noteq> 0"

text \<open>
  The invariant of a map: the counters describe the header array, every header below
  \<open>first_free\<close> is in use, a free header is all zero, and the area does not wrap around.
\<close>

definition map_wf :: "block_map \<Rightarrow> bool" where
  "map_wf m \<longleftrightarrow>
     length (block m) = unat (blk_count m) \<and> 0 < unat (block_size m) \<and>
     unat (first_free m) < length (block m) \<and>
     unat (free_count m) = length (filter (\<lambda>h. \<not> used_hdr h) (block m)) \<and>
     list_all used_hdr (take (unat (first_free m)) (block m)) \<and>
     list_all (\<lambda>h. used_hdr h \<or> bh_size h = 0) (block m) \<and>
     0 < unat (base m) \<and> unat (base m) + length (block m) * unat (block_size m) \<le> 2 ^ 32"

lemma map_wfD:
  assumes "map_wf m"
  shows "length (block m) = unat (blk_count m)" "0 < unat (block_size m)"
    "unat (first_free m) < length (block m)"
    "unat (free_count m) = length (filter (\<lambda>h. \<not> used_hdr h) (block m))"
    "j < unat (first_free m) \<Longrightarrow> used_hdr (block m ! j)"
    "j < length (block m) \<Longrightarrow> used_hdr (block m ! j) \<or> bh_size (block m ! j) = 0"
    "0 < unat (base m)"
    "unat (base m) + length (block m) * unat (block_size m) \<le> 2 ^ 32"
proof -
  note d = assms [unfolded map_wf_def]
  show "length (block m) = unat (blk_count m)" "0 < unat (block_size m)"
    "unat (first_free m) < length (block m)"
    "unat (free_count m) = length (filter (\<lambda>h. \<not> used_hdr h) (block m))"
    "0 < unat (base m)"
    "unat (base m) + length (block m) * unat (block_size m) \<le> 2 ^ 32"
    using d by blast+
  show "j < unat (first_free m) \<Longrightarrow> used_hdr (block m ! j)"
    using d by (simp add: list_all_length)
  show "j < length (block m) \<Longrightarrow> used_hdr (block m ! j) \<or> bh_size (block m ! j) = 0"
    using d by (simp add: list_all_length)
qed

text \<open>\<open>first_free\<close> is what its comment says, the index of the first free block, when there is one.\<close>

definition ready :: "block_map \<Rightarrow> bool" where
  "ready m \<longleftrightarrow> free_count m \<noteq> 0 \<longrightarrow> \<not> used_hdr (block m ! unat (first_free m))"

lemma used_or [simp]: "RFLAGS_USED OR b \<noteq> 0"
proof
  assume "RFLAGS_USED OR b = 0"
  then have "bit (RFLAGS_USED OR b) 0 = bit (0 :: u16) 0" by simp
  then show False by (simp add: RFLAGS_USED_def bit_simps)
qed

lemma find_free_Some:
  "find_free bl i n = Some j \<Longrightarrow>
     i \<le> j \<and> j < n \<and> bh_flags (bl ! j) = 0 \<and> (\<forall>k. i \<le> k \<and> k < j \<longrightarrow> bh_flags (bl ! k) \<noteq> 0)"
proof (induction bl i n rule: find_free.induct)
  case (1 bl i n)
  then show ?case
    by (auto simp: find_free.simps [of bl i n] split: if_splits)
       (metis Suc_leI le_neq_implies_less)
qed

lemma find_free_None:
  "find_free bl i n = None \<Longrightarrow> i \<le> k \<Longrightarrow> k < n \<Longrightarrow> bh_flags (bl ! k) \<noteq> 0"
proof (induction bl i n rule: find_free.induct)
  case (1 bl i n)
  then show ?case
    by (auto simp: find_free.simps [of bl i n] split: if_splits)
       (metis Suc_leI le_neq_implies_less)
qed

lemma free_count_pos_iff:
  "map_wf m \<Longrightarrow> free_count m = 0 \<longleftrightarrow> list_all used_hdr (block m)"
  by (auto simp: map_wf_def list_all_iff filter_empty_conv unat_eq_zero [symmetric])

lemma unat16_pred: "w \<noteq> (0 :: u16) \<Longrightarrow> unat (w - 1) = unat w - 1"
  by (simp add: unat_minus_one)

lemma all_below_update:
  assumes "list_all P (take f bl)" "P h" "i < length bl"
    and "\<And>k. f \<le> k \<Longrightarrow> k < g \<Longrightarrow> k \<noteq> i \<Longrightarrow> P (bl ! k)" "g \<le> length bl"
  shows "list_all P (take g (bl[i := h]))"
  unfolding list_all_length
proof (intro allI impI)
  fix n assume n: "n < length (take g (bl[i := h]))"
  then have "n < g" "n < length bl" using assms(5) by simp_all
  moreover have "P (bl ! n)" if "n < f" using assms(1) that \<open>n < length bl\<close> by (simp add: list_all_length)
  ultimately show "P (take g (bl[i := h]) ! n)"
    using assms(2,3,4) by (cases "n < f"; cases "n = i") (simp_all add: nth_list_update)
qed

text \<open>Taking a block from a well-formed map that is ready and has a free block.\<close>

lemma take_block_ok:
  assumes wf: "map_wf m" and rd: "ready m" and fr: "free_count m \<noteq> 0"
  obtains m' where "take_block bf m = Some (block_ptr m (unat (first_free m)), m')"
    and "\<not> used_hdr (block m ! unat (first_free m))"
    and "block m' = (block m)[unat (first_free m) := \<lparr>bh_size = 1, bh_flags = RFLAGS_USED OR bf\<rparr>]"
    and "map_wf m'" "ready m'"
    and "base m' = base m" "block_size m' = block_size m" "blk_count m' = blk_count m"
    and "free_count m' = free_count m - 1" "unat (first_free m) \<le> unat (first_free m')"
proof -
  let ?ff = "unat (first_free m)"
  let ?h = "\<lparr>bh_size = 1, bh_flags = RFLAGS_USED OR bf\<rparr>"
  let ?bl = "(block m)[?ff := ?h]"
  let ?m1 = "m\<lparr>free_count := free_count m - 1, block := ?bl\<rparr>"
  define m' where "m' = (case find_free ?bl ?ff (unat (blk_count m)) of
     None \<Rightarrow> ?m1 | Some i \<Rightarrow> ?m1\<lparr>first_free := of_nat i\<rparr>)"
  have len: "length (block m) = unat (blk_count m)" and ffl: "?ff < length (block m)"
    and below: "list_all used_hdr (take ?ff (block m))"
    using wf by (simp_all add: map_wf_def)
  have nf: "\<not> used_hdr (block m ! ?ff)" using rd fr by (simp add: ready_def)
  have uh: "used_hdr ?h" by (simp add: used_hdr_def)
  have tb: "take_block bf m = Some (block_ptr m ?ff, m')"
    using ffl len by (simp add: take_block_def Let_def m'_def)
  have bl: "block m' = ?bl" "free_count m' = free_count m - 1" "base m' = base m"
    "block_size m' = block_size m" "blk_count m' = blk_count m"
    by (simp_all add: m'_def split: option.splits)
  have cnt: "length (filter (\<lambda>h. \<not> used_hdr h) ?bl) + 1 = length (filter (\<lambda>h. \<not> used_hdr h) (block m))"
    using count_list_update [OF ffl, of "\<lambda>h. \<not> used_hdr h" ?h] nf uh by simp
  have fc: "unat (free_count m - 1) = length (filter (\<lambda>h. \<not> used_hdr h) ?bl)"
    using cnt wf unat16_pred [OF fr] by (simp add: map_wf_def)
  have sz: "list_all (\<lambda>h. used_hdr h \<or> bh_size h = 0) ?bl"
    using wf uh ffl by (auto simp: map_wf_def list_all_length nth_list_update)
  have ff': "unat (first_free m') < length ?bl \<and> ?ff \<le> unat (first_free m') \<and>
      list_all used_hdr (take (unat (first_free m')) ?bl) \<and>
      (free_count m - 1 \<noteq> 0 \<longrightarrow> \<not> used_hdr (?bl ! unat (first_free m')))"
  proof (cases "find_free ?bl ?ff (unat (blk_count m))")
    case None
    then have all: "used_hdr (?bl ! k)" if "?ff \<le> k" "k < length ?bl" for k
      using find_free_None [OF None that(1)] that(2) len by (simp add: used_hdr_def)
    have "list_all used_hdr (take (length ?bl) ?bl)"
      by (rule all_below_update [OF below uh ffl]) (metis all nth_list_update_neq length_list_update, simp)
    then have "filter (\<lambda>h. \<not> used_hdr h) ?bl = []" by (simp add: filter_empty_conv list_all_iff)
    then have "free_count m - 1 = 0" using fc by (simp add: unat_eq_zero)
    moreover have "list_all used_hdr (take ?ff ?bl)" using below by simp
    ultimately show ?thesis using None ffl by (simp add: m'_def)
  next
    case (Some i)
    note f = find_free_Some [OF Some]
    have il: "i < length (block m)" using f len by simp
    have u: "unat (of_nat i :: u16) = i"
      using il len unat16_lt [of "blk_count m"] by (intro unat_of_nat_fits) simp
    have "list_all used_hdr (take i ?bl)"
      by (rule all_below_update [OF below uh ffl])
         (use f il in \<open>auto simp: nth_list_update used_hdr_def\<close>)
    with Some f il u show ?thesis by (simp add: m'_def used_hdr_def)
  qed
  have "map_wf m'" "ready m'"
    using wf bl fc sz ff' len by (simp_all add: map_wf_def ready_def len)
  with tb nf bl ff' that show thesis by blast
qed

section \<open>Releasing a block\<close>

text \<open>What \<open>free_block\<close> leaves of the map: only the header the pointer names is cleared.\<close>

definition give_block :: "nat \<Rightarrow> block_map \<Rightarrow> block_map" where
  "give_block j m =
     (let m' = m\<lparr>block := (block m)[j := \<lparr>bh_size = 0, bh_flags = 0\<rparr>], free_count := free_count m + 1\<rparr>
      in if j < unat (first_free m) then m'\<lparr>first_free := of_nat j\<rparr> else m')"

text \<open>However many blocks the header says it spans, the loop clears one and stops.\<close>

lemma free_loop_once:
  assumes "j < length (block m)" "bh_size (block m ! j) \<noteq> 0"
  shows "free_loop j j j m mi =
     Some (m\<lparr>block := (block m)[j := \<lparr>bh_size = 0, bh_flags = 0\<rparr>], free_count := free_count m + 1\<rparr>,
           release_bytes (ucast (block_size m)) mi)"
proof -
  have "0 < unat (bh_size (block m ! j))" using assms(2) by (simp add: unat_gt_0)
  then show ?thesis
    using assms(1) by (subst free_loop.simps, simp, subst free_loop.simps) simp
qed

lemma give_block_wf:
  assumes wf: "map_wf m" and j: "j < length (block m)" and u: "used_hdr (block m ! j)"
  shows "map_wf (give_block j m)"
    and "ready m \<and> free_count m \<noteq> 0 \<or> j \<le> unat (first_free m) \<Longrightarrow> ready (give_block j m)"
proof -
  let ?z = "\<lparr>bh_size = 0, bh_flags = 0\<rparr> :: block_hdr"
  let ?bl = "(block m)[j := ?z]" and ?ff = "unat (first_free m)"
  have len: "length (block m) = unat (blk_count m)" using wf by (simp add: map_wf_def)
  have nz: "\<not> used_hdr ?z" by (simp add: used_hdr_def)
  have cnt: "length (filter (\<lambda>h. \<not> used_hdr h) ?bl) = length (filter (\<lambda>h. \<not> used_hdr h) (block m)) + 1"
    using count_list_update [OF j, of "\<lambda>h. \<not> used_hdr h" ?z] u nz by simp
  have "length (filter (\<lambda>h. \<not> used_hdr h) ?bl) \<le> length (block m)"
    by (metis length_filter_le length_list_update)
  then have "unat (free_count m) + 1 < 65536"
    using cnt wf len unat16_lt [of "blk_count m"] by (simp add: map_wf_def)
  then have fc: "unat (free_count m + 1) = length (filter (\<lambda>h. \<not> used_hdr h) ?bl)"
    using cnt wf by (simp add: unat_add_fits map_wf_def)
  have uj: "unat (of_nat j :: u16) = j"
    using j len unat16_lt [of "blk_count m"] by (intro unat_of_nat_fits) simp
  have below: "list_all used_hdr (take ?ff (block m))" using wf by (simp add: map_wf_def)
  have sz: "list_all (\<lambda>h. used_hdr h \<or> bh_size h = 0) ?bl"
    using map_wfD(6) [OF wf] j by (auto simp: list_all_length nth_list_update)
  have ff: "unat (first_free (give_block j m)) = min j ?ff"
    by (simp add: give_block_def Let_def uj min_def)
  have "take (min j ?ff) ?bl = take (min j ?ff) (block m)" by simp
  then have "list_all used_hdr (take (min j ?ff) ?bl)"
    using below by (auto simp: list_all_length)
  moreover have "block (give_block j m) = ?bl" "free_count (give_block j m) = free_count m + 1"
    "base (give_block j m) = base m" "block_size (give_block j m) = block_size m"
    "blk_count (give_block j m) = blk_count m"
    by (simp_all add: give_block_def Let_def)
  note flds = this
  ultimately show "map_wf (give_block j m)"
    using wf j fc sz ff len by (simp add: map_wf_def min_def)
  show "ready (give_block j m)" if "ready m \<and> free_count m \<noteq> 0 \<or> j \<le> ?ff"
    using that j nz wf ff flds
    by (auto simp: ready_def min_def nth_list_update map_wf_def split: if_splits)
qed

text \<open>Giving back the block just taken restores the map.\<close>

lemma give_take:
  assumes wf: "map_wf m" and rd: "ready m" and fr: "free_count m \<noteq> 0"
    and tb: "take_block bf m = Some (ptr, m')"
  shows "give_block (unat (first_free m)) m' = m"
proof -
  let ?ff = "unat (first_free m)"
  obtain m'' where m'': "take_block bf m = Some (block_ptr m ?ff, m'')"
    and nf: "\<not> used_hdr (block m ! ?ff)"
    and bl: "block m'' = (block m)[?ff := \<lparr>bh_size = 1, bh_flags = RFLAGS_USED OR bf\<rparr>]"
    and flds: "base m'' = base m" "block_size m'' = block_size m" "blk_count m'' = blk_count m"
      "free_count m'' = free_count m - 1" "?ff \<le> unat (first_free m'')"
    using take_block_ok [OF wf rd fr, of bf] by metis
  have m': "m' = m''" using tb m'' by simp
  have ffl: "?ff < length (block m)" using wf by (simp add: map_wf_def)
  have "block m ! ?ff = \<lparr>bh_size = 0, bh_flags = 0\<rparr>"
    using wf nf ffl by (cases "block m ! ?ff") (auto simp: map_wf_def used_hdr_def list_all_length)
  then have 1: "(block m'')[?ff := \<lparr>bh_size = 0, bh_flags = 0\<rparr>] = block m"
    using ffl by (simp add: bl list_update_same_conv)
  have 2: "\<not> ?ff < unat (first_free m'') \<Longrightarrow> first_free m'' = first_free m"
    using flds(5) by (simp add: word_unat_eq_iff)
  show ?thesis
    using 1 2 flds by (cases m; cases m'') (auto simp: give_block_def Let_def m')
qed

section \<open>The runtime heap\<close>

text \<open>The areas of the maps follow each other.\<close>

fun layout :: "block_map list \<Rightarrow> bool" where
  "layout (m # m' # ms) \<longleftrightarrow>
     unat (base m) + length (block m) * unat (block_size m) \<le> unat (base m') \<and> layout (m' # ms)"
| "layout _ \<longleftrightarrow> True"

definition heap_wf :: "memmap \<Rightarrow> bool" where
  "heap_wf st \<longleftrightarrow> list_all map_wf (rt_heap_map st) \<and> layout (rt_heap_map st)"

definition heap_ready :: "memmap \<Rightarrow> bool" where
  "heap_ready st \<longleftrightarrow> list_all ready (rt_heap_map st)"

text \<open>The blocks in use, as map index and block index.\<close>

definition live :: "memmap \<Rightarrow> (nat \<times> nat) set" where
  "live st = {(i, j). i < length (rt_heap_map st) \<and> j < length (block (rt_heap_map st ! i)) \<and>
                      used_hdr (block (rt_heap_map st ! i) ! j)}"

lemma layout_nth:
  "layout ms \<Longrightarrow> i < j \<Longrightarrow> j < length ms \<Longrightarrow>
     unat (base (ms ! i)) + length (block (ms ! i)) * unat (block_size (ms ! i)) \<le> unat (base (ms ! j))"
proof (induction ms arbitrary: i j rule: layout.induct)
  case (1 m m' ms)
  show ?case
  proof (cases i)
    case (Suc i')
    then obtain j' where "j = Suc j'" "i' < j'" using "1.prems" by (cases j) auto
    with Suc "1.IH" [of i' j'] "1.prems" show ?thesis by simp
  next
    case 0
    show ?thesis
    proof (cases "j = 1")
      case False
      then obtain j' where j': "j = Suc j'" "0 < j'" using "1.prems" 0 by (cases j) auto
      with "1.IH" [of 0 j'] "1.prems" 0 show ?thesis by simp
    qed (use "1.prems" 0 in simp)
  qed
qed auto

lemma base_mono:
  assumes "layout ms" "i \<le> j" "j < length ms"
  shows "unat (base (ms ! i)) \<le> unat (base (ms ! j))"
proof (cases "i = j")
  case False
  with assms have "i < j" by simp
  from layout_nth [OF assms(1) this assms(3)] show ?thesis by linarith
qed simp

lemma layout_iff:
  "layout ms \<longleftrightarrow> (\<forall>i. Suc i < length ms \<longrightarrow>
     unat (base (ms ! i)) + length (block (ms ! i)) * unat (block_size (ms ! i)) \<le> unat (base (ms ! Suc i)))"
proof (induction ms rule: layout.induct)
  case (1 m m' ms)
  then show ?case by (auto simp: nth_Cons split: nat.splits)
qed auto

lemma layout_cong:
  assumes "layout ms" "i < length ms" "base m' = base (ms ! i)" "block_size m' = block_size (ms ! i)"
    "length (block m') = length (block (ms ! i))"
  shows "layout (ms[i := m'])"
  using assms by (auto simp: layout_iff nth_list_update)

lemma unat_block_ptr:
  assumes wf: "map_wf m" and j: "j < length (block m)"
  shows "unat (block_ptr m j) = unat (base m) + j * unat (block_size m)"
proof -
  have "j * unat (block_size m) + unat (block_size m) \<le> length (block m) * unat (block_size m)"
    using j by (metis Suc_leI mult_Suc mult_le_mono1 add.commute)
  moreover have "unat (base m) + length (block m) * unat (block_size m) \<le> 2 ^ 32" "0 < unat (block_size m)"
    using map_wfD [OF wf] by simp_all
  ultimately have b: "unat (base m) + j * unat (block_size m) < 2 ^ 32" by linarith
  have "unat (of_nat j :: u32) = j"
    using j unat16_lt [of "blk_count m"] wf by (intro unat_of_nat_fits) (simp add: map_wf_def)
  then show ?thesis
    using b by (simp add: block_ptr_def unat_add_fits unat_mult_fits)
qed

lemma block_regions_disjoint:
  assumes "heap_wf st" "i < length (rt_heap_map st)" "i' < length (rt_heap_map st)"
    and "j < length (block (rt_heap_map st ! i))" "j' < length (block (rt_heap_map st ! i'))"
    and "(i, j) \<noteq> (i', j')"
  shows "region (block_ptr (rt_heap_map st ! i) j) (unat (block_size (rt_heap_map st ! i))) \<inter>
         region (block_ptr (rt_heap_map st ! i') j') (unat (block_size (rt_heap_map st ! i'))) = {}"
proof -
  let ?ms = "rt_heap_map st"
  have wf: "map_wf (?ms ! k)" if "k < length ?ms" for k
    using assms(1) that by (simp add: heap_wf_def list_all_length)
  have lay: "layout ?ms" using assms(1) by (simp add: heap_wf_def)
  have step: "l * n + n \<le> k * n" if "l < k" for l k n :: nat
    using that by (metis Suc_leI mult_Suc mult_le_mono1 add.commute)
  have dis: "unat (base (?ms ! a)) + k * unat (block_size (?ms ! a)) + unat (block_size (?ms ! a))
      \<le> unat (base (?ms ! b)) + l * unat (block_size (?ms ! b))"
    if "a < b" "b < length ?ms" "k < length (block (?ms ! a))" for a b k l
    using layout_nth [OF lay that(1,2)] step [OF that(3), of "unat (block_size (?ms ! a))"] by linarith
  note u = unat_block_ptr [OF wf [OF assms(2)] assms(4)] unat_block_ptr [OF wf [OF assms(3)] assms(5)]
  consider "i < i'" | "i' < i" | "i = i'" "j < j'" | "i = i'" "j' < j" using assms(6) by fastforce
  then show ?thesis
  proof cases
    case 1
    with dis [OF 1 assms(3) assms(4), of j'] u show ?thesis by (intro region_before) linarith
  next
    case 2
    with dis [OF 2 assms(2) assms(5), of j] u show ?thesis by (intro region_after) linarith
  next
    case 3
    show ?thesis
      unfolding 3(1) [symmetric]
      using step [OF 3(2), of "unat (block_size (?ms ! i))"] u(1) u(2) [folded 3(1)]
      by (intro region_before) linarith
  next
    case 4
    show ?thesis
      unfolding 4(1) [symmetric]
      using step [OF 4(2), of "unat (block_size (?ms ! i))"] u(1) u(2) [folded 4(1)]
      by (intro region_after) linarith
  qed
qed

lemma fit_level_Some:
  "fit_level bytes k ms = Some i \<Longrightarrow>
     k \<le> i \<and> i - k < length ms \<and> bytes \<le> ucast (block_size (ms ! (i - k))) \<and> free_count (ms ! (i - k)) \<noteq> 0 \<and>
     (\<forall>l < i - k. ucast (block_size (ms ! l)) < bytes \<or> free_count (ms ! l) = 0)"
proof (induction ms arbitrary: k)
  case (Cons m ms)
  show ?case
  proof (cases "ucast (block_size m) < bytes \<or> free_count m = 0")
    case True
    then have "fit_level bytes (Suc k) ms = Some i" using Cons.prems by (auto split: if_splits)
    note ih = Cons.IH [OF this]
    then have "Suc k \<le> i" by blast
    then have e: "i - k = Suc (i - Suc k)" by simp
    from True ih show ?thesis unfolding e(1) by (auto simp: nth_Cons split: nat.splits)
  next
    case False
    with Cons.prems show ?thesis by (auto split: if_splits)
  qed
qed simp

lemma fit_level_None:
  "fit_level bytes k ms = None \<Longrightarrow> m \<in> set ms \<Longrightarrow> ucast (block_size m) < bytes \<or> free_count m = 0"
  by (induction ms arbitrary: k) (auto split: if_splits)

text \<open>
  The contract of a runtime allocation: \<open>NULL\<close> and no change when every map with big enough blocks
  is full; otherwise the first free block of the first such map, which was free and now is live.
\<close>

lemma rmalloc_runtime_spec:
  assumes wf: "heap_wf st" and rd: "heap_ready st"
  shows "(\<forall>m \<in> set (rt_heap_map st). ucast (block_size m) < bytes \<or> free_count m = 0) \<and>
           rmalloc_runtime bf bytes st = Some (0, st) \<or>
         (\<exists>i j ptr st'. rmalloc_runtime bf bytes st = Some (ptr, st') \<and> ptr \<noteq> 0 \<and>
            i < length (rt_heap_map st) \<and> j < length (block (rt_heap_map st ! i)) \<and>
            ptr = block_ptr (rt_heap_map st ! i) j \<and> bytes \<le> ucast (block_size (rt_heap_map st ! i)) \<and>
            (\<forall>k < i. ucast (block_size (rt_heap_map st ! k)) < bytes \<or> free_count (rt_heap_map st ! k) = 0) \<and>
            (i, j) \<notin> live st \<and> live st' = insert (i, j) (live st) \<and> heap_wf st' \<and> heap_ready st')"
proof (cases "fit_level bytes 0 (rt_heap_map st)")
  case None
  then show ?thesis using fit_level_None by (auto simp: rmalloc_runtime_def)
next
  case (Some i)
  let ?ms = "rt_heap_map st"
  let ?m = "?ms ! i"
  note f = fit_level_Some [OF Some, simplified]
  have wfm: "map_wf ?m" and rdm: "ready ?m"
    using wf rd f by (simp_all add: heap_wf_def heap_ready_def list_all_length)
  obtain m' where tb: "take_block bf ?m = Some (block_ptr ?m (unat (first_free ?m)), m')"
    and nf: "\<not> used_hdr (block ?m ! unat (first_free ?m))"
    and bl: "block m' = (block ?m)[unat (first_free ?m) := \<lparr>bh_size = 1, bh_flags = RFLAGS_USED OR bf\<rparr>]"
    and ok: "map_wf m'" "ready m'" "base m' = base ?m" "block_size m' = block_size ?m"
    using take_block_ok [OF wfm rdm, of bf] f by metis
  let ?j = "unat (first_free ?m)"
  define st' where "st' = put_map Runtime_Heap i m' (upd_info Runtime_Heap (use_bytes (ucast (block_size ?m))) st)"
  have maps: "rt_heap_map st' = ?ms[i := m']" by (simp add: st'_def)
  have j: "?j < length (block ?m)" using map_wfD(3) [OF wfm] .
  have "rmalloc_runtime bf bytes st = Some (block_ptr ?m ?j, st')"
    using Some f tb by (simp add: rmalloc_runtime_def alloc_block_def st'_def)
  moreover have "block_ptr ?m ?j \<noteq> 0"
    using unat_block_ptr [OF wfm j] map_wfD(7) [OF wfm] by (metis add_gr_0 less_irrefl unat_0)
  moreover have "(i, ?j) \<notin> live st" using nf by (simp add: live_def)
  moreover have "live st' = insert (i, ?j) (live st)"
    using f j bl by (auto simp: live_def maps nth_list_update used_hdr_def split: if_splits)
  moreover have "layout (?ms[i := m'])"
    using wf f ok bl by (intro layout_cong) (simp_all add: heap_wf_def)
  then have "heap_wf st'" "heap_ready st'"
    using wf rd f ok by (simp_all add: heap_wf_def heap_ready_def maps list_all_update)
  ultimately show ?thesis using f j by blast
qed

section \<open>rfree\<close>

lemma find_map_Some:
  "Suc i < length ms \<Longrightarrow> base (ms ! i) \<le> p \<Longrightarrow> p < base (ms ! Suc i) \<Longrightarrow>
   (\<And>k. k < i \<Longrightarrow> \<not> p < base (ms ! Suc k)) \<Longrightarrow> find_map p ms = Some i"
proof (induction p ms arbitrary: i rule: find_map.induct)
  case (1 p m m' ms)
  show ?case
  proof (cases i)
    case 0
    with "1.prems" show ?thesis by simp
  next
    case (Suc i')
    have "\<not> (base m \<le> p \<and> p < base m')" using "1.prems"(4) [of 0] Suc by simp
    moreover from this have "find_map p (m' # ms) = Some i'"
    proof (rule "1.IH")
      show "\<not> p < base ((m' # ms) ! Suc k)" if "k < i'" for k
        using "1.prems"(4) [of "Suc k"] that Suc by simp
    qed (use "1.prems" Suc in simp_all)
    ultimately show ?thesis using Suc by simp
  qed
qed auto

lemma find_map_None:
  "(\<And>k. Suc k < length ms \<Longrightarrow> \<not> p < base (ms ! Suc k)) \<Longrightarrow> find_map p ms = None"
proof (induction p ms rule: find_map.induct)
  case (1 p m m' ms)
  have "\<not> (base m \<le> p \<and> p < base m')" using "1.prems" [of 0] by simp
  moreover from this have "find_map p (m' # ms) = None"
  proof (rule "1.IH")
    show "\<not> p < base ((m' # ms) ! Suc k)" if "Suc k < length (m' # ms)" for k
      using "1.prems" [of "Suc k"] that by simp
  qed
  ultimately show ?case by simp
qed auto

lemma block_ptr_ge_base:
  assumes wf: "heap_wf st" and i: "i < length (rt_heap_map st)" and j: "j < length (block (rt_heap_map st ! i))"
    and k: "k \<le> i"
  shows "base (rt_heap_map st ! k) \<le> block_ptr (rt_heap_map st ! i) j"
proof -
  let ?ms = "rt_heap_map st"
  have wfi: "map_wf (?ms ! i)" and lay: "layout ?ms"
    using wf i by (simp_all add: heap_wf_def list_all_length)
  have "unat (base (?ms ! k)) \<le> unat (base (?ms ! i))" by (rule base_mono [OF lay k i])
  then show ?thesis using unat_block_ptr [OF wfi j] by (simp add: word_le_nat_alt)
qed

lemma find_map_block:
  assumes wf: "heap_wf st" and i: "Suc i < length (rt_heap_map st)" and j: "j < length (block (rt_heap_map st ! i))"
  shows "find_map (block_ptr (rt_heap_map st ! i) j) (rt_heap_map st) = Some i"
proof (rule find_map_Some [OF i])
  let ?ms = "rt_heap_map st"
  have i': "i < length ?ms" using i by simp
  have wfi: "map_wf (?ms ! i)" and lay: "layout ?ms"
    using wf i by (simp_all add: heap_wf_def list_all_length)
  show "base (?ms ! i) \<le> block_ptr (?ms ! i) j" by (rule block_ptr_ge_base [OF wf i' j order_refl])
  show "\<not> block_ptr (?ms ! i) j < base (?ms ! Suc k)" if "k < i" for k
    using block_ptr_ge_base [OF wf i' j, of "Suc k"] that by (simp add: not_less)
  have "j * unat (block_size (?ms ! i)) < length (block (?ms ! i)) * unat (block_size (?ms ! i))"
    using j map_wfD(2) [OF wfi] by simp
  then show "block_ptr (?ms ! i) j < base (?ms ! Suc i)"
    unfolding word_less_nat_alt using layout_nth [OF lay lessI i] unat_block_ptr [OF wfi j] by linarith
qed

lemma block_index:
  assumes wf: "map_wf m" and j: "j < length (block m)"
  shows "unat ((block_ptr m j - base m) div ucast (block_size m)) = j"
proof -
  have "base m \<le> block_ptr m j" using unat_block_ptr [OF wf j] by (simp add: word_le_nat_alt)
  then have "unat (block_ptr m j - base m) = j * unat (block_size m)"
    using unat_block_ptr [OF wf j] by (simp add: unat_sub)
  then show ?thesis using map_wfD(2) [OF wf] by (simp add: unat_div)
qed

lemma block_ptr_nonzero: "map_wf m \<Longrightarrow> j < length (block m) \<Longrightarrow> block_ptr m j \<noteq> 0"
  using unat_block_ptr [of m j] map_wfD(7) [of m] by (metis add_gr_0 less_irrefl unat_0)

lemma rfree_block:
  assumes wf: "heap_wf st" and i: "Suc i < length (rt_heap_map st)"
    and j: "j < length (block (rt_heap_map st ! i))" and sz: "bh_size (block (rt_heap_map st ! i) ! j) \<noteq> 0"
  shows "rfree (block_ptr (rt_heap_map st ! i) j) st =
    Some (upd_info Runtime_Heap (release_bytes (ucast (block_size (rt_heap_map st ! i))))
      (st\<lparr>rt_heap_map := (rt_heap_map st)[i := give_block j (rt_heap_map st ! i)]\<rparr>))"
proof -
  let ?m = "rt_heap_map st ! i"
  have wfi: "map_wf ?m" using wf i by (simp add: heap_wf_def list_all_length)
  have "block_size ?m \<noteq> 0" using map_wfD(2) [OF wfi] by auto
  then show ?thesis
    using j free_loop_once [OF j sz] block_ptr_nonzero [OF wfi j]
    by (simp add: rfree_def free_block_def find_map_block [OF wf i j] block_index [OF wfi j] give_block_def Let_def)
qed

lemma rfree_live:
  assumes wf: "heap_wf st" and i: "Suc i < length (rt_heap_map st)" and lv: "(i, j) \<in> live st"
    and sz: "bh_size (block (rt_heap_map st ! i) ! j) \<noteq> 0"
  obtains st' where "rfree (block_ptr (rt_heap_map st ! i) j) st = Some st'"
    "live st' = live st - {(i, j)}" "heap_wf st'"
proof -
  let ?ms = "rt_heap_map st"
  have j: "j < length (block (?ms ! i))" and u: "used_hdr (block (?ms ! i) ! j)"
    using lv by (simp_all add: live_def)
  have wfi: "map_wf (?ms ! i)" using wf i by (simp add: heap_wf_def list_all_length)
  let ?m' = "give_block j (?ms ! i)"
  have flds: "base ?m' = base (?ms ! i)" "block_size ?m' = block_size (?ms ! i)"
    "block ?m' = (block (?ms ! i))[j := \<lparr>bh_size = 0, bh_flags = 0\<rparr>]"
    by (simp_all add: give_block_def Let_def)
  define st' where "st' = upd_info Runtime_Heap (release_bytes (ucast (block_size (?ms ! i))))
      (st\<lparr>rt_heap_map := ?ms[i := ?m']\<rparr>)"
  have maps: "rt_heap_map st' = ?ms[i := ?m']" by (simp add: st'_def)
  have "layout (?ms[i := ?m'])"
    using wf i flds by (intro layout_cong) (simp_all add: heap_wf_def)
  then have "heap_wf st'"
    using wf give_block_wf(1) [OF wfi j u] by (simp add: heap_wf_def maps list_all_update)
  moreover have "live st' = live st - {(i, j)}"
    using i j flds by (auto simp: live_def maps nth_list_update used_hdr_def split: if_splits)
  ultimately show thesis using rfree_block [OF wf i j sz] that by (simp add: st'_def)
qed

text \<open>A block of the last map is not found: freeing it changes nothing.\<close>

lemma rfree_last_map:
  assumes wf: "heap_wf st" and i: "Suc i = length (rt_heap_map st)" and j: "j < length (block (rt_heap_map st ! i))"
  shows "rfree (block_ptr (rt_heap_map st ! i) j) st = Some st"
proof -
  have i': "i < length (rt_heap_map st)" using i by simp
  have "find_map (block_ptr (rt_heap_map st ! i) j) (rt_heap_map st) = None"
    using block_ptr_ge_base [OF wf i' j] i by (intro find_map_None) (auto simp: not_less)
  then show ?thesis by (simp add: rfree_def free_block_def)
qed

text \<open>Nor is anything above the last map, which is where the buffer heap lies.\<close>

lemma free_above:
  assumes wf: "heap_wf st" and ne: "rt_heap_map st \<noteq> []" and p: "base (last (rt_heap_map st)) \<le> p"
  shows "free_block h p st = Some st"
proof -
  let ?ms = "rt_heap_map st" and ?n = "length (rt_heap_map st) - 1"
  have lay: "layout ?ms" using wf by (simp add: heap_wf_def)
  have "base (?ms ! Suc k) \<le> p" if "Suc k < length ?ms" for k
  proof -
    have "unat (base (?ms ! Suc k)) \<le> unat (base (?ms ! ?n))"
      using that by (intro base_mono [OF lay]) simp_all
    with p ne show ?thesis by (simp add: last_conv_nth word_le_nat_alt)
  qed
  then have "find_map p ?ms = None" by (intro find_map_None) (simp add: not_less)
  then show ?thesis by (simp add: free_block_def)
qed

section \<open>The initial heap\<close>

lemma BLOCK_DEF_wf:
  assumes "0 < sz" "sz < 65536" "0 < cnt" "cnt < 65536" "0 < unat b" "unat b + cnt * sz \<le> 2 ^ 32"
  shows "map_wf ((BLOCK_DEF sz cnt)\<lparr>base := b\<rparr>)" "ready ((BLOCK_DEF sz cnt)\<lparr>base := b\<rparr>)"
proof -
  have "unat (of_nat sz :: u16) = sz" "unat (of_nat cnt :: u16) = cnt"
    using assms by (auto intro: unat_of_nat_fits)
  then show "map_wf ((BLOCK_DEF sz cnt)\<lparr>base := b\<rparr>)"
    using assms by (simp add: map_wf_def BLOCK_DEF_def used_hdr_def list_all_iff filter_replicate)
  show "ready ((BLOCK_DEF sz cnt)\<lparr>base := b\<rparr>)"
    using assms by (simp add: ready_def BLOCK_DEF_def used_hdr_def)
qed

lemma BLOCK_DEF_sel [simp]:
  "block_size (BLOCK_DEF sz cnt) = of_nat sz" "blk_count (BLOCK_DEF sz cnt) = of_nat cnt"
  "free_count (BLOCK_DEF sz cnt) = of_nat cnt" "first_free (BLOCK_DEF sz cnt) = 0"
  "length (block (BLOCK_DEF sz cnt)) = cnt" "base (BLOCK_DEF sz cnt) = 0"
  "block (BLOCK_DEF sz cnt) = replicate cnt \<lparr>bh_size = 0, bh_flags = 0\<rparr>"
  by (simp_all add: BLOCK_DEF_def)

abbreviation heap0 :: memmap where "heap0 \<equiv> init_heap memmap_static"

lemma heap0_maps:
  "rt_heap_map heap0 =
     [(BLOCK_DEF 16 256)\<lparr>base := 0xFF308800\<rparr>, (BLOCK_DEF 32 128)\<lparr>base := 0xFF309800\<rparr>,
      (BLOCK_DEF 64 64)\<lparr>base := 0xFF30A800\<rparr>, (BLOCK_DEF 128 32)\<lparr>base := 0xFF30B800\<rparr>,
      (BLOCK_DEF 256 16)\<lparr>base := 0xFF30C800\<rparr>, (BLOCK_DEF 512 8)\<lparr>base := 0xFF30D800\<rparr>,
      (BLOCK_DEF 1024 4)\<lparr>base := 0xFF30E800\<rparr>]"
  "buf_heap_map heap0 = [(BLOCK_DEF 384 320)\<lparr>base := 0xFF30F800\<rparr>]"
  by (simp_all add: init_heap_def memmap_static_def heap_config)

lemma heap0_wf: "heap_wf heap0" "heap_ready heap0" "list_all map_wf (buf_heap_map heap0)"
  "list_all ready (buf_heap_map heap0)"
  unfolding heap_wf_def heap_ready_def heap0_maps
  by (simp_all add: BLOCK_DEF_wf del: BLOCK_DEF_sel(7))

end
