(* ===== verification/Reef_Alloc_Props.thy ===== *)
theory Reef_Alloc_Props
  imports Reef_Alloc
begin

unbundle bit_operations_syntax

text \<open>
  What the heap promises its callers, on top of the model of \<open>Reef_Alloc\<close>: freshness and
  disjointness of allocations (also as the locale \<open>block_allocator\<close>, whose client lemma covers
  sequences of allocations), the exact round trip of allocating and freeing, the multi-block
  allocation of the buffer zone, and the three places where the code breaks the promise: a map
  that was full hands out a live block again, the last runtime map and the buffer zone are never
  freed, and a request for a whole number of blocks never gets the last ones.
\<close>

section \<open>Contiguous allocation\<close>

lemma run_free_True:
  "run_free bl c n = Some True \<longleftrightarrow>
     (\<forall>k. c \<le> k \<and> k < c + n \<longrightarrow> k < length bl \<and> bh_flags (bl ! k) \<noteq> RFLAGS_USED)"
proof (induction bl c n rule: run_free.induct)
  case (2 bl c n)
  have split: "(\<forall>k. c \<le> k \<and> k < c + Suc n \<longrightarrow> P k) \<longleftrightarrow> P c \<and> (\<forall>k. Suc c \<le> k \<and> k < Suc c + n \<longrightarrow> P k)" for P
    by (auto simp: Suc_le_eq) (metis le_neq_implies_less)
  show ?case unfolding split using 2 by auto
qed auto

lemma run_free_in: "c + n \<le> length bl \<Longrightarrow> run_free bl c n \<noteq> None"
  by (induction bl c n rule: run_free.induct) auto

lemma find_run_Some:
  "find_run bl n s r = Some (Some p) \<Longrightarrow>
     s \<le> p \<and> p < r \<and> run_free bl p n = Some True \<and> (\<forall>q. s \<le> q \<and> q < p \<longrightarrow> run_free bl q n = Some False)"
proof (induction bl n s r rule: find_run.induct)
  case (1 bl n s r)
  show ?case
  proof (cases "s < r \<and> run_free bl s n = Some False")
    case True
    then have "find_run bl n (Suc s) r = Some (Some p)"
      using "1.prems" by (simp add: find_run.simps [of bl n s r])
    with True "1.IH" have "Suc s \<le> p \<and> p < r \<and> run_free bl p n = Some True \<and>
        (\<forall>q. Suc s \<le> q \<and> q < p \<longrightarrow> run_free bl q n = Some False)" by auto
    with True show ?thesis by (metis Suc_leD Suc_leI le_neq_implies_less)
  next
    case False
    with "1.prems" show ?thesis
      by (auto simp: find_run.simps [of bl n s r] split: if_splits option.splits bool.splits)
  qed
qed

lemma find_run_None:
  "find_run bl n s r = Some None \<Longrightarrow> s \<le> q \<Longrightarrow> q < r \<Longrightarrow> run_free bl q n = Some False"
proof (induction bl n s r rule: find_run.induct)
  case (1 bl n s r)
  then have "s < r" by simp
  with "1.prems" have "run_free bl s n = Some False" "find_run bl n (Suc s) r = Some None"
    by (auto simp: find_run.simps [of bl n s r] split: option.splits bool.splits)
  with "1.IH" [OF \<open>s < r\<close>, of False] "1.prems" show ?case by (cases "q = s") auto
qed

lemma find_run_total:
  "(\<And>q. s \<le> q \<Longrightarrow> q < r \<Longrightarrow> q + n \<le> length bl) \<Longrightarrow> find_run bl n s r \<noteq> None"
proof (induction bl n s r rule: find_run.induct)
  case (1 bl n s r)
  show ?case
  proof (cases "s < r")
    case True
    then have "run_free bl s n \<noteq> None" using "1.prems" [of s] by (intro run_free_in) simp
    with True "1.IH" "1.prems" show ?thesis
      by (auto simp: find_run.simps [of bl n s r] split: option.splits bool.splits)
  qed (simp add: find_run.simps)
qed

lemma length_mark_used [simp]: "length (mark_used bf c n bl) = length bl"
  by (induction bf c n bl rule: mark_used.induct) auto

lemma nth_mark_used:
  "c + n \<le> length bl \<Longrightarrow> k < length bl \<Longrightarrow> mark_used bf c n bl ! k =
     (if c \<le> k \<and> k < c + n then (bl ! k)\<lparr>bh_flags := RFLAGS_USED OR bf\<rparr> else bl ! k)"
  by (induction bf c n bl rule: mark_used.induct) (auto simp: nth_list_update)

lemma count_mark_used:
  "c + n \<le> length bl \<Longrightarrow> (\<And>k. c \<le> k \<Longrightarrow> k < c + n \<Longrightarrow> \<not> used_hdr (bl ! k)) \<Longrightarrow>
   length (filter (\<lambda>h. \<not> used_hdr h) (mark_used bf c n bl)) + n = length (filter (\<lambda>h. \<not> used_hdr h) bl)"
proof (induction bf c n bl rule: mark_used.induct)
  case (2 bf c n bl)
  let ?h = "(bl ! c)\<lparr>bh_flags := RFLAGS_USED OR bf\<rparr>"
  have u: "used_hdr ?h" by (simp add: used_hdr_def)
  have c: "c < length bl" "\<not> used_hdr (bl ! c)" using "2.prems" by auto
  have "length (filter (\<lambda>h. \<not> used_hdr h) (mark_used bf (Suc c) n (bl[c := ?h]))) + n
      = length (filter (\<lambda>h. \<not> used_hdr h) (bl[c := ?h]))"
    by (rule "2.IH") (use "2.prems" in \<open>auto simp: nth_list_update\<close>)
  with count_list_update [OF c(1), of "\<lambda>h. \<not> used_hdr h" ?h] u c show ?case by simp
qed simp

text \<open>Every header of the map is free or carries exactly \<open>RFLAGS_USED\<close>: no \<open>bflags\<close> were given.\<close>

definition plain_flags :: "block_map \<Rightarrow> bool" where
  "plain_flags m \<longleftrightarrow> list_all (\<lambda>h. bh_flags h = 0 \<or> bh_flags h = RFLAGS_USED) (block m)"

lemma plain_run:
  assumes "plain_flags m" "run_free (block m) p n = Some True" "p \<le> k" "k < p + n"
  shows "k < length (block m) \<and> \<not> used_hdr (block m ! k)"
  using assms by (auto simp: run_free_True plain_flags_def list_all_length used_hdr_def)

text \<open>The state of a map after \<open>n\<close> free blocks from \<open>p\<close> were taken.\<close>

lemma take_run_wf:
  assumes wf: "map_wf m" and ps: "unat (first_free m) \<le> p" and pn: "p + n \<le> length (block m)" and n: "0 < n"
    and fr: "\<And>k. p \<le> k \<Longrightarrow> k < p + n \<Longrightarrow> \<not> used_hdr (block m ! k)"
  shows "map_wf (take_run bf p n m)"
    and "k < length (block m) \<Longrightarrow> used_hdr (block (take_run bf p n m) ! k) \<longleftrightarrow> used_hdr (block m ! k) \<or> p \<le> k \<and> k < p + n"
    and "base (take_run bf p n m) = base m \<and> block_size (take_run bf p n m) = block_size m \<and>
         length (block (take_run bf p n m)) = length (block m)"
proof -
  let ?blz = "(block m)[p := (block m ! p)\<lparr>bh_size := of_nat n\<rparr>]"
  let ?bl = "mark_used bf p n ?blz"
  let ?m' = "take_run bf p n m"
  have len: "length (block m) = unat (blk_count m)" using map_wfD(1) [OF wf] .
  have bl: "block ?m' = ?bl" "free_count ?m' = free_count m - of_nat n" "base ?m' = base m"
    "block_size ?m' = block_size m" "blk_count ?m' = blk_count m"
    by (simp_all add: take_run_def Let_def split: option.splits)
  show "base ?m' = base m \<and> block_size ?m' = block_size m \<and> length (block ?m') = length (block m)"
    using bl by simp
  have nth: "?bl ! k = (if p \<le> k \<and> k < p + n then (?blz ! k)\<lparr>bh_flags := RFLAGS_USED OR bf\<rparr> else block m ! k)"
    if "k < length (block m)" for k
    using nth_mark_used [of p n ?blz k bf] that pn n by (auto simp: nth_list_update)
  have used: "used_hdr (?bl ! k) \<longleftrightarrow> used_hdr (block m ! k) \<or> p \<le> k \<and> k < p + n" if "k < length (block m)" for k
    using nth [OF that] by (auto simp: used_hdr_def)
  then show "k < length (block m) \<Longrightarrow> used_hdr (block ?m' ! k) \<longleftrightarrow> used_hdr (block m ! k) \<or> p \<le> k \<and> k < p + n"
    by (simp add: bl)
  have fr0: "\<not> used_hdr (?blz ! k)" if "p \<le> k" "k < p + n" for k
    using fr [OF that] fr [of p] n pn by (cases "k = p") (auto simp: used_hdr_def nth_list_update)
  have "length (filter (\<lambda>h. \<not> used_hdr h) ?bl) + n = length (filter (\<lambda>h. \<not> used_hdr h) ?blz)"
    using fr0 pn by (intro count_mark_used) auto
  moreover have "length (filter (\<lambda>h. \<not> used_hdr h) ?blz) = length (filter (\<lambda>h. \<not> used_hdr h) (block m))"
    using count_list_update [of p "block m" "\<lambda>h. \<not> used_hdr h" "(block m ! p)\<lparr>bh_size := of_nat n\<rparr>"] fr [of p] n pn
    by (auto simp: used_hdr_def)
  ultimately have cnt: "length (filter (\<lambda>h. \<not> used_hdr h) ?bl) + n = unat (free_count m)"
    using map_wfD(4) [OF wf] by simp
  have un: "unat (of_nat n :: u16) = n"
    using pn len unat16_lt [of "blk_count m"] by (intro unat_of_nat_fits) simp
  have "unat (free_count m - of_nat n) = unat (free_count m) - n"
    using cnt un by (subst unat_sub) (simp_all add: word_le_nat_alt)
  then have fc: "unat (free_count m - of_nat n) = length (filter (\<lambda>h. \<not> used_hdr h) ?bl)" using cnt by simp
  have sz: "list_all (\<lambda>h. used_hdr h \<or> bh_size h = 0) ?bl"
    unfolding list_all_length
  proof (intro allI impI)
    fix k assume "k < length ?bl"
    then have k: "k < length (block m)" by simp
    with used [OF k] map_wfD(6) [OF wf k] nth [OF k] show "used_hdr (?bl ! k) \<or> bh_size (?bl ! k) = 0"
      by (auto split: if_splits)
  qed
  have below: "used_hdr (?bl ! k)" if "k < unat (first_free m)" for k
    using map_wfD(5) [OF wf that] used [of k] map_wfD(3) [OF wf] that by simp
  have ff: "unat (first_free ?m') < length (block m) \<and> (\<forall>k < unat (first_free ?m'). used_hdr (?bl ! k))"
  proof (cases "p = unat (first_free m) \<and> find_free ?bl (p + n) (unat (blk_count m)) \<noteq> None")
    case False
    then have "first_free ?m' = first_free m"
      by (auto simp: take_run_def Let_def split: option.splits)
    then show ?thesis using below map_wfD(3) [OF wf] by simp
  next
    case True
    then obtain i where i: "find_free ?bl (p + n) (unat (blk_count m)) = Some i" by auto
    note f = find_free_Some [OF i]
    have ui: "unat (of_nat i :: u16) = i"
      using f unat16_lt [of "blk_count m"] by (intro unat_of_nat_fits) simp
    have "used_hdr (?bl ! k)" if "k < i" for k
      using below [of k] f that used [of k] True len by (cases "k < p"; cases "k < p + n") (auto simp: used_hdr_def)
    with True i f ui len show ?thesis by (simp add: take_run_def Let_def)
  qed
  show "map_wf ?m'"
    unfolding map_wf_def bl using fc sz ff map_wfD [OF wf]
    by (simp add: list_all_length len)
qed

section \<open>The geometry of the maps\<close>

text \<open>What no operation changes: the area and the block size of every map.\<close>

definition geom :: "block_map list \<Rightarrow> (u32 \<times> u16 \<times> nat) list" where
  "geom ms = map (\<lambda>m. (base m, block_size m, length (block m))) ms"

lemma geom_nth:
  assumes "geom ms = geom ms'" "i < length ms"
  shows "i < length ms'" "base (ms' ! i) = base (ms ! i)" "block_size (ms' ! i) = block_size (ms ! i)"
    "length (block (ms' ! i)) = length (block (ms ! i))"
proof -
  have "length (geom ms) = length (geom ms')" using assms(1) by simp
  then have l: "length ms = length ms'" by (simp add: geom_def)
  then show "i < length ms'" using assms(2) by simp
  have "geom ms ! i = geom ms' ! i" using assms(1) by simp
  then show "base (ms' ! i) = base (ms ! i)" "block_size (ms' ! i) = block_size (ms ! i)"
    "length (block (ms' ! i)) = length (block (ms ! i))"
    using assms(2) l by (simp_all add: geom_def)
qed

lemma geom_update:
  "i < length ms \<Longrightarrow> base m = base (ms ! i) \<Longrightarrow> block_size m = block_size (ms ! i) \<Longrightarrow>
   length (block m) = length (block (ms ! i)) \<Longrightarrow> geom (ms[i := m]) = geom ms"
  by (rule nth_equalityI) (auto simp: geom_def nth_list_update)

lemma take_block_geom:
  "take_block bf m = Some (p, m') \<Longrightarrow>
     base m' = base m \<and> block_size m' = block_size m \<and> length (block m') = length (block m)"
  by (auto simp: take_block_def Let_def split: if_splits option.splits)

lemma rmalloc_runtime_geom:
  assumes "rmalloc_runtime bf bytes st = Some (p, st')"
  shows "geom (rt_heap_map st') = geom (rt_heap_map st)"
proof (cases "fit_level bytes 0 (rt_heap_map st)")
  case None
  then show ?thesis using assms by (simp add: rmalloc_runtime_def)
next
  case (Some i)
  with assms obtain m' where i: "i < length (rt_heap_map st)"
    and m': "take_block bf (rt_heap_map st ! i) = Some (p, m')"
    and st': "rt_heap_map st' = (rt_heap_map st)[i := m']"
    by (auto simp: rmalloc_runtime_def alloc_block_def bind_eq_Some_conv)
  show ?thesis unfolding st' using take_block_geom [OF m'] i by (simp add: geom_update)
qed

text \<open>The addresses inside blocks in use.\<close>

definition live_bytes :: "memmap \<Rightarrow> nat set" where
  "live_bytes st = (\<Union>(i, j) \<in> live st.
     region (block_ptr (rt_heap_map st ! i) j) (unat (block_size (rt_heap_map st ! i))))"

lemma region_mono: "n \<le> n' \<Longrightarrow> region a n \<subseteq> region a n'"
  by (auto simp: region_def)

lemma live_bytes_alloc:
  assumes g: "geom (rt_heap_map st') = geom (rt_heap_map st)" and l: "live st' = insert (i, j) (live st)"
    and i: "i < length (rt_heap_map st)"
  shows "live_bytes st' = region (block_ptr (rt_heap_map st ! i) j) (unat (block_size (rt_heap_map st ! i))) \<union> live_bytes st"
proof -
  have e: "block_ptr (rt_heap_map st' ! a) b = block_ptr (rt_heap_map st ! a) b \<and>
      block_size (rt_heap_map st' ! a) = block_size (rt_heap_map st ! a)" if "a < length (rt_heap_map st)" for a b
    using geom_nth [OF g [symmetric] that] by (simp add: block_ptr_def)
  have lt: "a < length (rt_heap_map st)" if "(a, b) \<in> live st" for a b using that by (simp add: live_def)
  show ?thesis
    unfolding live_bytes_def l using e i lt by (auto 4 3)
qed

lemma live_bytes_disjoint:
  assumes "heap_wf st" "i < length (rt_heap_map st)" "j < length (block (rt_heap_map st ! i))"
    "(i, j) \<notin> live st" "n \<le> unat (block_size (rt_heap_map st ! i))"
  shows "region (block_ptr (rt_heap_map st ! i) j) n \<inter> live_bytes st = {}"
proof -
  have "region (block_ptr (rt_heap_map st ! i) j) (unat (block_size (rt_heap_map st ! i))) \<inter>
      region (block_ptr (rt_heap_map st ! k) l) (unat (block_size (rt_heap_map st ! k))) = {}"
    if "(k, l) \<in> live st" for k l
    by (rule block_regions_disjoint [OF assms(1,2)]) (use that assms in \<open>auto simp: live_def\<close>)
  then show ?thesis using region_mono [OF assms(5)] unfolding live_bytes_def by blast
qed

section \<open>Allocators\<close>

text \<open>A sequence of requests to an allocator.\<close>

fun alloc_seq :: "('n \<Rightarrow> 's \<Rightarrow> (u32 \<times> 's) option) \<Rightarrow> 'n list \<Rightarrow> 's \<Rightarrow> (u32 list \<times> 's) option" where
  "alloc_seq al [] s = Some ([], s)"
| "alloc_seq al (n # ns) s = do {
     (p, s) \<leftarrow> al n s;
     (ps, s) \<leftarrow> alloc_seq al ns s;
     Some (p # ps, s) }"

text \<open>Each block of a sequence is apart from \<open>U\<close> and from the blocks before it; \<open>NULL\<close> is no block.\<close>

fun separate :: "('n \<Rightarrow> nat) \<Rightarrow> 'n list \<Rightarrow> u32 list \<Rightarrow> nat set \<Rightarrow> bool" where
  "separate nb (n # ns) (p # ps) U \<longleftrightarrow>
     (if p = 0 then separate nb ns ps U
      else region p (nb n) \<inter> U = {} \<and> separate nb ns ps (U \<union> region p (nb n)))"
| "separate nb _ _ U \<longleftrightarrow> True"

lemma separate_mono: "separate nb ns ps U \<Longrightarrow> V \<subseteq> U \<Longrightarrow> separate nb ns ps V"
proof (induction nb ns ps U arbitrary: V rule: separate.induct)
  case (1 nb n ns p ps U)
  show ?case
  proof (cases "p = 0")
    case True
    with "1.prems" have "separate nb ns ps U" by simp
    from "1.IH"(1) [OF True this "1.prems"(2)] True show ?thesis by simp
  next
    case False
    with "1.prems"(1) have u: "region p (nb n) \<inter> U = {}" "separate nb ns ps (U \<union> region p (nb n))" by simp_all
    have "V \<union> region p (nb n) \<subseteq> U \<union> region p (nb n)" using "1.prems"(2) by blast
    from "1.IH"(2) [OF False u(2) this] False u(1) "1.prems"(2) show ?thesis by (simp, blast)
  qed
qed simp_all

lemma separate_fresh:
  "separate nb ns ps U \<Longrightarrow> i < length ps \<Longrightarrow> length ns = length ps \<Longrightarrow> ps ! i \<noteq> 0 \<Longrightarrow>
     region (ps ! i) (nb (ns ! i)) \<inter> U = {}"
proof (induction nb ns ps U arbitrary: i rule: separate.induct)
  case (1 nb n ns p ps U)
  show ?case
  proof (cases i)
    case 0
    with 1 show ?thesis by simp
  next
    case (Suc k)
    have "separate nb ns ps U"
    proof (cases "p = 0")
      case False
      then have "separate nb ns ps (U \<union> region p (nb n))" using "1.prems"(1) by simp
      then show ?thesis by (rule separate_mono) blast
    qed (use "1.prems"(1) in simp)
    have k: "k < length ps" "length ns = length ps" "ps ! k \<noteq> 0" using "1.prems" Suc by simp_all
    show ?thesis
    proof (cases "p = 0")
      case True
      from "1.IH"(1) [OF this \<open>separate nb ns ps U\<close> k] Suc show ?thesis by simp
    next
      case False
      then have "separate nb ns ps (U \<union> region p (nb n))" using "1.prems"(1) by simp
      from "1.IH"(2) [OF False this k] Suc show ?thesis by (simp add: Int_Un_distrib)
    qed
  qed
qed auto

lemma separate_pairwise:
  "separate nb ns ps U \<Longrightarrow> i < j \<Longrightarrow> j < length ps \<Longrightarrow> length ns = length ps \<Longrightarrow> ps ! i \<noteq> 0 \<Longrightarrow> ps ! j \<noteq> 0 \<Longrightarrow>
     region (ps ! i) (nb (ns ! i)) \<inter> region (ps ! j) (nb (ns ! j)) = {}"
proof (induction nb ns ps U arbitrary: i j rule: separate.induct)
  case (1 nb n ns p ps U)
  obtain l where l: "j = Suc l" using "1.prems"(2) by (cases j) auto
  show ?case
  proof (cases i)
    case 0
    then have "p \<noteq> 0" "separate nb ns ps (U \<union> region p (nb n))" using "1.prems" by simp_all
    then have "region (ps ! l) (nb (ns ! l)) \<inter> (U \<union> region p (nb n)) = {}"
      using "1.prems" l by (intro separate_fresh) simp_all
    with 0 l show ?thesis by auto
  next
    case (Suc k)
    with "1.prems" l have kl: "k < l" "l < length ps" "length ns = length ps" "ps ! k \<noteq> 0" "ps ! l \<noteq> 0" by simp_all
    show ?thesis
    proof (cases "p = 0")
      case True
      with "1.prems"(1) have "separate nb ns ps U" by simp
      from "1.IH"(1) [OF True this kl] Suc l show ?thesis by simp
    next
      case False
      with "1.prems"(1) have "separate nb ns ps (U \<union> region p (nb n))" by simp
      from "1.IH"(2) [OF False this kl] Suc l show ?thesis by simp
    qed
  qed
qed auto

locale block_allocator =
  fixes inv :: "'s \<Rightarrow> bool" and al :: "'n \<Rightarrow> 's \<Rightarrow> (u32 \<times> 's) option"
    and nbytes :: "'n \<Rightarrow> nat" and used :: "'s \<Rightarrow> nat set" and ok :: "'n \<Rightarrow> bool"
  assumes al_total: "inv s \<Longrightarrow> ok n \<Longrightarrow> \<exists>p s'. al n s = Some (p, s')"
    and al_inv: "inv s \<Longrightarrow> ok n \<Longrightarrow> al n s = Some (p, s') \<Longrightarrow> inv s'"
    and al_fresh: "inv s \<Longrightarrow> ok n \<Longrightarrow> al n s = Some (p, s') \<Longrightarrow> p \<noteq> 0 \<Longrightarrow> region p (nbytes n) \<inter> used s = {}"
    and al_used: "inv s \<Longrightarrow> ok n \<Longrightarrow> al n s = Some (p, s') \<Longrightarrow> p \<noteq> 0 \<Longrightarrow> used s \<union> region p (nbytes n) \<subseteq> used s'"
    and al_null: "inv s \<Longrightarrow> ok n \<Longrightarrow> al n s = Some (0, s') \<Longrightarrow> s' = s"
begin

lemma al_mono: "inv s \<Longrightarrow> ok n \<Longrightarrow> al n s = Some (p, s') \<Longrightarrow> used s \<subseteq> used s'"
  using al_used [of s n p s'] al_null [of s n s'] by (cases "p = 0") auto

lemma al_seq:
  "inv s \<Longrightarrow> list_all ok ns \<Longrightarrow> \<exists>ps s'. alloc_seq al ns s = Some (ps, s') \<and> inv s' \<and> length ps = length ns \<and> used s \<subseteq> used s' \<and>
     separate nbytes ns ps (used s)"
proof (induction ns arbitrary: s)
  case (Cons n ns)
  have okn: "ok n" "list_all ok ns" using Cons.prems(2) by simp_all
  obtain p s1 where a: "al n s = Some (p, s1)" using al_total [OF Cons.prems(1) okn(1)] by blast
  obtain ps s' where b: "alloc_seq al ns s1 = Some (ps, s')" "inv s'" "length ps = length ns" "used s1 \<subseteq> used s'"
      "separate nbytes ns ps (used s1)"
    using Cons.IH [OF al_inv [OF Cons.prems(1) okn(1) a] okn(2)] by blast
  note m = al_mono [OF Cons.prems(1) okn(1) a]
  have "separate nbytes (n # ns) (p # ps) (used s)"
    using al_fresh [OF Cons.prems(1) okn(1) a] separate_mono [OF b(5)] al_used [OF Cons.prems(1) okn(1) a] m by simp
  then show ?case using a b m by (intro exI [of _ "p # ps"] exI [of _ s']) auto
qed simp

lemma al_seq_disjoint:
  assumes "inv s" "list_all ok ns"
  shows "\<exists>ps s'. alloc_seq al ns s = Some (ps, s') \<and> length ps = length ns \<and> inv s' \<and>
    (\<forall>i < length ps. ps ! i \<noteq> 0 \<longrightarrow> region (ps ! i) (nbytes (ns ! i)) \<inter> used s = {}) \<and>
    (\<forall>i j. i < j \<longrightarrow> j < length ps \<longrightarrow> ps ! i \<noteq> 0 \<longrightarrow> ps ! j \<noteq> 0 \<longrightarrow>
       region (ps ! i) (nbytes (ns ! i)) \<inter> region (ps ! j) (nbytes (ns ! j)) = {})"
proof -
  obtain ps s' where a: "alloc_seq al ns s = Some (ps, s')" "inv s'" "length ps = length ns"
      and s: "separate nbytes ns ps (used s)"
    using al_seq [OF assms] by blast
  show ?thesis
  proof (intro exI conjI allI impI)
    show "region (ps ! i) (nbytes (ns ! i)) \<inter> used s = {}" if "i < length ps" "ps ! i \<noteq> 0" for i
      using separate_fresh [OF s that(1) a(3) [symmetric] that(2)] .
    show "region (ps ! i) (nbytes (ns ! i)) \<inter> region (ps ! j) (nbytes (ns ! j)) = {}"
      if "i < j" "j < length ps" "ps ! i \<noteq> 0" "ps ! j \<noteq> 0" for i j
      using separate_pairwise [OF s that(1,2) a(3) [symmetric] that(3,4)] .
  qed (fact a)+
qed

end

interpretation rt_alloc: block_allocator
  "\<lambda>st. heap_wf st \<and> heap_ready st" "rmalloc_runtime bf" "unat :: u32 \<Rightarrow> nat" live_bytes
  "\<lambda>_. True" for bf
proof unfold_locales
  fix s s' n p assume i: "heap_wf s \<and> heap_ready s"
  note spec = rmalloc_runtime_spec [of s n bf]
  show "\<exists>p s'. rmalloc_runtime bf n s = Some (p, s')" using spec i by blast
  assume a: "rmalloc_runtime bf n s = Some (p, s')"
  show "heap_wf s' \<and> heap_ready s'" using spec i a by auto
  assume nz: "p \<noteq> 0"
  obtain i' j' where b: "i' < length (rt_heap_map s)" "j' < length (block (rt_heap_map s ! i'))"
    "p = block_ptr (rt_heap_map s ! i') j'" "n \<le> ucast (block_size (rt_heap_map s ! i'))"
    "(i', j') \<notin> live s" "live s' = insert (i', j') (live s)"
    using spec i a nz by auto
  have nb: "unat n \<le> unat (block_size (rt_heap_map s ! i'))"
    using b(4) by (simp add: word_le_nat_alt)
  show "region p (unat n) \<inter> live_bytes s = {}"
    unfolding b(3) using b i nb by (intro live_bytes_disjoint) simp_all
  show "live_bytes s \<union> region p (unat n) \<subseteq> live_bytes s'"
    using live_bytes_alloc [OF rmalloc_runtime_geom [OF a] b(6,1)] region_mono [OF nb] b(3) by auto
next
  fix s s' n assume i: "heap_wf s \<and> heap_ready s" and a: "rmalloc_runtime bf n s = Some (0, s')"
  then show "s' = s" using rmalloc_runtime_spec [of s n bf] by auto
qed

section \<open>The buffer heap\<close>

text \<open>
  The arithmetic of a request: it takes \<open>cont_count\<close> blocks, which hold the bytes, and a run that
  starts below \<open>cont_remaining\<close> stays inside the header array.
\<close>

lemma cont_arith:
  assumes wf: "map_wf m" and b: "0 < unat bytes" "unat bytes \<le> length (block m) * unat (block_size m)"
  shows "unat (cont_remaining m bytes) = length (block m) - unat bytes div unat (block_size m)"
    and "unat (cont_count m bytes) = unat bytes div unat (block_size m) + of_bool (unat bytes mod unat (block_size m) \<noteq> 0)"
    and "unat bytes \<le> unat (cont_count m bytes) * unat (block_size m)"
    and "0 < unat (cont_count m bytes)"
    and "q < unat (cont_remaining m bytes) \<Longrightarrow> q + unat (cont_count m bytes) \<le> length (block m)"
proof -
  let ?bs = "unat (block_size m)" and ?N = "length (block m)"
  have bs: "0 < ?bs" and len: "?N = unat (blk_count m)" using map_wfD [OF wf] by auto
  have d: "unat bytes div ?bs \<le> ?N" using div_le_mono [OF b(2), of ?bs] bs by simp
  have ud: "unat (bytes div ucast (block_size m)) = unat bytes div ?bs" by (simp add: unat_div)
  have um: "(bytes mod ucast (block_size m) = 0) = (unat bytes mod ?bs = 0)"
    unfolding unat_eq_zero [symmetric] unat_mod unat_ucast_16_32 ..
  have le: "bytes div ucast (block_size m) \<le> ucast (blk_count m)"
    unfolding word_le_nat_alt using d len ud by simp
  show r: "unat (cont_remaining m bytes) = ?N - unat bytes div ?bs"
    using le ud len by (simp add: cont_remaining_def unat_sub)
  have small: "unat bytes div ?bs + 1 < 2 ^ 32" using d len unat16_lt [of "blk_count m"] by simp
  have "unat (bytes div ucast (block_size m) + 1) = unat bytes div ?bs + 1"
    using small ud by (subst unat_add_fits) simp_all
  then show c: "unat (cont_count m bytes) = unat bytes div ?bs + of_bool (unat bytes mod ?bs \<noteq> 0)"
    using ud um by (simp add: cont_count_def Let_def)
  have e: "unat bytes = unat bytes div ?bs * ?bs + unat bytes mod ?bs" by simp
  show le2: "unat bytes \<le> unat (cont_count m bytes) * ?bs"
  proof (cases "unat bytes mod ?bs = 0")
    case False
    have "unat bytes mod ?bs \<le> ?bs" using bs by simp
    then have "unat bytes \<le> unat bytes div ?bs * ?bs + ?bs" using e by linarith
    with False c show ?thesis by (simp add: distrib_right)
  qed (use c e in simp)
  show "0 < unat (cont_count m bytes)" using le2 b(1) by (cases "unat (cont_count m bytes)") auto
  show "q + unat (cont_count m bytes) \<le> ?N" if "q < unat (cont_remaining m bytes)"
    using that r c d by (cases "unat bytes mod ?bs = 0") simp_all
qed

lemma take_run_ready:
  assumes wf: "map_wf m" and rd: "ready m" and ps: "unat (first_free m) \<le> p" and pn: "p + n \<le> length (block m)" and n: "0 < n"
    and fr: "\<And>k. p \<le> k \<Longrightarrow> k < p + n \<Longrightarrow> \<not> used_hdr (block m ! k)"
  shows "ready (take_run bf p n m)"
proof (cases "p = unat (first_free m)")
  case False
  note t = take_run_wf [OF wf ps pn n fr, where bf = bf]
  let ?ff = "unat (first_free m)"
  have ff: "first_free (take_run bf p n m) = first_free m" using False by (simp add: take_run_def Let_def)
  have "free_count m \<noteq> 0"
    using fr [of p] n pn free_count_pos_iff [OF wf] by (auto simp: list_all_length)
  then have "\<not> used_hdr (block m ! ?ff)" using rd by (simp add: ready_def)
  then show ?thesis using t(2) [of ?ff] ff False ps map_wfD(3) [OF wf] by (simp add: ready_def)
next
  case True
  note t = take_run_wf(1,3) [OF wf ps pn n fr, where bf = bf]
  let ?m' = "take_run bf p n m"
  let ?bl = "mark_used bf p n ((block m)[p := (block m ! p)\<lparr>bh_size := of_nat n\<rparr>])"
  have bl: "block ?m' = ?bl" by (simp add: take_run_def Let_def split: option.splits)
  show ?thesis
  proof (cases "find_free ?bl (p + n) (unat (blk_count m))")
    case None
    have "used_hdr (?bl ! k)" if k: "k < length (block m)" for k
      using find_free_None [OF None, of k] k take_run_wf(2) [OF wf ps pn n fr k, of bf] map_wfD(1) [OF wf] map_wfD(5) [OF wf, of k] True bl
      by (cases "k < p"; cases "k < p + n") (auto simp: used_hdr_def)
    then have "free_count ?m' = 0"
      using free_count_pos_iff [OF t(1)] bl t(2) by (simp add: list_all_length)
    then show ?thesis by (simp add: ready_def)
  next
    case (Some i)
    note f = find_free_Some [OF Some]
    have "unat (of_nat i :: u16) = i"
      using f unat16_lt [of "blk_count m"] by (intro unat_of_nat_fits) simp
    moreover have "first_free ?m' = of_nat i" using True Some by (simp add: take_run_def Let_def)
    ultimately show ?thesis using f bl by (simp add: ready_def used_hdr_def)
  qed
qed

lemma take_run_plain:
  assumes "plain_flags m" "p + n \<le> length (block m)"
  shows "plain_flags (take_run RFLAGS_NONE p n m)"
proof -
  have "block (take_run RFLAGS_NONE p n m) = mark_used RFLAGS_NONE p n ((block m)[p := (block m ! p)\<lparr>bh_size := of_nat n\<rparr>])"
    by (simp add: take_run_def Let_def split: option.splits)
  then show ?thesis
    using assms by (auto simp: plain_flags_def list_all_length nth_mark_used nth_list_update RFLAGS_NONE_def split: if_splits)
qed

text \<open>The addresses in used blocks of a map.\<close>

definition map_bytes :: "block_map \<Rightarrow> nat set" where
  "map_bytes m = (\<Union>j \<in> {j. j < length (block m) \<and> used_hdr (block m ! j)}. region (block_ptr m j) (unat (block_size m)))"

lemma run_region:
  assumes wf: "map_wf m" and p: "p < length (block m)"
    and pn: "p + n \<le> length (block m)" and n: "unat b \<le> n * unat (block_size m)"
    and x: "x \<in> region (block_ptr m p) (unat b)"
  shows "\<exists>j. p \<le> j \<and> j < p + n \<and> x \<in> region (block_ptr m j) (unat (block_size m))"
proof -
  let ?bs = "unat (block_size m)" and ?B = "unat (base m)"
  have bs: "0 < ?bs" using map_wfD(2) [OF wf] .
  have x1: "?B + p * ?bs \<le> x" "x < ?B + p * ?bs + n * ?bs"
    using x n unat_block_ptr [OF wf p] by (auto simp: region_def)
  obtain k where k: "k * ?bs \<le> x - (?B + p * ?bs)" "x - (?B + p * ?bs) < k * ?bs + ?bs"
  proof
    show "(x - (?B + p * ?bs)) div ?bs * ?bs \<le> x - (?B + p * ?bs)" by (rule div_times_less_eq_dividend)
    show "x - (?B + p * ?bs) < (x - (?B + p * ?bs)) div ?bs * ?bs + ?bs"
      using dividend_less_div_times [OF bs] by (simp add: add.commute)
  qed
  have "k * ?bs < n * ?bs" using x1 k by linarith
  then have kn: "k < n" by simp
  have "unat (block_ptr m (p + k)) = ?B + (p + k) * ?bs"
    using kn pn by (intro unat_block_ptr [OF wf]) simp
  then have "unat (block_ptr m (p + k)) \<le> x \<and> x < unat (block_ptr m (p + k)) + ?bs"
    using k x1 unfolding distrib_right by linarith
  then show ?thesis
    using kn by (intro exI [of _ "p + k"]) (simp add: region_def)
qed

lemma map_bytes_apart:
  assumes wf: "map_wf m" and p: "p < length (block m)" "p + n \<le> length (block m)" and n: "unat b \<le> n * unat (block_size m)"
    and fr: "\<And>k. p \<le> k \<Longrightarrow> k < p + n \<Longrightarrow> \<not> used_hdr (block m ! k)"
  shows "region (block_ptr m p) (unat b) \<inter> map_bytes m = {}"
proof -
  let ?bs = "unat (block_size m)"
  have False if x: "x \<in> region (block_ptr m p) (unat b)" and j: "j < length (block m)" "used_hdr (block m ! j)"
    and xj: "x \<in> region (block_ptr m j) ?bs" for x j
  proof -
    obtain k where k: "p \<le> k" "k < p + n" "x \<in> region (block_ptr m k) ?bs"
      using run_region [OF wf p n x] by blast
    then have kl: "k < length (block m)" and ne: "k \<noteq> j" using p(2) fr j(2) by auto
    have "k * ?bs < j * ?bs + ?bs" "j * ?bs < k * ?bs + ?bs"
      using k(3) xj unat_block_ptr [OF wf kl] unat_block_ptr [OF wf j(1)] by (auto simp: region_def)
    then have "k * ?bs < Suc j * ?bs" "j * ?bs < Suc k * ?bs" by simp_all
    then have "k < Suc j" "j < Suc k" using mult_less_cancel2 by blast+
    then show False using ne by simp
  qed
  then show ?thesis unfolding map_bytes_def by blast
qed

definition buf_inv :: "memmap \<Rightarrow> bool" where
  "buf_inv st \<longleftrightarrow> (case buf_heap_map st of [m] \<Rightarrow> map_wf m \<and> ready m \<and> plain_flags m | _ \<Rightarrow> False)"

definition buf_size :: "memmap \<Rightarrow> nat" where
  "buf_size st = sum_list (map (\<lambda>m. length (block m) * unat (block_size m)) (buf_heap_map st))"

definition buf_bytes :: "memmap \<Rightarrow> nat set" where
  "buf_bytes st = \<Union> (map_bytes ` set (buf_heap_map st))"

text \<open>What one buffer request does to the map: some run of blocks that holds the bytes is taken.\<close>

lemma rballoc_spec:
  assumes inv: "buf_inv st" and b: "0 < unat bytes" "unat bytes \<le> buf_size st"
  shows "rballoc z RFLAGS_NONE bytes st = Some (0, st) \<or>
    (\<exists>m m' p n st'. rballoc z RFLAGS_NONE bytes st = Some (block_ptr m p, st') \<and> block_ptr m p \<noteq> 0 \<and>
       buf_heap_map st = [m] \<and> buf_heap_map st' = [m'] \<and> map_wf m' \<and> ready m' \<and> plain_flags m' \<and>
       base m' = base m \<and> block_size m' = block_size m \<and> length (block m') = length (block m) \<and>
       p < length (block m) \<and> p + n \<le> length (block m) \<and> unat bytes \<le> n * unat (block_size m) \<and>
       (\<forall>k. p \<le> k \<and> k < p + n \<longrightarrow> \<not> used_hdr (block m ! k)) \<and>
       (\<forall>k < length (block m). used_hdr (block m' ! k) \<longleftrightarrow> used_hdr (block m ! k) \<or> p \<le> k \<and> k < p + n))"
    (is "_ \<or> (\<exists>m m' p n st'. ?post m m' p n st')")
proof -
  obtain m where m: "buf_heap_map st = [m]" and wf: "map_wf m" and rd: "ready m" and pl: "plain_flags m"
    using inv by (auto simp: buf_inv_def split: list.splits)
  have bl: "unat bytes \<le> length (block m) * unat (block_size m)" using b(2) m by (simp add: buf_size_def)
  show ?thesis
  proof (cases "ucast (block_size m) < bytes \<or> free_count m = 0")
    case False
    let ?p = "unat (first_free m)"
    obtain m' where tb: "take_block RFLAGS_NONE m = Some (block_ptr m ?p, m')"
      and nf: "\<not> used_hdr (block m ! ?p)"
      and blk: "block m' = (block m)[?p := \<lparr>bh_size = 1, bh_flags = RFLAGS_USED OR RFLAGS_NONE\<rparr>]"
      and ok: "map_wf m'" "ready m'" "base m' = base m" "block_size m' = block_size m"
      using take_block_ok [OF wf rd, of RFLAGS_NONE] False by metis
    have p: "?p < length (block m)" by (rule map_wfD(3) [OF wf])
    have "rballoc z RFLAGS_NONE bytes st =
        Some (block_ptr m ?p, put_map Buffer_Heap 0 m' (upd_info Buffer_Heap (use_bytes (ucast (block_size m))) st))"
      using False tb m by (simp add: rballoc_def alloc_block_def)
    moreover have "plain_flags m'"
      using pl p blk by (auto simp: plain_flags_def list_all_length nth_list_update RFLAGS_NONE_def)
    moreover have "unat bytes \<le> 1 * unat (block_size m)" using False by (simp add: word_le_nat_alt word_less_nat_alt)
    moreover have "used_hdr (block m' ! k) \<longleftrightarrow> used_hdr (block m ! k) \<or> ?p \<le> k \<and> k < ?p + 1" for k
      using p blk by (auto simp: nth_list_update used_hdr_def)
    moreover have "\<not> used_hdr (block m ! k)" if "?p \<le> k" "k < ?p + 1" for k
      using that nf by (metis Suc_eq_plus1 le_less_Suc_eq)
    ultimately have "?post m m' ?p 1 (put_map Buffer_Heap 0 m' (upd_info Buffer_Heap (use_bytes (ucast (block_size m))) st))"
      using m ok blk p block_ptr_nonzero [OF wf p] by simp
    then show ?thesis by blast
  next
    case True
    let ?n = "unat (cont_count m bytes)" and ?r = "unat (cont_remaining m bytes)"
    note ar = cont_arith [OF wf b(1) bl]
    have bs: "block_size m \<noteq> 0" using map_wfD(2) [OF wf] by auto
    have rb: "rballoc z RFLAGS_NONE bytes st = alloc_cont_blocks Buffer_Heap 0 RFLAGS_NONE bytes st"
      using True m by (auto simp: rballoc_def)
    have "find_run (block m) ?n (unat (first_free m)) ?r \<noteq> None"
      using ar(5) by (intro find_run_total) simp
    then obtain found where f: "find_run (block m) ?n (unat (first_free m)) ?r = Some found" by blast
    show ?thesis
    proof (cases found)
      case None
      then show ?thesis using rb m bs f by (simp add: alloc_cont_blocks_def Let_def)
    next
      case (Some p)
      let ?m' = "take_run RFLAGS_NONE p ?n m"
      let ?st' = "put_map Buffer_Heap 0 ?m' (upd_info Buffer_Heap (use_bytes (of_nat ?n * ucast (block_size m))) st)"
      note fr = find_run_Some [OF f [unfolded Some]]
      have pn: "p + ?n \<le> length (block m)" using fr ar(5) by blast
      have p: "p < length (block m)" using pn ar(4) by linarith
      have free: "\<not> used_hdr (block m ! k)" if "p \<le> k" "k < p + ?n" for k
        using plain_run [OF pl _ that] fr by blast
      have ps: "unat (first_free m) \<le> p" using fr by blast
      note t = take_run_wf [OF wf ps pn ar(4) free, where bf = RFLAGS_NONE]
      have "rballoc z RFLAGS_NONE bytes st = Some (block_ptr m p, ?st')"
        using rb m bs f Some by (simp add: alloc_cont_blocks_def Let_def)
      then have "?post m ?m' p ?n ?st'"
        using m t ar(3) pn p free take_run_ready [OF wf rd ps pn ar(4) free] take_run_plain [OF pl pn]
          block_ptr_nonzero [OF wf p] by simp
      then show ?thesis by blast
    qed
  qed
qed

interpretation buf_alloc: block_allocator
  "\<lambda>st. buf_inv st \<and> buf_size st = n" "rballoc z RFLAGS_NONE" "unat :: u32 \<Rightarrow> nat" buf_bytes
  "\<lambda>b. 0 < unat b \<and> unat b \<le> n" for z n
proof unfold_locales
  fix s s' p and b :: u32 assume i: "buf_inv s \<and> buf_size s = n" and ok: "0 < unat b \<and> unat b \<le> n"
  then have "buf_inv s" "0 < unat b" "unat b \<le> buf_size s" by auto
  note spec = rballoc_spec [OF this, of z]
  show "\<exists>p s'. rballoc z RFLAGS_NONE b s = Some (p, s')" using spec by blast
  assume a: "rballoc z RFLAGS_NONE b s = Some (p, s')"
  show "buf_inv s' \<and> buf_size s' = n" using spec i ok a by (auto simp: buf_inv_def buf_size_def)
  assume nz: "p \<noteq> 0"
  obtain m m' q k where c: "p = block_ptr m q" "buf_heap_map s = [m]" "buf_heap_map s' = [m']"
      "q < length (block m)" "q + k \<le> length (block m)" "unat b \<le> k * unat (block_size m)"
      "\<And>l. q \<le> l \<Longrightarrow> l < q + k \<Longrightarrow> \<not> used_hdr (block m ! l)"
      "base m' = base m" "block_size m' = block_size m" "length (block m') = length (block m)"
      "\<And>l. l < length (block m) \<Longrightarrow> used_hdr (block m' ! l) \<longleftrightarrow> used_hdr (block m ! l) \<or> q \<le> l \<and> l < q + k"
    using spec i ok a nz by auto
  have wf: "map_wf m" using i c(2) by (simp add: buf_inv_def)
  show "region p (unat b) \<inter> buf_bytes s = {}"
    using map_bytes_apart [OF wf c(4,5,6,7)] c(1,2) by (simp add: buf_bytes_def)
  have bp: "block_ptr m' j = block_ptr m j" for j using c(8,9) by (simp add: block_ptr_def)
  have "region p (unat b) \<subseteq> map_bytes m'"
  proof
    fix x assume "x \<in> region p (unat b)"
    with run_region [OF wf c(4,5,6)] c(1) obtain j where "q \<le> j" "j < q + k"
      "x \<in> region (block_ptr m j) (unat (block_size m))" by blast
    moreover have "j < length (block m)" using calculation(2) c(5) by simp
    ultimately show "x \<in> map_bytes m'" using c(9,10,11) bp by (auto simp: map_bytes_def)
  qed
  moreover have "map_bytes m \<subseteq> map_bytes m'" using c(9,10,11) bp by (auto simp: map_bytes_def)
  ultimately show "buf_bytes s \<union> region p (unat b) \<subseteq> buf_bytes s'" using c(2,3) by (simp add: buf_bytes_def)
next
  fix s s' and b :: u32 assume i: "buf_inv s \<and> buf_size s = n" and ok: "0 < unat b \<and> unat b \<le> n"
    and a: "rballoc z RFLAGS_NONE b s = Some (0, s')"
  show "s' = s" using rballoc_spec [of s b z] i ok a by auto
qed

section \<open>Properties of the heap\<close>

lemma heap0_buf: "buf_inv heap0" "buf_size heap0 = 122880"
  using heap0_wf(3,4) unfolding buf_inv_def buf_size_def heap0_maps
  by (simp_all add: plain_flags_def list_all_iff)

text \<open>
  C1: on a well-formed heap in which the first-free index of every map that is not full names a free block
  (\<open>heap_ready\<close>: so the heap starts, and every allocation leaves it so), a sequence of runtime requests
  always returns, and the blocks it returns overlap neither each other nor any block that was in use,
  whatever the sizes. A release may leave an index on a block in use: then a block is handed out twice
  (\<open>double_allocation\<close>).
\<close>

theorem rmalloc_separate:
  assumes "heap_wf st" and "heap_ready st"
  shows "\<exists>ps st'. alloc_seq (rmalloc RZONE_RUNTIME bf) ns st = Some (ps, st') \<and> length ps = length ns \<and>
    heap_wf st' \<and> heap_ready st' \<and>
    (\<forall>i < length ps. ps ! i \<noteq> 0 \<longrightarrow> region (ps ! i) (unat (ns ! i)) \<inter> live_bytes st = {}) \<and>
    (\<forall>i j. i < j \<longrightarrow> j < length ps \<longrightarrow> ps ! i \<noteq> 0 \<longrightarrow> ps ! j \<noteq> 0 \<longrightarrow>
       region (ps ! i) (unat (ns ! i)) \<inter> region (ps ! j) (unat (ns ! j)) = {})"
proof -
  have e: "rmalloc RZONE_RUNTIME bf = rmalloc_runtime bf" by (intro ext) simp
  show ?thesis
    unfolding e using rt_alloc.al_seq_disjoint [of st ns bf, unfolded conj_assoc] assms by (simp add: list_all_iff)
qed

lemma rmalloc_separate_witness:
  "\<exists>ps st'. alloc_seq (rmalloc RZONE_RUNTIME 0) [100, 100, 1024] heap0 = Some (ps, st') \<and> length ps = 3"
  using rmalloc_separate [of heap0 0 "[100, 100, 1024]"] heap0_wf by auto

text \<open>
  a runtime request returns NULL, and changes nothing, exactly when every map whose blocks
  are big enough is full; otherwise it returns a free block of the first map that is big enough
  and not full, and that block alone becomes used.
\<close>

theorem rmalloc_first_fit:
  assumes "heap_wf st" and "heap_ready st"
  shows "(\<forall>m \<in> set (rt_heap_map st). ucast (block_size m) < bytes \<or> free_count m = 0) \<and>
           rmalloc RZONE_RUNTIME bf bytes st = Some (0, st) \<or>
         (\<exists>i j ptr st'. rmalloc RZONE_RUNTIME bf bytes st = Some (ptr, st') \<and> ptr \<noteq> 0 \<and>
            i < length (rt_heap_map st) \<and> ptr = block_ptr (rt_heap_map st ! i) j \<and>
            bytes \<le> ucast (block_size (rt_heap_map st ! i)) \<and>
            (\<forall>k < i. ucast (block_size (rt_heap_map st ! k)) < bytes \<or> free_count (rt_heap_map st ! k) = 0) \<and>
            (i, j) \<notin> live st \<and> live st' = insert (i, j) (live st))"
  using rmalloc_runtime_spec [OF assms, of bytes bf] unfolding rmalloc.simps by blast

lemma rmalloc_first_fit_witness:
  "\<exists>i j ptr st'. rmalloc RZONE_RUNTIME 0 100 heap0 = Some (ptr, st') \<and> i < 7 \<and>
     ptr = block_ptr (rt_heap_map heap0 ! i) j \<and> live st' = insert (i, j) (live heap0)"
proof -
  have "\<not> (\<forall>m \<in> set (rt_heap_map heap0). ucast (block_size m) < (100 :: u32) \<or> free_count m = 0)"
    unfolding heap0_maps by simp
  moreover have "length (rt_heap_map heap0) = 7" unfolding heap0_maps by simp
  ultimately show ?thesis using rmalloc_first_fit [OF heap0_wf(1,2), of 100 0] by auto
qed

text \<open>
  freeing the block a runtime request returned restores the heap exactly, counters, headers
  and first-free index included, unless the block came from the last map.
\<close>

theorem rfree_rmalloc:
  assumes wf: "heap_wf st" and rd: "heap_ready st"
    and a: "rmalloc RZONE_RUNTIME bf bytes st = Some (ptr, st')"
    and f: "fit_level bytes 0 (rt_heap_map st) = Some i" and i: "Suc i < length (rt_heap_map st)"
  shows "rfree ptr st' = Some st"
proof -
  let ?ms = "rt_heap_map st"
  let ?m = "?ms ! i"
  let ?j = "unat (first_free ?m)"
  note fl = fit_level_Some [OF f, simplified]
  have wfm: "map_wf ?m" and rdm: "ready ?m" and lay: "layout ?ms"
    using wf rd fl by (simp_all add: heap_wf_def heap_ready_def list_all_length)
  obtain m' where tb: "take_block bf ?m = Some (block_ptr ?m ?j, m')"
    and bl: "block m' = (block ?m)[?j := \<lparr>bh_size = 1, bh_flags = RFLAGS_USED OR bf\<rparr>]"
    and ok: "map_wf m'" "base m' = base ?m" "block_size m' = block_size ?m"
    using take_block_ok [OF wfm rdm, of bf] fl by metis
  have ptr: "ptr = block_ptr ?m ?j"
    and st': "st' = upd_info Runtime_Heap (use_bytes (ucast (block_size ?m))) (st\<lparr>rt_heap_map := ?ms[i := m']\<rparr>)"
    using a f tb fl by (auto simp: rmalloc_runtime_def alloc_block_def)
  have maps: "rt_heap_map st' = ?ms[i := m']" by (simp add: st')
  have j: "?j < length (block ?m)" using map_wfD(3) [OF wfm] .
  have p': "block_ptr m' ?j = block_ptr ?m ?j" using ok by (simp add: block_ptr_def)
  have g: "give_block ?j m' = ?m" using give_take [OF wfm rdm _ tb] fl by blast
  have "heap_wf st'"
    using wf fl ok bl by (simp add: heap_wf_def maps list_all_update layout_cong [OF lay])
  then have "rfree (block_ptr (rt_heap_map st' ! i) ?j) st' =
     Some (upd_info Runtime_Heap (release_bytes (ucast (block_size (rt_heap_map st' ! i))))
      (st'\<lparr>rt_heap_map := (rt_heap_map st')[i := give_block ?j (rt_heap_map st' ! i)]\<rparr>))"
    using i j bl by (intro rfree_block) (simp_all add: maps)
  also have "rt_heap_map st' ! i = m'" using i by (simp add: maps)
  also have "upd_info Runtime_Heap (release_bytes (ucast (block_size m')))
      (st'\<lparr>rt_heap_map := (rt_heap_map st')[i := give_block ?j m']\<rparr>) = st"
    using ok by (simp add: maps g) (simp add: st' use_bytes_def release_bytes_def)
  finally show ?thesis using ptr p' by simp
qed

lemma rfree_rmalloc_witness:
  "case rmalloc RZONE_RUNTIME 0 100 heap0 of Some (ptr, st') \<Rightarrow> rfree ptr st' = Some heap0 | None \<Rightarrow> False"
proof -
  obtain ptr st' where a: "rmalloc RZONE_RUNTIME 0 100 heap0 = Some (ptr, st')"
    using rmalloc_runtime_spec [OF heap0_wf(1,2), of 100 0] by auto
  have "fit_level 100 0 (rt_heap_map heap0) = Some 3" unfolding heap0_maps by simp
  from rfree_rmalloc [OF heap0_wf(1,2) a this] a show ?thesis unfolding heap0_maps(1) by simp
qed

text \<open>
  a sequence of buffer requests, each of one byte up to the size of the buffer heap, always
  returns (no header is read outside the map), and the buffers it returns, single blocks or
  contiguous runs, hold the bytes asked for and overlap neither each other nor a used block.
\<close>

theorem rballoc_separate:
  assumes "buf_inv st" and "\<forall>b \<in> set bs. 0 < unat b \<and> unat b \<le> buf_size st"
  shows "\<exists>ps st'. alloc_seq (rballoc z RFLAGS_NONE) bs st = Some (ps, st') \<and> length ps = length bs \<and>
    buf_inv st' \<and>
    (\<forall>i < length ps. ps ! i \<noteq> 0 \<longrightarrow> region (ps ! i) (unat (bs ! i)) \<inter> buf_bytes st = {}) \<and>
    (\<forall>i j. i < j \<longrightarrow> j < length ps \<longrightarrow> ps ! i \<noteq> 0 \<longrightarrow> ps ! j \<noteq> 0 \<longrightarrow>
       region (ps ! i) (unat (bs ! i)) \<inter> region (ps ! j) (unat (bs ! j)) = {})"
proof -
  have "list_all (\<lambda>b. 0 < unat b \<and> unat b \<le> buf_size st) bs" using assms(2) by (simp add: list_all_iff)
  with assms(1) obtain ps st' where "alloc_seq (rballoc z RFLAGS_NONE) bs st = Some (ps, st')" "length ps = length bs"
    "buf_inv st' \<and> buf_size st' = buf_size st"
    "\<forall>i < length ps. ps ! i \<noteq> 0 \<longrightarrow> region (ps ! i) (unat (bs ! i)) \<inter> buf_bytes st = {}"
    "\<forall>i j. i < j \<longrightarrow> j < length ps \<longrightarrow> ps ! i \<noteq> 0 \<longrightarrow> ps ! j \<noteq> 0 \<longrightarrow>
       region (ps ! i) (unat (bs ! i)) \<inter> region (ps ! j) (unat (bs ! j)) = {}"
    using buf_alloc.al_seq_disjoint [of st "buf_size st" bs z] by blast
  then show ?thesis by blast
qed

lemma rballoc_separate_witness:
  "\<exists>ps st'. alloc_seq (rballoc RZONE_RUNTIME RFLAGS_NONE) [768, 384, 1000] heap0 = Some (ps, st') \<and> length ps = 3"
  using rballoc_separate [of heap0 "[768, 384, 1000]" RZONE_RUNTIME] heap0_buf by auto

text \<open>
  memory of the buffer heap is never given back: rfree and rbfree only search the runtime
  maps but the last, so for any address from the last runtime map on they change nothing.
\<close>

theorem free_is_noop:
  assumes "heap_wf st" and "rt_heap_map st \<noteq> []" and "base (last (rt_heap_map st)) \<le> p"
  shows "rfree p st = Some st \<and> rbfree p st = Some st"
  using free_above [OF assms] by (simp_all add: rfree_def rbfree_def)

lemma free_is_noop_witness: "rbfree HEAP_BUFFER_BASE heap0 = Some heap0"
  by (rule conjunct2 [OF free_is_noop [OF heap0_wf(1)]]) (simp_all add: heap0_maps heap_config)

text \<open>
  a map that was full and whose first-free index stands below the block freed next hands out
  the block at that index again although it is in use, so two callers share it.
\<close>

theorem double_allocation:
  assumes wf: "map_wf m" and full: "free_count m = 0" and j: "unat (first_free m) < j" "j < length (block m)"
  shows "used_hdr (block (give_block j m) ! unat (first_free m)) \<and>
    (\<exists>m'. take_block bf (give_block j m) = Some (block_ptr m (unat (first_free m)), m'))"
proof (intro conjI)
  have "used_hdr (block m ! unat (first_free m))"
    using free_count_pos_iff [OF wf] full j map_wfD(3) [OF wf] unfolding list_all_length by blast
  then show "used_hdr (block (give_block j m) ! unat (first_free m))"
    using j(1) by (simp add: give_block_def Let_def)
  show "\<exists>m'. take_block bf (give_block j m) = Some (block_ptr m (unat (first_free m)), m')"
    using j map_wfD(1) [OF wf] by (simp add: give_block_def take_block_def block_ptr_def Let_def)
qed

text \<open>
  Such a map is reached from the initial 512-byte map by eight allocations, a release of the first
  block and a ninth allocation; the release of the sixth then leads to the shared block.
\<close>

definition full_map :: block_map where
  "full_map = \<lparr>block_size = 512, blk_count = 8, free_count = 0, first_free = 0,
     block = replicate 8 \<lparr>bh_size = 1, bh_flags = 1\<rparr>, base = 0xFF30D800\<rparr>"

fun take_blocks :: "nat \<Rightarrow> block_map \<Rightarrow> block_map option" where
  "take_blocks 0 m = Some m"
| "take_blocks (Suc n) m = do { (_, m) \<leftarrow> take_block RFLAGS_NONE m; take_blocks n m }"

lemma full_map_reached:
  "do { m \<leftarrow> take_blocks 8 ((BLOCK_DEF 512 8)\<lparr>base := 0xFF30D800\<rparr>); take_blocks 1 (give_block 0 m) } = Some full_map"
  by code_simp

lemma double_allocation_witness:
  "used_hdr (block (give_block 5 full_map) ! 0) \<and>
   (\<exists>m'. take_block RFLAGS_NONE (give_block 5 full_map) = Some (block_ptr full_map 0, m'))"
proof -
  have wf: "map_wf full_map" by (simp add: map_wf_def full_map_def used_hdr_def list_all_iff)
  have f: "free_count full_map = 0" "unat (first_free full_map) < 5" "5 < length (block full_map)" "unat (first_free full_map) = 0"
    by (simp_all add: full_map_def)
  show ?thesis using double_allocation [OF wf f(1-3), of RFLAGS_NONE] unfolding f(4) .
qed

end
