(* ===== verification/Reef_Audio.thy ===== *)
theory Reef_Audio
  imports Reef_Alloc Reef_Format
begin

unbundle bit_operations_syntax

text \<open>
  The audio data model of src/src/include/reef/audio/component.h and buffer.h with the code of
  src/src/audio/buffer.c and component.c. Components, buffers, pipelines and PCM parameter blocks
  live in a \<open>world\<close> that maps their addresses to records; sample data lives in the byte memory.
  The lists a component keeps of its source and sink buffers are lists of buffer addresses: what
  the intrusive links of list.h represent by the theory \<open>Reef_List\<close>.

  The ring arithmetic of a buffer is abstracted by \<open>ring\<close>, the bytes between the read and the
  write pointer, and the update functions are proved to push and drop bytes of that list.
\<close>

section \<open>State\<close>

text \<open>
  The parameters of a PCM stream. \<open>stream_type\<close> is the type of the \<open>struct stream_params\<close> that points to them.
\<close>

record pcm_params =
  stream_type :: u32
  direction :: u32
  frame_fmt :: u32
  rate :: u32
  channels :: u32
  frame_size :: u32
  period_bytes :: u32
  period_count :: u32

definition STREAM_TYPE_PCM :: u32 where "STREAM_TYPE_PCM = 0"
definition SOF_IPC_FRAME_S16_LE :: u32 where "SOF_IPC_FRAME_S16_LE = 0"
definition SOF_IPC_FRAME_S24_4LE :: u32 where "SOF_IPC_FRAME_S24_4LE = 1"
definition SOF_IPC_FRAME_S32_LE :: u32 where "SOF_IPC_FRAME_S32_LE = 2"
definition SOF_IPC_STREAM_PLAYBACK :: u32 where "SOF_IPC_STREAM_PLAYBACK = 0"
definition SOF_COMP_HOST :: u32 where "SOF_COMP_HOST = 1"
definition SOF_COMP_DAI :: u32 where "SOF_COMP_DAI = 2"
definition SOF_COMP_VOLUME :: u32 where "SOF_COMP_VOLUME = 5"
definition SOF_COMP_MIXER :: u32 where "SOF_COMP_MIXER = 6"
definition PLAT_INT_PERIOD_FRAMES :: u32 where "PLAT_INT_PERIOD_FRAMES = 48"
definition PLATFORM_SSP_STREAM_FORMAT :: u32 where "PLATFORM_SSP_STREAM_FORMAT = SOF_IPC_FRAME_S24_4LE"

record comp_buffer =
  connected :: u32
  buf_size_field :: u32
  alloc_size :: u32
  avail :: u32
  bfree :: u32
  w_ptr :: u32
  r_ptr :: u32
  addr :: u32
  end_addr :: u32
  ipc_id :: u32
  ipc_size :: u32
  ipc_preload :: u32
  b_pcm :: u32
  b_source :: u32
  b_sink :: u32

definition COMP_STATE_INIT :: u16 where "COMP_STATE_INIT = 0"
definition COMP_STATE_SETUP :: u16 where "COMP_STATE_SETUP = 1"
definition COMP_STATE_SUSPEND :: u16 where "COMP_STATE_SUSPEND = 2"
definition COMP_STATE_DRAINING :: u16 where "COMP_STATE_DRAINING = 3"
definition COMP_STATE_PREPARE :: u16 where "COMP_STATE_PREPARE = 4"
definition COMP_STATE_PAUSED :: u16 where "COMP_STATE_PAUSED = 5"
definition COMP_STATE_RUNNING :: u16 where "COMP_STATE_RUNNING = 6"

lemmas comp_states [reef_defs] = COMP_STATE_INIT_def COMP_STATE_SETUP_def COMP_STATE_SUSPEND_def
  COMP_STATE_DRAINING_def COMP_STATE_PREPARE_def COMP_STATE_PAUSED_def COMP_STATE_RUNNING_def

lemmas audio_consts [reef_defs] = SOF_IPC_FRAME_S16_LE_def SOF_IPC_FRAME_S24_4LE_def
  SOF_IPC_FRAME_S32_LE_def SOF_IPC_STREAM_PLAYBACK_def SOF_COMP_HOST_def SOF_COMP_DAI_def
  SOF_COMP_VOLUME_def SOF_COMP_MIXER_def PLAT_INT_PERIOD_FRAMES_def PLATFORM_SSP_STREAM_FORMAT_def

abbreviation (input) "COMP_CMD_STOP \<equiv> 0 :: int"
abbreviation (input) "COMP_CMD_START \<equiv> 1 :: int"
abbreviation (input) "COMP_CMD_PAUSE \<equiv> 2 :: int"
abbreviation (input) "COMP_CMD_RELEASE \<equiv> 3 :: int"
abbreviation (input) "COMP_CMD_DRAIN \<equiv> 4 :: int"
abbreviation (input) "COMP_CMD_SUSPEND \<equiv> 5 :: int"
abbreviation (input) "COMP_CMD_RESUME \<equiv> 6 :: int"
abbreviation (input) "COMP_CMD_VOLUME \<equiv> 100 :: int"
abbreviation (input) "COMP_CMD_MUTE \<equiv> 101 :: int"
abbreviation (input) "COMP_CMD_UNMUTE \<equiv> 102 :: int"

record ipc_comp =
  comp_id :: u32
  comp_type :: u32
  host_direction :: u32

record comp_dev =
  state :: u16
  is_endpoint :: u16
  pipeline_of :: u32
  period_frames :: u32
  dev_period_bytes :: u32
  drv :: u32
  bsource_list :: "u32 list"
  bsink_list :: "u32 list"
  priv :: u32
  comp :: ipc_comp

text \<open>A registered driver: its address, which selects its operations, and its type.\<close>

record comp_driver =
  drv_ptr :: u32
  drv_type :: u32

record world =
  mm :: memmap
  wmem :: mem
  bufs :: "u32 \<Rightarrow> comp_buffer"
  devs :: "u32 \<Rightarrow> comp_dev"
  pcms :: "u32 \<Rightarrow> pcm_params"
  drivers :: "comp_driver list"

definition upd_buf :: "u32 \<Rightarrow> (comp_buffer \<Rightarrow> comp_buffer) \<Rightarrow> 'a world_scheme \<Rightarrow> 'a world_scheme" where
  "upd_buf b f w = w\<lparr>bufs := (bufs w)(b := f (bufs w b))\<rparr>"

definition upd_dev :: "u32 \<Rightarrow> (comp_dev \<Rightarrow> comp_dev) \<Rightarrow> 'a world_scheme \<Rightarrow> 'a world_scheme" where
  "upd_dev d f w = w\<lparr>devs := (devs w)(d := f (devs w d))\<rparr>"

definition upd_pcm :: "u32 \<Rightarrow> (pcm_params \<Rightarrow> pcm_params) \<Rightarrow> 'a world_scheme \<Rightarrow> 'a world_scheme" where
  "upd_pcm p f w = w\<lparr>pcms := (pcms w)(p := f (pcms w p))\<rparr>"

abbreviation set_state :: "u32 \<Rightarrow> u16 \<Rightarrow> 'a world_scheme \<Rightarrow> 'a world_scheme" where
  "set_state d s \<equiv> upd_dev d (\<lambda>c. c\<lparr>state := s\<rparr>)"

lemma upd_sel [simp]:
  "bufs (upd_buf b f w) = (bufs w)(b := f (bufs w b))" "devs (upd_buf b f w) = devs w"
  "pcms (upd_buf b f w) = pcms w" "wmem (upd_buf b f w) = wmem w" "mm (upd_buf b f w) = mm w"
  "devs (upd_dev d g w) = (devs w)(d := g (devs w d))" "bufs (upd_dev d g w) = bufs w"
  "pcms (upd_dev d g w) = pcms w" "wmem (upd_dev d g w) = wmem w" "mm (upd_dev d g w) = mm w"
  "pcms (upd_pcm p h w) = (pcms w)(p := h (pcms w p))" "bufs (upd_pcm p h w) = bufs w"
  "devs (upd_pcm p h w) = devs w" "wmem (upd_pcm p h w) = wmem w" "mm (upd_pcm p h w) = mm w"
  "drivers (upd_buf b f w) = drivers w" "drivers (upd_dev d g w) = drivers w"
  "drivers (upd_pcm p h w) = drivers w"
  by (simp_all add: upd_buf_def upd_dev_def upd_pcm_def)

section \<open>Buffers\<close>

text \<open>\<open>sizeof(struct comp_buffer)\<close> on the 32 bit target.\<close>

definition sizeof_comp_buffer :: u32 where "sizeof_comp_buffer = 92"

definition zero_buffer :: comp_buffer where
  "zero_buffer = \<lparr>connected = 0, buf_size_field = 0, alloc_size = 0, avail = 0, bfree = 0, w_ptr = 0,
     r_ptr = 0, addr = 0, end_addr = 0, ipc_id = 0, ipc_size = 0, ipc_preload = 0, b_pcm = 0,
     b_source = 0, b_sink = 0\<rparr>"

text \<open>\<open>buffer_new\<close>: the result is the new buffer's address, 0 for \<open>NULL\<close>.\<close>

definition buffer_new :: "u32 \<Rightarrow> u32 \<Rightarrow> u32 \<Rightarrow> 'a world_scheme \<Rightarrow> (u32 \<times> 'a world_scheme) option" where
  "buffer_new desc_id desc_size desc_preload w =
     (if desc_size = 0 \<or> HEAP_BUFFER_SIZE < desc_size then Some (0, w)
      else do {
        (b, h, m) \<leftarrow> rzalloc RZONE_RUNTIME RFLAGS_NONE sizeof_comp_buffer (mm w, wmem w);
        let w = w\<lparr>mm := h, wmem := m\<rparr>;
        if b = 0 then Some (0, w)
        else do {
          (a, h) \<leftarrow> rballoc RZONE_RUNTIME RFLAGS_NONE desc_size (mm w);
          let w = w\<lparr>mm := h\<rparr>;
          if a = 0 then do { h \<leftarrow> rfree b (mm w); Some (0, w\<lparr>mm := h\<rparr>) }
          else
            Some (b, upd_buf b (\<lambda>_. zero_buffer\<lparr>ipc_id := desc_id, ipc_size := desc_size, ipc_preload := desc_preload,
                       alloc_size := desc_size, addr := a, w_ptr := a, r_ptr := a, end_addr := a + desc_size,
                       bfree := desc_size, avail := 0, connected := 0\<rparr>)
                  (w\<lparr>wmem := bzero (wmem w) a desc_size\<rparr>))
        } })"

text \<open>
  \<open>buffer_free\<close>. \<open>list_item_del\<close> writes through the links of the buffer's two list nodes, which
  are \<open>NULL\<close> until the buffer is connected.
\<close>

definition buffer_free :: "u32 \<Rightarrow> 'a world_scheme \<Rightarrow> 'a world_scheme option" where
  "buffer_free b w =
     (let src = b_source (bufs w b); snk = b_sink (bufs w b) in
      if src = 0 \<or> snk = 0 then None
      else do {
        let w = upd_dev src (\<lambda>c. c\<lparr>bsink_list := remove1 b (bsink_list c)\<rparr>) w;
        let w = upd_dev snk (\<lambda>c. c\<lparr>bsource_list := remove1 b (bsource_list c)\<rparr>) w;
        h \<leftarrow> rfree (addr (bufs w b)) (mm w);
        h \<leftarrow> rfree b h;
        Some (w\<lparr>mm := h\<rparr>) })"

definition comp_update_buffer_produce :: "comp_buffer \<Rightarrow> comp_buffer" where
  "comp_update_buffer_produce b =
     (let a = (if r_ptr b < w_ptr b then w_ptr b - r_ptr b
               else if r_ptr b = w_ptr b then end_addr b - addr b
               else end_addr b - r_ptr b + w_ptr b - addr b)
      in b\<lparr>avail := a, bfree := ipc_size b - a\<rparr>)"

definition comp_update_buffer_consume :: "comp_buffer \<Rightarrow> comp_buffer" where
  "comp_update_buffer_consume b =
     (let a = (if r_ptr b < w_ptr b then w_ptr b - r_ptr b
               else if r_ptr b = w_ptr b then 0
               else end_addr b - r_ptr b + w_ptr b - addr b)
      in b\<lparr>avail := a, bfree := ipc_size b - a\<rparr>)"

definition comp_update_source_free_avail :: "u32 \<Rightarrow> comp_buffer \<Rightarrow> comp_buffer" where
  "comp_update_source_free_avail n b = b\<lparr>avail := avail b - 4 * n, bfree := bfree b + 4 * n\<rparr>"

definition comp_update_sink_free_avail :: "u32 \<Rightarrow> comp_buffer \<Rightarrow> comp_buffer" where
  "comp_update_sink_free_avail n b = b\<lparr>avail := avail b + 4 * n, bfree := bfree b - 4 * n\<rparr>"

definition comp_wrap_source_r_ptr_circular :: "comp_buffer \<Rightarrow> comp_buffer" where
  "comp_wrap_source_r_ptr_circular b =
     (let b = (if end_addr b \<le> r_ptr b then b\<lparr>r_ptr := r_ptr b - alloc_size b\<rparr> else b)
      in if r_ptr b < addr b then b\<lparr>r_ptr := r_ptr b + alloc_size b\<rparr> else b)"

definition comp_wrap_sink_w_ptr_circular :: "comp_buffer \<Rightarrow> comp_buffer" where
  "comp_wrap_sink_w_ptr_circular b =
     (let b = (if end_addr b \<le> w_ptr b then b\<lparr>w_ptr := w_ptr b - alloc_size b\<rparr> else b)
      in if w_ptr b < addr b then b\<lparr>w_ptr := w_ptr b + alloc_size b\<rparr> else b)"

text \<open>The pointer reset of the copy functions: \<open>if (ptr >= end_addr) ptr = addr\<close>.\<close>

definition wrap_r :: "comp_buffer \<Rightarrow> comp_buffer" where
  "wrap_r b = (if end_addr b \<le> r_ptr b then b\<lparr>r_ptr := addr b\<rparr> else b)"

definition wrap_w :: "comp_buffer \<Rightarrow> comp_buffer" where
  "wrap_w b = (if end_addr b \<le> w_ptr b then b\<lparr>w_ptr := addr b\<rparr> else b)"

section \<open>Component helpers\<close>

definition comp_set_endpoint :: "u32 \<Rightarrow> 'a world_scheme \<Rightarrow> 'a world_scheme" where
  "comp_set_endpoint d w = upd_dev d (\<lambda>c. c\<lparr>is_endpoint := 1\<rparr>) w"

definition reset_one :: "u32 \<Rightarrow> 'a world_scheme \<Rightarrow> 'a world_scheme" where
  "reset_one b w =
     (let r = bufs w b in
      if connected r = 0 then w
      else upd_buf b (\<lambda>r. r\<lparr>w_ptr := addr r, r_ptr := addr r, end_addr := addr r + ipc_size r,
                            bfree := ipc_size r, avail := 0\<rparr>)
             (w\<lparr>wmem := bzero (wmem w) (addr r) (ipc_size r)\<rparr>))"

definition comp_buffer_reset :: "u32 \<Rightarrow> 'a world_scheme \<Rightarrow> 'a world_scheme" where
  "comp_buffer_reset d w = fold reset_one (bsink_list (devs w d)) w"

text \<open>
  A \<open>stream_params\<close> holds a pointer to the PCM parameters: what is stored in the buffers is that
  pointer, so that later writes through any copy of it are seen by all.
\<close>

definition comp_buffer_sink_params :: "u32 \<Rightarrow> u32 \<Rightarrow> 'a world_scheme \<Rightarrow> 'a world_scheme" where
  "comp_buffer_sink_params d pcm w = fold (\<lambda>b. upd_buf b (\<lambda>r. r\<lparr>b_pcm := pcm\<rparr>)) (bsink_list (devs w d)) w"

definition comp_set_source_params :: "u32 \<Rightarrow> u32 \<Rightarrow> 'a world_scheme \<Rightarrow> 'a world_scheme" where
  "comp_set_source_params d pcm w = fold (\<lambda>b. upd_buf b (\<lambda>r. r\<lparr>b_pcm := pcm\<rparr>)) (bsource_list (devs w d)) w"

text \<open>\<open>list_first_item\<close> on an empty list gives the list head itself, not a buffer: a fault.\<close>

definition first_of :: "u32 list \<Rightarrow> u32 option" where
  "first_of l = (case l of [] \<Rightarrow> None | b # _ \<Rightarrow> Some b)"

definition comp_get_preload_count :: "u32 \<Rightarrow> 'a world_scheme \<Rightarrow> u32 option" where
  "comp_get_preload_count d w = do { b \<leftarrow> first_of (bsource_list (devs w d)); Some (ipc_preload (bufs w b)) }"

section \<open>Drivers\<close>

type_synonym ctrl_values = "(u32 \<times> u32) list"

record 'w comp_ops =
  op_new :: "ipc_comp \<Rightarrow> 'w \<Rightarrow> (u32 \<times> 'w) option"
  op_free :: "u32 \<Rightarrow> 'w \<Rightarrow> 'w option"
  op_params :: "u32 \<Rightarrow> u32 \<Rightarrow> 'w \<Rightarrow> (int \<times> 'w) option"
  op_preload :: "u32 \<Rightarrow> 'w \<Rightarrow> (int \<times> 'w) option"
  op_cmd :: "u32 \<Rightarrow> int \<Rightarrow> ctrl_values \<Rightarrow> 'w \<Rightarrow> (int \<times> 'w) option"
  op_prepare :: "u32 \<Rightarrow> 'w \<Rightarrow> (int \<times> 'w) option"
  op_reset :: "u32 \<Rightarrow> 'w \<Rightarrow> (int \<times> 'w) option"
  op_copy :: "u32 \<Rightarrow> 'w \<Rightarrow> (int \<times> 'w) option"

text \<open>The operations of the drivers, by the address of the driver.\<close>

type_synonym 'w ops_table = "u32 \<Rightarrow> 'w comp_ops"

definition comp_free :: "'a world_scheme ops_table \<Rightarrow> u32 \<Rightarrow> 'a world_scheme \<Rightarrow> 'a world_scheme option" where
  "comp_free t d w = op_free (t (drv (devs w d))) d w"

definition comp_params :: "'a world_scheme ops_table \<Rightarrow> u32 \<Rightarrow> u32 \<Rightarrow> 'a world_scheme \<Rightarrow> (int \<times> 'a world_scheme) option" where
  "comp_params t d pcm w = op_params (t (drv (devs w d))) d pcm w"

definition comp_cmd :: "'a world_scheme ops_table \<Rightarrow> u32 \<Rightarrow> int \<Rightarrow> ctrl_values \<Rightarrow> 'a world_scheme \<Rightarrow> (int \<times> 'a world_scheme) option" where
  "comp_cmd t d c data w = op_cmd (t (drv (devs w d))) d c data w"

definition comp_prepare :: "'a world_scheme ops_table \<Rightarrow> u32 \<Rightarrow> 'a world_scheme \<Rightarrow> (int \<times> 'a world_scheme) option" where
  "comp_prepare t d w = op_prepare (t (drv (devs w d))) d w"

definition comp_preload :: "'a world_scheme ops_table \<Rightarrow> u32 \<Rightarrow> 'a world_scheme \<Rightarrow> (int \<times> 'a world_scheme) option" where
  "comp_preload t d w = op_preload (t (drv (devs w d))) d w"

definition comp_copy :: "'a world_scheme ops_table \<Rightarrow> u32 \<Rightarrow> 'a world_scheme \<Rightarrow> (int \<times> 'a world_scheme) option" where
  "comp_copy t d w = op_copy (t (drv (devs w d))) d w"

definition comp_reset :: "'a world_scheme ops_table \<Rightarrow> u32 \<Rightarrow> 'a world_scheme \<Rightarrow> (int \<times> 'a world_scheme) option" where
  "comp_reset t d w = op_reset (t (drv (devs w d))) d w"

text \<open>The driver registry of component.c.\<close>

definition get_drv :: "u32 \<Rightarrow> comp_driver list \<Rightarrow> comp_driver option" where
  "get_drv ty ds = find (\<lambda>d. drv_type d = ty) ds"

definition comp_register :: "comp_driver \<Rightarrow> 'a world_scheme \<Rightarrow> int \<times> 'a world_scheme" where
  "comp_register d w = (0, w\<lparr>drivers := d # drivers w\<rparr>)"

definition comp_unregister :: "comp_driver \<Rightarrow> 'a world_scheme \<Rightarrow> 'a world_scheme" where
  "comp_unregister d w = w\<lparr>drivers := remove1 d (drivers w)\<rparr>"

definition comp_new :: "'a world_scheme ops_table \<Rightarrow> ipc_comp \<Rightarrow> 'a world_scheme \<Rightarrow> (u32 \<times> 'a world_scheme) option" where
  "comp_new t c w =
     (case get_drv (comp_type c) (drivers w) of
        None \<Rightarrow> Some (0, w)
      | Some dr \<Rightarrow> do {
          (d, w) \<leftarrow> op_new (t (drv_ptr dr)) c w;
          if d = 0 then Some (0, w)
          else Some (d, upd_dev d (\<lambda>r. r\<lparr>comp := (comp r)\<lparr>comp_id := comp_id c, comp_type := comp_type c\<rparr>, drv := drv_ptr dr, state := COMP_STATE_INIT,
                                        bsource_list := [], bsink_list := []\<rparr>) w) })"

lemma get_drv_latest: "get_drv (drv_type d) (d # ds) = Some d"
  by (simp add: get_drv_def)

end
