(* ===== verification/Reef_Ring.thy ===== *)
theory Reef_Ring
  imports Reef_Audio Reef_Alloc_Props
begin

text \<open>
  Audio buffers as queues of bytes. \<open>ring m b\<close> is the list of the bytes between the read and the
  write pointer, \<open>buf_wf\<close> the invariant that ties the counters of a buffer to its pointers. The
  update functions of buffer.h keep the invariant and push to or drop from that list; a buffer
  fresh from \<open>buffer_new\<close> satisfies the invariant and is empty.
\<close>

section \<open>The invariant\<close>

definition roff :: "comp_buffer \<Rightarrow> nat" where "roff b = unat (r_ptr b - addr b)"
definition woff :: "comp_buffer \<Rightarrow> nat" where "woff b = unat (w_ptr b - addr b)"
definition bsize :: "comp_buffer \<Rightarrow> nat" where "bsize b = unat (ipc_size b)"

definition buf_wf :: "comp_buffer \<Rightarrow> bool" where
  "buf_wf b \<longleftrightarrow> 0 < bsize b \<and> unat (addr b) + bsize b < 2 ^ 32 \<and>
     end_addr b = addr b + ipc_size b \<and> alloc_size b = ipc_size b \<and>
     roff b < bsize b \<and> woff b < bsize b \<and>
     unat (avail b) + unat (bfree b) = bsize b \<and>
     woff b = (roff b + unat (avail b)) mod bsize b"

definition ring_addr :: "comp_buffer \<Rightarrow> nat \<Rightarrow> u32" where
  "ring_addr b k = addr b + of_nat ((roff b + k) mod bsize b)"

definition ring :: "mem \<Rightarrow> comp_buffer \<Rightarrow> u8 list" where
  "ring m b = map (\<lambda>k. m (ring_addr b k)) [0 ..< unat (avail b)]"

lemma length_ring [simp]: "length (ring m b) = unat (avail b)"
  by (simp add: ring_def)

lemma buf_wfD:
  assumes "buf_wf b"
  shows "0 < bsize b" "unat (addr b) + bsize b < 2 ^ 32" "end_addr b = addr b + ipc_size b"
    "alloc_size b = ipc_size b" "roff b < bsize b" "woff b < bsize b"
    "unat (avail b) + unat (bfree b) = bsize b" "woff b = (roff b + unat (avail b)) mod bsize b"
    "unat (end_addr b) = unat (addr b) + bsize b"
    "unat (r_ptr b) = unat (addr b) + roff b" "unat (w_ptr b) = unat (addr b) + woff b"
    "unat (avail b) \<le> bsize b"
proof -
  note d = assms [unfolded buf_wf_def]
  show s: "0 < bsize b" "unat (addr b) + bsize b < 2 ^ 32" "end_addr b = addr b + ipc_size b"
    "alloc_size b = ipc_size b" "roff b < bsize b" "woff b < bsize b"
    "unat (avail b) + unat (bfree b) = bsize b" "woff b = (roff b + unat (avail b)) mod bsize b"
    using d by blast+
  show "unat (end_addr b) = unat (addr b) + bsize b"
    using s(2,3) by (simp add: bsize_def unat_add_fits)
  have "unat (addr b + (r_ptr b - addr b)) = unat (addr b) + unat (r_ptr b - addr b)"
    using s(2,5) by (intro unat_add_fits) (simp add: roff_def)
  then show "unat (r_ptr b) = unat (addr b) + roff b" by (simp add: roff_def)
  have "unat (addr b + (w_ptr b - addr b)) = unat (addr b) + unat (w_ptr b - addr b)"
    using s(2,6) by (intro unat_add_fits) (simp add: woff_def)
  then show "unat (w_ptr b) = unat (addr b) + woff b" by (simp add: woff_def)
  show "unat (avail b) \<le> bsize b" using s(7) by linarith
qed

section \<open>Advancing the pointers\<close>

text \<open>The pointer \<open>n\<close> bytes further round the ring.\<close>

definition step_w :: "nat \<Rightarrow> comp_buffer \<Rightarrow> comp_buffer" where
  "step_w n b = b\<lparr>w_ptr := addr b + of_nat ((woff b + n) mod bsize b)\<rparr>"

definition step_r :: "nat \<Rightarrow> comp_buffer \<Rightarrow> comp_buffer" where
  "step_r n b = b\<lparr>r_ptr := addr b + of_nat ((roff b + n) mod bsize b)\<rparr>"

lemma off_of_nat: "k < bsize b \<Longrightarrow> unat (of_nat k :: u32) = k"
  using unat32_lt [of "ipc_size b"] by (intro unat_of_nat_fits) (simp add: bsize_def)

lemma mod_once: "a < s \<Longrightarrow> n \<le> s \<Longrightarrow> (a + n) mod s = (if a + n < s then a + n else a + n - s)" for a n s :: nat
  by (simp add: le_mod_geq)

lemma unat_ptr_add:
  assumes "buf_wf b" "unat p = unat (addr b) + k" "k < bsize b" "n \<le> bsize b"
    "unat (addr b) + 2 * bsize b < 2 ^ 32"
  shows "unat ((p :: u32) + of_nat n) = unat (addr b) + k + n"
proof -
  have "unat (of_nat n :: u32) = n"
    using assms(4) unat32_lt [of "ipc_size b"] by (intro unat_of_nat_fits) (simp add: bsize_def)
  then show ?thesis using assms by (subst unat_add_fits) simp_all
qed

lemma ptr_eqI: "unat p = unat (addr b) + k \<Longrightarrow> k < bsize b \<Longrightarrow> unat (addr b) + bsize b < 2 ^ 32 \<Longrightarrow> p = addr b + of_nat k"
  by (rule word_unat_eq_iff [THEN iffD2], subst unat_add_fits) (simp_all add: off_of_nat)

text \<open>
  The wrap helpers of buffer.h and the reset of the copy functions both compute that pointer; the
  latter only when the step ends at or before the end of the area.
\<close>

lemma wrap_circular_w:
  assumes wf: "buf_wf b" and n: "n \<le> bsize b" and sp: "unat (addr b) + 2 * bsize b < 2 ^ 32"
  shows "comp_wrap_sink_w_ptr_circular (b\<lparr>w_ptr := w_ptr b + of_nat n\<rparr>) = step_w n b"
proof -
  note d = buf_wfD [OF wf]
  note u = unat_ptr_add [OF wf d(11,6) n sp]
  show ?thesis
  proof (cases "woff b + n < bsize b")
    case True
    have "w_ptr b + of_nat n = addr b + of_nat (woff b + n)"
      using u d(2) True by (intro ptr_eqI) simp_all
    moreover have "\<not> end_addr b \<le> w_ptr b + of_nat n" "\<not> w_ptr b + of_nat n < addr b"
      using u d(9) True by (simp_all add: word_le_nat_alt word_less_nat_alt)
    ultimately show ?thesis
      using True by (simp add: comp_wrap_sink_w_ptr_circular_def Let_def step_w_def)
  next
    case False
    have ge: "end_addr b \<le> w_ptr b + of_nat n" using u d(9) False by (simp add: word_le_nat_alt)
    have "alloc_size b \<le> w_ptr b + of_nat n" using u d(4) False by (simp add: word_le_nat_alt bsize_def)
    then have "unat (w_ptr b + of_nat n - alloc_size b) = unat (addr b) + (woff b + n - bsize b)"
      using u d(4) False by (simp add: unat_sub bsize_def)
    moreover have "woff b + n - bsize b < bsize b" using d(6) n by linarith
    ultimately have e: "w_ptr b + of_nat n - alloc_size b = addr b + of_nat (woff b + n - bsize b)"
      and lt: "\<not> w_ptr b + of_nat n - alloc_size b < addr b"
      using d(2) by (auto intro!: ptr_eqI simp: word_less_nat_alt)
    have "(woff b + n) mod bsize b = woff b + n - bsize b" using d(6) n False by (simp add: mod_once)
    with ge lt show ?thesis
      using e by (simp add: comp_wrap_sink_w_ptr_circular_def Let_def step_w_def)
  qed
qed

lemma wrap_w_step:
  assumes wf: "buf_wf b" and n: "woff b + n \<le> bsize b"
  shows "wrap_w (b\<lparr>w_ptr := w_ptr b + of_nat n\<rparr>) = step_w n b"
proof -
  note d = buf_wfD [OF wf]
  have un: "unat (of_nat n :: u32) = n"
    using n unat32_lt [of "ipc_size b"] by (intro unat_of_nat_fits) (simp add: bsize_def)
  have u: "unat (w_ptr b + of_nat n) = unat (addr b) + (woff b + n)"
    using un d(2,11) n by (subst unat_add_fits) simp_all
  show ?thesis
  proof (cases "woff b + n < bsize b")
    case True
    then have "w_ptr b + of_nat n = addr b + of_nat (woff b + n)" using u d(2) by (intro ptr_eqI)
    moreover have "\<not> end_addr b \<le> w_ptr b + of_nat n" using u d(9) True by (simp add: word_le_nat_alt)
    ultimately show ?thesis using True by (simp add: wrap_w_def step_w_def)
  next
    case False
    with n have e: "woff b + n = bsize b" by simp
    then have "end_addr b \<le> w_ptr b + of_nat n" using u d(9) by (simp add: word_le_nat_alt)
    then show ?thesis by (simp add: wrap_w_def step_w_def e)
  qed
qed

lemma wrap_r_step:
  assumes wf: "buf_wf b" and n: "roff b + n \<le> bsize b"
  shows "wrap_r (b\<lparr>r_ptr := r_ptr b + of_nat n\<rparr>) = step_r n b"
proof -
  note d = buf_wfD [OF wf]
  have un: "unat (of_nat n :: u32) = n"
    using n unat32_lt [of "ipc_size b"] by (intro unat_of_nat_fits) (simp add: bsize_def)
  have u: "unat (r_ptr b + of_nat n) = unat (addr b) + (roff b + n)"
    using un d(2,10) n by (subst unat_add_fits) simp_all
  show ?thesis
  proof (cases "roff b + n < bsize b")
    case True
    then have "r_ptr b + of_nat n = addr b + of_nat (roff b + n)" using u d(2) by (intro ptr_eqI)
    moreover have "\<not> end_addr b \<le> r_ptr b + of_nat n" using u d(9) True by (simp add: word_le_nat_alt)
    ultimately show ?thesis using True by (simp add: wrap_r_def step_r_def)
  next
    case False
    with n have e: "roff b + n = bsize b" by simp
    then have "end_addr b \<le> r_ptr b + of_nat n" using u d(9) by (simp add: word_le_nat_alt)
    then show ?thesis by (simp add: wrap_r_def step_r_def e)
  qed
qed

section \<open>Producing and consuming\<close>

lemma off_step:
  assumes "buf_wf b"
  shows "woff (step_w n b) = (woff b + n) mod bsize b" "roff (step_r n b) = (roff b + n) mod bsize b"
    "unat (w_ptr (step_w n b)) = unat (addr b) + (woff b + n) mod bsize b"
    "unat (r_ptr (step_r n b)) = unat (addr b) + (roff b + n) mod bsize b"
proof -
  note d = buf_wfD [OF assms]
  have u: "unat (of_nat (k mod bsize b) :: u32) = k mod bsize b" for k
    using d(1) by (intro off_of_nat [of _ b]) simp
  have lt: "k mod bsize b < bsize b" for k using d(1) by simp
  show "woff (step_w n b) = (woff b + n) mod bsize b" "roff (step_r n b) = (roff b + n) mod bsize b"
    unfolding woff_def [of "step_w n b"] roff_def [of "step_r n b"] by (simp_all add: step_w_def step_r_def u)
  show "unat (w_ptr (step_w n b)) = unat (addr b) + (woff b + n) mod bsize b"
    using d(2) lt [of "woff b + n"] by (simp add: step_w_def, subst unat_add_fits) (simp_all add: u)
  show "unat (r_ptr (step_r n b)) = unat (addr b) + (roff b + n) mod bsize b"
    using d(2) lt [of "roff b + n"] by (simp add: step_r_def, subst unat_add_fits) (simp_all add: u)
qed

lemma step_sel [simp]:
  "addr (step_w n b) = addr b" "roff (step_w n b) = roff b" "bsize (step_w n b) = bsize b"
  "avail (step_w n b) = avail b" "ipc_size (step_w n b) = ipc_size b" "end_addr (step_w n b) = end_addr b"
  "addr (step_r n b) = addr b" "woff (step_r n b) = woff b" "bsize (step_r n b) = bsize b"
  "avail (step_r n b) = avail b" "ipc_size (step_r n b) = ipc_size b" "end_addr (step_r n b) = end_addr b"
  "alloc_size (step_w n b) = alloc_size b" "alloc_size (step_r n b) = alloc_size b"
  "r_ptr (step_w n b) = r_ptr b" "w_ptr (step_r n b) = w_ptr b"
  by (simp_all add: step_w_def step_r_def roff_def woff_def bsize_def)

text \<open>The count both update functions compute from two different pointers.\<close>

lemma between:
  assumes "unat (addr b) + bsize b < 2 ^ 32" "unat (end_addr b) = unat (addr b) + bsize b"
    "unat (r_ptr b) = unat (addr b) + roff b" "unat (w_ptr b) = unat (addr b) + woff b"
    "roff b < bsize b" "woff b < bsize b" "roff b \<noteq> woff b"
  shows "unat (if r_ptr b < w_ptr b then w_ptr b - r_ptr b
               else end_addr b - r_ptr b + w_ptr b - addr b)
       = (if roff b < woff b then woff b - roff b else bsize b - roff b + woff b)"
proof (cases "roff b < woff b")
  case True
  then have "r_ptr b < w_ptr b" using assms by (simp add: word_less_nat_alt)
  then show ?thesis using True assms by (simp add: unat_sub word_less_nat_alt word_le_nat_alt)
next
  case False
  then have lt: "\<not> r_ptr b < w_ptr b" using assms by (simp add: word_less_nat_alt)
  have 1: "unat (end_addr b - r_ptr b) = bsize b - roff b"
    using assms by (subst unat_sub) (simp_all add: word_le_nat_alt)
  have 2: "unat (w_ptr b - addr b) = woff b" by (simp add: woff_def)
  have "unat (end_addr b - r_ptr b + (w_ptr b - addr b)) = bsize b - roff b + woff b"
    using 1 2 assms False by (subst unat_add_fits) simp_all
  then show ?thesis using lt False by (simp only: if_False add_diff_eq)
qed

lemma produce_avail:
  assumes wf: "buf_wf b" and n: "0 < n" "n \<le> unat (bfree b)"
  shows "unat (avail (comp_update_buffer_produce (step_w n b))) = unat (avail b) + n"
proof -
  note d = buf_wfD [OF wf]
  let ?c = "step_w n b"
  have a: "unat (avail b) + n \<le> bsize b" using n d(7) by linarith
  have w: "woff ?c = (roff b + (unat (avail b) + n)) mod bsize b"
    by (simp add: off_step [OF wf] d(8) mod_add_left_eq add.assoc)
  then have w': "woff ?c = (if roff b + (unat (avail b) + n) < bsize b then roff b + (unat (avail b) + n)
      else roff b + (unat (avail b) + n) - bsize b)"
    using mod_once [OF d(5) a] by simp
  have wl: "woff ?c < bsize b" using w d(1) by simp
  have uw: "unat (w_ptr ?c) = unat (addr b) + woff ?c"
    by (simp only: off_step [OF wf])
  show ?thesis
  proof (cases "roff b = woff ?c")
    case True
    then have "r_ptr b = w_ptr ?c" using uw d(10) by (simp add: word_unat_eq_iff)
    moreover have "unat (avail b) + n = bsize b" using True w' n d(5) by (auto split: if_splits)
    moreover have "unat (end_addr b - addr b) = bsize b" using d(3) by (simp add: bsize_def)
    ultimately show ?thesis by (simp add: comp_update_buffer_produce_def Let_def)
  next
    case False
    then have "r_ptr b \<noteq> w_ptr ?c" using uw d(10) by auto
    moreover have "unat (if r_ptr ?c < w_ptr ?c then w_ptr ?c - r_ptr ?c else end_addr ?c - r_ptr ?c + w_ptr ?c - addr ?c)
       = (if roff ?c < woff ?c then woff ?c - roff ?c else bsize ?c - roff ?c + woff ?c)"
      using d(2,5,9,10) uw wl False by (intro between) simp_all
    ultimately show ?thesis
      using w' False a d(5) by (auto simp: comp_update_buffer_produce_def Let_def split: if_splits)
  qed
qed

lemma consume_avail:
  assumes wf: "buf_wf b" and n: "0 < n" "n \<le> unat (avail b)"
  shows "unat (avail (comp_update_buffer_consume (step_r n b))) = unat (avail b) - n"
proof -
  note d = buf_wfD [OF wf]
  let ?c = "step_r n b" and ?a = "unat (avail b)"
  have nb: "n \<le> bsize b" using n d(12) by linarith
  have r: "roff ?c = (roff b + n) mod bsize b" by (simp add: off_step [OF wf])
  then have r': "roff ?c = (if roff b + n < bsize b then roff b + n else roff b + n - bsize b)"
    using mod_once [OF d(5) nb] by simp
  have rl: "roff ?c < bsize b" using r d(1) by simp
  have w': "woff b = (if roff b + ?a < bsize b then roff b + ?a else roff b + ?a - bsize b)"
    using mod_once [OF d(5) d(12)] d(8) by simp
  have ur: "unat (r_ptr ?c) = unat (addr b) + roff ?c"
    by (simp only: off_step [OF wf])
  show ?thesis
  proof (cases "roff ?c = woff b")
    case True
    then have "r_ptr ?c = w_ptr b" using ur d(11) by (simp add: word_unat_eq_iff)
    moreover have "?a = n" using True r' w' n d(5,12) by (auto split: if_splits)
    ultimately show ?thesis by (simp add: comp_update_buffer_consume_def Let_def)
  next
    case False
    then have "r_ptr ?c \<noteq> w_ptr b" using ur d(11) by auto
    moreover have "unat (if r_ptr ?c < w_ptr ?c then w_ptr ?c - r_ptr ?c else end_addr ?c - r_ptr ?c + w_ptr ?c - addr ?c)
       = (if roff ?c < woff ?c then woff ?c - roff ?c else bsize ?c - roff ?c + woff ?c)"
      using d(2,6,9,11) ur rl False by (intro between) simp_all
    ultimately show ?thesis
      using w' r' False n d(12,5) by (auto simp: comp_update_buffer_consume_def Let_def split: if_splits)
  qed
qed

lemma counters_wf:
  assumes "0 < bsize b" "unat (addr b) + bsize b < 2 ^ 32" "end_addr b = addr b + ipc_size b"
    "alloc_size b = ipc_size b" "roff b < bsize b" "woff b < bsize b"
    "unat a \<le> bsize b" "woff b = (roff b + unat a) mod bsize b"
  shows "buf_wf (b\<lparr>avail := a, bfree := ipc_size b - a\<rparr>)"
proof -
  have "unat (ipc_size b - a) = bsize b - unat a"
    using assms(7) by (simp add: bsize_def unat_sub word_le_nat_alt)
  then show ?thesis
    using assms by (simp add: buf_wf_def roff_def woff_def bsize_def)
qed

lemma update_form:
  "comp_update_buffer_produce b = b\<lparr>avail := avail (comp_update_buffer_produce b),
     bfree := ipc_size b - avail (comp_update_buffer_produce b)\<rparr>"
  "comp_update_buffer_consume b = b\<lparr>avail := avail (comp_update_buffer_consume b),
     bfree := ipc_size b - avail (comp_update_buffer_consume b)\<rparr>"
  by (simp_all add: comp_update_buffer_produce_def comp_update_buffer_consume_def Let_def)

lemma produce_wf:
  assumes wf: "buf_wf b" and n: "0 < n" "n \<le> unat (bfree b)"
  shows "buf_wf (comp_update_buffer_produce (step_w n b))"
proof (subst update_form(1), rule counters_wf)
  note d = buf_wfD [OF wf]
  show "unat (avail (comp_update_buffer_produce (step_w n b))) \<le> bsize (step_w n b)"
    using produce_avail [OF wf n] n d(7) by simp
  show "woff (step_w n b) = (roff (step_w n b) + unat (avail (comp_update_buffer_produce (step_w n b)))) mod bsize (step_w n b)"
    using produce_avail [OF wf n] d(8) by (simp add: off_step [OF wf] mod_add_left_eq add.assoc)
qed (use buf_wfD [OF wf] in \<open>simp_all add: off_step [OF wf]\<close>)

lemma consume_wf:
  assumes wf: "buf_wf b" and n: "0 < n" "n \<le> unat (avail b)"
  shows "buf_wf (comp_update_buffer_consume (step_r n b))"
proof (subst update_form(2), rule counters_wf)
  note d = buf_wfD [OF wf]
  show "unat (avail (comp_update_buffer_consume (step_r n b))) \<le> bsize (step_r n b)"
    using consume_avail [OF wf n] d(12) by simp
  have e: "roff b + n + (unat (avail b) - n) = roff b + unat (avail b)" using n by simp
  have "((roff b + n) mod bsize b + (unat (avail b) - n)) mod bsize b = woff b"
    unfolding mod_add_left_eq e d(8) ..
  then show "woff (step_r n b) = (roff (step_r n b) + unat (avail (comp_update_buffer_consume (step_r n b)))) mod bsize (step_r n b)"
    unfolding consume_avail [OF wf n] off_step(2) [OF wf] step_sel ..
qed (use buf_wfD [OF wf] in \<open>simp_all add: off_step [OF wf]\<close>)

section \<open>The contents\<close>

lemma update_sel [simp]:
  "addr (comp_update_buffer_produce b) = addr b" "ipc_size (comp_update_buffer_produce b) = ipc_size b"
  "r_ptr (comp_update_buffer_produce b) = r_ptr b" "w_ptr (comp_update_buffer_produce b) = w_ptr b"
  "addr (comp_update_buffer_consume b) = addr b" "ipc_size (comp_update_buffer_consume b) = ipc_size b"
  "r_ptr (comp_update_buffer_consume b) = r_ptr b" "w_ptr (comp_update_buffer_consume b) = w_ptr b"
  by (simp_all add: comp_update_buffer_produce_def comp_update_buffer_consume_def Let_def)

lemma ring_addr_produce: "ring_addr (comp_update_buffer_produce (step_w n b)) k = ring_addr b k"
  by (simp add: ring_addr_def roff_def bsize_def step_w_def)

lemma ring_addr_consume:
  assumes "buf_wf b"
  shows "ring_addr (comp_update_buffer_consume (step_r n b)) k = ring_addr b (n + k)"
proof -
  have "roff (comp_update_buffer_consume (step_r n b)) = roff (step_r n b)" by (simp add: roff_def)
  moreover have "bsize (comp_update_buffer_consume c) = bsize c" for c by (simp add: bsize_def)
  ultimately show ?thesis
    using off_step(2) [OF assms] by (simp add: ring_addr_def mod_add_left_eq add.assoc)
qed

text \<open>The \<open>n\<close> bytes from the write pointer on, round the ring: what a producer fills.\<close>

definition ring_tail :: "mem \<Rightarrow> comp_buffer \<Rightarrow> nat \<Rightarrow> u8 list" where
  "ring_tail m b n = map (\<lambda>k. m (ring_addr b (unat (avail b) + k))) [0 ..< n]"

lemma ring_addr_tail:
  assumes wf: "buf_wf b" and n: "woff b + k < bsize b"
  shows "ring_addr b (unat (avail b) + k) = w_ptr b + of_nat k"
proof -
  note d = buf_wfD [OF wf]
  have "(roff b + (unat (avail b) + k)) mod bsize b = (woff b + k) mod bsize b"
    using d(8) by (simp add: mod_add_left_eq add.assoc)
  then have e: "ring_addr b (unat (avail b) + k) = addr b + of_nat (woff b + k)"
    using n by (simp add: ring_addr_def)
  have "w_ptr b = addr b + of_nat (woff b)" by (rule ptr_eqI) (use d in simp_all)
  then show ?thesis using e by simp
qed

lemma ring_addr_head:
  assumes wf: "buf_wf b" and n: "roff b + k < bsize b"
  shows "ring_addr b k = r_ptr b + of_nat k"
proof -
  note d = buf_wfD [OF wf]
  have "r_ptr b = addr b + of_nat (roff b)" by (rule ptr_eqI) (use d in simp_all)
  then show ?thesis using n by (simp add: ring_addr_def)
qed

lemma map_shift_upt: "map (\<lambda>k. f (n + k)) [0 ..< m] = map f [n ..< n + m]"
  by (rule nth_equalityI) simp_all

lemma produce_step:
  assumes "buf_wf b" and "0 < n" and "n \<le> unat (bfree b)"
  shows "buf_wf (comp_update_buffer_produce (step_w n b)) \<and>
         ring m (comp_update_buffer_produce (step_w n b)) = ring m b @ ring_tail m b n"
proof -
  have "ring m (comp_update_buffer_produce (step_w n b)) = map (\<lambda>k. m (ring_addr b k)) [0 ..< unat (avail b) + n]"
    by (simp only: ring_def ring_addr_produce produce_avail [OF assms])
  also have "\<dots> = ring m b @ ring_tail m b n"
    unfolding upt_add_eq_append [OF le0] map_append ring_def ring_tail_def
      map_shift_upt [of "\<lambda>k. m (ring_addr b k)" "unat (avail b)" n] ..
  finally show ?thesis using produce_wf [OF assms] by blast
qed

lemma consume_step:
  assumes "buf_wf b" and "0 < n" and "n \<le> unat (avail b)"
  shows "buf_wf (comp_update_buffer_consume (step_r n b)) \<and>
         ring m (comp_update_buffer_consume (step_r n b)) = drop n (ring m b)"
proof -
  have "ring m (comp_update_buffer_consume (step_r n b)) = map (\<lambda>k. m (ring_addr b (n + k))) [0 ..< unat (avail b) - n]"
    using consume_avail [OF assms] by (simp add: ring_def ring_addr_consume [OF assms(1)])
  also have "\<dots> = drop n (ring m b)"
    using assms(3) unfolding map_shift_upt [of "\<lambda>k. m (ring_addr b k)"] by (simp add: ring_def drop_map)
  finally show ?thesis using consume_wf [OF assms] by blast
qed

text \<open>A buffer of eight bytes, three of them filled, whose write pointer is about to wrap.\<close>

definition demo_buffer :: comp_buffer where
  "demo_buffer = zero_buffer\<lparr>ipc_size := 8, alloc_size := 8, addr := 0x1000, end_addr := 0x1008,
     r_ptr := 0x1003, w_ptr := 0x1006, avail := 3, bfree := 5\<rparr>"

lemma demo_wf: "buf_wf demo_buffer" "unat (bfree demo_buffer) = 5" "unat (avail demo_buffer) = 3"
  by (simp_all add: buf_wf_def demo_buffer_def zero_buffer_def bsize_def roff_def woff_def)

text \<open>
  C2: a producer that advances the write pointer by the bytes it wrote, at most the free ones,
  wraps it with comp_wrap_sink_w_ptr_circular and calls comp_update_buffer_produce appends exactly
  those bytes to the queue of the buffer, and the counters stay consistent with the pointers.
\<close>

theorem produce_appends:
  assumes "buf_wf b" and "0 < n" and "n \<le> unat (bfree b)" and "unat (addr b) + 2 * bsize b < 2 ^ 32"
  shows "let b' = comp_update_buffer_produce (comp_wrap_sink_w_ptr_circular (b\<lparr>w_ptr := w_ptr b + of_nat n\<rparr>))
         in buf_wf b' \<and> ring m b' = ring m b @ ring_tail m b n \<and> unat (avail b') = unat (avail b) + n"
proof -
  have "n \<le> bsize b" using assms(3) buf_wfD(7) [OF assms(1)] by linarith
  then show ?thesis
    unfolding Let_def using wrap_circular_w [OF assms(1) _ assms(4)] produce_step [OF assms(1-3)] produce_avail [OF assms(1-3)]
    by simp
qed

lemma produce_appends_witness:
  "\<forall>m. ring m (comp_update_buffer_produce (comp_wrap_sink_w_ptr_circular (demo_buffer\<lparr>w_ptr := w_ptr demo_buffer + 4\<rparr>)))
     = ring m demo_buffer @ ring_tail m demo_buffer 4"
proof -
  have "unat (addr demo_buffer) + 2 * bsize demo_buffer < 2 ^ 32"
    by (simp add: demo_buffer_def zero_buffer_def bsize_def)
  then show ?thesis
    using produce_appends [OF demo_wf(1), of 4] demo_wf(2) by (simp add: Let_def)
qed

text \<open>
  C3: a consumer that advances the read pointer by the bytes it read, at most the available ones
  and not beyond the end of the area, resets it at the end of the area and calls
  comp_update_buffer_consume drops exactly those bytes from the queue.
\<close>

theorem consume_drops:
  assumes "buf_wf b" and "0 < n" and "n \<le> unat (avail b)" and "roff b + n \<le> bsize b"
  shows "let b' = comp_update_buffer_consume (wrap_r (b\<lparr>r_ptr := r_ptr b + of_nat n\<rparr>))
         in buf_wf b' \<and> ring m b' = drop n (ring m b) \<and> unat (avail b') = unat (avail b) - n"
  unfolding Let_def wrap_r_step [OF assms(1,4)]
  using consume_step [OF assms(1-3)] consume_avail [OF assms(1-3)] by simp

lemma consume_drops_witness:
  "\<forall>m. ring m (comp_update_buffer_consume (wrap_r (demo_buffer\<lparr>r_ptr := r_ptr demo_buffer + 2\<rparr>))) = drop 2 (ring m demo_buffer)"
proof -
  have "roff demo_buffer + 2 \<le> bsize demo_buffer"
    by (simp add: demo_buffer_def zero_buffer_def bsize_def roff_def)
  then show ?thesis
    using consume_drops [OF demo_wf(1), of 2] demo_wf(3) by (simp add: Let_def)
qed

text \<open>
  The two update functions differ when the pointers meet: calling the producer's one without
  having written anything turns an empty buffer into a full one.
\<close>

lemma produce_nothing_fills:
  assumes "buf_wf b" "avail b = 0"
  shows "unat (avail (comp_update_buffer_produce b)) = bsize b" "avail (comp_update_buffer_consume b) = 0"
proof -
  note d = buf_wfD [OF assms(1)]
  have "woff b = roff b" using d(5,8) assms(2) by simp
  then have "r_ptr b = w_ptr b" using d(10,11) by (simp add: word_unat_eq_iff)
  then show "unat (avail (comp_update_buffer_produce b)) = bsize b" "avail (comp_update_buffer_consume b) = 0"
    using d(3) by (simp_all add: comp_update_buffer_produce_def comp_update_buffer_consume_def Let_def bsize_def)
qed

section \<open>A new buffer\<close>

lemma rmalloc_runtime_buf: "rmalloc_runtime bf n st = Some (p, st') \<Longrightarrow> buf_heap_map st' = buf_heap_map st"
  by (auto simp: rmalloc_runtime_def alloc_block_def bind_eq_Some_conv split: option.splits)

lemma buf_inv_cong: "buf_heap_map st' = buf_heap_map st \<Longrightarrow> buf_inv st' = buf_inv st \<and> buf_size st' = buf_size st \<and> buf_bytes st' = buf_bytes st"
  by (simp add: buf_inv_def buf_size_def buf_bytes_def)

lemma rballoc_rt: "rballoc z bf n st = Some (p, st') \<Longrightarrow> length (buf_heap_map st) = 1 \<Longrightarrow> rt_heap_map st' = rt_heap_map st"
  by (auto simp: rballoc_def alloc_block_def alloc_cont_blocks_def Let_def bind_eq_Some_conv split: option.splits if_splits)

text \<open>The end of the buffer heap is below the end of the address space.\<close>

definition buf_below_top :: "memmap \<Rightarrow> bool" where
  "buf_below_top st \<longleftrightarrow> list_all (\<lambda>m. unat (base m) + length (block m) * unat (block_size m) < 2 ^ 32) (buf_heap_map st)"

lemma buffer_region:
  assumes "buf_inv st" "buf_below_top st" "0 < unat n" "unat n \<le> buf_size st"
    and a: "rballoc z RFLAGS_NONE n st = Some (p, st')" "p \<noteq> 0"
  shows "unat p + unat n < 2 ^ 32"
proof -
  obtain m q k where m: "p = block_ptr m q" "buf_heap_map st = [m]" "q < length (block m)" "q + k \<le> length (block m)"
      "unat n \<le> k * unat (block_size m)"
    using rballoc_spec [OF assms(1,3,4), of z] a by auto
  have wf: "map_wf m" using assms(1) m(2) by (simp add: buf_inv_def)
  have "q * unat (block_size m) + k * unat (block_size m) \<le> length (block m) * unat (block_size m)"
    using mult_le_mono1 [OF m(4), of "unat (block_size m)"] by (simp add: distrib_right)
  moreover have "unat (base m) + length (block m) * unat (block_size m) < 2 ^ 32"
    using assms(2) m(2) by (simp add: buf_below_top_def)
  ultimately show ?thesis unfolding m(1) unat_block_ptr [OF wf m(3)] using m(5) by linarith
qed

text \<open>
  buffer_new rejects a size of zero or above the buffer heap; otherwise it returns either NULL
  or a new buffer that satisfies the invariant of buffers and is empty, with an area that is all
  zero and apart from every buffer area in use, and it changes no other buffer.
\<close>

theorem buffer_new_ok:
  assumes h: "heap_wf (mm w)" "heap_ready (mm w)" "buf_inv (mm w)" "buf_below_top (mm w)"
    and sz: "unat HEAP_BUFFER_SIZE \<le> buf_size (mm w)" and nz: "n \<noteq> 0" "n \<le> HEAP_BUFFER_SIZE"
    and r: "buffer_new i n pre w = Some (b, w')" "b \<noteq> 0"
  shows "buf_wf (bufs w' b) \<and> avail (bufs w' b) = 0 \<and> ipc_size (bufs w' b) = n \<and>
    region (addr (bufs w' b)) (unat n) \<inter> buf_bytes (mm w) = {} \<and>
    (\<forall>x. unat x \<in> region (addr (bufs w' b)) (unat n) \<longrightarrow> wmem w' x = 0) \<and>
    (\<forall>c. c \<noteq> b \<longrightarrow> bufs w' c = bufs w c)"
proof -
  obtain h1 a h2 m where 1: "rmalloc_runtime RFLAGS_NONE sizeof_comp_buffer (mm w) = Some (b, h1)"
    and 2: "rballoc RZONE_RUNTIME RFLAGS_NONE n h1 = Some (a, h2)" "a \<noteq> 0"
    and w': "bufs w' = (bufs w)(b := zero_buffer\<lparr>ipc_id := i, ipc_size := n, ipc_preload := pre,
               alloc_size := n, addr := a, w_ptr := a, r_ptr := a, end_addr := a + n,
               bfree := n, avail := 0, connected := 0\<rparr>)"
    and m: "wmem w' = bzero m a n"
    using r nz by (auto simp: buffer_new_def rzalloc_def Let_def bind_eq_Some_conv split: if_splits)
  note g = rmalloc_runtime_buf [OF 1]
  have inv: "buf_inv h1" "buf_below_top h1" "buf_size h1 = buf_size (mm w)" "buf_bytes h1 = buf_bytes (mm w)"
    using h(3,4) g by (simp_all add: buf_inv_def buf_size_def buf_bytes_def buf_below_top_def)
  have n: "0 < unat n" "unat n \<le> buf_size h1"
    using nz sz inv(3) by (simp_all add: unat_gt_0 word_le_nat_alt)
  note top = buffer_region [OF inv(1,2) n 2]
  have apart: "region a (unat n) \<inter> buf_bytes h1 = {}"
    using buf_alloc.al_fresh [of h1 "buf_size h1" n RZONE_RUNTIME a h2] inv(1) n 2 by simp
  have zero: "wmem w' x = 0" if "unat x \<in> region a (unat n)" for x
    unfolding m using that top by (subst bzero_eq) (simp_all add: fits_def)
  have "buf_wf (bufs w' b)"
    using top n(1) by (simp add: w' buf_wf_def bsize_def roff_def woff_def zero_buffer_def)
  then show ?thesis using apart zero w' inv(4) by (simp add: zero_buffer_def)
qed

definition empty_world :: world where
  "empty_world = \<lparr>mm = heap0, wmem = (\<lambda>_. 0), bufs = (\<lambda>_. zero_buffer),
     devs = (\<lambda>_. \<lparr>state = 0, is_endpoint = 0, pipeline_of = 0, period_frames = 0, dev_period_bytes = 0, drv = 0,
               bsource_list = [], bsink_list = [], priv = 0, comp = \<lparr>comp_id = 0, comp_type = 0, host_direction = 0\<rparr>\<rparr>),
     pcms = (\<lambda>_. \<lparr>stream_type = 0, direction = 0, frame_fmt = 0, rate = 0, channels = 0, frame_size = 0, period_bytes = 0, period_count = 0\<rparr>),
     drivers = []\<rparr>"

lemma heap0_facts: "buf_below_top heap0" "unat HEAP_BUFFER_SIZE \<le> buf_size heap0" "HEAP_BUFFER_SIZE = 122880"
  using heap0_buf by (simp_all add: buf_below_top_def heap0_maps heap_config)

text \<open>The first buffer of the boot heap is allocated.\<close>

lemma buffer_new_boot: "\<exists>b w'. buffer_new 7 768 0 empty_world = Some (b, w') \<and> b \<noteq> 0"
proof -
  have "fit_level 92 0 (rt_heap_map heap0) = Some 3" unfolding heap0_maps by simp
  then have 1: "rmalloc_runtime RFLAGS_NONE sizeof_comp_buffer heap0 = alloc_block Runtime_Heap 3 RFLAGS_NONE heap0"
    by (simp add: rmalloc_runtime_def sizeof_comp_buffer_def)
  obtain p h where p: "rmalloc_runtime RFLAGS_NONE sizeof_comp_buffer heap0 = Some (p, h)" "p \<noteq> 0"
    using rmalloc_runtime_spec [OF heap0_wf(1,2), of sizeof_comp_buffer RFLAGS_NONE]
    by (auto simp: heap0_maps sizeof_comp_buffer_def)
  have bm: "buf_heap_map h = [(BLOCK_DEF 384 320)\<lparr>base := 0xFF30F800\<rparr>]"
    using rmalloc_runtime_buf [OF p(1)] heap0_maps(2) by simp
  let ?m = "(BLOCK_DEF 384 320)\<lparr>base := 0xFF30F800\<rparr>"
  have c: "cont_count ?m 768 = 2" "cont_remaining ?m 768 = 318"
    by (simp_all add: cont_count_def cont_remaining_def)
  have "run_free (block ?m) 0 2 = Some True"
    by (simp add: numeral_2_eq_2 RFLAGS_USED_def)
  then have "find_run (block ?m) 2 0 318 = Some (Some 0)"
    by (subst find_run.simps) simp
  then have "rballoc RZONE_RUNTIME RFLAGS_NONE 768 h = Some (block_ptr ?m 0, put_map Buffer_Heap 0 (take_run RFLAGS_NONE 0 2 ?m)
      (upd_info Buffer_Heap (use_bytes (2 * 384)) h))"
    using c by (simp add: rballoc_def bm alloc_cont_blocks_def Let_def del: BLOCK_DEF_sel(7))
  then show ?thesis
    using p by (simp add: buffer_new_def empty_world_def rzalloc_def heap0_facts Let_def block_ptr_def)
qed

lemma buffer_new_ok_witness:
  "\<exists>b w'. buffer_new 7 768 0 empty_world = Some (b, w') \<and> buf_wf (bufs w' b) \<and> avail (bufs w' b) = 0"
proof -
  obtain b w' where b: "buffer_new 7 768 0 empty_world = Some (b, w')" "b \<noteq> 0" using buffer_new_boot by blast
  have h: "mm empty_world = heap0" by (simp add: empty_world_def)
  have "(768 :: u32) \<noteq> 0" "768 \<le> HEAP_BUFFER_SIZE" by (simp_all add: heap0_facts)
  from buffer_new_ok [of empty_world, unfolded h, OF heap0_wf(1,2) heap0_buf(1) heap0_facts(1,2) this b] b(1)
  show ?thesis by blast
qed

end
