(* ===== verification/Reef_Samples.thy ===== *)
theory Reef_Samples
  imports Reef_Audio
begin

unbundle bit_operations_syntax

text \<open>
  Samples in memory, shared by the components that process them: 16 bit and 32 bit little endian
  samples, read into a 32 bit integer. The locale \<open>sample_format\<close> states what reading and writing
  a sample does to memory, \<open>sample_pair\<close> the transfer of a block of samples between two
  formats; both are interpreted for the formats of the code.
\<close>

datatype sample_fmt = F16 | F32

fun sample_bytes :: "sample_fmt \<Rightarrow> nat" where
  "sample_bytes F16 = 2"
| "sample_bytes F32 = 4"

text \<open>\<open>(int32_t)src[i]\<close> for an \<open>int16_t\<close> or \<open>int32_t\<close> array, and the assignment to \<open>dest[i]\<close>.\<close>

fun load_sample :: "sample_fmt \<Rightarrow> mem \<Rightarrow> u32 \<Rightarrow> s32" where
  "load_sample F16 m a = scast (load16 m a)"
| "load_sample F32 m a = load32 m a"

fun store_sample :: "sample_fmt \<Rightarrow> mem \<Rightarrow> u32 \<Rightarrow> s32 \<Rightarrow> mem" where
  "store_sample F16 m a v = store16 m a (ucast v)"
| "store_sample F32 m a v = store32 m a v"

text \<open>What remains of a value after it was stored: the conversion of the assignment.\<close>

fun trunc_sample :: "sample_fmt \<Rightarrow> s32 \<Rightarrow> s32" where
  "trunc_sample F16 v = scast (ucast v :: s16)"
| "trunc_sample F32 v = v"

locale sample_format =
  fixes width :: nat and rd :: "mem \<Rightarrow> u32 \<Rightarrow> s32" and wr :: "mem \<Rightarrow> u32 \<Rightarrow> s32 \<Rightarrow> mem" and tr :: "s32 \<Rightarrow> s32"
  assumes width_pos: "0 < width"
    and rd_wr: "rd (wr m a v) a = tr v"
    and wr_other: "fits a width \<Longrightarrow> unat x \<notin> region a width \<Longrightarrow> wr m a v x = m x"
    and rd_cong: "fits a width \<Longrightarrow> (\<And>x. unat x \<in> region a width \<Longrightarrow> m' x = m x) \<Longrightarrow> rd m' a = rd m a"
begin

text \<open>The \<open>j\<close>-th sample of an array.\<close>

definition sample :: "mem \<Rightarrow> u32 \<Rightarrow> nat \<Rightarrow> s32" where
  "sample m a j = rd m (a + of_nat (j * width))"

lemma elem:
  assumes "fits a (n * width)" "j < n"
  shows "unat (a + of_nat (j * width)) = unat a + j * width" "fits (a + of_nat (j * width)) width"
    "region (a + of_nat (j * width)) width \<subseteq> region a (n * width)"
proof -
  have e: "n * width = j * width + (n - j) * width" using assms(2) by (metis add_mult_distrib le_add_diff_inverse less_imp_le)
  have p: "width \<le> (n - j) * width" using assms(2) by (cases "n - j") auto
  have f: "fits a (j * width + width)" using assms(1) e p by (intro fits_le [OF assms(1)]) simp
  show "unat (a + of_nat (j * width)) = unat a + j * width"
    using f width_pos by (intro unat_offset [of a "j * width + width"]) simp_all
  show "fits (a + of_nat (j * width)) width" using f width_pos by (rule fits_offset)
  have "region (a + of_nat (j * width)) width \<subseteq> region a (j * width + width)" using f width_pos by (rule region_offset)
  also have "\<dots> \<subseteq> region a (n * width)" using e p by (intro region_le) simp
  finally show "region (a + of_nat (j * width)) width \<subseteq> region a (n * width)" .
qed

lemma elems_apart:
  assumes "fits a (n * width)" "j < n" "k < n" "j \<noteq> k"
  shows "region (a + of_nat (j * width)) width \<inter> region (a + of_nat (k * width)) width = {}"
proof -
  have s: "l * width + width \<le> l' * width" if "l < l'" for l l'
    using mult_le_mono1 [of "Suc l" l' width] that by simp
  consider "j < k" | "k < j" using assms(4) by linarith
  then show ?thesis
  proof cases
    case 1
    show ?thesis
      by (rule region_before, unfold elem(1) [OF assms(1,2)] elem(1) [OF assms(1,3)]) (use s [OF 1] in simp)
  next
    case 2
    show ?thesis
      by (rule region_after, unfold elem(1) [OF assms(1,2)] elem(1) [OF assms(1,3)]) (use s [OF 2] in simp)
  qed
qed

lemma sample_wr_same: "sample (wr m (a + of_nat (j * width)) v) a j = tr v"
  by (simp add: sample_def rd_wr)

lemma sample_wr_other:
  "fits a (n * width) \<Longrightarrow> j < n \<Longrightarrow> k < n \<Longrightarrow> j \<noteq> k \<Longrightarrow> sample (wr m (a + of_nat (k * width)) v) a j = sample m a j"
  unfolding sample_def
  by (rule rd_cong, erule (1) elem(2), rule wr_other, erule (1) elem(2)) (use elems_apart in blast)

lemma sample_cong:
  assumes "fits a (n * width)" "j < n" "\<And>x. unat x \<in> region a (n * width) \<Longrightarrow> m' x = m x"
  shows "sample m' a j = sample m a j"
  unfolding sample_def using elem [OF assms(1,2)] assms(3) by (intro rd_cong) auto

end

locale sample_pair = s: sample_format sw srd swr str + d: sample_format dw drd dwr dtr
  for sw srd swr str dw drd dwr dtr
begin

text \<open>Writing the \<open>k\<close>-th destination sample leaves a disjoint source as it is.\<close>

lemma write_apart:
  assumes "fits src (n * sw)" "fits dst (n * dw)" "region src (n * sw) \<inter> region dst (n * dw) = {}" "k < n" "j < n"
  shows "s.sample (dwr m (dst + of_nat (k * dw)) v) src j = s.sample m src j"
  by (rule s.sample_cong [OF assms(1,5)], rule d.wr_other, rule d.elem(2) [OF assms(2,4)])
     (use d.elem(3) [OF assms(2,4)] assms(3) in blast)

text \<open>
  A loop that computes the destination samples one by one, each from the source samples, leaves
  in the destination what \<open>g\<close> says of the original source, and touches nothing else.
\<close>

lemma transfer:
  assumes f: "fits src (n * sw)" "fits dst (n * dw)" and dj: "region src (n * sw) \<inter> region dst (n * dw) = {}"
    and l0: "\<And>m. loop 0 m = m"
    and ls: "\<And>k m. k < n \<Longrightarrow> loop (Suc k) m = dwr (loop k m) (dst + of_nat (k * dw)) (g k (s.sample (loop k m) src k))"
    and k: "k \<le> n"
  shows "(\<forall>j < n. s.sample (loop k m) src j = s.sample m src j) \<and>
    (\<forall>j < k. d.sample (loop k m) dst j = dtr (g j (s.sample m src j))) \<and>
    (\<forall>x. unat x \<notin> region dst (n * dw) \<longrightarrow> loop k m x = m x)"
  using k
proof (induction k)
  case 0
  then show ?case by (simp add: l0)
next
  case (Suc k)
  then have kn: "k < n" and ih: "\<forall>j < n. s.sample (loop k m) src j = s.sample m src j"
      "\<forall>j < k. d.sample (loop k m) dst j = dtr (g j (s.sample m src j))"
      "\<forall>x. unat x \<notin> region dst (n * dw) \<longrightarrow> loop k m x = m x" by simp_all
  have st: "loop (Suc k) m = dwr (loop k m) (dst + of_nat (k * dw)) (g k (s.sample m src k))"
    using ls [OF kn] ih(1) kn by simp
  have 1: "s.sample (loop (Suc k) m) src j = s.sample m src j" if "j < n" for j
    unfolding st using write_apart [OF f dj kn that] ih(1) that by simp
  have 2: "d.sample (loop (Suc k) m) dst j = dtr (g j (s.sample m src j))" if "j < Suc k" for j
  proof (cases "j = k")
    case True
    then show ?thesis unfolding st True by (simp only: d.sample_wr_same)
  next
    case False
    then have "j < k" "j < n" using that kn by simp_all
    then show ?thesis unfolding st using d.sample_wr_other [OF f(2) _ kn False] ih(2) by simp
  qed
  have 3: "loop (Suc k) m x = m x" if "unat x \<notin> region dst (n * dw)" for x
  proof -
    have "unat x \<notin> region (dst + of_nat (k * dw)) dw" using d.elem(3) [OF f(2) kn] that by blast
    then show ?thesis unfolding st using d.wr_other [OF d.elem(2) [OF f(2) kn]] ih(3) that by simp
  qed
  show ?case using 1 2 3 by blast
qed

end

lemma sample_bytes_pos [simp]: "0 < sample_bytes f"
  by (cases f) simp_all

interpretation smp: sample_format "sample_bytes f" "load_sample f" "store_sample f" "trunc_sample f" for f
proof
  show "0 < sample_bytes f" by simp
  show "load_sample f (store_sample f m a v) a = trunc_sample f v" for m a v by (cases f) simp_all
  show "store_sample f m a v x = m x" if "fits a (sample_bytes f)" "unat x \<notin> region a (sample_bytes f)" for m a v x
    using that by (cases f) (simp_all add: store16_other store32_other)
  show "load_sample f m' a = load_sample f m a"
    if "fits a (sample_bytes f)" "\<And>x. unat x \<in> region a (sample_bytes f) \<Longrightarrow> m' x = m x" for a m m'
    using that by (cases f) (auto intro: load32_cong arg_cong [where f = scast] load16_cong)
qed

interpretation xfer: sample_pair "sample_bytes f" "load_sample f" "store_sample f" "trunc_sample f"
  "sample_bytes g" "load_sample g" "store_sample g" "trunc_sample g" for f g
  by unfold_locales

section \<open>Arrays of 32 bit integers\<close>

text \<open>The \<open>j\<close>-th \<open>int32_t\<close> of an array.\<close>

definition s32_at :: "mem \<Rightarrow> u32 \<Rightarrow> nat \<Rightarrow> s32" where
  "s32_at m a j = load32 m (a + of_nat (j * 4))"

lemma s32_at_smp: "s32_at m a j = sample_format.sample (sample_bytes F32) (load_sample F32) m a j"
  unfolding s32_at_def smp.sample_def by simp

lemma s32_at_store:
  assumes "fits a (L * 4)" "j < L" "k < L"
  shows "s32_at (store32 m (a + of_nat (k * 4)) v) a j = (if j = k then v else s32_at m a j)"
  using smp.sample_wr_same [of F32 m a k v] smp.sample_wr_other [of a L F32 j k m v] assms
  unfolding s32_at_smp by auto

lemma s32_at_store_apart:
  assumes "fits src (L * 4)" "fits dst (L * 4)" "region src (L * 4) \<inter> region dst (L * 4) = {}" "k < L" "j < L"
  shows "s32_at (store32 m (dst + of_nat (k * 4)) v) src j = s32_at m src j"
  using xfer.write_apart [of src L F32 dst F32 k j m v] assms unfolding s32_at_smp by simp

lemma store_outside:
  assumes "fits a (L * 4)" "k < L" "unat x \<notin> region a (L * 4)"
  shows "store32 m (a + of_nat (k * 4)) v x = m x"
proof -
  have "unat x \<notin> region (a + of_nat (k * 4)) 4" using smp.elem(3) [of a L F32 k] assms by auto
  then show ?thesis using store32_other smp.elem(2) [of a L F32 k] assms by simp
qed

end
