(* ===== verification/Reef_Volume.thy ===== *)
theory Reef_Volume
  imports Reef_Samples Reef_Ring
begin

unbundle bit_operations_syntax

text \<open>
  The volume component, src/src/audio/volume.c: the eight scaling functions, the ramp the work
  callback runs, and the operations of the driver. The private data of a volume component is a
  record of the store \<open>vols\<close>, at the address in the component's private pointer. \<open>rmalloc\<close> does
  not clear memory: what \<open>volume_new\<close> leaves unset is the argument \<open>junk\<close>.
\<close>

section \<open>State\<close>

abbreviation (input) VOL_RAMP_US :: u32 where "VOL_RAMP_US \<equiv> 2000"
abbreviation (input) VOL_RAMP_STEP :: u32 where "VOL_RAMP_STEP \<equiv> 2048"
abbreviation (input) VOL_MAX :: u32 where "VOL_MAX \<equiv> 65536"
abbreviation (input) PLATFORM_MAX_CHANNELS :: nat where "PLATFORM_MAX_CHANNELS \<equiv> 4"

datatype vol_func = S16_S16 | S16_S32 | S32_S16 | S32_S32 | S16_S24 | S24_S16 | S32_S24 | S24_S32

record vol_data =
  chan :: "u32 list"
  volume :: "u32 list"
  tvolume :: "u32 list"
  mvolume :: "u32 list"
  scale_vol :: "vol_func option"
  hvol :: u32

text \<open>
  Next to the components: the private records, the host control values that \<open>hvol\<close> may point to,
  and the requests \<open>work_schedule_default\<close> received (component and delay).
\<close>

record vol_world = world +
  vols :: "u32 \<Rightarrow> vol_data"
  hvols :: "u32 \<Rightarrow> ctrl_values"
  vol_sched :: "(u32 \<times> u32) list"

definition upd_vol :: "u32 \<Rightarrow> (vol_data \<Rightarrow> vol_data) \<Rightarrow> 'a vol_world_scheme \<Rightarrow> 'a vol_world_scheme" where
  "upd_vol p f w = w\<lparr>vols := (vols w)(p := f (vols w p))\<rparr>"

lemma upd_vol_sel [simp]:
  "vols (upd_vol p f w) = (vols w)(p := f (vols w p))" "hvols (upd_vol p f w) = hvols w"
  "devs (upd_vol p f w) = devs w" "bufs (upd_vol p f w) = bufs w" "vol_sched (upd_vol p f w) = vol_sched w"
  "pcms (upd_vol p f w) = pcms w" "wmem (upd_vol p f w) = wmem w"
  by (simp_all add: upd_vol_def)

lemma vols_upd [simp]:
  "vols (upd_dev d g w) = vols w" "vols (upd_buf b h w) = vols w" "vols (upd_pcm q k w) = vols w"
  by (simp_all add: upd_dev_def upd_buf_def upd_pcm_def)

section \<open>Scaling\<close>

text \<open>
  The expression each function assigns to a destination sample. Mixing an \<open>int32_t\<close> with the
  \<open>uint32_t\<close> volume makes the product and its shift unsigned; with \<open>int64_t\<close> they are signed.
\<close>

fun scale :: "vol_func \<Rightarrow> s32 \<Rightarrow> u32 \<Rightarrow> s32" where
  "scale S16_S32 x v = x * v"
| "scale S32_S16 x v = drop_bit 16 (signed_drop_bit 16 x * v)"
| "scale S32_S32 x v = ucast (signed_drop_bit 16 ((scast x :: s64) * ucast v))"
| "scale S16_S16 x v = drop_bit 16 (x * v)"
| "scale S16_S24 x v = drop_bit 8 (x * v)"
| "scale S24_S16 x v = drop_bit 16 (signed_drop_bit 8 x * v)"
| "scale S32_S24 x v = ucast (signed_drop_bit 24 ((scast x :: s64) * ucast v))"
| "scale S24_S32 x v = ucast (signed_drop_bit 8 ((scast x :: s64) * ucast v))"

fun src_fmt :: "vol_func \<Rightarrow> sample_fmt" where
  "src_fmt S16_S16 = F16" | "src_fmt S16_S32 = F16" | "src_fmt S16_S24 = F16"
| "src_fmt S32_S16 = F32" | "src_fmt S32_S32 = F32" | "src_fmt S32_S24 = F32"
| "src_fmt S24_S16 = F32" | "src_fmt S24_S32 = F32"

fun dst_fmt :: "vol_func \<Rightarrow> sample_fmt" where
  "dst_fmt S16_S16 = F16" | "dst_fmt S32_S16 = F16" | "dst_fmt S24_S16 = F16"
| "dst_fmt S16_S32 = F32" | "dst_fmt S32_S32 = F32" | "dst_fmt S16_S24 = F32"
| "dst_fmt S32_S24 = F32" | "dst_fmt S24_S32 = F32"

text \<open>The common loop: two samples a frame, the even ones scaled by \<open>v0\<close>, the odd ones by \<open>v1\<close>.\<close>

definition vol_frame :: "vol_func \<Rightarrow> u32 \<Rightarrow> u32 \<Rightarrow> u32 \<Rightarrow> u32 \<Rightarrow> nat \<Rightarrow> mem \<Rightarrow> mem" where
  "vol_frame f v0 v1 src dst n m =
     (let sw = sample_bytes (src_fmt f); dw = sample_bytes (dst_fmt f);
          i = 2 * n;
          m = store_sample (dst_fmt f) m (dst + of_nat (i * dw)) (scale f (load_sample (src_fmt f) m (src + of_nat (i * sw))) v0)
      in store_sample (dst_fmt f) m (dst + of_nat ((i + 1) * dw))
           (scale f (load_sample (src_fmt f) m (src + of_nat ((i + 1) * sw))) v1))"

definition vol_loop :: "vol_func \<Rightarrow> u32 \<Rightarrow> u32 \<Rightarrow> nat \<Rightarrow> u32 \<Rightarrow> u32 \<Rightarrow> mem \<Rightarrow> mem" where
  "vol_loop f v0 v1 frames src dst m = fold (vol_frame f v0 v1 src dst) [0 ..< frames] m"

text \<open>A scaling function: the loop bound is \<open>frames * 2\<close> in 32 bits, and the pointers move on.\<close>

definition run_scale :: "vol_func \<Rightarrow> u32 \<Rightarrow> u32 \<Rightarrow> u32 \<Rightarrow> u32 \<Rightarrow> 'a vol_world_scheme \<Rightarrow> 'a vol_world_scheme" where
  "run_scale f d sink source frames w =
     (let cd = vols w (priv (devs w d));
          n = unat (frames * 2) div 2;
          src = r_ptr (bufs w source); dst = w_ptr (bufs w sink);
          w = w\<lparr>wmem := vol_loop f (volume cd ! 0) (volume cd ! 1) n src dst (wmem w)\<rparr>;
          w = upd_buf source (\<lambda>b. b\<lparr>r_ptr := src + of_nat (2 * n * sample_bytes (src_fmt f))\<rparr>) w
      in upd_buf sink (\<lambda>b. b\<lparr>w_ptr := dst + of_nat (2 * n * sample_bytes (dst_fmt f))\<rparr>) w)"

definition func_map :: "(u32 \<times> u32 \<times> u32 \<times> vol_func) list" where
  "func_map = [
     (SOF_IPC_FRAME_S16_LE, SOF_IPC_FRAME_S16_LE, 2, S16_S16),
     (SOF_IPC_FRAME_S16_LE, SOF_IPC_FRAME_S32_LE, 2, S16_S32),
     (SOF_IPC_FRAME_S32_LE, SOF_IPC_FRAME_S16_LE, 2, S32_S16),
     (SOF_IPC_FRAME_S32_LE, SOF_IPC_FRAME_S32_LE, 2, S32_S32),
     (SOF_IPC_FRAME_S16_LE, SOF_IPC_FRAME_S24_4LE, 2, S16_S24),
     (SOF_IPC_FRAME_S24_4LE, SOF_IPC_FRAME_S16_LE, 2, S24_S16),
     (SOF_IPC_FRAME_S32_LE, SOF_IPC_FRAME_S24_4LE, 2, S32_S24),
     (SOF_IPC_FRAME_S24_4LE, SOF_IPC_FRAME_S32_LE, 2, S24_S32)]"

section \<open>The ramp\<close>

definition vol_sync_host :: "u32 \<Rightarrow> nat \<Rightarrow> 'a vol_world_scheme \<Rightarrow> 'a vol_world_scheme" where
  "vol_sync_host p i w =
     (let cd = vols w p in
      if hvol cd = 0 then w
      else w\<lparr>hvols := (hvols w)(hvol cd :=
             map (\<lambda>(c, v). if c = chan cd ! i then (c, volume cd ! i) else (c, v)) (hvols w (hvol cd)))\<rparr>)"

definition vol_update :: "u32 \<Rightarrow> nat \<Rightarrow> 'a vol_world_scheme \<Rightarrow> 'a vol_world_scheme" where
  "vol_update p i w = vol_sync_host p i (upd_vol p (\<lambda>cd. cd\<lparr>volume := (volume cd)[i := tvolume cd ! i]\<rparr>) w)"

definition ramp_chan :: "u32 \<Rightarrow> nat \<Rightarrow> bool \<times> 'a vol_world_scheme \<Rightarrow> bool \<times> 'a vol_world_scheme" where
  "ramp_chan p i s =
     (let (again, w) = s; cd = vols w p; v = volume cd ! i; t = tvolume cd ! i in
      if v = t then (again, w)
      else if v < t then
        (let vol = v + VOL_RAMP_STEP in
         if t \<le> vol \<or> VOL_MAX \<le> vol then (again, vol_sync_host p i (vol_update p i w))
         else (True, vol_sync_host p i (upd_vol p (\<lambda>cd. cd\<lparr>volume := (volume cd)[i := vol]\<rparr>) w)))
      else
        (let vol = v - VOL_RAMP_STEP in
         if vol \<le> t \<or> VOL_MAX \<le> vol then (again, vol_sync_host p i (vol_update p i w))
         else (True, vol_sync_host p i (upd_vol p (\<lambda>cd. cd\<lparr>volume := (volume cd)[i := vol]\<rparr>) w))))"

definition vol_work :: "u32 \<Rightarrow> 'a vol_world_scheme \<Rightarrow> u32 \<times> 'a vol_world_scheme" where
  "vol_work d w =
     (let (again, w) = fold (ramp_chan (priv (devs w d))) [0 ..< PLATFORM_MAX_CHANNELS] (False, w)
      in (if again then VOL_RAMP_US else 0, w))"

section \<open>The driver's operations\<close>

text \<open>\<open>COMP_SIZE(struct sof_ipc_comp_volume)\<close> and \<open>sizeof(struct comp_data)\<close> on the 32 bit target.\<close>

definition sizeof_volume_dev :: u32 where "sizeof_volume_dev = 132"
definition sizeof_volume_data :: u32 where "sizeof_volume_data = 100"

definition volume_new :: "vol_data \<Rightarrow> ipc_comp \<Rightarrow> 'a vol_world_scheme \<Rightarrow> (u32 \<times> 'a vol_world_scheme) option" where
  "volume_new junk c w = do {
     (d, h) \<leftarrow> rmalloc RZONE_RUNTIME RFLAGS_NONE sizeof_volume_dev (mm w);
     let w = w\<lparr>mm := h\<rparr>;
     if d = 0 then Some (0, w)
     else do {
       let w = upd_dev d (\<lambda>r. r\<lparr>comp := c\<rparr>) w;
       (p, h) \<leftarrow> rmalloc RZONE_RUNTIME RFLAGS_NONE sizeof_volume_data (mm w);
       let w = w\<lparr>mm := h\<rparr>;
       if p = 0 then do { h \<leftarrow> rfree d (mm w); Some (0, w\<lparr>mm := h\<rparr>) }
       else Some (d, upd_vol p (\<lambda>_. junk\<lparr>volume := replicate PLATFORM_MAX_CHANNELS VOL_MAX,
                                          tvolume := replicate PLATFORM_MAX_CHANNELS VOL_MAX\<rparr>)
                       (upd_dev d (\<lambda>r. r\<lparr>priv := p\<rparr>) w))
     } }"

definition volume_free :: "u32 \<Rightarrow> 'a vol_world_scheme \<Rightarrow> 'a vol_world_scheme option" where
  "volume_free d w = do {
     h \<leftarrow> rfree (priv (devs w d)) (mm w);
     h \<leftarrow> rfree d h;
     Some (w\<lparr>mm := h\<rparr>) }"

text \<open>\<open>buffer_params\<close> is a copy of \<open>params\<close> but shares the PCM parameters it points to.\<close>

definition volume_params :: "u32 \<Rightarrow> u32 \<Rightarrow> 'a vol_world_scheme \<Rightarrow> (int \<times> 'a vol_world_scheme) option" where
  "volume_params d pcm w = do {
     next_buf \<leftarrow> first_of (bsource_list (devs w d));
     let next_dev = b_source (bufs w next_buf);
     let ty = comp_type (comp (devs w next_dev));
     let w = (if ty = SOF_COMP_HOST then
                upd_pcm pcm (\<lambda>p. p\<lparr>frame_fmt := SOF_IPC_FRAME_S16_LE, frame_size := 2 * channels p\<rparr>) w
              else if ty = SOF_COMP_DAI then
                upd_pcm pcm (\<lambda>p. p\<lparr>frame_fmt := PLATFORM_SSP_STREAM_FORMAT, frame_size := 4 * channels p\<rparr>) w
              else upd_pcm pcm (\<lambda>p. p\<lparr>frame_fmt := SOF_IPC_FRAME_S32_LE, frame_size := 4 * channels p\<rparr>) w);
     Some (0, comp_buffer_sink_params d pcm w) }"

definition volume_set_chan :: "nat \<Rightarrow> u32 \<Rightarrow> vol_data \<Rightarrow> vol_data" where
  "volume_set_chan i v cd = (if 0 < v \<and> v \<le> VOL_MAX then cd\<lparr>tvolume := (tvolume cd)[i := v]\<rparr> else cd)"

definition volume_set_chan_mute :: "nat \<Rightarrow> vol_data \<Rightarrow> vol_data" where
  "volume_set_chan_mute i cd = cd\<lparr>mvolume := (mvolume cd)[i := volume cd ! i], tvolume := (tvolume cd)[i := 0]\<rparr>"

definition volume_set_chan_unmute :: "nat \<Rightarrow> vol_data \<Rightarrow> vol_data" where
  "volume_set_chan_unmute i cd = cd\<lparr>tvolume := (tvolume cd)[i := mvolume cd ! i]\<rparr>"

text \<open>The two nested loops of \<open>volume_cmd\<close> over channels and control values.\<close>

definition for_values :: "(nat \<Rightarrow> u32 \<Rightarrow> vol_data \<Rightarrow> vol_data) \<Rightarrow> ctrl_values \<Rightarrow> vol_data \<Rightarrow> vol_data" where
  "for_values f cv cd =
     fold (\<lambda>i cd. fold (\<lambda>(c, v) cd. if c = chan cd ! i then f i v cd else cd) cv cd) [0 ..< PLATFORM_MAX_CHANNELS] cd"

definition vol_schedule :: "u32 \<Rightarrow> 'a vol_world_scheme \<Rightarrow> 'a vol_world_scheme" where
  "vol_schedule d w = w\<lparr>vol_sched := vol_sched w @ [(d, VOL_RAMP_US)]\<rparr>"

definition volume_cmd :: "u32 \<Rightarrow> int \<Rightarrow> ctrl_values \<Rightarrow> 'a vol_world_scheme \<Rightarrow> (int \<times> 'a vol_world_scheme) option" where
  "volume_cmd d c cv w =
     (let p = priv (devs w d); st = state (devs w d) in
      if c = COMP_CMD_VOLUME then Some (0, vol_schedule d (upd_vol p (for_values volume_set_chan cv) w))
      else if c = COMP_CMD_MUTE then Some (0, vol_schedule d (upd_vol p (for_values (\<lambda>i _. volume_set_chan_mute i) cv) w))
      else if c = COMP_CMD_UNMUTE then Some (0, vol_schedule d (upd_vol p (for_values (\<lambda>i _. volume_set_chan_unmute i) cv) w))
      else if c = COMP_CMD_START then Some (0, set_state d COMP_STATE_RUNNING w)
      else if c = COMP_CMD_STOP then
        (if st = COMP_STATE_RUNNING \<or> st = COMP_STATE_DRAINING \<or> st = COMP_STATE_PAUSED
         then Some (0, set_state d COMP_STATE_SETUP (comp_buffer_reset d w)) else Some (0, w))
      else if c = COMP_CMD_PAUSE then
        (if st = COMP_STATE_RUNNING then Some (0, set_state d COMP_STATE_PAUSED w) else Some (0, w))
      else if c = COMP_CMD_RELEASE then Some (0, set_state d COMP_STATE_RUNNING w)
      else Some (0, w))"

definition volume_copy :: "u32 \<Rightarrow> 'a vol_world_scheme \<Rightarrow> (int \<times> 'a vol_world_scheme) option" where
  "volume_copy d w = do {
     source \<leftarrow> first_of (bsource_list (devs w d));
     sink \<leftarrow> first_of (bsink_list (devs w d));
     let sr = bufs w source;
     let sk = bufs w sink;
     let fs = frame_size (pcms w (b_pcm sr));
     let fk = frame_size (pcms w (b_pcm sk));
     let short = (avail sr < PLAT_INT_PERIOD_FRAMES * fs \<or> bfree sk < PLAT_INT_PERIOD_FRAMES * fk);
     if short \<and> fs = 0 then None
     else do {
       let cframes = (if short then avail sr div fs else PLAT_INT_PERIOD_FRAMES);
       if cframes = 0 then Some (0, w)
       else do {
         f \<leftarrow> scale_vol (vols w (priv (devs w d)));
         let w = run_scale f d sink source cframes w;
         let w = upd_buf source wrap_r w;
         let w = upd_buf sink wrap_w w;
         let w = upd_buf sink comp_update_buffer_produce w;
         let w = upd_buf source comp_update_buffer_consume w;
         Some (0, w)
       } } }"

definition find_func :: "u32 \<Rightarrow> u32 \<Rightarrow> u32 \<Rightarrow> vol_func option" where
  "find_func sf kf ch = map_option (\<lambda>(_, _, _, f). f) (find (\<lambda>(s, k, c, _). sf = s \<and> kf = k \<and> ch = c) func_map)"

definition volume_prepare :: "u32 \<Rightarrow> 'a vol_world_scheme \<Rightarrow> (int \<times> 'a vol_world_scheme) option" where
  "volume_prepare d w = do {
     source \<leftarrow> first_of (bsource_list (devs w d));
     sink \<leftarrow> first_of (bsink_list (devs w d));
     let p = priv (devs w d);
     let sr = bufs w source;
     let sk = bufs w sink;
     let sf = (if is_endpoint (devs w (b_source sr)) \<noteq> 0 then frame_fmt (pcms w (b_pcm sr)) else SOF_IPC_FRAME_S32_LE);
     let kf = (if is_endpoint (devs w (b_sink sk)) \<noteq> 0 then frame_fmt (pcms w (b_pcm sk)) else SOF_IPC_FRAME_S32_LE);
     case find_func sf kf (channels (pcms w (b_pcm sk))) of
       None \<Rightarrow> Some (- EINVAL, w)
     | Some f \<Rightarrow>
         Some (0, set_state d COMP_STATE_PREPARE
           (fold (vol_sync_host p) [0 ..< PLATFORM_MAX_CHANNELS] (upd_vol p (\<lambda>cd. cd\<lparr>scale_vol := Some f\<rparr>) w))) }"

definition volume_preload :: "u32 \<Rightarrow> 'a vol_world_scheme \<Rightarrow> (int \<times> 'a vol_world_scheme) option" where
  "volume_preload d w = Some (0, w)"

definition volume_reset :: "u32 \<Rightarrow> 'a vol_world_scheme \<Rightarrow> (int \<times> 'a vol_world_scheme) option" where
  "volume_reset d w = Some (0, set_state d COMP_STATE_INIT w)"

definition comp_volume :: "vol_data \<Rightarrow> 'a vol_world_scheme comp_ops" where
  "comp_volume junk = \<lparr>op_new = volume_new junk, op_free = volume_free, op_params = volume_params,
     op_preload = volume_preload, op_cmd = volume_cmd, op_prepare = volume_prepare,
     op_reset = volume_reset, op_copy = volume_copy\<rparr>"

end
