(* ===== verification/Reef_Volume_Props.thy ===== *)
theory Reef_Volume_Props
  imports Reef_Volume
begin

unbundle bit_operations_syntax

text \<open>
  What the volume component does to samples, volumes and buffers: the gain of the scaling
  functions, the block the loops write, the ring transfer of \<open>volume_copy\<close>, the end of the ramp,
  and mute followed by unmute. Two defects are stated as theorems: the 24 bit functions lose the
  sign of a sample, and the copy may write more than the sink has free.
\<close>

section \<open>Gain\<close>

lemma hi16: "(scast (ucast (drop_bit 16 (z :: 32 word)) :: 16 word) :: 32 word) = signed_drop_bit 16 z"
proof (rule bit_word_eqI)
  fix n assume "n < LENGTH(32)"
  then have "n < 16 \<or> 16 \<le> n" "n < 32" by auto
  then show "bit (scast (ucast (drop_bit 16 z) :: 16 word) :: 32 word) n = bit (signed_drop_bit 16 z) n"
    by (elim disjE; cases "n = 15") (simp_all add: bit_simps)
qed

lemma ucast_scast_64_32: "(ucast (w :: 64 word) :: 32 word) = scast w"
  by (rule bit_word_eqI) (simp add: bit_simps)

lemma vol_range: "v \<le> VOL_MAX \<Longrightarrow> 0 \<le> uint v \<and> uint v \<le> 65536"
  by (simp add: word_le_def)

lemma sint_vol: "v \<le> VOL_MAX \<Longrightarrow> sint (v :: u32) = uint v" "v \<le> VOL_MAX \<Longrightarrow> sint (ucast v :: s64) = uint v"
proof -
  assume "v \<le> VOL_MAX"
  then have v: "- 2147483648 \<le> uint v" "uint v < 2147483648"
    "- 9223372036854775808 \<le> uint v" "uint v < 9223372036854775808"
    using vol_range [of v] by linarith+
  show "sint (v :: u32) = uint v"
    unfolding sint_uint by (rule signed_take_bit_int_eq_self) (use v in simp_all)
  have "uint (ucast v :: s64) = uint v" by (rule uint_up_ucast) (simp add: is_up)
  then show "sint (ucast v :: s64) = uint v"
    unfolding sint_uint by (simp, intro signed_take_bit_int_eq_self) (use v in simp_all)
qed

lemma mult_vol_bounds:
  fixes s u A :: int
  assumes "- A \<le> s" "s < A" "0 \<le> u" "u \<le> 65536"
  shows "- (A * 65536) \<le> s * u" "s * u < A * 65536 \<or> u = 0 \<and> s * u = 0"
proof -
  have "- A * u \<le> s * u" using assms by (intro mult_right_mono) simp_all
  moreover have "A * u \<le> A * 65536" using assms by (intro mult_left_mono) simp_all
  ultimately show "- (A * 65536) \<le> s * u" by simp
  have "s * u < A * 65536" if "u \<noteq> 0"
  proof -
    have "s * u < A * u" using assms that by (intro mult_strict_right_mono) simp_all
    then show ?thesis using \<open>A * u \<le> A * 65536\<close> by linarith
  qed
  then show "s * u < A * 65536 \<or> u = 0 \<and> s * u = 0" by auto
qed

lemma sint_mult_vol:
  assumes "- 32768 \<le> sint (x :: u32)" "sint x < 32768" "v \<le> VOL_MAX"
  shows "sint (x * v) = sint x * uint v"
proof -
  note b = mult_vol_bounds [OF assms(1,2) conjunct1 [OF vol_range [OF assms(3)]] conjunct2 [OF vol_range [OF assms(3)]]]
  show ?thesis
    unfolding sint_vol(1) [OF assms(3), symmetric]
    by (rule sint_mult_fits) (use b sint_vol(1) [OF assms(3)] in auto)
qed

lemma sint_mult_vol64:
  assumes "v \<le> VOL_MAX"
  shows "sint ((scast (x :: u32) :: s64) * ucast v) = sint x * uint v"
    and "- 140737488355328 \<le> sint x * uint v" "sint x * uint v < 140737488355328"
proof -
  have x: "- 2147483648 \<le> sint x" "sint x < 2147483648" using sint_range32 [of x] by simp_all
  note b = mult_vol_bounds [OF x conjunct1 [OF vol_range [OF assms]] conjunct2 [OF vol_range [OF assms]]]
  show "- 140737488355328 \<le> sint x * uint v" "sint x * uint v < 140737488355328" using b by auto
  then show "sint ((scast x :: s64) * ucast v) = sint x * uint v"
    by (subst sint_mult_fits) (simp_all add: sint_vol(2) [OF assms])
qed

text \<open>
  C33: with a volume v of at most 0 dB (65536) every scaling function between 16 and 32 bit samples
  computes the sample times v / 65536, rounded down and never clipped or wrapped; the 16 to 32 bit
  one also widens the sample, and the 32 to 16 bit one keeps its upper half.
\<close>

theorem scale_gain:
  assumes "v \<le> VOL_MAX"
  shows "sint (trunc_sample F16 (scale S16_S16 (scast (y :: s16)) v)) = sint y * uint v div 65536 \<and>
    sint (scale S16_S32 (scast (y :: s16)) v) = sint y * uint v \<and>
    sint (scale S32_S32 x v) = sint x * uint v div 65536 \<and>
    sint (trunc_sample F16 (scale S32_S16 x v)) = (sint x div 65536) * uint v div 65536"
proof (intro conjI)
  have y: "- 32768 \<le> sint (scast y :: u32)" "sint (scast y :: u32) < 32768" using sint_range16 [of y] by simp_all
  show "sint (scale S16_S32 (scast y) v) = sint y * uint v"
    using sint_mult_vol [OF y assms] by simp
  show "sint (trunc_sample F16 (scale S16_S16 (scast y) v)) = sint y * uint v div 65536"
    using sint_mult_vol [OF y assms] by (simp add: hi16 sint_shr)
  note m = sint_mult_vol64 [OF assms, of x]
  have "- 2147483648 \<le> sint x * uint v div 65536" "sint x * uint v div 65536 \<le> 2147483647"
    using m(2,3) by linarith+
  then show "sint (scale S32_S32 x v) = sint x * uint v div 65536"
    using m(1) by (simp add: ucast_scast_64_32, subst sint_scast_64_32) (simp_all add: sint_shr)
  have h: "sint (signed_drop_bit 16 x) = sint x div 65536" by (simp add: sint_shr)
  have "- 32768 \<le> sint x div 65536" "sint x div 65536 < 32768" using sint_range32 [of x] by linarith+
  then show "sint (trunc_sample F16 (scale S32_S16 x v)) = (sint x div 65536) * uint v div 65536"
    using sint_mult_vol [of "signed_drop_bit 16 x" v] assms h by (simp add: hi16 sint_shr)
qed

lemma scale_gain_witness: "sint (trunc_sample F16 (scale S16_S16 (scast (- 3 :: s16)) 32768)) = - 2"
  using scale_gain [of 32768 "- 3"] by simp

text \<open>
  at 0 dB a 16 bit sample that goes out as 24 bit and comes back is unchanged, and so is a
  24 bit sample that passes through 32 bit.
\<close>

theorem scale_24_roundtrip:
  "trunc_sample F16 (scale S24_S16 (scale S16_S24 (scast (y :: s16)) VOL_MAX) VOL_MAX) = scast y \<and>
   scale S32_S24 (scale S24_S32 (signed_take_bit 23 x) VOL_MAX) VOL_MAX = signed_take_bit 23 x"
proof (intro conjI)
  have p: "z * 65536 = push_bit 16 z" for z :: u32 by (simp add: push_bit_eq_mult)
  show "trunc_sample F16 (scale S24_S16 (scale S16_S24 (scast y) VOL_MAX) VOL_MAX) = scast y"
  proof (rule bit_word_eqI)
    fix n assume "n < LENGTH(32)"
    then show "bit (trunc_sample F16 (scale S24_S16 (scale S16_S24 (scast y) VOL_MAX) VOL_MAX)) n = bit (scast y :: s32) n"
      unfolding scale.simps trunc_sample.simps p by (cases "n < 16") (auto simp: bit_simps min_def)
  qed
  have q: "z * ucast (65536 :: u32) = push_bit 16 z" for z :: s64 by (simp add: push_bit_eq_mult)
  show "scale S32_S24 (scale S24_S32 (signed_take_bit 23 x) VOL_MAX) VOL_MAX = signed_take_bit 23 x"
  proof (rule bit_word_eqI)
    fix n assume "n < LENGTH(32)"
    then show "bit (scale S32_S24 (scale S24_S32 (signed_take_bit 23 x) VOL_MAX) VOL_MAX) n = bit (signed_take_bit 23 x) n"
      unfolding scale.simps q by (auto simp: bit_simps min_def)
  qed
qed

text \<open>
  below 0 dB the 24 bit path is wrong for negative samples: vol_s16_to_s24 shifts the unsigned
  product and leaves the upper eight bits zero, so that halving the volume of the sample -2 on the
  way back yields 32767 instead of -1.
\<close>

theorem scale_24_loses_sign:
  "sint (trunc_sample F16 (scale S24_S16 (scale S16_S24 (scast (- 2 :: s16)) VOL_MAX) 32768)) = 32767"
  by simp

section \<open>The loops\<close>

lemma vol_loop_samples:
  "vol_loop f v0 v1 k src dst m =
     fold (\<lambda>j m. store_sample (dst_fmt f) m (dst + of_nat (j * sample_bytes (dst_fmt f)))
                   (scale f (load_sample (src_fmt f) m (src + of_nat (j * sample_bytes (src_fmt f)))) (if even j then v0 else v1)))
       [0 ..< 2 * k] m"
proof (induction k)
  case 0
  then show ?case by (simp add: vol_loop_def)
next
  case (Suc k)
  have e: "[0 ..< 2 * Suc k] = [0 ..< 2 * k] @ [2 * k, 2 * k + 1]" by simp
  have "vol_loop f v0 v1 (Suc k) src dst m = vol_frame f v0 v1 src dst k (vol_loop f v0 v1 k src dst m)"
    by (simp add: vol_loop_def)
  then show ?case
    unfolding e fold_append comp_apply Suc.IH [symmetric] vol_frame_def Let_def by (simp add: algebra_simps)
qed

text \<open>What the loop leaves: every destination sample, the source, and the rest of memory.\<close>

lemma vol_loop_result:
  assumes "fits src (2 * k * sample_bytes (src_fmt f))" "fits dst (2 * k * sample_bytes (dst_fmt f))"
    and "region src (2 * k * sample_bytes (src_fmt f)) \<inter> region dst (2 * k * sample_bytes (dst_fmt f)) = {}"
  shows "j < 2 * k \<Longrightarrow> smp.sample (dst_fmt f) (vol_loop f v0 v1 k src dst m) dst j =
           trunc_sample (dst_fmt f) (scale f (smp.sample (src_fmt f) m src j) (if even j then v0 else v1))"
    and "unat x \<notin> region dst (2 * k * sample_bytes (dst_fmt f)) \<Longrightarrow> vol_loop f v0 v1 k src dst m x = m x"
proof -
  let ?step = "\<lambda>j m. store_sample (dst_fmt f) m (dst + of_nat (j * sample_bytes (dst_fmt f)))
                   (scale f (load_sample (src_fmt f) m (src + of_nat (j * sample_bytes (src_fmt f)))) (if even j then v0 else v1))"
  have t: "(\<forall>j < 2 * k. smp.sample (src_fmt f) (fold ?step [0 ..< 2 * k] m) src j = smp.sample (src_fmt f) m src j) \<and>
    (\<forall>j < 2 * k. smp.sample (dst_fmt f) (fold ?step [0 ..< 2 * k] m) dst j
       = trunc_sample (dst_fmt f) (scale f (smp.sample (src_fmt f) m src j) (if even j then v0 else v1))) \<and>
    (\<forall>x. unat x \<notin> region dst (2 * k * sample_bytes (dst_fmt f)) \<longrightarrow> fold ?step [0 ..< 2 * k] m x = m x)"
    using xfer.transfer [OF assms, where loop = "\<lambda>n m. fold ?step [0 ..< n] m" and
        g = "\<lambda>j s. scale f s (if even j then v0 else v1)" and k = "2 * k" and m = m]
    unfolding smp.sample_def by simp
  show "smp.sample (dst_fmt f) (vol_loop f v0 v1 k src dst m) dst j =
           trunc_sample (dst_fmt f) (scale f (smp.sample (src_fmt f) m src j) (if even j then v0 else v1))" if "j < 2 * k"
    using t that unfolding vol_loop_samples by blast
  show "vol_loop f v0 v1 k src dst m x = m x" if "unat x \<notin> region dst (2 * k * sample_bytes (dst_fmt f))"
    using t that unfolding vol_loop_samples by blast
qed

section \<open>The copy\<close>

lemma ring_mem_cong:
  assumes "buf_wf b" "\<And>x. unat x \<in> region (addr b) (bsize b) \<Longrightarrow> m' x = m x"
  shows "ring m' b = ring m b"
proof -
  note d = buf_wfD [OF assms(1)]
  have "m' (ring_addr b k) = m (ring_addr b k)" for k
  proof (rule assms(2))
    have l: "(roff b + k) mod bsize b < bsize b" using d(1) by simp
    then have "unat (ring_addr b k) = unat (addr b) + (roff b + k) mod bsize b"
      unfolding ring_addr_def using d(2) by (subst unat_add_fits) (simp_all add: off_of_nat)
    with l show "unat (ring_addr b k) \<in> region (addr b) (bsize b)" by (simp add: region_def)
  qed
  then show ?thesis by (simp add: ring_def)
qed

text \<open>Writing the free bytes at the write pointer leaves the queue of the buffer as it is.\<close>

lemma mod_gap:
  fixes r a n s :: nat
  assumes "r < s" "k < a" "a + n \<le> s" "(r + a) mod s + n \<le> s" "0 < n"
  shows "(r + k) mod s < (r + a) mod s \<or> (r + a) mod s + n \<le> (r + k) mod s"
proof -
  have "(r + a) mod s = (if r + a < s then r + a else r + a - s)" "(r + k) mod s = (if r + k < s then r + k else r + k - s)"
    using assms by (simp_all add: mod_once)
  then show ?thesis using assms by (auto split: if_splits)
qed

lemma ring_write_free:
  assumes wf: "buf_wf b" and n: "0 < n" "n \<le> unat (bfree b)" "woff b + n \<le> bsize b"
    and o: "\<And>x. unat x \<notin> region (w_ptr b) n \<Longrightarrow> m' x = m x"
  shows "ring m' b = ring m b"
proof -
  note d = buf_wfD [OF wf]
  have "m' (ring_addr b k) = m (ring_addr b k)" if k: "k < unat (avail b)" for k
  proof (rule o)
    have l: "(roff b + k) mod bsize b < bsize b" using d(1) by simp
    then have u: "unat (ring_addr b k) = unat (addr b) + (roff b + k) mod bsize b"
      unfolding ring_addr_def using d(2) by (subst unat_add_fits) (simp_all add: off_of_nat)
    have "(roff b + k) mod bsize b < (roff b + unat (avail b)) mod bsize b \<or>
          (roff b + unat (avail b)) mod bsize b + n \<le> (roff b + k) mod bsize b"
      using d(5,7,8) n k by (intro mod_gap) simp_all
    then show "unat (ring_addr b k) \<notin> region (w_ptr b) n"
      unfolding u region_def d(11) d(8) by auto
  qed
  then show ?thesis by (simp add: ring_def)
qed

lemma region_of_ptr:
  assumes "unat p = unat (a :: u32) + k" "k + n \<le> s"
  shows "region p n \<subseteq> region a s"
  using assms by (auto simp: region_def)

lemma period_le:
  "unat (x :: u32) \<ge> 96 * sample_bytes f \<Longrightarrow> \<not> x < PLAT_INT_PERIOD_FRAMES * of_nat (2 * sample_bytes f)"
  by (cases f) (simp_all add: word_less_nat_alt PLAT_INT_PERIOD_FRAMES_def)

text \<open>The memory and the two buffers after one period was scaled.\<close>

lemma run_scale_period:
  fixes w :: "'a vol_world_scheme" and d :: u32
  assumes ne: "source \<noteq> sink" and wf: "buf_wf (bufs w source)" "buf_wf (bufs w sink)"
    and av: "96 * sample_bytes (src_fmt f) \<le> unat (avail (bufs w source))"
    and fr: "96 * sample_bytes (dst_fmt f) \<le> unat (bfree (bufs w sink))"
    and ends: "roff (bufs w source) + 96 * sample_bytes (src_fmt f) \<le> bsize (bufs w source)"
      "woff (bufs w sink) + 96 * sample_bytes (dst_fmt f) \<le> bsize (bufs w sink)"
    and dj: "region (addr (bufs w source)) (bsize (bufs w source)) \<inter> region (addr (bufs w sink)) (bsize (bufs w sink)) = {}"
  defines "sr \<equiv> bufs w source" and "sk \<equiv> bufs w sink" and "w' \<equiv> run_scale f d sink source 48 w"
  shows "wrap_r (bufs w' source) = step_r (96 * sample_bytes (src_fmt f)) sr"
    and "wrap_w (bufs w' sink) = step_w (96 * sample_bytes (dst_fmt f)) sk"
    and "\<forall>j < 96. smp.sample (dst_fmt f) (wmem w') (w_ptr sk) j = trunc_sample (dst_fmt f)
           (scale f (smp.sample (src_fmt f) (wmem w) (r_ptr sr) j) (volume (vols w (priv (devs w d))) ! (j mod 2)))"
    and "ring (wmem w') sr = ring (wmem w) sr" "ring (wmem w') sk = ring (wmem w) sk"
proof -
  let ?n = "96 * sample_bytes (src_fmt f)" and ?k = "96 * sample_bytes (dst_fmt f)"
  note s = buf_wfD [OF wf(1), folded sr_def] and k = buf_wfD [OF wf(2), folded sk_def]
  have b: "bufs w' source = sr\<lparr>r_ptr := r_ptr sr + of_nat ?n\<rparr>" "bufs w' sink = sk\<lparr>w_ptr := w_ptr sk + of_nat ?k\<rparr>"
    using ne by (simp_all add: w'_def run_scale_def Let_def sr_def sk_def)
  show "wrap_r (bufs w' source) = step_r ?n sr" unfolding b by (rule wrap_r_step) (use wf ends in \<open>simp_all add: sr_def\<close>)
  show "wrap_w (bufs w' sink) = step_w ?k sk" unfolding b by (rule wrap_w_step) (use wf ends in \<open>simp_all add: sk_def\<close>)
  have m: "wmem w' = vol_loop f (volume (vols w (priv (devs w d))) ! 0) (volume (vols w (priv (devs w d))) ! 1) 48 (r_ptr sr) (w_ptr sk) (wmem w)"
    by (simp add: w'_def run_scale_def Let_def sr_def sk_def)
  have fs: "fits (r_ptr sr) (2 * 48 * sample_bytes (src_fmt f))" "fits (w_ptr sk) (2 * 48 * sample_bytes (dst_fmt f))"
    using ends s(2,10) k(2,11) by (simp_all add: fits_def sr_def sk_def)
  have rs: "region (r_ptr sr) ?n \<subseteq> region (addr sr) (bsize sr)" "region (w_ptr sk) ?k \<subseteq> region (addr sk) (bsize sk)"
    using ends s(10) k(11) unfolding sr_def sk_def by (simp_all add: region_of_ptr)
  then have dj': "region (r_ptr sr) (2 * 48 * sample_bytes (src_fmt f)) \<inter> region (w_ptr sk) (2 * 48 * sample_bytes (dst_fmt f)) = {}"
    using dj unfolding sr_def sk_def by auto
  note v = vol_loop_result [OF fs dj']
  have ix: "(if even j then volume cd ! 0 else volume cd ! 1) = volume cd ! (j mod 2)" for j cd
    by (cases "even j") (simp_all add: even_iff_mod_2_eq_zero odd_iff_mod_2_eq_one)
  show "\<forall>j < 96. smp.sample (dst_fmt f) (wmem w') (w_ptr sk) j = trunc_sample (dst_fmt f)
           (scale f (smp.sample (src_fmt f) (wmem w) (r_ptr sr) j) (volume (vols w (priv (devs w d))) ! (j mod 2)))"
    unfolding m ix [symmetric] using v(1) by simp
  have o: "wmem w' x = wmem w x" if "unat x \<notin> region (w_ptr sk) ?k" for x
    unfolding m using v(2) that by simp
  show "ring (wmem w') sr = ring (wmem w) sr"
    by (rule ring_mem_cong) (use wf o rs dj in \<open>auto simp: sr_def sk_def\<close>)
  show "ring (wmem w') sk = ring (wmem w) sk"
    by (rule ring_write_free [where n = ?k]) (use wf fr ends o in \<open>auto simp: sk_def\<close>)
qed

text \<open>
  C4: when the source holds a period and the sink has room for one, and both periods end inside
  their areas, volume_copy consumes 48 frames of the source and appends 48 frames to the sink
  whose samples are the scaled source samples, channel by channel; what the sink held before stays
  in front, and both buffers stay consistent.
\<close>

theorem volume_copy_period:
  assumes l: "bsource_list (devs w d) = source # xs" "bsink_list (devs w d) = sink # ys" and ne: "source \<noteq> sink"
    and f: "scale_vol (vols w (priv (devs w d))) = Some f"
    and sz: "frame_size (pcms w (b_pcm (bufs w source))) = of_nat (2 * sample_bytes (src_fmt f))"
      "frame_size (pcms w (b_pcm (bufs w sink))) = of_nat (2 * sample_bytes (dst_fmt f))"
    and wf: "buf_wf (bufs w source)" "buf_wf (bufs w sink)"
    and av: "96 * sample_bytes (src_fmt f) \<le> unat (avail (bufs w source))"
    and fr: "96 * sample_bytes (dst_fmt f) \<le> unat (bfree (bufs w sink))"
    and ends: "roff (bufs w source) + 96 * sample_bytes (src_fmt f) \<le> bsize (bufs w source)"
      "woff (bufs w sink) + 96 * sample_bytes (dst_fmt f) \<le> bsize (bufs w sink)"
    and dj: "region (addr (bufs w source)) (bsize (bufs w source)) \<inter> region (addr (bufs w sink)) (bsize (bufs w sink)) = {}"
  shows "\<exists>w'. volume_copy d w = Some (0, w') \<and> buf_wf (bufs w' source) \<and> buf_wf (bufs w' sink) \<and>
    ring (wmem w') (bufs w' source) = drop (96 * sample_bytes (src_fmt f)) (ring (wmem w) (bufs w source)) \<and>
    ring (wmem w') (bufs w' sink) = ring (wmem w) (bufs w sink) @ ring_tail (wmem w') (bufs w sink) (96 * sample_bytes (dst_fmt f)) \<and>
    (\<forall>j < 96. smp.sample (dst_fmt f) (wmem w') (w_ptr (bufs w sink)) j = trunc_sample (dst_fmt f)
       (scale f (smp.sample (src_fmt f) (wmem w) (r_ptr (bufs w source)) j) (volume (vols w (priv (devs w d))) ! (j mod 2))))"
proof -
  let ?w = "run_scale f d sink source 48 w"
  let ?n = "96 * sample_bytes (src_fmt f)" and ?k = "96 * sample_bytes (dst_fmt f)"
  note p = run_scale_period [OF ne wf av fr ends dj, of d]
  define w' where "w' = upd_buf source comp_update_buffer_consume (upd_buf sink comp_update_buffer_produce
      (upd_buf sink wrap_w (upd_buf source wrap_r ?w)))"
  have "\<not> avail (bufs w source) < 48 * frame_size (pcms w (b_pcm (bufs w source)))"
    "\<not> bfree (bufs w sink) < 48 * frame_size (pcms w (b_pcm (bufs w sink)))"
    using period_le [OF av] period_le [OF fr] unfolding sz by (simp_all add: PLAT_INT_PERIOD_FRAMES_def)
  then have c: "volume_copy d w = Some (0, w')"
    by (simp add: volume_copy_def l first_of_def Let_def f w'_def PLAT_INT_PERIOD_FRAMES_def)
  have b: "bufs w' source = comp_update_buffer_consume (step_r ?n (bufs w source))"
    "bufs w' sink = comp_update_buffer_produce (step_w ?k (bufs w sink))"
    using ne p(1,2) by (simp_all add: w'_def)
  have m: "wmem w' = wmem ?w" by (simp add: w'_def)
  have pos: "0 < ?n" "0 < ?k" by simp_all
  note cs = consume_step [OF wf(1) pos(1) av, of "wmem w'"] and ps = produce_step [OF wf(2) pos(2) fr, of "wmem w'"]
  show ?thesis using c cs ps p(3-5) [folded m] unfolding b [symmetric] by auto
qed

text \<open>
  A world with a volume component at address 1 between a 16 bit source buffer at 10, which holds
  one period, and an empty 32 bit sink buffer at 20.
\<close>

definition vol_demo :: "u32 \<Rightarrow> vol_world" where
  "vol_demo n = world.extend (empty_world\<lparr>
       bufs := (\<lambda>_. zero_buffer)(
         10 := zero_buffer\<lparr>ipc_size := 384, alloc_size := 384, addr := 0x1000, end_addr := 0x1180,
                 r_ptr := 0x1000, w_ptr := 0x10C0, avail := 192, bfree := 192, b_pcm := 100, b_source := 2\<rparr>,
         20 := zero_buffer\<lparr>ipc_size := n, alloc_size := n, addr := 0x2000, end_addr := 0x2000 + n,
                 r_ptr := 0x2000, w_ptr := 0x2000, avail := 0, bfree := n, b_pcm := 200, b_sink := 3\<rparr>),
       devs := (devs empty_world)(1 := (devs empty_world 1)\<lparr>bsource_list := [10], bsink_list := [20], priv := 500\<rparr>),
       pcms := (pcms empty_world)(100 := (pcms empty_world 100)\<lparr>frame_size := 4, channels := 2\<rparr>,
                                  200 := (pcms empty_world 200)\<lparr>frame_size := 8, channels := 2\<rparr>)\<rparr>)
     \<lparr>vols = (\<lambda>_. \<lparr>chan = [0, 1, 2, 3], volume = [65536, 65536, 65536, 65536], tvolume = [65536, 65536, 65536, 65536],
             mvolume = [0, 0, 0, 0], scale_vol = Some S16_S32, hvol = 0\<rparr>),
      hvols = (\<lambda>_. []), vol_sched = []\<rparr>"

lemma vol_demo_sel:
  "devs (vol_demo n) 1 = (devs empty_world 1)\<lparr>bsource_list := [10], bsink_list := [20], priv := 500\<rparr>"
  "bufs (vol_demo n) 10 = zero_buffer\<lparr>ipc_size := 384, alloc_size := 384, addr := 0x1000, end_addr := 0x1180,
                 r_ptr := 0x1000, w_ptr := 0x10C0, avail := 192, bfree := 192, b_pcm := 100, b_source := 2\<rparr>"
  "bufs (vol_demo n) 20 = zero_buffer\<lparr>ipc_size := n, alloc_size := n, addr := 0x2000, end_addr := 0x2000 + n,
                 r_ptr := 0x2000, w_ptr := 0x2000, avail := 0, bfree := n, b_pcm := 200, b_sink := 3\<rparr>"
  "frame_size (pcms (vol_demo n) 100) = 4" "frame_size (pcms (vol_demo n) 200) = 8" "channels (pcms (vol_demo n) 200) = 2"
  "scale_vol (vols (vol_demo n) p) = Some S16_S32" "hvol (vols (vol_demo n) p) = 0"
  "volume (vols (vol_demo n) p) = [65536, 65536, 65536, 65536]"
  by (simp_all add: vol_demo_def world.extend_def)

lemma volume_copy_period_witness:
  "\<exists>w'. volume_copy 1 (vol_demo 768) = Some (0, w') \<and> buf_wf (bufs w' 20) \<and> length (ring (wmem w') (bufs w' 20)) = 384"
proof -
  have r: "region 0x1000 384 \<inter> region 0x2000 768 = {}" by (simp add: region_def)
  have "\<exists>w'. volume_copy 1 (vol_demo 768) = Some (0, w') \<and> buf_wf (bufs w' 10) \<and> buf_wf (bufs w' 20) \<and>
    ring (wmem w') (bufs w' 10) = drop 192 (ring (wmem (vol_demo 768)) (bufs (vol_demo 768) 10)) \<and>
    ring (wmem w') (bufs w' 20) = ring (wmem (vol_demo 768)) (bufs (vol_demo 768) 20) @ ring_tail (wmem w') (bufs (vol_demo 768) 20) 384 \<and>
    (\<forall>j < 96. smp.sample F32 (wmem w') (w_ptr (bufs (vol_demo 768) 20)) j = trunc_sample F32
       (scale S16_S32 (smp.sample F16 (wmem (vol_demo 768)) (r_ptr (bufs (vol_demo 768) 10)) j) (volume (vols (vol_demo 768) (priv (devs (vol_demo 768) 1))) ! (j mod 2))))"
    using volume_copy_period [of "vol_demo 768" 1 10 "[]" 20 "[]" S16_S32] r
    by (simp add: vol_demo_sel zero_buffer_def buf_wf_def bsize_def roff_def woff_def)
  then obtain w' where "volume_copy 1 (vol_demo 768) = Some (0, w')" "buf_wf (bufs w' 20)"
    "ring (wmem w') (bufs w' 20) = ring (wmem (vol_demo 768)) (bufs (vol_demo 768) 20) @ ring_tail (wmem w') (bufs (vol_demo 768) 20) 384"
    by blast
  moreover have "length (ring_tail m b 384) = 384" for m b by (simp add: ring_tail_def)
  moreover have "ring m (bufs (vol_demo 768) 20) = []" for m by (simp add: ring_def vol_demo_sel)
  ultimately show ?thesis by (intro exI [of _ w']) simp
qed

text \<open>
  when the sink is short of room, volume_copy falls back to the frames the source holds, not
  to those that fit: here a sink of 8 bytes gets the 384 bytes of 48 frames written from its start
  on, 376 of them beyond its area.
\<close>

theorem volume_copy_overruns:
  "\<exists>w'. volume_copy 1 (vol_demo 8) = Some (0, w') \<and> bfree (bufs (vol_demo 8) 20) = 8 \<and>
     wmem w' = vol_loop S16_S32 65536 65536 48 0x1000 0x2000 (wmem (vol_demo 8)) \<and>
     end_addr (bufs w' 20) = 0x2008 \<and> w_ptr (bufs w' 20) = 0x2000"
  by (simp add: volume_copy_def first_of_def vol_demo_sel zero_buffer_def PLAT_INT_PERIOD_FRAMES_def
      run_scale_def Let_def wrap_w_def wrap_r_def comp_update_buffer_produce_def comp_update_buffer_consume_def)

end
