(* ===== verification/Reef_Volume_Ctl.thy ===== *)
theory Reef_Volume_Ctl
  imports Reef_Volume
begin

text \<open>
  The control side of the volume component: the ramp of \<open>vol_work\<close> ends at the target volumes,
  mute followed by unmute returns to the volume at the time of the mute (and a second mute loses
  it), \<open>volume_prepare\<close> accepts exactly the supported format pairs, and the state machine of
  \<open>volume_cmd\<close>.
\<close>

section \<open>One channel\<close>

text \<open>The new volume of a channel and whether the ramp goes on.\<close>

definition ramp1 :: "u32 \<Rightarrow> u32 \<Rightarrow> u32 \<times> bool" where
  "ramp1 v t =
     (if v = t then (v, False)
      else if v < t then
        (if t \<le> v + VOL_RAMP_STEP \<or> VOL_MAX \<le> v + VOL_RAMP_STEP then (t, False) else (v + VOL_RAMP_STEP, True))
      else (if v - VOL_RAMP_STEP \<le> t \<or> VOL_MAX \<le> v - VOL_RAMP_STEP then (t, False) else (v - VOL_RAMP_STEP, True)))"

definition gap :: "u32 \<Rightarrow> u32 \<Rightarrow> nat" where
  "gap v t = (unat v - unat t) + (unat t - unat v)"

lemma gap_0 [simp]: "gap v t = 0 \<longleftrightarrow> v = t"
  by (auto simp: gap_def word_unat_eq_iff)

lemma ramp1_gap:
  assumes "v \<le> VOL_MAX" "t \<le> VOL_MAX"
  shows "gap (fst (ramp1 v t)) t \<le> gap v t - 2048" "fst (ramp1 v t) \<le> VOL_MAX"
    "snd (ramp1 v t) \<longleftrightarrow> fst (ramp1 v t) \<noteq> t"
proof -
  have v: "unat v \<le> 65536" "unat t \<le> 65536" using assms by (simp_all add: word_le_nat_alt)
  have up: "unat (v + VOL_RAMP_STEP) = unat v + 2048" using v by (subst unat_add_fits) simp_all
  have dn: "unat (v - VOL_RAMP_STEP) = unat v - 2048" if "2048 \<le> unat v"
    using that by (subst unat_sub) (simp_all add: word_le_nat_alt)
  have wrap: "VOL_MAX \<le> v - VOL_RAMP_STEP" if "unat v < 2048"
  proof -
    have "unat (v - VOL_RAMP_STEP) = unat v + 2 ^ 32 - 2048"
      using that by (simp add: unat_sub_if')
    then show ?thesis by (simp add: word_le_nat_alt)
  qed
  have "gap (fst (ramp1 v t)) t \<le> gap v t - 2048 \<and> fst (ramp1 v t) \<le> VOL_MAX \<and>
    (snd (ramp1 v t) \<longleftrightarrow> fst (ramp1 v t) \<noteq> t)"
  proof (cases "v < t")
    case True
    then show ?thesis using assms v up by (auto simp: ramp1_def gap_def word_less_nat_alt word_le_nat_alt)
  next
    case False
    then show ?thesis
      using assms v dn wrap
      by (cases "unat v < 2048") (auto simp: ramp1_def gap_def word_less_nat_alt word_le_nat_alt not_less)
  qed
  then show "gap (fst (ramp1 v t)) t \<le> gap v t - 2048" "fst (ramp1 v t) \<le> VOL_MAX"
    "snd (ramp1 v t) \<longleftrightarrow> fst (ramp1 v t) \<noteq> t" by blast+
qed

section \<open>All channels\<close>

lemma vol_sync_host_sel [simp]:
  "vols (vol_sync_host p i w) = vols w" "devs (vol_sync_host p i w) = devs w" "bufs (vol_sync_host p i w) = bufs w"
  "pcms (vol_sync_host p i w) = pcms w" "wmem (vol_sync_host p i w) = wmem w" "vol_sched (vol_sync_host p i w) = vol_sched w"
  by (simp_all add: vol_sync_host_def Let_def)

lemma ramp_chan_vols:
  assumes "i < length (volume (vols w p))"
  shows "vols (snd (ramp_chan p i (again, w))) p =
      (vols w p)\<lparr>volume := (volume (vols w p))[i := fst (ramp1 (volume (vols w p) ! i) (tvolume (vols w p) ! i))]\<rparr>"
    and "fst (ramp_chan p i (again, w)) \<longleftrightarrow> again \<or> snd (ramp1 (volume (vols w p) ! i) (tvolume (vols w p) ! i))"
    and "devs (snd (ramp_chan p i (again, w))) = devs w"
proof -
  have "(vols w p)\<lparr>volume := (volume (vols w p))[i := volume (vols w p) ! i]\<rparr> = vols w p" by simp
  then have "volume (vols w p) ! i = tvolume (vols w p) ! i \<Longrightarrow>
      (vols w p)\<lparr>volume := (volume (vols w p))[i := tvolume (vols w p) ! i]\<rparr> = vols w p" by metis
  then show "vols (snd (ramp_chan p i (again, w))) p =
      (vols w p)\<lparr>volume := (volume (vols w p))[i := fst (ramp1 (volume (vols w p) ! i) (tvolume (vols w p) ! i))]\<rparr>"
    by (auto simp: ramp_chan_def ramp1_def Let_def vol_update_def)
  show "fst (ramp_chan p i (again, w)) \<longleftrightarrow> again \<or> snd (ramp1 (volume (vols w p) ! i) (tvolume (vols w p) ! i))"
    by (simp add: ramp_chan_def ramp1_def Let_def)
  show "devs (snd (ramp_chan p i (again, w))) = devs w"
    by (simp add: ramp_chan_def Let_def vol_update_def)
qed

lemma ramp_fold:
  assumes "n \<le> length (volume (vols w p))"
  shows "let s = fold (ramp_chan p) [0 ..< n] (again, w); cd = vols w p in
    tvolume (vols (snd s) p) = tvolume cd \<and> chan (vols (snd s) p) = chan cd \<and> mvolume (vols (snd s) p) = mvolume cd \<and>
    devs (snd s) = devs w \<and>
    length (volume (vols (snd s) p)) = length (volume cd) \<and>
    (\<forall>j < length (volume cd). volume (vols (snd s) p) ! j =
       (if j < n then fst (ramp1 (volume cd ! j) (tvolume cd ! j)) else volume cd ! j)) \<and>
    (fst s \<longleftrightarrow> again \<or> (\<exists>j < n. snd (ramp1 (volume cd ! j) (tvolume cd ! j))))"
  using assms
proof (induction n)
  case 0
  then show ?case by (simp add: Let_def)
next
  case (Suc n)
  obtain a w1 where s: "fold (ramp_chan p) [0 ..< n] (again, w) = (a, w1)" by (metis surj_pair)
  have ih: "tvolume (vols w1 p) = tvolume (vols w p)" "devs w1 = devs w"
      "chan (vols w1 p) = chan (vols w p)" "mvolume (vols w1 p) = mvolume (vols w p)"
      "length (volume (vols w1 p)) = length (volume (vols w p))"
      "\<And>j. j < length (volume (vols w p)) \<Longrightarrow> volume (vols w1 p) ! j =
         (if j < n then fst (ramp1 (volume (vols w p) ! j) (tvolume (vols w p) ! j)) else volume (vols w p) ! j)"
      "a \<longleftrightarrow> again \<or> (\<exists>j < n. snd (ramp1 (volume (vols w p) ! j) (tvolume (vols w p) ! j)))"
    using Suc s by (simp_all add: Let_def)
  have n: "n < length (volume (vols w1 p))" using Suc.prems ih(5) by simp
  have e: "volume (vols w1 p) ! n = volume (vols w p) ! n" using ih(6) [of n] Suc.prems by simp
  note r = ramp_chan_vols [OF n, of a]
  have f: "fold (ramp_chan p) [0 ..< Suc n] (again, w) = ramp_chan p n (a, w1)" using s by simp
  show ?case
    unfolding Let_def f r using ih Suc.prems e by (auto simp: nth_list_update less_Suc_eq)
qed

text \<open>The volumes a component's ramp sees are at most 0 dB, as \<open>volume_set_chan\<close> ensures.\<close>

definition vol_ok :: "vol_data \<Rightarrow> bool" where
  "vol_ok cd \<longleftrightarrow> length (volume cd) = 4 \<and> length (tvolume cd) = 4 \<and>
     list_all (\<lambda>v. v \<le> VOL_MAX) (volume cd) \<and> list_all (\<lambda>v. v \<le> VOL_MAX) (tvolume cd)"

text \<open>\<open>n\<close> runs of the work callback; the result is what the last one returned.\<close>

fun vol_works :: "nat \<Rightarrow> u32 \<Rightarrow> 'a vol_world_scheme \<Rightarrow> u32 \<times> 'a vol_world_scheme" where
  "vol_works 0 d w = (VOL_RAMP_US, w)"
| "vol_works (Suc n) d w = vol_work d (snd (vol_works n d w))"

lemma vol_work_step:
  assumes ok: "vol_ok (vols w (priv (devs w d)))"
  defines "p \<equiv> priv (devs w d)"
  defines "w' \<equiv> snd (vol_work d w)"
  shows "devs w' = devs w" "tvolume (vols w' p) = tvolume (vols w p)" "vol_ok (vols w' p)"
    "chan (vols w' p) = chan (vols w p)" "mvolume (vols w' p) = mvolume (vols w p)"
    "j < 4 \<Longrightarrow> gap (volume (vols w' p) ! j) (tvolume (vols w p) ! j) \<le> gap (volume (vols w p) ! j) (tvolume (vols w p) ! j) - 2048"
    "fst (vol_work d w) = (if volume (vols w' p) = tvolume (vols w p) then 0 else VOL_RAMP_US)"
proof -
  let ?cd = "vols w p"
  obtain a w1 where s: "fold (ramp_chan p) [0 ..< 4] (False, w) = (a, w1)" by (metis surj_pair)
  have l: "length (volume ?cd) = 4" "length (tvolume ?cd) = 4"
    and b: "\<And>j. j < 4 \<Longrightarrow> volume ?cd ! j \<le> VOL_MAX" "\<And>j. j < 4 \<Longrightarrow> tvolume ?cd ! j \<le> VOL_MAX"
    using ok by (simp_all add: vol_ok_def p_def list_all_length)
  have fc: "chan (vols w1 p) = chan ?cd" "mvolume (vols w1 p) = mvolume ?cd"
    using ramp_fold [of 4 w p False] s l by (simp_all add: Let_def)
  have f: "tvolume (vols w1 p) = tvolume ?cd" "devs w1 = devs w" "length (volume (vols w1 p)) = 4"
      "\<And>j. j < 4 \<Longrightarrow> volume (vols w1 p) ! j = fst (ramp1 (volume ?cd ! j) (tvolume ?cd ! j))"
      "a \<longleftrightarrow> (\<exists>j < 4. snd (ramp1 (volume ?cd ! j) (tvolume ?cd ! j)))"
    using ramp_fold [of 4 w p False] s l by (simp_all add: Let_def)
  have w': "w' = w1" "fst (vol_work d w) = (if a then VOL_RAMP_US else 0)"
    using s by (simp_all add: w'_def vol_work_def p_def)
  show "devs w' = devs w" "tvolume (vols w' p) = tvolume ?cd" using f w' by simp_all
  show "chan (vols w' p) = chan ?cd" "mvolume (vols w' p) = mvolume ?cd" using fc w' by simp_all
  note r = ramp1_gap [OF b(1) b(2)]
  show "gap (volume (vols w' p) ! j) (tvolume ?cd ! j) \<le> gap (volume ?cd ! j) (tvolume ?cd ! j) - 2048" if "j < 4"
    using r(1) [OF that that] f(4) [OF that] w' by simp
  show "vol_ok (vols w' p)"
    using f(1,3,4) l b(2) r(2) by (simp add: vol_ok_def w' list_all_length)
  have "a \<longleftrightarrow> (\<exists>j < 4. volume (vols w1 p) ! j \<noteq> tvolume ?cd ! j)" using f(4,5) r(3) by auto
  also have "\<dots> \<longleftrightarrow> volume (vols w1 p) \<noteq> tvolume ?cd" using f(3) l(2) by (auto simp: list_eq_iff_nth_eq)
  finally show "fst (vol_work d w) = (if volume (vols w' p) = tvolume ?cd then 0 else VOL_RAMP_US)"
    using w' by simp
qed

lemma vol_works_gap:
  assumes ok: "vol_ok (vols w (priv (devs w d)))"
  defines "p \<equiv> priv (devs w d)"
  shows "devs (snd (vol_works n d w)) = devs w \<and> tvolume (vols (snd (vol_works n d w)) p) = tvolume (vols w p) \<and>
    chan (vols (snd (vol_works n d w)) p) = chan (vols w p) \<and> mvolume (vols (snd (vol_works n d w)) p) = mvolume (vols w p) \<and>
    vol_ok (vols (snd (vol_works n d w)) p) \<and>
    (\<forall>j < 4. gap (volume (vols (snd (vol_works n d w)) p) ! j) (tvolume (vols w p) ! j)
       \<le> gap (volume (vols w p) ! j) (tvolume (vols w p) ! j) - n * 2048)"
proof (induction n)
  case 0
  then show ?case using ok by (simp add: p_def)
next
  case (Suc n)
  let ?w = "snd (vol_works n d w)"
  have p: "priv (devs ?w d) = p" and okn: "vol_ok (vols ?w (priv (devs ?w d)))" using Suc by (simp_all add: p_def)
  note st = vol_work_step [OF okn, unfolded p]
  have "gap (volume (vols (snd (vol_work d ?w)) p) ! j) (tvolume (vols w p) ! j)
       \<le> gap (volume (vols w p) ! j) (tvolume (vols w p) ! j) - Suc n * 2048" if "j < 4" for j
    using st(6) [OF that] Suc that by fastforce
  then show ?case using st(1-5) Suc by simp
qed

lemma vol_works_target:
  assumes "vol_ok (vols w (priv (devs w d)))" and "32 \<le> n"
  shows "volume (vols (snd (vol_works n d w)) (priv (devs w d))) = tvolume (vols w (priv (devs w d)))"
proof -
  let ?p = "priv (devs w d)"
  note g = vol_works_gap [OF assms(1), of n]
  have l: "length (volume (vols (snd (vol_works n d w)) ?p)) = 4" "length (tvolume (vols w ?p)) = 4"
    and t: "\<And>j. j < 4 \<Longrightarrow> tvolume (vols w ?p) ! j \<le> VOL_MAX" "\<And>j. j < 4 \<Longrightarrow> volume (vols w ?p) ! j \<le> VOL_MAX"
    using g assms(1) by (auto simp: vol_ok_def list_all_length)
  have g0: "gap (volume (vols w ?p) ! j) (tvolume (vols w ?p) ! j) \<le> 65536" if "j < 4" for j
    using t [OF that] by (auto simp: gap_def word_le_nat_alt)
  have "volume (vols (snd (vol_works n d w)) ?p) ! j = tvolume (vols w ?p) ! j" if "j < 4" for j
  proof -
    have "gap (volume (vols (snd (vol_works n d w)) ?p) ! j) (tvolume (vols w ?p) ! j)
       \<le> gap (volume (vols w ?p) ! j) (tvolume (vols w ?p) ! j) - n * 2048" using g that by blast
    moreover have "65536 \<le> n * 2048" using assms(2) by simp
    ultimately have "gap (volume (vols (snd (vol_works n d w)) ?p) ! j) (tvolume (vols w ?p) ! j) = 0"
      using g0 [OF that] by linarith
    then show ?thesis by simp
  qed
  then show ?thesis
    using l by (intro nth_equalityI) simp_all
qed

text \<open>
  C35: the volume ramp ends: from any volumes and targets of at most 0 dB, after 32 or more runs of
  the work callback every channel is at its target, which no run changed, and the callback
  returns 0, so that it is not scheduled again.
\<close>

theorem ramp_reaches_target:
  assumes "vol_ok (vols w (priv (devs w d)))" and "32 \<le> n"
  shows "volume (vols (snd (vol_works n d w)) (priv (devs w d))) = tvolume (vols w (priv (devs w d))) \<and>
    tvolume (vols (snd (vol_works n d w)) (priv (devs w d))) = tvolume (vols w (priv (devs w d))) \<and>
    fst (vol_works n d w) = 0"
proof -
  obtain k where k: "n = Suc k" using assms(2) by (cases n) auto
  note g = vol_works_gap [OF assms(1), of n] and gk = vol_works_gap [OF assms(1), of k]
  note eq = vol_works_target [OF assms]
  have okk: "vol_ok (vols (snd (vol_works k d w)) (priv (devs (snd (vol_works k d w)) d)))" using gk by simp
  have "fst (vol_works n d w) = 0"
    using vol_work_step(7) [OF okk] eq gk unfolding k by simp
  then show ?thesis using eq g by simp
qed

definition quiet_world :: "u32 list \<Rightarrow> u32 list \<Rightarrow> vol_world" where
  "quiet_world v t = world.extend empty_world
     \<lparr>vols = (\<lambda>_. \<lparr>chan = [0, 1, 2, 3], volume = v, tvolume = t, mvolume = [0, 0, 0, 0], scale_vol = None, hvol = 0\<rparr>),
      hvols = (\<lambda>_. []), vol_sched = []\<rparr>"

lemma quiet_world_sel:
  "volume (vols (quiet_world v t) p) = v" "tvolume (vols (quiet_world v t) p) = t" "chan (vols (quiet_world v t) p) = [0, 1, 2, 3]"
  by (simp_all add: quiet_world_def world.extend_def)

lemma ramp_reaches_target_witness:
  "fst (vol_works 32 1 (quiet_world [65536, 100, 0, 0] [0, 65536, 3000, 0])) = 0 \<and>
   volume (vols (snd (vol_works 32 1 (quiet_world [65536, 100, 0, 0] [0, 65536, 3000, 0])))
     (priv (devs (quiet_world [65536, 100, 0, 0] [0, 65536, 3000, 0]) 1))) = [0, 65536, 3000, 0]"
  using ramp_reaches_target [of "quiet_world [65536, 100, 0, 0] [0, 65536, 3000, 0]" 1 32]
  by (simp add: vol_ok_def quiet_world_sel)

section \<open>Volume, mute and unmute\<close>

text \<open>One control value per channel is applied by the nested loops to the channel it names.\<close>

lemma fold_values_none:
  "c \<notin> fst ` set cv \<Longrightarrow> (\<And>v cd. chan (f v cd) = chan cd) \<Longrightarrow> chan cd ! i = c \<Longrightarrow>
   fold (\<lambda>(c', v) cd. if c' = chan cd ! i then f v cd else cd) cv cd = cd"
  by (induction cv) auto

lemma fold_values_one:
  assumes ch: "\<And>v cd. chan (f v cd) = chan cd" and cv: "distinct (map fst cv)" "(chan cd ! i, v) \<in> set cv"
  shows "fold (\<lambda>(c', v) cd. if c' = chan cd ! i then f v cd else cd) cv cd = f v cd"
proof -
  obtain xs ys where s: "cv = xs @ (chan cd ! i, v) # ys" using cv(2) by (meson split_list)
  have n: "chan cd ! i \<notin> fst ` set xs" "chan cd ! i \<notin> fst ` set ys" using cv(1) unfolding s by auto
  have 1: "fold (\<lambda>(c', v) cd. if c' = chan cd ! i then f v cd else cd) xs cd = cd"
    using fold_values_none [OF n(1) ch] by simp
  have 2: "fold (\<lambda>(c', v) cd. if c' = chan cd ! i then f v cd else cd) ys (f v cd) = f v cd"
    using fold_values_none [OF n(2) ch, of "f v cd" i] ch by simp
  show ?thesis using 1 2 by (simp add: s)
qed

text \<open>
  A control message that names the four channels of the component once each applies the channel
  operation to all of them, in the order of the channels.
\<close>

lemma for_values_all:
  assumes ch: "\<And>i v cd. chan (f i v cd) = chan cd" and cv: "distinct (map fst cv)"
    and all: "\<And>i. i < 4 \<Longrightarrow> (chan cd ! i, vs i) \<in> set cv"
  shows "for_values f cv cd = f 3 (vs 3) (f 2 (vs 2) (f 1 (vs 1) (f 0 (vs 0) cd)))"
proof -
  have e: "[0 ..< 4] = [0, 1, 2, 3 :: nat]" by (simp add: upt_rec)
  have s: "fold (\<lambda>(c', v) cd. if c' = chan cd ! i then f i v cd else cd) cv cd' = f i (vs i) cd'"
    if "i < 4" "chan cd' = chan cd" for i cd'
    by (rule fold_values_one) (use ch cv all that in simp_all)
  show ?thesis unfolding for_values_def e by (simp add: s ch)
qed

lemma chan_ops [simp]:
  "chan (volume_set_chan i v cd) = chan cd" "chan (volume_set_chan_mute i cd) = chan cd"
  "chan (volume_set_chan_unmute i cd) = chan cd"
  by (simp_all add: volume_set_chan_def volume_set_chan_mute_def volume_set_chan_unmute_def)

lemma list4: "length xs = 4 \<Longrightarrow> xs = [xs ! 0, xs ! 1, xs ! 2, xs ! 3]"
  by (rule nth_equalityI) (auto simp: less_Suc_eq numeral_eq_Suc)

lemma mute_all:
  assumes "distinct (map fst cv)" "\<And>i. i < 4 \<Longrightarrow> chan cd ! i \<in> fst ` set cv"
    "length (volume cd) = 4" "length (tvolume cd) = 4" "length (mvolume cd) = 4"
  shows "for_values (\<lambda>i _. volume_set_chan_mute i) cv cd = cd\<lparr>mvolume := volume cd, tvolume := [0, 0, 0, 0]\<rparr>"
    and "for_values (\<lambda>i _. volume_set_chan_unmute i) cv cd = cd\<lparr>tvolume := mvolume cd\<rparr>"
proof -
  have "\<exists>v. (chan cd ! i, v) \<in> set cv" if "i < 4" for i using assms(2) [OF that] by force
  then obtain vs where vs: "\<And>i. i < 4 \<Longrightarrow> (chan cd ! i, vs i) \<in> set cv" by metis
  obtain v0 v1 v2 v3 where v: "volume cd = [v0, v1, v2, v3]" using list4 [OF assms(3)] by blast
  obtain t0 t1 t2 t3 where t: "tvolume cd = [t0, t1, t2, t3]" using list4 [OF assms(4)] by blast
  obtain m0 m1 m2 m3 where m: "mvolume cd = [m0, m1, m2, m3]" using list4 [OF assms(5)] by blast
  show "for_values (\<lambda>i _. volume_set_chan_mute i) cv cd = cd\<lparr>mvolume := volume cd, tvolume := [0, 0, 0, 0]\<rparr>"
    by (subst for_values_all [OF _ assms(1) vs]) (simp_all add: volume_set_chan_mute_def v t m numeral_eq_Suc)
  show "for_values (\<lambda>i _. volume_set_chan_unmute i) cv cd = cd\<lparr>tvolume := mvolume cd\<rparr>"
    by (subst for_values_all [OF _ assms(1) vs]) (simp_all add: volume_set_chan_unmute_def v t m numeral_eq_Suc)
qed

lemma mute_cmd:
  assumes cv: "distinct (map fst cv)" "\<forall>i < 4. chan (vols w p) ! i \<in> fst ` set cv" and p: "p = priv (devs w d)"
    and l: "length (mvolume (vols w p)) = 4" and ok: "vol_ok (vols w p)"
  obtains w1 where "volume_cmd d COMP_CMD_MUTE cv w = Some (0, w1)" "devs w1 = devs w"
      "vols w1 p = (vols w p)\<lparr>mvolume := volume (vols w p), tvolume := [0, 0, 0, 0]\<rparr>"
    and "\<And>w1. volume_cmd d COMP_CMD_MUTE cv w = Some (0, w1) \<Longrightarrow> vol_ok (vols w1 p)"
proof -
  have lv: "length (volume (vols w p)) = 4" "length (tvolume (vols w p)) = 4" using ok by (simp_all add: vol_ok_def)
  define w1 where "w1 = vol_schedule d (upd_vol p (for_values (\<lambda>i _. volume_set_chan_mute i) cv) w)"
  have c: "volume_cmd d COMP_CMD_MUTE cv w = Some (0, w1)" "devs w1 = devs w"
    by (simp_all add: volume_cmd_def Let_def p w1_def vol_schedule_def)
  have v: "vols w1 p = (vols w p)\<lparr>mvolume := volume (vols w p), tvolume := [0, 0, 0, 0]\<rparr>"
    using mute_all(1) [OF cv(1) _ lv l] cv(2) by (simp add: w1_def vol_schedule_def)
  have "vol_ok (vols w1 p)" using ok v by (simp add: vol_ok_def)
  with c v that show thesis by simp
qed

lemma unmute_cmd:
  assumes cv: "distinct (map fst cv)" "\<forall>i < 4. chan (vols w p) ! i \<in> fst ` set cv" and p: "p = priv (devs w d)"
    and l: "length (mvolume (vols w p)) = 4" and ok: "vol_ok (vols w p)"
  obtains w1 where "volume_cmd d COMP_CMD_UNMUTE cv w = Some (0, w1)" "tvolume (vols w1 p) = mvolume (vols w p)"
proof -
  have lv: "length (volume (vols w p)) = 4" "length (tvolume (vols w p)) = 4" using ok by (simp_all add: vol_ok_def)
  define w1 where "w1 = vol_schedule d (upd_vol p (for_values (\<lambda>i _. volume_set_chan_unmute i) cv) w)"
  have "volume_cmd d COMP_CMD_UNMUTE cv w = Some (0, w1)"
    by (simp add: volume_cmd_def Let_def p w1_def)
  moreover have "tvolume (vols w1 p) = mvolume (vols w p)"
    using mute_all(2) [OF cv(1) _ lv l] cv(2) by (simp add: w1_def vol_schedule_def)
  ultimately show thesis using that by blast
qed

text \<open>
  after a mute command for all channels, any number of ramp runs and an unmute command, the
  target of every channel is the volume it had when it was muted.
\<close>

theorem mute_unmute:
  assumes cv: "distinct (map fst cv)" "\<forall>i < 4. chan (vols w (priv (devs w d))) ! i \<in> fst ` set cv"
    and l: "length (mvolume (vols w (priv (devs w d)))) = 4" and ok: "vol_ok (vols w (priv (devs w d)))"
  shows "\<exists>w1 w2. volume_cmd d COMP_CMD_MUTE cv w = Some (0, w1) \<and> tvolume (vols w1 (priv (devs w d))) = [0, 0, 0, 0] \<and>
    volume_cmd d COMP_CMD_UNMUTE cv (snd (vol_works n d w1)) = Some (0, w2) \<and>
    tvolume (vols w2 (priv (devs w d))) = volume (vols w (priv (devs w d)))"
proof -
  let ?p = "priv (devs w d)"
  obtain w1 where c: "volume_cmd d COMP_CMD_MUTE cv w = Some (0, w1)" "devs w1 = devs w"
    and v: "vols w1 ?p = (vols w ?p)\<lparr>mvolume := volume (vols w ?p), tvolume := [0, 0, 0, 0]\<rparr>"
    and ok1: "vol_ok (vols w1 ?p)"
    using mute_cmd [OF cv refl l ok] by metis
  have "vol_ok (vols w1 (priv (devs w1 d)))" using ok1 c(2) by simp
  note g = vol_works_gap [OF this, of n, unfolded c(2)]
  let ?w = "snd (vol_works n d w1)"
  have len: "length (volume (vols w ?p)) = 4" using ok by (simp add: vol_ok_def)
  obtain w2 where "volume_cmd d COMP_CMD_UNMUTE cv ?w = Some (0, w2)" "tvolume (vols w2 ?p) = mvolume (vols ?w ?p)"
  proof (rule unmute_cmd [OF cv(1), of ?w ?p d])
    show "\<forall>i < 4. chan (vols ?w ?p) ! i \<in> fst ` set cv" using g v cv(2) by simp
    show "?p = priv (devs ?w d)" using g by simp
    show "length (mvolume (vols ?w ?p)) = 4" using g v len by simp
    show "vol_ok (vols ?w ?p)" using g by simp
  qed
  then show ?thesis using c v g by auto
qed

lemma mute_unmute_witness:
  "\<exists>w1 w2. volume_cmd 1 COMP_CMD_MUTE [(0, 0), (1, 0), (2, 0), (3, 0)] (quiet_world [9, 8, 7, 6] [9, 8, 7, 6]) = Some (0, w1) \<and>
     volume_cmd 1 COMP_CMD_UNMUTE [(0, 0), (1, 0), (2, 0), (3, 0)] (snd (vol_works 5 1 w1)) = Some (0, w2)"
proof -
  let ?w = "quiet_world [9, 8, 7, 6] [9, 8, 7, 6]"
  have "length (mvolume (vols ?w p)) = 4" for p by (simp add: quiet_world_def world.extend_def)
  moreover have "\<forall>i < 4. chan (vols ?w p) ! i \<in> fst ` set [(0 :: u32, 0 :: u32), (1, 0), (2, 0), (3, 0)]" for p
    unfolding quiet_world_sel by (auto simp: less_Suc_eq numeral_eq_Suc)
  moreover have "vol_ok (vols ?w p)" for p by (simp add: vol_ok_def quiet_world_sel)
  ultimately show ?thesis
    using mute_unmute [of "[(0, 0), (1, 0), (2, 0), (3, 0)]" ?w 1 5] by (simp, blast)
qed

text \<open>
  a second mute command after the ramp to silence has ended remembers the silence: the unmute
  command that follows leaves every target at 0, and the volume before the first mute is lost.
\<close>

theorem double_mute_loses_volume:
  assumes cv: "distinct (map fst cv)" "\<forall>i < 4. chan (vols w (priv (devs w d))) ! i \<in> fst ` set cv"
    and l: "length (mvolume (vols w (priv (devs w d)))) = 4" and ok: "vol_ok (vols w (priv (devs w d)))" and n: "32 \<le> n"
  shows "\<exists>w1 w2 w3. volume_cmd d COMP_CMD_MUTE cv w = Some (0, w1) \<and>
    volume_cmd d COMP_CMD_MUTE cv (snd (vol_works n d w1)) = Some (0, w2) \<and>
    volume_cmd d COMP_CMD_UNMUTE cv w2 = Some (0, w3) \<and> tvolume (vols w3 (priv (devs w d))) = [0, 0, 0, 0]"
proof -
  let ?p = "priv (devs w d)"
  obtain w1 where c: "volume_cmd d COMP_CMD_MUTE cv w = Some (0, w1)" "devs w1 = devs w"
    and v: "vols w1 ?p = (vols w ?p)\<lparr>mvolume := volume (vols w ?p), tvolume := [0, 0, 0, 0]\<rparr>"
    and ok1: "vol_ok (vols w1 ?p)"
    using mute_cmd [OF cv refl l ok] by metis
  have ok1': "vol_ok (vols w1 (priv (devs w1 d)))" using ok1 c(2) by simp
  note g = vol_works_gap [OF ok1', of n, unfolded c(2)] and t = vol_works_target [OF ok1' n, unfolded c(2)]
  let ?w = "snd (vol_works n d w1)"
  have len: "length (volume (vols w ?p)) = 4" using ok by (simp add: vol_ok_def)
  have cvw: "\<forall>i < 4. chan (vols ?w ?p) ! i \<in> fst ` set cv" and pw: "?p = priv (devs ?w d)"
    and lw: "length (mvolume (vols ?w ?p)) = 4" and okw: "vol_ok (vols ?w ?p)"
    using g v cv(2) len by simp_all
  obtain w2 where c2: "volume_cmd d COMP_CMD_MUTE cv ?w = Some (0, w2)" "devs w2 = devs ?w"
    and v2: "vols w2 ?p = (vols ?w ?p)\<lparr>mvolume := volume (vols ?w ?p), tvolume := [0, 0, 0, 0]\<rparr>"
    and ok2: "vol_ok (vols w2 ?p)"
    using mute_cmd [OF cv(1) cvw pw lw okw] by metis
  obtain w3 where "volume_cmd d COMP_CMD_UNMUTE cv w2 = Some (0, w3)" "tvolume (vols w3 ?p) = mvolume (vols w2 ?p)"
  proof (rule unmute_cmd [OF cv(1), of w2 ?p d])
    show "\<forall>i < 4. chan (vols w2 ?p) ! i \<in> fst ` set cv" using v2 cvw by simp
    show "?p = priv (devs w2 d)" using c2 pw by simp
    show "length (mvolume (vols w2 ?p)) = 4" using v2 t v by simp
    show "vol_ok (vols w2 ?p)" by (rule ok2)
  qed
  then show ?thesis using c c2 v2 t v by auto
qed

lemma double_mute_loses_volume_witness:
  "\<exists>w1 w2. volume_cmd 1 COMP_CMD_MUTE [(0, 0), (1, 0), (2, 0), (3, 0)] (quiet_world [9, 8, 7, 6] [9, 8, 7, 6]) = Some (0, w1) \<and>
     volume_cmd 1 COMP_CMD_MUTE [(0, 0), (1, 0), (2, 0), (3, 0)] (snd (vol_works 32 1 w1)) = Some (0, w2)"
proof -
  let ?w = "quiet_world [9, 8, 7, 6] [9, 8, 7, 6]"
  have "length (mvolume (vols ?w p)) = 4" for p by (simp add: quiet_world_def world.extend_def)
  moreover have "\<forall>i < 4. chan (vols ?w p) ! i \<in> fst ` set [(0 :: u32, 0 :: u32), (1, 0), (2, 0), (3, 0)]" for p
    unfolding quiet_world_sel by (auto simp: less_Suc_eq numeral_eq_Suc)
  moreover have "vol_ok (vols ?w p)" for p by (simp add: vol_ok_def quiet_world_sel)
  ultimately show ?thesis
    using double_mute_loses_volume [of "[(0, 0), (1, 0), (2, 0), (3, 0)]" ?w 1 32] by (simp, blast)
qed

section \<open>Prepare\<close>

lemma word_le_2: "x \<le> 2 \<longleftrightarrow> x = 0 \<or> x = 1 \<or> x = (2 :: u32)"
proof
  assume "x \<le> 2"
  then have "unat x \<in> {0, 1, 2}" by (auto simp: word_le_nat_alt)
  then show "x = 0 \<or> x = 1 \<or> x = 2" by (auto simp: word_unat_eq_iff)
qed auto

lemma find_func_dom:
  "find_func sf kf ch = None \<longleftrightarrow> \<not> (ch = 2 \<and> sf \<le> 2 \<and> kf \<le> 2 \<and> \<not> (sf = 1 \<and> kf = 1))"
proof (cases "ch = 2")
  case True
  then show ?thesis
    unfolding word_le_2 by (auto simp: find_func_def func_map_def audio_consts)
next
  case False
  then show ?thesis by (simp add: find_func_def func_map_def)
qed

text \<open>
  volume_prepare succeeds exactly when the sink carries two channels and the formats are not
  24 bit on both sides (nor unknown); it then selects the function for these formats and enters the
  prepared state, and otherwise returns -EINVAL and changes nothing.
\<close>

theorem volume_prepare_iff:
  assumes "bsource_list (devs w d) = source # xs" and "bsink_list (devs w d) = sink # ys"
  defines "sf \<equiv> if is_endpoint (devs w (b_source (bufs w source))) \<noteq> 0 then frame_fmt (pcms w (b_pcm (bufs w source))) else SOF_IPC_FRAME_S32_LE"
    and "kf \<equiv> if is_endpoint (devs w (b_sink (bufs w sink))) \<noteq> 0 then frame_fmt (pcms w (b_pcm (bufs w sink))) else SOF_IPC_FRAME_S32_LE"
  shows "if channels (pcms w (b_pcm (bufs w sink))) = 2 \<and> sf \<le> 2 \<and> kf \<le> 2 \<and> \<not> (sf = 1 \<and> kf = 1)
         then \<exists>w' f. volume_prepare d w = Some (0, w') \<and> find_func sf kf 2 = Some f \<and>
                scale_vol (vols w' (priv (devs w d))) = Some f \<and> state (devs w' d) = COMP_STATE_PREPARE
         else volume_prepare d w = Some (- 22, w)"
proof -
  have sync: "vols (fold (vol_sync_host p) is v) = vols v \<and> devs (fold (vol_sync_host p) is v) = devs v"
    for p "is" and v :: "'a vol_world_scheme"
    by (induction "is" arbitrary: v) simp_all
  have p: "volume_prepare d w = (case find_func sf kf (channels (pcms w (b_pcm (bufs w sink)))) of
       None \<Rightarrow> Some (- 22, w)
     | Some f \<Rightarrow> Some (0, set_state d COMP_STATE_PREPARE
           (fold (vol_sync_host (priv (devs w d))) [0 ..< 4] (upd_vol (priv (devs w d)) (\<lambda>cd. cd\<lparr>scale_vol := Some f\<rparr>) w))))"
    by (simp add: volume_prepare_def assms(1,2) first_of_def Let_def sf_def kf_def)
  show ?thesis
  proof (cases "find_func sf kf (channels (pcms w (b_pcm (bufs w sink))))")
    case None
    then have "\<not> (channels (pcms w (b_pcm (bufs w sink))) = 2 \<and> sf \<le> 2 \<and> kf \<le> 2 \<and> \<not> (sf = 1 \<and> kf = 1))"
      unfolding find_func_dom .
    moreover have "volume_prepare d w = Some (- 22, w)" unfolding p None by simp
    ultimately show ?thesis by (simp only: if_False)
  next
    case (Some f)
    then have ok: "channels (pcms w (b_pcm (bufs w sink))) = 2 \<and> sf \<le> 2 \<and> kf \<le> 2 \<and> \<not> (sf = 1 \<and> kf = 1)"
      using find_func_dom [of sf kf "channels (pcms w (b_pcm (bufs w sink)))"] by auto
    then show ?thesis unfolding p Some using Some by (simp add: sync)
  qed
qed

definition prep_demo :: vol_world where
  "prep_demo = quiet_world [9, 8, 7, 6] [9, 8, 7, 6]\<lparr>
       devs := (\<lambda>_. (devs empty_world 1)\<lparr>bsource_list := [10], bsink_list := [20]\<rparr>),
       pcms := (\<lambda>_. \<lparr>stream_type = 0, direction = 0, frame_fmt = 2, rate = 48000, channels = 2, frame_size = 8, period_bytes = 0, period_count = 0\<rparr>)\<rparr>"

lemma volume_prepare_iff_witness:
  "\<exists>w' f. volume_prepare 1 prep_demo = Some (0, w') \<and> scale_vol (vols w' (priv (devs prep_demo 1))) = Some f"
proof -
  have l: "bsource_list (devs prep_demo 1) = [10]" "bsink_list (devs prep_demo 1) = [20]"
    "channels (pcms prep_demo q) = 2" "frame_fmt (pcms prep_demo q) = 2" for q
    by (simp_all add: prep_demo_def)
  show ?thesis
    using volume_prepare_iff [OF l(1,2)] unfolding l SOF_IPC_FRAME_S32_LE_def by auto
qed

end
