(* ===== verification/Reef_Mixer.thy ===== *)
theory Reef_Mixer
  imports Reef_Volume_Props
begin

unbundle bit_operations_syntax

text \<open>
  The mixer component, src/src/audio/mixer.c: the sample loop \<open>mix_n\<close> and the operations of the
  driver. The private data is the store \<open>mixers\<close>: whether \<open>mix_func\<close> has been set.
\<close>

record mix_world = vol_world +
  mixers :: "u32 \<Rightarrow> bool"

definition upd_mixer :: "u32 \<Rightarrow> bool \<Rightarrow> 'a mix_world_scheme \<Rightarrow> 'a mix_world_scheme" where
  "upd_mixer p x w = w\<lparr>mixers := (mixers w)(p := x)\<rparr>"

lemma upd_mixer_sel [simp]:
  "mixers (upd_mixer p x w) = (mixers w)(p := x)" "devs (upd_mixer p x w) = devs w" "bufs (upd_mixer p x w) = bufs w"
  "pcms (upd_mixer p x w) = pcms w" "wmem (upd_mixer p x w) = wmem w" "vols (upd_mixer p x w) = vols w"
  "mixers (upd_dev d g w) = mixers w" "mixers (upd_buf b h w) = mixers w"
  by (simp_all add: upd_mixer_def upd_dev_def upd_buf_def)

section \<open>Mixing\<close>

text \<open>\<open>val[k] += src[i]\<close> over the sources, in 64 bits; then the attenuating shift.\<close>

definition mix_sum :: "mem \<Rightarrow> u32 list \<Rightarrow> nat \<Rightarrow> s64" where
  "mix_sum m srcs i = fold (\<lambda>p v. v + scast (load32 m (p + of_nat (4 * i)))) srcs 0"

definition mix_out :: "nat \<Rightarrow> s64 \<Rightarrow> s32" where
  "mix_out num v = ucast (signed_drop_bit (num div 2) v)"

definition mix_pair :: "u32 list \<Rightarrow> u32 \<Rightarrow> nat \<Rightarrow> mem \<Rightarrow> mem" where
  "mix_pair srcs dst n m =
     (let i = 2 * n; num = length srcs;
          v0 = mix_sum m srcs i; v1 = mix_sum m srcs (i + 1);
          m = store32 m (dst + of_nat (4 * i)) (mix_out num v0)
      in store32 m (dst + of_nat (4 * (i + 1))) (mix_out num v1))"

text \<open>\<open>for (i = 0; i < count; i += 2)\<close> with a signed \<open>count\<close>.\<close>

definition mix_loop :: "s32 \<Rightarrow> u32 list \<Rightarrow> u32 \<Rightarrow> mem \<Rightarrow> mem" where
  "mix_loop count srcs dst m = fold (mix_pair srcs dst) [0 ..< (nat (sint count) + 1) div 2] m"

definition mix_n :: "u32 \<Rightarrow> u32 list \<Rightarrow> u32 \<Rightarrow> 'a mix_world_scheme \<Rightarrow> 'a mix_world_scheme" where
  "mix_n sink sources frames w =
     (let dest = w_ptr (bufs w sink);
          count = frames * channels (pcms w (b_pcm (bufs w sink)));
          w = w\<lparr>wmem := mix_loop count (map (\<lambda>s. r_ptr (bufs w s)) sources) dest (wmem w)\<rparr>;
          w = upd_buf sink (\<lambda>b. b\<lparr>w_ptr := dest + 4 * count\<rparr>) w
      in fold (\<lambda>s. upd_buf s (\<lambda>b. b\<lparr>r_ptr := r_ptr b + 4 * count\<rparr>)) sources w)"

section \<open>The driver's operations\<close>

definition sizeof_mixer_dev :: u32 where "sizeof_mixer_dev = 112"
definition sizeof_mixer_data :: u32 where "sizeof_mixer_data = 4"

definition mixer_new :: "ipc_comp \<Rightarrow> 'a mix_world_scheme \<Rightarrow> (u32 \<times> 'a mix_world_scheme) option" where
  "mixer_new c w = do {
     (d, h, m) \<leftarrow> rzalloc RZONE_RUNTIME RFLAGS_NONE sizeof_mixer_dev (mm w, wmem w);
     let w = w\<lparr>mm := h, wmem := m\<rparr>;
     if d = 0 then Some (0, w)
     else do {
       let w = upd_dev d (\<lambda>_. \<lparr>state = 0, is_endpoint = 0, pipeline_of = 0, period_frames = 0, dev_period_bytes = 0,
                 drv = 0, bsource_list = [], bsink_list = [], priv = 0, comp = c\<rparr>) w;
       (p, h, m) \<leftarrow> rzalloc RZONE_RUNTIME RFLAGS_NONE sizeof_mixer_data (mm w, wmem w);
       let w = w\<lparr>mm := h, wmem := m\<rparr>;
       if p = 0 then do { h \<leftarrow> rfree d (mm w); Some (0, w\<lparr>mm := h\<rparr>) }
       else Some (d, upd_mixer p False (upd_dev d (\<lambda>r. r\<lparr>priv := p\<rparr>) w))
     } }"

definition mixer_free :: "u32 \<Rightarrow> 'a mix_world_scheme \<Rightarrow> 'a mix_world_scheme option" where
  "mixer_free d w = do {
     h \<leftarrow> rfree (priv (devs w d)) (mm w);
     h \<leftarrow> rfree d h;
     Some (w\<lparr>mm := h\<rparr>) }"

definition mixer_params :: "u32 \<Rightarrow> u32 \<Rightarrow> 'a mix_world_scheme \<Rightarrow> (int \<times> 'a mix_world_scheme) option" where
  "mixer_params d pcm w =
     (if state (devs w d) = COMP_STATE_RUNNING then Some (1, w)
      else Some (0, comp_buffer_sink_params d pcm
             (upd_pcm pcm (\<lambda>p. p\<lparr>frame_fmt := SOF_IPC_FRAME_S32_LE, frame_size := 4 * channels p\<rparr>) w)))"

definition source_states :: "u32 \<Rightarrow> 'a world_scheme \<Rightarrow> u16 list" where
  "source_states d w = map (\<lambda>b. state (devs w (b_source (bufs w b)))) (bsource_list (devs w d))"

definition mixer_status_change :: "u32 \<Rightarrow> 'a mix_world_scheme \<Rightarrow> int \<times> 'a mix_world_scheme" where
  "mixer_status_change d w =
     (let target = fold (\<lambda>s t. if t < s then s else t) (source_states d w) COMP_STATE_INIT
      in if state (devs w d) = target then (1, w) else (0, set_state d target w))"

definition mixer_cmd :: "u32 \<Rightarrow> int \<Rightarrow> ctrl_values \<Rightarrow> 'a mix_world_scheme \<Rightarrow> (int \<times> 'a mix_world_scheme) option" where
  "mixer_cmd d c cv w =
     (if c \<in> {COMP_CMD_START, COMP_CMD_PAUSE, COMP_CMD_RELEASE, COMP_CMD_DRAIN, COMP_CMD_SUSPEND, COMP_CMD_RESUME}
      then Some (mixer_status_change d w)
      else if c = COMP_CMD_STOP then
        (let (finish, w) = mixer_status_change d w
         in Some (finish, if finish = 0 then comp_buffer_reset d w else w))
      else Some (0, w))"

text \<open>The frames every source can give and the sink can take, at most a period.\<close>

fun clip_frames :: "u32 \<Rightarrow> (u32 \<times> u32) list \<Rightarrow> u32 option" where
  "clip_frames c [] = Some c"
| "clip_frames c ((room, fs) # xs) =
     (if room < c * fs then (if fs = 0 then None else clip_frames (room div fs) xs) else clip_frames c xs)"

text \<open>The local array \<open>sources\<close> has five entries: a sixth one writes outside it.\<close>

definition mixer_copy :: "u32 \<Rightarrow> 'a mix_world_scheme \<Rightarrow> (int \<times> 'a mix_world_scheme) option" where
  "mixer_copy d w =
     (let sources = filter (\<lambda>b. state (devs w (b_source (bufs w b))) = state (devs w d)) (bsource_list (devs w d)) in
      if 5 < length sources then None
      else do {
        sink \<leftarrow> first_of (bsink_list (devs w d));
        let fsz = (\<lambda>b. frame_size (pcms w (b_pcm (bufs w b))));
        c \<leftarrow> clip_frames PLAT_INT_PERIOD_FRAMES
               (map (\<lambda>s. (avail (bufs w s), fsz s)) sources @ [(bfree (bufs w sink), fsz sink)]);
        let cframes = (if sources = [] then 0 else c);
        if cframes = 0 then Some (0, w)
        else if \<not> mixers w (priv (devs w d)) then None
        else do {
          let w = mix_n sink sources cframes w;
          let w = fold (\<lambda>s w. upd_buf s comp_update_buffer_consume (upd_buf s wrap_r w)) (rev sources) w;
          let w = upd_buf sink wrap_w w;
          let w = upd_buf sink comp_update_buffer_produce w;
          Some (sint cframes, w)
        } })"

definition mixer_reset :: "u32 \<Rightarrow> 'a mix_world_scheme \<Rightarrow> (int \<times> 'a mix_world_scheme) option" where
  "mixer_reset d w =
     (if list_ex (\<lambda>s. COMP_STATE_SETUP < s) (source_states d w) then Some (1, w)
      else Some (0, set_state d COMP_STATE_INIT w))"

definition mixer_prepare :: "u32 \<Rightarrow> 'a mix_world_scheme \<Rightarrow> (int \<times> 'a mix_world_scheme) option" where
  "mixer_prepare d w =
     (let w = (if state (devs w d) \<noteq> COMP_STATE_RUNNING
               then set_state d COMP_STATE_PREPARE (upd_mixer (priv (devs w d)) True w) else w);
          downstream = (if list_ex (\<lambda>s. s = COMP_STATE_PAUSED \<or> s = COMP_STATE_RUNNING) (source_states d w) then 1 else 0)
      in Some (downstream, w))"

definition mixer_preload :: "u32 \<Rightarrow> 'a mix_world_scheme \<Rightarrow> (int \<times> 'a mix_world_scheme) option" where
  "mixer_preload d w = (if state (devs w d) \<noteq> COMP_STATE_PREPARE then Some (1, w) else Some (0, w))"

definition comp_mixer :: "'a mix_world_scheme comp_ops" where
  "comp_mixer = \<lparr>op_new = mixer_new, op_free = mixer_free, op_params = mixer_params,
     op_preload = mixer_preload, op_cmd = mixer_cmd, op_prepare = mixer_prepare,
     op_reset = mixer_reset, op_copy = mixer_copy\<rparr>"

section \<open>The mixed samples\<close>

lemma mix_sum_fold:
  assumes "length srcs \<le> 2 ^ 20" "\<bar>sint (acc :: s64)\<bar> + int (length srcs) * 2 ^ 31 < 2 ^ 60"
  shows "sint (fold (\<lambda>p v. v + scast (load32 m (p + of_nat (4 * i)))) srcs acc)
       = sint acc + (\<Sum>p \<leftarrow> srcs. sint (load32 m (p + of_nat (4 * i))))"
  using assms
proof (induction srcs arbitrary: acc)
  case Nil
  then show ?case by simp
next
  case (Cons p ps)
  let ?x = "load32 m (p + of_nat (4 * i))"
  have x: "- 2147483648 \<le> sint ?x" "sint ?x \<le> 2147483647" by (rule sint_range32)+
  have b: "\<bar>sint acc\<bar> + 2147483648 + int (length ps) * 2147483648 < 1152921504606846976"
    using Cons.prems(2) by (simp add: distrib_right)
  have nn: "0 \<le> int (length ps) * 2147483648" by simp
  have s: "sint (acc + scast ?x :: s64) = sint acc + sint ?x"
  proof -
    have "- 9223372036854775808 \<le> sint acc + sint ?x" "sint acc + sint ?x < 9223372036854775808"
      using x b nn by linarith+
    then show ?thesis by (subst sint_add_fits) simp_all
  qed
  then have "\<bar>sint (acc + scast ?x)\<bar> + int (length ps) * 2 ^ 31 < 2 ^ 60"
    using x b by simp
  then show ?case using Cons.IH [of "acc + scast ?x"] Cons.prems(1) s by simp
qed

lemma sint_mix_sum:
  "length srcs \<le> 2 ^ 20 \<Longrightarrow> sint (mix_sum m srcs i) = (\<Sum>p \<leftarrow> srcs. sint (load32 m (p + of_nat (4 * i))))"
  unfolding mix_sum_def by (subst mix_sum_fold) simp_all

lemma sum_bounds32:
  "- (int (length ps) * 2147483648) \<le> (\<Sum>p \<leftarrow> ps. sint (f p :: s32))"
  "(\<Sum>p \<leftarrow> ps. sint (f p :: s32)) \<le> int (length ps) * 2147483647"
proof -
  have "- (int (length ps) * 2147483648) \<le> (\<Sum>p \<leftarrow> ps. sint (f p :: s32)) \<and>
    (\<Sum>p \<leftarrow> ps. sint (f p :: s32)) \<le> int (length ps) * 2147483647"
  proof (induction ps)
    case (Cons p ps)
    then show ?case using sint_range32 [of "f p"] by (simp add: distrib_right)
  qed simp
  then show "- (int (length ps) * 2147483648) \<le> (\<Sum>p \<leftarrow> ps. sint (f p :: s32))"
    "(\<Sum>p \<leftarrow> ps. sint (f p :: s32)) \<le> int (length ps) * 2147483647" by blast+
qed

text \<open>
  C32: mixing one, two or four 32 bit streams never overflows: the output sample is the sum of the
  source samples divided by 1, 2 or 4, rounded down.
\<close>

theorem mix_exact:
  assumes "length srcs = 1 \<or> length srcs = 2 \<or> length srcs = 4"
  shows "sint (mix_out (length srcs) (mix_sum m srcs i))
       = (\<Sum>p \<leftarrow> srcs. sint (load32 m (p + of_nat (4 * i)))) div int (length srcs)"
proof -
  let ?s = "\<Sum>p \<leftarrow> srcs. sint (load32 m (p + of_nat (4 * i)))"
  have e: "sint (mix_sum m srcs i) = ?s" using assms by (intro sint_mix_sum) auto
  note b = sum_bounds32 [where ps = srcs and f = "\<lambda>p. load32 m (p + of_nat (4 * i))"]
  have p: "2 ^ (length srcs div 2) = int (length srcs)" using assms by auto
  have d: "sint (signed_drop_bit (length srcs div 2) (mix_sum m srcs i)) = ?s div int (length srcs)"
    unfolding sint_shr e p ..
  have "- 2147483648 \<le> ?s div int (length srcs)" "?s div int (length srcs) \<le> 2147483647"
    using assms b by (elim disjE; simp; linarith)+
  then show ?thesis
    unfolding mix_out_def ucast_scast_64_32 using d by (subst sint_scast_64_32) simp_all
qed

lemma mix_exact_witness:
  "sint (mix_out 2 (mix_sum (store32 (store32 (\<lambda>_. 0) 0 7) 16 9) [0, 16] 0)) = 8"
proof -
  have l: "load32 (store32 (store32 (\<lambda>_. 0) 0 7) 16 9) 0 = 7" "load32 (store32 (store32 (\<lambda>_. 0) 0 7) 16 9) 16 = 9"
    by (simp_all add: load32_def store32_def byte_of_def)
  show ?thesis
    using mix_exact [of "[0, 16]" "store32 (store32 (\<lambda>_. 0) 0 7) 16 9" 0] l by (simp add: numeral_2_eq_2)
qed

text \<open>
  with three streams the shift divides by two only: three samples at positive full scale mix
  to a negative output sample.
\<close>

theorem mix_three_overflows:
  "sint (mix_out 3 (mix_sum (store32 (\<lambda>_. 0) 0 0x7fffffff) [0, 0, 0] 0)) = - 1073741826"
proof -
  have l: "load32 (store32 (\<lambda>_. 0) 0 0x7fffffff) 0 = 0x7fffffff" by simp
  show ?thesis unfolding mix_sum_def by (simp add: l mix_out_def)
qed

section \<open>Frames and states\<close>

text \<open>What the copy processes fits every source and the sink.\<close>

lemma clip_frames_ok:
  assumes "clip_frames c xs = Some c'" "\<And>room fs. (room, fs) \<in> set xs \<Longrightarrow> unat c * unat fs < 2 ^ 32"
  shows "unat c' \<le> unat c \<and> (\<forall>(room, fs) \<in> set xs. unat c' * unat fs \<le> unat room)"
  using assms
proof (induction c xs rule: clip_frames.induct)
  case (2 c room fs xs)
  have u: "unat (c * fs) = unat c * unat fs" using "2.prems"(2) [of room fs] by (intro unat_mult_fits) simp
  show ?case
  proof (cases "room < c * fs")
    case True
    then have nz: "fs \<noteq> 0" and r: "clip_frames (room div fs) xs = Some c'"
      using "2.prems"(1) by (auto split: if_splits)
    have lt: "unat room < unat c * unat fs" using True u by (simp add: word_less_nat_alt)
    have d: "unat (room div fs) = unat room div unat fs" by (simp add: unat_div)
    have le: "unat (room div fs) \<le> unat c"
      unfolding d using lt by (metis div_le_mono div_mult_self_is_m less_imp_le neq0_conv mult_0_right not_less_zero)
    have b: "unat (room div fs) * unat fs' < 2 ^ 32" if "(room', fs') \<in> set xs" for room' fs'
    proof -
      have "unat (room div fs) * unat fs' \<le> unat c * unat fs'" using le by (rule mult_le_mono1)
      moreover have "unat c * unat fs' < 2 ^ 32" using "2.prems"(2) [of room' fs'] that by simp
      ultimately show ?thesis by linarith
    qed
    have ih: "unat c' \<le> unat (room div fs) \<and> (\<forall>(room, fs) \<in> set xs. unat c' * unat fs \<le> unat room)"
      by (rule "2.IH"(1) [OF True nz r]) (rule b)
    have "unat c' * unat fs \<le> unat (room div fs) * unat fs" using ih by (intro mult_le_mono1) simp
    also have "\<dots> \<le> unat room" unfolding d by (rule div_times_less_eq_dividend)
    finally show ?thesis using ih le by auto
  next
    case False
    then have r: "clip_frames c xs = Some c'" using "2.prems"(1) by simp
    note ih = "2.IH"(2) [OF False r]
    have ih': "unat c' \<le> unat c \<and> (\<forall>(room, fs) \<in> set xs. unat c' * unat fs \<le> unat room)"
      by (rule ih) (use "2.prems"(2) in auto)
    have "unat c * unat fs \<le> unat room" using False u by (simp add: word_less_nat_alt)
    moreover have "unat c' * unat fs \<le> unat c * unat fs" using ih' by (intro mult_le_mono1) simp
    ultimately have "unat c' * unat fs \<le> unat room" by linarith
    then show ?thesis using ih' by auto
  qed
qed simp

text \<open>
  mixer_copy returns the number of frames it mixed, at most a period of 48, and that many
  frames were available in every source it mixed and free in the sink, however full they are; it
  neither over-reads a source nor overruns the sink.
\<close>

theorem mixer_copy_fits:
  assumes r: "mixer_copy d w = Some (n, w')" "n \<noteq> 0"
    and fs: "\<forall>b. unat (frame_size (pcms w (b_pcm (bufs w b)))) \<le> 64"
  shows "0 < n \<and> n \<le> 48 \<and>
    (\<forall>b \<in> set (bsource_list (devs w d)). state (devs w (b_source (bufs w b))) = state (devs w d) \<longrightarrow>
       nat n * unat (frame_size (pcms w (b_pcm (bufs w b)))) \<le> unat (avail (bufs w b))) \<and>
    nat n * unat (frame_size (pcms w (b_pcm (bufs w (hd (bsink_list (devs w d))))))) \<le> unat (bfree (bufs w (hd (bsink_list (devs w d)))))"
proof -
  let ?src = "filter (\<lambda>b. state (devs w (b_source (bufs w b))) = state (devs w d)) (bsource_list (devs w d))"
  let ?fsz = "\<lambda>b. frame_size (pcms w (b_pcm (bufs w b)))"
  let ?snk = "hd (bsink_list (devs w d))"
  let ?xs = "map (\<lambda>s. (avail (bufs w s), ?fsz s)) ?src @ [(bfree (bufs w ?snk), ?fsz ?snk)]"
  obtain c where c: "clip_frames PLAT_INT_PERIOD_FRAMES ?xs = Some c" and n: "n = sint c" "c \<noteq> 0"
    using r by (auto simp: mixer_copy_def Let_def bind_eq_Some_conv first_of_def split: if_splits list.splits)
  have b: "unat PLAT_INT_PERIOD_FRAMES * unat f < 2 ^ 32" if "(room, f) \<in> set ?xs" for room f
  proof -
    have "unat f \<le> 64" using that fs by auto
    then have "48 * unat f \<le> 48 * 64" by (intro mult_le_mono2)
    then show ?thesis by (simp add: PLAT_INT_PERIOD_FRAMES_def)
  qed
  have k: "unat c \<le> unat PLAT_INT_PERIOD_FRAMES \<and> (\<forall>(room, fs) \<in> set ?xs. unat c * unat fs \<le> unat room)"
    by (rule clip_frames_ok [OF c]) (rule b)
  have c48: "unat c \<le> 48" using k by (simp add: PLAT_INT_PERIOD_FRAMES_def)
  have sc: "sint c = int (unat c)"
    using c48 by (intro sint_small32) simp
  have "0 < unat c" using n(2) by (simp add: unat_gt_0)
  then have "0 < int (unat c)" by linarith
  moreover have "int (unat c) \<le> 48" using c48 by linarith
  moreover have "nat (int (unat c)) = unat c" by (rule nat_int)
  ultimately show ?thesis using k unfolding n(1) sc by auto
qed

definition mix_demo :: mix_world where
  "mix_demo = vol_world.extend ((vol_demo 384)\<lparr>bufs := (bufs (vol_demo 384))(10 := (bufs (vol_demo 384) 10)\<lparr>b_pcm := 200\<rparr>)\<rparr>)
     \<lparr>mixers = (\<lambda>_. True)\<rparr>"

lemma mixer_copy_fits_witness:
  "\<exists>n w'. mixer_copy 1 mix_demo = Some (n, w') \<and> 0 < n \<and> n \<le> 48 \<and> nat n * 8 \<le> 192"
proof -
  have d: "devs mix_demo 1 = devs (vol_demo 384) 1" "bufs mix_demo 10 = (bufs (vol_demo 384) 10)\<lparr>b_pcm := 200\<rparr>"
    "bufs mix_demo 20 = bufs (vol_demo 384) 20" "mixers mix_demo p" "pcms mix_demo = pcms (vol_demo 384)" for p
    by (simp_all add: mix_demo_def vol_world.extend_def)
  have st: "state (devs mix_demo q) = 0" for q
    by (simp add: mix_demo_def vol_world.extend_def vol_demo_def world.extend_def empty_world_def)
  have "unat (frame_size (pcms mix_demo q)) \<le> 64" for q
    by (simp add: mix_demo_def vol_world.extend_def vol_demo_def world.extend_def empty_world_def)
  then have fs: "\<forall>b. unat (frame_size (pcms mix_demo (b_pcm (bufs mix_demo b)))) \<le> 64" by blast
  have "\<exists>w'. mixer_copy 1 mix_demo = Some (24, w')"
    by (simp add: mixer_copy_def first_of_def d st vol_demo_sel zero_buffer_def PLAT_INT_PERIOD_FRAMES_def Let_def empty_world_def)
  then show ?thesis
    using mixer_copy_fits [of 1 mix_demo 24] fs d by (auto simp: vol_demo_sel zero_buffer_def st empty_world_def)
qed

text \<open>
  every command but STOP makes the state of the mixer the highest state of its sources, and is
  passed on downstream (result 0) only when this changed it; so the mixer stays running while any
  of its sources does.
\<close>

theorem mixer_follows_sources:
  assumes "c \<in> {0, 1, 2, 3, 4, 5, 6}"
  shows "\<exists>r w'. mixer_cmd d c cv w = Some (r, w') \<and> state (devs w' d) = Max (insert COMP_STATE_INIT (set (source_states d w))) \<and>
    (r = 1 \<longleftrightarrow> state (devs w d) = Max (insert COMP_STATE_INIT (set (source_states d w)))) \<and> (r = 0 \<or> r = 1)"
proof -
  have m: "fold (\<lambda>s t. if t < s then s else t) xs t = Max (insert t (set xs))" for xs and t :: u16
  proof (induction xs arbitrary: t)
    case (Cons x xs)
    have "Max (insert t (set (x # xs))) = max t (Max (insert x (set xs)))" by (simp add: Max_insert2)
    moreover have "Max (insert (if t < x then x else t) (set xs)) = max t (Max (insert x (set xs)))"
      by (cases "xs = []") (auto simp: max_def not_less)
    ultimately show ?case using Cons by simp
  qed simp
  have r: "state (devs (comp_buffer_reset d v) d) = state (devs v d)" for v :: "'a mix_world_scheme"
  proof -
    have "devs (fold reset_one bs v) = devs v" for bs and v :: "'a mix_world_scheme"
      by (induction bs arbitrary: v) (simp_all add: reset_one_def Let_def)
    then show ?thesis by (simp add: comp_buffer_reset_def)
  qed
  show ?thesis
    using assms by (auto simp: mixer_cmd_def mixer_status_change_def Let_def m r)
qed

lemma mixer_follows_sources_witness:
  "\<exists>r w'. mixer_cmd 1 1 [] mix_demo = Some (r, w') \<and> state (devs w' 1) = Max (insert COMP_STATE_INIT (set (source_states 1 mix_demo)))"
  using mixer_follows_sources [of 1 1 "[]" mix_demo] by auto

end
