(* ===== verification/Reef_Pipeline.thy ===== *)
theory Reef_Pipeline
  imports Reef_Audio
begin

text \<open>
  The pipeline walks of src/src/audio/pipeline.c over the graph of components and buffers. A
  driver operation is called through the table \<open>t\<close>, as in component.h. The C walks recurse along
  the buffers without a bound; here each takes fuel and returns \<open>None\<close> when it runs out, as when
  a called operation does not return. \<open>Reef_Pipeline_Props\<close> proves that on an acyclic graph fuel
  above the depth is enough.

  A result is \<open>Some (err, w)\<close>: the value the C function returns and the state it leaves.
\<close>

section \<open>Pipelines and connections\<close>

record ipc_pipe_new =
  pn_pipeline_id :: u32
  pn_core :: u32
  pn_priority :: u32

record pipeline =
  pipe_id :: u32
  ipc_pipe :: ipc_pipe_new
  task_sdata :: u32

definition sizeof_pipeline :: u32 where "sizeof_pipeline = 92"

text \<open>\<open>pipeline_new\<close> over a store of pipelines: \<open>p->id\<close> keeps the zero of \<open>rzalloc\<close>.\<close>

definition pipeline_new :: "ipc_pipe_new \<Rightarrow> (u32 \<Rightarrow> pipeline) \<times> 'a world_scheme \<Rightarrow>
    (u32 \<times> (u32 \<Rightarrow> pipeline) \<times> 'a world_scheme) option" where
  "pipeline_new desc s = (case s of (ps, w) \<Rightarrow> do {
     (p, h, m) \<leftarrow> rzalloc RZONE_RUNTIME RFLAGS_NONE sizeof_pipeline (mm w, wmem w);
     let w = w\<lparr>mm := h, wmem := m\<rparr>;
     if p = 0 then Some (0, ps, w)
     else Some (p, ps(p := \<lparr>pipe_id = 0, ipc_pipe = desc, task_sdata = 0\<rparr>), w) })"

definition pipeline_free :: "u32 \<Rightarrow> 'a world_scheme \<Rightarrow> 'a world_scheme option" where
  "pipeline_free p w = do { h \<leftarrow> rfree p (mm w); Some (w\<lparr>mm := h\<rparr>) }"

definition pipeline_pipe_connect :: "u32 \<Rightarrow> u32 \<Rightarrow> u32 \<Rightarrow> 'a world_scheme \<Rightarrow> int \<times> 'a world_scheme" where
  "pipeline_pipe_connect source_cd sink_cd b w =
     (let w = upd_dev source_cd (\<lambda>c. c\<lparr>bsink_list := b # bsink_list c\<rparr>) w;
          w = upd_buf b (\<lambda>r. r\<lparr>b_source := source_cd\<rparr>) w;
          w = upd_dev sink_cd (\<lambda>c. c\<lparr>bsource_list := b # bsource_list c\<rparr>) w;
          w = upd_buf b (\<lambda>r. r\<lparr>b_sink := sink_cd\<rparr>) w;
          w = upd_buf b (\<lambda>r. r\<lparr>connected := 1\<rparr>) w
      in (0, w))"

definition pipeline_comp_connect :: "u32 \<Rightarrow> u32 \<Rightarrow> u32 \<Rightarrow> u32 \<Rightarrow> 'a world_scheme \<Rightarrow> int \<times> 'a world_scheme" where
  "pipeline_comp_connect p src snk b w =
     (let w = upd_dev src (\<lambda>c. c\<lparr>bsink_list := b # bsink_list c\<rparr>) w;
          w = upd_buf b (\<lambda>r. r\<lparr>b_source := src\<rparr>) w;
          w = upd_dev src (\<lambda>c. c\<lparr>pipeline_of := p\<rparr>) w;
          w = upd_dev snk (\<lambda>c. c\<lparr>bsource_list := b # bsource_list c\<rparr>) w;
          w = upd_buf b (\<lambda>r. r\<lparr>b_sink := snk\<rparr>) w;
          w = upd_dev snk (\<lambda>c. c\<lparr>pipeline_of := p\<rparr>) w;
          w = upd_buf b (\<lambda>r. r\<lparr>connected := 1\<rparr>) w
      in (0, w))"

section \<open>The walks\<close>

text \<open>\<open>COMP_OPS_\<close> of component.h: what a walk does at each component.\<close>

datatype op_data = Op_Params u32 | Op_Cmd int ctrl_values | Op_Prepare | Op_Reset | Op_Other

fun run_op :: "'a world_scheme ops_table \<Rightarrow> op_data \<Rightarrow> u32 \<Rightarrow> 'a world_scheme \<Rightarrow> (int \<times> 'a world_scheme) option" where
  "run_op t (Op_Params pcm) d w = comp_params t d pcm w"
| "run_op t (Op_Cmd c data) d w = comp_cmd t d c data w"
| "run_op t Op_Prepare d w = comp_prepare t d w"
| "run_op t Op_Reset d w = comp_reset t d w"
| "run_op t Op_Other d w = Some (- EINVAL, w)"

text \<open>
  A loop over a component's buffers that calls \<open>f\<close> on the neighbour \<open>nb\<close> of each buffer that
  passes the guard and breaks at a negative result. The C list macro reads the next link after
  the body; no operation changes the lists during a walk, so the list is read once.
\<close>

fun walk :: "(u32 \<Rightarrow> 'a world_scheme \<Rightarrow> bool) \<Rightarrow> (u32 \<Rightarrow> 'a world_scheme \<Rightarrow> (int \<times> 'a world_scheme) option) \<Rightarrow>
    u32 list \<Rightarrow> int \<Rightarrow> 'a world_scheme \<Rightarrow> (int \<times> 'a world_scheme) option" where
  "walk ok f [] err w = Some (err, w)"
| "walk ok f (b # bs) err w =
     (if ok b w then do {
        (err, w) \<leftarrow> f b w;
        if err < 0 then Some (err, w) else walk ok f bs err w }
      else walk ok f bs err w)"

text \<open>\<open>if (!buffer->connected) continue; if (neighbour->pipeline != start->pipeline) continue;\<close>\<close>

definition down_ok :: "u32 \<Rightarrow> u32 \<Rightarrow> 'a world_scheme \<Rightarrow> bool" where
  "down_ok start b w \<longleftrightarrow> connected (bufs w b) \<noteq> 0 \<and>
     pipeline_of (devs w (b_sink (bufs w b))) = pipeline_of (devs w start)"

definition up_ok :: "u32 \<Rightarrow> u32 \<Rightarrow> 'a world_scheme \<Rightarrow> bool" where
  "up_ok start b w \<longleftrightarrow> connected (bufs w b) \<noteq> 0 \<and>
     pipeline_of (devs w (b_source (bufs w b))) = pipeline_of (devs w start)"

definition run_down_ok :: "u32 \<Rightarrow> u32 \<Rightarrow> 'a world_scheme \<Rightarrow> bool" where
  "run_down_ok start b w \<longleftrightarrow> connected (bufs w b) \<noteq> 0 \<and> state (devs w (b_sink (bufs w b))) = COMP_STATE_RUNNING \<and>
     pipeline_of (devs w (b_sink (bufs w b))) = pipeline_of (devs w start)"

definition run_up_ok :: "u32 \<Rightarrow> u32 \<Rightarrow> 'a world_scheme \<Rightarrow> bool" where
  "run_up_ok start b w \<longleftrightarrow> connected (bufs w b) \<noteq> 0 \<and> state (devs w (b_source (bufs w b))) = COMP_STATE_RUNNING \<and>
     pipeline_of (devs w (b_source (bufs w b))) = pipeline_of (devs w start)"

fun component_preload :: "nat \<Rightarrow> 'a world_scheme ops_table \<Rightarrow> u32 \<Rightarrow> u32 \<Rightarrow> u32 \<Rightarrow> u32 \<Rightarrow> 'a world_scheme \<Rightarrow>
    (int \<times> 'a world_scheme) option" where
  "component_preload 0 t start current depth max_depth w = None"
| "component_preload (Suc n) t start current depth max_depth w =
     (if max_depth < depth then Some (0, w)
      else do {
        (err, w) \<leftarrow> comp_preload t current w;
        if err < 0 then Some (err, w)
        else if 0 < err \<or> current \<noteq> start \<and> is_endpoint (devs w current) \<noteq> 0 then Some (err, w)
        else walk (down_ok start) (\<lambda>b w. component_preload n t start (b_sink (bufs w b)) (depth + 1) max_depth w)
               (bsink_list (devs w current)) err w })"

text \<open>\<open>pipeline_depth\<close>: \<open>depth\<close> is only used inside the loop; the state does not change.\<close>

fun depth_walk :: "(u32 \<Rightarrow> int \<Rightarrow> int option) \<Rightarrow> (u32 \<Rightarrow> bool) \<Rightarrow> u32 list \<Rightarrow> int \<Rightarrow> int option" where
  "depth_walk f ok [] current = Some current"
| "depth_walk f ok (b # bs) current =
     (if ok b then do {
        depth \<leftarrow> f b (current + 1);
        depth_walk f ok bs (if current < depth then depth else current) }
      else depth_walk f ok bs current)"

fun pipeline_depth :: "nat \<Rightarrow> 'a world_scheme \<Rightarrow> u32 \<Rightarrow> int \<Rightarrow> int option" where
  "pipeline_depth 0 w d current = None"
| "pipeline_depth (Suc n) w d current =
     depth_walk (\<lambda>b c. pipeline_depth n w (b_sink (bufs w b)) c) (\<lambda>b. connected (bufs w b) \<noteq> 0)
       (bsink_list (devs w d)) current"

text \<open>
  \<open>component_op_downstream\<close>. With \<open>op_start\<close> the operation is skipped at the first component.
\<close>

fun component_op_downstream :: "nat \<Rightarrow> 'a world_scheme ops_table \<Rightarrow> op_data \<Rightarrow> u32 \<Rightarrow> u32 \<Rightarrow> bool \<Rightarrow> 'a world_scheme \<Rightarrow>
    (int \<times> 'a world_scheme) option" where
  "component_op_downstream 0 t op start current op_start w = None"
| "component_op_downstream (Suc n) t op start current op_start w =
     (let down = walk (down_ok start) (\<lambda>b w. component_op_downstream n t op start (b_sink (bufs w b)) op_start w) in
      if op_start \<and> start = current then down (bsink_list (devs w current)) 0 w
      else do {
        (err, w) \<leftarrow> run_op t op current w;
        if err < 0 then Some (err, w)
        else if 0 < err \<or> current \<noteq> start \<and> is_endpoint (devs w current) \<noteq> 0 then Some (err, w)
        else down (bsink_list (devs w current)) err w })"

text \<open>\<open>component_op_upstream\<close> differs in that it returns 0 where the walk stops.\<close>

fun component_op_upstream :: "nat \<Rightarrow> 'a world_scheme ops_table \<Rightarrow> op_data \<Rightarrow> u32 \<Rightarrow> u32 \<Rightarrow> bool \<Rightarrow> 'a world_scheme \<Rightarrow>
    (int \<times> 'a world_scheme) option" where
  "component_op_upstream 0 t op start current op_start w = None"
| "component_op_upstream (Suc n) t op start current op_start w =
     (let up = walk (up_ok start) (\<lambda>b w. component_op_upstream n t op start (b_source (bufs w b)) op_start w) in
      if op_start \<and> start = current then up (bsource_list (devs w current)) 0 w
      else do {
        (err, w) \<leftarrow> run_op t op current w;
        if err < 0 then Some (err, w)
        else if 0 < err \<or> current \<noteq> start \<and> is_endpoint (devs w current) \<noteq> 0 then Some (0, w)
        else up (bsource_list (devs w current)) err w })"

section \<open>The pipeline operations\<close>

fun preload_loop :: "nat \<Rightarrow> 'a world_scheme ops_table \<Rightarrow> u32 \<Rightarrow> nat \<Rightarrow> int \<Rightarrow> 'a world_scheme \<Rightarrow> (int \<times> 'a world_scheme) option" where
  "preload_loop n t dev 0 ret w = Some (ret, w)"
| "preload_loop n t dev (Suc i) ret w = do {
     (ret, w) \<leftarrow> component_preload n t dev dev 0 (of_nat (Suc i)) w;
     if ret < 0 then Some (ret, w) else preload_loop n t dev i ret w }"

definition pipeline_prepare :: "nat \<Rightarrow> 'a world_scheme ops_table \<Rightarrow> u32 \<Rightarrow> 'a world_scheme \<Rightarrow> (int \<times> 'a world_scheme) option" where
  "pipeline_prepare n t dev w =
     (if host_direction (comp (devs w dev)) = SOF_IPC_STREAM_PLAYBACK then do {
        (ret, w) \<leftarrow> component_op_downstream n t Op_Prepare dev dev False w;
        if ret < 0 then Some (ret, w)
        else do {
          depth \<leftarrow> pipeline_depth n w dev 0;
          preload_loop n t dev (nat depth) ret w } }
      else component_op_upstream n t Op_Prepare dev dev False w)"

text \<open>The common body of \<open>pipeline_cmd\<close>, \<open>pipeline_params\<close> and \<open>pipeline_reset\<close>.\<close>

definition up_then_down :: "nat \<Rightarrow> 'a world_scheme ops_table \<Rightarrow> op_data \<Rightarrow> u32 \<Rightarrow> 'a world_scheme \<Rightarrow> (int \<times> 'a world_scheme) option" where
  "up_then_down n t op host w = do {
     (ret, w) \<leftarrow> component_op_upstream n t op host host True w;
     if ret < 0 then Some (ret, w)
     else component_op_downstream n t op host host False w }"

definition pipeline_cmd :: "nat \<Rightarrow> 'a world_scheme ops_table \<Rightarrow> u32 \<Rightarrow> int \<Rightarrow> ctrl_values \<Rightarrow> 'a world_scheme \<Rightarrow> (int \<times> 'a world_scheme) option" where
  "pipeline_cmd n t host cmd data w = up_then_down n t (Op_Cmd cmd data) host w"

definition pipeline_params :: "nat \<Rightarrow> 'a world_scheme ops_table \<Rightarrow> u32 \<Rightarrow> u32 \<Rightarrow> 'a world_scheme \<Rightarrow> (int \<times> 'a world_scheme) option" where
  "pipeline_params n t host pcm w = up_then_down n t (Op_Params pcm) host w"

definition pipeline_reset :: "nat \<Rightarrow> 'a world_scheme ops_table \<Rightarrow> u32 \<Rightarrow> 'a world_scheme \<Rightarrow> (int \<times> 'a world_scheme) option" where
  "pipeline_reset n t host w = up_then_down n t Op_Reset host w"

fun pipeline_copy_upstream :: "nat \<Rightarrow> 'a world_scheme ops_table \<Rightarrow> u32 \<Rightarrow> u32 \<Rightarrow> bool \<Rightarrow> 'a world_scheme \<Rightarrow>
    (int \<times> 'a world_scheme) option" where
  "pipeline_copy_upstream 0 t start current copy_start w = None"
| "pipeline_copy_upstream (Suc n) t start current copy_start w = do {
     (err, w) \<leftarrow>
       (if current \<noteq> start \<and> is_endpoint (devs w current) \<noteq> 0 then Some (0, w)
        else walk (run_up_ok start) (\<lambda>b w. pipeline_copy_upstream n t start (b_source (bufs w b)) copy_start w)
               (bsource_list (devs w current)) 0 w);
     if current = start \<and> \<not> copy_start then Some (err, w) else comp_copy t current w }"

fun pipeline_copy_downstream :: "nat \<Rightarrow> 'a world_scheme ops_table \<Rightarrow> u32 \<Rightarrow> u32 \<Rightarrow> bool \<Rightarrow> 'a world_scheme \<Rightarrow>
    (int \<times> 'a world_scheme) option" where
  "pipeline_copy_downstream 0 t start current copy_start w = None"
| "pipeline_copy_downstream (Suc n) t start current copy_start w = do {
     (err, w) \<leftarrow> (if current = start \<and> \<not> copy_start then Some (0, w) else comp_copy t current w);
     if current \<noteq> start \<and> is_endpoint (devs w current) \<noteq> 0 then Some (0, w)
     else walk (run_down_ok start) (\<lambda>b w. pipeline_copy_downstream n t start (b_sink (bufs w b)) copy_start w)
            (bsink_list (devs w current)) err w }"

text \<open>\<open>pipeline_task\<close>: the results of the copies are dropped.\<close>

definition pipeline_task :: "nat \<Rightarrow> 'a world_scheme ops_table \<Rightarrow> u32 \<Rightarrow> 'a world_scheme \<Rightarrow> 'a world_scheme option" where
  "pipeline_task n t dev w = do {
     (_, w) \<leftarrow> pipeline_copy_upstream n t dev dev True w;
     (_, w) \<leftarrow> pipeline_copy_downstream n t dev dev False w;
     Some w }"


end
