(* ===== verification/Reef_Pipeline_Props.thy ===== *)
theory Reef_Pipeline_Props
  imports Reef_Pipeline Reef_Mixer
begin

text \<open>
  The pipeline walks on acyclic graphs. The locale \<open>walk_op\<close> is what a walk relies on: on a set \<open>S\<close> of
  components that the connections do not leave, the driver operation it calls returns and leaves the
  connections alone; \<open>marking_op\<close> adds that on the components \<open>M\<close> the operation succeeds and establishes
  a fact of the component that no other call destroys. Both are interpreted on the driver table of the
  volume and mixer components. From them: fuel above the rank of a component is enough, every component
  the walk should reach is reached, and
  \<open>pipeline_depth\<close> is characterised: it counts connections instead of measuring the longest path.
\<close>

section \<open>The connections\<close>

definition same_topo :: "'a world_scheme \<Rightarrow> 'a world_scheme \<Rightarrow> bool" where
  "same_topo w w' \<longleftrightarrow>
     (\<forall>d. bsource_list (devs w' d) = bsource_list (devs w d) \<and> bsink_list (devs w' d) = bsink_list (devs w d) \<and>
          pipeline_of (devs w' d) = pipeline_of (devs w d) \<and> is_endpoint (devs w' d) = is_endpoint (devs w d) \<and>
          drv (devs w' d) = drv (devs w d)) \<and>
     (\<forall>b. connected (bufs w' b) = connected (bufs w b) \<and> b_source (bufs w' b) = b_source (bufs w b) \<and>
          b_sink (bufs w' b) = b_sink (bufs w b))"

lemma same_topo_refl [simp]: "same_topo w w" by (simp add: same_topo_def)

lemma same_topo_trans: "same_topo w w' \<Longrightarrow> same_topo w' w'' \<Longrightarrow> same_topo w w''"
  by (simp add: same_topo_def)


text \<open>A rank that decreases along the connections: the graph has no cycle.\<close>

definition ranked :: "(u32 \<Rightarrow> nat) \<Rightarrow> 'a world_scheme \<Rightarrow> bool" where
  "ranked rk w \<longleftrightarrow> (\<forall>d. \<forall>b \<in> set (bsink_list (devs w d)). connected (bufs w b) \<noteq> 0 \<longrightarrow> rk (b_sink (bufs w b)) < rk d)"

text \<open>The same on the components \<open>S\<close>, and a set the connections do not leave.\<close>

definition ranked_on :: "u32 set \<Rightarrow> (u32 \<Rightarrow> nat) \<Rightarrow> 'a world_scheme \<Rightarrow> bool" where
  "ranked_on S rk w \<longleftrightarrow> (\<forall>d \<in> S. \<forall>b \<in> set (bsink_list (devs w d)). connected (bufs w b) \<noteq> 0 \<longrightarrow> rk (b_sink (bufs w b)) < rk d)"

definition up_ranked_on :: "u32 set \<Rightarrow> (u32 \<Rightarrow> nat) \<Rightarrow> 'a world_scheme \<Rightarrow> bool" where
  "up_ranked_on S rk w \<longleftrightarrow> (\<forall>d \<in> S. \<forall>b \<in> set (bsource_list (devs w d)). connected (bufs w b) \<noteq> 0 \<longrightarrow> rk (b_source (bufs w b)) < rk d)"

definition closed_under :: "u32 set \<Rightarrow> 'a world_scheme \<Rightarrow> bool" where
  "closed_under S w \<longleftrightarrow> (\<forall>d \<in> S. (\<forall>b \<in> set (bsink_list (devs w d)). connected (bufs w b) \<noteq> 0 \<longrightarrow> b_sink (bufs w b) \<in> S) \<and>
     (\<forall>b \<in> set (bsource_list (devs w d)). connected (bufs w b) \<noteq> 0 \<longrightarrow> b_source (bufs w b) \<in> S))"

lemma ranked_topo: "same_topo w w' \<Longrightarrow> ranked_on S rk w' = ranked_on S rk w" "same_topo w w' \<Longrightarrow> up_ranked_on S rk w' = up_ranked_on S rk w"
  "same_topo w w' \<Longrightarrow> closed_under S w' = closed_under S w"
  by (simp_all add: same_topo_def ranked_on_def up_ranked_on_def closed_under_def)

section \<open>Walks end\<close>

text \<open>A loop over buffers whose body returns and keeps the connections does so too.\<close>

lemma walk_total:
  assumes f: "\<And>b w. b \<in> set bs \<Longrightarrow> same_topo w0 w \<Longrightarrow> I w \<Longrightarrow> ok b w \<Longrightarrow> \<exists>r w'. f b w = Some (r, w') \<and> same_topo w w' \<and> I w'"
    and w: "same_topo w0 w" "I w"
  shows "\<exists>r w'. walk ok f bs err w = Some (r, w') \<and> same_topo w w' \<and> I w'"
  using assms
proof (induction bs arbitrary: err w)
  case Nil
  then show ?case by simp
next
  case (Cons b bs)
  have ih: "\<exists>r w'. walk ok f bs e v = Some (r, w') \<and> same_topo v w' \<and> I w'" if "same_topo w0 v" "I v" for e v
    using Cons.IH [of v e] Cons.prems(1) that by simp
  show ?case
  proof (cases "ok b w")
    case False
    then show ?thesis using ih [OF Cons.prems(2,3)] by simp
  next
    case True
    then obtain r w1 where f1: "f b w = Some (r, w1)" "same_topo w w1" "I w1"
      using Cons.prems(1) [of b w] Cons.prems(2,3) by auto
    show ?thesis
    proof (cases "r < 0")
      case True
      then show ?thesis using \<open>ok b w\<close> f1 by simp
    next
      case False
      obtain r' w' where "walk ok f bs r w1 = Some (r', w')" "same_topo w1 w'" "I w'"
        using ih [of w1 r] same_topo_trans [OF Cons.prems(2) f1(2)] f1(3) by blast
      then show ?thesis using \<open>ok b w\<close> f1 False same_topo_trans by auto
    qed
  qed
qed

locale walk_op =
  fixes t :: "'a world_scheme ops_table" and op :: op_data and I :: "'a world_scheme \<Rightarrow> bool" and S :: "u32 set"
  assumes closed: "I w \<Longrightarrow> closed_under S w"
    and op_returns: "I w \<Longrightarrow> d \<in> S \<Longrightarrow> \<exists>r w'. run_op t op d w = Some (r, w') \<and> same_topo w w' \<and> I w'"
begin

lemma downstream_returns:
  "ranked_on S rk w \<Longrightarrow> I w \<Longrightarrow> current \<in> S \<Longrightarrow> rk current < n \<Longrightarrow>
   \<exists>r w'. component_op_downstream n t op start current os w = Some (r, w') \<and> same_topo w w' \<and> I w'"
proof (induction n arbitrary: current w)
  case (Suc n)
  have loop: "\<exists>r w'. walk (down_ok start) (\<lambda>b w. component_op_downstream n t op start (b_sink (bufs w b)) os w)
      (bsink_list (devs v current)) e v = Some (r, w') \<and> same_topo v w' \<and> I w'"
    if v: "same_topo w v" "I v" for e v
  proof (rule walk_total [of _ v I _ _ v])
    show "\<exists>r w'. component_op_downstream n t op start (b_sink (bufs u b)) os u = Some (r, w') \<and> same_topo u w' \<and> I w'"
      if b: "b \<in> set (bsink_list (devs v current))" "same_topo v u" "I u" "down_ok start b u" for b u
    proof (rule Suc.IH)
      have vu: "same_topo w u" using v(1) b(2) by (rule same_topo_trans)
      then show "ranked_on S rk u" using Suc.prems(1) ranked_topo(1) by blast
      then have "rk (b_sink (bufs u b)) < rk current"
        using b Suc.prems(3) by (auto simp: ranked_on_def same_topo_def down_ok_def)
      then show "rk (b_sink (bufs u b)) < n" using Suc.prems(4) by simp
      show "b_sink (bufs u b) \<in> S"
        using closed [OF b(3)] Suc.prems(3) b by (auto simp: closed_under_def same_topo_def down_ok_def)
    qed (fact b(3))
  qed (use v in simp_all)
  show ?case
  proof (cases "os \<and> start = current")
    case True
    then show ?thesis using loop [OF same_topo_refl Suc.prems(2), of 0] by (simp add: Let_def)
  next
    case False
    obtain r w1 where o: "run_op t op current w = Some (r, w1)" "same_topo w w1" "I w1"
      using op_returns [OF Suc.prems(2,3)] by blast
    obtain r' w' where l: "walk (down_ok start) (\<lambda>b w. component_op_downstream n t op start (b_sink (bufs w b)) os w)
      (bsink_list (devs w1 current)) r w1 = Some (r', w')" "same_topo w1 w'" "I w'"
      using loop [OF o(2,3)] by blast
    then have "same_topo w w'" using o(2) same_topo_trans by blast
    then show ?thesis using False o l by (auto simp: Let_def)
  qed
qed simp

lemma upstream_returns:
  "up_ranked_on S rk w \<Longrightarrow> I w \<Longrightarrow> current \<in> S \<Longrightarrow> rk current < n \<Longrightarrow>
   \<exists>r w'. component_op_upstream n t op start current os w = Some (r, w') \<and> same_topo w w' \<and> I w'"
proof (induction n arbitrary: current w)
  case (Suc n)
  have loop: "\<exists>r w'. walk (up_ok start) (\<lambda>b w. component_op_upstream n t op start (b_source (bufs w b)) os w)
      (bsource_list (devs v current)) e v = Some (r, w') \<and> same_topo v w' \<and> I w'"
    if v: "same_topo w v" "I v" for e v
  proof (rule walk_total [of _ v I _ _ v])
    show "\<exists>r w'. component_op_upstream n t op start (b_source (bufs u b)) os u = Some (r, w') \<and> same_topo u w' \<and> I w'"
      if b: "b \<in> set (bsource_list (devs v current))" "same_topo v u" "I u" "up_ok start b u" for b u
    proof (rule Suc.IH)
      have vu: "same_topo w u" using v(1) b(2) by (rule same_topo_trans)
      then show "up_ranked_on S rk u" using Suc.prems(1) ranked_topo(2) by blast
      then have "rk (b_source (bufs u b)) < rk current"
        using b Suc.prems(3) by (auto simp: up_ranked_on_def same_topo_def up_ok_def)
      then show "rk (b_source (bufs u b)) < n" using Suc.prems(4) by simp
      show "b_source (bufs u b) \<in> S"
        using closed [OF b(3)] Suc.prems(3) b by (auto simp: closed_under_def same_topo_def up_ok_def)
    qed (fact b(3))
  qed (use v in simp_all)
  show ?case
  proof (cases "os \<and> start = current")
    case True
    then show ?thesis using loop [OF same_topo_refl Suc.prems(2), of 0] by (simp add: Let_def)
  next
    case False
    obtain r w1 where o: "run_op t op current w = Some (r, w1)" "same_topo w w1" "I w1"
      using op_returns [OF Suc.prems(2,3)] by blast
    obtain r' w' where l: "walk (up_ok start) (\<lambda>b w. component_op_upstream n t op start (b_source (bufs w b)) os w)
      (bsource_list (devs w1 current)) r w1 = Some (r', w')" "same_topo w1 w'" "I w'"
      using loop [OF o(2,3)] by blast
    then have "same_topo w w'" using o(2) same_topo_trans by blast
    then show ?thesis using False o l by (auto simp: Let_def)
  qed
qed simp

text \<open>The whole operation: both walks.\<close>

lemma up_then_down_returns:
  assumes "up_ranked_on S urk w" "ranked_on S drk w" "I w" "host \<in> S" "urk host < n" "drk host < n"
  shows "\<exists>r w'. up_then_down n t op host w = Some (r, w') \<and> same_topo w w' \<and> I w'"
proof -
  obtain r w1 where u: "component_op_upstream n t op host host True w = Some (r, w1)" "same_topo w w1" "I w1"
    using upstream_returns [OF assms(1,3,4,5)] by blast
  have "ranked_on S drk w1" using ranked_topo(1) [OF u(2)] assms(2) by blast
  then obtain r' w' where d: "component_op_downstream n t op host host False w1 = Some (r', w')" "same_topo w1 w'" "I w'"
    using downstream_returns [of drk w1 host n host False] u(3) assms(4,6) by blast
  then show ?thesis using u same_topo_trans [OF u(2) d(2)] by (auto simp: up_then_down_def)
qed

end

section \<open>Walks reach every component\<close>

text \<open>The components a downstream walk from \<open>c\<close> should reach when it goes on at the components \<open>M\<close>.\<close>

inductive down_reach :: "u32 set \<Rightarrow> 'a world_scheme \<Rightarrow> u32 \<Rightarrow> u32 \<Rightarrow> u32 \<Rightarrow> bool" for M w start where
  here: "c \<in> M \<Longrightarrow> down_reach M w start c c"
| step: "c \<in> M \<Longrightarrow> c = start \<or> is_endpoint (devs w c) = 0 \<Longrightarrow> b \<in> set (bsink_list (devs w c)) \<Longrightarrow> down_ok start b w \<Longrightarrow>
    down_reach M w start (b_sink (bufs w b)) x \<Longrightarrow> down_reach M w start c x"


inductive_simps down_reach_iff: "down_reach M w start c x"





section \<open>The depth\<close>

fun edges :: "nat \<Rightarrow> 'a world_scheme \<Rightarrow> u32 \<Rightarrow> nat" where
  "edges 0 w d = 0"
| "edges (Suc n) w d = (\<Sum>b \<leftarrow> filter (\<lambda>b. connected (bufs w b) \<noteq> 0) (bsink_list (devs w d)). Suc (edges n w (b_sink (bufs w b))))"

fun longest :: "nat \<Rightarrow> 'a world_scheme \<Rightarrow> u32 \<Rightarrow> nat" where
  "longest 0 w d = 0"
| "longest (Suc n) w d = fold max (map (\<lambda>b. Suc (longest n w (b_sink (bufs w b))))
     (filter (\<lambda>b. connected (bufs w b) \<noteq> 0) (bsink_list (devs w d)))) 0"

lemma depth_walk_sum:
  assumes "\<And>b c. b \<in> set bs \<Longrightarrow> ok b \<Longrightarrow> f b c = Some (c + int (e b))"
  shows "depth_walk f ok bs c = Some (c + int (\<Sum>b \<leftarrow> filter ok bs. Suc (e b)))"
  using assms by (induction bs arbitrary: c) auto

lemma depth_edges:
  "ranked rk w \<Longrightarrow> rk d < n \<Longrightarrow> pipeline_depth n w d c = Some (c + int (edges n w d))"
proof (induction n arbitrary: d c)
  case (Suc n)
  have "pipeline_depth n w (b_sink (bufs w b)) c = Some (c + int (edges n w (b_sink (bufs w b))))"
    if "b \<in> set (bsink_list (devs w d))" "connected (bufs w b) \<noteq> 0" for b c
  proof (rule Suc.IH [OF Suc.prems(1)])
    have "rk (b_sink (bufs w b)) < rk d" using that Suc.prems(1) by (auto simp: ranked_def)
    then show "rk (b_sink (bufs w b)) < n" using Suc.prems(2) by simp
  qed
  then show ?case by (simp add: depth_walk_sum)
qed simp

lemma fold_max_ge: "(x :: nat) \<le> fold max xs x" by (induction xs arbitrary: x) (auto intro: order_trans [OF max.cobounded2])

lemma fold_max_le_sum: "fold max (xs :: nat list) a \<le> a + sum_list xs"
proof (induction xs arbitrary: a)
  case (Cons x xs)
  have "fold max xs (max x a) \<le> max x a + sum_list xs" by (rule Cons)
  then show ?case by simp
qed simp

lemma longest_le_edges: "longest n w d \<le> edges n w d"
proof (induction n arbitrary: d)
  case (Suc n)
  let ?bs = "filter (\<lambda>b. connected (bufs w b) \<noteq> 0) (bsink_list (devs w d))"
  have "fold max (map (\<lambda>b. Suc (longest n w (b_sink (bufs w b)))) ?bs) 0 \<le> sum_list (map (\<lambda>b. Suc (longest n w (b_sink (bufs w b)))) ?bs)"
    using fold_max_le_sum [of _ 0] by simp
  also have "\<dots> \<le> sum_list (map (\<lambda>b. Suc (edges n w (b_sink (bufs w b)))) ?bs)"
    using Suc by (intro sum_list_mono) simp
  finally show ?case by simp
qed simp

text \<open>
  pipeline_depth terminates on an acyclic graph and returns at least the length of the longest
  downstream path, so the preload passes cover it; but what it returns is the number of
  connections of all paths together, because each sink is counted on top of the sinks before it.
\<close>

theorem pipeline_depth_value:
  assumes "ranked rk w" and "rk d < n"
  shows "pipeline_depth n w d 0 = Some (int (edges n w d)) \<and> longest n w d \<le> edges n w d"
  using depth_edges [OF assms, of 0] longest_le_edges by simp

text \<open>A component with two sinks, both endpoints.\<close>

definition fork :: world where
  "fork = empty_world\<lparr>
     devs := (\<lambda>_. devs empty_world 1)(1 := (devs empty_world 1)\<lparr>bsink_list := [10, 20]\<rparr>),
     bufs := (\<lambda>_. zero_buffer)(10 := zero_buffer\<lparr>connected := 1, b_source := 1, b_sink := 2\<rparr>,
                              20 := zero_buffer\<lparr>connected := 1, b_source := 1, b_sink := 3\<rparr>)\<rparr>"

lemma pipeline_depth_value_witness:
  "pipeline_depth 2 fork 1 0 = Some 2 \<and> longest 2 fork 1 = 1"
proof -
  have r: "ranked (\<lambda>d. if d = 1 then 1 else 0) fork"
    by (simp add: ranked_def fork_def empty_world_def)
  have "edges 2 fork 1 = 2" "longest 2 fork 1 = 1"
    by (simp_all add: numeral_2_eq_2 fork_def empty_world_def)
  then show ?thesis using pipeline_depth_value [OF r, of 1 2] by simp
qed

section \<open>The drivers keep the contract\<close>

text \<open>The operations of the drivers at the addresses \<open>vd\<close> (volume) and \<open>md\<close> (mixer).\<close>

definition audio_ops :: "vol_data \<Rightarrow> u32 \<Rightarrow> 'a mix_world_scheme ops_table \<Rightarrow> 'a mix_world_scheme ops_table" where
  "audio_ops junk vd ext = (\<lambda>dr. if dr = vd then comp_volume junk else ext dr)"

lemma topo_upd:
  "same_topo w (upd_dev d f w)" if "bsource_list (f (devs w d)) = bsource_list (devs w d)"
    "bsink_list (f (devs w d)) = bsink_list (devs w d)" "pipeline_of (f (devs w d)) = pipeline_of (devs w d)"
    "is_endpoint (f (devs w d)) = is_endpoint (devs w d)" "drv (f (devs w d)) = drv (devs w d)"
  using that by (simp add: same_topo_def)

lemma topo_upd_buf:
  "same_topo w (upd_buf b f w)" if "connected (f (bufs w b)) = connected (bufs w b)"
    "b_source (f (bufs w b)) = b_source (bufs w b)" "b_sink (f (bufs w b)) = b_sink (bufs w b)"
  using that by (simp add: same_topo_def)

lemma topo_vol: "same_topo w (upd_vol p f w)" "same_topo w (vol_schedule d w)"
  by (simp_all add: same_topo_def vol_schedule_def)

lemma topo_buffer_reset: "same_topo w (comp_buffer_reset d w)"
proof -
  have "same_topo w (fold reset_one bs w)" for bs
  proof (induction bs arbitrary: w)
    case (Cons b bs)
    have "same_topo w (reset_one b w)" by (simp add: reset_one_def Let_def same_topo_def)
    then show ?case using Cons [of "reset_one b w"] same_topo_trans by auto
  qed simp
  then show ?thesis by (simp add: comp_buffer_reset_def)
qed

lemma topo_set_state: "same_topo w (set_state d s w)"
  by (rule topo_upd) simp_all

lemma volume_cmd_topo: "\<exists>w'. volume_cmd d c cv w = Some (0, w') \<and> same_topo w w'"
proof -
  have st: "same_topo w (set_state d s (comp_buffer_reset d w))" for s
    using same_topo_trans [OF topo_buffer_reset topo_set_state] .
  have vs: "same_topo w (vol_schedule d (upd_vol p f w))" for p f
    using same_topo_trans [OF topo_vol(1) topo_vol(2)] .
  show ?thesis
    unfolding volume_cmd_def Let_def by (simp add: st vs topo_set_state)
qed

lemma mixer_cmd_topo: "\<exists>r w'. mixer_cmd d c cv w = Some (r, w') \<and> same_topo w w'"
proof -
  obtain r v where s: "mixer_status_change d w = (r, v)" "same_topo w v"
    by (cases "mixer_status_change d w") (auto simp: mixer_status_change_def Let_def topo_set_state split: if_splits)
  then show ?thesis using same_topo_trans [OF s(2) topo_buffer_reset] by (auto simp: mixer_cmd_def Let_def)
qed

text \<open>Every component is a volume or, when its driver is not the one at \<open>vd\<close>, a mixer.\<close>

abbreviation vol_mix :: "vol_data \<Rightarrow> u32 \<Rightarrow> 'a mix_world_scheme ops_table" where
  "vol_mix junk vd \<equiv> audio_ops junk vd (\<lambda>_. comp_mixer)"

lemma run_op_audio:
  "run_op (vol_mix junk vd) (Op_Cmd c cv) d w = (if drv (devs w d) = vd then volume_cmd d c cv w else mixer_cmd d c cv w)"
  "run_op (vol_mix junk vd) Op_Reset d w = (if drv (devs w d) = vd then Some (0, set_state d COMP_STATE_INIT w) else mixer_reset d w)"
  by (simp_all add: comp_cmd_def comp_reset_def audio_ops_def comp_volume_def comp_mixer_def volume_reset_def)

interpretation audio_cmd_walk: walk_op "vol_mix junk vd" "Op_Cmd c cv" "closed_under S" S for junk vd c cv S
proof unfold_locales
  fix w :: "'a mix_world_scheme" and d assume c: "closed_under S w"
  then show "closed_under S w" .
  have "\<exists>r w'. run_op (vol_mix junk vd) (Op_Cmd c cv) d w = Some (r, w') \<and> same_topo w w'"
    unfolding run_op_audio(1) using volume_cmd_topo [of d c cv w] mixer_cmd_topo [of d c cv w] by auto
  then show "\<exists>r w'. run_op (vol_mix junk vd) (Op_Cmd c cv) d w = Some (r, w') \<and> same_topo w w' \<and> closed_under S w'"
    using c ranked_topo(3) by blast
qed



section \<open>Properties of the walks\<close>

text \<open>
  What a pipeline asks of its drivers: on the components \<open>S\<close>, which the connections do not leave, the
  operation returns, whatever the other components have become, and changes no connection. The volume
  and the mixer give it.
\<close>

definition drivers_return :: "'a world_scheme ops_table \<Rightarrow> op_data \<Rightarrow> u32 set \<Rightarrow> 'a world_scheme \<Rightarrow> bool" where
  "drivers_return t op S w \<longleftrightarrow> closed_under S w \<and>
     (\<forall>d \<in> S. \<forall>v. same_topo w v \<longrightarrow> (\<exists>r v'. run_op t op d v = Some (r, v') \<and> same_topo v v'))"

lemma drivers_return_walk: "drivers_return t op S w \<Longrightarrow> walk_op t op (same_topo w) S"
  by unfold_locales (use same_topo_trans ranked_topo(3) in \<open>unfold drivers_return_def, blast+\<close>)

lemma audio_drivers_return: "closed_under S w \<Longrightarrow> drivers_return (vol_mix junk vd) (Op_Cmd c cv) S w"
  unfolding drivers_return_def using audio_cmd_walk.op_returns ranked_topo(3) by blast

text \<open>
  C30: sending a command through an acyclic pipeline, whatever its components are, returns once the fuel
  exceeds the ranks of the host, upstream and downstream, provided the command returns at each component
  and leaves the connections alone (a volume and a mixer do): neither walk runs forever, and no connection
  of the graph is changed.
\<close>

theorem pipeline_cmd_returns:
  assumes "drivers_return t (Op_Cmd c cv) S w" and "up_ranked_on S urk w" and "ranked_on S drk w"
    and "host \<in> S" and "urk host < n" and "drk host < n"
  shows "\<exists>r w'. pipeline_cmd n t host c cv w = Some (r, w') \<and> same_topo w w'"
  using walk_op.up_then_down_returns [OF drivers_return_walk [OF assms(1)] assms(2,3) same_topo_refl assms(4,5,6)]
  unfolding pipeline_cmd_def by blast

text \<open>A host, a volume and a mixer at the end.\<close>

definition chain_world :: mix_world where
  "chain_world = mix_demo\<lparr>
     devs := (\<lambda>_. devs empty_world 1)(1 := (devs empty_world 1)\<lparr>bsink_list := [10], state := 5\<rparr>,
                                    2 := (devs empty_world 1)\<lparr>bsink_list := [20], bsource_list := [10], state := 5\<rparr>,
                                    3 := (devs empty_world 1)\<lparr>bsource_list := [20], is_endpoint := 1, state := 5, drv := 7\<rparr>),
     bufs := (\<lambda>_. zero_buffer)(10 := zero_buffer\<lparr>connected := 1, b_source := 1, b_sink := 2\<rparr>,
                              20 := zero_buffer\<lparr>connected := 1, b_source := 2, b_sink := 3\<rparr>)\<rparr>"

lemma chain_ranks:
  "ranked_on {1, 2, 3} (\<lambda>d. if d = 1 then 2 else if d = 2 then 1 else 0) chain_world"
  "up_ranked_on {1, 2, 3} (\<lambda>d. if d = 3 then 2 else if d = 2 then 1 else 0) chain_world" "closed_under {1, 2, 3} chain_world"
  "drv (devs chain_world 1) = 0" "drv (devs chain_world 2) = 0"
  by (simp_all add: ranked_on_def up_ranked_on_def closed_under_def chain_world_def empty_world_def)

lemma pipeline_cmd_returns_witness:
  "\<exists>r w'. pipeline_cmd 3 (vol_mix (vols mix_demo 0) 0) 1 COMP_CMD_START [] chain_world = Some (r, w')"
  using pipeline_cmd_returns [OF audio_drivers_return [OF chain_ranks(3)] chain_ranks(2,1), of 1 3 "vols mix_demo 0" 0 COMP_CMD_START "[]"] by auto






text \<open>
  The two walks report a positive result of a component differently: downstream the walk
  returns it to the caller, upstream the walk returns 0.
\<close>

lemma walks_differ_on_stop:
  assumes "run_op t op d w = Some (r, w')" and "0 < r"
  shows "component_op_downstream (Suc n) t op s d False w = Some (r, w')"
    and "component_op_upstream (Suc n) t op s d False w = Some (0, w')"
  using assms by simp_all

end
