(* ===== verification/Reef_Time.thy ===== *)
theory Reef_Time
  imports Reef_Prelude
begin

text \<open>
  Time on the 32 bit counters of the DSP and the search for the item that is due next, which the
  EDF scheduler (lib/schedule.c) and the work queues (lib/work.c) share. The two C functions that
  compute the ticks from now to a later time are the same; their correctness is the locale
  \<open>due_scan\<close>, which both components interpret on their own scan loop. The clock frequencies of
  platform/baytrail/clk.c, which convert microseconds to ticks, are here too.
\<close>

section \<open>Ticks to a later time\<close>

text \<open>
  \<open>schedule_time_diff\<close> and \<open>calc_delta_ticks\<close>. Past the wrap the result is one short of the
  distance \<open>t - current\<close> on the circle, since \<open>MAX_INT\<close> is \<open>2 ^ 32 - 1\<close>.
\<close>

definition schedule_time_diff :: "u32 \<Rightarrow> u32 \<Rightarrow> u32" where
  "schedule_time_diff current pipe_time =
     (if pipe_time < current then MAX_INT - current + pipe_time else pipe_time - current)"

definition calc_delta_ticks :: "u32 \<Rightarrow> u32 \<Rightarrow> u32" where
  "calc_delta_ticks current work =
     (if work < current then MAX_INT - current + work else work - current)"

lemma delta_same: "calc_delta_ticks = schedule_time_diff"
  by (intro ext) (simp add: calc_delta_ticks_def schedule_time_diff_def)

lemma unat_time_diff:
  "unat (schedule_time_diff c t) = (if t < c then 2 ^ 32 - 1 - unat c + unat t else unat t - unat c)"
proof (cases "t < c")
  case True
  have m: "unat MAX_INT = 2 ^ 32 - 1" by (simp add: MAX_INT_def)
  have "unat (MAX_INT - c) = 2 ^ 32 - 1 - unat c"
    using m unat32_lt [of c] by (subst unat_sub) (simp_all add: word_le_nat_alt)
  then show ?thesis
    using True unat32_lt [of c] unat32_lt [of t]
    by (simp add: schedule_time_diff_def word_less_nat_alt unat_add_fits)
next
  case False
  then have le: "c \<le> t" by simp
  have "schedule_time_diff c t = t - c" using False by (simp add: schedule_time_diff_def)
  then have "unat (schedule_time_diff c t) = unat t - unat c" using unat_sub [OF le] by simp
  then show ?thesis using False by simp
qed

text \<open>Times ahead of now in the same turn of the counter are ordered as they come.\<close>

lemma time_diff_mono: "c \<le> t \<Longrightarrow> c \<le> t' \<Longrightarrow> schedule_time_diff c t \<le> schedule_time_diff c t' \<longleftrightarrow> t \<le> t'"
  by (auto simp: word_le_nat_alt unat_time_diff word_less_nat_alt)

text \<open>A time that has just passed counts as the farthest away.\<close>

lemma time_diff_overdue:
  "t < c \<Longrightarrow> c \<le> t' \<Longrightarrow> unat t' - unat c < 2 ^ 32 - 1 - unat c + unat t \<longleftrightarrow> schedule_time_diff c t' < schedule_time_diff c t"
  by (auto simp: word_le_nat_alt unat_time_diff word_less_nat_alt)

section \<open>The scan for the next item\<close>

text \<open>
  \<open>for each item: d = delta(item); if (d < best) { next = item; best = d; }\<close>, from \<open>best = MAX_INT\<close>.
\<close>

fun scan_next :: "('i \<Rightarrow> u32) \<Rightarrow> 'i list \<Rightarrow> u32 \<Rightarrow> 'i option \<Rightarrow> 'i option" where
  "scan_next delta [] best acc = acc"
| "scan_next delta (i # is) best acc =
     (if delta i < best then scan_next delta is (delta i) (Some i) else scan_next delta is best acc)"

locale due_scan =
  fixes scan :: "u32 \<Rightarrow> ('i \<Rightarrow> u32) \<Rightarrow> 'i list \<Rightarrow> 'i option" and delta :: "u32 \<Rightarrow> u32 \<Rightarrow> u32"
  assumes scan_is: "scan now due is = scan_next (\<lambda>i. delta now (due i)) is MAX_INT None"
    and delta_is: "delta = schedule_time_diff"
begin

lemma scan_acc:
  "scan_next (\<lambda>i. delta now (due i)) is best acc =
     (if \<exists>i \<in> set is. delta now (due i) < best then scan_next (\<lambda>i. delta now (due i)) is best None else acc)"
proof (induction "is" arbitrary: best acc)
  case (Cons a "is")
  let ?d = "\<lambda>i. delta now (due i)"
  show ?case
  proof (cases "?d a < best")
    case True
    have "scan_next ?d is (?d a) (Some a) = scan_next ?d is (?d a) (Some a)" ..
    then show ?thesis using True by simp
  next
    case False
    have "(\<exists>i \<in> set (a # is). ?d i < best) \<longleftrightarrow> (\<exists>i \<in> set is. ?d i < best)" using False by simp
    moreover have "scan_next ?d (a # is) best x = scan_next ?d is best x" for x using False by simp
    ultimately show ?thesis by (simp only: Cons.IH [of best acc])
  qed
qed simp

text \<open>The result is an item whose time comes first; there is none only when no item is due in time.\<close>

lemma scan_first:
  "scan_next (\<lambda>i. delta now (due i)) is best None = Some i \<Longrightarrow>
     i \<in> set is \<and> delta now (due i) < best \<and> (\<forall>j \<in> set is. delta now (due i) \<le> delta now (due j))"
proof (induction "is" arbitrary: best)
  case (Cons a "is")
  let ?d = "\<lambda>i. delta now (due i)"
  show ?case
  proof (cases "?d a < best")
    case False
    with Cons show ?thesis by force
  next
    case True
    show ?thesis
    proof (cases "\<exists>j \<in> set is. ?d j < ?d a")
      case False
      then have "i = a" using Cons.prems True scan_acc [of now due "is" "?d a" "Some a"] by simp
      then show ?thesis using True False by (auto simp: not_less)
    next
      case ex: True
      then have "scan_next ?d is (?d a) None = Some i"
        using Cons.prems True scan_acc [of now due "is" "?d a" "Some a"] by simp
      from Cons.IH [OF this] True show ?thesis by auto
    qed
  qed
qed simp

lemma scan_earliest:
  assumes "scan now due is = Some i"
  shows "i \<in> set is" "j \<in> set is \<Longrightarrow> delta now (due i) \<le> delta now (due j)"
  using scan_first [of now due "is" MAX_INT i] assms scan_is by auto

lemma scan_none: "scan now due is = None \<longleftrightarrow> (\<forall>i \<in> set is. delta now (due i) = MAX_INT)"
proof -
  have "scan_next (\<lambda>i. delta now (due i)) is best None = None \<longleftrightarrow> (\<forall>i \<in> set is. best \<le> delta now (due i))" for best
  proof (induction "is" arbitrary: best)
    case (Cons a "is")
    then show ?case
      using scan_acc [of now due "is" "delta now (due a)" "Some a"] by (auto simp: not_less)
  qed simp
  moreover have "MAX_INT \<le> x \<longleftrightarrow> x = MAX_INT" for x :: u32
  proof
    assume "MAX_INT \<le> x"
    moreover have "unat MAX_INT = 4294967295" by (simp add: MAX_INT_def)
    ultimately have "unat x = unat MAX_INT" using unat32_lt [of x] by (simp add: word_le_nat_alt)
    then show "x = MAX_INT" by (simp only: word_unat_eq_iff)
  qed simp
  ultimately show ?thesis by (simp add: scan_is)
qed

text \<open>Among items whose times are still ahead in this turn of the counter, the earliest is taken.\<close>

lemma scan_ahead:
  assumes "scan now due is = Some i" "\<forall>j \<in> set is. now \<le> due j" "j \<in> set is"
  shows "due i \<le> due j"
  using scan_earliest [OF assms(1)] assms(2,3) time_diff_mono [of now "due i" "due j"]
  unfolding delta_is by auto

end

section \<open>Clocks\<close>

record clk_data =
  clk_freq :: u32
  ticks_per_usec :: u32

record freq_table =
  ft_freq :: u32
  ft_ticks :: u32

definition CLK_CPU :: nat where "CLK_CPU = 0"
definition CLK_SSP :: nat where "CLK_SSP = 1"

definition cpu_freq :: "freq_table list" where
  "cpu_freq = map (\<lambda>(f, k). \<lparr>ft_freq = f, ft_ticks = k\<rparr>)
     [(19200000, 25), (19200000, 25), (38400000, 50), (50000000, 50), (100000000, 100),
      (200000000, 200), (267000000, 267), (343000000, 343)]"

definition ssp_freq :: "freq_table list" where
  "ssp_freq = map (\<lambda>(f, k). \<lparr>ft_freq = f, ft_ticks = k\<rparr>) [(19200000, 19), (25000000, 25)]"

fun get_freq_from :: "nat \<Rightarrow> freq_table list \<Rightarrow> u32 \<Rightarrow> nat option" where
  "get_freq_from i [] hz = None"
| "get_freq_from i (f # fs) hz = (if hz \<le> ft_freq f then Some i else get_freq_from (Suc i) fs hz)"

definition get_freq :: "freq_table list \<Rightarrow> u32 \<Rightarrow> nat" where
  "get_freq tab hz = (case get_freq_from 0 tab hz of Some i \<Rightarrow> i | None \<Rightarrow> length tab - 1)"

record clock_notify_data =
  old_freq :: u32
  old_ticks_per_usec :: u32
  new_freq :: u32

text \<open>
  \<open>clock_set_freq\<close>. \<open>err\<close> is the reply of the system controller to \<open>ipc_pmc_send_msg\<close>; the last
  component of the result are the notification data both notifier events carry, if any.
\<close>

definition clock_set_freq :: "int \<Rightarrow> nat \<Rightarrow> u32 \<Rightarrow> clk_data list \<Rightarrow> (u32 \<times> clk_data list \<times> clock_notify_data option) option" where
  "clock_set_freq err c hz clks = do {
     cd \<leftarrow> aget clks c;
     let set = (\<lambda>tab. (let f = tab ! get_freq tab hz;
                          clks' = (if err = 0 then clks[c := \<lparr>clk_freq = ft_freq f, ticks_per_usec = ft_ticks f\<rparr>] else clks)
                      in (clk_freq (clks' ! c), clks', Some \<lparr>old_freq = clk_freq cd, old_ticks_per_usec = ticks_per_usec cd, new_freq = ft_freq f\<rparr>)));
     Some (if c = CLK_CPU then set cpu_freq
           else if c = CLK_SSP then set ssp_freq
           else (clk_freq cd, clks, None)) }"

definition clock_get_freq :: "nat \<Rightarrow> clk_data list \<Rightarrow> u32 option" where
  "clock_get_freq c clks = map_option clk_freq (aget clks c)"

definition clock_us_to_ticks :: "nat \<Rightarrow> u32 \<Rightarrow> clk_data list \<Rightarrow> u32 option" where
  "clock_us_to_ticks c us clks = map_option (\<lambda>cd. ticks_per_usec cd * us) (aget clks c)"

text \<open>\<open>clock_time_elapsed\<close> with the counter reading \<open>cur\<close>; it has no default counter.\<close>

definition clock_time_elapsed :: "nat \<Rightarrow> u32 \<Rightarrow> u32 \<Rightarrow> clk_data list \<Rightarrow> u32 option" where
  "clock_time_elapsed c prev cur clks =
     (if c = CLK_CPU \<or> c = CLK_SSP then do {
        cd \<leftarrow> aget clks c;
        if ticks_per_usec cd = 0 then None
        else Some ((if prev \<le> cur then cur - prev else cur + (MAX_INT - prev)) div ticks_per_usec cd) }
      else Some 0)"

text \<open>\<open>init_platform_clocks\<close>: the default frequencies.\<close>

definition init_clocks :: "clk_data list" where
  "init_clocks = [\<lparr>clk_freq = ft_freq (cpu_freq ! 3), ticks_per_usec = ft_ticks (cpu_freq ! 3)\<rparr>,
                  \<lparr>clk_freq = ft_freq (ssp_freq ! 1), ticks_per_usec = ft_ticks (ssp_freq ! 1)\<rparr>]"

lemma get_freq_from_spec:
  "case get_freq_from k tab hz of
     Some i \<Rightarrow> k \<le> i \<and> i - k < length tab \<and> hz \<le> ft_freq (tab ! (i - k)) \<and> (\<forall>j < i - k. \<not> hz \<le> ft_freq (tab ! j))
   | None \<Rightarrow> \<forall>f \<in> set tab. \<not> hz \<le> ft_freq f"
proof (induction tab arbitrary: k)
  case (Cons f fs)
  show ?case
  proof (cases "hz \<le> ft_freq f \<or> get_freq_from (Suc k) fs hz = None")
    case True
    then show ?thesis using Cons [of "Suc k"] by auto
  next
    case False
    then obtain i where i: "get_freq_from (Suc k) fs hz = Some i" "\<not> hz \<le> ft_freq f" by auto
    with Cons [of "Suc k"] have ih: "Suc k \<le> i" "i - Suc k < length fs" "hz \<le> ft_freq (fs ! (i - Suc k))"
      "\<forall>j < i - Suc k. \<not> hz \<le> ft_freq (fs ! j)" by simp_all
    then obtain j where "i = Suc k + j" by (metis le_Suc_ex)
    then show ?thesis using i ih by (auto simp: nth_Cons split: nat.splits)
  qed
qed simp

text \<open>A sorted table's entry is the lowest that serves the request, or the last.\<close>

definition serves :: "freq_table list \<Rightarrow> u32 \<Rightarrow> freq_table \<Rightarrow> bool" where
  "serves tab hz e \<longleftrightarrow> e \<in> set tab \<and>
     (if hz \<le> ft_freq e then \<forall>g \<in> set tab. hz \<le> ft_freq g \<longrightarrow> ft_freq e \<le> ft_freq g
      else \<forall>g \<in> set tab. ft_freq g < hz \<and> ft_freq g \<le> ft_freq e)"

lemma get_freq_serves:
  assumes sorted: "sorted (map ft_freq tab)" and ne: "tab \<noteq> []"
  shows "serves tab hz (tab ! get_freq tab hz)"
proof (cases "get_freq_from 0 tab hz")
  case (Some i)
  then have i: "i < length tab" "hz \<le> ft_freq (tab ! i)" "\<forall>j < i. \<not> hz \<le> ft_freq (tab ! j)"
    using get_freq_from_spec [where k = 0 and tab = tab and hz = hz] by simp_all
  have "ft_freq (tab ! i) \<le> ft_freq g" if g: "g \<in> set tab" "hz \<le> ft_freq g" for g
  proof -
    obtain k where k: "k < length tab" "g = tab ! k" using g(1) by (auto simp: in_set_conv_nth)
    then have "i \<le> k" using i(3) g(2) by (auto simp: not_less [symmetric])
    then show ?thesis using sorted_nth_mono [OF sorted, of i k] k by simp
  qed
  then show ?thesis using i by (simp add: serves_def get_freq_def Some)
next
  case None
  then have lt: "\<forall>f \<in> set tab. \<not> hz \<le> ft_freq f"
    using get_freq_from_spec [where k = 0 and tab = tab and hz = hz] by simp
  let ?n = "length tab - 1"
  have m: "tab ! ?n \<in> set tab" using ne by simp
  have "ft_freq g \<le> ft_freq (tab ! ?n)" if "g \<in> set tab" for g
  proof -
    obtain k where k: "k < length tab" "g = tab ! k" using \<open>g \<in> set tab\<close> by (auto simp: in_set_conv_nth)
    then show ?thesis using sorted_nth_mono [OF sorted, of k ?n] by simp
  qed
  then have "serves tab hz (tab ! ?n)" using m lt unfolding serves_def by (auto simp: not_le)
  then show ?thesis by (simp add: get_freq_def None)
qed

definition table_of :: "nat \<Rightarrow> freq_table list" where
  "table_of c = (if c = CLK_CPU then cpu_freq else ssp_freq)"

text \<open>
  a frequency request that the system controller accepts sets the lowest frequency of the
  clock's table that is at least the requested one, or the highest when there is none, together
  with its ticks per microsecond; a refused request changes nothing.
\<close>

theorem clock_set_freq_ok:
  assumes "c = CLK_CPU \<or> c = CLK_SSP" and "length clks = 2"
  shows "\<exists>e f clks' nd. clock_set_freq err c hz clks = Some (f, clks', nd) \<and> serves (table_of c) hz e \<and>
    (if err = 0 then f = ft_freq e \<and> clks' = clks[c := \<lparr>clk_freq = ft_freq e, ticks_per_usec = ft_ticks e\<rparr>]
     else f = clk_freq (clks ! c) \<and> clks' = clks)"
proof -
  have "sorted (map ft_freq (table_of c))" "table_of c \<noteq> []"
    by (simp_all add: table_of_def cpu_freq_def ssp_freq_def)
  note sv = get_freq_serves [OF this, of hz]
  have c: "c < length clks" using assms by (auto simp: CLK_CPU_def CLK_SSP_def)
  have ne: "CLK_SSP \<noteq> CLK_CPU" by (simp add: CLK_CPU_def CLK_SSP_def)
  have s: "clock_set_freq err c hz clks = Some (let f = table_of c ! get_freq (table_of c) hz;
      clks' = (if err = 0 then clks[c := \<lparr>clk_freq = ft_freq f, ticks_per_usec = ft_ticks f\<rparr>] else clks)
      in (clk_freq (clks' ! c), clks', Some \<lparr>old_freq = clk_freq (clks ! c), old_ticks_per_usec = ticks_per_usec (clks ! c), new_freq = ft_freq f\<rparr>))"
    using assms(1) ne unfolding clock_set_freq_def aget_in [OF c] table_of_def Let_def by auto
  show ?thesis
    by (rule exI [of _ "table_of c ! get_freq (table_of c) hz"])
       (use sv c in \<open>simp add: s Let_def\<close>)
qed

lemma clock_set_freq_ok_witness:
  "\<exists>clks' nd. clock_set_freq 0 CLK_CPU 150000000 init_clocks = Some (200000000, clks', nd)"
proof -
  have "length init_clocks = 2" by (simp add: init_clocks_def)
  moreover have "clock_set_freq 0 CLK_CPU 150000000 init_clocks = Some (200000000,
      init_clocks[0 := \<lparr>clk_freq = 200000000, ticks_per_usec = 200\<rparr>],
      Some \<lparr>old_freq = 50000000, old_ticks_per_usec = 50, new_freq = 200000000\<rparr>)"
    by (simp add: clock_set_freq_def CLK_CPU_def init_clocks_def cpu_freq_def get_freq_def Let_def)
  ultimately show ?thesis using clock_set_freq_ok [of CLK_CPU init_clocks 0 150000000] by simp
qed

text \<open>
  Two rows of the Baytrail CPU table disagree with their own frequency: at 19.2 MHz the code
  counts 25 ticks per microsecond and at 38.4 MHz 50, so delays run 30 percent long there; every
  other row has the frequency divided by one million.
\<close>

lemma cpu_freq_rows:
  "map (\<lambda>e. (ft_freq e div 1000000, ft_ticks e)) (filter (\<lambda>e. ft_freq e div 1000000 \<noteq> ft_ticks e) cpu_freq)
     = [(19, 25), (19, 25), (38, 50)]"
  by (simp add: cpu_freq_def)

end
