(* ===== verification/Reef_Schedule.thy ===== *)
theory Reef_Schedule
  imports Reef_List Reef_Time
begin

text \<open>
  The task scheduler: src/src/lib/schedule.c, the task states of include/reef/schedule.h and the
  soft interrupts that run a task, src/src/arch/xtensa/task.c. The queue is the intrusive list of
  \<open>Reef_List\<close> in its pointer form, since one of the theorems is about what a second insertion of
  a queued task does to the links. A task is named by the address of its list item.

  A task function is called through \<open>call\<close> with the function's address and its data. Walking the
  queue takes fuel; \<open>None\<close> is a walk that does not return, or a \<open>NULL\<close> task in a handler.
\<close>

section \<open>State\<close>

datatype task_state = TASK_STATE_INIT | TASK_STATE_QUEUED | TASK_STATE_RUNNING | TASK_STATE_PREEMPTED
  | TASK_STATE_COMPLETED

record task =
  task_core :: u16
  priority :: s16
  deadline :: u32
  max_rtime :: u32
  tstate :: task_state
  tdata :: u32
  sdata :: u32
  tfunc :: u32

text \<open>
  \<open>schedule_data\<close>, the tasks it links, the raised soft interrupts and the three task slots of
  task.c, 0 for \<open>NULL\<close>.
\<close>

record sched =
  tasks :: "laddr \<Rightarrow> task"
  links :: lstore
  sch_list :: laddr
  sch_clock :: nat
  sch_clks :: "clk_data list"
  irqs :: "nat set"
  irq_low_task :: laddr
  irq_med_task :: laddr
  irq_high_task :: laddr

definition PLATFORM_SCHEDULE_IRQ :: nat where "PLATFORM_SCHEDULE_IRQ = 9"
definition PLATFORM_IRQ_TASK_HIGH :: nat where "PLATFORM_IRQ_TASK_HIGH = 8"
definition PLATFORM_IRQ_TASK_MED :: nat where "PLATFORM_IRQ_TASK_MED = 6"
definition PLATFORM_IRQ_TASK_LOW :: nat where "PLATFORM_IRQ_TASK_LOW = 3"
definition PLATFORM_SCHEDULE_COST :: u32 where "PLATFORM_SCHEDULE_COST = 200"

lemmas sched_irqs = PLATFORM_SCHEDULE_IRQ_def PLATFORM_IRQ_TASK_HIGH_def PLATFORM_IRQ_TASK_MED_def PLATFORM_IRQ_TASK_LOW_def

definition interrupt_set :: "nat \<Rightarrow> 'a sched_scheme \<Rightarrow> 'a sched_scheme" where
  "interrupt_set irq s = s\<lparr>irqs := insert irq (irqs s)\<rparr>"

definition interrupt_clear :: "nat \<Rightarrow> 'a sched_scheme \<Rightarrow> 'a sched_scheme" where
  "interrupt_clear irq s = s\<lparr>irqs := irqs s - {irq}\<rparr>"

definition upd_task :: "laddr \<Rightarrow> (task \<Rightarrow> task) \<Rightarrow> 'a sched_scheme \<Rightarrow> 'a sched_scheme" where
  "upd_task t f s = s\<lparr>tasks := (tasks s)(t := f (tasks s t))\<rparr>"

definition task_init :: "laddr \<Rightarrow> u32 \<Rightarrow> u32 \<Rightarrow> 'a sched_scheme \<Rightarrow> 'a sched_scheme" where
  "task_init t f data s = upd_task t (\<lambda>r. r\<lparr>task_core := 0, priority := 0, tstate := TASK_STATE_INIT,
     tfunc := f, tdata := data, sdata := 0\<rparr>) s"

section \<open>Running a task at its interrupt level\<close>

text \<open>\<open>TASK_PRI_HIGH\<close> is -20, \<open>TASK_PRI_MED\<close> 0, \<open>TASK_PRI_LOW\<close> 19; other priorities run as medium.\<close>

definition task_get_irq :: "task \<Rightarrow> nat" where
  "task_get_irq r =
     (let p = sint (priority r) in
      if 1 \<le> p \<and> p \<le> 19 then PLATFORM_IRQ_TASK_LOW
      else if -20 \<le> p \<and> p \<le> -1 then PLATFORM_IRQ_TASK_HIGH
      else PLATFORM_IRQ_TASK_MED)"

definition task_set_data :: "laddr \<Rightarrow> 'a sched_scheme \<Rightarrow> 'a sched_scheme" where
  "task_set_data t s =
     (let p = sint (priority (tasks s t)) in
      if 1 \<le> p \<and> p \<le> 19 then s\<lparr>irq_low_task := t\<rparr>
      else if -20 \<le> p \<and> p \<le> -1 then s\<lparr>irq_high_task := t\<rparr>
      else s\<lparr>irq_med_task := t\<rparr>)"

definition arch_run_task :: "laddr \<Rightarrow> 'a sched_scheme \<Rightarrow> 'a sched_scheme" where
  "arch_run_task t s =
     (let s = task_set_data t s in interrupt_set (task_get_irq (tasks s t)) s)"

definition schedule_task_complete :: "laddr \<Rightarrow> 'a sched_scheme \<Rightarrow> 'a sched_scheme" where
  "schedule_task_complete t s =
     upd_task t (\<lambda>r. r\<lparr>tstate := TASK_STATE_COMPLETED\<rparr>) (s\<lparr>links := list_item_del t (links s)\<rparr>)"

text \<open>
  The handlers \<open>_irq_low\<close>, \<open>_irq_med\<close> and \<open>_irq_high\<close> differ in the slot they read, once, at
  entry. \<open>irq_done\<close> is what follows the call of the task function.
\<close>

type_synonym 'w task_call = "u32 \<Rightarrow> u32 \<Rightarrow> 'w \<Rightarrow> 'w option"

definition irq_done :: "laddr \<Rightarrow> 'a sched_scheme \<Rightarrow> 'a sched_scheme" where
  "irq_done t s = (let s = schedule_task_complete t s in interrupt_clear (task_get_irq (tasks s t)) s)"

definition irq_body :: "'a sched_scheme task_call \<Rightarrow> laddr \<Rightarrow> 'a sched_scheme \<Rightarrow> 'a sched_scheme option" where
  "irq_body call t s =
     (if t = 0 then None
      else do {
        s \<leftarrow> (if tfunc (tasks s t) \<noteq> 0 then call (tfunc (tasks s t)) (tdata (tasks s t)) s else Some s);
        Some (irq_done t s) })"

definition irq_low :: "'a sched_scheme task_call \<Rightarrow> 'a sched_scheme \<Rightarrow> 'a sched_scheme option" where
  "irq_low call s = irq_body call (irq_low_task s) s"

definition irq_med :: "'a sched_scheme task_call \<Rightarrow> 'a sched_scheme \<Rightarrow> 'a sched_scheme option" where
  "irq_med call s = irq_body call (irq_med_task s) s"

definition irq_high :: "'a sched_scheme task_call \<Rightarrow> 'a sched_scheme \<Rightarrow> 'a sched_scheme option" where
  "irq_high call s = irq_body call (irq_high_task s) s"

text \<open>\<open>arch_init_tasks\<close>: which handler serves which interrupt.\<close>

definition arch_init_tasks :: "'a sched_scheme task_call \<Rightarrow> nat \<Rightarrow> ('a sched_scheme \<Rightarrow> 'a sched_scheme option) option" where
  "arch_init_tasks call = [PLATFORM_IRQ_TASK_LOW \<mapsto> irq_low call, PLATFORM_IRQ_TASK_MED \<mapsto> irq_med call,
     PLATFORM_IRQ_TASK_HIGH \<mapsto> irq_high call]"

section \<open>The scheduler\<close>

definition edf_scan :: "u32 \<Rightarrow> (laddr \<Rightarrow> u32) \<Rightarrow> laddr list \<Rightarrow> laddr option" where
  "edf_scan now due ts = scan_next (\<lambda>t. schedule_time_diff now (due t)) ts MAX_INT None"

definition edf_get_next :: "nat \<Rightarrow> u32 \<Rightarrow> 'a sched_scheme \<Rightarrow> laddr option option" where
  "edf_get_next fuel now s = do {
     ts \<leftarrow> list_for_item fuel (sch_list s) (links s);
     Some (edf_scan now (\<lambda>t. deadline (tasks s t)) ts) }"

definition schedule_edf :: "nat \<Rightarrow> u32 \<Rightarrow> 'a sched_scheme \<Rightarrow> 'a sched_scheme option" where
  "schedule_edf fuel now s = do {
     next_task \<leftarrow> edf_get_next fuel now s;
     Some (interrupt_clear PLATFORM_SCHEDULE_IRQ
       (case next_task of
          None \<Rightarrow> s
        | Some t \<Rightarrow> if tstate (tasks s t) = TASK_STATE_RUNNING then s else arch_run_task t s)) }"

definition schedule_task_del :: "laddr \<Rightarrow> 'a sched_scheme \<Rightarrow> int \<times> 'a sched_scheme" where
  "schedule_task_del t s =
     (if tstate (tasks s t) = TASK_STATE_RUNNING then (- EAGAIN, s)
      else (0, upd_task t (\<lambda>r. r\<lparr>tstate := TASK_STATE_COMPLETED\<rparr>) (s\<lparr>links := list_item_del t (links s)\<rparr>)))"

definition schedule_task :: "u32 \<Rightarrow> laddr \<Rightarrow> u32 \<Rightarrow> u16 \<Rightarrow> u32 \<Rightarrow> 'a sched_scheme \<Rightarrow> 'a sched_scheme option" where
  "schedule_task now t dl prio data s = do {
     ticks \<leftarrow> clock_us_to_ticks (sch_clock s) dl (sch_clks s);
     let time = now + ticks - PLATFORM_SCHEDULE_COST;
     let s = upd_task t (\<lambda>r. r\<lparr>deadline := time, priority := prio, sdata := data\<rparr>) s;
     let s = s\<lparr>links := list_item_prepend t (sch_list s) (links s)\<rparr>;
     Some (upd_task t (\<lambda>r. r\<lparr>tstate := TASK_STATE_QUEUED\<rparr>) s) }"

definition schedule :: "'a sched_scheme \<Rightarrow> 'a sched_scheme" where
  "schedule s = interrupt_set PLATFORM_SCHEDULE_IRQ s"

text \<open>\<open>scheduler_init\<close> with the queue head at address \<open>l\<close>.\<close>

definition scheduler_init :: "laddr \<Rightarrow> 'a sched_scheme \<Rightarrow> 'a sched_scheme" where
  "scheduler_init l s = s\<lparr>sch_list := l, links := list_init l (links s), sch_clock := CLK_SSP\<rparr>"

text \<open>
  \<open>pipeline_schedule_copy\<close> of pipeline.c, called for every DAI period; the list item of a
  pipeline's task lies 72 bytes into the pipeline.
\<close>

definition pipe_task :: "u32 \<Rightarrow> laddr" where "pipe_task p = p + 72"

definition pipeline_schedule_copy :: "u32 \<Rightarrow> u32 \<Rightarrow> u32 \<Rightarrow> u32 \<Rightarrow> u32 \<Rightarrow> 'a sched_scheme \<Rightarrow> 'a sched_scheme option" where
  "pipeline_schedule_copy now p dev dl prio s = do {
     s \<leftarrow> schedule_task now (pipe_task p) dl (ucast prio) dev s;
     Some (schedule s) }"

lemma sched_sel [simp]:
  "links (interrupt_set q s) = links s" "links (interrupt_clear q s) = links s" "links (upd_task t f s) = links s"
  "tasks (interrupt_set q s) = tasks s" "tasks (interrupt_clear q s) = tasks s"
  "tasks (upd_task t f s) = (tasks s)(t := f (tasks s t))"
  "sch_list (interrupt_set q s) = sch_list s" "sch_list (interrupt_clear q s) = sch_list s"
  "sch_list (upd_task t f s) = sch_list s"
  "irqs (upd_task t f s) = irqs s" "irqs (interrupt_set q s) = insert q (irqs s)"
  "irqs (interrupt_clear q s) = irqs s - {q}"
  by (simp_all add: interrupt_set_def interrupt_clear_def upd_task_def)

lemma slot_sel [simp]:
  "irq_low_task (interrupt_set q s) = irq_low_task s" "irq_med_task (interrupt_set q s) = irq_med_task s"
  "irq_high_task (interrupt_set q s) = irq_high_task s" "irq_low_task (interrupt_clear q s) = irq_low_task s"
  "irq_med_task (interrupt_clear q s) = irq_med_task s" "irq_high_task (interrupt_clear q s) = irq_high_task s"
  by (simp_all add: interrupt_set_def interrupt_clear_def)

lemma task_set_data_sel [simp]:
  "tasks (task_set_data t s) = tasks s" "links (task_set_data t s) = links s"
  "sch_list (task_set_data t s) = sch_list s" "irqs (task_set_data t s) = irqs s"
  by (simp_all add: task_set_data_def Let_def)

lemma arch_run_task_sel [simp]:
  "tasks (arch_run_task t s) = tasks s" "links (arch_run_task t s) = links s"
  "sch_list (arch_run_task t s) = sch_list s"
  "irqs (arch_run_task t s) = insert (task_get_irq (tasks s t)) (irqs s)"
  by (simp_all add: arch_run_task_def Let_def)

text \<open>The interrupt that a task's priority raises is served with that task in its slot.\<close>

lemma arch_run_task_served:
  "arch_init_tasks call (task_get_irq (tasks s t)) = Some f \<Longrightarrow>
     f (interrupt_clear q (arch_run_task t s)) = irq_body call t (interrupt_clear q (arch_run_task t s))"
  by (auto simp: arch_init_tasks_def task_get_irq_def sched_irqs irq_low_def irq_med_def irq_high_def
      arch_run_task_def task_set_data_def Let_def split: if_splits)

lemma task_irq_has_handler: "\<exists>f. arch_init_tasks call (task_get_irq r) = Some f"
  by (simp add: arch_init_tasks_def task_get_irq_def sched_irqs Let_def)

end
