(* ===== verification/Reef_Schedule_Props.thy ===== *)
theory Reef_Schedule_Props
  imports Reef_Schedule
begin

text \<open>
  Properties of the scheduler: which task runs, what queueing does, that a queued task must not be
  queued again, and the task states the code can reach.
\<close>

section \<open>Earliest deadline first\<close>

interpretation edf: due_scan edf_scan schedule_time_diff
  by unfold_locales (simp_all add: edf_scan_def)

text \<open>The queue holds the tasks \<open>ts\<close>, the first one queued last.\<close>

definition queued :: "'a sched_scheme \<Rightarrow> laddr list \<Rightarrow> bool" where
  "queued s ts \<longleftrightarrow> dll (links s) (sch_list s) ts \<and> (\<forall>t \<in> set ts. t \<noteq> 0 \<and> tstate (tasks s t) = TASK_STATE_QUEUED)"

abbreviation due :: "'a sched_scheme \<Rightarrow> laddr \<Rightarrow> u32" where
  "due s t \<equiv> deadline (tasks s t)"

lemma edf_get_next_queue:
  "queued s ts \<Longrightarrow> length ts < fuel \<Longrightarrow> edf_get_next fuel now s = Some (edf_scan now (due s) ts)"
  using dll_list_for_item [of "links s" "sch_list s" ts fuel] by (simp add: edf_get_next_def queued_def)

text \<open>
  C19: when some queued task is due, one scheduler interrupt followed by the task interrupt it
  raises runs exactly one task, a queued one whose deadline is next, with its function and data;
  afterwards the task is completed and off the queue, and the other tasks stay queued in order.
  The task function may do anything that leaves the queue and the tasks as they are.
\<close>

theorem edf_runs_next:
  assumes q: "queued s ts" and fuel: "length ts < fuel"
    and due: "u \<in> set ts" "schedule_time_diff now (due s u) \<noteq> MAX_INT"
    and call: "\<And>f d s. \<exists>s'. call f d s = Some s' \<and> links s' = links s \<and> sch_list s' = sch_list s \<and> tasks s' = tasks s"
  shows "\<exists>t s1 h s2. t \<in> set ts \<and> (\<forall>v \<in> set ts. schedule_time_diff now (due s t) \<le> schedule_time_diff now (due s v)) \<and>
    schedule_edf fuel now s = Some s1 \<and> task_get_irq (tasks s t) \<in> irqs s1 \<and>
    arch_init_tasks call (task_get_irq (tasks s t)) = Some h \<and> h s1 = Some s2 \<and>
    s2 = irq_done t (if tfunc (tasks s t) = 0 then s1 else the (call (tfunc (tasks s t)) (tdata (tasks s t)) s1)) \<and>
    tstate (tasks s2 t) = TASK_STATE_COMPLETED \<and> queued s2 (remove1 t ts)"
proof -
  obtain t where t: "edf_scan now (due s) ts = Some t"
    using edf.scan_none [of now "due s" ts] due by (cases "edf_scan now (due s) ts") auto
  note first = edf.scan_earliest [OF t]
  have st: "tstate (tasks s t) = TASK_STATE_QUEUED" "t \<noteq> 0" using q first(1) by (simp_all add: queued_def)
  let ?s1 = "interrupt_clear PLATFORM_SCHEDULE_IRQ (arch_run_task t s)"
  have e: "schedule_edf fuel now s = Some ?s1"
    using edf_get_next_queue [OF q fuel] t st by (simp add: schedule_edf_def)
  obtain h where h: "arch_init_tasks call (task_get_irq (tasks s t)) = Some h" using task_irq_has_handler by blast
  let ?s1' = "if tfunc (tasks s t) = 0 then ?s1 else the (call (tfunc (tasks s t)) (tdata (tasks s t)) ?s1)"
  obtain s' where s': "call (tfunc (tasks s t)) (tdata (tasks s t)) ?s1 = Some s'" "links s' = links s"
    "sch_list s' = sch_list s" "tasks s' = tasks s"
    using call [of "tfunc (tasks s t)" "tdata (tasks s t)" ?s1] by auto
  have hs: "h ?s1 = Some (irq_done t ?s1')"
    unfolding arch_run_task_served [OF h] irq_body_def using st(2) s'(1) by simp
  have fr: "links ?s1' = links s" "sch_list ?s1' = sch_list s" "tasks ?s1' = tasks s" using s' by simp_all
  obtain xs ys where ts: "ts = xs @ t # ys" "t \<notin> set xs" using split_list_first [OF first(1)] by blast
  have "dll (links s) (sch_list s) (xs @ t # ys)" using q ts by (simp add: queued_def)
  then have d: "dll (list_item_del t (links s)) (sch_list s) (xs @ ys)" "t \<notin> set (xs @ ys)"
    using dll_del by (auto simp: dll_def)
  have q2: "queued (irq_done t ?s1') (remove1 t ts)"
    using q d ts unfolding queued_def irq_done_def schedule_task_complete_def Let_def
    by (auto simp: remove1_append fr)
  have "tstate (tasks (irq_done t ?s1') t) = TASK_STATE_COMPLETED"
    by (simp add: irq_done_def schedule_task_complete_def Let_def)
  moreover have "task_get_irq (tasks s t) \<in> irqs ?s1"
    by (simp add: sched_irqs task_get_irq_def Let_def)
  ultimately show ?thesis using first e h hs q2 by blast
qed

text \<open>A scheduler with two pipeline tasks queued, and a task function that only reports.\<close>

definition demo_task :: task where
  "demo_task = \<lparr>task_core = 0, priority = -20, deadline = 0, max_rtime = 0, tstate = TASK_STATE_INIT,
     tdata = 0, sdata = 0, tfunc = 7\<rparr>"

definition idle_sched :: sched where
  "idle_sched = scheduler_init 0x100 \<lparr>tasks = (\<lambda>_. demo_task), links = (\<lambda>_. \<lparr>nxt = 0, prv = 0\<rparr>), sch_list = 0,
     sch_clock = 0, sch_clks = init_clocks, irqs = {}, irq_low_task = 0, irq_med_task = 0, irq_high_task = 0\<rparr>"

definition two_tasks :: sched where
  "two_tasks = the (schedule_task 1000 0x300 10 (-20) 0 (the (schedule_task 1000 0x200 100 (-20) 0 idle_sched)))"

lemma queue_prepend:
  assumes "queued s ts" "t \<notin> set ts" "t \<noteq> 0" "t \<noteq> sch_list s"
    and s': "schedule_task now t dl prio data s = Some s'"
  shows "queued s' (t # ts)"
proof -
  have "dll (list_item_prepend t (sch_list s) (links s)) (sch_list s) (t # ts)"
    using assms(1,2,4) by (intro dll_prepend) (simp_all add: queued_def)
  then show ?thesis using assms by (auto simp: queued_def schedule_task_def bind_eq_Some_conv)
qed

lemma idle_ticks [simp]: "clock_us_to_ticks (Suc 0) us init_clocks = Some (25 * us)"
  by (simp add: clock_us_to_ticks_def init_clocks_def ssp_freq_def)

lemma idle_sched_sel: "sch_list idle_sched = 0x100" "sch_clock idle_sched = 1" "sch_clks idle_sched = init_clocks"
  "links idle_sched = list_init 0x100 (\<lambda>_. \<lparr>nxt = 0, prv = 0\<rparr>)" "tasks idle_sched = (\<lambda>_. demo_task)"
  by (simp_all add: idle_sched_def scheduler_init_def CLK_SSP_def)

lemma schedule_task_sel:
  "schedule_task now t dl prio data s = Some s' \<Longrightarrow>
     sch_list s' = sch_list s \<and> sch_clock s' = sch_clock s \<and> sch_clks s' = sch_clks s"
  by (auto simp: schedule_task_def upd_task_def bind_eq_Some_conv)

lemma two_tasks_queued: "queued two_tasks [0x300, 0x200]" "due two_tasks 0x300 = 1050" "due two_tasks 0x200 = 3300"
  "sch_list two_tasks = 0x100" "sch_clock two_tasks = 1" "sch_clks two_tasks = init_clocks"
proof -
  obtain s where s: "schedule_task 1000 0x200 100 (-20) 0 idle_sched = Some s" "sch_list s = 0x100"
    "sch_clock s = 1" "sch_clks s = init_clocks" "due s 0x200 = 3300"
    by (simp add: schedule_task_def idle_sched_sel upd_task_def PLATFORM_SCHEDULE_COST_def)
  have "queued idle_sched []" by (simp add: queued_def idle_sched_sel dll_init)
  then have q: "queued s [0x200]" using queue_prepend [OF _ _ _ _ s(1), of "[]"] by (simp add: idle_sched_sel)
  obtain s2 where s2: "schedule_task 1000 0x300 10 (-20) 0 s = Some s2" "due s2 0x300 = 1050" "due s2 0x200 = 3300"
    using s by (simp add: schedule_task_def upd_task_def PLATFORM_SCHEDULE_COST_def)
  have "two_tasks = s2" using s s2 by (simp add: two_tasks_def)
  moreover have "queued s2 [0x300, 0x200]" using queue_prepend [OF q _ _ _ s2(1)] s(2) by simp
  ultimately show "queued two_tasks [0x300, 0x200]" "due two_tasks 0x300 = 1050" "due two_tasks 0x200 = 3300"
    "sch_list two_tasks = 0x100" "sch_clock two_tasks = 1" "sch_clks two_tasks = init_clocks"
    using s2 s schedule_task_sel [OF s2(1)] by simp_all
qed

lemma edf_runs_next_witness:
  "\<exists>t s1 h s2. t \<in> set [0x300, 0x200] \<and> schedule_edf 5 1000 two_tasks = Some s1 \<and>
    arch_init_tasks (\<lambda>f d s. Some s) (task_get_irq (tasks two_tasks t)) = Some h \<and> h s1 = Some s2 \<and>
    queued s2 (remove1 t [0x300, 0x200])"
proof -
  have "schedule_time_diff 1000 (due two_tasks 0x300) \<noteq> MAX_INT"
    by (simp add: two_tasks_queued schedule_time_diff_def MAX_INT_def)
  moreover have "0x300 \<in> set [0x300, 0x200 :: laddr]" "length [0x300, 0x200 :: laddr] < 5" by simp_all
  moreover have "\<exists>s'. (\<lambda>f d s. Some s) f d s = Some s' \<and> links s' = links s \<and> sch_list s' = sch_list s \<and> tasks s' = tasks s"
    for f d :: u32 and s :: sched by simp
  ultimately show ?thesis
    using edf_runs_next [OF two_tasks_queued(1), of 5 "0x300" 1000 "\<lambda>f d s. Some s"] by blast
qed

section \<open>Queueing\<close>

text \<open>
  scheduling a task that is not queued puts it in front of the queue as QUEUED with the given
  priority and data; its deadline is the present time plus the requested microseconds in ticks of
  the scheduler clock less the cost of scheduling, and the other tasks keep theirs.
\<close>

theorem schedule_task_queues:
  assumes q: "queued s ts" and new: "t \<notin> set ts" "t \<noteq> 0" "t \<noteq> sch_list s"
    and clk: "sch_clock s < length (sch_clks s)"
  shows "\<exists>s'. schedule_task now t dl prio data s = Some s' \<and> queued s' (t # ts) \<and>
    due s' t = now + ticks_per_usec (sch_clks s ! sch_clock s) * dl - 200 \<and>
    priority (tasks s' t) = prio \<and> sdata (tasks s' t) = data \<and> (\<forall>u. u \<noteq> t \<longrightarrow> tasks s' u = tasks s u)"
proof -
  obtain s' where s': "schedule_task now t dl prio data s = Some s'"
    using clk by (simp add: schedule_task_def clock_us_to_ticks_def)
  from queue_prepend [OF q new s'] show ?thesis
    using s' clk by (auto simp: schedule_task_def clock_us_to_ticks_def PLATFORM_SCHEDULE_COST_def bind_eq_Some_conv)
qed

lemma schedule_task_queues_witness:
  "\<exists>s'. schedule_task 2000 0x400 10 0 5 two_tasks = Some s' \<and> queued s' [0x400, 0x300, 0x200]"
proof -
  have "sch_list two_tasks = 0x100" "sch_clock two_tasks < length (sch_clks two_tasks)"
    using two_tasks_queued by (simp_all add: init_clocks_def)
  then show ?thesis
    using schedule_task_queues [OF two_tasks_queued(1), of "0x400" 2000 10 0 5] by auto
qed

section \<open>Queueing a queued task\<close>

text \<open>A walk that starts in a set closed under \<open>nxt\<close> that misses the head never ends.\<close>

lemma walk_trapped:
  assumes "p \<in> S" "l \<notin> S" "\<And>q. q \<in> S \<Longrightarrow> nxt (h q) \<in> S"
  shows "list_walk fuel nxt h l p = None"
  using assms(1)
proof (induction fuel arbitrary: p)
  case (Suc fuel)
  then have "p \<noteq> l" using assms(2) by blast
  then show ?case using Suc.IH [OF assms(3) [OF Suc.prems]] by simp
qed simp

lemma chain_nxt:
  "chain h (a # xs @ t # ys) \<Longrightarrow> q \<in> set (a # xs) \<Longrightarrow> nxt (h q) \<in> set (xs @ [t])"
proof (induction xs arbitrary: a)
  case (Cons x xs)
  then show ?case by (auto simp del: append_Cons dest!: Cons.IH [of x]) (auto)
qed simp

lemma prepend_twice_hangs:
  assumes d: "dll h l ts" and t: "t \<in> set ts"
  shows "list_for_item fuel l (list_item_prepend t l h) = None"
proof -
  obtain xs ys where ts: "ts = xs @ t # ys" "t \<notin> set xs" using split_list_first [OF t] by blast
  let ?h = "list_item_prepend t l h" and ?S = "set (xs @ [t])"
  have ch: "chain h (l # xs @ t # ys @ [l])" and l: "l \<notin> set ts" using d ts by (simp_all add: dll_def)
  have first: "nxt (h l) \<in> ?S" using chain_nxt [OF ch, of l] by simp
  have nx: "nxt (?h q) = (if q = l then t else if q = t then nxt (h l) else nxt (h q))" for q
    by (simp add: list_item_prepend_def Let_def)
  have step: "nxt (?h q) \<in> ?S" if "q \<in> ?S" for q
  proof (cases "q = t")
    case True
    then show ?thesis using first t l by (auto simp: nx)
  next
    case False
    then have "q \<in> set (l # xs)" "q \<noteq> l" using that l ts by auto
    then show ?thesis using chain_nxt [OF ch, of q] False by (simp add: nx)
  qed
  have "list_walk fuel nxt ?h l t = None"
    by (rule walk_trapped [of t ?S]) (use step l ts in auto)
  then show ?thesis by (simp add: list_for_item_def nx)
qed

text \<open>
  C40: \<open>schedule_task\<close> does not check whether the task is queued already. Scheduling a task that
  still is, as \<open>pipeline_schedule_copy\<close> does when the pipeline task of the last period has not
  finished, links the queue into a cycle that misses its head: the next \<open>schedule_edf\<close> never
  returns, however many steps it is given.
\<close>

theorem schedule_twice_hangs:
  assumes q: "queued s ts" and t: "t \<in> set ts" and clk: "sch_clock s < length (sch_clks s)"
  shows "\<exists>s'. schedule_task now t dl prio data s = Some s' \<and> (\<forall>fuel now. schedule_edf fuel now s' = None)"
proof -
  obtain s' where s': "schedule_task now t dl prio data s = Some s'"
    using clk by (simp add: schedule_task_def clock_us_to_ticks_def)
  then have l: "links s' = list_item_prepend t (sch_list s) (links s)" "sch_list s' = sch_list s"
    using clk by (auto simp: schedule_task_def clock_us_to_ticks_def)
  have "list_for_item fuel (sch_list s') (links s') = None" for fuel
    unfolding l using q t by (intro prepend_twice_hangs) (simp_all add: queued_def)
  then show ?thesis using s' by (simp add: schedule_edf_def edf_get_next_def)
qed

lemma schedule_twice_hangs_witness:
  "\<exists>s'. schedule_task 1500 0x200 100 (-20) 0 two_tasks = Some s' \<and> (\<forall>fuel now. schedule_edf fuel now s' = None)"
proof -
  have "sch_clock two_tasks < length (sch_clks two_tasks)"
    using two_tasks_queued by (simp add: init_clocks_def)
  then show ?thesis
    using schedule_twice_hangs [OF two_tasks_queued(1), of "0x200" 1500 100 "- 20" 0] by simp
qed

section \<open>Missed deadlines\<close>

lemma overdue_far:
  assumes "0 < k" "k < 2 ^ 31" "m < 2 ^ 31"
  shows "schedule_time_diff now (now + of_nat m) < schedule_time_diff now (now - of_nat k)"
proof -
  have kn: "unat (of_nat k :: u32) = k" "unat (of_nat m :: u32) = m"
    using assms by (simp_all add: unat_of_nat)
  have n: "unat now < 4294967296" by (rule unat32_lt)
  have "2 ^ 31 \<le> unat (schedule_time_diff now (now - of_nat k))"
  proof (cases "k \<le> unat now")
    case True
    then have "unat (now - of_nat k) = unat now - k"
      using unat_sub_le [of "of_nat k" now] kn by (simp add: word_le_nat_alt)
    then show ?thesis using True assms n by (simp add: unat_time_diff word_less_nat_alt)
  next
    case False
    have "unat (now - of_nat k) = 2 ^ 32 + unat now - k"
      using False kn n assms by (simp add: unat_sub_if' word_size)
    then show ?thesis using False assms n unfolding unat_time_diff word_less_nat_alt by simp presburger
  qed
  moreover have "unat (schedule_time_diff now (now + of_nat m)) < 2 ^ 31"
  proof (cases "unat now + m < 4294967296")
    case True
    then have "unat (now + of_nat m) = unat now + m" using unat_add_fits [of now "of_nat m"] kn by simp
    then show ?thesis using assms by (simp add: unat_time_diff word_less_nat_alt)
  next
    case False
    have "unat (now + of_nat m) = unat now + m - 4294967296"
      using False kn n assms by (simp add: unat_plus_if' word_size)
    then show ?thesis using False assms n unfolding unat_time_diff word_less_nat_alt by simp presburger
  qed
  ultimately show ?thesis by (simp add: word_less_nat_alt)
qed

text \<open>
  a task that has missed its deadline is not run next but last. While any task with a
  deadline still ahead (by less than half the counter's range) is queued, no task whose deadline
  has passed (by less than half the range) is chosen, however long it has been waiting.
\<close>

theorem missed_deadline_goes_last:
  assumes q: "queued s ts" and fuel: "length ts < fuel"
    and u: "u \<in> set ts" "due s u = now + of_nat m" "m < 2 ^ 31"
    and t: "due s t = now - of_nat k" "0 < k" "k < 2 ^ 31"
  shows "edf_get_next fuel now s \<noteq> Some (Some t)"
proof
  assume "edf_get_next fuel now s = Some (Some t)"
  then have "edf_scan now (due s) ts = Some t" using edf_get_next_queue [OF q fuel] by simp
  from edf.scan_earliest(2) [OF this u(1)] show False
    using overdue_far [OF t(2,3) u(3), of now] u(2) t(1) by simp
qed

lemma missed_deadline_goes_last_witness: "edf_get_next 5 1060 two_tasks \<noteq> Some (Some 0x300)"
  using missed_deadline_goes_last [OF two_tasks_queued(1), of 5 "0x200" 1060 2240 "0x300" 10] two_tasks_queued
  by simp

section \<open>Task states\<close>

text \<open>
  The scheduler as a state machine: every operation of schedule.c, schedule.h and task.c, a task
  handler split at the call of the task function so that the function's own steps come between.
\<close>

inductive sched_step :: "'a sched_scheme \<Rightarrow> 'a sched_scheme \<Rightarrow> bool" where
  step_init: "sched_step s (task_init t f data s)"
| step_queue: "schedule_task now t dl prio data s = Some s' \<Longrightarrow> sched_step s s'"
| step_edf: "schedule_edf fuel now s = Some s' \<Longrightarrow> sched_step s s'"
| step_del: "schedule_task_del t s = (r, s') \<Longrightarrow> sched_step s s'"
| step_done: "sched_step s (irq_done t s)"
| step_irq: "sched_step s (interrupt_set q s)"

inductive_cases sched_stepE: "sched_step s s'"

inductive sched_reach :: "'a sched_scheme \<Rightarrow> 'a sched_scheme \<Rightarrow> bool" for s0 where
  reach_start: "sched_reach s0 s0"
| reach_step: "sched_reach s0 s \<Longrightarrow> sched_step s s' \<Longrightarrow> sched_reach s0 s'"

definition none_running :: "'a sched_scheme \<Rightarrow> bool" where
  "none_running s \<longleftrightarrow> (\<forall>t. tstate (tasks s t) \<noteq> TASK_STATE_RUNNING)"

lemma step_none_running:
  assumes "sched_step s s'" "none_running s" shows "none_running s'"
  using assms(1)
proof (rule sched_stepE)
  fix fuel now assume "schedule_edf fuel now s = Some s'"
  then show ?thesis using assms(2)
    by (auto simp: none_running_def schedule_edf_def bind_eq_Some_conv split: option.splits)
qed (use assms(2) in \<open>auto simp: none_running_def task_init_def schedule_task_def schedule_task_del_def
  irq_done_def schedule_task_complete_def Let_def bind_eq_Some_conv split: if_splits\<close>)

text \<open>
  no sequence of scheduler operations ever puts a task into the RUNNING state, so the guards
  on it are dead: \<open>schedule_task_del\<close> never refuses with \<open>-EAGAIN\<close>, even for the task whose
  function is running, and always unlinks it.
\<close>

theorem running_never_set:
  assumes "sched_reach s0 s" and "none_running s0"
  shows "none_running s \<and> fst (schedule_task_del t s) = 0 \<and>
    links (snd (schedule_task_del t s)) = list_item_del t (links s)"
proof -
  have "none_running s" using assms by (induction rule: sched_reach.induct) (blast intro: step_none_running)+
  then show ?thesis by (simp add: none_running_def schedule_task_del_def)
qed

lemma running_never_set_witness:
  "fst (schedule_task_del 0x300 (interrupt_set PLATFORM_SCHEDULE_IRQ idle_sched)) = 0"
proof -
  have "none_running idle_sched" by (simp add: none_running_def idle_sched_sel demo_task_def)
  moreover have "sched_reach idle_sched (interrupt_set PLATFORM_SCHEDULE_IRQ idle_sched)"
    by (rule reach_step [OF reach_start step_irq])
  ultimately show ?thesis using running_never_set by blast
qed

end
