(* ===== verification/Reef_Work.thy ===== *)
theory Reef_Work
  imports Reef_List Reef_Time
begin

text \<open>
  The delayed work queues of src/src/lib/work.c and the notifiers of src/src/lib/notifier.c that
  tell them of clock changes. The queue is the intrusive list in its pointer form, since work
  items are unlinked while the list is walked and callbacks queue further work.

  The timer is an arbitrary sequence of readings, one consumed by each \<open>work_get_timer\<close>. A work
  function is called through \<open>cb\<close>, with its address, its data, the delay and the queue; it returns
  the microseconds to its next run and the queue it leaves. \<open>None\<close> is a walk or loop out of fuel, or a
  division by zero.
\<close>

section \<open>State\<close>

record work =
  w_cb :: u32
  w_cb_data :: u32
  w_timeout :: u32
  w_pending :: bool
  w_sync :: bool

text \<open>
  A \<open>work_queue\<close> with its time source: \<open>wq_clk\<close> and \<open>wq_clks\<close> are the clock it counts, \<open>reading\<close>
  the timer's readings and \<open>tick\<close> how many were consumed, \<open>armed\<close> the value the timer was last set
  to while it is enabled.
\<close>

record work_queue =
  works :: "laddr \<Rightarrow> work"
  wlinks :: lstore
  work_list :: laddr
  q_timeout :: u32
  window_size :: u32
  q_ticks :: u32
  run_ticks :: u32
  wq_clk :: nat
  wq_clks :: "clk_data list"
  reading :: "nat \<Rightarrow> u32"
  tick :: nat
  armed :: "u32 option"

type_synonym work_call = "u32 \<Rightarrow> u32 \<Rightarrow> u32 \<Rightarrow> work_queue \<Rightarrow> (u32 \<times> work_queue) option"

definition PLATFORM_WORKQ_WINDOW :: u32 where "PLATFORM_WORKQ_WINDOW = 2000"

definition upd_work :: "laddr \<Rightarrow> (work \<Rightarrow> work) \<Rightarrow> work_queue \<Rightarrow> work_queue" where
  "upd_work w f q = q\<lparr>works := (works q)(w := f (works q w))\<rparr>"

definition work_init :: "laddr \<Rightarrow> u32 \<Rightarrow> u32 \<Rightarrow> bool \<Rightarrow> work_queue \<Rightarrow> work_queue" where
  "work_init w f d sync q = upd_work w (\<lambda>r. r\<lparr>w_cb := f, w_cb_data := d, w_sync := sync\<rparr>) q"

definition work_set_timer :: "u32 \<Rightarrow> work_queue \<Rightarrow> work_queue" where
  "work_set_timer ticks q = q\<lparr>armed := Some ticks\<rparr>"

definition work_clear_timer :: "work_queue \<Rightarrow> work_queue" where
  "work_clear_timer q = q\<lparr>armed := None\<rparr>"

definition work_get_timer :: "work_queue \<Rightarrow> u32 \<times> work_queue" where
  "work_get_timer q = (reading q (tick q), q\<lparr>tick := Suc (tick q)\<rparr>)"

section \<open>Pending work\<close>

definition in_window :: "u32 \<Rightarrow> u32 \<Rightarrow> u32 \<Rightarrow> bool" where
  "in_window win_start win_end t =
     (if win_start < win_end then win_start \<le> t \<and> t \<le> win_end
      else t \<le> win_end \<or> (win_start \<le> t \<and> t < MAX_INT))"

fun mark_pending :: "u32 \<Rightarrow> u32 \<Rightarrow> laddr list \<Rightarrow> nat \<Rightarrow> work_queue \<Rightarrow> nat \<times> work_queue" where
  "mark_pending win_start win_end [] pending_count q = (pending_count, q)"
| "mark_pending win_start win_end (w # ws) pending_count q =
     (if in_window win_start win_end (w_timeout (works q w))
      then mark_pending win_start win_end ws (Suc pending_count) (upd_work w (\<lambda>r. r\<lparr>w_pending := True\<rparr>) q)
      else mark_pending win_start win_end ws pending_count (upd_work w (\<lambda>r. r\<lparr>w_pending := False\<rparr>) q))"

definition is_work_pending :: "nat \<Rightarrow> work_queue \<Rightarrow> (nat \<times> work_queue) option" where
  "is_work_pending fuel q =
     (let (win_end, q) = work_get_timer q;
          win_start = win_end - window_size q
      in do {
        ws \<leftarrow> list_for_item fuel (work_list q) (wlinks q);
        Some (mark_pending win_start win_end ws 0 q) })"

definition work_next_timeout :: "laddr \<Rightarrow> u32 \<Rightarrow> work_queue \<Rightarrow> work_queue" where
  "work_next_timeout w reschedule_usecs q =
     (if w_sync (works q w)
      then upd_work w (\<lambda>r. r\<lparr>w_timeout := w_timeout r + q_ticks q * reschedule_usecs\<rparr>) q
      else upd_work w (\<lambda>r. r\<lparr>w_timeout := q_ticks q * reschedule_usecs + run_ticks q\<rparr>) q)"

definition run_one :: "work_call \<Rightarrow> laddr \<Rightarrow> work_queue \<Rightarrow> work_queue option" where
  "run_one cb w q =
     (if w_pending (works q w) then
        (let (now, q) = work_get_timer q in
         if q_ticks q = 0 then None
         else do {
           (reschedule_usecs, q) \<leftarrow> cb (w_cb (works q w)) (w_cb_data (works q w))
             ((now - w_timeout (works q w)) div q_ticks q) q;
           Some (if reschedule_usecs = 0 then q\<lparr>wlinks := list_item_del w (wlinks q)\<rparr>
                 else work_next_timeout w reschedule_usecs q) })
      else Some q)"

text \<open>\<open>list_for_item_safe(wlist, tlist, &queue->work)\<close>: the next item is read before the body runs.\<close>

fun run_loop :: "nat \<Rightarrow> work_call \<Rightarrow> laddr \<Rightarrow> laddr \<Rightarrow> work_queue \<Rightarrow> work_queue option" where
  "run_loop 0 cb wlist tlist q = None"
| "run_loop (Suc n) cb wlist tlist q =
     (if wlist = work_list q then Some q
      else do {
        q \<leftarrow> run_one cb wlist q;
        run_loop n cb tlist (nxt (wlinks q tlist)) q })"

definition run_work :: "nat \<Rightarrow> work_call \<Rightarrow> work_queue \<Rightarrow> work_queue option" where
  "run_work fuel cb q =
     (let wlist = nxt (wlinks q (work_list q)) in run_loop fuel cb wlist (nxt (wlinks q wlist)) q)"

section \<open>The next timeout\<close>

text \<open>The loop of \<open>queue_get_next_timeout\<close> with its variables \<open>ticks\<close> and \<open>delta\<close>.\<close>

fun next_timeout_loop :: "u32 \<Rightarrow> (laddr \<Rightarrow> u32) \<Rightarrow> laddr list \<Rightarrow> u32 \<Rightarrow> u32 \<Rightarrow> u32" where
  "next_timeout_loop current due [] ticks delta = ticks"
| "next_timeout_loop current due (w # ws) ticks delta =
     (let d = calc_delta_ticks current (due w) in
      if d < delta then next_timeout_loop current due ws (due w) d
      else next_timeout_loop current due ws ticks delta)"

definition queue_get_next_timeout :: "nat \<Rightarrow> work_queue \<Rightarrow> work_queue option" where
  "queue_get_next_timeout fuel q =
     (if list_is_empty (work_list q) (wlinks q) then Some (q\<lparr>q_timeout := 0\<rparr>)
      else
        (let (current, q) = work_get_timer q in do {
           ws \<leftarrow> list_for_item fuel (work_list q) (wlinks q);
           Some (q\<lparr>q_timeout := next_timeout_loop current (\<lambda>w. w_timeout (works q w)) ws current MAX_INT\<rparr>) }))"

definition queue_recalc_timers :: "nat \<Rightarrow> clock_notify_data \<Rightarrow> work_queue \<Rightarrow> work_queue option" where
  "queue_recalc_timers fuel clk q =
     (let (current, q) = work_get_timer q in do {
        ws \<leftarrow> list_for_item fuel (work_list q) (wlinks q);
        if old_ticks_per_usec clk = 0 \<and> ws \<noteq> [] then None
        else Some (fold (\<lambda>w q.
          (let delta_usecs = calc_delta_ticks current (w_timeout (works q w)) div old_ticks_per_usec clk
           in upd_work w (\<lambda>r. r\<lparr>w_timeout :=
                (if 0 < delta_usecs then current + q_ticks q * delta_usecs
                 else current + drop_bit 3 (q_ticks q))\<rparr>) q)) ws q) })"

definition queue_reschedule :: "nat \<Rightarrow> work_queue \<Rightarrow> work_queue option" where
  "queue_reschedule fuel q = do {
     q \<leftarrow> queue_get_next_timeout fuel q;
     Some (if q_timeout q \<noteq> 0 then work_set_timer (q_timeout q) q else q) }"

fun pending_loop :: "nat \<Rightarrow> nat \<Rightarrow> work_call \<Rightarrow> work_queue \<Rightarrow> work_queue option" where
  "pending_loop 0 fuel cb q = None"
| "pending_loop (Suc n) fuel cb q = do {
     (pending_count, q) \<leftarrow> is_work_pending fuel q;
     if pending_count = 0 then Some q
     else do { q \<leftarrow> run_work fuel cb q; pending_loop n fuel cb q } }"

definition queue_run :: "nat \<Rightarrow> nat \<Rightarrow> work_call \<Rightarrow> work_queue \<Rightarrow> work_queue option" where
  "queue_run n fuel cb q =
     (let q = work_clear_timer q;
          (now, q) = work_get_timer q;
          q = q\<lparr>run_ticks := now\<rparr>
      in do { q \<leftarrow> pending_loop n fuel cb q; queue_reschedule fuel q })"

section \<open>The queue's interface\<close>

datatype clock_notify = CLOCK_NOTIFY_PRE | CLOCK_NOTIFY_POST

definition work_notify :: "nat \<Rightarrow> clock_notify \<Rightarrow> clock_notify_data \<Rightarrow> work_queue \<Rightarrow> work_queue option" where
  "work_notify fuel message clk q =
     (if message = CLOCK_NOTIFY_POST then do {
        ticks \<leftarrow> clock_us_to_ticks (wq_clk q) 1 (wq_clks q);
        q \<leftarrow> queue_recalc_timers fuel clk (q\<lparr>q_ticks := ticks, window_size := ticks * PLATFORM_WORKQ_WINDOW\<rparr>);
        queue_reschedule fuel q }
      else Some q)"

definition work_schedule :: "nat \<Rightarrow> laddr \<Rightarrow> u32 \<Rightarrow> work_queue \<Rightarrow> work_queue option" where
  "work_schedule fuel w timeout q = do {
     ws \<leftarrow> list_for_item fuel (work_list q) (wlinks q);
     if w \<in> set ws then Some q
     else
       (let (now, q) = work_get_timer q;
            q = upd_work w (\<lambda>r. r\<lparr>w_timeout := q_ticks q * timeout + now\<rparr>) q;
            q = q\<lparr>wlinks := list_item_prepend w (work_list q) (wlinks q)\<rparr>
        in queue_reschedule fuel q) }"

definition work_cancel :: "nat \<Rightarrow> laddr \<Rightarrow> work_queue \<Rightarrow> work_queue option" where
  "work_cancel fuel w q =
     (let q = q\<lparr>wlinks := list_item_del w (wlinks q)\<rparr> in queue_reschedule fuel q)"

text \<open>
  \<open>work_schedule_default\<close> and \<open>work_cancel_default\<close> have the same bodies on the system queue
  \<open>queue_\<close>, which a state of several queues keeps under the address \<open>sysq\<close>.
\<close>

definition work_schedule_default :: "nat \<Rightarrow> u32 \<Rightarrow> laddr \<Rightarrow> u32 \<Rightarrow> (u32 \<Rightarrow> work_queue) \<Rightarrow> (u32 \<Rightarrow> work_queue) option" where
  "work_schedule_default fuel sysq w timeout qs = do {
     q \<leftarrow> work_schedule fuel w timeout (qs sysq);
     Some (qs(sysq := q)) }"

definition work_cancel_default :: "nat \<Rightarrow> u32 \<Rightarrow> laddr \<Rightarrow> (u32 \<Rightarrow> work_queue) \<Rightarrow> (u32 \<Rightarrow> work_queue) option" where
  "work_cancel_default fuel sysq w qs = do {
     q \<leftarrow> work_cancel fuel w (qs sysq);
     Some (qs(sysq := q)) }"

text \<open>
  \<open>work_new_queue\<close> at a queue whose list head is at \<open>l\<close>; \<open>rmalloc\<close> leaves the other fields as the
  memory has them. Registering the notifier and the timer handler is the caller's wiring.
\<close>

definition work_new_queue :: "laddr \<Rightarrow> nat \<Rightarrow> work_queue \<Rightarrow> work_queue option" where
  "work_new_queue l clk q = do {
     ticks \<leftarrow> clock_us_to_ticks clk 1 (wq_clks q);
     Some (q\<lparr>work_list := l, wlinks := list_init l (wlinks q), wq_clk := clk, q_ticks := ticks,
             window_size := ticks * PLATFORM_WORKQ_WINDOW\<rparr>) }"

section \<open>Notifiers\<close>

record notifier =
  n_id :: u32
  n_cb :: u32
  n_cb_data :: u32

record notify =
  notifiers :: "laddr \<Rightarrow> notifier"
  n_links :: lstore
  n_list :: laddr

definition init_system_notify :: "notify \<Rightarrow> notify" where
  "init_system_notify s = s\<lparr>n_links := list_init (n_list s) (n_links s)\<rparr>"

definition notifier_register :: "laddr \<Rightarrow> notify \<Rightarrow> notify" where
  "notifier_register n s = s\<lparr>n_links := list_item_prepend n (n_list s) (n_links s)\<rparr>"

definition notifier_unregister :: "laddr \<Rightarrow> notify \<Rightarrow> notify" where
  "notifier_unregister n s = s\<lparr>n_links := list_item_del n (n_links s)\<rparr>"

text \<open>A client is called with the message, its data and the event data; it changes the state \<open>'w\<close>.\<close>

fun notify_each :: "('m \<Rightarrow> u32 \<Rightarrow> 'e \<Rightarrow> u32 \<Rightarrow> 'w \<Rightarrow> 'w option) \<Rightarrow> (laddr \<Rightarrow> notifier) \<Rightarrow> u32 \<Rightarrow> 'm \<Rightarrow> 'e \<Rightarrow>
    laddr list \<Rightarrow> 'w \<Rightarrow> 'w option" where
  "notify_each call ns i m e [] w = Some w"
| "notify_each call ns i m e (n # rest) w =
     (if n_id (ns n) = i then do { w \<leftarrow> call m (n_cb_data (ns n)) e (n_cb (ns n)) w; notify_each call ns i m e rest w }
      else notify_each call ns i m e rest w)"

definition notifier_event :: "nat \<Rightarrow> ('m \<Rightarrow> u32 \<Rightarrow> 'e \<Rightarrow> u32 \<Rightarrow> 'w \<Rightarrow> 'w option) \<Rightarrow> u32 \<Rightarrow> 'm \<Rightarrow> 'e \<Rightarrow>
    notify \<Rightarrow> 'w \<Rightarrow> 'w option" where
  "notifier_event fuel call i m e s w =
     (if list_is_empty (n_list s) (n_links s) then Some w
      else do {
        ns \<leftarrow> list_for_item fuel (n_list s) (n_links s);
        notify_each call (notifiers s) i m e ns w })"

end
