(* ===== verification/Reef_Work_Props.thy ===== *)
theory Reef_Work_Props
  imports Reef_Work
begin

text \<open>
  Properties of the work queues: which items a run finds pending, what the timer is armed for,
  queueing and cancelling, one pass over the pending items, and the delivery of notifications.
\<close>

lemma work_sel [simp]:
  "works (upd_work w f q) = (works q)(w := f (works q w))" "wlinks (upd_work w f q) = wlinks q"
  "work_list (upd_work w f q) = work_list q" "q_ticks (upd_work w f q) = q_ticks q"
  "run_ticks (upd_work w f q) = run_ticks q" "window_size (upd_work w f q) = window_size q"
  "reading (upd_work w f q) = reading q" "tick (upd_work w f q) = tick q" "armed (upd_work w f q) = armed q"
  "q_timeout (upd_work w f q) = q_timeout q"
  by (simp_all add: upd_work_def)

definition holds_work :: "work_queue \<Rightarrow> laddr list \<Rightarrow> bool" where
  "holds_work q ws \<longleftrightarrow> dll (wlinks q) (work_list q) ws"

lemma holds_walk: "holds_work q ws \<Longrightarrow> length ws < fuel \<Longrightarrow> list_for_item fuel (work_list q) (wlinks q) = Some ws"
  by (simp add: holds_work_def dll_list_for_item)

section \<open>Pending work\<close>

text \<open>The window \<open>[now - size, now]\<close> on the circle of counter values.\<close>

lemma in_window_iff:
  assumes "sz \<noteq> 0"
  shows "in_window (now - sz) now t \<longleftrightarrow> now - t \<le> sz \<and> \<not> (now < sz \<and> t = MAX_INT)"
proof -
  have n: "unat now < 4294967296" "unat sz < 4294967296" "unat t < 4294967296" by (rule unat32_lt)+
  have sz: "0 < unat sz" using assms by (simp add: unat_gt_0)
  have mx: "unat MAX_INT = 4294967295" by (simp add: MAX_INT_def)
  have tm: "t = MAX_INT \<longleftrightarrow> unat t = 4294967295" by (simp add: word_unat_eq_iff mx)
  have st: "unat (now - sz) = (if sz \<le> now then unat now - unat sz else unat now + 4294967296 - unat sz)"
    using n by (simp add: unat_sub_if' word_size word_le_nat_alt)
  have nt: "unat (now - t) = (if t \<le> now then unat now - unat t else unat now + 4294967296 - unat t)"
    using n by (simp add: unat_sub_if' word_size word_le_nat_alt)
  show ?thesis
    unfolding in_window_def tm word_less_nat_alt word_le_nat_alt st nt mx
    using n sz by (cases "unat sz \<le> unat now"; cases "unat t \<le> unat now"; simp; arith)
qed

lemma mark_pending_spec:
  "distinct ws \<Longrightarrow> mark_pending a b ws c q = (n, q') \<Longrightarrow>
     n = c + length (filter (\<lambda>w. in_window a b (w_timeout (works q w))) ws) \<and>
     (\<forall>w. works q' w = (if w \<in> set ws then (works q w)\<lparr>w_pending := in_window a b (w_timeout (works q w))\<rparr> else works q w)) \<and>
     wlinks q' = wlinks q \<and> work_list q' = work_list q"
proof (induction ws arbitrary: c q)
  case (Cons w ws)
  let ?p = "in_window a b (w_timeout (works q w))"
  let ?q = "upd_work w (\<lambda>r. r\<lparr>w_pending := ?p\<rparr>) q"
  have "mark_pending a b ws (c + of_bool ?p) ?q = (n, q')"
    using Cons.prems(2) by (cases ?p) simp_all
  from Cons.IH [OF _ this] Cons.prems(1) have ih:
    "n = c + of_bool ?p + length (filter (\<lambda>v. in_window a b (w_timeout (works ?q v))) ws)"
    "\<forall>v. works q' v = (if v \<in> set ws then (works ?q v)\<lparr>w_pending := in_window a b (w_timeout (works ?q v))\<rparr> else works ?q v)"
    "wlinks q' = wlinks q" "work_list q' = work_list q" by simp_all
  have "filter (\<lambda>v. in_window a b (w_timeout (works ?q v))) ws = filter (\<lambda>v. in_window a b (w_timeout (works q v))) ws"
    by (rule filter_cong) (use Cons.prems(1) in auto)
  then have "n = c + length (filter (\<lambda>v. in_window a b (w_timeout (works q v))) (w # ws))"
    using ih(1) by simp
  moreover have "works q' v = (if v \<in> set (w # ws)
      then (works q v)\<lparr>w_pending := in_window a b (w_timeout (works q v))\<rparr> else works q v)" for v
    using ih(2) Cons.prems(1) by (cases "v = w") simp_all
  ultimately show ?case using ih(3,4) by blast
qed simp

text \<open>
  an item is found pending exactly when its timeout lies at most a window back from the
  timer's reading, across the wrap of the counter too, and the count is the number of such items.
  One timeout is missed: \<open>MAX_INT\<close>, while the window reaches back across the wrap.
\<close>

theorem pending_iff_due:
  assumes q: "holds_work q ws" and fuel: "length ws < fuel" and sz: "window_size q \<noteq> 0"
  shows "\<exists>n q'. is_work_pending fuel q = Some (n, q') \<and> holds_work q' ws \<and>
    (\<forall>w \<in> set ws. w_pending (works q' w) \<longleftrightarrow>
       reading q (tick q) - w_timeout (works q w) \<le> window_size q \<and>
       \<not> (reading q (tick q) < window_size q \<and> w_timeout (works q w) = MAX_INT)) \<and>
    n = length (filter (\<lambda>w. w_pending (works q' w)) ws)"
proof -
  let ?now = "reading q (tick q)" and ?q = "q\<lparr>tick := Suc (tick q)\<rparr>"
  obtain n q' where m: "mark_pending (?now - window_size q) ?now ws 0 ?q = (n, q')" by fastforce
  have d: "distinct ws" using q by (simp add: holds_work_def dll_def)
  note sp = mark_pending_spec [OF d m]
  have "is_work_pending fuel q = Some (n, q')"
    using holds_walk [OF q fuel] m by (simp add: is_work_pending_def work_get_timer_def)
  moreover have "filter (\<lambda>w. in_window (?now - window_size q) ?now (w_timeout (works q w))) ws
      = filter (\<lambda>w. w_pending (works q' w)) ws"
    by (rule filter_cong) (use sp in simp_all)
  ultimately show ?thesis
    using sp q in_window_iff [OF sz] by (simp add: holds_work_def)
qed

section \<open>The next timeout\<close>

definition next_item :: "u32 \<Rightarrow> (laddr \<Rightarrow> u32) \<Rightarrow> laddr list \<Rightarrow> laddr option" where
  "next_item now due ws = scan_next (\<lambda>w. calc_delta_ticks now (due w)) ws MAX_INT None"

interpretation wq: due_scan next_item calc_delta_ticks
  by unfold_locales (simp_all add: next_item_def delta_same)

lemma next_timeout_loop_scan:
  "next_timeout_loop now due ws (case acc of None \<Rightarrow> now | Some w \<Rightarrow> due w) best =
     (case scan_next (\<lambda>w. calc_delta_ticks now (due w)) ws best acc of None \<Rightarrow> now | Some w \<Rightarrow> due w)"
proof (induction ws arbitrary: best acc)
  case (Cons w ws)
  show ?case
    using Cons.IH [of "Some w" "calc_delta_ticks now (due w)"] Cons.IH [of acc best] by (simp add: Let_def)
qed simp

lemma next_timeout_is:
  "next_timeout_loop now due ws now MAX_INT = (case next_item now due ws of None \<Rightarrow> now | Some w \<Rightarrow> due w)"
  using next_timeout_loop_scan [of now due ws None MAX_INT] by (simp add: next_item_def)

text \<open>
  On a queue that holds work, rescheduling arms the timer for the item that is due next after the
  timer's reading; an item whose timeout is 0 leaves the timer as it was.
\<close>

lemma queue_reschedule_next:
  assumes q: "holds_work q ws" and ne: "ws \<noteq> []" and fuel: "length ws < fuel"
  shows "\<exists>q' t. queue_reschedule fuel q = Some q' \<and> holds_work q' ws \<and> works q' = works q \<and> q_timeout q' = t \<and>
    armed q' = (if t = 0 then armed q else Some t) \<and>
    (t = reading q (tick q) \<and> (\<forall>w \<in> set ws. calc_delta_ticks (reading q (tick q)) (w_timeout (works q w)) = MAX_INT) \<or>
     (\<exists>w \<in> set ws. t = w_timeout (works q w) \<and> (\<forall>v \<in> set ws.
        calc_delta_ticks (reading q (tick q)) t \<le> calc_delta_ticks (reading q (tick q)) (w_timeout (works q v)))))"
proof -
  let ?now = "reading q (tick q)" and ?due = "\<lambda>w. w_timeout (works q w)"
  let ?t = "next_timeout_loop ?now ?due ws ?now MAX_INT"
  let ?q = "q\<lparr>tick := Suc (tick q), q_timeout := ?t\<rparr>"
  have ne': "\<not> list_is_empty (work_list q) (wlinks q)"
    using q ne dll_is_empty by (simp add: holds_work_def)
  have g: "queue_get_next_timeout fuel q = Some ?q"
    using holds_walk [OF q fuel] ne' by (simp add: queue_get_next_timeout_def work_get_timer_def)
  have "?t = ?now \<and> (\<forall>w \<in> set ws. calc_delta_ticks ?now (?due w) = MAX_INT) \<or>
     (\<exists>w \<in> set ws. ?t = ?due w \<and> (\<forall>v \<in> set ws. calc_delta_ticks ?now ?t \<le> calc_delta_ticks ?now (?due v)))"
  proof (cases "next_item ?now ?due ws")
    case None
    then show ?thesis using wq.scan_none [of ?now ?due ws] by (simp add: next_timeout_is)
  next
    case (Some w)
    then show ?thesis using wq.scan_earliest [OF Some] by (auto simp: next_timeout_is)
  qed
  moreover have "queue_reschedule fuel q = Some (if ?t \<noteq> 0 then work_set_timer ?t ?q else ?q)"
    by (simp add: queue_reschedule_def g)
  ultimately show ?thesis
    by (intro exI [of _ "if ?t \<noteq> 0 then work_set_timer ?t ?q else ?q"] exI [of _ ?t] conjI)
       (use q in \<open>simp_all add: holds_work_def work_set_timer_def\<close>)
qed

text \<open>A queue with an item that is due and one that is not, under a timer that stands at 5000.\<close>

definition demo_queue :: work_queue where
  "demo_queue = \<lparr>works = (\<lambda>w. \<lparr>w_cb = 1, w_cb_data = w, w_timeout = (if w = 0x20 then 4000 else 6000), w_pending = False, w_sync = False\<rparr>),
     wlinks = list_item_prepend 0x20 0x10 (list_item_prepend 0x30 0x10 (list_init 0x10 (\<lambda>_. \<lparr>nxt = 0, prv = 0\<rparr>))),
     work_list = 0x10, q_timeout = 0, window_size = 2000, q_ticks = 1, run_ticks = 0, wq_clk = 0, wq_clks = init_clocks,
     reading = (\<lambda>_. 5000), tick = 0, armed = None\<rparr>"

lemma demo_queue_sel:
  "works demo_queue w = \<lparr>w_cb = 1, w_cb_data = w, w_timeout = (if w = 0x20 then 4000 else 6000), w_pending = False, w_sync = False\<rparr>"
  "work_list demo_queue = 0x10" "window_size demo_queue = 2000" "q_ticks demo_queue = 1" "reading demo_queue n = 5000"
  by (simp_all add: demo_queue_def)

lemma demo_holds: "holds_work demo_queue [0x20, 0x30]"
proof -
  have "dll (list_item_prepend 0x30 0x10 (list_init 0x10 (\<lambda>_. \<lparr>nxt = 0, prv = 0\<rparr>))) 0x10 [0x30]"
    by (rule dll_prepend [OF dll_init]) simp
  then have "dll (wlinks demo_queue) 0x10 [0x20, 0x30]"
    unfolding demo_queue_def work_queue.select_convs by (rule dll_prepend) simp
  then show ?thesis by (simp add: holds_work_def demo_queue_sel)
qed

lemma pending_iff_due_witness:
  "\<exists>n q'. is_work_pending 5 demo_queue = Some (n, q') \<and> w_pending (works q' 0x20) \<and> \<not> w_pending (works q' 0x30)"
proof -
  have "window_size demo_queue \<noteq> 0" "length [0x20, 0x30 :: laddr] < 5" by (simp_all add: demo_queue_sel)
  from pending_iff_due [OF demo_holds this(2,1)] show ?thesis by (auto simp: demo_queue_sel)
qed

section \<open>Queueing and cancelling\<close>

text \<open>
  scheduling an item that is not queued puts it in front of the queue, due the given
  microseconds after the timer's reading, leaves the other items alone, and arms the timer for the
  item that is then due next, unless its timeout is 0: then the timer stays as it was.
\<close>

theorem work_schedule_queues:
  assumes q: "holds_work q ws" and new: "w \<notin> set ws" "w \<noteq> work_list q" and fuel: "Suc (length ws) < fuel"
  shows "\<exists>q' t. work_schedule fuel w us q = Some q' \<and> holds_work q' (w # ws) \<and>
    w_timeout (works q' w) = q_ticks q * us + reading q (tick q) \<and> (\<forall>v. v \<noteq> w \<longrightarrow> works q' v = works q v) \<and>
    armed q' = (if t = 0 then armed q else Some t) \<and>
    (t = reading q (Suc (tick q)) \<and> (\<forall>v \<in> set (w # ws). calc_delta_ticks (reading q (Suc (tick q))) (w_timeout (works q' v)) = MAX_INT) \<or>
     (\<exists>i \<in> set (w # ws). t = w_timeout (works q' i) \<and> (\<forall>v \<in> set (w # ws).
        calc_delta_ticks (reading q (Suc (tick q))) t \<le> calc_delta_ticks (reading q (Suc (tick q))) (w_timeout (works q' v)))))"
proof -
  let ?q1 = "upd_work w (\<lambda>r. r\<lparr>w_timeout := q_ticks q * us + reading q (tick q)\<rparr>) (q\<lparr>tick := Suc (tick q)\<rparr>)"
  let ?q = "?q1\<lparr>wlinks := list_item_prepend w (work_list q) (wlinks q)\<rparr>"
  have s: "work_schedule fuel w us q = queue_reschedule fuel ?q"
    using holds_walk [OF q] fuel new by (simp add: work_schedule_def work_get_timer_def)
  have "holds_work ?q (w # ws)"
    using q new by (auto simp: holds_work_def intro: dll_prepend)
  from queue_reschedule_next [OF this, of fuel] fuel obtain q' t where r: "queue_reschedule fuel ?q = Some q'"
    "holds_work q' (w # ws)" "works q' = works ?q" "armed q' = (if t = 0 then armed ?q else Some t)"
    and t: "t = reading ?q (tick ?q) \<and> (\<forall>v \<in> set (w # ws). calc_delta_ticks (reading ?q (tick ?q)) (w_timeout (works ?q v)) = MAX_INT) \<or>
     (\<exists>i \<in> set (w # ws). t = w_timeout (works ?q i) \<and> (\<forall>v \<in> set (w # ws).
        calc_delta_ticks (reading ?q (tick ?q)) t \<le> calc_delta_ticks (reading ?q (tick ?q)) (w_timeout (works ?q v))))"
    by auto
  have f: "reading ?q (tick ?q) = reading q (Suc (tick q))" "armed ?q = armed q"
    "w_timeout (works ?q w) = q_ticks q * us + reading q (tick q)" "\<And>v. v \<noteq> w \<Longrightarrow> works ?q v = works q v" by simp_all
  show ?thesis
    by (rule exI [of _ q'], rule exI [of _ t]) (use r t f s in simp)
qed

lemma work_schedule_queues_witness:
  "\<exists>q'. work_schedule 9 0x40 100 demo_queue = Some q' \<and> holds_work q' [0x40, 0x20, 0x30] \<and> w_timeout (works q' 0x40) = 5100"
proof -
  have "0x40 \<notin> set [0x20, 0x30 :: laddr]" "0x40 \<noteq> work_list demo_queue" "Suc (length [0x20, 0x30 :: laddr]) < 9"
    by (simp_all add: demo_queue_sel)
  from work_schedule_queues [OF demo_holds this, of 100] show ?thesis by (auto simp: demo_queue_sel)
qed

text \<open>
  scheduling an item that is queued already changes nothing, it keeps its first timeout; and
  cancelling a scheduled item takes it off the queue with every other item as before.
\<close>

theorem schedule_cancel:
  assumes q: "holds_work q ws" and fuel: "Suc (length ws) < fuel" and w: "w \<in> set ws"
  shows "work_schedule fuel w us q = Some q \<and>
    (\<exists>q'. work_cancel fuel w q = Some q' \<and> holds_work q' (remove1 w ws) \<and> works q' = works q)"
proof (rule conjI)
  show "work_schedule fuel w us q = Some q"
    using holds_walk [OF q] fuel w by (simp add: work_schedule_def)
  obtain xs ys where ws: "ws = xs @ w # ys" "w \<notin> set xs" using split_list_first [OF w] by blast
  let ?q = "q\<lparr>wlinks := list_item_del w (wlinks q)\<rparr>"
  have h: "holds_work ?q (xs @ ys)" using q dll_del ws by (simp add: holds_work_def)
  have r: "remove1 w ws = xs @ ys" using ws by (simp add: remove1_append)
  show "\<exists>q'. work_cancel fuel w q = Some q' \<and> holds_work q' (remove1 w ws) \<and> works q' = works q"
  proof (cases "xs @ ys = []")
    case True
    then have "list_is_empty (work_list q) (wlinks ?q)" using h dll_is_empty by (simp add: holds_work_def)
    then show ?thesis using h r True
      by (auto simp: work_cancel_def queue_reschedule_def queue_get_next_timeout_def holds_work_def)
  next
    case False
    have "length (xs @ ys) < fuel" using fuel ws by simp
    from queue_reschedule_next [OF h False this] show ?thesis unfolding r by (auto simp: work_cancel_def)
  qed
qed

lemma schedule_cancel_witness:
  "work_schedule 9 0x30 100 demo_queue = Some demo_queue \<and> (\<exists>q'. work_cancel 9 0x30 demo_queue = Some q' \<and> holds_work q' [0x20])"
proof -
  have "Suc (length [0x20, 0x30 :: laddr]) < 9" "0x30 \<in> set [0x20, 0x30 :: laddr]" by simp_all
  from schedule_cancel [OF demo_holds this, of 100] show ?thesis by auto
qed

section \<open>Running the pending items\<close>

definition upd_next :: "work_queue \<Rightarrow> u32 \<Rightarrow> work \<Rightarrow> work" where
  "upd_next q us r = r\<lparr>w_timeout := (if w_sync r then w_timeout r else run_ticks q) + q_ticks q * us\<rparr>"

text \<open>Whether an item is still queued after a pass, and what it becomes, when its function replies \<open>resp\<close>.\<close>

definition kept :: "(u32 \<Rightarrow> u32 \<Rightarrow> u32) \<Rightarrow> work \<Rightarrow> bool" where
  "kept resp r \<longleftrightarrow> \<not> w_pending r \<or> resp (w_cb r) (w_cb_data r) \<noteq> 0"

definition after :: "(u32 \<Rightarrow> u32 \<Rightarrow> u32) \<Rightarrow> work_queue \<Rightarrow> work \<Rightarrow> work" where
  "after resp q r = (if w_pending r \<and> resp (w_cb r) (w_cb_data r) \<noteq> 0 then upd_next q (resp (w_cb r) (w_cb_data r)) r else r)"

definition plain_call :: "(u32 \<Rightarrow> u32 \<Rightarrow> u32) \<Rightarrow> work_call" where
  "plain_call resp f d udelay q = Some (resp f d, q)"

definition same_queue :: "work_queue \<Rightarrow> work_queue \<Rightarrow> bool" where
  "same_queue q q' \<longleftrightarrow> work_list q' = work_list q \<and> q_ticks q' = q_ticks q \<and> run_ticks q' = run_ticks q \<and>
     window_size q' = window_size q \<and> reading q' = reading q"

lemma run_one_spec:
  assumes "q_ticks q \<noteq> 0"
  shows "\<exists>q'. run_one (plain_call resp) w q = Some q' \<and> same_queue q q' \<and>
    works q' = (works q)(w := after resp q (works q w)) \<and>
    wlinks q' = (if kept resp (works q w) then wlinks q else list_item_del w (wlinks q))"
proof (cases "w_pending (works q w)")
  case False
  then show ?thesis by (simp add: run_one_def after_def kept_def same_queue_def fun_upd_idem)
next
  case True
  let ?us = "resp (w_cb (works q w)) (w_cb_data (works q w))"
  show ?thesis
  proof (cases "?us = 0")
    case zero: True
    then show ?thesis using True assms
      by (simp add: run_one_def work_get_timer_def plain_call_def after_def kept_def same_queue_def fun_upd_idem)
  next
    case False
    have "run_one (plain_call resp) w q = Some (work_next_timeout w ?us (q\<lparr>tick := Suc (tick q)\<rparr>))"
      using True False assms by (simp add: run_one_def work_get_timer_def plain_call_def)
    then show ?thesis using True False
      by (cases "w_sync (works q w)")
         (simp_all add: after_def kept_def same_queue_def work_next_timeout_def upd_next_def add.commute)
  qed
qed

lemma after_same: "same_queue q q' \<Longrightarrow> after resp q' = after resp q"
  by (intro ext) (simp add: after_def upd_next_def same_queue_def)

lemma run_loop_spec:
  assumes "dll (wlinks q) (work_list q) (fin @ rest)" "length rest < n" "q_ticks q \<noteq> 0"
  shows "\<exists>q'. run_loop n (plain_call resp) (hd (rest @ [work_list q])) (nxt (wlinks q (hd (rest @ [work_list q])))) q = Some q' \<and>
    same_queue q q' \<and> holds_work q' (fin @ filter (\<lambda>w. kept resp (works q w)) rest) \<and>
    works q' = (\<lambda>w. if w \<in> set rest then after resp q (works q w) else works q w)"
  using assms
proof (induction rest arbitrary: fin n q)
  case Nil
  then show ?case by (cases n) (auto simp: same_queue_def holds_work_def)
next
  case (Cons w rest)
  obtain m where n: "n = Suc m" using Cons.prems(2) by (cases n) auto
  obtain q1 where q1: "run_one (plain_call resp) w q = Some q1" "same_queue q q1"
    "works q1 = (works q)(w := after resp q (works q w))"
    "wlinks q1 = (if kept resp (works q w) then wlinks q else list_item_del w (wlinks q))"
    using run_one_spec [OF Cons.prems(3)] by blast
  have l: "work_list q1 = work_list q" "q_ticks q1 \<noteq> 0" using q1(2) Cons.prems(3) by (simp_all add: same_queue_def)
  have wn: "w \<noteq> work_list q" "w \<notin> set rest" using Cons.prems(1) by (auto simp: dll_def)
  have nx: "nxt (wlinks q w) = hd (rest @ [work_list q])" using dll_split(5) [OF Cons.prems(1)] .
  let ?fin = "fin @ (if kept resp (works q w) then [w] else [])"
  have d1: "dll (wlinks q1) (work_list q1) (?fin @ rest)"
    using Cons.prems(1) dll_del [OF Cons.prems(1)] q1(4) l by simp
  have "length rest < m" using Cons.prems(2) n by simp
  from Cons.IH [OF d1 this l(2)] obtain q' where q':
    "run_loop m (plain_call resp) (hd (rest @ [work_list q1])) (nxt (wlinks q1 (hd (rest @ [work_list q1])))) q1 = Some q'"
    "same_queue q1 q'" "holds_work q' (?fin @ filter (\<lambda>w. kept resp (works q1 w)) rest)"
    "works q' = (\<lambda>v. if v \<in> set rest then after resp q1 (works q1 v) else works q1 v)" by blast
  have fl: "filter (\<lambda>v. kept resp (works q1 v)) rest = filter (\<lambda>v. kept resp (works q v)) rest"
    by (rule filter_cong) (use wn q1(3) in auto)
  have wk: "works q' v = (if v \<in> set (w # rest) then after resp q (works q v) else works q v)" for v
    using q'(4) q1(3) wn(2) after_same [OF q1(2)] by (cases "v = w") simp_all
  have "run_loop n (plain_call resp) (hd ((w # rest) @ [work_list q])) (nxt (wlinks q (hd ((w # rest) @ [work_list q])))) q = Some q'"
    using q'(1) q1(1) wn(1) nx l(1) by (simp add: n)
  moreover have "same_queue q q'" using q1(2) q'(2) by (simp add: same_queue_def)
  moreover have "holds_work q' (fin @ filter (\<lambda>v. kept resp (works q v)) (w # rest))"
    using q'(3) by (cases "kept resp (works q w)") (simp_all add: fl)
  ultimately show ?case using wk by blast
qed

lemma run_work_spec:
  assumes q: "holds_work q ws" and fuel: "length ws < fuel" and t: "q_ticks q \<noteq> 0"
  shows "\<exists>q'. run_work fuel (plain_call resp) q = Some q' \<and> same_queue q q' \<and>
    holds_work q' (filter (\<lambda>w. kept resp (works q w)) ws) \<and>
    works q' = (\<lambda>w. if w \<in> set ws then after resp q (works q w) else works q w)"
proof -
  have d: "dll (wlinks q) (work_list q) ([] @ ws)" using q by (simp add: holds_work_def)
  have "nxt (wlinks q (work_list q)) = hd (ws @ [work_list q])"
    using q by (cases ws) (auto simp: holds_work_def dll_Nil dest: dll_nxt)
  then show ?thesis using run_loop_spec [OF d fuel t, of resp] by (simp add: run_work_def Let_def)
qed

text \<open>
  C20: one pass over the queue runs every pending item and only those. An item whose function
  returns 0 leaves the queue; another is due again after the microseconds it returned, counted
  from its last timeout when it is synchronous, so that no drift builds up, and from the start of
  this run when it is not. All other items and the order of the queue stay as they were.
\<close>

theorem run_work_pass:
  assumes "holds_work q ws" and "length ws < fuel" and "q_ticks q \<noteq> 0"
    and "\<And>f d u q. cb f d u q = Some (resp f d, q)"
  shows "\<exists>q'. run_work fuel cb q = Some q' \<and>
    holds_work q' (filter (\<lambda>w. w_pending (works q w) \<longrightarrow> resp (w_cb (works q w)) (w_cb_data (works q w)) \<noteq> 0) ws) \<and>
    (\<forall>w. works q' w = (let r = works q w; us = resp (w_cb r) (w_cb_data r) in
       if w \<in> set ws \<and> w_pending r \<and> us \<noteq> 0
       then r\<lparr>w_timeout := (if w_sync r then w_timeout r else run_ticks q) + q_ticks q * us\<rparr> else r))"
proof -
  have cb: "cb = plain_call resp" using assms(4) by (intro ext) (simp add: plain_call_def)
  have "kept resp r \<longleftrightarrow> (w_pending r \<longrightarrow> resp (w_cb r) (w_cb_data r) \<noteq> 0)" for r by (simp add: kept_def)
  then show ?thesis
    using run_work_spec [OF assms(1-3), of resp] unfolding cb after_def upd_next_def Let_def by auto
qed

lemma run_work_pass_witness:
  "\<exists>q'. run_work 9 (\<lambda>f d u q. Some (0, q)) (upd_work 0x20 (\<lambda>r. r\<lparr>w_pending := True\<rparr>) demo_queue) = Some q' \<and> holds_work q' [0x30]"
proof -
  let ?q = "upd_work 0x20 (\<lambda>r. r\<lparr>w_pending := True\<rparr>) demo_queue"
  have "holds_work ?q [0x20, 0x30]" using demo_holds by (simp add: holds_work_def)
  moreover have "length [0x20, 0x30 :: laddr] < 9" "q_ticks ?q \<noteq> 0" by (simp_all add: demo_queue_sel)
  ultimately obtain q' where "run_work 9 (\<lambda>f d u q. Some (0, q)) ?q = Some q'"
    "holds_work q' (filter (\<lambda>w. w_pending (works ?q w) \<longrightarrow> (0 :: u32) \<noteq> 0) [0x20, 0x30])"
    using run_work_pass [of ?q "[0x20, 0x30]" 9 "\<lambda>f d u q. Some (0, q)" "\<lambda>f d. 0"] by blast
  then show ?thesis by (simp add: demo_queue_sel)
qed

section \<open>Termination of a queue run\<close>

lemma mark_pending_same: "mark_pending a b ws c q = (n, q') \<Longrightarrow> same_queue q q'"
proof (induction ws arbitrary: c q)
  case (Cons w ws)
  then show ?case by (fastforce simp: same_queue_def split: if_splits)
qed (simp add: same_queue_def)

lemma is_work_pending_spec:
  assumes q: "holds_work q ws" and fuel: "length ws < fuel"
  shows "\<exists>n q'. is_work_pending fuel q = Some (n, q') \<and> same_queue q q' \<and> holds_work q' ws \<and>
    (n = 0 \<longleftrightarrow> filter (\<lambda>w. w_pending (works q' w)) ws = [])"
proof -
  let ?now = "reading q (tick q)" and ?q = "q\<lparr>tick := Suc (tick q)\<rparr>"
  obtain n q' where m: "mark_pending (?now - window_size q) ?now ws 0 ?q = (n, q')" by fastforce
  have d: "distinct ws" using q by (simp add: holds_work_def dll_def)
  note sp = mark_pending_spec [OF d m]
  have "is_work_pending fuel q = Some (n, q')"
    using holds_walk [OF q fuel] m by (simp add: is_work_pending_def work_get_timer_def)
  moreover have "same_queue q q'" using mark_pending_same [OF m] by (simp add: same_queue_def)
  ultimately show ?thesis using sp q by (auto simp: holds_work_def filter_empty_conv)
qed

lemma pending_loop_ends:
  assumes "holds_work q ws" "length ws < n" "length ws < fuel" "q_ticks q \<noteq> 0"
  shows "\<exists>q' vs. pending_loop n fuel (plain_call (\<lambda>f d. 0)) q = Some q' \<and> holds_work q' vs \<and>
    set vs \<subseteq> set ws \<and> length vs \<le> length ws \<and> (\<forall>v \<in> set vs. \<not> w_pending (works q' v))"
  using assms
proof (induction n arbitrary: q ws)
  case (Suc n)
  obtain c q1 where q1: "is_work_pending fuel q = Some (c, q1)" "same_queue q q1" "holds_work q1 ws"
    "c = 0 \<longleftrightarrow> filter (\<lambda>w. w_pending (works q1 w)) ws = []"
    using is_work_pending_spec [OF Suc.prems(1,3)] by blast
  show ?case
  proof (cases "c = 0")
    case True
    then show ?thesis using q1 by (auto simp: filter_empty_conv)
  next
    case False
    let ?vs = "filter (\<lambda>w. kept (\<lambda>f d. 0) (works q1 w)) ws"
    have t1: "q_ticks q1 \<noteq> 0" using q1(2) Suc.prems(4) by (simp add: same_queue_def)
    obtain q2 where q2: "run_work fuel (plain_call (\<lambda>f d. 0)) q1 = Some q2" "same_queue q1 q2" "holds_work q2 ?vs"
      using run_work_spec [OF q1(3) Suc.prems(3) t1] by blast
    obtain v where "v \<in> set ws" "\<not> kept (\<lambda>f d. 0) (works q1 v)"
      using q1(4) False by (auto simp: filter_empty_conv kept_def)
    then have "length ?vs < length ws" by (rule length_filter_less)
    then have "length ?vs < n" "length ?vs < fuel" "length ?vs \<le> length ws" using Suc.prems by simp_all
    moreover have "q_ticks q2 \<noteq> 0" using q2(2) t1 by (simp add: same_queue_def)
    ultimately obtain q' vs where "pending_loop n fuel (plain_call (\<lambda>f d. 0)) q2 = Some q'" "holds_work q' vs"
      "set vs \<subseteq> set ?vs" and vs: "length vs \<le> length ?vs" and "\<forall>v \<in> set vs. \<not> w_pending (works q' v)"
      using Suc.IH [OF q2(3)] by blast
    moreover have "length vs \<le> length ws" using vs \<open>length ?vs < length ws\<close> by linarith
    ultimately show ?thesis using q1(1) q2(1) False
      by (intro exI [of _ q'] exI [of _ vs]) auto
  qed
qed simp

text \<open>
  C21: a queue run returns when the functions of the items it runs do not ask to be run again: as
  many passes as there are items, and one more, are enough whatever the timer reads. The items
  left on the queue were queued before, and none of them was due at the last check.
\<close>

theorem queue_run_returns:
  assumes q: "holds_work q ws" and n: "length ws < n" "length ws < fuel" and t: "q_ticks q \<noteq> 0"
    and cb: "\<And>f d u q. cb f d u q = Some (0, q)"
  shows "\<exists>q' vs. queue_run n fuel cb q = Some q' \<and> holds_work q' vs \<and> set vs \<subseteq> set ws \<and>
    (\<forall>v \<in> set vs. \<not> w_pending (works q' v))"
proof -
  have c: "cb = plain_call (\<lambda>f d. 0)" using cb by (intro ext) (simp add: plain_call_def)
  let ?q = "(snd (work_get_timer (work_clear_timer q)))\<lparr>run_ticks := reading q (tick q)\<rparr>"
  have h: "holds_work ?q ws" "q_ticks ?q \<noteq> 0" using q t
    by (simp_all add: holds_work_def work_clear_timer_def work_get_timer_def)
  obtain q1 vs where q1: "pending_loop n fuel cb ?q = Some q1" "holds_work q1 vs" "set vs \<subseteq> set ws"
    "length vs \<le> length ws" "\<forall>v \<in> set vs. \<not> w_pending (works q1 v)"
    unfolding c using pending_loop_ends [OF h(1) n h(2)] by blast
  have r: "queue_run n fuel cb q = queue_reschedule fuel q1"
    using q1(1) by (simp add: queue_run_def work_get_timer_def work_clear_timer_def)
  show ?thesis
  proof (cases "vs = []")
    case True
    then have "list_is_empty (work_list q1) (wlinks q1)" using q1(2) dll_is_empty by (simp add: holds_work_def)
    then show ?thesis using r q1 True
      by (auto simp: queue_reschedule_def queue_get_next_timeout_def holds_work_def)
  next
    case False
    have "length vs < fuel" using q1(4) n by simp
    from queue_reschedule_next [OF q1(2) False this] show ?thesis using r q1(3,5) by auto
  qed
qed

lemma queue_run_returns_witness:
  "\<exists>q' vs. queue_run 3 3 (\<lambda>f d u q. Some (0, q)) demo_queue = Some q' \<and> holds_work q' vs \<and> set vs \<subseteq> {0x20, 0x30}"
  using queue_run_returns [OF demo_holds, of 3 3 "\<lambda>f d u q. Some (0, q)"] by (auto simp: demo_queue_sel)

section \<open>Notifications\<close>

text \<open>
  A notifier event calls exactly the registered notifiers of that id, the one registered last
  first; with none registered it does nothing.
\<close>

lemma notifier_event_calls:
  assumes "dll (n_links s) (n_list s) ns" and "length ns < fuel"
  shows "notifier_event fuel call i m e s w =
    fold (\<lambda>n r. do { w \<leftarrow> r; call m (n_cb_data (notifiers s n)) e (n_cb (notifiers s n)) w })
      (filter (\<lambda>n. n_id (notifiers s n) = i) ns) (Some w)"
proof -
  have none: "fold (\<lambda>n r. do { w \<leftarrow> r; call m (n_cb_data (notifiers s n)) e (n_cb (notifiers s n)) w }) xs None = None" for xs
    by (induction xs) simp_all
  have "notify_each call (notifiers s) i m e xs w =
    fold (\<lambda>n r. do { w \<leftarrow> r; call m (n_cb_data (notifiers s n)) e (n_cb (notifiers s n)) w })
      (filter (\<lambda>n. n_id (notifiers s n) = i) xs) (Some w)" for xs
  proof (induction xs arbitrary: w)
    case (Cons n xs)
    then show ?case
      by (cases "call m (n_cb_data (notifiers s n)) e (n_cb (notifiers s n)) w") (simp_all add: none)
  qed simp
  then show ?thesis
    using assms dll_list_for_item [OF assms] dll_is_empty [OF assms(1)] by (auto simp: notifier_event_def)
qed

definition demo_notify :: notify where
  "demo_notify = notifier_register 0x30 (notifier_register 0x20 (init_system_notify
     \<lparr>notifiers = (\<lambda>n. \<lparr>n_id = (if n = 0x20 then 1 else 0), n_cb = 7, n_cb_data = n\<rparr>), n_links = (\<lambda>_. \<lparr>nxt = 0, prv = 0\<rparr>), n_list = 0x10\<rparr>))"

lemma notifier_event_demo:
  "notifier_event 5 (\<lambda>m d e f w. Some (w @ [d])) 0 () () demo_notify [] = Some [0x30]"
proof -
  have "dll (list_item_prepend 0x20 0x10 (list_init 0x10 (\<lambda>_. \<lparr>nxt = 0, prv = 0\<rparr>))) 0x10 [0x20]"
    by (rule dll_prepend [OF dll_init]) simp
  then have "dll (list_item_prepend 0x30 0x10 (list_item_prepend 0x20 0x10 (list_init 0x10 (\<lambda>_. \<lparr>nxt = 0, prv = 0\<rparr>)))) 0x10 [0x30, 0x20]"
    by (rule dll_prepend) simp
  then have "dll (n_links demo_notify) (n_list demo_notify) [0x30, 0x20]"
    by (simp add: demo_notify_def notifier_register_def init_system_notify_def)
  from notifier_event_calls [OF this, of 5 "\<lambda>m d e f w. Some (w @ [d])" 0 "()" "()" "[]"]
  show ?thesis by (simp add: demo_notify_def notifier_register_def init_system_notify_def)
qed

end
