(* ===== verification/Reef_Ipc.thy ===== *)
theory Reef_Ipc
  imports Reef_Pipeline
begin

text \<open>
  The object registry of src/src/ipc/ipc.c: components, buffers and pipelines the host creates by
  id, kept on three lists of container objects. A container is named by its address; the lists are
  in the order of the C lists, to whose tail \<open>list_item_append\<close> adds. Every operation works on
  the pair of the registry and the audio world; its result value is what the C function returns.
\<close>

record ipc =
  comp_list :: "u32 list"
  buffer_list :: "u32 list"
  pipeline_list :: "u32 list"
  icd_cd :: "u32 \<Rightarrow> u32"
  ibd_cb :: "u32 \<Rightarrow> u32"
  ipd_pipe :: "u32 \<Rightarrow> u32"
  pipes :: "u32 \<Rightarrow> pipeline"

text \<open>\<open>ipc_comp_dev\<close>, \<open>ipc_buffer_dev\<close> and \<open>ipc_pipeline_dev\<close> all have 16 bytes.\<close>

definition sizeof_ipc_dev :: u32 where "sizeof_ipc_dev = 16"

record ipc_comp_connect =
  cc_pipeline_id :: u32
  cc_source_id :: u32
  cc_buffer_id :: u32
  cc_sink_id :: u32

record ipc_pipe_connect =
  pp_pipeline_source_id :: u32
  pp_comp_source_id :: u32
  pp_buffer_id :: u32
  pp_pipeline_sink_id :: u32
  pp_comp_sink_id :: u32

section \<open>Lookup\<close>

definition ipc_get_comp :: "ipc \<Rightarrow> u32 \<Rightarrow> 'a world_scheme \<Rightarrow> u32 option" where
  "ipc_get_comp ipc i w = find (\<lambda>icd. comp_id (comp (devs w (icd_cd ipc icd))) = i) (comp_list ipc)"

definition ipc_get_buffer :: "ipc \<Rightarrow> u32 \<Rightarrow> 'a world_scheme \<Rightarrow> u32 option" where
  "ipc_get_buffer ipc i w = find (\<lambda>icb. ipc_id (bufs w (ibd_cb ipc icb)) = i) (buffer_list ipc)"

definition ipc_get_pipeline :: "ipc \<Rightarrow> u32 \<Rightarrow> u32 option" where
  "ipc_get_pipeline ipc i = find (\<lambda>ipd. pipe_id (pipes ipc (ipd_pipe ipc ipd)) = i) (pipeline_list ipc)"

section \<open>Components\<close>

definition ipc_comp_new :: "'a world_scheme ops_table \<Rightarrow> ipc_comp \<Rightarrow> ipc \<Rightarrow> 'a world_scheme \<Rightarrow> (int \<times> ipc \<times> 'a world_scheme) option" where
  "ipc_comp_new t c ipc w =
     (if ipc_get_comp ipc (comp_id c) w \<noteq> None then Some (- EINVAL, ipc, w)
      else do {
        (cd, w) \<leftarrow> comp_new t c w;
        if cd = 0 then Some (- EINVAL, ipc, w)
        else do {
          (icd, h, m) \<leftarrow> rzalloc RZONE_RUNTIME RFLAGS_NONE sizeof_ipc_dev (mm w, wmem w);
          let w = w\<lparr>mm := h, wmem := m\<rparr>;
          if icd = 0 then do { h \<leftarrow> rfree cd (mm w); Some (- ENOMEM, ipc, w\<lparr>mm := h\<rparr>) }
          else Some (0, ipc\<lparr>icd_cd := (icd_cd ipc)(icd := cd), comp_list := comp_list ipc @ [icd]\<rparr>, w) } })"

definition ipc_comp_free :: "'a world_scheme ops_table \<Rightarrow> u32 \<Rightarrow> ipc \<Rightarrow> 'a world_scheme \<Rightarrow> (ipc \<times> 'a world_scheme) option" where
  "ipc_comp_free t i ipc w =
     (case ipc_get_comp ipc i w of
        None \<Rightarrow> Some (ipc, w)
      | Some icd \<Rightarrow> do {
          w \<leftarrow> comp_free t (icd_cd ipc icd) w;
          let ipc = ipc\<lparr>comp_list := remove1 icd (comp_list ipc)\<rparr>;
          h \<leftarrow> rfree icd (mm w);
          Some (ipc, w\<lparr>mm := h\<rparr>) })"

section \<open>Buffers\<close>

text \<open>When no buffer can be made, \<open>rfree\<close> is called on the \<open>NULL\<close> the lookup returned.\<close>

definition ipc_buffer_new :: "u32 \<Rightarrow> u32 \<Rightarrow> u32 \<Rightarrow> ipc \<Rightarrow> 'a world_scheme \<Rightarrow> (int \<times> ipc \<times> 'a world_scheme) option" where
  "ipc_buffer_new desc_id desc_size desc_preload ipc w =
     (if ipc_get_buffer ipc desc_id w \<noteq> None then Some (- EINVAL, ipc, w)
      else do {
        (b, w) \<leftarrow> buffer_new desc_id desc_size desc_preload w;
        if b = 0 then do { h \<leftarrow> rfree 0 (mm w); Some (- ENOMEM, ipc, w\<lparr>mm := h\<rparr>) }
        else do {
          (ibd, h, m) \<leftarrow> rzalloc RZONE_RUNTIME RFLAGS_NONE sizeof_ipc_dev (mm w, wmem w);
          let w = w\<lparr>mm := h, wmem := m\<rparr>;
          if ibd = 0 then do { h \<leftarrow> rfree b (mm w); Some (- ENOMEM, ipc, w\<lparr>mm := h\<rparr>) }
          else Some (0, ipc\<lparr>ibd_cb := (ibd_cb ipc)(ibd := b), buffer_list := buffer_list ipc @ [ibd]\<rparr>, w) } })"

definition ipc_buffer_free :: "u32 \<Rightarrow> ipc \<Rightarrow> 'a world_scheme \<Rightarrow> (ipc \<times> 'a world_scheme) option" where
  "ipc_buffer_free i ipc w =
     (case ipc_get_buffer ipc i w of
        None \<Rightarrow> Some (ipc, w)
      | Some ibd \<Rightarrow> do {
          w \<leftarrow> buffer_free (ibd_cb ipc ibd) w;
          let ipc = ipc\<lparr>buffer_list := remove1 ibd (buffer_list ipc)\<rparr>;
          h \<leftarrow> rfree ibd (mm w);
          Some (ipc, w\<lparr>mm := h\<rparr>) })"

section \<open>Pipelines and connections\<close>

text \<open>The check for an existing pipeline returns \<open>EINVAL\<close> without the minus sign.\<close>

definition ipc_pipeline_new :: "ipc_pipe_new \<Rightarrow> ipc \<Rightarrow> 'a world_scheme \<Rightarrow> (int \<times> ipc \<times> 'a world_scheme) option" where
  "ipc_pipeline_new desc ipc w =
     (if ipc_get_pipeline ipc (pn_pipeline_id desc) \<noteq> None then Some (EINVAL, ipc, w)
      else do {
        (p, ps, w) \<leftarrow> pipeline_new desc (pipes ipc, w);
        let ipc = ipc\<lparr>pipes := ps\<rparr>;
        if p = 0 then Some (- ENOMEM, ipc, w)
        else do {
          (ipd, h, m) \<leftarrow> rzalloc RZONE_RUNTIME RFLAGS_NONE sizeof_ipc_dev (mm w, wmem w);
          let w = w\<lparr>mm := h, wmem := m\<rparr>;
          if ipd = 0 then do { h \<leftarrow> rfree p (mm w); Some (- ENOMEM, ipc, w\<lparr>mm := h\<rparr>) }
          else Some (0, ipc\<lparr>ipd_pipe := (ipd_pipe ipc)(ipd := p), pipeline_list := pipeline_list ipc @ [ipd]\<rparr>, w) } })"

definition ipc_pipeline_free :: "u32 \<Rightarrow> ipc \<Rightarrow> 'a world_scheme \<Rightarrow> (ipc \<times> 'a world_scheme) option" where
  "ipc_pipeline_free i ipc w =
     (case ipc_get_pipeline ipc i of
        None \<Rightarrow> Some (ipc, w)
      | Some ipd \<Rightarrow> do {
          w \<leftarrow> pipeline_free (ipd_pipe ipc ipd) w;
          let ipc = ipc\<lparr>pipeline_list := remove1 ipd (pipeline_list ipc)\<rparr>;
          h \<leftarrow> rfree ipd (mm w);
          Some (ipc, w\<lparr>mm := h\<rparr>) })"

definition ipc_comp_connect :: "ipc_comp_connect \<Rightarrow> ipc \<Rightarrow> 'a world_scheme \<Rightarrow> int \<times> 'a world_scheme" where
  "ipc_comp_connect connect ipc w =
     (case ipc_get_comp ipc (cc_source_id connect) w of None \<Rightarrow> (- EINVAL, w) | Some icd_source \<Rightarrow>
      case ipc_get_comp ipc (cc_sink_id connect) w of None \<Rightarrow> (- EINVAL, w) | Some icd_sink \<Rightarrow>
      case ipc_get_buffer ipc (cc_buffer_id connect) w of None \<Rightarrow> (- EINVAL, w) | Some ibd \<Rightarrow>
      case ipc_get_pipeline ipc (cc_pipeline_id connect) of None \<Rightarrow> (- EINVAL, w) | Some ipd \<Rightarrow>
        pipeline_comp_connect (ipd_pipe ipc ipd) (icd_cd ipc icd_source) (icd_cd ipc icd_sink) (ibd_cb ipc ibd) w)"

text \<open>\<open>ipc_pipe_connect\<close> returns positive error numbers.\<close>

definition ipc_pipe_connect_op :: "ipc_pipe_connect \<Rightarrow> ipc \<Rightarrow> 'a world_scheme \<Rightarrow> int \<times> 'a world_scheme" where
  "ipc_pipe_connect_op connect ipc w =
     (case ipc_get_comp ipc (pp_comp_source_id connect) w of None \<Rightarrow> (EINVAL, w) | Some icd_source \<Rightarrow>
      case ipc_get_comp ipc (pp_comp_sink_id connect) w of None \<Rightarrow> (EINVAL, w) | Some icd_sink \<Rightarrow>
      case ipc_get_buffer ipc (pp_buffer_id connect) w of None \<Rightarrow> (EINVAL, w) | Some ibd \<Rightarrow>
      case ipc_get_pipeline ipc (pp_pipeline_source_id connect) of None \<Rightarrow> (EINVAL, w) | Some _ \<Rightarrow>
      case ipc_get_pipeline ipc (pp_pipeline_sink_id connect) of None \<Rightarrow> (EINVAL, w) | Some _ \<Rightarrow>
        pipeline_pipe_connect (icd_cd ipc icd_source) (icd_cd ipc icd_sink) (ibd_cb ipc ibd) w)"

text \<open>\<open>ipc_init\<close>: the three lists are empty.\<close>

definition ipc_init :: "ipc \<Rightarrow> ipc" where
  "ipc_init ipc = ipc\<lparr>buffer_list := [], comp_list := [], pipeline_list := []\<rparr>"

end
