(* ===== verification/Reef_Ipc_Props.thy ===== *)
theory Reef_Ipc_Props
  imports Reef_Ipc Reef_Pipeline_Props Reef_Volume_Ctl
begin

text \<open>
  Properties of the object registry: ids of components are unique and lookups find what was
  created; unconnected buffers cannot be freed; pipelines lose their ids.

  The contract the registry needs of a driver's constructor is the locale \<open>ctor\<close>; it is
  interpreted on the volume and the mixer driver.
\<close>

section \<open>Constructors of drivers\<close>

locale ctor =
  fixes new :: "ipc_comp \<Rightarrow> 'a world_scheme \<Rightarrow> (u32 \<times> 'a world_scheme) option"
  assumes new_frame: "new c w = Some (d, w') \<Longrightarrow> x \<noteq> d \<Longrightarrow> d \<noteq> 0 \<Longrightarrow> devs w' x = devs w x"
begin

text \<open>A component made by such a driver has the requested id, and the others keep theirs.\<close>

lemma comp_new_frame:
  assumes g: "get_drv (comp_type c) (drivers w) = Some dr" "op_new (t (drv_ptr dr)) = new"
    and n: "comp_new t c w = Some (d, w')" "d \<noteq> 0"
  shows "comp_id (comp (devs w' d)) = comp_id c \<and> state (devs w' d) = COMP_STATE_INIT \<and>
    (\<forall>x. x \<noteq> d \<longrightarrow> devs w' x = devs w x)"
  using n g new_frame by (auto simp: comp_new_def bind_eq_Some_conv split: if_splits)

end

lemma volume_new_frame:
  "volume_new junk c w = Some (d, w') \<Longrightarrow> x \<noteq> d \<Longrightarrow> d \<noteq> 0 \<Longrightarrow> devs w' x = devs w x"
  by (auto simp: volume_new_def bind_eq_Some_conv Let_def split: if_splits)

lemma mixer_new_frame:
  "mixer_new c w = Some (d, w') \<Longrightarrow> x \<noteq> d \<Longrightarrow> d \<noteq> 0 \<Longrightarrow> devs w' x = devs w x"
  by (auto simp: mixer_new_def bind_eq_Some_conv Let_def split: if_splits)

interpretation volume_ctor: ctor "volume_new junk" for junk
  by unfold_locales (rule volume_new_frame)

interpretation mixer_ctor: ctor mixer_new
  by unfold_locales (rule mixer_new_frame)


definition ctors :: "'a world_scheme ops_table \<Rightarrow> bool" where
  "ctors t \<longleftrightarrow> (\<forall>p. ctor (op_new (t p)))"

lemma comp_new_ids:
  assumes "ctors t" and n: "comp_new t c w = Some (d, w')" "d \<noteq> 0"
  shows "comp_id (comp (devs w' d)) = comp_id c" "state (devs w' d) = COMP_STATE_INIT"
    "x \<noteq> d \<Longrightarrow> devs w' x = devs w x"
proof -
  obtain dr where dr: "get_drv (comp_type c) (drivers w) = Some dr"
    using n by (auto simp: comp_new_def split: option.splits)
  have "ctor (op_new (t (drv_ptr dr)))" using assms(1) by (simp add: ctors_def)
  from ctor.comp_new_frame [OF this dr refl n]
  show "comp_id (comp (devs w' d)) = comp_id c" "state (devs w' d) = COMP_STATE_INIT"
    "x \<noteq> d \<Longrightarrow> devs w' x = devs w x" by simp_all
qed

section \<open>Component ids\<close>

abbreviation comp_id_of :: "ipc \<Rightarrow> 'a world_scheme \<Rightarrow> u32 \<Rightarrow> u32" where
  "comp_id_of ipc w icd \<equiv> comp_id (comp (devs w (icd_cd ipc icd)))"

text \<open>No two components have the same id.\<close>

definition unique_ids :: "ipc \<Rightarrow> 'a world_scheme \<Rightarrow> bool" where
  "unique_ids ipc w \<longleftrightarrow> (\<forall>i \<in> set (comp_list ipc). \<forall>j \<in> set (comp_list ipc).
     comp_id_of ipc w i = comp_id_of ipc w j \<longrightarrow> icd_cd ipc i = icd_cd ipc j)"

lemma find_icd:
  "ipc_get_comp ipc i w = None \<longleftrightarrow> (\<forall>icd \<in> set (comp_list ipc). comp_id_of ipc w icd \<noteq> i)"
  "ipc_get_comp ipc i w = Some icd \<Longrightarrow> icd \<in> set (comp_list ipc) \<and> comp_id_of ipc w icd = i"
  by (auto simp: ipc_get_comp_def find_None_iff find_Some_iff)

lemma ipc_comp_new_cases:
  assumes "ctors t" and "ipc_comp_new t c ipc w = Some (r, ipc', w')"
  shows "r = - EINVAL \<and> ipc' = ipc \<and> ipc_get_comp ipc (comp_id c) w \<noteq> None \<and> w' = w \<or>
    r \<noteq> 0 \<and> ipc' = ipc \<and> ipc_get_comp ipc (comp_id c) w = None \<or>
    r = 0 \<and> ipc_get_comp ipc (comp_id c) w = None \<and> (\<exists>icd cd. ipc' = ipc\<lparr>icd_cd := (icd_cd ipc)(icd := cd), comp_list := comp_list ipc @ [icd]\<rparr> \<and>
      comp_id (comp (devs w' cd)) = comp_id c \<and> state (devs w' cd) = COMP_STATE_INIT \<and> (\<forall>x. x \<noteq> cd \<longrightarrow> devs w' x = devs w x))"
proof (cases "ipc_get_comp ipc (comp_id c) w")
  case (Some a)
  then show ?thesis using assms(2) by (simp add: ipc_comp_new_def)
next
  case None
  then obtain cd w1 where n: "comp_new t c w = Some (cd, w1)"
    using assms(2) by (auto simp: ipc_comp_new_def bind_eq_Some_conv)
  show ?thesis
  proof (cases "cd = 0")
    case True
    then show ?thesis using assms(2) None n by (simp add: ipc_comp_new_def)
  next
    case False
    note ids = comp_new_ids [OF assms(1) n False]
    obtain icd h m where z: "rzalloc RZONE_RUNTIME RFLAGS_NONE sizeof_ipc_dev (mm w1, wmem w1) = Some (icd, h, m)"
      using assms(2) None n False by (auto simp: ipc_comp_new_def bind_eq_Some_conv)
    show ?thesis
    proof (cases "icd = 0")
      case True
      then show ?thesis using assms(2) None n False z by (auto simp: ipc_comp_new_def bind_eq_Some_conv)
    next
      case icd: False
      then have e: "r = 0" "ipc' = ipc\<lparr>icd_cd := (icd_cd ipc)(icd := cd), comp_list := comp_list ipc @ [icd]\<rparr>"
        "w' = w1\<lparr>mm := h, wmem := m\<rparr>"
        using assms(2) None n False z by (simp_all add: ipc_comp_new_def)
      have "comp_id (comp (devs w' cd)) = comp_id c \<and> state (devs w' cd) = COMP_STATE_INIT \<and> (\<forall>x. x \<noteq> cd \<longrightarrow> devs w' x = devs w x)"
        unfolding e(3) using ids by simp
      with e(1,2) None show ?thesis by blast
    qed
  qed
qed

text \<open>
  C34: after the host has created a component, looking its id up finds it, in the INIT state;
  creating another one with that id is refused with \<open>-EINVAL\<close> and changes nothing; no other id
  has appeared; and ids stay unique.
\<close>

theorem comp_created:
  assumes t: "ctors t" and n: "ipc_comp_new t c ipc w = Some (0, ipc', w')"
  shows "(\<exists>icd. ipc_get_comp ipc' (comp_id c) w' = Some icd \<and> state (devs w' (icd_cd ipc' icd)) = COMP_STATE_INIT) \<and>
    ipc_comp_new t (c\<lparr>comp_type := ty\<rparr>) ipc' w' = Some (- EINVAL, ipc', w') \<and>
    (i \<noteq> comp_id c \<longrightarrow> ipc_get_comp ipc i w = None \<longrightarrow> ipc_get_comp ipc' i w' = None) \<and>
    (unique_ids ipc w \<longrightarrow> unique_ids ipc' w')"
proof -
  obtain icd cd where new: "ipc_get_comp ipc (comp_id c) w = None"
    "ipc' = ipc\<lparr>icd_cd := (icd_cd ipc)(icd := cd), comp_list := comp_list ipc @ [icd]\<rparr>"
    "comp_id (comp (devs w' cd)) = comp_id c" "state (devs w' cd) = COMP_STATE_INIT"
    "\<forall>x. x \<noteq> cd \<longrightarrow> devs w' x = devs w x"
    using ipc_comp_new_cases [OF t n] by auto
  have old: "j \<in> set (comp_list ipc) \<and> icd_cd ipc j = icd_cd ipc' j \<and> comp_id_of ipc w j = comp_id_of ipc' w' j \<and> comp_id_of ipc' w' j \<noteq> comp_id c"
    if j: "j \<in> set (comp_list ipc')" "icd_cd ipc' j \<noteq> cd" for j
  proof -
    have "j \<noteq> icd" using j(2) new(2) by auto
    then have m: "j \<in> set (comp_list ipc)" "icd_cd ipc j = icd_cd ipc' j" using j(1) new(2) by auto
    have e: "devs w' (icd_cd ipc' j) = devs w (icd_cd ipc' j)" using new(5) j(2) by blast
    have "comp_id_of ipc w j \<noteq> comp_id c" using new(1) m(1) find_icd(1) [of ipc "comp_id c" w] by blast
    then show ?thesis using m e by simp
  qed
  have here: "icd \<in> set (comp_list ipc')" "comp_id_of ipc' w' icd = comp_id c" using new(2,3) by simp_all
  then obtain j where j: "ipc_get_comp ipc' (comp_id c) w' = Some j"
    using find_icd(1) [of ipc' "comp_id c" w'] by (cases "ipc_get_comp ipc' (comp_id c) w'") auto
  then have "icd_cd ipc' j = cd" using find_icd(2) [OF j] old by blast
  then have "\<exists>icd. ipc_get_comp ipc' (comp_id c) w' = Some icd \<and> state (devs w' (icd_cd ipc' icd)) = COMP_STATE_INIT"
    using j new(4) by simp
  moreover have "ipc_comp_new t (c\<lparr>comp_type := ty\<rparr>) ipc' w' = Some (- EINVAL, ipc', w')"
    using j by (simp add: ipc_comp_new_def)
  moreover have "ipc_get_comp ipc' i w' = None" if "i \<noteq> comp_id c" "ipc_get_comp ipc i w = None"
    unfolding find_icd(1)
  proof
    fix j assume j: "j \<in> set (comp_list ipc')"
    show "comp_id_of ipc' w' j \<noteq> i"
      using old [OF j] that new(3) find_icd(1) by (cases "icd_cd ipc' j = cd") auto
  qed
  moreover have "unique_ids ipc' w'" if u: "unique_ids ipc w"
    unfolding unique_ids_def
  proof (intro ballI impI)
    fix a b assume ab: "a \<in> set (comp_list ipc')" "b \<in> set (comp_list ipc')" "comp_id_of ipc' w' a = comp_id_of ipc' w' b"
    show "icd_cd ipc' a = icd_cd ipc' b"
    proof (cases "icd_cd ipc' a = cd \<or> icd_cd ipc' b = cd")
      case True
      then show ?thesis using old [OF ab(1)] old [OF ab(2)] ab(3) new(3) by metis
    next
      case False
      then show ?thesis using old [OF ab(1)] old [OF ab(2)] ab(3) u unfolding unique_ids_def by metis
    qed
  qed
  ultimately show ?thesis by blast
qed

text \<open>A world with the volume driver registered and a small heap.\<close>

definition small_heap :: memmap where
  "small_heap = heap0\<lparr>rt_heap_map := [(BLOCK_DEF 256 4)\<lparr>base := 0xFF308800\<rparr>]\<rparr>"

definition volume_world :: vol_world where
  "volume_world = (quiet_world [0] [0])\<lparr>mm := small_heap, drivers := [\<lparr>drv_ptr = 7, drv_type = SOF_COMP_VOLUME\<rparr>]\<rparr>"

definition no_objects :: ipc where
  "no_objects = \<lparr>comp_list = [], buffer_list = [], pipeline_list = [], icd_cd = (\<lambda>_. 0), ibd_cb = (\<lambda>_. 0),
     ipd_pipe = (\<lambda>_. 0), pipes = (\<lambda>_. \<lparr>pipe_id = 0, ipc_pipe = \<lparr>pn_pipeline_id = 0, pn_core = 0, pn_priority = 0\<rparr>, task_sdata = 0\<rparr>)\<rparr>"

abbreviation volume_ops :: "vol_world ops_table" where
  "volume_ops \<equiv> (\<lambda>_. comp_volume (vols volume_world 0))"

abbreviation a_volume :: ipc_comp where
  "a_volume \<equiv> \<lparr>comp_id = 5, comp_type = SOF_COMP_VOLUME, host_direction = 0\<rparr>"

lemma volume_created: "\<exists>ipc' w'. ipc_comp_new volume_ops a_volume no_objects volume_world = Some (0, ipc', w')"
proof -
  have "(case ipc_comp_new volume_ops a_volume no_objects volume_world of Some (r, ipc', w') \<Rightarrow> r = 0 | None \<Rightarrow> False)"
    by code_simp
  then show ?thesis by (auto split: option.splits)
qed

lemma volume_ctors: "ctors volume_ops"
  using volume_ctor.ctor_axioms by (simp add: ctors_def comp_volume_def)

lemma comp_created_witness:
  "\<exists>ipc' w' icd. ipc_comp_new volume_ops a_volume no_objects volume_world = Some (0, ipc', w') \<and>
     ipc_get_comp ipc' 5 w' = Some icd \<and> unique_ids ipc' w'"
proof -
  obtain ipc' w' where n: "ipc_comp_new volume_ops a_volume no_objects volume_world = Some (0, ipc', w')"
    using volume_created by blast
  have "unique_ids no_objects volume_world" by (simp add: unique_ids_def no_objects_def)
  with comp_created [OF volume_ctors n] n show ?thesis by auto
qed

section \<open>Buffers\<close>

lemma find_ibd:
  "ipc_get_buffer ipc i w = None \<longleftrightarrow> (\<forall>ibd \<in> set (buffer_list ipc). ipc_id (bufs w (ibd_cb ipc ibd)) \<noteq> i)"
  "ipc_get_buffer ipc i w = Some ibd \<Longrightarrow> ibd \<in> set (buffer_list ipc) \<and> ipc_id (bufs w (ibd_cb ipc ibd)) = i"
  by (auto simp: ipc_get_buffer_def find_None_iff find_Some_iff)

lemma buffer_new_bufs:
  assumes "buffer_new i sz pre w = Some (b, w')" "b \<noteq> 0"
  shows "b_source (bufs w' b) = 0" "ipc_id (bufs w' b) = i" "x \<noteq> b \<Longrightarrow> bufs w' x = bufs w x"
  using assms by (auto simp: buffer_new_def bind_eq_Some_conv zero_buffer_def Let_def split: if_splits)

text \<open>
  a buffer the host has created but not connected cannot be freed: \<open>buffer_free\<close> unlinks it from
  its two components before it looks at anything, and the links of a new buffer are \<open>NULL\<close>.
\<close>

theorem unconnected_buffer_free_faults:
  assumes n: "ipc_buffer_new i sz pre ipc w = Some (0, ipc', w')"
  shows "ipc_buffer_free i ipc' w' = None"
proof -
  have none: "ipc_get_buffer ipc i w = None"
    using n by (cases "ipc_get_buffer ipc i w") (simp_all add: ipc_buffer_new_def)
  then obtain b w1 where b: "buffer_new i sz pre w = Some (b, w1)"
    using n by (auto simp: ipc_buffer_new_def bind_eq_Some_conv)
  have bz: "b \<noteq> 0" using n none b by (auto simp: ipc_buffer_new_def bind_eq_Some_conv)
  obtain ibd h m where z: "rzalloc RZONE_RUNTIME RFLAGS_NONE sizeof_ipc_dev (mm w1, wmem w1) = Some (ibd, h, m)"
    using n none b bz by (auto simp: ipc_buffer_new_def bind_eq_Some_conv)
  have "ibd \<noteq> 0" using n none b bz z by (auto simp: ipc_buffer_new_def bind_eq_Some_conv)
  then have e: "ipc' = ipc\<lparr>ibd_cb := (ibd_cb ipc)(ibd := b), buffer_list := buffer_list ipc @ [ibd]\<rparr>"
    "w' = w1\<lparr>mm := h, wmem := m\<rparr>"
    using n none b bz z by (simp_all add: ipc_buffer_new_def)
  note nb = buffer_new_bufs [OF b bz]
  have here: "ipc_get_buffer ipc' i w' \<noteq> None"
    unfolding find_ibd(1) e by (simp add: nb(2))
  then obtain j where j: "ipc_get_buffer ipc' i w' = Some j" by blast
  note fj = find_ibd(2) [OF j]
  have "ibd_cb ipc' j = b"
  proof (rule ccontr)
    assume nb': "ibd_cb ipc' j \<noteq> b"
    then have "j \<noteq> ibd" using e(1) by auto
    then have m: "j \<in> set (buffer_list ipc)" "ibd_cb ipc' j = ibd_cb ipc j" using fj e(1) by auto
    then have "ipc_id (bufs w (ibd_cb ipc j)) = i" using fj nb(3) [of "ibd_cb ipc j"] nb' e(2) by simp
    then show False using none m(1) find_ibd(1) [of ipc i w] by blast
  qed
  then have "buffer_free (ibd_cb ipc' j) w' = None"
    using nb(1) e(2) by (simp add: buffer_free_def)
  then show ?thesis using j by (simp add: ipc_buffer_free_def)
qed

lemma buffer_created: "\<exists>ipc' w'. ipc_buffer_new 9 384 0 no_objects (volume_world\<lparr>wmem := (\<lambda>_. 0)\<rparr>) = Some (0, ipc', w')"
proof -
  have "(case ipc_buffer_new 9 384 0 no_objects (volume_world\<lparr>wmem := (\<lambda>_. 0)\<rparr>) of Some (r, ipc', w') \<Rightarrow> r = 0 | None \<Rightarrow> False)"
    by code_simp
  then show ?thesis by (auto split: option.splits)
qed

lemma unconnected_buffer_free_faults_witness:
  "\<exists>ipc' w'. ipc_buffer_new 9 384 0 no_objects (volume_world\<lparr>wmem := (\<lambda>_. 0)\<rparr>) = Some (0, ipc', w') \<and> ipc_buffer_free 9 ipc' w' = None"
  using buffer_created unconnected_buffer_free_faults by blast

section \<open>Pipelines\<close>

inductive ipc_step :: "'a world_scheme ops_table \<Rightarrow> ipc \<times> 'a world_scheme \<Rightarrow> ipc \<times> 'a world_scheme \<Rightarrow> bool" for t where
  st_comp_new: "ipc_comp_new t c ipc w = Some (r, ipc', w') \<Longrightarrow> ipc_step t (ipc, w) (ipc', w')"
| st_comp_free: "ipc_comp_free t i ipc w = Some (ipc', w') \<Longrightarrow> ipc_step t (ipc, w) (ipc', w')"
| st_buffer_new: "ipc_buffer_new i sz pre ipc w = Some (r, ipc', w') \<Longrightarrow> ipc_step t (ipc, w) (ipc', w')"
| st_buffer_free: "ipc_buffer_free i ipc w = Some (ipc', w') \<Longrightarrow> ipc_step t (ipc, w) (ipc', w')"
| st_pipeline_new: "ipc_pipeline_new desc ipc w = Some (r, ipc', w') \<Longrightarrow> ipc_step t (ipc, w) (ipc', w')"
| st_pipeline_free: "ipc_pipeline_free i ipc w = Some (ipc', w') \<Longrightarrow> ipc_step t (ipc, w) (ipc', w')"
| st_comp_connect: "ipc_comp_connect cc ipc w = (r, w') \<Longrightarrow> ipc_step t (ipc, w) (ipc, w')"
| st_pipe_connect: "ipc_pipe_connect_op pp ipc w = (r, w') \<Longrightarrow> ipc_step t (ipc, w) (ipc, w')"

inductive_cases ipc_stepE: "ipc_step t s s'"

inductive ipc_reach :: "'a world_scheme ops_table \<Rightarrow> ipc \<times> 'a world_scheme \<Rightarrow> bool" for t where
  ipc_start: "ipc_reach t (ipc_init ipc, w)"
| ipc_next: "ipc_reach t s \<Longrightarrow> ipc_step t s s' \<Longrightarrow> ipc_reach t s'"

definition ids_zero :: "ipc \<Rightarrow> bool" where
  "ids_zero ipc \<longleftrightarrow> (\<forall>ipd \<in> set (pipeline_list ipc). pipe_id (pipes ipc (ipd_pipe ipc ipd)) = 0)"

lemma ids_zero_cong:
  "pipeline_list ipc' = pipeline_list ipc \<Longrightarrow> pipes ipc' = pipes ipc \<Longrightarrow> ipd_pipe ipc' = ipd_pipe ipc \<Longrightarrow>
     ids_zero ipc \<Longrightarrow> ids_zero ipc'"
  by (simp add: ids_zero_def)

lemma pipeline_new_zero:
  assumes "pipeline_new desc (ps, v) = Some (p, ps', v')"
  shows "pipe_id (ps x) = 0 \<Longrightarrow> pipe_id (ps' x) = 0" "p \<noteq> 0 \<Longrightarrow> pipe_id (ps' p) = 0"
  using assms by (auto simp: pipeline_new_def bind_eq_Some_conv Let_def split: if_splits)

lemma pipeline_new_ids:
  assumes z: "ids_zero ipc" and n: "ipc_pipeline_new desc ipc w = Some (r, ipc', w')"
  shows "ids_zero ipc'"
proof (cases "ipc_get_pipeline ipc (pn_pipeline_id desc)")
  case (Some a)
  then show ?thesis using n z by (simp add: ipc_pipeline_new_def Let_def)
next
  case None
  then obtain p ps' w1 where p: "pipeline_new desc (pipes ipc, w) = Some (p, ps', w1)"
    using n by (auto simp: ipc_pipeline_new_def bind_eq_Some_conv Let_def)
  have keep: "ids_zero (ipc\<lparr>pipes := ps'\<rparr>)"
    using z pipeline_new_zero(1) [OF p] by (simp add: ids_zero_def)
  show ?thesis
  proof (cases "p = 0")
    case True
    then show ?thesis using n None p keep by (simp add: ipc_pipeline_new_def Let_def)
  next
    case False
    obtain ipd h m where a: "rzalloc RZONE_RUNTIME RFLAGS_NONE sizeof_ipc_dev (mm w1, wmem w1) = Some (ipd, h, m)"
      using n None p False by (auto simp: ipc_pipeline_new_def bind_eq_Some_conv Let_def)
    show ?thesis
    proof (cases "ipd = 0")
      case True
      then show ?thesis using n None p False a keep by (auto simp: ipc_pipeline_new_def bind_eq_Some_conv Let_def)
    next
      case ipd: False
      then have "ipc' = (ipc\<lparr>pipes := ps'\<rparr>)\<lparr>ipd_pipe := (ipd_pipe ipc)(ipd := p), pipeline_list := pipeline_list ipc @ [ipd]\<rparr>"
        using n None p False a by (simp add: ipc_pipeline_new_def Let_def)
      then show ?thesis using keep pipeline_new_zero(2) [OF p False] by (simp add: ids_zero_def)
    qed
  qed
qed

lemma step_ids_zero:
  assumes "ipc_step t s s'" "ids_zero (fst s)" shows "ids_zero (fst s')"
  using assms(1)
proof (rule ipc_stepE)
  fix c ipc w r ipc' w' assume s: "s = (ipc, w)" "s' = (ipc', w')" "ipc_comp_new t c ipc w = Some (r, ipc', w')"
  then show ?thesis using assms(2)
    by (intro ids_zero_cong [of "fst s'" "fst s"])
       (auto simp: ipc_comp_new_def bind_eq_Some_conv Let_def split: if_splits)
next
  fix i ipc w ipc' w' assume s: "s = (ipc, w)" "s' = (ipc', w')" "ipc_comp_free t i ipc w = Some (ipc', w')"
  then show ?thesis using assms(2)
    by (intro ids_zero_cong [of "fst s'" "fst s"])
       (auto simp: ipc_comp_free_def bind_eq_Some_conv split: option.splits)
next
  fix i sz pre ipc w r ipc' w' assume s: "s = (ipc, w)" "s' = (ipc', w')" "ipc_buffer_new i sz pre ipc w = Some (r, ipc', w')"
  then show ?thesis using assms(2)
    by (intro ids_zero_cong [of "fst s'" "fst s"])
       (auto simp: ipc_buffer_new_def bind_eq_Some_conv Let_def split: if_splits)
next
  fix i ipc w ipc' w' assume s: "s = (ipc, w)" "s' = (ipc', w')" "ipc_buffer_free i ipc w = Some (ipc', w')"
  then show ?thesis using assms(2)
    by (intro ids_zero_cong [of "fst s'" "fst s"])
       (auto simp: ipc_buffer_free_def bind_eq_Some_conv split: option.splits)
next
  fix desc ipc w r ipc' w' assume s: "s = (ipc, w)" "s' = (ipc', w')" "ipc_pipeline_new desc ipc w = Some (r, ipc', w')"
  then show ?thesis using assms(2) pipeline_new_ids by auto
next
  fix i ipc w ipc' w' assume s: "s = (ipc, w)" "s' = (ipc', w')" "ipc_pipeline_free i ipc w = Some (ipc', w')"
  then show ?thesis using assms(2)
    by (auto simp: ipc_pipeline_free_def bind_eq_Some_conv ids_zero_def dest: notin_set_remove1 split: option.splits)
qed (use assms(2) in auto)

text \<open>
  \<open>pipeline_new\<close> never stores the id it is asked for, so in every state the host can reach a
  pipeline of a non-zero id is not found: it can be created again and again, connecting components
  on it always fails with \<open>-EINVAL\<close> or a positive \<open>EINVAL\<close>, and freeing it does nothing.
\<close>

theorem pipeline_ids_lost:
  assumes "ipc_reach t (ipc, w)" and "pid \<noteq> 0"
  shows "ipc_get_pipeline ipc pid = None \<and>
    ipc_comp_connect (cc\<lparr>cc_pipeline_id := pid\<rparr>) ipc w = (- EINVAL, w) \<and>
    ipc_pipe_connect_op (pp\<lparr>pp_pipeline_source_id := pid\<rparr>) ipc w = (EINVAL, w) \<and>
    ipc_pipeline_free pid ipc w = Some (ipc, w) \<and>
    ipc_pipeline_new (desc\<lparr>pn_pipeline_id := pid\<rparr>) ipc w \<noteq> Some (EINVAL, ipc', w')"
proof -
  have "ids_zero (fst s)" if "ipc_reach t s" for s
    using that
  proof (induction rule: ipc_reach.induct)
    case (ipc_start ipc w)
    then show ?case by (simp add: ids_zero_def ipc_init_def)
  next
    case (ipc_next s s')
    then show ?case by (blast intro: step_ids_zero)
  qed
  then have "ids_zero ipc" using assms(1) by fastforce
  then have n: "ipc_get_pipeline ipc pid = None"
    using assms(2) by (auto simp: ipc_get_pipeline_def ids_zero_def find_None_iff)
  have "ipc_pipeline_new (desc\<lparr>pn_pipeline_id := pid\<rparr>) ipc w \<noteq> Some (EINVAL, ipc', w')"
    using n by (auto simp: ipc_pipeline_new_def bind_eq_Some_conv Let_def split: if_splits)
  then show ?thesis using n
    by (simp add: ipc_comp_connect_def ipc_pipe_connect_op_def ipc_pipeline_free_def split: option.split)
qed

lemma pipeline_ids_lost_witness: "ipc_get_pipeline (ipc_init no_objects) 1 = None"
  using pipeline_ids_lost [OF ipc_start [of volume_ops no_objects volume_world], of 1] by simp

text \<open>
  connecting two components by a buffer on an existing pipeline makes the buffer a sink of the
  one and a source of the other, marks it connected and puts both components on the pipeline.
\<close>

theorem comp_connect_links:
  assumes "ipc_get_comp ipc (cc_source_id cc) w = Some a" and "ipc_get_comp ipc (cc_sink_id cc) w = Some z"
    and "ipc_get_buffer ipc (cc_buffer_id cc) w = Some b" and "ipc_get_pipeline ipc (cc_pipeline_id cc) = Some p"
    and d: "icd_cd ipc a \<noteq> icd_cd ipc z"
  shows "\<exists>w'. ipc_comp_connect cc ipc w = (0, w') \<and>
    bsink_list (devs w' (icd_cd ipc a)) = ibd_cb ipc b # bsink_list (devs w (icd_cd ipc a)) \<and>
    bsource_list (devs w' (icd_cd ipc z)) = ibd_cb ipc b # bsource_list (devs w (icd_cd ipc z)) \<and>
    b_source (bufs w' (ibd_cb ipc b)) = icd_cd ipc a \<and> b_sink (bufs w' (ibd_cb ipc b)) = icd_cd ipc z \<and>
    connected (bufs w' (ibd_cb ipc b)) = 1 \<and>
    pipeline_of (devs w' (icd_cd ipc a)) = ipd_pipe ipc p \<and> pipeline_of (devs w' (icd_cd ipc z)) = ipd_pipe ipc p \<and>
    down_ok (icd_cd ipc a) (ibd_cb ipc b) w' \<and> up_ok (icd_cd ipc z) (ibd_cb ipc b) w'"
proof -
  let ?r = "pipeline_comp_connect (ipd_pipe ipc p) (icd_cd ipc a) (icd_cd ipc z) (ibd_cb ipc b) w"
  have "ipc_comp_connect cc ipc w = (0, snd ?r)"
    using assms(1-4) by (simp add: ipc_comp_connect_def pipeline_comp_connect_def Let_def)
  then show ?thesis
    by (intro exI [of _ "snd ?r"]) (use d in \<open>simp add: pipeline_comp_connect_def Let_def down_ok_def up_ok_def\<close>)
qed

definition two_comps :: ipc where
  "two_comps = no_objects\<lparr>comp_list := [1, 2], buffer_list := [3], pipeline_list := [4], icd_cd := (\<lambda>i. i * 16), ibd_cb := (\<lambda>_. 48)\<rparr>"

definition comps_world :: vol_world where
  "comps_world = upd_dev 32 (\<lambda>d. d\<lparr>comp := (comp d)\<lparr>comp_id := 7\<rparr>\<rparr>) volume_world"

lemma comp_connect_links_witness:
  "\<exists>w'. ipc_comp_connect \<lparr>cc_pipeline_id = 0, cc_source_id = 0, cc_buffer_id = 0, cc_sink_id = 7\<rparr> two_comps comps_world = (0, w') \<and>
    bsink_list (devs w' 16) = [48] \<and> bsource_list (devs w' 32) = [48]"
proof -
  have e: "ipc_get_comp two_comps 0 comps_world = Some 1" "ipc_get_comp two_comps 7 comps_world = Some 2"
    "ipc_get_buffer two_comps 0 comps_world = Some 3" "ipc_get_pipeline two_comps 0 = Some 4"
    "icd_cd two_comps 1 = 16" "icd_cd two_comps 2 = 32" "ibd_cb two_comps 3 = 48"
    "bsink_list (devs comps_world 16) = []" "bsource_list (devs comps_world 32) = []"
    by (simp_all add: ipc_get_comp_def ipc_get_buffer_def ipc_get_pipeline_def two_comps_def no_objects_def comps_world_def
        volume_world_def quiet_world_def world.extend_def empty_world_def zero_buffer_def)
  from comp_connect_links [of two_comps "\<lparr>cc_pipeline_id = 0, cc_source_id = 0, cc_buffer_id = 0, cc_sink_id = 7\<rparr>" comps_world 1 2 3 4]
  show ?thesis using e by auto
qed

end
