(* ===== verification/Reef_Fir.thy ===== *)
theory Reef_Fir
  imports Reef_Format
begin

unbundle bit_operations_syntax

text \<open>
  The FIR filter of src/src/audio/fir.c and fir.h: 32 bit samples, 16 bit coefficients, a circular
  delay line. The delay lines of all channels lie in one allocated chunk, here the list \<open>pool\<close>; a
  filter's \<open>delay\<close> is the index of its line in the pool, \<open>None\<close> for \<open>NULL\<close>. The coefficients are
  the rest of the configuration array from the position \<open>coef\<close> pointed to. The C \<open>int\<close> fields are
  \<open>int\<close>s; no operation brings them near the bounds of 32 bits. A result \<open>None\<close> is an access outside
  an array, through \<open>NULL\<close>, or a shift by a negative count or by the width of the operand or more.
\<close>

section \<open>State\<close>

abbreviation (input) MAX_FIR_LENGTH :: int where "MAX_FIR_LENGTH \<equiv> 192"

record fir_state =
  mute :: bool
  rwi :: int
  taps :: int
  delay_size :: int
  in_shift :: int
  out_shift :: int
  coef :: "s16 list"
  delay :: "nat option"

section \<open>Setting up a filter\<close>

text \<open>\<open>fir_reset\<close> leaves the pointer to the delay line as it is.\<close>

definition fir_reset :: "fir_state \<Rightarrow> fir_state" where
  "fir_reset fir = fir\<lparr>mute := True, rwi := 0, taps := 0, delay_size := 0, in_shift := 0, out_shift := 0, coef := []\<rparr>"

definition fir_init_coef :: "fir_state \<Rightarrow> s16 list \<Rightarrow> (int \<times> fir_state) option" where
  "fir_init_coef fir config = do {
     len \<leftarrow> aget config 0;
     ish \<leftarrow> aget config 1;
     osh \<leftarrow> aget config 2;
     let fir = fir\<lparr>mute := False, rwi := 0, taps := sint len, in_shift := sint ish, out_shift := sint osh,
                   coef := drop 3 config, delay := None, delay_size := 0\<rparr>;
     Some (if MAX_FIR_LENGTH < taps fir \<or> taps fir < 1 then - EINVAL else taps fir, fir) }"

text \<open>\<open>data\<close> is the position of the next free delay line in the pool.\<close>

definition fir_init_delay :: "fir_state \<Rightarrow> int \<Rightarrow> fir_state \<times> int" where
  "fir_init_delay fir data = (fir\<lparr>delay := Some (nat data), delay_size := taps fir\<rparr>, data + taps fir)"

definition fir_mute :: "fir_state \<Rightarrow> fir_state" where "fir_mute fir = fir\<lparr>mute := True\<rparr>"
definition fir_unmute :: "fir_state \<Rightarrow> fir_state" where "fir_unmute fir = fir\<lparr>mute := False\<rparr>"

section \<open>Filtering\<close>

text \<open>\<open>fir_part_32x16\<close>: \<open>n\<close> taps, from coefficient \<open>ic\<close> up and from delay index \<open>id\<close> down.\<close>

fun fir_part_32x16 :: "s64 \<Rightarrow> nat \<Rightarrow> s16 list \<Rightarrow> int \<Rightarrow> s32 list \<Rightarrow> nat \<Rightarrow> int \<Rightarrow> (s64 \<times> int) option" where
  "fir_part_32x16 y 0 c ic pool d idx = Some (y, ic)"
| "fir_part_32x16 y (Suc n) c ic pool d idx = do {
     ck \<leftarrow> iget c ic;
     dk \<leftarrow> iget pool (int d + idx);
     fir_part_32x16 (y + scast ck * scast dk) n c (ic + 1) pool d (idx - 1) }"

definition fir_32x16 :: "fir_state \<Rightarrow> s32 list \<Rightarrow> s32 \<Rightarrow> (s32 \<times> fir_state \<times> s32 list) option" where
  "fir_32x16 fir pool x = do {
     d \<leftarrow> delay fir;
     if in_shift fir < 0 \<or> 31 < in_shift fir \<or> 15 + out_shift fir < 0 \<or> 63 < 15 + out_shift fir then None
     else do {
       pool \<leftarrow> iset pool (int d + rwi fir) (signed_drop_bit (nat (in_shift fir)) x);
       let n1 = rwi fir + 1;
       let tmp_ri = rwi fir;
       let fir = fir\<lparr>rwi := (if rwi fir + 1 = delay_size fir then 0 else rwi fir + 1)\<rparr>;
       y \<leftarrow> (if taps fir < n1 then map_option fst (fir_part_32x16 0 (nat (taps fir)) (coef fir) 0 pool d tmp_ri)
             else do {
               (y, i) \<leftarrow> fir_part_32x16 0 (nat n1) (coef fir) 0 pool d tmp_ri;
               map_option fst (fir_part_32x16 y (nat (taps fir - n1)) (coef fir) i pool d (delay_size fir - 1)) });
       let out = sat_int32 (signed_drop_bit (nat (15 + out_shift fir)) y);
       Some (if mute fir then 0 else out, fir, pool) } }"

section \<open>The reference filter\<close>

text \<open>
  Direct convolution: \<open>conv\<close> of the coefficients with the inputs, the newest first; the output is
  the sum scaled down by \<open>15 + out_shift\<close> bits and saturated.
\<close>

definition conv :: "int list \<Rightarrow> int list \<Rightarrow> int" where
  "conv c h = (\<Sum>(a, b) \<leftarrow> zip c h. a * b)"

definition fir_out :: "fir_state \<Rightarrow> s32 list \<Rightarrow> int" where
  "fir_out fir h =
     (if mute fir then 0
      else clamp INT32_MINVALUE INT32_MAXVALUE
        (conv (map sint (take (nat (taps fir)) (coef fir))) (map sint h) div 2 ^ nat (15 + out_shift fir)))"

definition fir_ok :: "fir_state \<Rightarrow> s32 list \<Rightarrow> bool" where
  "fir_ok fir pool \<longleftrightarrow> 1 \<le> taps fir \<and> taps fir \<le> MAX_FIR_LENGTH \<and> delay_size fir = taps fir \<and>
     0 \<le> rwi fir \<and> rwi fir < taps fir \<and> 0 \<le> in_shift fir \<and> in_shift fir \<le> 31 \<and> 0 \<le> 15 + out_shift fir \<and>
     15 + out_shift fir \<le> 63 \<and>
     taps fir \<le> int (length (coef fir)) \<and> delay fir \<noteq> None \<and> the (delay fir) + nat (taps fir) \<le> length pool"

text \<open>The delay line as the list of the inputs it holds, the newest first.\<close>

definition history :: "fir_state \<Rightarrow> s32 list \<Rightarrow> s32 list" where
  "history fir pool = map (\<lambda>k. pool ! (the (delay fir) + nat ((rwi fir - 1 - int k) mod taps fir))) [0 ..< nat (taps fir)]"

definition line :: "fir_state \<Rightarrow> nat set" where
  "line fir = {the (delay fir) ..< the (delay fir) + nat (taps fir)}"

section \<open>One sample\<close>

lemma fir_part_sum:
  assumes "0 \<le> ic" "ic + int n \<le> int (length c)" "int n \<le> idx + 1" "int d + idx < int (length pool)"
    and "\<bar>sint y\<bar> + int n * 2 ^ 46 < 2 ^ 60"
  shows "\<exists>y'. fir_part_32x16 y n c ic pool d idx = Some (y', ic + int n) \<and>
    sint y' = sint y + (\<Sum>k < n. sint (c ! (nat ic + k)) * sint (pool ! nat (int d + idx - int k))) \<and>
    \<bar>sint y'\<bar> \<le> \<bar>sint y\<bar> + int n * 2 ^ 46"
  using assms
proof (induction n arbitrary: y ic idx)
  case (Suc n)
  let ?ck = "c ! nat ic" and ?dk = "pool ! nat (int d + idx)"
  have r: "iget c ic = Some ?ck" "iget pool (int d + idx) = Some ?dk"
    using Suc.prems by (simp_all add: nat_less_iff)
  have pb: "\<bar>sint ?ck * sint ?dk\<bar> \<le> 32768 * 2147483648"
    using sint_range16 [of ?ck] sint_range32 [of ?dk] by (intro abs_prod_bound) arith+
  have m: "sint (scast ?ck * scast ?dk :: s64) = sint ?ck * sint ?dk"
    using pb by (subst sint_mult_fits) simp_all
  let ?y = "y + scast ?ck * scast ?dk"
  have "\<bar>sint y\<bar> < 2 ^ 60" using Suc.prems(5) by simp
  then have "\<bar>sint y + sint ?ck * sint ?dk\<bar> < 2 ^ 63" using pb by simp
  then have y: "sint ?y = sint y + sint ?ck * sint ?dk" using m by (subst sint_add_fits) (simp_all add: abs_less_iff)
  have yb: "\<bar>sint ?y\<bar> \<le> \<bar>sint y\<bar> + 2 ^ 46" using y pb abs_triangle_ineq [of "sint y" "sint ?ck * sint ?dk"] by simp
  have "\<bar>sint ?y\<bar> + int n * 2 ^ 46 < 2 ^ 60" using yb Suc.prems(5) by (simp add: algebra_simps)
  from Suc.IH [of "ic + 1" "idx - 1" ?y] this Suc.prems obtain y' where
    y': "fir_part_32x16 ?y n c (ic + 1) pool d (idx - 1) = Some (y', ic + 1 + int n)"
    "sint y' = sint ?y + (\<Sum>k < n. sint (c ! (nat (ic + 1) + k)) * sint (pool ! nat (int d + (idx - 1) - int k)))"
    "\<bar>sint y'\<bar> \<le> \<bar>sint ?y\<bar> + int n * 2 ^ 46" by auto
  have "(\<Sum>k < Suc n. sint (c ! (nat ic + k)) * sint (pool ! nat (int d + idx - int k)))
      = sint ?ck * sint ?dk + (\<Sum>k < n. sint (c ! (nat ic + Suc k)) * sint (pool ! nat (int d + idx - int (Suc k))))"
    by (subst sum.lessThan_Suc_shift) simp
  moreover have "nat (ic + 1) + k = nat ic + Suc k" "nat (int d + (idx - 1) - int k) = nat (int d + idx - int (Suc k))" for k
    using Suc.prems(1) by simp_all
  ultimately have "sint y' = sint y + (\<Sum>k < Suc n. sint (c ! (nat ic + k)) * sint (pool ! nat (int d + idx - int k)))"
    using y'(2) y by simp
  moreover have "\<bar>sint y'\<bar> \<le> \<bar>sint y\<bar> + int (Suc n) * 2 ^ 46" using y'(3) yb by (simp add: algebra_simps)
  moreover have "fir_part_32x16 y (Suc n) c ic pool d idx = Some (y', ic + int (Suc n))"
    using y'(1) by (simp only: fir_part_32x16.simps r bind.bind_lunit) simp
  ultimately show ?case by blast
qed simp

lemma conv_sum: "length c = length h \<Longrightarrow> conv c h = (\<Sum>k < length c. c ! k * h ! k)"
  unfolding conv_def by (simp add: sum_list_sum_nth atLeast0LessThan)

lemma history_len [simp]: "length (history fir pool) = nat (taps fir)"
  by (simp add: history_def)

lemma history_step:
  assumes ok: "fir_ok fir pool"
    and r': "0 \<le> r'" "r' mod taps fir = (rwi fir + 1) mod taps fir"
  shows "history (fir\<lparr>rwi := r'\<rparr>) (pool[the (delay fir) + nat (rwi fir) := v]) = take (nat (taps fir)) (v # history fir pool)"
    (is "?l = ?r")
proof (rule nth_equalityI)
  let ?L = "taps fir" and ?d = "the (delay fir)"
  have L: "1 \<le> ?L" "0 \<le> rwi fir" "rwi fir < ?L" "?d + nat ?L \<le> length pool" using ok by (simp_all add: fir_ok_def)
  show "length ?l = length ?r" using L by simp
  fix k assume "k < length ?l"
  then have k: "int k < ?L" "k < nat ?L" using L by simp_all
  have "(r' - (1 + int k)) mod ?L = (r' mod ?L - (1 + int k)) mod ?L" by (rule mod_diff_left_eq [symmetric])
  also have "\<dots> = (rwi fir + 1 - (1 + int k)) mod ?L" unfolding r'(2) by (rule mod_diff_left_eq)
  finally have idx: "(r' - 1 - int k) mod ?L = (rwi fir - int k) mod ?L" by (simp add: diff_diff_eq)
  have l: "?l ! k = pool[?d + nat (rwi fir) := v] ! (?d + nat ((rwi fir - int k) mod ?L))"
    using k idx by (simp add: history_def)
  show "?l ! k = ?r ! k"
  proof (cases k)
    case 0
    then show ?thesis using l L by (simp add: nth_list_update)
  next
    case (Suc j)
    have "(rwi fir - int k) mod ?L \<noteq> rwi fir"
      using tap_index [of "rwi fir" ?L "int k"] k L Suc by (auto split: if_splits)
    moreover have "0 \<le> (rwi fir - int k) mod ?L" using L by simp
    ultimately have "nat ((rwi fir - int k) mod ?L) \<noteq> nat (rwi fir)" using L(2) eq_nat_nat_iff by blast
    moreover have "rwi fir - 1 - int j = rwi fir - int k" using Suc by simp
    moreover have "?r ! k = pool ! (?d + nat ((rwi fir - 1 - int j) mod ?L))" using Suc k by (simp add: history_def)
    ultimately show ?thesis using l by (simp only: nth_list_update_neq add_left_cancel)
  qed
qed

lemma fir_32x16_spec:
  assumes ok: "fir_ok fir pool"
  shows "\<exists>out fir' pool'. fir_32x16 fir pool x = Some (out, fir', pool') \<and> fir_ok fir' pool' \<and>
    fir' = fir\<lparr>rwi := rwi fir'\<rparr> \<and>
    history fir' pool' = take (nat (taps fir)) (signed_drop_bit (nat (in_shift fir)) x # history fir pool) \<and>
    sint out = fir_out fir (history fir' pool') \<and>
    length pool' = length pool \<and> (\<forall>i. i \<notin> line fir \<longrightarrow> pool' ! i = pool ! i)"
proof -
  let ?L = "taps fir" and ?d = "the (delay fir)" and ?r = "rwi fir"
  let ?v = "signed_drop_bit (nat (in_shift fir)) x"
  let ?p = "pool[?d + nat ?r := ?v]"
  let ?r' = "if ?r + 1 = ?L then 0 else ?r + 1"
  let ?f = "fir\<lparr>rwi := ?r'\<rparr>"
  have L: "1 \<le> ?L" "?L \<le> 192" "0 \<le> ?r" "?r < ?L" "?d + nat ?L \<le> length pool" "delay_size fir = ?L"
    "delay fir = Some ?d" "?L \<le> int (length (coef fir))" "0 \<le> in_shift fir" "0 \<le> 15 + out_shift fir"
    "in_shift fir \<le> 31" "15 + out_shift fir \<le> 63"
    using ok by (auto simp: fir_ok_def)
  have nr: "nat (int ?d + ?r) = ?d + nat ?r" using L by simp
  have w: "iset pool (int ?d + ?r) ?v = Some ?p" using L nr by (simp add: nat_less_iff)
  have hist: "history ?f ?p = take (nat ?L) (?v # history fir pool)"
    by (rule history_step [OF ok]) (use L in auto)
  define h where "h = history ?f ?p"
  have hn: "h ! k = ?p ! (?d + nat ((?r - int k) mod ?L))" if "k < nat ?L" for k
  proof -
    have "(?r' - 1 - int k) mod ?L = (?r - int k) mod ?L"
    proof (cases "?r + 1 = ?L")
      case True
      have "(?r - int k) mod ?L = (?r - int k - ?L) mod ?L" by simp
      also have "?r - int k - ?L = 0 - 1 - int k" using True by simp
      finally show ?thesis using True by simp
    qed simp
    then show ?thesis using that unfolding h_def history_def by simp
  qed
  let ?n1 = "nat (?r + 1)" and ?n2 = "nat (?L - (?r + 1))"
  let ?g = "\<lambda>k. sint (coef fir ! k) * sint (h ! k)"
  have p1: "0 \<le> (0 :: int)" "0 + int ?n1 \<le> int (length (coef fir))" "int ?n1 \<le> ?r + 1"
    "int ?d + ?r < int (length ?p)" "\<bar>sint (0 :: s64)\<bar> + int ?n1 * 2 ^ 46 < 2 ^ 60" using L by simp_all
  from fir_part_sum [OF p1] obtain y1 where y1: "fir_part_32x16 0 ?n1 (coef fir) 0 ?p ?d ?r = Some (y1, int ?n1)"
    "sint y1 = (\<Sum>k < ?n1. sint (coef fir ! k) * sint (?p ! nat (int ?d + ?r - int k)))" "\<bar>sint y1\<bar> \<le> int ?n1 * 2 ^ 46"
    by auto
  have s1: "sint y1 = (\<Sum>k < ?n1. ?g k)"
    unfolding y1(2)
  proof (rule sum.cong [OF refl])
    fix k assume "k \<in> {..< ?n1}"
    then have k: "int k \<le> ?r" "k < nat ?L" using L by auto
    then have "(?r - int k) mod ?L = ?r - int k" using tap_index [of ?r ?L "int k"] L by simp
    moreover have "nat (int ?d + ?r - int k) = ?d + nat (?r - int k)" using k by simp
    ultimately show "sint (coef fir ! k) * sint (?p ! nat (int ?d + ?r - int k)) = ?g k" using hn [OF k(2)] by simp
  qed
  have n: "int ?n1 + int ?n2 = ?L" using L by simp
  have b: "\<bar>sint y1\<bar> + int ?n2 * 2 ^ 46 < 2 ^ 60"
  proof -
    have "\<bar>sint y1\<bar> + int ?n2 * 2 ^ 46 \<le> (int ?n1 + int ?n2) * 2 ^ 46" using y1(3) by (simp add: algebra_simps)
    also have "\<dots> \<le> 192 * 2 ^ 46" unfolding n using L(2) by simp
    finally show ?thesis by simp
  qed
  have p2: "0 \<le> int ?n1" "int ?n1 + int ?n2 \<le> int (length (coef fir))" "int ?n2 \<le> ?L - 1 + 1"
    "int ?d + (?L - 1) < int (length ?p)" using L by simp_all
  from fir_part_sum [OF p2 b] obtain y2 where y2: "fir_part_32x16 y1 ?n2 (coef fir) (int ?n1) ?p ?d (?L - 1) = Some (y2, int ?n1 + int ?n2)"
    "sint y2 = sint y1 + (\<Sum>k < ?n2. sint (coef fir ! (?n1 + k)) * sint (?p ! nat (int ?d + (?L - 1) - int k)))"
    unfolding nat_int by blast
  have s2: "sint y2 = (\<Sum>k < nat ?L. ?g k)"
  proof -
    have "(\<Sum>k < ?n2. sint (coef fir ! (?n1 + k)) * sint (?p ! nat (int ?d + (?L - 1) - int k))) = (\<Sum>k < ?n2. ?g (?n1 + k))"
    proof (rule sum.cong [OF refl])
      fix k assume "k \<in> {..< ?n2}"
      then have k: "int (?n1 + k) < ?L" "?n1 + k < nat ?L" "\<not> int (?n1 + k) \<le> ?r" using L by auto
      then have "(?r - int (?n1 + k)) mod ?L = ?L + ?r - int (?n1 + k)" using tap_index [of ?r ?L "int (?n1 + k)"] L by simp
      moreover have "nat (int ?d + (?L - 1) - int k) = ?d + nat (?L + ?r - int (?n1 + k))" using k L by simp
      ultimately show "sint (coef fir ! (?n1 + k)) * sint (?p ! nat (int ?d + (?L - 1) - int k)) = ?g (?n1 + k)"
        using hn [OF k(2)] by simp
    qed
    moreover have "?n1 + ?n2 = nat ?L" using L by simp
    ultimately show ?thesis using y2(2) s1 sum_split [of ?g ?n1 ?n2] by simp
  qed
  have len: "length (take (nat ?L) (coef fir)) = nat ?L" "length h = nat ?L" using L(8) by (simp_all add: h_def)
  have cv: "conv (map sint (take (nat ?L) (coef fir))) (map sint h) = sint y2"
    unfolding s2 by (subst conv_sum) (use len in \<open>simp_all add: len\<close>)
  let ?out = "if mute fir then 0 else sat_int32 (signed_drop_bit (nat (15 + out_shift fir)) y2)"
  have e: "fir_32x16 fir pool x = Some (?out, ?f, ?p)"
  proof -
    obtain d where d: "delay fir = Some d" using L(7) by blast
    have d': "the (delay fir) = d" using d by simp
    note y = y1(1) [unfolded d'] y2(1) [unfolded d'] and w = w [unfolded d']
    show ?thesis
    proof (cases "?r + 1 = ?L")
      case True
      then show ?thesis using L y unfolding fir_32x16_def d bind.bind_lunit by (simp add: w Let_def)
    next
      case False
      then show ?thesis using L y unfolding fir_32x16_def d bind.bind_lunit by (simp add: w Let_def)
    qed
  qed
  have o: "sint ?out = fir_out fir h" by (simp add: fir_out_def cv sint_sat_int32 sint_shr)
  have "fir_ok ?f ?p" using ok L by (auto simp: fir_ok_def)
  moreover have "\<forall>i. i \<notin> line fir \<longrightarrow> ?p ! i = pool ! i" using L by (auto simp: line_def nth_list_update)
  ultimately show ?thesis using e o hist unfolding h_def by (intro exI [of _ ?out] exI [of _ ?f] exI [of _ ?p]) simp
qed

section \<open>Streams\<close>

text \<open>A channel's samples, filtered one after the other.\<close>

fun fir_run :: "fir_state \<Rightarrow> s32 list \<Rightarrow> s32 list \<Rightarrow> (s32 list \<times> fir_state \<times> s32 list) option" where
  "fir_run fir pool [] = Some ([], fir, pool)"
| "fir_run fir pool (x # xs) = do {
     (y, fir, pool) \<leftarrow> fir_32x16 fir pool x;
     (ys, fir, pool) \<leftarrow> fir_run fir pool xs;
     Some (y # ys, fir, pool) }"

text \<open>The last \<open>taps\<close> inputs of a prefix, the newest first, on top of an earlier history.\<close>

definition window :: "fir_state \<Rightarrow> s32 list \<Rightarrow> s32 list \<Rightarrow> s32 list" where
  "window fir h xs = take (nat (taps fir)) (rev (map (signed_drop_bit (nat (in_shift fir))) xs) @ h)"

lemma window_Cons:
  "length h = nat (taps fir) \<Longrightarrow> 1 \<le> taps fir \<Longrightarrow>
   window fir (take (nat (taps fir)) (signed_drop_bit (nat (in_shift fir)) x # h)) xs = window fir h (x # xs)"
  by (simp add: window_def take_append)

lemma fir_run_spec:
  assumes "fir_ok fir pool"
  shows "\<exists>ys fir' pool'. fir_run fir pool xs = Some (ys, fir', pool') \<and> fir_ok fir' pool' \<and> fir' = fir\<lparr>rwi := rwi fir'\<rparr> \<and>
    length ys = length xs \<and>
    (\<forall>i < length xs. sint (ys ! i) = fir_out fir (window fir (history fir pool) (take (Suc i) xs))) \<and>
    history fir' pool' = window fir (history fir pool) xs \<and>
    length pool' = length pool \<and> (\<forall>i. i \<notin> line fir \<longrightarrow> pool' ! i = pool ! i)"
  using assms
proof (induction xs arbitrary: fir pool)
  case Nil
  then have "fir = fir\<lparr>rwi := rwi fir\<rparr>" "history fir pool = window fir (history fir pool) []" by (simp_all add: window_def)
  with Nil show ?case by auto
next
  case (Cons x xs)
  from fir_32x16_spec [OF Cons.prems, of x] obtain y fir1 pool1 where
    s: "fir_32x16 fir pool x = Some (y, fir1, pool1)" "fir_ok fir1 pool1" "fir1 = fir\<lparr>rwi := rwi fir1\<rparr>"
    "history fir1 pool1 = take (nat (taps fir)) (signed_drop_bit (nat (in_shift fir)) x # history fir pool)"
    "sint y = fir_out fir (history fir1 pool1)" "length pool1 = length pool" "\<forall>i. i \<notin> line fir \<longrightarrow> pool1 ! i = pool ! i" by blast
  from Cons.IH [OF s(2)] obtain ys fir2 pool2 where
    r: "fir_run fir1 pool1 xs = Some (ys, fir2, pool2)" "fir_ok fir2 pool2" "fir2 = fir1\<lparr>rwi := rwi fir2\<rparr>" "length ys = length xs"
    "\<forall>i < length xs. sint (ys ! i) = fir_out fir1 (window fir1 (history fir1 pool1) (take (Suc i) xs))"
    "length pool2 = length pool1" "\<forall>i. i \<notin> line fir1 \<longrightarrow> pool2 ! i = pool1 ! i"
    "history fir2 pool2 = window fir1 (history fir1 pool1) xs" by blast
  have f1: "taps fir1 = taps fir" "in_shift fir1 = in_shift fir" "line fir1 = line fir" "fir_out fir1 = fir_out fir" "window fir1 = window fir"
    using arg_cong [OF s(3), of taps] arg_cong [OF s(3), of in_shift] arg_cong [OF s(3), of line]
      arg_cong [OF s(3), of fir_out] arg_cong [OF s(3), of window]
    by (simp_all add: line_def fir_out_def window_def fun_eq_iff)
  have f2: "fir2 = fir\<lparr>rwi := rwi fir2\<rparr>" using arg_cong [OF s(3), of "\<lambda>f. f\<lparr>rwi := rwi fir2\<rparr>"] r(3) by simp
  have t: "1 \<le> taps fir" using Cons.prems by (simp add: fir_ok_def)
  have "sint ((y # ys) ! i) = fir_out fir (window fir (history fir pool) (take (Suc i) (x # xs)))" if "i < length (x # xs)" for i
  proof (cases i)
    case 0
    then show ?thesis using s(4,5) t by (simp add: window_def take_append nat_diff_distrib)
  next
    case (Suc j)
    then show ?thesis using that r(5) f1 by (simp add: s(4) window_Cons [OF history_len t])
  qed
  moreover have "fir_run fir pool (x # xs) = Some (y # ys, fir2, pool2)" using s(1) r(1) by simp
  moreover have "length (y # ys) = length (x # xs)" "length pool2 = length pool" using r(4,6) s(6) by simp_all
  moreover have "\<forall>i. i \<notin> line fir \<longrightarrow> pool2 ! i = pool ! i" using s(7) r(7) f1(3) by simp
  moreover have "history fir2 pool2 = window fir (history fir pool) (x # xs)"
    using r(8) f1(5) window_Cons [OF history_len t] by (simp add: s(4))
  ultimately show ?case using r(2) f2 by blast
qed

section \<open>A configured filter is a convolution\<close>

lemma fir_initial:
  assumes cfg: "fir_init_coef fir config = Some (n, f1)" "1 \<le> n" "nat n + 3 \<le> length config"
    and dly: "fir_init_delay f1 d = (f2, d')" "0 \<le> d" "nat d + nat n \<le> length pool"
    and sh: "0 \<le> sint (config ! 1)" "sint (config ! 1) \<le> 31" "- 15 \<le> sint (config ! 2)" "sint (config ! 2) \<le> 48"
  shows "fir_ok f2 pool" "taps f2 = n" "delay f2 = Some (nat d)" "\<not> mute f2" "coef f2 = drop 3 config" "rwi f2 = 0"
    "in_shift f2 = sint (config ! 1)" "out_shift f2 = sint (config ! 2)" "d' = d + n"
  using assms unfolding fir_init_coef_def fir_init_delay_def fir_ok_def
  by (auto simp: Let_def bind_eq_Some_conv split: if_splits)

lemma history_zero:
  assumes "delay f = Some d" "1 \<le> taps f" "\<forall>k < nat (taps f). pool ! (d + k) = 0"
  shows "history f pool = replicate (nat (taps f)) 0"
proof (rule nth_equalityI)
  fix k assume "k < length (history f pool)"
  then have k: "k < nat (taps f)" by simp
  have "nat ((rwi f - 1 - int k) mod taps f) < nat (taps f)" using assms(2) by simp
  then have "pool ! (d + nat ((rwi f - 1 - int k) mod taps f)) = 0" using assms(3) by blast
  then show "history f pool ! k = replicate (nat (taps f)) 0 ! k" using k assms(1) by (simp add: history_def)
qed simp

lemma window_zero_nth:
  assumes "i < length xs" "k < nat (taps f)"
  shows "window f (replicate (nat (taps f)) 0) (take (Suc i) xs) ! k =
    (if k \<le> i then signed_drop_bit (nat (in_shift f)) (xs ! (i - k)) else 0)"
  using assms by (auto simp: window_def nth_append rev_nth)

lemma window_len: "length h = nat (taps f) \<Longrightarrow> length (window f h xs) = nat (taps f)"
  by (simp add: window_def)

text \<open>
  C5: a filter set up from a configuration with its delay line cleared computes, sample by
  sample, the convolution of its coefficients with the inputs so far, shifted in and out by the
  configured counts and saturated to 32 bits. The two-part loop over the circular delay line and
  the 64 bit accumulator never fault and never overflow.
\<close>

theorem fir_is_convolution:
  assumes cfg: "fir_init_coef fir config = Some (n, f1)" "1 \<le> n" "nat n + 3 \<le> length config"
    and dly: "fir_init_delay f1 d = (f2, d')" "0 \<le> d" "nat d + nat n \<le> length pool"
    and zero: "\<forall>k < nat n. pool ! (nat d + k) = 0"
    and sh: "0 \<le> sint (config ! 1)" "sint (config ! 1) \<le> 31" "- 15 \<le> sint (config ! 2)" "sint (config ! 2) \<le> 48"
  shows "\<exists>ys f' pool'. fir_run f2 pool xs = Some (ys, f', pool') \<and> length ys = length xs \<and>
    (\<forall>i < length xs. sint (ys ! i) = clamp INT32_MINVALUE INT32_MAXVALUE
      ((\<Sum>k < nat n. sint (config ! (3 + k)) * (if k \<le> i then sint (xs ! (i - k)) div 2 ^ nat (sint (config ! 1)) else 0))
        div 2 ^ nat (15 + sint (config ! 2))))"
proof -
  note f2 = fir_initial [OF cfg dly sh]
  have h: "history f2 pool = replicate (nat n) 0"
    using history_zero [OF f2(3)] f2(2) cfg(2) zero by simp
  from fir_run_spec [OF f2(1), of xs] obtain ys f' pool' where r: "fir_run f2 pool xs = Some (ys, f', pool')" "length ys = length xs"
    "\<forall>i < length xs. sint (ys ! i) = fir_out f2 (window f2 (history f2 pool) (take (Suc i) xs))" by blast
  have "fir_out f2 (window f2 (history f2 pool) (take (Suc i) xs)) = clamp INT32_MINVALUE INT32_MAXVALUE
      ((\<Sum>k < nat n. sint (config ! (3 + k)) * (if k \<le> i then sint (xs ! (i - k)) div 2 ^ nat (sint (config ! 1)) else 0))
        div 2 ^ nat (15 + sint (config ! 2)))" if i: "i < length xs" for i
  proof -
    let ?w = "window f2 (replicate (nat n) 0) (take (Suc i) xs)" and ?c = "take (nat n) (drop 3 config)"
    have lw: "length ?w = nat n" using window_len [of "replicate (nat n) 0" f2] f2(2) by simp
    have lc: "length ?c = nat n" using cfg(3) by simp
    have "conv (map sint ?c) (map sint ?w) = (\<Sum>k < nat n. sint (?c ! k) * sint (?w ! k))"
      by (subst conv_sum) (use lw lc in \<open>simp_all\<close>)
    also have "\<dots> = (\<Sum>k < nat n. sint (config ! (3 + k)) * (if k \<le> i then sint (xs ! (i - k)) div 2 ^ nat (sint (config ! 1)) else 0))"
    proof (rule sum.cong [OF refl])
      fix k assume "k \<in> {..< nat n}"
      then have k: "k < nat n" by simp
      have w: "?w ! k = (if k \<le> i then signed_drop_bit (nat (sint (config ! 1))) (xs ! (i - k)) else 0)"
        using window_zero_nth [OF i, of k f2] k f2(2,7) by simp
      have c: "?c ! k = config ! (3 + k)" using k cfg(3) by simp
      show "sint (?c ! k) * sint (?w ! k)
          = sint (config ! (3 + k)) * (if k \<le> i then sint (xs ! (i - k)) div 2 ^ nat (sint (config ! 1)) else 0)"
        unfolding w c by (simp add: sint_shr)
    qed
    finally show ?thesis using f2(2,4,5,8) by (simp add: fir_out_def h)
  qed
  then show ?thesis using r by auto
qed

lemma fir_is_convolution_witness:
  "\<exists>ys f' pool'. fir_run (fst (fir_init_delay (snd (the (fir_init_coef
        \<lparr>mute = True, rwi = 0, taps = 0, delay_size = 0, in_shift = 0, out_shift = 0, coef = [], delay = None\<rparr>
        [2, 1, 0, 16384, - 8192]))) 1)) (replicate 4 0) [1000, 2000, 3000] = Some (ys, f', pool') \<and> length ys = 3 \<and> sint (ys ! 2) = 500"
proof -
  let ?f = "\<lparr>mute = True, rwi = 0, taps = 0, delay_size = 0, in_shift = 0, out_shift = 0, coef = [], delay = None\<rparr> :: fir_state"
  let ?c = "[2, 1, 0, 16384, - 8192] :: s16 list" and ?xs = "[1000, 2000, 3000] :: s32 list"
  obtain f1 where c: "fir_init_coef ?f ?c = Some (2, f1)" by (simp add: fir_init_coef_def)
  obtain f2 d' where d: "fir_init_delay f1 1 = (f2, d')" by fastforce
  have z: "\<forall>k < nat 2. (replicate 4 0 :: s32 list) ! (nat 1 + k) = 0" by simp
  have len: "length ?xs = 3" "2 < length ?xs" by simp_all
  from fir_is_convolution [OF c _ _ d _ _ z, of ?xs] obtain ys f' pool' where
    r: "fir_run f2 (replicate 4 0) ?xs = Some (ys, f', pool')" "length ys = length ?xs"
    and v: "\<forall>i < length ?xs. sint (ys ! i) = clamp INT32_MINVALUE INT32_MAXVALUE
      ((\<Sum>k < nat 2. sint (?c ! (3 + k)) * (if k \<le> i then sint (?xs ! (i - k)) div 2 ^ nat (sint (?c ! 1)) else 0))
        div 2 ^ nat (15 + sint (?c ! 2)))" by auto
  have "sint (ys ! 2) = 500" using v [rule_format, OF len(2)] by (simp add: clamp_def numeral_2_eq_2)
  moreover have "fst (fir_init_delay (snd (the (fir_init_coef ?f ?c))) 1) = f2" using c d by simp
  ultimately show ?thesis using r unfolding len(1) by (simp only:) blast
qed

end
