(* ===== verification/Reef_Iir.thy ===== *)
theory Reef_Iir
  imports Reef_Format
begin

unbundle bit_operations_syntax

text \<open>
  The IIR filter of src/src/audio/iir.c and iir.h: biquads in direct form II transposed, with 32 bit
  samples and coefficients and 64 bit delays. As in \<open>Reef_Fir\<close> the delay lines of all channels lie
  in one chunk, the list \<open>pool\<close>, and a filter's \<open>i_delay\<close> is an index into it, \<open>None\<close> for
  \<open>NULL\<close>; \<open>i_coef\<close> is the configuration array from the filter's header on, \<open>[]\<close> for \<open>NULL\<close>.

  The reference is the difference equation of each biquad, direct form I: the output depends on the
  last two inputs and outputs. The transposed form is proved to compute the same words, sample by
  sample, whatever overflows.
\<close>

section \<open>State\<close>

abbreviation (input) IIR_DF2T_BIQUADS_MAX :: int where "IIR_DF2T_BIQUADS_MAX \<equiv> 11"

record iir_state =
  i_mute :: bool
  biquads :: int
  biquads_in_series :: int
  i_coef :: "s32 list"
  i_delay :: "nat option"

definition iir_reset_df2t :: "iir_state \<Rightarrow> iir_state" where
  "iir_reset_df2t iir = iir\<lparr>i_mute := True, biquads := 0, biquads_in_series := 0, i_coef := []\<rparr>"

text \<open>The result is a \<open>size_t\<close>: \<open>-EINVAL\<close> is returned as a large positive number.\<close>

definition iir_init_coef_df2t :: "iir_state \<Rightarrow> s32 list \<Rightarrow> (u32 \<times> iir_state) option" where
  "iir_init_coef_df2t iir config = do {
     n \<leftarrow> aget config 0;
     s \<leftarrow> aget config 1;
     let iir = iir\<lparr>i_mute := False, biquads := sint n, biquads_in_series := sint s, i_coef := config, i_delay := None\<rparr>;
     Some (if IIR_DF2T_BIQUADS_MAX < biquads iir \<or> biquads iir < 1 then (word_of_int (- EINVAL), iir_reset_df2t iir)
           else (word_of_int (2 * biquads iir) * 8, iir)) }"

definition iir_init_delay_df2t :: "iir_state \<Rightarrow> int \<Rightarrow> iir_state \<times> int" where
  "iir_init_delay_df2t iir delay = (iir\<lparr>i_delay := Some (nat delay)\<rparr>, delay + 2 * biquads iir)"

definition iir_mute_df2t :: "iir_state \<Rightarrow> iir_state" where "iir_mute_df2t iir = iir\<lparr>i_mute := True\<rparr>"
definition iir_unmute_df2t :: "iir_state \<Rightarrow> iir_state" where "iir_unmute_df2t iir = iir\<lparr>i_mute := False\<rparr>"

section \<open>Filtering\<close>

text \<open>
  The body of the inner loop, one biquad, with its coefficients from index \<open>c\<close> and its two
  delays at index \<open>d\<close> of the pool. \<open>None\<close>: an access outside an array or a shift count outside
  the width of the operand.
\<close>

definition iir_section :: "s32 list \<Rightarrow> int \<Rightarrow> int \<Rightarrow> s32 \<Rightarrow> s64 list \<Rightarrow> (s32 \<times> s64 list) option" where
  "iir_section k c d x pool = do {
     b0 \<leftarrow> iget k (c + 4);
     d0 \<leftarrow> iget pool d;
     let acc = scast b0 * scast x + d0;
     let tmp = (scast (Q_SHIFT_RND acc 61 31) :: s32);
     d1 \<leftarrow> iget pool (d + 1);
     b1 \<leftarrow> iget k (c + 3);
     a1 \<leftarrow> iget k (c + 1);
     let acc = d1 + scast b1 * scast x + scast a1 * scast tmp;
     pool \<leftarrow> iset pool d acc;
     b2 \<leftarrow> iget k (c + 2);
     a2 \<leftarrow> iget k c;
     let acc = scast b2 * scast x + scast a2 * scast tmp;
     pool \<leftarrow> iset pool (d + 1) acc;
     g \<leftarrow> iget k (c + 6);
     sh \<leftarrow> iget k (c + 5);
     let cnt = 45 + sint sh - 31 - 1;
     if cnt < 0 \<or> 63 < cnt then None
     else Some (sat_int32 (Q_SHIFT_RND (scast g * scast tmp) (45 + sint sh) 31), pool) }"

fun iir_series :: "nat \<Rightarrow> s32 list \<Rightarrow> int \<Rightarrow> int \<Rightarrow> s32 \<Rightarrow> s64 list \<Rightarrow> (s32 \<times> int \<times> int \<times> s64 list) option" where
  "iir_series 0 k c d x pool = Some (x, c, d, pool)"
| "iir_series (Suc i) k c d x pool = do {
     (x, pool) \<leftarrow> iir_section k c d x pool;
     iir_series i k (c + 7) (d + 2) x pool }"

text \<open>The outer loop. It does not end when \<open>biquads_in_series\<close> is 0: then the value is \<open>None\<close>.\<close>

partial_function (option) iir_loop ::
  "int \<Rightarrow> int \<Rightarrow> s32 list \<Rightarrow> int \<Rightarrow> int \<Rightarrow> int \<Rightarrow> s32 \<Rightarrow> s32 \<Rightarrow> s64 list \<Rightarrow> (s32 \<times> s64 list) option" where
  "iir_loop n s k j c d x out pool =
     (if j < n then do {
        (x, c, d, pool) \<leftarrow> iir_series (nat s) k c d x pool;
        iir_loop n s k (j + s) c d x (sat_int32 (scast out + scast x)) pool }
      else Some (out, pool))"

declare iir_loop.simps [code]

text \<open>With no biquad the delay line is not touched, so \<open>NULL\<close> does no harm.\<close>

definition iir_df2t :: "iir_state \<Rightarrow> s32 \<Rightarrow> s64 list \<Rightarrow> (s32 \<times> s64 list) option" where
  "iir_df2t iir x pool =
     (if 0 < biquads iir then do {
        d \<leftarrow> i_delay iir;
        iir_loop (biquads iir) (biquads_in_series iir) (i_coef iir) 0 2 (int d) x 0 pool }
      else Some (0, pool))"

fun iir_run :: "iir_state \<Rightarrow> s32 list \<Rightarrow> s64 list \<Rightarrow> (s32 list \<times> s64 list) option" where
  "iir_run iir [] pool = Some ([], pool)"
| "iir_run iir (x # xs) pool = do {
     (y, pool) \<leftarrow> iir_df2t iir x pool;
     (ys, pool) \<leftarrow> iir_run iir xs pool;
     Some (y # ys, pool) }"

section \<open>The reference: difference equations\<close>

text \<open>\<open>hist\<close>: the last two inputs and the last two unscaled outputs of a biquad.\<close>

record biquad =
  a2 :: s64
  a1 :: s64
  b2 :: s64
  b1 :: s64
  b0 :: s64
  oshift :: int
  ogain :: s64

type_synonym hist = "s32 \<times> s32 \<times> s32 \<times> s32"

definition biquad_at :: "s32 list \<Rightarrow> nat \<Rightarrow> biquad" where
  "biquad_at k c = \<lparr>a2 = scast (k ! c), a1 = scast (k ! (c + 1)), b2 = scast (k ! (c + 2)), b1 = scast (k ! (c + 3)),
     b0 = scast (k ! (c + 4)), oshift = sint (k ! (c + 5)), ogain = scast (k ! (c + 6))\<rparr>"

fun diff_eq :: "biquad \<Rightarrow> hist \<Rightarrow> s32 \<Rightarrow> s64" where
  "diff_eq b (x1, x2, w1, w2) x =
     b0 b * scast x + b1 b * scast x1 + b2 b * scast x2 + a1 b * scast w1 + a2 b * scast w2"

fun df1 :: "biquad \<Rightarrow> hist \<Rightarrow> s32 \<Rightarrow> s32 \<times> hist" where
  "df1 b (x1, x2, w1, w2) x =
     (let w = scast (Q_SHIFT_RND (diff_eq b (x1, x2, w1, w2) x) 61 31)
      in (sat_int32 (Q_SHIFT_RND (ogain b * scast w) (45 + oshift b) 31), (x, x1, w, w1)))"

text \<open>A cascade: every biquad filters the output of the one before it. All outputs are kept.\<close>

fun cascade :: "biquad list \<Rightarrow> hist list \<Rightarrow> s32 \<Rightarrow> s32 list \<times> hist list" where
  "cascade (b # bs) (h # hs) x =
     (let (y, h') = df1 b h x; (ys, hs') = cascade bs hs y in (y # ys, h' # hs'))"
| "cascade _ hs x = ([], hs)"

text \<open>The filter's output: the saturated sum of every \<open>s\<close>-th output of the cascade.\<close>

fun tap_sum :: "nat \<Rightarrow> nat \<Rightarrow> s32 list \<Rightarrow> s32 \<Rightarrow> s32" where
  "tap_sum 0 s ys out = out"
| "tap_sum (Suc m) s ys out = tap_sum m s (drop s ys) (sat_int32 (scast out + scast (last (take s ys))))"

fun ref_run :: "nat \<Rightarrow> nat \<Rightarrow> biquad list \<Rightarrow> hist list \<Rightarrow> s32 list \<Rightarrow> s32 list" where
  "ref_run m s bs hs [] = []"
| "ref_run m s bs hs (x # xs) = (let (ys, hs') = cascade bs hs x in tap_sum m s ys 0 # ref_run m s bs hs' xs)"

section \<open>What the delays hold\<close>

fun delay1 :: "biquad \<Rightarrow> hist \<Rightarrow> s64" where
  "delay1 b (x1, x2, w1, w2) = b1 b * scast x1 + b2 b * scast x2 + a1 b * scast w1 + a2 b * scast w2"

fun delay2 :: "biquad \<Rightarrow> hist \<Rightarrow> s64" where
  "delay2 b (x1, x2, w1, w2) = b2 b * scast x1 + a2 b * scast w1"

definition shift_ok :: "biquad \<Rightarrow> bool" where
  "shift_ok b \<longleftrightarrow> - 13 \<le> oshift b \<and> oshift b \<le> 50"

lemma iir_section_df1:
  assumes "c + 7 \<le> length k" "d + 2 \<le> length pool" "shift_ok (biquad_at k c)"
    and "pool ! d = delay1 (biquad_at k c) h" "pool ! Suc d = delay2 (biquad_at k c) h"
    and "df1 (biquad_at k c) h x = (y, h')"
  shows "iir_section k (int c) (int d) x pool
       = Some (y, pool[d := delay1 (biquad_at k c) h', Suc d := delay2 (biquad_at k c) h'])"
proof -
  obtain x1 x2 w1 w2 where h: "h = (x1, x2, w1, w2)" by (cases h) auto
  have n: "nat (int c + 1) = c + 1" "nat (int c + 2) = c + 2" "nat (int c + 3) = c + 3" "nat (int c + 4) = c + 4"
    "nat (int c + 5) = c + 5" "nat (int c + 6) = c + 6" "nat (int d + 1) = Suc d" by simp_all
  have g: "iget k (int c) = Some (k ! c)" "iget k (int c + 1) = Some (k ! (c + 1))" "iget k (int c + 2) = Some (k ! (c + 2))"
    "iget k (int c + 3) = Some (k ! (c + 3))" "iget k (int c + 4) = Some (k ! (c + 4))"
    "iget k (int c + 5) = Some (k ! (c + 5))" "iget k (int c + 6) = Some (k ! (c + 6))"
    "iget pool (int d) = Some (pool ! d)" "iget pool (int d + 1) = Some (pool ! Suc d)"
    using assms(1,2) n by simp_all
  have st: "iset p (int d) v = Some (p[d := v])" "iset p (int d + 1) v = Some (p[Suc d := v])"
    if "length p = length pool" for p :: "s64 list" and v using assms(2) that n by simp_all
  have acc: "scast (k ! (c + 4)) * scast x + pool ! d = diff_eq (biquad_at k c) h x"
    unfolding assms(4) h by (simp add: biquad_at_def algebra_simps)
  show ?thesis
    using assms(3,5,6) unfolding iir_section_def g bind.bind_lunit Let_def st [OF refl] st [OF length_list_update] acc
    by (auto simp: h shift_ok_def biquad_at_def Let_def algebra_simps)
qed

text \<open>The biquads of a configuration, and the delay line that represents their histories.\<close>

fun sections :: "nat \<Rightarrow> s32 list \<Rightarrow> nat \<Rightarrow> biquad list" where
  "sections 0 k c = []"
| "sections (Suc n) k c = biquad_at k c # sections n k (c + 7)"

fun delays :: "s64 list \<Rightarrow> nat \<Rightarrow> biquad list \<Rightarrow> hist list \<Rightarrow> bool" where
  "delays pool d [] [] = (d \<le> length pool)"
| "delays pool d (b # bs) (h # hs) = (pool ! d = delay1 b h \<and> pool ! Suc d = delay2 b h \<and> delays pool (d + 2) bs hs)"
| "delays pool d _ _ = False"

lemma delays_len: "delays pool d bs hs \<Longrightarrow> length hs = length bs \<and> d + 2 * length bs \<le> length pool"
  by (induction pool d bs hs rule: delays.induct) auto

lemma delays_frame:
  "delays pool d bs hs \<Longrightarrow> length pool' = length pool \<Longrightarrow> (\<And>i. d \<le> i \<Longrightarrow> i < d + 2 * length bs \<Longrightarrow> pool' ! i = pool ! i) \<Longrightarrow>
   delays pool' d bs hs"
  by (induction pool d bs hs rule: delays.induct) auto

lemma delays_append:
  "length hs = length bs \<Longrightarrow>
   delays pool d (bs @ bs') (hs @ hs') \<longleftrightarrow> delays pool d bs hs \<and> delays pool (d + 2 * length bs) bs' hs'"
  by (induction pool d bs hs rule: delays.induct) (auto dest: delays_len)

lemma sections_append: "sections (n + m) k c = sections n k c @ sections m k (c + 7 * n)"
  by (induction n k c rule: sections.induct) (simp_all add: algebra_simps)

lemma length_sections [simp]: "length (sections n k c) = n"
  by (induction n k c rule: sections.induct) simp_all

lemma cascade_len: "length hs = length bs \<Longrightarrow> cascade bs hs x = (ys, hs') \<Longrightarrow> length ys = length bs \<and> length hs' = length bs"
  by (induction bs hs x arbitrary: ys hs' rule: cascade.induct) (auto split: prod.splits)

lemma cascade_append:
  "length hs = length bs \<Longrightarrow> cascade bs hs x = (ys, hs1) \<Longrightarrow> cascade bs' gs (last (x # ys)) = (zs, gs1) \<Longrightarrow>
   cascade (bs @ bs') (hs @ gs) x = (ys @ zs, hs1 @ gs1)"
  by (induction bs hs x arbitrary: ys hs1 rule: cascade.induct) (auto split: prod.splits if_splits)

lemma iir_series_cascade:
  assumes "c + 7 * n \<le> length k" "list_all shift_ok (sections n k c)" "delays pool d (sections n k c) hs"
    and "cascade (sections n k c) hs x = (ys, hs')"
  shows "\<exists>pool'. iir_series n k (int c) (int d) x pool = Some (last (x # ys), int (c + 7 * n), int (d + 2 * n), pool') \<and>
    delays pool' d (sections n k c) hs' \<and> length pool' = length pool \<and> (\<forall>i. i < d \<or> d + 2 * n \<le> i \<longrightarrow> pool' ! i = pool ! i)"
  using assms
proof (induction n arbitrary: c d x hs hs' ys pool)
  case 0
  then show ?case by (cases hs) auto
next
  case (Suc n)
  let ?b = "biquad_at k c" and ?bs = "sections n k (c + 7)"
  from Suc.prems(3) obtain h hs0 where hs: "hs = h # hs0" "pool ! d = delay1 ?b h" "pool ! Suc d = delay2 ?b h"
    "delays pool (d + 2) ?bs hs0" by (cases hs) auto
  obtain y h' where y: "df1 ?b h x = (y, h')" by (rule prod.exhaust)
  obtain zs hs1 where z: "cascade ?bs hs0 y = (zs, hs1)" by fastforce
  have yz: "ys = y # zs" "hs' = h' # hs1" using Suc.prems(4) y z hs(1) by auto
  let ?p = "pool[d := delay1 ?b h', Suc d := delay2 ?b h']"
  have len: "Suc d < length pool" using delays_len [OF Suc.prems(3)] by simp
  have s: "iir_section k (int c) (int d) x pool = Some (y, ?p)"
    by (rule iir_section_df1 [OF _ _ _ hs(2,3) y]) (use Suc.prems(1,2) len in simp_all)
  have dp: "delays ?p (d + 2) ?bs hs0" by (rule delays_frame [OF hs(4)]) simp_all
  from Suc.IH [OF _ _ dp z] Suc.prems(1,2) obtain pool' where
    p: "iir_series n k (int (c + 7)) (int (d + 2)) y ?p = Some (last (y # zs), int (c + 7 + 7 * n), int (d + 2 + 2 * n), pool')"
    "delays pool' (d + 2) ?bs hs1" "length pool' = length ?p" "\<forall>i. i < d + 2 \<or> d + 2 + 2 * n \<le> i \<longrightarrow> pool' ! i = ?p ! i"
    by auto
  have e: "int c + 7 = int (c + 7)" "int d + 2 = int (d + 2)" by simp_all
  have "iir_series (Suc n) k (int c) (int d) x pool = Some (last (x # ys), int (c + 7 * Suc n), int (d + 2 * Suc n), pool')"
    unfolding iir_series.simps s bind.bind_lunit prod.case e p(1) yz by simp
  moreover have "pool' ! d = ?p ! d" "pool' ! Suc d = ?p ! Suc d" using p(4) by simp_all
  then have "delays pool' d (sections (Suc n) k c) hs'" using p(2) len yz by simp
  moreover have "length pool' = length pool" using p(3) by simp
  moreover have "\<forall>i. i < d \<or> d + 2 * Suc n \<le> i \<longrightarrow> pool' ! i = pool ! i" using p(4) by auto
  ultimately show ?case by blast
qed

lemma iir_loop_cascade:
  assumes "0 < s" "n = j + int (m * s)" "c + 7 * (m * s) \<le> length k" "list_all shift_ok (sections (m * s) k c)"
    "delays pool d (sections (m * s) k c) hs" "cascade (sections (m * s) k c) hs x = (ys, hs')"
  shows "\<exists>pool'. iir_loop n (int s) k j (int c) (int d) x out pool = Some (tap_sum m s ys out, pool') \<and>
    delays pool' d (sections (m * s) k c) hs' \<and> length pool' = length pool \<and>
    (\<forall>i. i < d \<or> d + 2 * (m * s) \<le> i \<longrightarrow> pool' ! i = pool ! i)"
  using assms
proof (induction m arbitrary: j c d x out hs hs' ys pool)
  case 0
  then show ?case by (cases hs) (auto simp: iir_loop.simps)
next
  case (Suc m)
  let ?as = "sections s k c" and ?bs = "sections (m * s) k (c + 7 * s)"
  have sec: "sections (Suc m * s) k c = ?as @ ?bs" using sections_append [of s "m * s"] by simp
  define hs1 where "hs1 = take s hs"
  define hs2 where "hs2 = drop s hs"
  have l: "length hs = s + m * s" using delays_len [OF Suc.prems(5)] by simp
  have hs: "hs = hs1 @ hs2" "length hs1 = length ?as" using l by (simp_all add: hs1_def hs2_def)
  have d12: "delays pool d ?as hs1" "delays pool (d + 2 * s) ?bs hs2"
    using Suc.prems(5) delays_append [OF hs(2)] unfolding sec hs(1) by simp_all
  obtain ya ha where a: "cascade ?as hs1 x = (ya, ha)" by fastforce
  obtain yb hb where b: "cascade ?bs hs2 (last (x # ya)) = (yb, hb)" by fastforce
  have y: "ys = ya @ yb" "hs' = ha @ hb" using cascade_append [OF hs(2) a b] Suc.prems(6) unfolding sec hs(1) by simp_all
  have la: "length ya = s" "length ha = length ?as" using cascade_len [OF hs(2) a] by simp_all
  have lx: "last (x # ya) = last ya" using la Suc.prems(1) by (cases ya) simp_all
  have ok: "list_all shift_ok ?as" "list_all shift_ok ?bs" using Suc.prems(4) unfolding sec by simp_all
  from iir_series_cascade [OF _ ok(1) d12(1) a] Suc.prems(3) obtain p1 where
    p1: "iir_series s k (int c) (int d) x pool = Some (last (x # ya), int (c + 7 * s), int (d + 2 * s), p1)"
    "delays p1 d ?as ha" "length p1 = length pool" "\<forall>i. i < d \<or> d + 2 * s \<le> i \<longrightarrow> p1 ! i = pool ! i"
    by auto
  have d2: "delays p1 (d + 2 * s) ?bs hs2" by (rule delays_frame [OF d12(2) p1(3)]) (use p1(4) in simp)
  have n: "n = j + int s + int (m * s)" using Suc.prems(2) by simp
  from Suc.IH [OF Suc.prems(1) n _ ok(2) d2 b, of "sat_int32 (scast out + scast (last ya))"] Suc.prems(3) obtain p2 where
    p2: "iir_loop n (int s) k (j + int s) (int (c + 7 * s)) (int (d + 2 * s)) (last (x # ya)) (sat_int32 (scast out + scast (last ya))) p1
        = Some (tap_sum m s yb (sat_int32 (scast out + scast (last ya))), p2)"
    "delays p2 (d + 2 * s) ?bs hb" "length p2 = length p1" "\<forall>i. i < d + 2 * s \<or> d + 2 * s + 2 * (m * s) \<le> i \<longrightarrow> p2 ! i = p1 ! i"
    by (auto simp: algebra_simps)
  have "0 \<le> int (m * s)" by (rule of_nat_0_le_iff)
  then have jn: "j < n" using n Suc.prems(1) by linarith
  have "iir_loop n (int s) k j (int c) (int d) x out pool = Some (tap_sum (Suc m) s ys out, p2)"
    by (subst iir_loop.simps, unfold nat_int p1(1) bind.bind_lunit prod.case lx)
       (use jn p2(1) [unfolded lx] la y in simp)
  moreover have "delays p2 d ?as ha" by (rule delays_frame [OF p1(2) p2(3)]) (use p2(4) in simp)
  then have "delays p2 d (sections (Suc m * s) k c) hs'" unfolding sec y delays_append [OF la(2)] using p2(2) by simp
  moreover have "\<forall>i. i < d \<or> d + 2 * (Suc m * s) \<le> i \<longrightarrow> p2 ! i = pool ! i"
  proof (intro allI impI)
    fix i assume i: "i < d \<or> d + 2 * (Suc m * s) \<le> i"
    then have "i < d + 2 * s \<or> d + 2 * s + 2 * (m * s) \<le> i" "i < d \<or> d + 2 * s \<le> i" by auto
    then have "p2 ! i = p1 ! i" "p1 ! i = pool ! i" using p1(4) p2(4) by blast+
    then show "p2 ! i = pool ! i" by simp
  qed
  ultimately show ?case using p1(3) p2(3) by auto
qed

section \<open>A configured filter is a cascade of difference equations\<close>

text \<open>The filter's shape: what the setup establishes and every sample keeps.\<close>

definition iir_ok :: "nat \<Rightarrow> nat \<Rightarrow> iir_state \<Rightarrow> bool" where
  "iir_ok m s iir \<longleftrightarrow> 0 < s \<and> 0 < m \<and> biquads iir = int (m * s) \<and> biquads_in_series iir = int s \<and>
     2 + 7 * (m * s) \<le> length (i_coef iir) \<and> list_all shift_ok (sections (m * s) (i_coef iir) 2)"

lemma iir_df2t_cascade:
  assumes "iir_ok m s iir" "i_delay iir = Some d" "delays pool d (sections (m * s) (i_coef iir) 2) hs"
    and "cascade (sections (m * s) (i_coef iir) 2) hs x = (ys, hs')"
  shows "\<exists>pool'. iir_df2t iir x pool = Some (tap_sum m s ys 0, pool') \<and>
    delays pool' d (sections (m * s) (i_coef iir) 2) hs' \<and> length pool' = length pool \<and>
    (\<forall>i. i < d \<or> d + 2 * (m * s) \<le> i \<longrightarrow> pool' ! i = pool ! i)"
proof -
  have pos: "0 < int m * int s" using assms(1) by (simp add: iir_ok_def)
  have "\<exists>pool'. iir_loop (biquads iir) (int s) (i_coef iir) 0 (int 2) (int d) x 0 pool = Some (tap_sum m s ys 0, pool') \<and>
    delays pool' d (sections (m * s) (i_coef iir) 2) hs' \<and> length pool' = length pool \<and>
    (\<forall>i. i < d \<or> d + 2 * (m * s) \<le> i \<longrightarrow> pool' ! i = pool ! i)"
    using assms(1) by (intro iir_loop_cascade [OF _ _ _ _ assms(3,4)]) (simp_all add: iir_ok_def)
  then show ?thesis using assms(1,2) pos by (simp add: iir_df2t_def iir_ok_def)
qed

lemma iir_run_ref:
  assumes "iir_ok m s iir" "i_delay iir = Some d" "delays pool d (sections (m * s) (i_coef iir) 2) hs"
  shows "\<exists>pool'. iir_run iir xs pool = Some (ref_run m s (sections (m * s) (i_coef iir) 2) hs xs, pool') \<and>
    length pool' = length pool \<and> (\<forall>i. i < d \<or> d + 2 * (m * s) \<le> i \<longrightarrow> pool' ! i = pool ! i)"
  using assms
proof (induction xs arbitrary: pool hs)
  case (Cons x xs)
  let ?bs = "sections (m * s) (i_coef iir) 2"
  obtain ys hs' where c: "cascade ?bs hs x = (ys, hs')" by (rule prod.exhaust)
  from iir_df2t_cascade [OF Cons.prems c] obtain p1 where
    p1: "iir_df2t iir x pool = Some (tap_sum m s ys 0, p1)" "delays p1 d ?bs hs'" "length p1 = length pool"
    "\<forall>i. i < d \<or> d + 2 * (m * s) \<le> i \<longrightarrow> p1 ! i = pool ! i" by blast
  from Cons.IH [OF Cons.prems(1,2) p1(2)] obtain p2 where
    "iir_run iir xs p1 = Some (ref_run m s ?bs hs' xs, p2)" "length p2 = length p1"
    "\<forall>i. i < d \<or> d + 2 * (m * s) \<le> i \<longrightarrow> p2 ! i = p1 ! i" by blast
  then show ?case using p1 c by simp
qed simp

lemma delays_zero:
  "d + 2 * length bs \<le> length pool \<Longrightarrow> \<forall>i < 2 * length bs. pool ! (d + i) = 0 \<Longrightarrow>
   delays pool d bs (replicate (length bs) (0, 0, 0, 0))"
proof (induction bs arbitrary: d)
  case (Cons b bs)
  have "pool ! d = 0" "pool ! Suc d = 0"
    using Cons.prems(2) [rule_format, of 0] Cons.prems(2) [rule_format, of 1] by simp_all
  moreover have "\<forall>i < 2 * length bs. pool ! (d + 2 + i) = 0"
  proof (intro allI impI)
    fix i assume "i < 2 * length bs"
    then have "2 + i < 2 * length (b # bs)" by simp
    then have "pool ! (d + (2 + i)) = 0" using Cons.prems(2) by blast
    then show "pool ! (d + 2 + i) = 0" by (simp add: add.assoc)
  qed
  ultimately show ?case using Cons.IH [of "d + 2"] Cons.prems(1) by simp
qed simp

text \<open>
  C10: a filter set up from a configuration of \<open>m\<close> groups of \<open>s\<close> biquads with its delays cleared
  computes, sample by sample and bit for bit, the cascade of the biquads' difference equations,
  and sums up the outputs of every \<open>s\<close>-th biquad with saturation; delays outside its own line
  keep their values. All arithmetic is modulo \<open>2 ^ 64\<close>, so this holds even if a sum overflows.
\<close>

theorem iir_is_cascade:
  assumes "iir_init_coef_df2t iir config = Some (r, i1)" "sint (config ! 0) = int (m * s)" "sint (config ! 1) = int s"
    and "0 < m" "0 < s" "m * s \<le> 11" "2 + 7 * (m * s) \<le> length config"
    and sh: "\<forall>i < m * s. - 13 \<le> sint (config ! (7 + 7 * i)) \<and> sint (config ! (7 + 7 * i)) \<le> 50"
    and dly: "iir_init_delay_df2t i1 d = (i2, d')" "0 \<le> d" "nat d + 2 * (m * s) \<le> length pool" "\<forall>i < 2 * (m * s). pool ! (nat d + i) = 0"
  shows "\<exists>pool'. iir_run i2 xs pool = Some (ref_run m s (sections (m * s) config 2) (replicate (m * s) (0, 0, 0, 0)) xs, pool') \<and>
    length pool' = length pool \<and> (\<forall>i. i < nat d \<or> nat d + 2 * (m * s) \<le> i \<longrightarrow> pool' ! i = pool ! i)"
proof -
  have pos: "0 < int m * int s" using assms(4,5) by simp
  have le: "int m * int s \<le> 11" using assms(6) by (metis of_nat_le_iff of_nat_mult of_nat_numeral)
  have i2: "biquads i2 = int (m * s)" "biquads_in_series i2 = int s" "i_coef i2 = config" "i_delay i2 = Some (nat d)"
    using assms(1-3,7) dly(1) pos le unfolding iir_init_coef_df2t_def iir_init_delay_df2t_def
    by (auto simp: Let_def bind_eq_Some_conv split: if_splits)
  have "list_all shift_ok (sections n config (2 + 7 * l))" if "l + n \<le> m * s" for n l
    using that
  proof (induction n arbitrary: l)
    case (Suc n)
    have "shift_ok (biquad_at config (2 + 7 * l))" using sh Suc.prems by (simp add: shift_ok_def biquad_at_def)
    moreover have "2 + 7 * l + 7 = 2 + 7 * Suc l" by simp
    ultimately show ?case using Suc.IH [of "Suc l"] Suc.prems by (simp only: sections.simps list.pred_inject)
  qed simp
  from this [of 0 "m * s"] have ok: "iir_ok m s i2" using i2 assms(4,5,7) by (simp add: iir_ok_def)
  have "delays pool (nat d) (sections (m * s) config 2) (replicate (m * s) (0, 0, 0, 0))"
    using delays_zero [of "nat d" "sections (m * s) config 2" pool] dly(3,4) by simp
  then show ?thesis using iir_run_ref [OF ok i2(4), of pool _ xs] i2(3) by simp
qed

lemma iir_is_cascade_witness:
  "\<exists>pool'. iir_run (fst (iir_init_delay_df2t (snd (the (iir_init_coef_df2t
        \<lparr>i_mute = True, biquads = 0, biquads_in_series = 0, i_coef = [], i_delay = None\<rparr>
        [1, 1, 0, 536870912, 0, 0, 536870912, 0, 32768]))) 0)) [1000, 2000] (replicate 2 0) = Some ([1000, 2500], pool')"
proof -
  let ?f = "\<lparr>i_mute = True, biquads = 0, biquads_in_series = 0, i_coef = [], i_delay = None\<rparr> :: iir_state"
  let ?c = "[1, 1, 0, 536870912, 0, 0, 536870912, 0, 32768] :: s32 list"
  obtain r i1 where c: "iir_init_coef_df2t ?f ?c = Some (r, i1)" by (simp add: iir_init_coef_df2t_def)
  obtain i2 d' where d: "iir_init_delay_df2t i1 0 = (i2, d')" by fastforce
  have z: "\<forall>i < 2 * (1 * 1). (replicate 2 0 :: s64 list) ! (nat 0 + i) = 0" by simp
  have "\<exists>pool'. iir_run i2 [1000, 2000] (replicate 2 0)
      = Some (ref_run 1 1 (sections (1 * 1) ?c 2) (replicate (1 * 1) (0, 0, 0, 0)) [1000, 2000], pool')"
    using iir_is_cascade [OF c, of 1 1 0 i2 d' "replicate 2 0" "[1000, 2000]"] d z by auto
  moreover have "ref_run 1 1 (sections (1 * 1) ?c 2) (replicate (1 * 1) (0, 0, 0, 0)) [1000, 2000] = [1000, 2500]"
    by code_simp
  moreover have "fst (iir_init_delay_df2t (snd (the (iir_init_coef_df2t ?f ?c))) 0) = i2" using c d by simp
  ultimately show ?thesis by (simp only:)
qed

section \<open>Overflow, muting, configurations that hang\<close>

text \<open>With the coefficients' absolute values adding up to less than 4.0 no sum overflows.\<close>

definition gain_bound :: "biquad \<Rightarrow> int" where
  "gain_bound b = \<bar>sint (b0 b)\<bar> + \<bar>sint (b1 b)\<bar> + \<bar>sint (b2 b)\<bar> + \<bar>sint (a1 b)\<bar> + \<bar>sint (a2 b)\<bar>"

lemma prod_sample_bound: "\<bar>sint (c :: s64) * sint (v :: s32)\<bar> \<le> \<bar>sint c\<bar> * 2147483648"
  using sint_range32 [of v] by (intro abs_prod_bound) simp_all

lemma sint_prod_sample:
  assumes "\<bar>sint (c :: s64)\<bar> < 4294967296"
  shows "sint (c * scast (v :: s32)) = sint c * sint v"
  using prod_sample_bound [of c v] assms by (subst sint_mult_fits) (auto simp: abs_le_iff)

lemma sint_sum_step:
  fixes p q :: s64
  assumes "sint p = P" "sint q = Q" "\<bar>P\<bar> \<le> A" "\<bar>Q\<bar> \<le> B" "A + B < 9223372036854775808"
  shows "sint (p + q) = P + Q" "\<bar>P + Q\<bar> \<le> A + B"
proof -
  show b: "\<bar>P + Q\<bar> \<le> A + B" using assms(3,4) abs_triangle_ineq [of P Q] by linarith
  then show "sint (p + q) = P + Q" using assms by (subst sint_add_fits) (simp_all add: abs_le_iff)
qed

lemma diff_eq_exact:
  assumes "gain_bound b < 4294967296"
  shows "sint (diff_eq b (x1, x2, w1, w2) x)
       = sint (b0 b) * sint x + sint (b1 b) * sint x1 + sint (b2 b) * sint x2 + sint (a1 b) * sint w1 + sint (a2 b) * sint w2"
proof -
  have c: "\<bar>sint (b0 b)\<bar> < 4294967296" "\<bar>sint (b1 b)\<bar> < 4294967296" "\<bar>sint (b2 b)\<bar> < 4294967296"
    "\<bar>sint (a1 b)\<bar> < 4294967296" "\<bar>sint (a2 b)\<bar> < 4294967296" using assms by (simp_all add: gain_bound_def)
  have g: "\<bar>sint (b0 b)\<bar> * 2147483648 + \<bar>sint (b1 b)\<bar> * 2147483648 + \<bar>sint (b2 b)\<bar> * 2147483648
      + \<bar>sint (a1 b)\<bar> * 2147483648 + \<bar>sint (a2 b)\<bar> * 2147483648 < 9223372036854775808"
    using assms by (simp add: gain_bound_def)
  note p = c [THEN sint_prod_sample] and s = sint_sum_step [OF _ _ _ prod_sample_bound]
  note 1 = s [OF p(1) p(2) prod_sample_bound]
  note 2 = s [OF 1(1) p(3) 1(2)]
  note 3 = s [OF 2(1) p(4) 2(2)]
  note 4 = s [OF 3(1) p(5) 3(2)]
  show ?thesis unfolding diff_eq.simps by (rule 4) (use g in linarith)+
qed

text \<open>Nothing reads the mute flag; a filter that was reset, as for a bypass, outputs silence.\<close>

lemma iir_mute_ignored: "iir_df2t (iir_mute_df2t iir) x pool = iir_df2t iir x pool"
  by (simp add: iir_df2t_def iir_mute_df2t_def)

lemma iir_reset_silent: "iir_df2t (iir_reset_df2t iir) x pool = Some (0, pool)"
  by (simp add: iir_df2t_def iir_reset_df2t_def)

lemma iir_loop_stuck:
  assumes "iir_loop n s k j c d x out pool = Some r"
  shows "s = 0 \<longrightarrow> \<not> j < n"
proof -
  have "(\<lambda>n s k j c d x out pool r. s = 0 \<longrightarrow> \<not> j < n) n s k j c d x out pool r"
  proof (rule iir_loop.raw_induct [where xa = "((((((((n, s), k), j), c), d), x), out), pool)", unfolded prod.case curry_conv])
    show "iir_loop n s k j c d x out pool = Some r" by (rule assms)
  qed (auto split: if_splits)
  then show ?thesis .
qed

text \<open>
  a configuration with a number of biquads in series of 0 is accepted, and filtering the
  first sample with it never returns.
\<close>

theorem iir_zero_series_hangs:
  assumes "1 \<le> sint (config ! 0)" "sint (config ! 0) \<le> 11" "sint (config ! 1) = 0" "2 \<le> length config"
  shows "\<exists>r i1. iir_init_coef_df2t iir config = Some (r, i1) \<and> sint r = 16 * sint (config ! 0) \<and>
    (\<forall>d x pool. iir_df2t (fst (iir_init_delay_df2t i1 d)) x pool = None)"
proof -
  let ?i = "iir\<lparr>i_mute := False, biquads := sint (config ! 0), biquads_in_series := 0, i_coef := config, i_delay := None\<rparr>"
  have i: "iir_init_coef_df2t iir config = Some (word_of_int (2 * sint (config ! 0)) * 8, ?i)"
  proof -
    have "aget config 0 = Some (config ! 0)" "aget config 1 = Some (config ! 1)" using assms(4) by (auto intro!: aget_in)
    then show ?thesis using assms(1-3) unfolding iir_init_coef_df2t_def by simp
  qed
  have w: "word_of_int (2 * sint (config ! 0)) * 8 = (word_of_int (16 * sint (config ! 0)) :: u32)"
    by simp
  have "sint (word_of_int (16 * sint (config ! 0)) :: u32) = 16 * sint (config ! 0)"
    using assms(1,2) by (intro sint_eq_if_fits) simp_all
  moreover have "iir_df2t (fst (iir_init_delay_df2t ?i d)) x pool = None" for d x pool
  proof (rule ccontr)
    assume "iir_df2t (fst (iir_init_delay_df2t ?i d)) x pool \<noteq> None"
    then obtain r where "iir_loop (sint (config ! 0)) 0 config 0 2 (int (nat d)) x 0 pool = Some r"
      using assms(1) by (auto simp: iir_df2t_def iir_init_delay_df2t_def)
    from iir_loop_stuck [OF this] assms(1) show False by simp
  qed
  ultimately show ?thesis using i w by auto
qed

lemma iir_zero_series_hangs_witness:
  "\<exists>r i1. iir_init_coef_df2t \<lparr>i_mute = True, biquads = 0, biquads_in_series = 0, i_coef = [], i_delay = None\<rparr> [1, 0, 0, 0, 0, 0, 0, 0, 0]
      = Some (r, i1) \<and> iir_df2t (fst (iir_init_delay_df2t i1 0)) 5 (replicate 2 0) = None"
  using iir_zero_series_hangs [of "[1, 0, 0, 0, 0, 0, 0, 0, 0]"] by fastforce

end
