(* ===== verification/Reef_Eq.thy ===== *)
theory Reef_Eq
  imports Reef_Samples
begin

unbundle bit_operations_syntax

text \<open>
  What the two equalizers src/src/audio/eq_fir.c and eq_iir.c have in common: the loop over the
  channels and samples of a period, and the commands that change the component's state only. The
  filter is a parameter of the loop: \<open>step ch x st\<close> filters sample \<open>x\<close> of channel \<open>ch\<close> in the filter
  state \<open>st\<close>, \<open>None\<close> for a fault.

  The outer \<open>while\<close> loop need not end (\<open>eq_boundary_hangs\<close>): it takes fuel, one unit for each
  round, and is \<open>None\<close> when that is used up.
\<close>

section \<open>The sample loop\<close>

type_synonym 'f filter_step = "nat \<Rightarrow> s32 \<Rightarrow> 'f \<Rightarrow> (s32 \<times> 'f) option"

text \<open>
  \<open>while (m > 0) { *y = filter(*x); x += nch; y += nch; m -= nch; n -= nch; }\<close>, with \<open>m\<close> either \<open>n\<close>
  itself or \<open>n_wrap_min\<close>. The result: the remaining \<open>n\<close>, the pointers, the filter state and memory.
\<close>

function eq_inner :: "'f filter_step \<Rightarrow> nat \<Rightarrow> int \<Rightarrow> int \<Rightarrow> int \<Rightarrow> u32 \<Rightarrow> u32 \<Rightarrow> 'f \<Rightarrow> mem \<Rightarrow> (int \<times> u32 \<times> u32 \<times> 'f \<times> mem) option" where
  "eq_inner step ch nch m n x y st mem =
     (if 0 < m \<and> 0 < nch then do {
        (v, st) \<leftarrow> step ch (load32 mem x) st;
        eq_inner step ch nch (m - nch) (n - nch) (x + 4 * word_of_int nch) (y + 4 * word_of_int nch) st (store32 mem y v) }
      else Some (n, x, y, st, mem))"
  by pat_completeness auto

termination eq_inner
  by (relation "measure (\<lambda>(_, _, _, m, _). nat m)") auto

declare eq_inner.simps [simp del]

text \<open>The difference of two \<open>int32_t\<close> pointers.\<close>

definition ptr_diff :: "u32 \<Rightarrow> u32 \<Rightarrow> int" where
  "ptr_diff p q = sint (p - q) sdiv 4"

text \<open>\<open>while (n > 0)\<close> of one channel; \<open>snk\<close> is the start pointer the wrap test of the sink reads.\<close>

fun eq_channel :: "'f filter_step \<Rightarrow> comp_buffer \<Rightarrow> comp_buffer \<Rightarrow> int \<Rightarrow> nat \<Rightarrow> u32 \<Rightarrow> nat \<Rightarrow> int \<Rightarrow> u32 \<Rightarrow> u32 \<Rightarrow> 'f \<Rightarrow> mem
    \<Rightarrow> (u32 \<times> u32 \<times> 'f \<times> mem) option" where
  "eq_channel step sr sk nch ch snk 0 n x y st mem = None"
| "eq_channel step sr sk nch ch snk (Suc fuel) n x y st mem =
     (if 0 < n then
        (let n_wrap_src = ptr_diff (end_addr sr) x;
             n_wrap_snk = ptr_diff (end_addr sk) y;
             n_wrap_min = (if n_wrap_src < n_wrap_snk then n_wrap_src else n_wrap_snk)
         in if n < n_wrap_min then do {
              (n, x, y, st, mem) \<leftarrow> eq_inner step ch nch n n x y st mem;
              eq_channel step sr sk nch ch snk fuel n x y st mem }
            else do {
              (n, x, y, st, mem) \<leftarrow> eq_inner step ch nch n_wrap_min n x y st mem;
              let x = (if end_addr sr < x then x - alloc_size sr else x);
              let y = (if end_addr sk < snk then y - alloc_size sk else y);
              eq_channel step sr sk nch ch snk fuel n x y st mem })
      else Some (x, y, st, mem))"

text \<open>\<open>for (ch = 0; ch < nch; ch++)\<close>: \<open>x = src++; y = snk++\<close>, so the wrap test reads the next \<open>snk\<close>.\<close>

fun eq_channels :: "'f filter_step \<Rightarrow> comp_buffer \<Rightarrow> comp_buffer \<Rightarrow> int \<Rightarrow> int \<Rightarrow> nat \<Rightarrow> nat list \<Rightarrow> u32 \<Rightarrow> u32 \<Rightarrow> u32 \<times> u32 \<times> 'f \<times> mem
    \<Rightarrow> (u32 \<times> u32 \<times> 'f \<times> mem) option" where
  "eq_channels step sr sk nch n fuel [] src snk s = Some s"
| "eq_channels step sr sk nch n fuel (ch # chs) src snk (x, y, st, mem) = do {
     s \<leftarrow> eq_channel step sr sk nch ch (snk + 4) fuel n src snk st mem;
     eq_channels step sr sk nch n fuel chs (src + 4) (snk + 4) s }"

definition eq_s32_default :: "'f filter_step \<Rightarrow> nat \<Rightarrow> u32 \<Rightarrow> u32 \<Rightarrow> u32 \<Rightarrow> 'f \<Rightarrow> 'a world_scheme \<Rightarrow> ('f \<times> 'a world_scheme) option" where
  "eq_s32_default step fuel source sink frames st w =
     (let sr = bufs w source; sk = bufs w sink;
          src = r_ptr sr; snk = w_ptr sk;
          cn = channels (pcms w (b_pcm sr));
          nch = sint cn
      in do {
        (x, y, st, m) \<leftarrow> eq_channels step sr sk nch (sint (frames * cn)) fuel [0 ..< nat nch] src snk
                          (src + 4 * (cn - 1), snk + 4 * (cn - 1), st, wmem w);
        let w = w\<lparr>wmem := m\<rparr>;
        let w = upd_buf source (\<lambda>b. b\<lparr>r_ptr := x - 4 * (cn - 1)\<rparr>) w;
        let w = upd_buf sink (\<lambda>b. b\<lparr>w_ptr := y - 4 * (cn - 1)\<rparr>) w;
        let w = upd_buf source comp_wrap_source_r_ptr_circular w;
        let w = upd_buf sink comp_wrap_sink_w_ptr_circular w;
        let w = upd_buf source (comp_update_source_free_avail (frames * cn)) w;
        let w = upd_buf sink (comp_update_sink_free_avail (frames * cn)) w;
        Some (st, w) })"

section \<open>Parameters, copying and state commands\<close>

definition eq_params :: "u32 \<Rightarrow> u32 \<Rightarrow> 'a world_scheme \<Rightarrow> (int \<times> 'a world_scheme) option" where
  "eq_params d pcm w =
     (if stream_type (pcms w pcm) \<noteq> STREAM_TYPE_PCM \<or> frame_fmt (pcms w pcm) \<noteq> SOF_IPC_FRAME_S32_LE then Some (- EINVAL, w)
      else Some (0, comp_buffer_sink_params d pcm w))"

definition eq_copy :: "'f filter_step \<Rightarrow> nat \<Rightarrow> u32 \<Rightarrow> 'f \<Rightarrow> 'a world_scheme \<Rightarrow> (int \<times> 'f \<times> 'a world_scheme) option" where
  "eq_copy step fuel d st w = do {
     source \<leftarrow> first_of (bsource_list (devs w d));
     sink \<leftarrow> first_of (bsink_list (devs w d));
     let frames = period_count (pcms w (b_pcm (bufs w source)));
     let need_source = frames * frame_size (pcms w (b_pcm (bufs w source)));
     let need_sink = frames * frame_size (pcms w (b_pcm (bufs w sink)));
     if need_source \<le> avail (bufs w source) \<and> need_sink \<le> bfree (bufs w sink) then do {
       (st, w) \<leftarrow> eq_s32_default step fuel source sink frames st w;
       Some (0, st, w) }
     else Some (0, st, w) }"

definition eq_state_cmd :: "u32 \<Rightarrow> int \<Rightarrow> 'a world_scheme \<Rightarrow> 'a world_scheme" where
  "eq_state_cmd d c w =
     (let st = state (devs w d) in
      if c = COMP_CMD_START then set_state d COMP_STATE_RUNNING w
      else if c = COMP_CMD_STOP then
        (if st = COMP_STATE_RUNNING \<or> st = COMP_STATE_DRAINING \<or> st = COMP_STATE_PAUSED
         then set_state d COMP_STATE_SETUP (comp_buffer_reset d w) else w)
      else if c = COMP_CMD_PAUSE then (if st = COMP_STATE_RUNNING then set_state d COMP_STATE_PAUSED w else w)
      else if c = COMP_CMD_RELEASE then set_state d COMP_STATE_RUNNING w
      else w)"

text \<open>\<open>sizeof(struct comp_dev)\<close>.\<close>

definition sizeof_comp_dev :: u32 where "sizeof_comp_dev = 68"

end
