(* ===== verification/Reef_Eq_Props.thy ===== *)
theory Reef_Eq_Props
  imports Reef_Eq Reef_Ring
begin

unbundle bit_operations_syntax

text \<open>
  What the sample loop of the equalizers computes while a period does not reach the end of a
  buffer: each channel's samples are filtered in order by the channel's filter, and nothing but the
  period in the sink is written. At the end of a buffer the loop hangs.
\<close>

section \<open>One channel\<close>

text \<open>The reference: a filter applied to the samples of one channel, one after the other.\<close>

fun run_filter :: "'f filter_step \<Rightarrow> nat \<Rightarrow> s32 list \<Rightarrow> 'f \<Rightarrow> (s32 list \<times> 'f) option" where
  "run_filter step ch [] st = Some ([], st)"
| "run_filter step ch (x # xs) st = do {
     (y, st) \<leftarrow> step ch x st;
     (ys, st) \<leftarrow> run_filter step ch xs st;
     Some (y # ys, st) }"

lemma run_filter_len: "run_filter step ch xs st = Some (ys, st') \<Longrightarrow> length ys = length xs"
  by (induction xs arbitrary: st ys) (auto simp: bind_eq_Some_conv split: prod.splits)

lemma div_mod_at: "ch < K \<Longrightarrow> j = ch + K * i \<longleftrightarrow> j mod K = ch \<and> j div K = (i :: nat)"
  by auto

lemma ptr_step: "a + of_nat ((ch + K * i) * 4) + 4 * word_of_int (int K) = (a + of_nat ((ch + K * Suc i) * 4) :: u32)"
  by (simp add: algebra_simps)

lemma eq_inner_samples:
  assumes f: "fits src (L * 4)" "fits snk (L * 4)" and dj: "region src (L * 4) \<inter> region snk (L * 4) = {}"
    and K: "ch < K" "K * (i + k) \<le> L"
    and run: "run_filter step ch (map (\<lambda>t. s32_at mem src (ch + K * t)) [i ..< i + k]) st = Some (ys, st')"
  shows "\<exists>mem'. eq_inner step ch (int K) (int (K * k)) n (src + of_nat ((ch + K * i) * 4)) (snk + of_nat ((ch + K * i) * 4)) st mem
      = Some (n - int (K * k), src + of_nat ((ch + K * (i + k)) * 4), snk + of_nat ((ch + K * (i + k)) * 4), st', mem') \<and>
    (\<forall>j < L. s32_at mem' src j = s32_at mem src j) \<and>
    (\<forall>j < L. s32_at mem' snk j = (if j mod K = ch \<and> i \<le> j div K \<and> j div K < i + k then ys ! (j div K - i)
        else s32_at mem snk j)) \<and>
    (\<forall>a. unat a \<notin> region snk (L * 4) \<longrightarrow> mem' a = mem a)"
  using K run
proof (induction k arbitrary: i n st mem ys)
  case 0
  then show ?case by (subst eq_inner.simps) auto
next
  case (Suc k)
  let ?j = "ch + K * i"
  have jL: "?j < L"
  proof -
    have "?j < K * Suc i" using Suc.prems(1) by simp
    also have "\<dots> \<le> K * (i + Suc k)" by (rule mult_le_mono2) simp
    finally show ?thesis using Suc.prems(2) by simp
  qed
  have up: "[i ..< i + Suc k] = i # [Suc i ..< Suc i + k]" by (simp add: upt_conv_Cons)
  let ?x = "s32_at mem src ?j"
  from Suc.prems(3) obtain v st1 ys1 where
    v: "step ch ?x st = Some (v, st1)"
    and r1: "run_filter step ch (map (\<lambda>t. s32_at mem src (ch + K * t)) [Suc i ..< Suc i + k]) st1 = Some (ys1, st')"
    and ys: "ys = v # ys1"
    unfolding up by (auto simp: bind_eq_Some_conv simp del: upt_Suc split: prod.splits)
  let ?m = "store32 mem (snk + of_nat (?j * 4)) v"
  have src: "s32_at ?m src t = s32_at mem src t" if "t < L" for t
    by (rule s32_at_store_apart [OF f dj jL that])
  have "map (\<lambda>t. s32_at ?m src (ch + K * t)) [Suc i ..< Suc i + k]
      = map (\<lambda>t. s32_at mem src (ch + K * t)) [Suc i ..< Suc i + k]"
  proof (rule map_cong [OF refl])
    fix t assume "t \<in> set [Suc i ..< Suc i + k]"
    then have "Suc t \<le> i + Suc k" by auto
    then have "K * Suc t \<le> L" using Suc.prems(2) mult_le_mono2 [of "Suc t" "i + Suc k" K] by linarith
    then have "ch + K * t < L" using Suc.prems(1) by simp
    then show "s32_at ?m src (ch + K * t) = s32_at mem src (ch + K * t)" by (rule src)
  qed
  with r1 have r2: "run_filter step ch (map (\<lambda>t. s32_at ?m src (ch + K * t)) [Suc i ..< Suc i + k]) st1 = Some (ys1, st')"
    by (simp only:)
  have K2: "K * (Suc i + k) \<le> L" using Suc.prems(2) by simp
  from Suc.IH [OF Suc.prems(1) K2 r2, of "n - int K"] obtain mem' where
    e: "eq_inner step ch (int K) (int (K * k)) (n - int K) (src + of_nat ((ch + K * Suc i) * 4)) (snk + of_nat ((ch + K * Suc i) * 4)) st1 ?m
      = Some (n - int K - int (K * k), src + of_nat ((ch + K * (Suc i + k)) * 4), snk + of_nat ((ch + K * (Suc i + k)) * 4), st', mem')"
    and s: "\<forall>j < L. s32_at mem' src j = s32_at ?m src j"
    and d: "\<forall>j < L. s32_at mem' snk j = (if j mod K = ch \<and> Suc i \<le> j div K \<and> j div K < Suc i + k then ys1 ! (j div K - Suc i)
        else s32_at ?m snk j)"
    and o: "\<forall>a. unat a \<notin> region snk (L * 4) \<longrightarrow> mem' a = ?m a" by blast
  have "0 < K" using Suc.prems(1) by simp
  then have "0 < K * Suc k" by simp
  then have c: "0 < int (K * Suc k) \<and> 0 < int K" using \<open>0 < K\<close> by (simp only: of_nat_0_less_iff simp_thms)
  have m: "int (K * Suc k) - int K = int (K * k)" by simp
  have "eq_inner step ch (int K) (int (K * Suc k)) n (src + of_nat (?j * 4)) (snk + of_nat (?j * 4)) st mem
      = Some (n - int (K * Suc k), src + of_nat ((ch + K * (i + Suc k)) * 4), snk + of_nat ((ch + K * (i + Suc k)) * 4), st', mem')"
    by (subst eq_inner.simps, unfold if_P [OF c] s32_at_def [symmetric] v bind.bind_lunit prod.case ptr_step m e) (simp add: algebra_simps)
  moreover have "\<forall>j < L. s32_at mem' src j = s32_at mem src j" using s src by simp
  moreover have "s32_at mem' snk j = (if j mod K = ch \<and> i \<le> j div K \<and> j div K < i + Suc k then ys ! (j div K - i)
        else s32_at mem snk j)" if j: "j < L" for j
  proof (cases "j = ?j")
    case True
    then show ?thesis using d j s32_at_store [OF f(2) j jL, of mem v] div_mod_at [OF Suc.prems(1), of j i] ys by auto
  next
    case False
    then have n: "\<not> (j mod K = ch \<and> j div K = i)" using div_mod_at [OF Suc.prems(1), of j i] by blast
    have "s32_at ?m snk j = s32_at mem snk j" using s32_at_store [OF f(2) j jL, of mem v] False by simp
    moreover have "j mod K = ch \<and> i \<le> j div K \<and> j div K < i + Suc k \<longleftrightarrow> j mod K = ch \<and> Suc i \<le> j div K \<and> j div K < Suc i + k"
      using n by auto
    moreover have "ys ! (j div K - i) = ys1 ! (j div K - Suc i)" if "Suc i \<le> j div K" using that ys by (simp add: nth_Cons')
    ultimately show ?thesis using d j by auto
  qed
  moreover have "mem' a = mem a" if "unat a \<notin> region snk (L * 4)" for a
  proof -
    have "?m a = mem a" by (rule store_outside [OF f(2) jL that])
    then show ?thesis using o that by simp
  qed
  ultimately show ?case by blast
qed

section \<open>A period away from the end of the buffers\<close>

lemma sdiv_pos: "0 \<le> (a :: int) \<Longrightarrow> a sdiv 4 = a div 4"
  by (cases "a = 0") (simp_all add: signed_divide_int_def)

lemma ptr_diff_gt:
  assumes "unat p + 4 * (c + L + 1) \<le> unat e" "unat e - unat p < 2 ^ 31"
  shows "int L < ptr_diff e (p + of_nat (c * 4))"
proof -
  have pe: "unat e < 2 ^ 32" using unat32_lt [of e] by simp
  have u: "unat (p + of_nat (c * 4)) = unat p + c * 4"
    using assms(1) pe by (intro unat_offset [of p "4 * (c + L + 1)"]) (simp_all add: fits_def)
  have d: "unat (e - (p + of_nat (c * 4))) = unat e - (unat p + c * 4)"
    using assms(1) u by (subst unat_sub_le) (simp_all add: word_le_nat_alt)
  then have s: "sint (e - (p + of_nat (c * 4))) = int (unat e - (unat p + c * 4))"
    using assms(2) by (subst sint_small32) simp_all
  have "4 * (L + 1) \<le> unat e - (unat p + c * 4)" using assms(1) by simp
  then have "4 * (L + 1) div 4 \<le> (unat e - (unat p + c * 4)) div 4" by (rule div_le_mono)
  then have "L + 1 \<le> (unat e - (unat p + c * 4)) div 4" by (simp only: nonzero_mult_div_cancel_left [OF zero_neq_numeral [symmetric]])
  then have "int L < int ((unat e - (unat p + c * 4)) div 4)" by linarith
  then show ?thesis
    unfolding ptr_diff_def s by (simp only: sdiv_pos [OF of_nat_0_le_iff] zdiv_int of_nat_numeral)
qed

text \<open>The reference for all channels: each is filtered from its own samples.\<close>

fun filter_channels :: "'f filter_step \<Rightarrow> (nat \<Rightarrow> s32 list) \<Rightarrow> nat list \<Rightarrow> 'f \<Rightarrow> (s32 list list \<times> 'f) option" where
  "filter_channels step inp [] st = Some ([], st)"
| "filter_channels step inp (ch # chs) st = do {
     (ys, st) \<leftarrow> run_filter step ch (inp ch) st;
     (yss, st) \<leftarrow> filter_channels step inp chs st;
     Some (ys # yss, st) }"

definition chan_samples :: "mem \<Rightarrow> u32 \<Rightarrow> nat \<Rightarrow> nat \<Rightarrow> nat \<Rightarrow> s32 list" where
  "chan_samples m a K N ch = map (\<lambda>t. s32_at m a (ch + K * t)) [0 ..< N]"

text \<open>Room for a period of \<open>L\<close> samples of \<open>K\<close> channels before the end of a buffer.\<close>

definition room :: "nat \<Rightarrow> nat \<Rightarrow> u32 \<Rightarrow> u32 \<Rightarrow> bool" where
  "room K L p e \<longleftrightarrow> unat p + 4 * (L + K) \<le> unat e \<and> unat e - unat p < 2 ^ 31"

lemma room_diff: "room K L p e \<Longrightarrow> c < K \<Longrightarrow> int L < ptr_diff e (p + of_nat (c * 4))"
  unfolding room_def by (rule ptr_diff_gt) simp_all

lemma room_fits: "room K L p e \<Longrightarrow> fits p (L * 4)"
  using unat32_lt [of e] by (simp add: room_def fits_def)

lemma eq_channel_period:
  assumes rm: "room K L (r_ptr sr) (end_addr sr)" "room K L (w_ptr sk) (end_addr sk)"
    and dj: "region (r_ptr sr) (L * 4) \<inter> region (w_ptr sk) (L * 4) = {}"
    and K: "ch < K" "L = K * N"
    and run: "run_filter step ch (chan_samples mem (r_ptr sr) K N ch) st = Some (ys, st')"
  shows "\<exists>mem'. eq_channel step sr sk (int K) ch s (Suc (Suc f)) (int L) (r_ptr sr + of_nat (ch * 4)) (w_ptr sk + of_nat (ch * 4)) st mem
      = Some (r_ptr sr + of_nat ((ch + L) * 4), w_ptr sk + of_nat ((ch + L) * 4), st', mem') \<and>
    (\<forall>j < L. s32_at mem' (r_ptr sr) j = s32_at mem (r_ptr sr) j) \<and>
    (\<forall>j < L. s32_at mem' (w_ptr sk) j = (if j mod K = ch then ys ! (j div K) else s32_at mem (w_ptr sk) j)) \<and>
    (\<forall>a. unat a \<notin> region (w_ptr sk) (L * 4) \<longrightarrow> mem' a = mem a)"
proof (cases "L = 0")
  case True
  then have "N = 0" using K by simp
  then show ?thesis using True run by (simp add: chan_samples_def)
next
  case False
  have "K * (0 + N) \<le> L" using K by simp
  from eq_inner_samples [OF room_fits [OF rm(1)] room_fits [OF rm(2)] dj K(1) this, of step mem st ys st' "int L"]
    run [unfolded chan_samples_def] obtain mem' where
    e: "eq_inner step ch (int K) (int (K * N)) (int L) (r_ptr sr + of_nat ((ch + K * 0) * 4)) (w_ptr sk + of_nat ((ch + K * 0) * 4)) st mem
      = Some (int L - int (K * N), r_ptr sr + of_nat ((ch + K * (0 + N)) * 4), w_ptr sk + of_nat ((ch + K * (0 + N)) * 4), st', mem')"
    and s: "\<forall>j < L. s32_at mem' (r_ptr sr) j = s32_at mem (r_ptr sr) j"
    and d: "\<forall>j < L. s32_at mem' (w_ptr sk) j = (if j mod K = ch \<and> 0 \<le> j div K \<and> j div K < 0 + N then ys ! (j div K - 0) else s32_at mem (w_ptr sk) j)"
    and o: "\<forall>a. unat a \<notin> region (w_ptr sk) (L * 4) \<longrightarrow> mem' a = mem a" by auto
  have e': "eq_inner step ch (int K) (int L) (int L) (r_ptr sr + of_nat (ch * 4)) (w_ptr sk + of_nat (ch * 4)) st mem
      = Some (0, r_ptr sr + of_nat ((ch + L) * 4), w_ptr sk + of_nat ((ch + L) * 4), st', mem')"
    using e unfolding K(2) by (simp only: mult_0_right add_0_right add_0_left diff_self)
  have c: "0 < int L" using False by simp
  have m: "int L < (if ptr_diff (end_addr sr) (r_ptr sr + of_nat (ch * 4)) < ptr_diff (end_addr sk) (w_ptr sk + of_nat (ch * 4))
      then ptr_diff (end_addr sr) (r_ptr sr + of_nat (ch * 4)) else ptr_diff (end_addr sk) (w_ptr sk + of_nat (ch * 4)))"
    using room_diff [OF rm(1) K(1)] room_diff [OF rm(2) K(1)] by simp
  have "eq_channel step sr sk (int K) ch s (Suc (Suc f)) (int L) (r_ptr sr + of_nat (ch * 4)) (w_ptr sk + of_nat (ch * 4)) st mem
      = Some (r_ptr sr + of_nat ((ch + L) * 4), w_ptr sk + of_nat ((ch + L) * 4), st', mem')"
    by (subst eq_channel.simps(2), unfold if_P [OF c] Let_def if_P [OF m] e' bind.bind_lunit prod.case) simp
  moreover have "j div K < N" if "j < L" for j using that K by (simp add: div_less_iff_less_mult mult.commute)
  ultimately show ?thesis using s d o by auto
qed

lemma eq_channels_period:
  assumes rm: "room K L (r_ptr sr) (end_addr sr)" "room K L (w_ptr sk) (end_addr sk)"
    and dj: "region (r_ptr sr) (L * 4) \<inter> region (w_ptr sk) (L * 4) = {}" and L: "L = K * N"
  shows "K = c + d \<Longrightarrow> filter_channels step (chan_samples mem (r_ptr sr) K N) [c ..< K] st = Some (yss, st') \<Longrightarrow>
    \<exists>mem' x' y'. eq_channels step sr sk (int K) (int L) (Suc (Suc f)) [c ..< K] (r_ptr sr + of_nat (c * 4)) (w_ptr sk + of_nat (c * 4))
        (x, y, st, mem) = Some (x', y', st', mem') \<and>
    (if d = 0 then x' = x \<and> y' = y else x' = r_ptr sr + of_nat ((K - 1 + L) * 4) \<and> y' = w_ptr sk + of_nat ((K - 1 + L) * 4)) \<and>
    (\<forall>j < L. s32_at mem' (r_ptr sr) j = s32_at mem (r_ptr sr) j) \<and>
    (\<forall>j < L. s32_at mem' (w_ptr sk) j = (if c \<le> j mod K then yss ! (j mod K - c) ! (j div K) else s32_at mem (w_ptr sk) j)) \<and>
    (\<forall>a. unat a \<notin> region (w_ptr sk) (L * 4) \<longrightarrow> mem' a = mem a)"
proof (induction d arbitrary: c x y st mem yss)
  case 0
  then have "\<not> c \<le> j mod K" if "j < L" for j
    using that L by (cases "K = 0") (simp_all add: not_le)
  with 0 show ?case by auto
next
  case (Suc d)
  let ?S = "r_ptr sr" and ?T = "w_ptr sk"
  have up: "[c ..< K] = c # [Suc c ..< K]" using Suc.prems(1) by (simp add: upt_conv_Cons)
  have cK: "c < K" "K = Suc c + d" using Suc.prems(1) by simp_all
  from Suc.prems(2) obtain ys st1 yss1 where
    r: "run_filter step c (chan_samples mem ?S K N c) st = Some (ys, st1)"
    and rs: "filter_channels step (chan_samples mem ?S K N) [Suc c ..< K] st1 = Some (yss1, st')" and yss: "yss = ys # yss1"
    unfolding up by (auto simp: bind_eq_Some_conv simp del: upt_Suc split: prod.splits)
  from eq_channel_period [OF rm dj cK(1) L r, of "?T + of_nat (c * 4) + 4" f] obtain m1 where
    e1: "eq_channel step sr sk (int K) c (?T + of_nat (c * 4) + 4) (Suc (Suc f)) (int L) (?S + of_nat (c * 4)) (?T + of_nat (c * 4)) st mem
      = Some (?S + of_nat ((c + L) * 4), ?T + of_nat ((c + L) * 4), st1, m1)"
    and s1: "\<forall>j < L. s32_at m1 ?S j = s32_at mem ?S j"
    and d1: "\<forall>j < L. s32_at m1 ?T j = (if j mod K = c then ys ! (j div K) else s32_at mem ?T j)"
    and o1: "\<forall>a. unat a \<notin> region ?T (L * 4) \<longrightarrow> m1 a = mem a" by blast
  have "filter_channels step (chan_samples m1 ?S K N) chs st1 = filter_channels step (chan_samples mem ?S K N) chs st1"
    if "set chs \<subseteq> {..< K}" for chs st1
    using that
  proof (induction chs arbitrary: st1)
    case (Cons ch chs)
    have "ch + K * t < L" if "t < N" for t
    proof -
      have "ch + K * t < K * Suc t" using Cons.prems by simp
      also have "\<dots> \<le> L" unfolding L using that by (intro mult_le_mono2) simp
      finally show ?thesis .
    qed
    then have "chan_samples m1 ?S K N ch = chan_samples mem ?S K N ch" unfolding chan_samples_def using s1 by simp
    then show ?case using Cons by simp
  qed simp
  then have rs': "filter_channels step (chan_samples m1 ?S K N) [Suc c ..< K] st1 = Some (yss1, st')"
    using rs by (metis atLeastLessThan_upt atLeast_upt ivl_subset less_eq_nat.simps(1) order_refl lessThan_atLeast0)
  have p4: "p + of_nat (c * 4) + 4 = (p + of_nat (Suc c * 4) :: u32)" for p by simp
  from Suc.IH [OF cK(2) rs', of "?S + of_nat ((c + L) * 4)" "?T + of_nat ((c + L) * 4)"] obtain m2 x' y' where
    e2: "eq_channels step sr sk (int K) (int L) (Suc (Suc f)) [Suc c ..< K] (?S + of_nat (Suc c * 4)) (?T + of_nat (Suc c * 4))
        (?S + of_nat ((c + L) * 4), ?T + of_nat ((c + L) * 4), st1, m1) = Some (x', y', st', m2)"
    and p2: "if d = 0 then x' = ?S + of_nat ((c + L) * 4) \<and> y' = ?T + of_nat ((c + L) * 4)
        else x' = ?S + of_nat ((K - 1 + L) * 4) \<and> y' = ?T + of_nat ((K - 1 + L) * 4)"
    and s2: "\<forall>j < L. s32_at m2 ?S j = s32_at m1 ?S j"
    and d2: "\<forall>j < L. s32_at m2 ?T j = (if Suc c \<le> j mod K then yss1 ! (j mod K - Suc c) ! (j div K) else s32_at m1 ?T j)"
    and o2: "\<forall>a. unat a \<notin> region ?T (L * 4) \<longrightarrow> m2 a = m1 a" by blast
  have "eq_channels step sr sk (int K) (int L) (Suc (Suc f)) [c ..< K] (?S + of_nat (c * 4)) (?T + of_nat (c * 4)) (x, y, st, mem)
      = Some (x', y', st', m2)"
    unfolding up eq_channels.simps p4 e1 [unfolded p4] bind.bind_lunit by (rule e2)
  moreover have "x' = ?S + of_nat ((K - 1 + L) * 4) \<and> y' = ?T + of_nat ((K - 1 + L) * 4)"
    using p2 cK(2) by (cases "d = 0") simp_all
  moreover have "s32_at m2 ?T j = (if c \<le> j mod K then yss ! (j mod K - c) ! (j div K) else s32_at mem ?T j)" if j: "j < L" for j
  proof -
    consider "j mod K < c" | "j mod K = c" | "Suc c \<le> j mod K" by linarith
    then show ?thesis
    proof cases
      case 3
      then have "yss ! (j mod K - c) = yss1 ! (j mod K - Suc c)" using yss by (simp add: nth_Cons')
      then show ?thesis using d2 j 3 by simp
    qed (use d1 d2 j yss in simp_all)
  qed
  ultimately show ?case using s1 s2 o1 o2 by auto
qed

lemma no_wrap:
  assumes "addr b \<le> p" "p < end_addr b"
  shows "comp_wrap_source_r_ptr_circular (b\<lparr>r_ptr := p\<rparr>) = b\<lparr>r_ptr := p\<rparr>"
    "comp_wrap_sink_w_ptr_circular (b\<lparr>w_ptr := p\<rparr>) = b\<lparr>w_ptr := p\<rparr>"
  using assms by (simp_all add: comp_wrap_source_r_ptr_circular_def comp_wrap_sink_w_ptr_circular_def Let_def not_le)

lemma room_next:
  assumes "room K L p e" "0 < K" "a \<le> p"
  shows "a \<le> p + of_nat (L * 4)" "p + of_nat (L * 4) < e"
proof -
  have e: "unat e < 2 ^ 32" using unat32_lt [of e] by simp
  have "unat (p + of_nat (L * 4)) = unat p + L * 4"
    using assms(1,2) e by (intro unat_offset [of p "4 * (L + K)"]) (simp_all add: fits_def room_def)
  then show "a \<le> p + of_nat (L * 4)" "p + of_nat (L * 4) < e"
    using assms by (simp_all add: room_def word_le_nat_alt word_less_nat_alt)
qed

text \<open>
  A period that ends before the end of both buffers: every channel of the sink receives the
  samples of that channel of the source, filtered in order by the channel's filter, the pointers
  and counters of the buffers move by the period, and no other memory changes.
\<close>

lemma eq_period:
  fixes w :: "'a world_scheme"
  assumes sr: "bufs w source = sr" and sk: "bufs w sink = sk"
    and K: "channels (pcms w (b_pcm sr)) = of_nat K" "0 < K" and N: "frames = of_nat N" "K * N < 2 ^ 31" "K < 2 ^ 31"
    and rm: "room K (K * N) (r_ptr sr) (end_addr sr)" "room K (K * N) (w_ptr sk) (end_addr sk)"
    and dj: "region (r_ptr sr) (K * N * 4) \<inter> region (w_ptr sk) (K * N * 4) = {}"
    and start: "addr sr \<le> r_ptr sr" "addr sk \<le> w_ptr sk" and ne: "source \<noteq> sink"
    and run: "filter_channels step (chan_samples (wmem w) (r_ptr sr) K N) [0 ..< K] st = Some (yss, st')"
  shows "\<exists>w'. eq_s32_default step (Suc (Suc f)) source sink frames st w = Some (st', w') \<and>
    (\<forall>j < K * N. s32_at (wmem w') (w_ptr sk) j = yss ! (j mod K) ! (j div K)) \<and>
    (\<forall>a. unat a \<notin> region (w_ptr sk) (K * N * 4) \<longrightarrow> wmem w' a = wmem w a) \<and>
    bufs w' source = comp_update_source_free_avail (of_nat (K * N)) (sr\<lparr>r_ptr := r_ptr sr + of_nat (K * N * 4)\<rparr>) \<and>
    bufs w' sink = comp_update_sink_free_avail (of_nat (K * N)) (sk\<lparr>w_ptr := w_ptr sk + of_nat (K * N * 4)\<rparr>) \<and> devs w' = devs w"
proof -
  have Kw: "sint (of_nat K :: u32) = int K" "sint (of_nat N * of_nat K :: u32) = int (K * N)"
    using sint_of_nat32 [OF N(3)] sint_of_nat32 [OF N(2)] by (simp_all add: mult.commute)
  have "K = 0 + K" by simp
  from eq_channels_period [OF rm dj refl this run, of f "r_ptr sr + 4 * (of_nat K - 1)" "w_ptr sk + 4 * (of_nat K - 1)"] K(2)
  obtain m x y where
    e: "eq_channels step sr sk (int K) (int (K * N)) (Suc (Suc f)) [0 ..< K] (r_ptr sr + of_nat (0 * 4)) (w_ptr sk + of_nat (0 * 4))
      (r_ptr sr + 4 * (of_nat K - 1), w_ptr sk + 4 * (of_nat K - 1), st, wmem w) = Some (x, y, st', m)"
    and xy: "x = r_ptr sr + of_nat ((K - 1 + K * N) * 4)" "y = w_ptr sk + of_nat ((K - 1 + K * N) * 4)"
    and d: "\<forall>j < K * N. s32_at m (w_ptr sk) j = yss ! (j mod K) ! (j div K)"
    and o: "\<forall>a. unat a \<notin> region (w_ptr sk) (K * N * 4) \<longrightarrow> m a = wmem w a" by auto
  have e': "eq_channels step sr sk (int K) (int (K * N)) (Suc (Suc f)) [0 ..< K] (r_ptr sr) (w_ptr sk)
      (r_ptr sr + 4 * (of_nat K - 1), w_ptr sk + 4 * (of_nat K - 1), st, wmem w) = Some (x, y, st', m)"
    using e by (simp only: mult_0 of_nat_0 semiring_1_class.of_nat_0 add_0_right Groups.add_0_right)
  have km: "of_nat ((K - 1 + K * N) * 4) = (4 * (of_nat K - 1) + of_nat (K * N * 4) :: u32)"
    using K(2) by (simp add: of_nat_diff algebra_simps)
  have xr: "x - 4 * (of_nat K - 1) = r_ptr sr + of_nat (K * N * 4)" "y - 4 * (of_nat K - 1) = w_ptr sk + of_nat (K * N * 4)"
    unfolding xy km by simp_all
  note w1 = no_wrap(1) [OF room_next [OF rm(1) K(2) start(1)]] and w2 = no_wrap(2) [OF room_next [OF rm(2) K(2) start(2)]]
  have fr: "frames * of_nat K = of_nat (K * N)" using N(1) by (simp add: mult.commute)
  let ?w = "upd_buf sink (comp_update_sink_free_avail (of_nat (K * N))) (upd_buf source (comp_update_source_free_avail (of_nat (K * N)))
     (upd_buf sink comp_wrap_sink_w_ptr_circular (upd_buf source comp_wrap_source_r_ptr_circular
     (upd_buf sink (\<lambda>b. b\<lparr>w_ptr := y - 4 * (of_nat K - 1)\<rparr>) (upd_buf source (\<lambda>b. b\<lparr>r_ptr := x - 4 * (of_nat K - 1)\<rparr>) (w\<lparr>wmem := m\<rparr>))))))"
  have "sint (of_nat (K * N) :: u32) = int (K * N)" by (rule sint_of_nat32 [OF N(2)])
  then have "eq_s32_default step (Suc (Suc f)) source sink frames st w = Some (st', ?w)"
    unfolding eq_s32_default_def Let_def sr sk K(1) fr
    by (simp only: Kw nat_int e' bind.bind_lunit prod.case)
  moreover have "bufs ?w source = comp_update_source_free_avail (of_nat (K * N)) (sr\<lparr>r_ptr := r_ptr sr + of_nat (K * N * 4)\<rparr>)"
    using ne w1 unfolding xr by (simp add: sr sk)
  moreover have "bufs ?w sink = comp_update_sink_free_avail (of_nat (K * N)) (sk\<lparr>w_ptr := w_ptr sk + of_nat (K * N * 4)\<rparr>)"
    using ne w2 unfolding xr by (simp add: sr sk)
  moreover have "wmem ?w = m" "devs ?w = devs w" by simp_all
  ultimately show ?thesis using d o by (intro exI [of _ ?w]) (simp only: simp_thms)
qed

section \<open>A period that crosses the end of the source\<close>

lemma eq_inner_ptrs:
  "eq_inner step ch (int K) (int (K * q)) n x y st mem = Some (n', x', y', st', mem') \<Longrightarrow> 0 < K \<Longrightarrow>
   n' = n - int (K * q) \<and> x' = x + of_nat (K * q * 4) \<and> y' = y + of_nat (K * q * 4)"
proof (induction q arbitrary: n x y st mem)
  case 0
  then show ?case by (subst (asm) eq_inner.simps) simp
next
  case (Suc q)
  have "0 < K * Suc q" using Suc.prems(2) by simp
  then have c: "0 < int (K * Suc q) \<and> 0 < int K" using Suc.prems(2) by (simp only: of_nat_0_less_iff simp_thms)
  have m: "int (K * Suc q) - int K = int (K * q)" by simp
  obtain v st1 where "eq_inner step ch (int K) (int (K * q)) (n - int K) (x + 4 * word_of_int (int K)) (y + 4 * word_of_int (int K))
      st1 (store32 mem y v) = Some (n', x', y', st', mem')"
    using Suc.prems(1) unfolding eq_inner.simps [of step ch "int K" "int (K * Suc q)"] if_P [OF c] m
    by (auto simp: bind_eq_Some_conv split: prod.splits)
  from Suc.IH [OF this Suc.prems(2)] show ?case by (simp add: algebra_simps)
qed

text \<open>With \<open>x\<close> at the end address and samples left, a round changes nothing.\<close>

lemma eq_channel_stuck:
  assumes "0 < n" "snk \<le> end_addr sk"
  shows "eq_channel step sr sk nch ch snk fuel n (end_addr sr) y st mem = None"
proof (induction fuel)
  case (Suc fuel)
  let ?k = "ptr_diff (end_addr sk) y"
  have z: "ptr_diff (end_addr sr) (end_addr sr) = 0" by (simp add: ptr_diff_def)
  let ?m = "if 0 < ?k then 0 else ?k"
  have m: "\<not> n < ?m" "\<not> (0 < ?m \<and> 0 < nch)" using assms(1) by auto
  have "eq_inner step ch nch ?m n (end_addr sr) y st mem = Some (n, end_addr sr, y, st, mem)"
    using m(2) by (subst eq_inner.simps) simp
  then show ?case using m(1) assms leD [OF assms(2)] Suc by (simp add: z Let_def)
qed simp

text \<open>
  C39: a period that must wrap at the source, and whose frames before the wrap end exactly at the end of the
  buffer, with frames still to come, is never finished (one that ends exactly at the end of the buffer is):
  the wrap test compares with \<open>>\<close>, so the read pointer stays at the end of the buffer.
\<close>

theorem eq_boundary_hangs:
  assumes "channels (pcms w (b_pcm (bufs w source))) = of_nat K" "0 < K" "frames = of_nat N" "K * N < 2 ^ 31"
    and "q < N" "end_addr (bufs w source) = r_ptr (bufs w source) + of_nat (K * q * 4)" "K * q * 4 < 2 ^ 31"
    and rm: "room K (K * N) (w_ptr (bufs w sink)) (end_addr (bufs w sink))"
  shows "eq_s32_default step fuel source sink frames st w = None"
proof -
  let ?sr = "bufs w source" and ?sk = "bufs w sink"
  have N: "0 < N" "K * q < K * N" using assms(2,5) by simp_all
  then have "K \<le> K * N" by simp
  then have K31: "K < 2 ^ 31" using assms(4) by linarith
  have Kw: "sint (of_nat K :: u32) = int K" "sint (frames * of_nat K) = int (K * N)"
    using sint_of_nat32 [OF K31] sint_of_nat32 [OF assms(4)] assms(3) by (simp_all add: mult.commute)
  have d: "ptr_diff (end_addr ?sr) (r_ptr ?sr) = int (K * q)"
  proof -
    have "sint (end_addr ?sr - r_ptr ?sr) = int (K * q * 4)" using assms(6) sint_of_nat32 [OF assms(7)] by simp
    then show ?thesis unfolding ptr_diff_def by (simp add: sdiv_pos)
  qed
  have dk: "int (K * N) < ptr_diff (end_addr ?sk) (w_ptr ?sk)" using room_diff [OF rm assms(2)] by simp
  have snk: "w_ptr ?sk + 4 \<le> end_addr ?sk"
  proof -
    have e: "unat (end_addr ?sk) < 2 ^ 32" using unat32_lt [of "end_addr ?sk"] by simp
    have "0 < K * N" using N(1) assms(2) by simp
    moreover have "4 < 4 * (z + K)" if "0 < z" for z using that assms(2) by presburger
    ultimately have g: "4 < 4 * (K * N + K)" by blast
    have "fits (w_ptr ?sk) (4 * (K * N + K))" using rm e by (simp add: fits_def room_def)
    from unat_offset [OF this g] have "unat (w_ptr ?sk + of_nat 4) = unat (w_ptr ?sk) + 4" .
    moreover have "4 \<le> 4 * (K * N + K)" using assms(2) by simp
    then have "unat (w_ptr ?sk) + 4 \<le> unat (end_addr ?sk)" using rm unfolding room_def by linarith
    ultimately show ?thesis by (simp add: word_le_nat_alt)
  qed
  have "eq_channel step ?sr ?sk (int K) 0 (w_ptr ?sk + 4) fuel (int (K * N)) (r_ptr ?sr) (w_ptr ?sk) st (wmem w) = None"
  proof (cases fuel)
    case (Suc f)
    have c: "0 < int (K * N)" "\<not> int (K * N) < int (K * q)" "int (K * q) < ptr_diff (end_addr ?sk) (w_ptr ?sk)"
    proof -
      have i: "int (K * q) < int (K * N)" using N(2) by (simp only: of_nat_less_iff)
      have j: "0 \<le> int (K * q)" by (rule of_nat_0_le_iff)
      show "0 < int (K * N)" "\<not> int (K * N) < int (K * q)" "int (K * q) < ptr_diff (end_addr ?sk) (w_ptr ?sk)"
        using i j dk by linarith+
    qed
    show ?thesis
    proof (cases "eq_inner step 0 (int K) (int (K * q)) (int (K * N)) (r_ptr ?sr) (w_ptr ?sk) st (wmem w)")
      case (Some r)
      obtain n x y st1 m1 where r: "r = (n, x, y, st1, m1)" by (cases r) auto
      from eq_inner_ptrs [OF Some [unfolded r] assms(2)] have "n = int (K * N) - int (K * q)" and x: "x = end_addr ?sr"
        using assms(6) by simp_all
      then have "0 < n" using N(2) by linarith
      then show ?thesis using Some r c d x snk Suc eq_channel_stuck [OF \<open>0 < n\<close> snk]
        leD [OF snk] by (simp del: of_nat_mult)
    next
      case None
      then show ?thesis using Suc c d by (simp del: of_nat_mult)
    qed
  qed simp
  moreover have "[0 ..< K] = 0 # [Suc 0 ..< K]" using assms(2) by (simp add: upt_conv_Cons)
  ultimately show ?thesis unfolding eq_s32_default_def Let_def assms(1) Kw nat_int by simp
qed

text \<open>
  A component 1 between a source buffer 10 of 64 samples, read from address \<open>p\<close> on, and an empty
  sink buffer 20: two channels, periods of two frames.
\<close>

definition eq_demo :: "u32 \<Rightarrow> world" where
  "eq_demo p = empty_world\<lparr>
     bufs := (\<lambda>_. zero_buffer)(
       10 := zero_buffer\<lparr>ipc_size := 256, alloc_size := 256, addr := 0x1000, end_addr := 0x1100, r_ptr := p, w_ptr := p + 64,
               avail := 64, bfree := 192, b_pcm := 100\<rparr>,
       20 := zero_buffer\<lparr>ipc_size := 256, alloc_size := 256, addr := 0x2000, end_addr := 0x2100, r_ptr := 0x2000, w_ptr := 0x2000,
               avail := 0, bfree := 256, b_pcm := 100\<rparr>),
     devs := (devs empty_world)(1 := (devs empty_world 1)\<lparr>bsource_list := [10], bsink_list := [20], priv := 500\<rparr>),
     pcms := (pcms empty_world)(100 := (pcms empty_world 100)\<lparr>frame_fmt := SOF_IPC_FRAME_S32_LE, frame_size := 8, channels := 2, period_count := 2\<rparr>)\<rparr>"

lemma eq_boundary_hangs_witness:
  "\<forall>fuel. eq_s32_default (\<lambda>ch x st. Some (x, st)) fuel 10 20 2 () (eq_demo 0x10F8) = None"
  by (intro allI, rule eq_boundary_hangs [where K = 2 and N = 2 and q = 1])
     (simp_all add: eq_demo_def zero_buffer_def room_def)

end
