(* ===== verification/Reef_Eq_Fir.thy ===== *)
theory Reef_Eq_Fir
  imports Reef_Fir Reef_Eq_Props
begin

unbundle bit_operations_syntax

text \<open>
  The FIR equalizer component, src/src/audio/eq_fir.c and eq_fir.h: the configuration with its table
  of responses, the setup of the channels' filters in one block of memory, and the driver's
  operations. The configuration and the block of delay lines are separate allocations: the private
  record holds their addresses, \<open>cfg_ptr\<close> and \<open>chunk\<close>, and their contents, \<open>cfg\<close> and \<open>pool\<close>; a
  filter's \<open>delay\<close> pointer is an index into \<open>pool\<close>, that is the address \<open>chunk + 4 * index\<close>.

  \<open>rmalloc\<close> does not clear memory: what \<open>eq_fir_new\<close> leaves unset is the argument \<open>junk\<close>.
  \<open>eq_fir_func\<close> only ever holds \<open>eq_fir_s32_default\<close>.
\<close>

section \<open>State\<close>

abbreviation (input) PLATFORM_MAX_CHANNELS :: nat where "PLATFORM_MAX_CHANNELS \<equiv> 4"
abbreviation (input) EQ_FIR_MAX_BLOB_SIZE :: u32 where "EQ_FIR_MAX_BLOB_SIZE \<equiv> 4096"
abbreviation (input) COMP_CMD_EQ_FIR_CONFIG :: int where "COMP_CMD_EQ_FIR_CONFIG \<equiv> 107"
abbreviation (input) COMP_CMD_EQ_FIR_SWITCH :: int where "COMP_CMD_EQ_FIR_SWITCH \<equiv> 108"

record fir_config =
  stream_max_channels :: u16
  number_of_responses_defined :: u16
  assign_response :: "u16 list"
  all_coefficients :: "s16 list"

record eqf_data =
  cfg_ptr :: u32
  cfg :: fir_config
  firs :: "fir_state list"
  chunk :: u32
  pool :: "s32 list"

record eqf_world = world +
  eqfs :: "u32 \<Rightarrow> eqf_data"

definition upd_eqf :: "u32 \<Rightarrow> eqf_data \<Rightarrow> 'a eqf_world_scheme \<Rightarrow> 'a eqf_world_scheme" where
  "upd_eqf p cd w = w\<lparr>eqfs := (eqfs w)(p := cd)\<rparr>"

section \<open>Setting up the filters\<close>

definition eq_fir_free_parameters :: "eqf_data \<Rightarrow> memmap \<Rightarrow> (eqf_data \<times> memmap) option" where
  "eq_fir_free_parameters cd h = do {
     h \<leftarrow> (if cfg_ptr cd \<noteq> 0 then rfree (cfg_ptr cd) h else Some h);
     Some (cd\<lparr>cfg_ptr := 0\<rparr>, h) }"

text \<open>The first delay pointer that is not \<open>NULL\<close> is released, and all are set to \<open>NULL\<close>.\<close>

fun first_delay :: "fir_state list \<Rightarrow> nat option" where
  "first_delay [] = None"
| "first_delay (f # fs) = (case delay f of Some d \<Rightarrow> Some d | None \<Rightarrow> first_delay fs)"

definition eq_fir_free_delaylines :: "eqf_data \<Rightarrow> memmap \<Rightarrow> (eqf_data \<times> memmap) option" where
  "eq_fir_free_delaylines cd h = do {
     h \<leftarrow> (case first_delay (firs cd) of Some d \<Rightarrow> rbfree (chunk cd + 4 * of_nat d) h | None \<Rightarrow> Some h);
     Some (cd\<lparr>firs := map (\<lambda>f. f\<lparr>delay := None\<rparr>) (firs cd)\<rparr>, h) }"

text \<open>
  \<open>response_index\<close>: the start of each response in \<open>all_coefficients\<close>, which is walked from header
  to header; 0 beyond the number of responses.
\<close>

fun response_index :: "fir_config \<Rightarrow> nat \<Rightarrow> nat \<Rightarrow> int \<Rightarrow> int list option" where
  "response_index c 0 i j = Some []"
| "response_index c (Suc k) i j =
     (if i < unat (number_of_responses_defined c) then do {
        len \<leftarrow> iget (all_coefficients c) j;
        rs \<leftarrow> response_index c k (Suc i) (j + 3 + sint len);
        Some (j # rs) }
      else do { rs \<leftarrow> response_index c k (Suc i) j; Some (0 # rs) })"

text \<open>\<open>&config->all_coefficients[idx]\<close>\<close>

definition coefs_from :: "fir_config \<Rightarrow> int \<Rightarrow> s16 list option" where
  "coefs_from c idx = (if idx < 0 then None else Some (drop (nat idx) (all_coefficients c)))"

text \<open>
  The two phases. \<open>assign_response\<close> holds \<open>uint16_t\<close>s, so \<open>resp\<close> is never negative; a response number
  from 4 on reads \<open>response_index\<close> outside its bounds.
\<close>

fun init_coefs :: "fir_config \<Rightarrow> int list \<Rightarrow> nat list \<Rightarrow> fir_state list \<Rightarrow> int \<Rightarrow> (fir_state list \<times> int) option" where
  "init_coefs c ri [] fs length_sum = Some (fs, length_sum)"
| "init_coefs c ri (i # is) fs length_sum = do {
     a \<leftarrow> aget (assign_response c) i;
     f \<leftarrow> aget fs i;
     let resp = uint a;
     if resp < 0 then init_coefs c ri is (fs[i := fir_reset f]) length_sum
     else do {
       idx \<leftarrow> iget ri resp;
       k \<leftarrow> coefs_from c idx;
       (len, f) \<leftarrow> fir_init_coef f k;
       init_coefs c ri is (fs[i := f]) (if 0 < len then length_sum + len else length_sum) } }"

fun init_delays :: "fir_config \<Rightarrow> nat list \<Rightarrow> fir_state list \<Rightarrow> int \<Rightarrow> fir_state list option" where
  "init_delays c [] fs data = Some fs"
| "init_delays c (i # is) fs data = do {
     a \<leftarrow> aget (assign_response c) i;
     f \<leftarrow> aget fs i;
     let resp = uint a;
     if resp < 0 then init_delays c is fs data
     else
       (let (f, data) = fir_init_delay f data
        in init_delays c is (fs[i := f]) data) }"

definition eq_fir_setup :: "eqf_data \<Rightarrow> int \<Rightarrow> memmap \<Rightarrow> (int \<times> eqf_data \<times> memmap) option" where
  "eq_fir_setup cd nch h =
     (if int PLATFORM_MAX_CHANNELS < nch then Some (- EINVAL, cd, h)
      else do {
        ri \<leftarrow> response_index (cfg cd) PLATFORM_MAX_CHANNELS 0 0;
        (cd, h) \<leftarrow> eq_fir_free_delaylines cd h;
        (fs, length_sum) \<leftarrow> init_coefs (cfg cd) ri [0 ..< nat nch] (firs cd) 0;
        (fir_data, h) \<leftarrow> rballoc RZONE_SYS RFLAGS_NONE (word_of_int length_sum * 4) h;
        if fir_data = 0 then Some (- ENOMEM, cd\<lparr>firs := fs\<rparr>, h)
        else do {
          fs \<leftarrow> init_delays (cfg cd) [0 ..< nat nch] fs 0;
          Some (0, cd\<lparr>firs := fs, chunk := fir_data, pool := replicate (nat length_sum) 0\<rparr>, h) } })"

text \<open>The loop that copies the assignments of an update.\<close>

fun switch_loop :: "nat list \<Rightarrow> u16 \<Rightarrow> u16 list \<Rightarrow> u16 list \<Rightarrow> u16 list option" where
  "switch_loop [] mx upd as = Some as"
| "switch_loop (i # is) mx upd as =
     (if i < unat mx then do {
        a \<leftarrow> aget upd i;
        as \<leftarrow> aset as i a;
        switch_loop is mx upd as }
      else switch_loop is mx upd as)"

definition eq_fir_switch_response :: "eqf_data \<Rightarrow> u16 \<Rightarrow> u16 list \<Rightarrow> int \<Rightarrow> memmap \<Rightarrow> (int \<times> eqf_data \<times> memmap) option" where
  "eq_fir_switch_response cd mx upd nch h =
     (if cfg_ptr cd = 0 then Some (- EINVAL, cd, h)
      else do {
        as \<leftarrow> switch_loop [0 ..< unat (stream_max_channels (cfg cd))] mx upd (assign_response (cfg cd));
        eq_fir_setup (cd\<lparr>cfg := (cfg cd)\<lparr>assign_response := as\<rparr>\<rparr>) nch h })"

section \<open>The driver's operations\<close>

definition sizeof_eqf_data :: u32 where "sizeof_eqf_data = 136"

definition eq_fir_new :: "eqf_data \<Rightarrow> ipc_comp \<Rightarrow> 'a eqf_world_scheme \<Rightarrow> (u32 \<times> 'a eqf_world_scheme) option" where
  "eq_fir_new junk c w = do {
     (d, h) \<leftarrow> rmalloc RZONE_RUNTIME RFLAGS_NONE sizeof_comp_dev (mm w);
     let w = w\<lparr>mm := h\<rparr>;
     if d = 0 then Some (0, w)
     else do {
       (p, h) \<leftarrow> rmalloc RZONE_RUNTIME RFLAGS_NONE sizeof_eqf_data (mm w);
       let w = w\<lparr>mm := h\<rparr>;
       if p = 0 then do { h \<leftarrow> rfree d (mm w); Some (0, w\<lparr>mm := h\<rparr>) }
       else Some (d, upd_eqf p (junk\<lparr>cfg_ptr := 0, firs := map fir_reset (firs junk)\<rparr>)
                       (upd_dev d (\<lambda>r. r\<lparr>priv := p\<rparr>) w)) } }"

definition eq_fir_free :: "u32 \<Rightarrow> 'a eqf_world_scheme \<Rightarrow> 'a eqf_world_scheme option" where
  "eq_fir_free d w = do {
     let p = priv (devs w d);
     (cd, h) \<leftarrow> eq_fir_free_delaylines (eqfs w p) (mm w);
     (cd, h) \<leftarrow> eq_fir_free_parameters cd h;
     h \<leftarrow> rfree p h;
     h \<leftarrow> rfree d h;
     Some (upd_eqf p cd (w\<lparr>mm := h\<rparr>)) }"

definition eq_fir_params :: "u32 \<Rightarrow> u32 \<Rightarrow> 'a eqf_world_scheme \<Rightarrow> (int \<times> 'a eqf_world_scheme) option" where
  "eq_fir_params = eq_params"

text \<open>
  The data of a command: an update, or a blob: the size in its header and the configuration that
  the bytes from \<open>blob->data\<close> on make up. \<open>memcpy\<close> copies as many bytes as the header says, less
  \<open>sizeof(struct sof_ipc_hdr)\<close>.
\<close>

datatype eqf_arg = Fir_Switch u16 "u16 list" | Fir_Blob u32 fir_config | No_Data

definition eq_fir_cmd :: "u32 \<Rightarrow> int \<Rightarrow> eqf_arg \<Rightarrow> 'a eqf_world_scheme \<Rightarrow> (int \<times> 'a eqf_world_scheme) option" where
  "eq_fir_cmd d c arg w =
     (let p = priv (devs w d); cd = eqfs w p in
      if c = COMP_CMD_EQ_FIR_SWITCH then
        (case arg of
           Fir_Switch mx upd \<Rightarrow> do {
             (ret, cd, h) \<leftarrow> eq_fir_switch_response cd mx upd (int PLATFORM_MAX_CHANNELS) (mm w);
             Some (ret, upd_eqf p cd (w\<lparr>mm := h\<rparr>)) }
         | _ \<Rightarrow> None)
      else if c = COMP_CMD_EQ_FIR_CONFIG then
        (case arg of
           Fir_Blob hsize data \<Rightarrow> do {
             (cd, h) \<leftarrow> eq_fir_free_parameters cd (mm w);
             let w = upd_eqf p cd (w\<lparr>mm := h\<rparr>);
             let bs = hsize - 8;
             if EQ_FIR_MAX_BLOB_SIZE < bs then Some (- EINVAL, w)
             else do {
               (q, h) \<leftarrow> rmalloc RZONE_RUNTIME RFLAGS_NONE bs (mm w);
               let w = w\<lparr>mm := h\<rparr>;
               if q = 0 then Some (- EINVAL, w)
               else if bs < 12 then None
               else do {
                 let cd = cd\<lparr>cfg_ptr := q, cfg := data\<lparr>all_coefficients := take ((unat bs - 12) div 2) (all_coefficients data)\<rparr>\<rparr>;
                 (ret, cd, h) \<leftarrow> eq_fir_setup cd (int PLATFORM_MAX_CHANNELS) (mm w);
                 Some (ret, upd_eqf p cd (w\<lparr>mm := h\<rparr>)) } } }
         | _ \<Rightarrow> None)
      else if c = COMP_CMD_MUTE then Some (0, upd_eqf p (cd\<lparr>firs := map fir_mute (firs cd)\<rparr>) w)
      else if c = COMP_CMD_UNMUTE then Some (0, upd_eqf p (cd\<lparr>firs := map fir_unmute (firs cd)\<rparr>) w)
      else Some (0, eq_state_cmd d c w))"

definition fir_step :: "(fir_state list \<times> s32 list) filter_step" where
  "fir_step ch x st = do {
     f \<leftarrow> aget (fst st) ch;
     (y, f, pool) \<leftarrow> fir_32x16 f (snd st) x;
     Some (y, (fst st)[ch := f], pool) }"

definition eq_fir_copy :: "nat \<Rightarrow> u32 \<Rightarrow> 'a eqf_world_scheme \<Rightarrow> (int \<times> 'a eqf_world_scheme) option" where
  "eq_fir_copy fuel d w = do {
     let p = priv (devs w d);
     (ret, (fs, q), w) \<leftarrow> eq_copy fir_step fuel d (firs (eqfs w p), pool (eqfs w p)) w;
     Some (ret, upd_eqf p ((eqfs w p)\<lparr>firs := fs, pool := q\<rparr>) w) }"

definition eq_fir_prepare :: "u32 \<Rightarrow> 'a eqf_world_scheme \<Rightarrow> (int \<times> 'a eqf_world_scheme) option" where
  "eq_fir_prepare d w =
     (let p = priv (devs w d); cd = eqfs w p in
      if cfg_ptr cd = 0 then Some (- EINVAL, w)
      else do {
        source \<leftarrow> first_of (bsource_list (devs w d));
        (ret, cd, h) \<leftarrow> eq_fir_setup cd (sint (channels (pcms w (b_pcm (bufs w source))))) (mm w);
        let w = upd_eqf p cd (w\<lparr>mm := h\<rparr>);
        if ret < 0 then Some (ret, w) else Some (0, set_state d COMP_STATE_PREPARE w) })"

definition eq_fir_preload :: "u32 \<Rightarrow> 'a eqf_world_scheme \<Rightarrow> (int \<times> 'a eqf_world_scheme) option" where
  "eq_fir_preload d w = Some (0, w)"

definition eq_fir_reset :: "u32 \<Rightarrow> 'a eqf_world_scheme \<Rightarrow> (int \<times> 'a eqf_world_scheme) option" where
  "eq_fir_reset d w = do {
     let p = priv (devs w d);
     (cd, h) \<leftarrow> eq_fir_free_delaylines (eqfs w p) (mm w);
     (cd, h) \<leftarrow> eq_fir_free_parameters cd h;
     Some (0, set_state d COMP_STATE_INIT (upd_eqf p (cd\<lparr>firs := map fir_reset (firs cd)\<rparr>) (w\<lparr>mm := h\<rparr>))) }"

end
