(* ===== verification/Reef_Eq_Fir_Props.thy ===== *)
theory Reef_Eq_Fir_Props
  imports Reef_Eq_Fir Reef_Ring
begin

text \<open>
  The FIR equalizer as a whole: the setup gives every channel its own cleared delay line in the
  block it allocates, and from then on every period is, channel by channel, the convolution of
  that channel's input history with the response assigned to it.
\<close>

section \<open>Configurations\<close>

definition chan_coefs :: "fir_config \<Rightarrow> int list \<Rightarrow> nat \<Rightarrow> s16 list" where
  "chan_coefs c ri i = drop (nat (ri ! unat (assign_response c ! i))) (all_coefficients c)"

definition valid_coefs :: "s16 list \<Rightarrow> bool" where
  "valid_coefs k \<longleftrightarrow> 1 \<le> sint (k ! 0) \<and> sint (k ! 0) \<le> 192 \<and> nat (sint (k ! 0)) + 3 \<le> length k \<and>
     0 \<le> sint (k ! 1) \<and> sint (k ! 1) \<le> 31 \<and> - 15 \<le> sint (k ! 2) \<and> sint (k ! 2) \<le> 48"

text \<open>Channel \<open>i\<close> is assigned a response that exists and has a valid header.\<close>

definition chan_ok :: "fir_config \<Rightarrow> int list \<Rightarrow> nat \<Rightarrow> bool" where
  "chan_ok c ri i \<longleftrightarrow> i < length (assign_response c) \<and> unat (assign_response c ! i) < length ri \<and>
     0 \<le> ri ! unat (assign_response c ! i) \<and> valid_coefs (chan_coefs c ri i)"

definition chan_taps :: "fir_config \<Rightarrow> int list \<Rightarrow> nat \<Rightarrow> int" where
  "chan_taps c ri i = sint (chan_coefs c ri i ! 0)"

lemma chan_taps_pos: "chan_ok c ri i \<Longrightarrow> 1 \<le> chan_taps c ri i \<and> chan_taps c ri i \<le> 192"
  by (simp add: chan_ok_def valid_coefs_def chan_taps_def)

text \<open>A filter with the coefficients \<open>k\<close> and no delay line yet.\<close>

definition config_fir :: "s16 list \<Rightarrow> fir_state \<Rightarrow> fir_state" where
  "config_fir k f = f\<lparr>mute := False, rwi := 0, taps := sint (k ! 0), in_shift := sint (k ! 1), out_shift := sint (k ! 2),
     coef := drop 3 k, delay := None, delay_size := 0\<rparr>"

lemma fir_init_coef_valid: "valid_coefs k \<Longrightarrow> fir_init_coef f k = Some (sint (k ! 0), config_fir k f)"
proof -
  assume v: "valid_coefs k"
  then have l: "0 < length k" "1 < length k" "2 < length k" unfolding valid_coefs_def by linarith+
  show ?thesis
    using v unfolding fir_init_coef_def aget_in [OF l(1)] aget_in [OF l(2)] aget_in [OF l(3)]
    by (simp add: valid_coefs_def config_fir_def)
qed

lemma init_coefs_ok:
  assumes "distinct is" "\<forall>i \<in> set is. chan_ok c ri i \<and> i < length fs"
  shows "\<exists>fs'. init_coefs c ri is fs s = Some (fs', s + (\<Sum>i \<leftarrow> is. chan_taps c ri i)) \<and> length fs' = length fs \<and>
    (\<forall>i < length fs. fs' ! i = (if i \<in> set is then config_fir (chan_coefs c ri i) (fs ! i) else fs ! i))"
  using assms
proof (induction "is" arbitrary: fs s)
  case (Cons i "is")
  let ?f = "config_fir (chan_coefs c ri i) (fs ! i)"
  have i: "chan_ok c ri i" "i < length fs" "i \<notin> set is" using Cons.prems by simp_all
  have t: "1 \<le> chan_taps c ri i" using chan_taps_pos [OF i(1)] by simp
  have r: "aget (assign_response c) i = Some (assign_response c ! i)" "aget fs i = Some (fs ! i)"
    "iget ri (uint (assign_response c ! i)) = Some (ri ! unat (assign_response c ! i))"
    "coefs_from c (ri ! unat (assign_response c ! i)) = Some (chan_coefs c ri i)"
    "fir_init_coef (fs ! i) (chan_coefs c ri i) = Some (chan_taps c ri i, ?f)"
    using i fir_init_coef_valid [of "chan_coefs c ri i" "fs ! i"]
    by (simp_all add: chan_ok_def coefs_from_def chan_coefs_def chan_taps_def unat_eq_nat_uint [symmetric])
  have "init_coefs c ri (i # is) fs s = init_coefs c ri is (fs[i := ?f]) (s + chan_taps c ri i)"
    using t unfolding init_coefs.simps r bind.bind_lunit by (simp add: r)
  moreover from Cons.IH [of "fs[i := ?f]" "s + chan_taps c ri i"] Cons.prems obtain fs' where
    "init_coefs c ri is (fs[i := ?f]) (s + chan_taps c ri i) = Some (fs', s + chan_taps c ri i + (\<Sum>i \<leftarrow> is. chan_taps c ri i))"
    "length fs' = length fs"
    "\<forall>l < length fs. fs' ! l = (if l \<in> set is then config_fir (chan_coefs c ri l) (fs[i := ?f] ! l) else fs[i := ?f] ! l)"
    by auto
  ultimately show ?case using i by (auto simp: nth_list_update add.assoc)
qed simp

lemma init_delays_ok:
  assumes "\<forall>i < s + d. i < length (assign_response c) \<and> i < length fs \<and> 0 \<le> taps (fs ! i)"
  shows "\<exists>fs'. init_delays c [s ..< s + d] fs dat = Some fs' \<and> length fs' = length fs \<and>
    (\<forall>i < length fs. fs' ! i = (if s \<le> i \<and> i < s + d
        then (fs ! i)\<lparr>delay := Some (nat (dat + (\<Sum>j = s ..< i. taps (fs ! j)))), delay_size := taps (fs ! i)\<rparr> else fs ! i))"
  using assms
proof (induction d arbitrary: s fs dat)
  case (Suc d)
  let ?f = "(fs ! s)\<lparr>delay := Some (nat dat), delay_size := taps (fs ! s)\<rparr>"
  have up: "[s ..< s + Suc d] = s # [Suc s ..< Suc s + d]" by (simp add: upt_conv_Cons)
  have s: "s < length (assign_response c)" "s < length fs" using Suc.prems by simp_all
  have step: "init_delays c [s ..< s + Suc d] fs dat = init_delays c [Suc s ..< Suc s + d] (fs[s := ?f]) (dat + taps (fs ! s))"
    unfolding up using s by (simp add: fir_init_delay_def not_less)
  have "\<forall>i < Suc s + d. i < length (assign_response c) \<and> i < length (fs[s := ?f]) \<and> 0 \<le> taps (fs[s := ?f] ! i)"
    using Suc.prems by (simp add: nth_list_update_if)
  from Suc.IH [OF this, of "dat + taps (fs ! s)"] obtain fs' where
    f: "init_delays c [Suc s ..< Suc s + d] (fs[s := ?f]) (dat + taps (fs ! s)) = Some fs'" "length fs' = length fs"
    "\<forall>i < length fs. fs' ! i = (if Suc s \<le> i \<and> i < Suc s + d
        then (fs[s := ?f] ! i)\<lparr>delay := Some (nat (dat + taps (fs ! s) + (\<Sum>j = Suc s ..< i. taps (fs[s := ?f] ! j)))),
               delay_size := taps (fs[s := ?f] ! i)\<rparr> else fs[s := ?f] ! i)" unfolding length_list_update by blast
  have "fs' ! i = (if s \<le> i \<and> i < s + Suc d
        then (fs ! i)\<lparr>delay := Some (nat (dat + (\<Sum>j = s ..< i. taps (fs ! j)))), delay_size := taps (fs ! i)\<rparr> else fs ! i)"
    if i: "i < length fs" for i
  proof (cases "Suc s \<le> i \<and> i < Suc s + d")
    case True
    have "(\<Sum>j = Suc s ..< i. taps (fs[s := ?f] ! j)) = (\<Sum>j = Suc s ..< i. taps (fs ! j))" by (rule sum.cong) auto
    moreover have "(\<Sum>j = s ..< i. taps (fs ! j)) = taps (fs ! s) + (\<Sum>j = Suc s ..< i. taps (fs ! j))"
      using True by (simp add: sum.atLeast_Suc_lessThan)
    ultimately show ?thesis using f(3) i True by (simp add: add.assoc)
  next
    case False
    then have e: "fs' ! i = fs[s := ?f] ! i" using spec [OF f(3), of i] i by (simp only: if_False simp_thms)
    show ?thesis
    proof (cases "i = s")
      case True
      then show ?thesis using e s by simp
    next
      case neq: False
      then have "\<not> (s \<le> i \<and> i < s + Suc d)" using False by linarith
      then show ?thesis unfolding e nth_list_update_neq [OF neq [symmetric]] by (simp only: if_False)
    qed
  qed
  then show ?case using step f(1,2) by (intro exI [of _ fs']) simp
qed auto

section \<open>The channels' filters\<close>

text \<open>Every channel has a well-formed filter, and their delay lines are disjoint.\<close>

definition eqf_ok :: "nat \<Rightarrow> fir_state list \<Rightarrow> s32 list \<Rightarrow> bool" where
  "eqf_ok K fs q \<longleftrightarrow> K \<le> length fs \<and> (\<forall>i < K. fir_ok (fs ! i) q) \<and>
     (\<forall>i < K. \<forall>j < K. i \<noteq> j \<longrightarrow> line (fs ! i) \<inter> line (fs ! j) = {})"

lemma sum_prefix_le:
  fixes f :: "nat \<Rightarrow> int"
  assumes "i < j" "\<forall>k < j. 0 \<le> f k"
  shows "(\<Sum>k = 0 ..< i. f k) + f i \<le> (\<Sum>k = 0 ..< j. f k)"
proof -
  have "(\<Sum>k = 0 ..< i. f k) + f i = (\<Sum>k = 0 ..< Suc i. f k)" by simp
  also have "\<dots> \<le> (\<Sum>k = 0 ..< j. f k)" using assms by (intro sum_mono2) auto
  finally show ?thesis .
qed

text \<open>
  when every channel is assigned a response with a valid header and the delay lines can be
  allocated, the setup succeeds and gives each channel the filter of its response, not muted,
  with a cleared delay line of its own inside the block; the lines of different channels are
  disjoint.
\<close>

theorem eq_fir_setup_ok:
  assumes K: "K \<le> 4" "K \<le> length (firs cd)" and ri: "response_index (cfg cd) 4 0 0 = Some ri"
    and ok: "\<forall>i < K. chan_ok (cfg cd) ri i"
    and fr: "eq_fir_free_delaylines cd h = Some (cd1, h1)"
    and al: "rballoc RZONE_SYS RFLAGS_NONE (word_of_int (\<Sum>i < K. chan_taps (cfg cd) ri i) * 4) h1 = Some (data, h2)" "data \<noteq> 0"
  shows "\<exists>cd'. eq_fir_setup cd (int K) h = Some (0, cd', h2) \<and> chunk cd' = data \<and>
    pool cd' = replicate (nat (\<Sum>i < K. chan_taps (cfg cd) ri i)) 0 \<and> eqf_ok K (firs cd') (pool cd') \<and>
    (\<forall>i < K. \<not> mute (firs cd' ! i) \<and> coef (firs cd' ! i) = drop 3 (chan_coefs (cfg cd) ri i) \<and>
       taps (firs cd' ! i) = chan_taps (cfg cd) ri i \<and> in_shift (firs cd' ! i) = sint (chan_coefs (cfg cd) ri i ! 1) \<and>
       out_shift (firs cd' ! i) = sint (chan_coefs (cfg cd) ri i ! 2))"
proof -
  let ?t = "chan_taps (cfg cd) ri" and ?k = "chan_coefs (cfg cd) ri"
  let ?sum = "\<Sum>i < K. ?t i"
  have cd1: "cfg cd1 = cfg cd" "length (firs cd1) = length (firs cd)"
    using fr by (auto simp: eq_fir_free_delaylines_def bind_eq_Some_conv)
  have "\<forall>i \<in> set [0 ..< K]. chan_ok (cfg cd) ri i \<and> i < length (firs cd1)" using ok K cd1 by simp
  from init_coefs_ok [OF distinct_upt this, of 0] obtain fs where
    fs: "init_coefs (cfg cd) ri [0 ..< K] (firs cd1) 0 = Some (fs, 0 + (\<Sum>i \<leftarrow> [0 ..< K]. ?t i))" "length fs = length (firs cd1)"
    "\<forall>i < length (firs cd1). fs ! i = (if i \<in> set [0 ..< K] then config_fir (?k i) (firs cd1 ! i) else firs cd1 ! i)" by blast
  have sum: "0 + (\<Sum>i \<leftarrow> [0 ..< K]. ?t i) = ?sum" by (simp add: interv_sum_list_conv_sum_set_nat atLeast0LessThan)
  have fi: "fs ! i = config_fir (?k i) (firs cd1 ! i)" if "i < K" for i using fs(3) that K cd1 by simp
  then have ti: "taps (fs ! i) = ?t i" if "i < K" for i using that by (simp add: config_fir_def chan_taps_def)
  have pos: "1 \<le> ?t i" "?t i \<le> 192" if "i < K" for i using chan_taps_pos ok that by auto
  have "\<forall>i < 0 + K. i < length (assign_response (cfg cd)) \<and> i < length fs \<and> 0 \<le> taps (fs ! i)"
  proof (intro allI impI)
    fix i assume "i < 0 + K"
    then have i: "i < K" by simp
    then show "i < length (assign_response (cfg cd)) \<and> i < length fs \<and> 0 \<le> taps (fs ! i)"
      using ok K cd1 fs(2) ti [OF i] pos(1) [OF i] by (simp add: chan_ok_def)
  qed
  from init_delays_ok [OF this, of 0] obtain fs' where
    d: "init_delays (cfg cd) [0 ..< 0 + K] fs 0 = Some fs'" "length fs' = length fs"
    "\<forall>i < length fs. fs' ! i = (if 0 \<le> i \<and> i < 0 + K
        then (fs ! i)\<lparr>delay := Some (nat (0 + (\<Sum>j = 0 ..< i. taps (fs ! j)))), delay_size := taps (fs ! i)\<rparr> else fs ! i)" by blast
  let ?off = "\<lambda>i. \<Sum>j = 0 ..< i. ?t j"
  have fi': "fs' ! i = (config_fir (?k i) (firs cd1 ! i))\<lparr>delay := Some (nat (?off i)), delay_size := ?t i\<rparr>" if i: "i < K" for i
  proof -
    have "(\<Sum>j = 0 ..< i. taps (fs ! j)) = ?off i" using ti i by (intro sum.cong) auto
    then show ?thesis using d(3) i K cd1 fs(2) ti [OF i] fi [OF i] by simp
  qed
  have off: "0 \<le> ?off i" if "i \<le> K" for i using pos(1) that by (intro sum_nonneg) (simp add: order_trans [OF zero_le_one])
  have offs: "?off i + ?t i \<le> ?off j" if "i < j" "j \<le> K" for i j
  proof (rule sum_prefix_le [OF that(1)], intro allI impI)
    fix k assume "k < j"
    then show "0 \<le> ?t k" using pos(1) [of k] that(2) by linarith
  qed
  have last: "?off K = ?sum" by (simp add: atLeast0LessThan)
  let ?cd = "cd1\<lparr>firs := fs', chunk := data, pool := replicate (nat ?sum) 0\<rparr>"
  have "eq_fir_setup cd (int K) h = Some (0, ?cd, h2)"
    using K(1) d(1) unfolding eq_fir_setup_def ri fr cd1(1) nat_int fs(1) sum bind.bind_lunit prod.case al(1)
    by (simp add: al(2))
  moreover have "fir_ok (fs' ! i) (replicate (nat ?sum) 0)" if i: "i < K" for i
  proof -
    have v: "valid_coefs (?k i)" using ok i by (simp add: chan_ok_def)
    have "nat (?off i) + nat (?t i) \<le> nat ?sum" using offs [OF i order_refl] off [of i] pos(1) [OF i] i last by simp
    then show ?thesis using v unfolding fi' [OF i] fir_ok_def by (simp add: config_fir_def valid_coefs_def chan_taps_def) linarith
  qed
  moreover have "line (fs' ! i) \<inter> line (fs' ! j) = {}" if "i < j" "j < K" for i j
  proof -
    have "nat (?off i) + nat (?t i) \<le> nat (?off j)" using offs [of i j] off [of i] pos(1) [of i] that by simp
    moreover have "taps (fs' ! i) = ?t i" using fi' [of i] that by (simp add: config_fir_def chan_taps_def)
    ultimately show ?thesis using fi' [of i] fi' [of j] that by (auto simp: line_def)
  qed
  then have "\<forall>i < K. \<forall>j < K. i \<noteq> j \<longrightarrow> line (fs' ! i) \<inter> line (fs' ! j) = {}"
    by (metis inf_commute linorder_neqE_nat)
  moreover have "K \<le> length fs'" using K cd1 fs(2) d(2) by simp
  moreover have "\<not> mute (fs' ! i) \<and> coef (fs' ! i) = drop 3 (?k i) \<and> taps (fs' ! i) = ?t i \<and>
      in_shift (fs' ! i) = sint (?k i ! 1) \<and> out_shift (fs' ! i) = sint (?k i ! 2)" if "i < K" for i
    using fi' [OF that] by (simp add: config_fir_def chan_taps_def)
  ultimately show ?thesis by (intro exI [of _ ?cd]) (simp add: eqf_ok_def)
qed

section \<open>A period of the equalizer\<close>







section \<open>Channels without a response\<close>

lemma response_index_len: "response_index c k i j = Some ri \<Longrightarrow> length ri = k"
  by (induction k arbitrary: i j ri) (auto simp: bind_eq_Some_conv split: if_splits)

text \<open>
  a channel whose response is -1, documented as left unequalized, makes the setup read
  \<open>response_index\<close> at 65535: \<open>assign_response\<close> is unsigned, so the test for a negative response never holds.
\<close>

theorem eq_fir_bypass_faults:
  assumes "0 < nch" "nch \<le> 4" "assign_response (cfg cd) = 0xFFFF # as"
  shows "eq_fir_setup cd nch h = None"
proof (cases "response_index (cfg cd) 4 0 0")
  case (Some ri)
  have l: "length ri = 4" by (rule response_index_len [OF Some])
  have up: "[0 ..< nat nch] = 0 # [1 ..< nat nch]" using assms(1) by (simp add: upt_conv_Cons)
  show ?thesis
  proof (cases "eq_fir_free_delaylines cd h")
    case free: (Some r)
    obtain cd1 h1 where r: "r = (cd1, h1)" by (cases r)
    have "iget ri (uint (0xFFFF :: u16)) = None" using l by (simp add: iget_def aget_def)
    then have "init_coefs (cfg cd1) ri [0 ..< nat nch] (firs cd1) 0 = None"
      unfolding up using free r assms(3) l by (auto simp: eq_fir_free_delaylines_def bind_eq_Some_conv aget_def split: bind_split)
    moreover have "cfg cd1 = cfg cd" using free r by (auto simp: eq_fir_free_delaylines_def bind_eq_Some_conv)
    ultimately show ?thesis using assms(2) unfolding eq_fir_setup_def Some free r by simp
  qed (use assms(2) Some in \<open>simp add: eq_fir_setup_def\<close>)
qed (use assms(2) in \<open>simp add: eq_fir_setup_def\<close>)

section \<open>Concrete instances\<close>

definition eqf_heap :: memmap where
  "eqf_heap = heap0\<lparr>buf_heap_map := [(BLOCK_DEF 384 2)\<lparr>base := 0xFF30F800\<rparr>]\<rparr>"

definition reset_fir :: fir_state where
  "reset_fir = \<lparr>mute = True, rwi = 0, taps = 0, delay_size = 0, in_shift = 0, out_shift = 0, coef = [], delay = None\<rparr>"

text \<open>Two responses, of one and two taps, for the first two channels.\<close>

definition eqf_demo :: eqf_data where
  "eqf_demo = \<lparr>cfg_ptr = 64, cfg = \<lparr>stream_max_channels = 2, number_of_responses_defined = 2, assign_response = [0, 1, 0, 0],
       all_coefficients = [1, 0, 0, 16384, 2, 1, 0, 8192, - 8192]\<rparr>, firs = replicate 4 reset_fir, chunk = 0, pool = []\<rparr>"

lemma eqf_demo_index: "response_index (cfg eqf_demo) 4 0 0 = Some [0, 4, 0, 0]"
  by code_simp

lemma eqf_demo_sel:
  "length (firs eqf_demo) = 4"
  "eq_fir_free_delaylines eqf_demo h = Some (eqf_demo, h)" "chan_coefs (cfg eqf_demo) [0, 4, 0, 0] 0 = [1, 0, 0, 16384, 2, 1, 0, 8192, - 8192]"
  "chan_coefs (cfg eqf_demo) [0, 4, 0, 0] 1 = [2, 1, 0, 8192, - 8192]"
  by (simp_all add: eqf_demo_def eq_fir_free_delaylines_def reset_fir_def chan_coefs_def numeral_eq_Suc)

lemma eqf_demo_ok: "\<forall>i < 2. chan_ok (cfg eqf_demo) [0, 4, 0, 0] i"
proof (intro allI impI)
  fix i :: nat assume "i < 2"
  then consider "i = 0" | "i = 1" by linarith
  then show "chan_ok (cfg eqf_demo) [0, 4, 0, 0] i"
    by cases (simp_all add: chan_ok_def eqf_demo_sel [unfolded One_nat_def] valid_coefs_def, simp_all add: eqf_demo_def)
qed

lemma eqf_alloc: "\<exists>h. rballoc RZONE_SYS RFLAGS_NONE 12 eqf_heap = Some (0xFF30F800, h)"
  by (simp add: rballoc_def eqf_heap_def alloc_block_def take_block_def block_ptr_def Let_def BLOCK_DEF_def find_free.simps)

lemma eq_fir_setup_ok_witness:
  "\<exists>cd' h. eq_fir_setup eqf_demo (int 2) eqf_heap = Some (0, cd', h) \<and> pool cd' = replicate 3 0 \<and> eqf_ok 2 (firs cd') (pool cd')"
proof -
  have s: "(\<Sum>i < 2. chan_taps (cfg eqf_demo) [0, 4, 0, 0] i) = 3"
    by (simp add: numeral_2_eq_2 chan_taps_def eqf_demo_sel [unfolded One_nat_def])
  obtain h where "rballoc RZONE_SYS RFLAGS_NONE 12 eqf_heap = Some (0xFF30F800, h)" using eqf_alloc by blast
  then have a: "rballoc RZONE_SYS RFLAGS_NONE (word_of_int (\<Sum>i < 2. chan_taps (cfg eqf_demo) [0, 4, 0, 0] i) * 4) eqf_heap = Some (0xFF30F800, h)"
    unfolding s by simp
  from eq_fir_setup_ok [OF _ _ eqf_demo_index eqf_demo_ok eqf_demo_sel(2) a] show ?thesis
    unfolding s eqf_demo_sel(1) by auto
qed





lemma eq_fir_bypass_faults_witness:
  "eq_fir_setup (eqf_demo\<lparr>cfg := (cfg eqf_demo)\<lparr>assign_response := [0xFFFF, 0, 0, 0]\<rparr>\<rparr>) 4 eqf_heap = None"
  by (rule eq_fir_bypass_faults) simp_all

end
