(* ===== verification/Reef_Eq_Iir.thy ===== *)
theory Reef_Eq_Iir
  imports Reef_Iir Reef_Eq_Props
begin

unbundle bit_operations_syntax

text \<open>
  The IIR equalizer component, src/src/audio/eq_iir.c and eq_iir.h, in the form of \<open>Reef_Eq_Fir\<close>: the
  private record holds the addresses of the configuration and of the block of delay lines with
  their contents; an \<open>i_delay\<close> pointer is an index into \<open>pool\<close>, that is the address
  \<open>chunk + 8 * index\<close>. Here \<open>assign_response\<close> is signed, the block comes from \<open>rmalloc\<close>, and what
  \<open>eq_iir_new\<close> leaves unset, the delay pointers among it, is the argument \<open>junk\<close>.
\<close>

section \<open>State\<close>

abbreviation (input) PLATFORM_MAX_CHANNELS :: nat where "PLATFORM_MAX_CHANNELS \<equiv> 4"
abbreviation (input) EQ_IIR_MAX_BLOB_SIZE :: u32 where "EQ_IIR_MAX_BLOB_SIZE \<equiv> 1024"
abbreviation (input) COMP_CMD_EQ_IIR_CONFIG :: int where "COMP_CMD_EQ_IIR_CONFIG \<equiv> 109"
abbreviation (input) COMP_CMD_EQ_IIR_SWITCH :: int where "COMP_CMD_EQ_IIR_SWITCH \<equiv> 110"

record iir_config =
  stream_max_channels :: s32
  number_of_responses_defined :: s32
  assign_response :: "s32 list"
  all_coefficients :: "s32 list"

record eqi_data =
  cfg_ptr :: u32
  cfg :: iir_config
  iirs :: "iir_state list"
  chunk :: u32
  pool :: "s64 list"

record eqi_world = world +
  eqis :: "u32 \<Rightarrow> eqi_data"

definition upd_eqi :: "u32 \<Rightarrow> eqi_data \<Rightarrow> 'a eqi_world_scheme \<Rightarrow> 'a eqi_world_scheme" where
  "upd_eqi p cd w = w\<lparr>eqis := (eqis w)(p := cd)\<rparr>"

section \<open>Setting up the filters\<close>

definition eq_iir_free_parameters :: "eqi_data \<Rightarrow> memmap \<Rightarrow> (eqi_data \<times> memmap) option" where
  "eq_iir_free_parameters cd h = do {
     h \<leftarrow> (if cfg_ptr cd \<noteq> 0 then rfree (cfg_ptr cd) h else Some h);
     Some (cd\<lparr>cfg_ptr := 0\<rparr>, h) }"

fun first_delay :: "iir_state list \<Rightarrow> nat option" where
  "first_delay [] = None"
| "first_delay (f # fs) = (case i_delay f of Some d \<Rightarrow> Some d | None \<Rightarrow> first_delay fs)"

definition eq_iir_free_delaylines :: "eqi_data \<Rightarrow> memmap \<Rightarrow> (eqi_data \<times> memmap) option" where
  "eq_iir_free_delaylines cd h = do {
     h \<leftarrow> (case first_delay (iirs cd) of Some d \<Rightarrow> rfree (chunk cd + 8 * of_nat d) h | None \<Rightarrow> Some h);
     Some (cd\<lparr>iirs := map (\<lambda>f. f\<lparr>i_delay := None\<rparr>) (iirs cd)\<rparr>, h) }"

fun response_index :: "iir_config \<Rightarrow> nat \<Rightarrow> nat \<Rightarrow> int \<Rightarrow> int list option" where
  "response_index c 0 i j = Some []"
| "response_index c (Suc k) i j =
     (if int i < sint (number_of_responses_defined c) then do {
        n \<leftarrow> iget (all_coefficients c) j;
        rs \<leftarrow> response_index c k (Suc i) (j + 2 + 7 * sint n);
        Some (j # rs) }
      else do { rs \<leftarrow> response_index c k (Suc i) j; Some (0 # rs) })"

definition coefs_from :: "iir_config \<Rightarrow> int \<Rightarrow> s32 list option" where
  "coefs_from c idx = (if idx < 0 then None else Some (drop (nat idx) (all_coefficients c)))"

text \<open>
  The first phase; the result is \<open>None\<close> inside for the return of \<open>-EINVAL\<close>. \<open>s\<close> is unsigned, so
  that return is taken for a size of 0 only, which no filter has.
\<close>

fun init_coefs :: "iir_config \<Rightarrow> int list \<Rightarrow> nat list \<Rightarrow> iir_state list \<Rightarrow> u32 \<Rightarrow> (iir_state list \<times> u32 option) option" where
  "init_coefs c ri [] fs sz_sum = Some (fs, Some sz_sum)"
| "init_coefs c ri (i # is) fs sz_sum = do {
     a \<leftarrow> aget (assign_response c) i;
     f \<leftarrow> aget fs i;
     let resp = sint a;
     if resp < 0 then init_coefs c ri is (fs[i := iir_reset_df2t f]) sz_sum
     else do {
       idx \<leftarrow> iget ri resp;
       k \<leftarrow> coefs_from c idx;
       (s, f) \<leftarrow> iir_init_coef_df2t f k;
       if 0 < s then init_coefs c ri is (fs[i := f]) (sz_sum + s)
       else Some (fs[i := f], None) } }"

fun init_delays :: "iir_config \<Rightarrow> nat list \<Rightarrow> iir_state list \<Rightarrow> int \<Rightarrow> iir_state list option" where
  "init_delays c [] fs dly = Some fs"
| "init_delays c (i # is) fs dly = do {
     a \<leftarrow> aget (assign_response c) i;
     f \<leftarrow> aget fs i;
     let resp = sint a;
     if 0 \<le> resp then
       (let (f, dly) = iir_init_delay_df2t f dly
        in init_delays c is (fs[i := f]) dly)
     else init_delays c is fs dly }"

definition eq_iir_setup :: "eqi_data \<Rightarrow> int \<Rightarrow> memmap \<Rightarrow> (int \<times> eqi_data \<times> memmap) option" where
  "eq_iir_setup cd nch h =
     (if int PLATFORM_MAX_CHANNELS < nch then Some (- EINVAL, cd, h)
      else do {
        (cd, h) \<leftarrow> eq_iir_free_delaylines cd h;
        ri \<leftarrow> response_index (cfg cd) PLATFORM_MAX_CHANNELS 0 0;
        (fs, sz) \<leftarrow> init_coefs (cfg cd) ri [0 ..< nat nch] (iirs cd) 0;
        case sz of
          None \<Rightarrow> Some (- EINVAL, cd\<lparr>iirs := fs\<rparr>, h)
        | Some sz_sum \<Rightarrow> do {
            (iir_delay, h) \<leftarrow> rmalloc RZONE_RUNTIME RFLAGS_NONE sz_sum h;
            if iir_delay = 0 then Some (- ENOMEM, cd\<lparr>iirs := fs\<rparr>, h)
            else do {
              fs \<leftarrow> init_delays (cfg cd) [0 ..< nat nch] fs 0;
              Some (0, cd\<lparr>iirs := fs, chunk := iir_delay, pool := replicate (unat sz_sum div 8) 0\<rparr>, h) } } })"

fun switch_loop :: "nat list \<Rightarrow> s32 \<Rightarrow> s32 list \<Rightarrow> s32 list \<Rightarrow> s32 list option" where
  "switch_loop [] mx upd as = Some as"
| "switch_loop (i # is) mx upd as =
     (if int i < sint mx then do {
        a \<leftarrow> aget upd i;
        as \<leftarrow> aset as i a;
        switch_loop is mx upd as }
      else switch_loop is mx upd as)"

definition eq_iir_switch_response :: "eqi_data \<Rightarrow> s32 \<Rightarrow> s32 list \<Rightarrow> int \<Rightarrow> memmap \<Rightarrow> (int \<times> eqi_data \<times> memmap) option" where
  "eq_iir_switch_response cd mx upd nch h =
     (if cfg_ptr cd = 0 then Some (- EINVAL, cd, h)
      else do {
        as \<leftarrow> switch_loop [0 ..< nat (sint (stream_max_channels (cfg cd)))] mx upd (assign_response (cfg cd));
        eq_iir_setup (cd\<lparr>cfg := (cfg cd)\<lparr>assign_response := as\<rparr>\<rparr>) nch h })"

section \<open>The driver's operations\<close>

definition sizeof_eqi_data :: u32 where "sizeof_eqi_data = 88"

definition eq_iir_new :: "eqi_data \<Rightarrow> ipc_comp \<Rightarrow> 'a eqi_world_scheme \<Rightarrow> (u32 \<times> 'a eqi_world_scheme) option" where
  "eq_iir_new junk c w = do {
     (d, h) \<leftarrow> rmalloc RZONE_RUNTIME RFLAGS_NONE sizeof_comp_dev (mm w);
     let w = w\<lparr>mm := h\<rparr>;
     if d = 0 then Some (0, w)
     else do {
       (p, h) \<leftarrow> rmalloc RZONE_RUNTIME RFLAGS_NONE sizeof_eqi_data (mm w);
       let w = w\<lparr>mm := h\<rparr>;
       if p = 0 then do { h \<leftarrow> rfree d (mm w); Some (0, w\<lparr>mm := h\<rparr>) }
       else Some (d, upd_eqi p (junk\<lparr>cfg_ptr := 0, iirs := map iir_reset_df2t (iirs junk)\<rparr>)
                       (upd_dev d (\<lambda>r. r\<lparr>priv := p\<rparr>) w)) } }"

definition eq_iir_free :: "u32 \<Rightarrow> 'a eqi_world_scheme \<Rightarrow> 'a eqi_world_scheme option" where
  "eq_iir_free d w = do {
     let p = priv (devs w d);
     (cd, h) \<leftarrow> eq_iir_free_delaylines (eqis w p) (mm w);
     (cd, h) \<leftarrow> eq_iir_free_parameters cd h;
     h \<leftarrow> rfree p h;
     h \<leftarrow> rfree d h;
     Some (upd_eqi p cd (w\<lparr>mm := h\<rparr>)) }"

definition eq_iir_params :: "u32 \<Rightarrow> u32 \<Rightarrow> 'a eqi_world_scheme \<Rightarrow> (int \<times> 'a eqi_world_scheme) option" where
  "eq_iir_params = eq_params"

text \<open>The blob's size less the two headers is the number of bytes copied.\<close>

datatype eqi_arg = Iir_Switch s32 "s32 list" | Iir_Blob u32 iir_config | No_Data

definition eq_iir_cmd :: "u32 \<Rightarrow> int \<Rightarrow> eqi_arg \<Rightarrow> 'a eqi_world_scheme \<Rightarrow> (int \<times> 'a eqi_world_scheme) option" where
  "eq_iir_cmd d c arg w =
     (let p = priv (devs w d); cd = eqis w p in
      if c = COMP_CMD_EQ_IIR_SWITCH then
        (case arg of
           Iir_Switch mx upd \<Rightarrow> do {
             (ret, cd, h) \<leftarrow> eq_iir_switch_response cd mx upd (int PLATFORM_MAX_CHANNELS) (mm w);
             Some (ret, upd_eqi p cd (w\<lparr>mm := h\<rparr>)) }
         | _ \<Rightarrow> None)
      else if c = COMP_CMD_EQ_IIR_CONFIG then
        (case arg of
           Iir_Blob hsize data \<Rightarrow> do {
             (cd, h) \<leftarrow> eq_iir_free_parameters cd (mm w);
             let w = upd_eqi p cd (w\<lparr>mm := h\<rparr>);
             let bs = hsize - 8 - 16;
             if EQ_IIR_MAX_BLOB_SIZE < bs then Some (- EINVAL, w)
             else do {
               (q, h) \<leftarrow> rmalloc RZONE_RUNTIME RFLAGS_NONE bs (mm w);
               let w = w\<lparr>mm := h\<rparr>;
               if q = 0 then Some (- EINVAL, w)
               else if bs < 24 then None
               else do {
                 let cd = cd\<lparr>cfg_ptr := q, cfg := data\<lparr>all_coefficients := take ((unat bs - 24) div 4) (all_coefficients data)\<rparr>\<rparr>;
                 (ret, cd, h) \<leftarrow> eq_iir_setup cd (int PLATFORM_MAX_CHANNELS) (mm w);
                 Some (ret, upd_eqi p cd (w\<lparr>mm := h\<rparr>)) } } }
         | _ \<Rightarrow> None)
      else if c = COMP_CMD_MUTE then Some (0, upd_eqi p (cd\<lparr>iirs := map iir_mute_df2t (iirs cd)\<rparr>) w)
      else if c = COMP_CMD_UNMUTE then Some (0, upd_eqi p (cd\<lparr>iirs := map iir_unmute_df2t (iirs cd)\<rparr>) w)
      else Some (0, eq_state_cmd d c w))"

definition iir_step :: "(iir_state list \<times> s64 list) filter_step" where
  "iir_step ch x st = do {
     f \<leftarrow> aget (fst st) ch;
     (y, pool) \<leftarrow> iir_df2t f x (snd st);
     Some (y, fst st, pool) }"

definition eq_iir_copy :: "nat \<Rightarrow> u32 \<Rightarrow> 'a eqi_world_scheme \<Rightarrow> (int \<times> 'a eqi_world_scheme) option" where
  "eq_iir_copy fuel d w = do {
     let p = priv (devs w d);
     (ret, (fs, q), w) \<leftarrow> eq_copy iir_step fuel d (iirs (eqis w p), pool (eqis w p)) w;
     Some (ret, upd_eqi p ((eqis w p)\<lparr>iirs := fs, pool := q\<rparr>) w) }"

definition eq_iir_prepare :: "u32 \<Rightarrow> 'a eqi_world_scheme \<Rightarrow> (int \<times> 'a eqi_world_scheme) option" where
  "eq_iir_prepare d w =
     (let p = priv (devs w d); cd = eqis w p in
      if cfg_ptr cd = 0 then Some (- EINVAL, w)
      else do {
        source \<leftarrow> first_of (bsource_list (devs w d));
        (ret, cd, h) \<leftarrow> eq_iir_setup cd (sint (channels (pcms w (b_pcm (bufs w source))))) (mm w);
        let w = upd_eqi p cd (w\<lparr>mm := h\<rparr>);
        if ret < 0 then Some (ret, w) else Some (0, set_state d COMP_STATE_PREPARE w) })"

definition eq_iir_preload :: "u32 \<Rightarrow> 'a eqi_world_scheme \<Rightarrow> (int \<times> 'a eqi_world_scheme) option" where
  "eq_iir_preload d w = Some (0, w)"

definition eq_iir_reset :: "u32 \<Rightarrow> 'a eqi_world_scheme \<Rightarrow> (int \<times> 'a eqi_world_scheme) option" where
  "eq_iir_reset d w = do {
     let p = priv (devs w d);
     (cd, h) \<leftarrow> eq_iir_free_delaylines (eqis w p) (mm w);
     (cd, h) \<leftarrow> eq_iir_free_parameters cd h;
     Some (0, set_state d COMP_STATE_INIT (upd_eqi p (cd\<lparr>iirs := map iir_reset_df2t (iirs cd)\<rparr>) (w\<lparr>mm := h\<rparr>))) }"

end
