(* ===== verification/Reef_Eq_Iir_Props.thy ===== *)
theory Reef_Eq_Iir_Props
  imports Reef_Eq_Iir
begin

text \<open>
  The IIR equalizer: a channel without a response is silent, commands never unmute or mute it, and a
  response that is refused still takes part in the size of the delay lines.
\<close>

section \<open>Channels without a response\<close>

lemma run_filter_reset:
  assumes "ch < length fs" "biquads (fs ! ch) = 0"
  shows "run_filter iir_step ch xs (fs, q) = Some (replicate (length xs) 0, (fs, q))"
  using assms by (induction xs) (simp_all add: iir_step_def iir_df2t_def)

lemma init_coefs_bypass:
  "init_coefs c ri is fs s = Some (fs', Some s') \<Longrightarrow> i \<in> set is \<Longrightarrow> distinct is \<Longrightarrow> sint (assign_response c ! i) < 0 \<Longrightarrow>
   length fs' = length fs \<and> i < length fs \<and> biquads (fs' ! i) = 0"
proof (induction "is" arbitrary: fs s)
  case (Cons k "is")
  have len: "length fs2 = length fs1 \<and> (\<forall>j. j \<notin> set js \<longrightarrow> fs2 ! j = fs1 ! j)" if "init_coefs c ri js fs1 s1 = Some (fs2, r)" for js fs1 s1 fs2 r
    using that
  proof (induction js arbitrary: fs1 s1)
    case (Cons j js)
    from Cons.prems show ?case
      by (auto simp: bind_eq_Some_conv Let_def split: if_splits dest!: Cons.IH)
  qed simp
  show ?case
  proof (cases "i = k")
    case True
    obtain f where "k < length fs" "init_coefs c ri is (fs[k := iir_reset_df2t f]) s = Some (fs', Some s')"
      using Cons.prems True by (auto simp: bind_eq_Some_conv Let_def)
    then show ?thesis using len True Cons.prems(3) by (fastforce simp: iir_reset_df2t_def)
  next
    case False
    then have i: "i \<in> set is" "distinct is" using Cons.prems by simp_all
    from Cons.prems(1) obtain fs1 s1 where "init_coefs c ri is fs1 s1 = Some (fs', Some s')" "length fs1 = length fs"
      by (auto simp: bind_eq_Some_conv Let_def split: if_splits)
    from Cons.IH [OF this(1) i Cons.prems(4)] this(2) show ?thesis by simp
  qed
qed simp

lemma init_delays_biquads:
  "init_delays c is fs dly = Some fs' \<Longrightarrow> length fs' = length fs \<and> (\<forall>i. biquads (fs' ! i) = biquads (fs ! i))"
proof (induction "is" arbitrary: fs dly)
  case (Cons k "is")
  from Cons.prems show ?case
    by (auto simp: bind_eq_Some_conv Let_def iir_init_delay_df2t_def nth_list_update split: if_splits dest!: Cons.IH)
qed simp

text \<open>
  after a successful setup a channel that is assigned -1, no response, does not pass its
  samples through: every output sample is 0, whether or not the equalizer is muted.
\<close>

theorem eq_iir_bypass_silent:
  assumes "eq_iir_setup cd nch h = Some (0, cd', h')" "int i < nch" "sint (assign_response (cfg cd) ! i) < 0"
  shows "run_filter iir_step i xs (iirs cd', pool cd') = Some (replicate (length xs) 0, (iirs cd', pool cd')) \<and>
    run_filter iir_step i xs (map iir_unmute_df2t (iirs cd'), pool cd') = Some (replicate (length xs) 0, (map iir_unmute_df2t (iirs cd'), pool cd'))"
proof -
  from assms(1) obtain cd1 h1 ri fs s fs' where
    f: "eq_iir_free_delaylines cd h = Some (cd1, h1)" and c: "init_coefs (cfg cd1) ri [0 ..< nat nch] (iirs cd1) 0 = Some (fs, Some s)"
    and d: "init_delays (cfg cd1) [0 ..< nat nch] fs 0 = Some fs'" "iirs cd' = fs'"
    unfolding eq_iir_setup_def by (auto simp: bind_eq_Some_conv split: if_splits option.splits)
  have "cfg cd1 = cfg cd" using f by (auto simp: eq_iir_free_delaylines_def bind_eq_Some_conv)
  then have "length fs = length (iirs cd1) \<and> i < length (iirs cd1) \<and> biquads (fs ! i) = 0"
    using init_coefs_bypass [OF c, of i] assms(2,3) by simp
  then have "i < length (iirs cd')" "biquads (iirs cd' ! i) = 0" using init_delays_biquads [OF d(1)] d(2) by simp_all
  then show ?thesis
    using run_filter_reset [of i "iirs cd'" xs "pool cd'"] run_filter_reset [of i "map iir_unmute_df2t (iirs cd')" xs "pool cd'"]
    by (simp add: iir_unmute_df2t_def)
qed

section \<open>A response that is refused\<close>

definition eqi_heap :: memmap where
  "eqi_heap = heap0\<lparr>rt_heap_map := [(BLOCK_DEF 64 2)\<lparr>base := 0xFF308800\<rparr>]\<rparr>"

definition reset_iir :: iir_state where
  "reset_iir = \<lparr>i_mute = True, biquads = 0, biquads_in_series = 0, i_coef = [], i_delay = None\<rparr>"

text \<open>One flat biquad for the first three channels, a response of 12 biquads for the last.\<close>

definition eqi_demo :: "s32 list \<Rightarrow> eqi_data" where
  "eqi_demo as = \<lparr>cfg_ptr = 64, cfg = \<lparr>stream_max_channels = 4, number_of_responses_defined = 2, assign_response = as,
       all_coefficients = [1, 1, 0, 0, 0, 0, 1073741824, 0, 16384, 12, 12]\<rparr>, iirs = replicate 4 reset_iir, chunk = 0, pool = []\<rparr>"

lemma eq_iir_bypass_silent_witness:
  "\<exists>cd' h'. eq_iir_setup (eqi_demo [0, - 1, 0, 0]) 4 eqi_heap = Some (0, cd', h') \<and>
     run_filter iir_step 1 [5, 6] (iirs cd', pool cd') = Some ([0, 0], (iirs cd', pool cd'))"
proof -
  have "(case eq_iir_setup (eqi_demo [0, - 1, 0, 0]) 4 eqi_heap of Some (r, cd', h') \<Rightarrow> r = 0 | None \<Rightarrow> False)"
    by code_simp
  then obtain cd' h' where s: "eq_iir_setup (eqi_demo [0, - 1, 0, 0]) 4 eqi_heap = Some (0, cd', h')"
    by (auto split: option.splits)
  from eq_iir_bypass_silent [OF s, of 1 "[5, 6]"] show ?thesis using s by (simp add: eqi_demo_def numeral_2_eq_2)
qed

text \<open>
  the error -22 of a refused response is added to the size of the delay lines, as a \<open>size_t\<close>.
  With three valid channels the setup reports success with room for 26 of the 48 bytes they
  need, and filtering a sample of the second channel runs over the end.
\<close>

theorem eq_iir_short_delay:
  "\<exists>cd' h'. eq_iir_setup (eqi_demo [0, 0, 0, 1]) 4 eqi_heap = Some (0, cd', h') \<and> length (pool cd') = 3 \<and>
     i_delay (iirs cd' ! 1) = Some 2 \<and> biquads (iirs cd' ! 1) = 1 \<and> iir_step 1 5 (iirs cd', pool cd') = None"
proof -
  have "(case eq_iir_setup (eqi_demo [0, 0, 0, 1]) 4 eqi_heap of
      Some (r, cd', h') \<Rightarrow> r = 0 \<and> length (pool cd') = 3 \<and> i_delay (iirs cd' ! 1) = Some 2 \<and> biquads (iirs cd' ! 1) = 1 \<and>
        iir_step 1 5 (iirs cd', pool cd') = None | None \<Rightarrow> False)"
    by code_simp
  then show ?thesis by (auto split: option.splits)
qed

end
