(* ===== verification/Reef_Src_Tables.thy ===== *)
theory Reef_Src_Tables
  imports Reef_Prelude
begin

text \<open>
  The filters of the sample rate converter, src/src/include/reef/audio/coefficients/src: one list of
  coefficients and one stage record for each header, and the tables that select the two stages by
  output and input rate. The coefficients are written as integers; a stage holds them as 32 bit words.
\<close>

record src_stage =
  idm :: int
  odm :: int
  num_of_subfilters :: int
  subfilter_length :: int
  filter_length :: int
  blk_in :: int
  blk_out :: int
  halfband :: int
  shift :: int
  coefs :: "s32 list"

definition stage :: "int \<Rightarrow> int \<Rightarrow> int \<Rightarrow> int \<Rightarrow> int \<Rightarrow> int \<Rightarrow> int \<Rightarrow> int \<Rightarrow> int \<Rightarrow> int list \<Rightarrow> src_stage" where
  "stage i d n l f bi bo h s c = \<lparr>idm = i, odm = d, num_of_subfilters = n, subfilter_length = l, filter_length = f,
     blk_in = bi, blk_out = bo, halfband = h, shift = s, coefs = map word_of_int c\<rparr>"

section \<open>Coefficients\<close>

definition src_int24_1_2_2188_5100_fir :: "int list" where
  "src_int24_1_2_2188_5100_fir = [
     - 1, - 380, - 889, 807, 5444, 5336, - 9507, - 27735, - 11871, 50007, 86602, - 1116, - 172248, - 193710, 99928, 
     460380, 332827, - 452442, - 1126616, - 455218, 1942248, 4808373, 6096781, 4808373, 1942248, - 455218, - 1126616, 
     - 452442, 332827, 460380, 99928, - 193710, - 172248, - 1116, 86602, 50007, - 11871, - 27735, - 9507, 5336, 5444, 807, 
     - 889, - 380, - 1, 0]"

definition src_int24_1_2_4375_5100_fir :: "int list" where
  "src_int24_1_2_4375_5100_fir = [
     - 8, 30, 29, - 59, - 72, 94, 148, - 126, - 269, 143, 448, - 124, - 692, 39, 1004, 149, - 1378, - 483, 1793, 1011, 
     - 2210, - 1782, 2572, 2840, - 2797, - 4216, 2779, 5919, - 2390, - 7931, 1485, 10193, 93, - 12598, - 2501, 14985, 
     5884, - 17132, - 10355, 18760, 15985, - 19528, - 22773, 19049, 30636, - 16900, - 39386, 12640, 48717, - 5833, 
     - 58193, - 3924, 67241, 16975, - 75152, - 33574, 81079, 53857, - 84053, - 77818, 82981, 105290, - 76659, - 135938, 
     63761, 169247, - 42813, - 204540, 12116, 240987, 30407, - 277636, - 87530, 313451, 163375, - 347351, - 264800, 
     378260, 404693, - 405158, - 610897, 427128, 956583, - 443404, - 1712035, 453410, 5317454, 7931815, 5317454, 453410, 
     - 1712035, - 443404, 956583, 427128, - 610897, - 405158, 404693, 378260, - 264800, - 347351, 163375, 313451, - 87530, 
     - 277636, 30407, 240987, 12116, - 204540, - 42813, 169247, 63761, - 135938, - 76659, 105290, 82981, - 77818, - 84053, 
     53857, 81079, - 33574, - 75152, 16975, 67241, - 3924, - 58193, - 5833, 48717, 12640, - 39386, - 16900, 30636, 19049, 
     - 22773, - 19528, 15985, 18760, - 10355, - 17132, 5884, 14985, - 2501, - 12598, 93, 10193, 1485, - 7931, - 2390, 
     5919, 2779, - 4216, - 2797, 2840, 2572, - 1782, - 2210, 1011, 1793, - 483, - 1378, 149, 1004, 39, - 692, - 124, 448, 
     143, - 269, - 126, 148, 94, - 72, - 59, 29, 30, - 8, 0]"

definition src_int24_1_3_2188_5100_fir :: "int list" where
  "src_int24_1_3_2188_5100_fir = [
     - 5, - 257, - 814, - 1151, - 143, 3027, 7274, 8740, 2453, - 13133, - 31313, - 36952, - 14610, 37173, 94875, 114401, 
     56088, - 79771, - 231138, - 290949, - 167478, 138647, 491993, 660245, 437279, - 202044, - 1007697, - 1500694, 
     - 1171142, 251622, 2596482, 5240637, 7326514, 8118121, 7326514, 5240637, 2596482, 251622, - 1171142, - 1500694, 
     - 1007697, - 202044, 437279, 660245, 491993, 138647, - 167478, - 290949, - 231138, - 79771, 56088, 114401, 94875, 
     37173, - 14610, - 36952, - 31313, - 13133, 2453, 8740, 7274, 3027, - 143, - 1151, - 814, - 257, - 5]"

definition src_int24_1_3_4375_5100_fir :: "int list" where
  "src_int24_1_3_4375_5100_fir = [
     12, 16, - 1, - 30, - 41, - 8, 53, 83, 32, - 78, - 148, - 82, 99, 239, 170, - 103, - 356, - 311, 74, 493, 518, 13, 
     - 639, - 803, - 185, 773, 1173, 477, - 860, - 1626, - 922, 857, 2148, 1555, - 707, - 2709, - 2403, 342, 3257, 3482, 
     312, - 3720, - 4788, - 1335, 4002, 6294, 2801, - 3981, - 7939, - 4771, 3519, 9625, 7284, - 2461, - 11214, - 10347, 
     645, 12520, 13920, 2084, - 13319, - 17908, - 5863, 13346, 22151, 10793, - 12307, - 26418, - 16925, 9891, 30399, 
     24240, - 5783, - 33711, - 32633, - 313, 35897, 41899, 8656, - 36437, - 51722, - 19446, 34758, 61663, 32805, - 30247, 
     - 71158, - 48754, 22271, 79515, 67202, - 10178, - 85906, - 87935, - 6691, 89371, 110612, 29016, - 88792, - 134772, 
     - 57538, 82854, 159839, 93140, - 69956, - 185149, - 137021, 48019, 209969, 191036, - 14076, - 233532, - 258419, 
     - 36627, 255069, 345428, 112829, - 273849, - 465673, - 233445, 289212, 654142, 449719, - 300608, - 1031629, - 967104, 
     307619, 2448685, 4460894, 5282417, 4460894, 2448685, 307619, - 967104, - 1031629, - 300608, 449719, 654142, 289212, 
     - 233445, - 465673, - 273849, 112829, 345428, 255069, - 36627, - 258419, - 233532, - 14076, 191036, 209969, 48019, 
     - 137021, - 185149, - 69956, 93140, 159839, 82854, - 57538, - 134772, - 88792, 29016, 110612, 89371, - 6691, - 87935, 
     - 85906, - 10178, 67202, 79515, 22271, - 48754, - 71158, - 30247, 32805, 61663, 34758, - 19446, - 51722, - 36437, 
     8656, 41899, 35897, - 313, - 32633, - 33711, - 5783, 24240, 30399, 9891, - 16925, - 26418, - 12307, 10793, 22151, 
     13346, - 5863, - 17908, - 13319, 2084, 13920, 12520, 645, - 10347, - 11214, - 2461, 7284, 9625, 3519, - 4771, - 7939, 
     - 3981, 2801, 6294, 4002, - 1335, - 4788, - 3720, 312, 3482, 3257, 342, - 2403, - 2709, - 707, 1555, 2148, 857, 
     - 922, - 1626, - 860, 477, 1173, 773, - 185, - 803, - 639, 13, 518, 493, 74, - 311, - 356, - 103, 170, 239, 99, - 82, 
     - 148, - 78, 32, 83, 53, - 8, - 41, - 30, - 1, 16, 12, 0]"

definition src_int24_20_21_4020_5100_fir :: "int list" where
  "src_int24_20_21_4020_5100_fir = [
     - 195, - 24, 1798, - 6495, 14900, - 25893, 35105, - 34342, 12667, 40230, - 128528, 243827, - 360074, 432735, 
     - 404762, 220422, 154409, - 709682, 1372816, - 2001712, 2394834, - 2320321, 1560783, 35028, - 2506748, 5758079, 
     - 9569409, 13671525, - 17978456, 23926823, 115559733, 11672172, - 13454904, 12164858, - 9664999, 6692998, - 3769697, 
     1275926, 557356, - 1653064, 2069037, - 1958622, 1520889, - 952464, 410931, 4664, - 255799, 352845, - 336091, 255977, 
     - 157537, 71604, - 12770, - 17675, 26404, - 22702, 14629, - 7242, 2544, - 443, - 275, 223, 1316, - 5879, 14599, 
     - 26858, 38768, - 42285, 25889, 22375, - 109450, 230414, - 362423, 462411, - 471423, 327184, 15873, - 562793, 
     1256751, - 1967629, 2496965, - 2602415, 2039575, - 613116, - 1776091, 5105191, - 9247868, 14085725, - 19931666, 
     30438682, 114493430, 6035815, - 10980804, 11114958, - 9447840, 6964365, - 4282143, 1846940, 51625, - 1281495, 
     1853012, - 1883815, 1551415, - 1044683, 524543, - 100345, - 176493, 304466, - 315266, 254787, - 167130, 84644, 
     - 24540, - 9282, 21570, - 20575, 14093, - 7379, 2805, - 610, - 361, 492, 769, - 5103, 13990, - 27345, 41847, - 49745, 
     39124, 3455, - 87655, 212216, - 357991, 484190, - 530967, 430478, - 126289, - 401962, 1114564, - 1895998, 2554610, 
     - 2841906, 2490598, - 1264234, - 994997, 4339835, - 8743294, 14250819, - 21616430, 37128518, 112729451, 789099, 
     - 8429312, 9900169, - 9064902, 7102009, - 4704750, 2371870, - 444411, - 894241, 1607618, - 1776123, 1552858, 
     - 1115668, 625856, - 200919, - 96008, 251822, - 289253, 248950, - 173335, 95668, - 35414, - 1059, 16550, - 18170, 
     13321, - 7365, 2991, - 748, - 451, 776, 163, - 4172, 13069, - 27321, 44254, - 56557, 52116, - 16204, - 63471, 189430, 
     - 346664, 497443, - 582083, 528272, - 269490, - 229889, 948338, - 1787346, 2565742, - 3033415, 2904841, - 1906262, 
     - 176800, 3473272, - 8059437, 14154184, - 22987851, 43933010, 110287403, - 4028464, - 5847497, 8547708, - 8527750, 
     7106741, - 5031873, 2842139, - 921892, - 498717, 1337968, - 1638224, 1525832, - 1164596, 713298, - 295317, - 15854, 
     195998, - 258681, 238717, - 176146, 104542, - 45223, 6846, 11447, - 15543, 12341, - 7212, 3103, - 855, - 544, 1072, 
     - 495, - 3097, 11837, - 26760, 45911, - 62562, 64606, - 36251, - 37280, 162348, - 328454, 501682, - 623586, 618585, 
     - 411062, - 49547, 760654, - 1642903, 2529156, - 3172340, 3273781, - 2527037, 664168, 2518916, - 7203412, 13787330, 
     - 24003607, 50786106, 107194367, - 8383644, - 3280797, 7086244, - 7850360, 6981744, - 5259722, 3250347, - 1372485, 
     - 102329, 1049509, - 1473292, 1471458, - 1191073, 785590, - 381957, 62501, 138111, - 224246, 224411, - 175623, 
     111176, - 53824, 14300, 6361, - 12758, 11184, - 6931, 3146, - 933, - 635, 1374, - 1192, - 1890, 10301, - 25648, 
     46753, - 67610, 76334, - 56316, - 9516, 131352, - 303507, 496579, - 654439, 699528, - 548302, 135869, 554555, 
     - 1464596, 2444516, - 3254965, 3589560, - 3114523, 1512814, 1492142, - 6185671, 13146195, - 24624649, 57619839, 
     103484541, - 12249797, - 772402, 5545378, - 7048811, 6732453, - 5386390, 3590381, - 1788521, 287650, 747921, 
     - 1284932, 1391338, - 1195124, 841765, - 459437, 137661, 79284, - 186695, 206421, - 171884, 115526, - 61104, 21181, 
     1387, - 9873, 9880, - 6535, 3122, - 982, - 723, 1674, - 1918, - 567, 8476, - 23980, 46726, - 71564, 87045, - 76013, 
     19341, 96912, - 272101, 481975, - 673784, 769344, - 678527, 322992, 333496, - 1255029, 2312379, - 3278548, 3845136, 
     - 3657030, 2353546, 410060, - 5019919, 12231365, - 24815850, 64365167, 99198782, - 15607069, 1637313, 3955111, 
     - 6140950, 6366412, - 5411848, 3857504, - 2163121, 664219, 439006, - 1077100, 1287511, - 1177187, 881172, - 526560, 
     208327, 20626, - 146813, 185196, - 165105, 117592, - 66977, 27383, - 3387, - 6949, 8465, - 6040, 3039, - 1004, - 804, 
     1967, - 2658, 851, 6381, - 21760, 45793, - 74302, 96495, - 94952, 48777, 59578, - 234645, 457885, - 680955, 826442, 
     - 799121, 508349, 101289, - 1017448, 2134199, - 3241387, 4034438, - 4143444, 3170545, - 708755, - 3722960, 11048233, 
     - 24546629, 70952845, 94384071, - 18442513, 3911297, 2345325, - 5146028, 5893079, - 5337899, 4048401, - 2490308, 
     1020766, 128576, - 854025, 1162405, - 1138096, 903488, - 582350, 273314, - 36786, - 105403, 161226, - 155512, 117417, 
     - 71387, 32820, - 7880, - 4043, 6970, - 5462, 2903, - 1002, - 876, 2244, - 3399, 2341, 4046, - 19006, 43931, - 75721, 
     104452, - 112743, 78247, 19970, - 191675, 424507, - 675502, 869431, - 907588, 688421, - 137961, - 755696, 1912326, 
     - 3142881, 4152500, - 4563444, 3948054, - 1844560, - 2314496, 9607081, - 23791505, 77314300, 89092886, - 20750092, 
     6016267, 745281, - 4084327, 5323620, - 5168111, 4161222, - 2765096, 1351186, - 177649, - 620126, 1018787, - 1079053, 
     908711, - 626064, 331577, - 91928, - 63274, 135040, - 143376, 115082, - 74308, 37422, - 12020, - 1209, 5430, - 4818, 
     2719, - 978, - 935, 2497, - 4125, 3877, 1502, - 15746, 41136, - 75743, 110709, - 129006, 107192, - 21225, - 143847, 
     382218, - 657201, 897153, - 1001601, 859705, - 379925, - 474149, 1649975, - 2983559, 4195573, - 4907708, 4670667, 
     - 2976774, - 816864, 7923090, - 22530606, 83382514, 83382514, - 22530606, 7923090, - 816864, - 2976774, 4670667, 
     - 4907708, 4195573, - 2983559, 1649975, - 474149, - 379925, 859705, - 1001601, 897153, - 657201, 382218, - 143847, 
     - 21225, 107192, - 129006, 110709, - 75743, 41136, - 15746, 1502, 3877, - 4125, 2497, - 935, - 978, 2719, - 4818, 
     5430, - 1209, - 12020, 37422, - 74308, 115082, - 143376, 135040, - 63274, - 91928, 331577, - 626064, 908711, 
     - 1079053, 1018787, - 620126, - 177649, 1351186, - 2765096, 4161222, - 5168111, 5323620, - 4084327, 745281, 6016267, 
     - 20750092, 89092886, 77314300, - 23791505, 9607081, - 2314496, - 1844560, 3948054, - 4563444, 4152500, - 3142881, 
     1912326, - 755696, - 137961, 688421, - 907588, 869431, - 675502, 424507, - 191675, 19970, 78247, - 112743, 104452, 
     - 75721, 43931, - 19006, 4046, 2341, - 3399, 2244, - 876, - 1002, 2903, - 5462, 6970, - 4043, - 7880, 32820, - 71387, 
     117417, - 155512, 161226, - 105403, - 36786, 273314, - 582350, 903488, - 1138096, 1162405, - 854025, 128576, 1020766, 
     - 2490308, 4048401, - 5337899, 5893079, - 5146028, 2345325, 3911297, - 18442513, 94384071, 70952845, - 24546629, 
     11048233, - 3722960, - 708755, 3170545, - 4143444, 4034438, - 3241387, 2134199, - 1017448, 101289, 508349, - 799121, 
     826442, - 680955, 457885, - 234645, 59578, 48777, - 94952, 96495, - 74302, 45793, - 21760, 6381, 851, - 2658, 1967, 
     - 804, - 1004, 3039, - 6040, 8465, - 6949, - 3387, 27383, - 66977, 117592, - 165105, 185196, - 146813, 20626, 208327, 
     - 526560, 881172, - 1177187, 1287511, - 1077100, 439006, 664219, - 2163121, 3857504, - 5411848, 6366412, - 6140950, 
     3955111, 1637313, - 15607069, 99198782, 64365167, - 24815850, 12231365, - 5019919, 410060, 2353546, - 3657030, 
     3845136, - 3278548, 2312379, - 1255029, 333496, 322992, - 678527, 769344, - 673784, 481975, - 272101, 96912, 19341, 
     - 76013, 87045, - 71564, 46726, - 23980, 8476, - 567, - 1918, 1674, - 723, - 982, 3122, - 6535, 9880, - 9873, 1387, 
     21181, - 61104, 115526, - 171884, 206421, - 186695, 79284, 137661, - 459437, 841765, - 1195124, 1391338, - 1284932, 
     747921, 287650, - 1788521, 3590381, - 5386390, 6732453, - 7048811, 5545378, - 772402, - 12249797, 103484541, 
     57619839, - 24624649, 13146195, - 6185671, 1492142, 1512814, - 3114523, 3589560, - 3254965, 2444516, - 1464596, 
     554555, 135869, - 548302, 699528, - 654439, 496579, - 303507, 131352, - 9516, - 56316, 76334, - 67610, 46753, 
     - 25648, 10301, - 1890, - 1192, 1374, - 635, - 933, 3146, - 6931, 11184, - 12758, 6361, 14300, - 53824, 111176, 
     - 175623, 224411, - 224246, 138111, 62501, - 381957, 785590, - 1191073, 1471458, - 1473292, 1049509, - 102329, 
     - 1372485, 3250347, - 5259722, 6981744, - 7850360, 7086244, - 3280797, - 8383644, 107194367, 50786106, - 24003607, 
     13787330, - 7203412, 2518916, 664168, - 2527037, 3273781, - 3172340, 2529156, - 1642903, 760654, - 49547, - 411062, 
     618585, - 623586, 501682, - 328454, 162348, - 37280, - 36251, 64606, - 62562, 45911, - 26760, 11837, - 3097, - 495, 
     1072, - 544, - 855, 3103, - 7212, 12341, - 15543, 11447, 6846, - 45223, 104542, - 176146, 238717, - 258681, 195998, 
     - 15854, - 295317, 713298, - 1164596, 1525832, - 1638224, 1337968, - 498717, - 921892, 2842139, - 5031873, 7106741, 
     - 8527750, 8547708, - 5847497, - 4028464, 110287403, 43933010, - 22987851, 14154184, - 8059437, 3473272, - 176800, 
     - 1906262, 2904841, - 3033415, 2565742, - 1787346, 948338, - 229889, - 269490, 528272, - 582083, 497443, - 346664, 
     189430, - 63471, - 16204, 52116, - 56557, 44254, - 27321, 13069, - 4172, 163, 776, - 451, - 748, 2991, - 7365, 13321, 
     - 18170, 16550, - 1059, - 35414, 95668, - 173335, 248950, - 289253, 251822, - 96008, - 200919, 625856, - 1115668, 
     1552858, - 1776123, 1607618, - 894241, - 444411, 2371870, - 4704750, 7102009, - 9064902, 9900169, - 8429312, 789099, 
     112729451, 37128518, - 21616430, 14250819, - 8743294, 4339835, - 994997, - 1264234, 2490598, - 2841906, 2554610, 
     - 1895998, 1114564, - 401962, - 126289, 430478, - 530967, 484190, - 357991, 212216, - 87655, 3455, 39124, - 49745, 
     41847, - 27345, 13990, - 5103, 769, 492, - 361, - 610, 2805, - 7379, 14093, - 20575, 21570, - 9282, - 24540, 84644, 
     - 167130, 254787, - 315266, 304466, - 176493, - 100345, 524543, - 1044683, 1551415, - 1883815, 1853012, - 1281495, 
     51625, 1846940, - 4282143, 6964365, - 9447840, 11114958, - 10980804, 6035815, 114493430, 30438682, - 19931666, 
     14085725, - 9247868, 5105191, - 1776091, - 613116, 2039575, - 2602415, 2496965, - 1967629, 1256751, - 562793, 15873, 
     327184, - 471423, 462411, - 362423, 230414, - 109450, 22375, 25889, - 42285, 38768, - 26858, 14599, - 5879, 1316, 
     223, - 275, - 443, 2544, - 7242, 14629, - 22702, 26404, - 17675, - 12770, 71604, - 157537, 255977, - 336091, 352845, 
     - 255799, 4664, 410931, - 952464, 1520889, - 1958622, 2069037, - 1653064, 557356, 1275926, - 3769697, 6692998, 
     - 9664999, 12164858, - 13454904, 11672172, 115559733, 23926823, - 17978456, 13671525, - 9569409, 5758079, - 2506748, 
     35028, 1560783, - 2320321, 2394834, - 2001712, 1372816, - 709682, 154409, 220422, - 404762, 432735, - 360074, 243827, 
     - 128528, 40230, 12667, - 34342, 35105, - 25893, 14900, - 6495, 1798, - 24, - 195, - 247, 2208, - 6949, 14905, 
     - 24492, 30950, - 26083, - 296, 56726, - 144624, 252351, - 351179, 395922, - 332395, 112241, 286858, - 840249, 
     1461201, - 1998424, 2251023, - 2001674, 1063554, 668451, - 3174852, 6289535, - 9707506, 13024634, - 15803566, 
     17652775, 115916493, 17652775, - 15803566, 13024634, - 9707506, 6289535, - 3174852, 668451, 1063554, - 2001674, 
     2251023, - 1998424, 1461201, - 840249, 286858, 112241, - 332395, 395922, - 351179, 252351, - 144624, 56726, - 296, 
     - 26083, 30950, - 24492, 14905, - 6949, 2208, - 247, 0]"

definition src_int24_2_1_2188_5100_fir :: "int list" where
  "src_int24_2_1_2188_5100_fir = [
     - 3, - 1779, 10887, - 19014, - 23743, 173205, - 344496, 199856, 665654, - 2253232, 3884496, 12193562, 3884496, 
     - 2253232, 665654, 199856, - 344496, 173205, - 23743, - 19014, 10887, - 1779, - 3, - 760, 1614, 10672, - 55471, 
     100015, - 2232, - 387419, 920760, - 904884, - 910436, 9616746, 9616746, - 910436, - 904884, 920760, - 387419, - 2232, 
     100015, - 55471, 10672, 1614, - 760, 0]"

definition src_int24_2_1_4375_5100_fir :: "int list" where
  "src_int24_2_1_4375_5100_fir = [
     - 16, 57, - 143, 295, - 538, 895, - 1384, 2008, - 2756, 3585, - 4420, 5144, - 5594, 5557, - 4780, 2970, 186, - 5002, 
     11767, - 20711, 31970, - 45546, 61272, - 78772, 97434, - 116385, 134482, - 150303, 162159, - 168106, 165963, 
     - 153319, 127523, - 85626, 24232, 60814, - 175061, 326749, - 529601, 809387, - 1221794, 1913167, - 3424070, 10634908, 
     10634908, - 3424070, 1913167, - 1221794, 809387, - 529601, 326749, - 175061, 60814, 24232, - 85626, 127523, - 153319, 
     165963, - 168106, 162159, - 150303, 134482, - 116385, 97434, - 78772, 61272, - 45546, 31970, - 20711, 11767, - 5002, 
     186, 2970, - 4780, 5557, - 5594, 5144, - 4420, 3585, - 2756, 2008, - 1384, 895, - 538, 295, - 143, 57, - 16, 60, 
     - 118, 187, - 253, 287, - 247, 77, 298, - 965, 2022, - 3565, 5680, - 8431, 11838, - 15862, 20386, - 25196, 29969, 
     - 34265, 37519, - 39055, 38098, - 33800, 25280, - 11667, - 7848, 33951, - 67149, 107714, - 155635, 210581, - 271875, 
     338494, - 409080, 481973, - 555273, 626903, - 694703, 756521, - 810316, 854256, - 886809, 906820, 15863630, 906820, 
     - 886809, 854256, - 810316, 756521, - 694703, 626903, - 555273, 481973, - 409080, 338494, - 271875, 210581, - 155635, 
     107714, - 67149, 33951, - 7848, - 11667, 25280, - 33800, 38098, - 39055, 37519, - 34265, 29969, - 25196, 20386, 
     - 15862, 11838, - 8431, 5680, - 3565, 2022, - 965, 298, 77, - 247, 287, - 253, 187, - 118, 60, 0]"

definition src_int24_2_3_4375_5100_fir :: "int list" where
  "src_int24_2_3_4375_5100_fir = [
     25, - 2, - 81, 106, 64, - 296, 198, 341, - 711, 148, 1035, - 1279, - 371, 2346, - 1720, - 1844, 4296, - 1414, - 4807, 
     6514, 625, - 9577, 8003, 5602, - 15878, 7038, 14568, - 22427, 1289, 27839, - 26639, - 11726, 44302, - 24614, - 33851, 
     60798, - 11565, - 65266, 71795, 17312, - 103444, 69515, 65610, - 142317, 44541, 134403, - 171813, - 13382, 221224, 
     - 177583, - 115076, 319678, - 139912, - 274041, 419938, - 28153, - 516838, 510137, 225659, - 931345, 578425, 899438, 
     - 2063258, 615238, 8921789, 8921789, 615238, - 2063258, 899438, 578425, - 931345, 225659, 510137, - 516838, - 28153, 
     419938, - 274041, - 139912, 319678, - 115076, - 177583, 221224, - 13382, - 171813, 134403, 44541, - 142317, 65610, 
     69515, - 103444, 17312, 71795, - 65266, - 11565, 60798, - 33851, - 24614, 44302, - 11726, - 26639, 27839, 1289, 
     - 22427, 14568, 7038, - 15878, 5602, 8003, - 9577, 625, 6514, - 4807, - 1414, 4296, - 1844, - 1720, 2346, - 371, 
     - 1279, 1035, 148, - 711, 341, 198, - 296, 64, 106, - 81, - 2, 25, 31, - 60, - 16, 166, - 157, - 164, 478, - 207, 
     - 622, 986, 26, - 1606, 1545, 953, - 3252, 1714, 3111, - 5417, 685, 6964, - 7440, - 2671, 12588, - 7963, - 9542, 
     19251, - 4921, - 20693, 25041, 4169, - 35815, 26693, 21587, - 52835, 19781, 48480, - 67423, - 626, 83798, - 72874, 
     - 38893, 123326, - 60495, - 97507, 159029, - 20355, - 175869, 178743, 58032, - 269543, 165707, 186280, - 370298, 
     96038, 382071, - 467063, - 73254, 690856, - 547697, - 466891, 1308284, - 601216, - 1934209, 4897369, 10564834, 
     4897369, - 1934209, - 601216, 1308284, - 466891, - 547697, 690856, - 73254, - 467063, 382071, 96038, - 370298, 
     186280, 165707, - 269543, 58032, 178743, - 175869, - 20355, 159029, - 97507, - 60495, 123326, - 38893, - 72874, 
     83798, - 626, - 67423, 48480, 19781, - 52835, 21587, 26693, - 35815, 4169, 25041, - 20693, - 4921, 19251, - 9542, 
     - 7963, 12588, - 2671, - 7440, 6964, 685, - 5417, 3111, 1714, - 3252, 953, 1545, - 1606, 26, 986, - 622, - 207, 478, 
     - 164, - 157, 166, - 16, - 60, 31, 0]"

definition src_int24_3_1_2188_5100_fir :: "int list" where
  "src_int24_3_1_2188_5100_fir = [
     205, - 4378, 12835, 9279, - 130106, 317736, - 257558, - 526283, 2034039, - 3061790, 757966, 21985240, 15738004, 
     - 3536071, - 616354, 1524655, - 921749, 183094, 126363, - 112580, 34125, - 643, - 1644, - 51, - 5568, 29480, - 48352, 
     - 50495, 378014, - 738890, 432501, 1340111, - 4544116, 7807384, 24354485, 7807384, - 4544116, 1340111, 432501, 
     - 738890, 378014, - 50495, - 48352, 29480, - 5568, - 51, - 1644, - 643, 34125, - 112580, 126363, 183094, - 921749, 
     1524655, - 616354, - 3536071, 15738004, 21985240, 757966, - 3061790, 2034039, - 526283, - 257558, 317736, - 130106, 
     9279, 12835, - 4378, 205]"

definition src_int24_3_1_4375_5100_fir :: "int list" where
  "src_int24_3_1_4375_5100_fir = [
     26, - 52, 73, - 67, 5, 156, - 471, 1002, - 1818, 2985, - 4556, 6561, - 8987, 11769, - 14771, 17774, - 20465, 22434, 
     - 23177, 22108, - 18581, 11920, - 1463, - 13391, 33125, - 58044, 88215, - 123414, 163071, - 206235, 251537, - 297174, 
     340881, - 379910, 410958, - 430022, 432063, - 410261, 354266, - 245804, 45732, 354983, - 1436754, 15207954, 3965950, 
     - 2155812, 1570167, - 1245645, 1018125, - 837730, 685188, - 552179, 434964, - 331861, 242092, - 165211, 100802, 
     - 48328, 7068, 23899, - 45666, 59458, - 66572, 68323, - 65986, 60744, - 53655, 45619, - 37366, 29452, - 22266, 16049, 
     - 10910, 6856, - 3816, 1669, - 264, - 558, 951, - 1050, 970, - 798, 597, - 407, 250, - 133, 57, 57, - 133, 250, 
     - 407, 597, - 798, 970, - 1050, 951, - 558, - 264, 1669, - 3816, 6856, - 10910, 16049, - 22266, 29452, - 37366, 
     45619, - 53655, 60744, - 65986, 68323, - 66572, 59458, - 45666, 23899, 7068, - 48328, 100802, - 165211, 242092, 
     - 331861, 434964, - 552179, 685188, - 837730, 1018125, - 1245645, 1570167, - 2155812, 3965950, 15207954, - 1436754, 
     354983, 45732, - 245804, 354266, - 410261, 432063, - 430022, 410958, - 379910, 340881, - 297174, 251537, - 206235, 
     163071, - 123414, 88215, - 58044, 33125, - 13391, - 1463, 11920, - 18581, 22108, - 23177, 22434, - 20465, 17774, 
     - 14771, 11769, - 8987, 6561, - 4556, 2985, - 1818, 1002, - 471, 156, 5, - 67, 73, - 52, 26, 35, - 100, 224, - 433, 
     753, - 1207, 1808, - 2553, 3412, - 4324, 5184, - 5839, 6085, - 5668, 4290, - 1622, - 2675, 8924, - 17398, 28283, 
     - 41634, 57336, - 75062, 94237, - 114013, 133249, - 150509, 164063, - 171904, 171767, - 161139, 137255, - 97048, 
     37006, 47128, - 160988, 312871, - 516524, 797708, - 1212063, 1905852, - 3419530, 10633368, 10633368, - 3419530, 
     1905852, - 1212063, 797708, - 516524, 312871, - 160988, 47128, 37006, - 97048, 137255, - 161139, 171767, - 171904, 
     164063, - 150509, 133249, - 114013, 94237, - 75062, 57336, - 41634, 28283, - 17398, 8924, - 2675, - 1622, 4290, 
     - 5668, 6085, - 5839, 5184, - 4324, 3412, - 2553, 1808, - 1207, 753, - 433, 224, - 100, 35, 0]"

definition src_int24_3_2_4375_5100_fir :: "int list" where
  "src_int24_3_2_4375_5100_fir = [
     26, - 52, 73, - 67, 5, 156, - 471, 1002, - 1818, 2985, - 4556, 6561, - 8987, 11769, - 14771, 17774, - 20465, 22434, 
     - 23177, 22108, - 18581, 11920, - 1463, - 13391, 33125, - 58044, 88215, - 123414, 163071, - 206235, 251537, - 297174, 
     340881, - 379910, 410958, - 430022, 432063, - 410261, 354266, - 245804, 45732, 354983, - 1436754, 15207954, 3965950, 
     - 2155812, 1570167, - 1245645, 1018125, - 837730, 685188, - 552179, 434964, - 331861, 242092, - 165211, 100802, 
     - 48328, 7068, 23899, - 45666, 59458, - 66572, 68323, - 65986, 60744, - 53655, 45619, - 37366, 29452, - 22266, 16049, 
     - 10910, 6856, - 3816, 1669, - 264, - 558, 951, - 1050, 970, - 798, 597, - 407, 250, - 133, 57, 57, - 133, 250, 
     - 407, 597, - 798, 970, - 1050, 951, - 558, - 264, 1669, - 3816, 6856, - 10910, 16049, - 22266, 29452, - 37366, 
     45619, - 53655, 60744, - 65986, 68323, - 66572, 59458, - 45666, 23899, 7068, - 48328, 100802, - 165211, 242092, 
     - 331861, 434964, - 552179, 685188, - 837730, 1018125, - 1245645, 1570167, - 2155812, 3965950, 15207954, - 1436754, 
     354983, 45732, - 245804, 354266, - 410261, 432063, - 430022, 410958, - 379910, 340881, - 297174, 251537, - 206235, 
     163071, - 123414, 88215, - 58044, 33125, - 13391, - 1463, 11920, - 18581, 22108, - 23177, 22434, - 20465, 17774, 
     - 14771, 11769, - 8987, 6561, - 4556, 2985, - 1818, 1002, - 471, 156, 5, - 67, 73, - 52, 26, 35, - 100, 224, - 433, 
     753, - 1207, 1808, - 2553, 3412, - 4324, 5184, - 5839, 6085, - 5668, 4290, - 1622, - 2675, 8924, - 17398, 28283, 
     - 41634, 57336, - 75062, 94237, - 114013, 133249, - 150509, 164063, - 171904, 171767, - 161139, 137255, - 97048, 
     37006, 47128, - 160988, 312871, - 516524, 797708, - 1212063, 1905852, - 3419530, 10633368, 10633368, - 3419530, 
     1905852, - 1212063, 797708, - 516524, 312871, - 160988, 47128, 37006, - 97048, 137255, - 161139, 171767, - 171904, 
     164063, - 150509, 133249, - 114013, 94237, - 75062, 57336, - 41634, 28283, - 17398, 8924, - 2675, - 1622, 4290, 
     - 5668, 6085, - 5839, 5184, - 4324, 3412, - 2553, 1808, - 1207, 753, - 433, 224, - 100, 35, 0]"

definition src_int24_3_4_4375_5100_fir :: "int list" where
  "src_int24_3_4_4375_5100_fir = [
     - 44, 118, - 90, - 160, 517, - 558, - 107, 1258, - 1853, 737, 2014, - 4354, 3421, 1701, - 7862, 9130, - 1731, 
     - 10908, 18410, - 11028, - 10178, 29993, - 28625, - 520, 39574, - 54886, 24004, 39174, - 85934, 67844, 17763, 
     - 111850, 130731, - 36397, - 116131, 204278, - 131828, - 77093, 269475, - 269104, 28866, 295807, - 436573, 223363, 
     241420, - 607509, 524581, 50448, - 737940, 955596, - 367478, - 757266, 1590090, - 1251805, - 499006, 2849440, 
     - 4038663, 1408525, 21628116, 15948112, - 3411650, - 1375984, 2731656, - 1805525, 58070, 1164687, - 1246140, 450220, 
     462878, - 840615, 542979, 75375, - 512202, 495896, - 129152, - 257358, 383921, - 211058, - 78781, 254992, - 213819, 
     28165, 139813, - 173441, 76496, 54215, - 118091, 84128, 1726, - 66606, 69270, - 22560, - 28485, 46707, - 27589, 
     - 5681, 25942, - 22556, 4561, 11247, - 14510, 6817, 3028, - 7513, 5356, - 362, - 3011, 3062, - 1053, - 806, 1310, 
     - 717, - 54, 385, - 279, 54, 56, - 9, 128, - 233, 102, 367, - 859, 718, 448, - 2030, 2447, - 395, - 3422, 5869, 
     - 3501, - 3795, 10939, - 10481, - 692, 16155, - 22356, 9348, 17799, - 38193, 29735, 9782, - 53597, 61872, - 15381, 
     - 59745, 102631, - 64204, - 43714, 142050, - 138678, 9347, 162210, - 232350, 112301, 138017, - 327088, 271186, 39731, 
     - 391278, 480949, - 164490, - 378575, 723449, - 511112, - 221487, 968936, - 1064814, 205519, 1181235, - 2046322, 
     1323096, 1325536, - 5123545, 8474515, 23746293, 8474515, - 5123545, 1325536, 1323096, - 2046322, 1181235, 205519, 
     - 1064814, 968936, - 221487, - 511112, 723449, - 378575, - 164490, 480949, - 391278, 39731, 271186, - 327088, 138017, 
     112301, - 232350, 162210, 9347, - 138678, 142050, - 43714, - 64204, 102631, - 59745, - 15381, 61872, - 53597, 9782, 
     29735, - 38193, 17799, 9348, - 22356, 16155, - 692, - 10481, 10939, - 3795, - 3501, 5869, - 3422, - 395, 2447, 
     - 2030, 448, 718, - 859, 367, 102, - 233, 128, - 9, 56, 54, - 279, 385, - 54, - 717, 1310, - 806, - 1053, 3062, 
     - 3011, - 362, 5356, - 7513, 3028, 6817, - 14510, 11247, 4561, - 22556, 25942, - 5681, - 27589, 46707, - 28485, 
     - 22560, 69270, - 66606, 1726, 84128, - 118091, 54215, 76496, - 173441, 139813, 28165, - 213819, 254992, - 78781, 
     - 211058, 383921, - 257358, - 129152, 495896, - 512202, 75375, 542979, - 840615, 462878, 450220, - 1246140, 1164687, 
     58070, - 1805525, 2731656, - 1375984, - 3411650, 15948112, 21628116, 1408525, - 4038663, 2849440, - 499006, 
     - 1251805, 1590090, - 757266, - 367478, 955596, - 737940, 50448, 524581, - 607509, 241420, 223363, - 436573, 295807, 
     28866, - 269104, 269475, - 77093, - 131828, 204278, - 116131, - 36397, 130731, - 111850, 17763, 67844, - 85934, 
     39174, 24004, - 54886, 39574, - 520, - 28625, 29993, - 10178, - 11028, 18410, - 10908, - 1731, 9130, - 7862, 1701, 
     3421, - 4354, 2014, 737, - 1853, 1258, - 107, - 558, 517, - 160, - 90, 118, - 44]"

definition src_int24_4_3_4375_5100_fir :: "int list" where
  "src_int24_4_3_4375_5100_fir = [
     - 58, 170, - 371, 689, - 1146, 1746, - 2471, 3263, - 4015, 4561, - 4668, 4037, - 2308, - 923, 6081, - 13570, 23732, 
     - 36785, 52766, - 71463, 92360, - 114578, 136842, - 157455, 174308, - 184904, 186418, - 175770, 149735, - 105042, 
     38488, 52975, - 172203, 321894, - 504766, 723972, - 983920, 1291915, - 1661520, 2120120, - 2728429, 3642208, 
     - 5384884, 11299354, 28837488, - 4548866, 1767381, - 665341, 77426, 274025, - 489971, 617171, - 681482, 699441, 
     - 682935, 641266, - 582097, 511894, - 436117, 359301, - 285092, 216281, - 154842, 101995, - 58286, 23684, 2301, 
     - 20508, 32005, - 37980, 39647, - 38167, 34589, - 29808, 24546, - 19347, 14585, - 10483, 7141, - 4563, 2685, - 1404, 
     597, - 142, - 71, 136, - 120, 74, - 13, 71, - 214, 489, - 956, 1677, - 2707, 4083, - 5806, 7825, - 10018, 12173, 
     - 13974, 14996, - 14703, 12463, - 7575, - 693, 13043, - 30080, 52232, - 79659, 112171, - 149133, 189400, - 231255, 
     272370, - 309800, 339990, - 358806, 361581, - 343144, 297817, - 219319, 100500, 67264, - 295316, 600293, - 1009688, 
     1574980, - 2407367, 3799253, - 6831393, 21264150, 21264150, - 6831393, 3799253, - 2407367, 1574980, - 1009688, 
     600293, - 295316, 67264, 100500, - 219319, 297817, - 343144, 361581, - 358806, 339990, - 309800, 272370, - 231255, 
     189400, - 149133, 112171, - 79659, 52232, - 30080, 13043, - 693, - 7575, 12463, - 14703, 14996, - 13974, 12173, 
     - 10018, 7825, - 5806, 4083, - 2707, 1677, - 956, 489, - 214, 71, - 13, 74, - 120, 136, - 71, - 142, 597, - 1404, 
     2685, - 4563, 7141, - 10483, 14585, - 19347, 24546, - 29808, 34589, - 38167, 39647, - 37980, 32005, - 20508, 2301, 
     23684, - 58286, 101995, - 154842, 216281, - 285092, 359301, - 436117, 511894, - 582097, 641266, - 682935, 699441, 
     - 681482, 617171, - 489971, 274025, 77426, - 665341, 1767381, - 4548866, 28837488, 11299354, - 5384884, 3642208, 
     - 2728429, 2120120, - 1661520, 1291915, - 983920, 723972, - 504766, 321894, - 172203, 52975, 38488, - 105042, 149735, 
     - 175770, 186418, - 184904, 174308, - 157455, 136842, - 114578, 92360, - 71463, 52766, - 36785, 23732, - 13570, 6081, 
     - 923, - 2308, 4037, - 4668, 4561, - 4015, 3263, - 2471, 1746, - 1146, 689, - 371, 170, - 58, 157, - 311, 514, - 745, 
     957, - 1075, 982, - 527, - 483, 2267, - 5061, 9090, - 14545, 21540, - 30075, 39990, - 50924, 62276, - 73181, 82496, 
     - 88808, 90459, - 85605, 72287, - 48529, 12462, 37554, - 102790, 184022, - 281411, 394409, - 521705, 661194, 
     - 810012, 964599, - 1120820, 1274128, - 1419752, 1552916, - 1669074, 1764128, - 1834645, 1878033, 31661723, 1878033, 
     - 1834645, 1764128, - 1669074, 1552916, - 1419752, 1274128, - 1120820, 964599, - 810012, 661194, - 521705, 394409, 
     - 281411, 184022, - 102790, 37554, 12462, - 48529, 72287, - 85605, 90459, - 88808, 82496, - 73181, 62276, - 50924, 
     39990, - 30075, 21540, - 14545, 9090, - 5061, 2267, - 483, - 527, 982, - 1075, 957, - 745, 514, - 311, 157, 0]"

definition src_int24_8_7_4375_5100_fir :: "int list" where
  "src_int24_8_7_4375_5100_fir = [
     121, - 339, 699, - 1219, 1883, - 2619, 3277, - 3596, 3197, - 1565, - 1937, 8044, - 17524, 31102, - 49342, 72506, 
     - 100408, 132246, - 166461, 200611, - 231301, 254174, - 263974, 254701, - 219846, 152707, - 46758, - 103954, 304421, 
     - 558356, 867996, - 1234121, 1656399, - 2134264, 2668698, - 3265827, 3944650, - 4756062, 5840355, - 7666469, 
     12906627, 61636985, - 3377789, - 98440, 1314289, - 1864077, 2102808, - 2159833, 2098426, - 1957014, 1762824, 
     - 1537034, 1296825, - 1056190, 826253, - 615414, 429479, - 271847, 143763, - 44641, - 27554, 75914, - 104181, 116385, 
     - 116523, 108302, - 94964, 79170, - 62963, 47782, - 34520, 23615, - 15147, 8947, - 4696, 2002, - 465, - 275, 518, 
     - 492, 353, - 196, 124, - 354, 764, - 1409, 2324, - 3503, 4869, - 6243, 7309, - 7592, 6443, - 3042, - 3571, 14433, 
     - 30563, 52835, - 81812, 117567, - 159485, 206085, - 254851, 302123, - 343045, 371592, - 380689, 362413, - 308269, 
     209518, - 57513, - 156025, 438864, - 798396, 1242260, - 1779842, 2425441, - 3204977, 4171164, - 5442653, 7327657, 
     - 10869451, 22750247, 57479611, - 8869040, 3285486, - 1074613, - 94108, 776857, - 1177294, 1391395, - 1473842, 
     1460918, - 1379602, 1251441, - 1094244, 922799, - 749162, 582798, - 430696, 297522, - 185838, 96392, - 28450, 
     - 19842, 51097, - 68339, 74708, - 73213, 66550, - 56989, 46315, - 35828, 26377, - 18428, 12144, - 7469, 4207, - 2092, 
     840, - 190, - 81, 139, - 102, 104, - 314, 722, - 1414, 2477, - 3975, 5922, - 8245, 10743, - 13043, 14571, - 14523, 
     11871, - 5384, - 6300, 24572, - 50707, 85677, - 129936, 183196, - 244193, 310480, - 378267, 442319, - 495931, 530995, 
     - 538146, 506971, - 426250, 284153, - 68302, - 234478, 639010, - 1163757, 1835125, - 2696797, 3831510, - 5418947, 
     7925541, - 12993681, 32861771, 50925550, - 12266627, 5883658, - 3136374, 1576237, - 579297, - 87271, 532330, 
     - 816304, 978051, - 1045835, 1042152, - 985907, 893339, - 778379, 652748, - 525969, 405398, - 296307, 202038, 
     - 124227, 63085, - 17706, - 13610, 33050, - 43014, 45886, - 43864, 38836, - 32325, 25467, - 19035, 13486, - 9021, 
     5655, - 3280, 1723, - 786, 284, - 58, - 13, 57, - 214, 560, - 1206, 2281, - 3918, 6225, - 9252, 12944, - 17090, 
     21268, - 24800, 26720, - 25762, 20383, - 8836, - 10725, 40080, - 80736, 133683, - 199125, 276204, - 362745, 455033, 
     - 547657, 633422, - 703344, 746721, - 751239, 703071, - 586850, 385337, - 78454, - 358970, 962120, - 1787129, 
     2937206, - 4634048, 7460832, - 13576607, 42499013, 42499013, - 13576607, 7460832, - 4634048, 2937206, - 1787129, 
     962120, - 358970, - 78454, 385337, - 586850, 703071, - 751239, 746721, - 703344, 633422, - 547657, 455033, - 362745, 
     276204, - 199125, 133683, - 80736, 40080, - 10725, - 8836, 20383, - 25762, 26720, - 24800, 21268, - 17090, 12944, 
     - 9252, 6225, - 3918, 2281, - 1206, 560, - 214, 57, - 13, - 58, 284, - 786, 1723, - 3280, 5655, - 9021, 13486, 
     - 19035, 25467, - 32325, 38836, - 43864, 45886, - 43014, 33050, - 13610, - 17706, 63085, - 124227, 202038, - 296307, 
     405398, - 525969, 652748, - 778379, 893339, - 985907, 1042152, - 1045835, 978051, - 816304, 532330, - 87271, 
     - 579297, 1576237, - 3136374, 5883658, - 12266627, 50925550, 32861771, - 12993681, 7925541, - 5418947, 3831510, 
     - 2696797, 1835125, - 1163757, 639010, - 234478, - 68302, 284153, - 426250, 506971, - 538146, 530995, - 495931, 
     442319, - 378267, 310480, - 244193, 183196, - 129936, 85677, - 50707, 24572, - 6300, - 5384, 11871, - 14523, 14571, 
     - 13043, 10743, - 8245, 5922, - 3975, 2477, - 1414, 722, - 314, 104, - 102, 139, - 81, - 190, 840, - 2092, 4207, 
     - 7469, 12144, - 18428, 26377, - 35828, 46315, - 56989, 66550, - 73213, 74708, - 68339, 51097, - 19842, - 28450, 
     96392, - 185838, 297522, - 430696, 582798, - 749162, 922799, - 1094244, 1251441, - 1379602, 1460918, - 1473842, 
     1391395, - 1177294, 776857, - 94108, - 1074613, 3285486, - 8869040, 57479611, 22750247, - 10869451, 7327657, 
     - 5442653, 4171164, - 3204977, 2425441, - 1779842, 1242260, - 798396, 438864, - 156025, - 57513, 209518, - 308269, 
     362413, - 380689, 371592, - 343045, 302123, - 254851, 206085, - 159485, 117567, - 81812, 52835, - 30563, 14433, 
     - 3571, - 3042, 6443, - 7592, 7309, - 6243, 4869, - 3503, 2324, - 1409, 764, - 354, 124, - 196, 353, - 492, 518, 
     - 275, - 465, 2002, - 4696, 8947, - 15147, 23615, - 34520, 47782, - 62963, 79170, - 94964, 108302, - 116523, 116385, 
     - 104181, 75914, - 27554, - 44641, 143763, - 271847, 429479, - 615414, 826253, - 1056190, 1296825, - 1537034, 
     1762824, - 1957014, 2098426, - 2159833, 2102808, - 1864077, 1314289, - 98440, - 3377789, 61636985, 12906627, 
     - 7666469, 5840355, - 4756062, 3944650, - 3265827, 2668698, - 2134264, 1656399, - 1234121, 867996, - 558356, 304421, 
     - 103954, - 46758, 152707, - 219846, 254701, - 263974, 254174, - 231301, 200611, - 166461, 132246, - 100408, 72506, 
     - 49342, 31102, - 17524, 8044, - 1937, - 1565, 3197, - 3596, 3277, - 2619, 1883, - 1219, 699, - 339, 121, - 281, 551, 
     - 892, 1245, - 1484, 1407, - 714, - 991, 4195, - 9443, 17294, - 28241, 42618, - 60479, 81474, - 104719, 128679, 
     - 151082, 168881, - 178272, 174786, - 153466, 109114, - 36622, - 68650, 210463, - 391278, 611876, - 871047, 1165378, 
     - 1489175, 1834538, - 2191602, 2548923, - 2894022, 3214016, - 3496334, 3729442, - 3903528, 4011112, 63061389, 
     4011112, - 3903528, 3729442, - 3496334, 3214016, - 2894022, 2548923, - 2191602, 1834538, - 1489175, 1165378, 
     - 871047, 611876, - 391278, 210463, - 68650, - 36622, 109114, - 153466, 174786, - 178272, 168881, - 151082, 128679, 
     - 104719, 81474, - 60479, 42618, - 28241, 17294, - 9443, 4195, - 991, - 714, 1407, - 1484, 1245, - 892, 551, - 281, 
     0]"

section \<open>Stages\<close>

definition fir_one :: int where "fir_one = 4194304"

definition src_int24_1_1_0_0 :: src_stage where "src_int24_1_1_0_0 = stage 0 0 1 1 1 1 1 0 (- 1) [fir_one]"
definition src_int24_0_0_0_0 :: src_stage where "src_int24_0_0_0_0 = stage 0 0 0 0 0 0 0 0 0 [fir_one]"

definition src_int24_1_2_2188_5100 :: src_stage where "src_int24_1_2_2188_5100 = stage 1 0 1 46 46 2 1 0 1 src_int24_1_2_2188_5100_fir"
definition src_int24_1_2_4375_5100 :: src_stage where "src_int24_1_2_4375_5100 = stage 1 0 1 176 176 2 1 0 1 src_int24_1_2_4375_5100_fir"
definition src_int24_1_3_2188_5100 :: src_stage where "src_int24_1_3_2188_5100 = stage 1 0 1 67 67 3 1 0 2 src_int24_1_3_2188_5100_fir"
definition src_int24_1_3_4375_5100 :: src_stage where "src_int24_1_3_4375_5100 = stage 1 0 1 260 260 3 1 0 1 src_int24_1_3_4375_5100_fir"
definition src_int24_20_21_4020_5100 :: src_stage where "src_int24_20_21_4020_5100 = stage 1 1 20 60 1200 21 20 0 4 src_int24_20_21_4020_5100_fir"
definition src_int24_2_1_2188_5100 :: src_stage where "src_int24_2_1_2188_5100 = stage 0 1 2 23 46 1 2 0 1 src_int24_2_1_2188_5100_fir"
definition src_int24_2_1_4375_5100 :: src_stage where "src_int24_2_1_4375_5100 = stage 0 1 2 88 176 1 2 0 1 src_int24_2_1_4375_5100_fir"
definition src_int24_2_3_4375_5100 :: src_stage where "src_int24_2_3_4375_5100 = stage 1 1 2 130 260 3 2 0 1 src_int24_2_3_4375_5100_fir"
definition src_int24_3_1_2188_5100 :: src_stage where "src_int24_3_1_2188_5100 = stage 0 1 3 23 69 1 3 0 2 src_int24_3_1_2188_5100_fir"
definition src_int24_3_1_4375_5100 :: src_stage where "src_int24_3_1_4375_5100 = stage 0 1 3 87 261 1 3 0 1 src_int24_3_1_4375_5100_fir"
definition src_int24_3_2_4375_5100 :: src_stage where "src_int24_3_2_4375_5100 = stage 1 2 3 87 261 2 3 0 1 src_int24_3_2_4375_5100_fir"
definition src_int24_3_4_4375_5100 :: src_stage where "src_int24_3_4_4375_5100 = stage 1 1 3 117 351 4 3 0 2 src_int24_3_4_4375_5100_fir"
definition src_int24_4_3_4375_5100 :: src_stage where "src_int24_4_3_4375_5100 = stage 2 3 4 88 352 3 4 0 2 src_int24_4_3_4375_5100_fir"
definition src_int24_8_7_4375_5100 :: src_stage where "src_int24_8_7_4375_5100 = stage 6 7 8 82 656 7 8 0 3 src_int24_8_7_4375_5100_fir"

section \<open>The tables\<close>

definition src_in_fs :: "int list" where "src_in_fs = [8000, 16000, 24000, 32000, 44100, 48000, 96000, 192000]"
definition src_out_fs :: "int list" where "src_out_fs = [8000, 16000, 24000, 32000, 48000]"

definition src_table1 :: "src_stage list list" where
  "src_table1 = [
     [src_int24_1_1_0_0, src_int24_1_2_4375_5100, src_int24_1_3_4375_5100, src_int24_1_2_2188_5100, src_int24_0_0_0_0, src_int24_1_3_2188_5100, src_int24_0_0_0_0, src_int24_0_0_0_0],
     [src_int24_2_1_4375_5100, src_int24_1_1_0_0, src_int24_2_3_4375_5100, src_int24_1_2_4375_5100, src_int24_0_0_0_0, src_int24_1_3_4375_5100, src_int24_0_0_0_0, src_int24_0_0_0_0],
     [src_int24_3_1_4375_5100, src_int24_3_2_4375_5100, src_int24_1_1_0_0, src_int24_3_4_4375_5100, src_int24_0_0_0_0, src_int24_1_2_4375_5100, src_int24_0_0_0_0, src_int24_0_0_0_0],
     [src_int24_2_1_4375_5100, src_int24_2_1_4375_5100, src_int24_4_3_4375_5100, src_int24_1_1_0_0, src_int24_0_0_0_0, src_int24_2_3_4375_5100, src_int24_0_0_0_0, src_int24_0_0_0_0],
     [src_int24_2_1_4375_5100, src_int24_3_1_4375_5100, src_int24_2_1_4375_5100, src_int24_3_2_4375_5100, src_int24_8_7_4375_5100, src_int24_1_1_0_0, src_int24_1_2_4375_5100, src_int24_1_2_2188_5100]]"

definition src_table2 :: "src_stage list list" where
  "src_table2 = [
     [src_int24_1_1_0_0, src_int24_1_1_0_0, src_int24_1_1_0_0, src_int24_1_2_4375_5100, src_int24_0_0_0_0, src_int24_1_2_4375_5100, src_int24_0_0_0_0, src_int24_0_0_0_0],
     [src_int24_1_1_0_0, src_int24_1_1_0_0, src_int24_1_1_0_0, src_int24_1_1_0_0, src_int24_0_0_0_0, src_int24_1_1_0_0, src_int24_0_0_0_0, src_int24_0_0_0_0],
     [src_int24_1_1_0_0, src_int24_1_1_0_0, src_int24_1_1_0_0, src_int24_1_1_0_0, src_int24_0_0_0_0, src_int24_1_1_0_0, src_int24_0_0_0_0, src_int24_0_0_0_0],
     [src_int24_2_1_2188_5100, src_int24_1_1_0_0, src_int24_1_1_0_0, src_int24_1_1_0_0, src_int24_0_0_0_0, src_int24_1_1_0_0, src_int24_0_0_0_0, src_int24_0_0_0_0],
     [src_int24_3_1_2188_5100, src_int24_1_1_0_0, src_int24_1_1_0_0, src_int24_1_1_0_0, src_int24_20_21_4020_5100, src_int24_1_1_0_0, src_int24_1_1_0_0, src_int24_1_2_4375_5100]]"

end
