(* ===== verification/Reef_Src_Core.thy ===== *)
theory Reef_Src_Core
  imports Reef_Src_Tables Reef_Format Reef_Memory
begin

unbundle bit_operations_syntax

text \<open>
  The sample rate converter's core, src/src/audio/src_core.c and src_core.h: the sizes of its delay
  lines, the choice and set-up of the two stages, and one polyphase filter stage that reads from and
  writes to circular buffers. Pointers are addresses in the byte memory; the delay lines of a stage
  are \<open>int32_t\<close> arrays at \<open>fir_delay\<close> and \<open>out_delay\<close>. C \<open>int\<close>s are \<open>int\<close>s: rates, sizes and indices
  stay far below the bounds of 32 bits.

  Each copy loop of a stage takes fuel, one unit for each round of the outer loop; a stage needs at
  most as many rounds as it copies samples, plus one (\<open>Reef_Src_Props\<close>). \<open>None\<close> is a coefficient or
  delay index outside its array, a shift count outside the operand's width, or fuel used up.
\<close>

section \<open>State\<close>

abbreviation (input) MAX_FIR_DELAY_SIZE :: int where "MAX_FIR_DELAY_SIZE \<equiv> 263"
abbreviation (input) MAX_OUT_DELAY_SIZE :: int where "MAX_OUT_DELAY_SIZE \<equiv> 50"
abbreviation (input) NUM_IN_FS :: nat where "NUM_IN_FS \<equiv> 8"
abbreviation (input) NUM_OUT_FS :: nat where "NUM_OUT_FS \<equiv> 5"

record src_alloc =
  fir_s1 :: int
  fir_s2 :: int
  out_s1 :: int
  out_s2 :: int
  scratch :: int
  single_src :: int
  total :: int

record src_state =
  fir_delay_size :: int
  out_delay_size :: int
  fir_wi :: int
  fir_ri :: int
  out_wi :: int
  out_ri :: int
  fir_delay :: u32
  out_delay :: u32

text \<open>The stages of a converter are \<open>None\<close> for \<open>NULL\<close>.\<close>

record polyphase_src =
  p_mute :: bool
  number_of_stages :: int
  p_blk_in :: int
  p_blk_out :: int
  stage1_times :: int
  stage2_times :: int
  stage1 :: "src_stage option"
  stage2 :: "src_stage option"
  state1 :: src_state
  state2 :: src_state

record src_stage_prm =
  times :: int
  x_rptr :: u32
  x_end_addr :: u32
  x_size :: u32
  x_inc :: int
  y_wptr :: u32
  y_end_addr :: u32
  y_size :: u32
  y_inc :: int
  prm_state :: src_state
  prm_stage :: src_stage

definition src_polyphase_mute :: "polyphase_src \<Rightarrow> polyphase_src" where "src_polyphase_mute src = src\<lparr>p_mute := True\<rparr>"
definition src_polyphase_unmute :: "polyphase_src \<Rightarrow> polyphase_src" where "src_polyphase_unmute src = src\<lparr>p_mute := False\<rparr>"

section \<open>Sizes\<close>

definition src_fir_delay_length :: "src_stage \<Rightarrow> int" where
  "src_fir_delay_length s = subfilter_length s + (num_of_subfilters s - 1) * idm s + blk_in s"

definition src_out_delay_length :: "src_stage \<Rightarrow> int" where
  "src_out_delay_length s = (num_of_subfilters s - 1) * odm s + 1"

definition src_stage_buf_length :: "src_stage \<Rightarrow> src_stage \<Rightarrow> int" where
  "src_stage_buf_length s1 s2 =
     (if blk_out s1 = 0 \<or> blk_in s2 = 0 then 0
      else (let k = gcd_c (blk_out s1) (blk_in s2); s1_times = blk_in s2 sdiv k in blk_out s1 * s1_times))"

text \<open>The loop of \<open>src_find_fs\<close> from index \<open>i\<close> on.\<close>

fun find_fs_from :: "int \<Rightarrow> int list \<Rightarrow> int \<Rightarrow> int" where
  "find_fs_from i [] fs = - EINVAL"
| "find_fs_from i (r # rs) fs = (if r = fs then i else find_fs_from (i + 1) rs fs)"

definition src_find_fs :: "int list \<Rightarrow> nat \<Rightarrow> int \<Rightarrow> int" where
  "src_find_fs fs_list list_length fs = find_fs_from 0 (take list_length fs_list) fs"

definition sof_rates :: "int list" where
  "sof_rates = [7350, 8000, 11025, 12000, 16000, 22050, 24000, 32000, 44100, 48000, 64000, 88200, 96000, 176400, 192000]"

definition rate_mask :: "int list \<Rightarrow> nat \<Rightarrow> s32" where
  "rate_mask fs_list len = fold (\<lambda>n mask. push_bit 1 mask OR (if 0 \<le> src_find_fs fs_list len (sof_rates ! n) then 1 else 0))
     (rev [0 ..< 15]) 0"

definition src_input_rates :: s32 where "src_input_rates = rate_mask src_in_fs NUM_IN_FS"
definition src_output_rates :: s32 where "src_output_rates = rate_mask src_out_fs NUM_OUT_FS"

definition src_buffer_lengths :: "int \<Rightarrow> int \<Rightarrow> int \<Rightarrow> int \<times> src_alloc option" where
  "src_buffer_lengths fs_in fs_out nch =
     (let idx_in = src_find_fs src_in_fs NUM_IN_FS fs_in;
          idx_out = src_find_fs src_out_fs NUM_OUT_FS fs_out
      in if idx_in < 0 \<or> idx_out < 0 then (- EINVAL, None)
         else
           (let s1 = src_table1 ! nat idx_out ! nat idx_in;
                s2 = src_table2 ! nat idx_out ! nat idx_in;
                f1 = src_fir_delay_length s1;
                o1 = src_out_delay_length s1;
                (f2, o2, sc) = (if filter_length s2 = 1 then (0, 0, 0)
                                else (src_fir_delay_length s2, src_out_delay_length s2, src_stage_buf_length s1 s2));
                single = f1 + f2 + o1 + o2
            in (0, Some \<lparr>fir_s1 = f1, fir_s2 = f2, out_s1 = o1, out_s2 = o2, scratch = sc, single_src = single,
                         total = sc + nch * single\<rparr>)))"

section \<open>Setting up a converter\<close>

definition src_state_reset :: "src_state \<Rightarrow> src_state" where
  "src_state_reset s = s\<lparr>fir_delay_size := 0, out_delay_size := 0, fir_wi := 0, fir_ri := 0, out_wi := 0, out_ri := 0\<rparr>"

definition src_polyphase_reset :: "polyphase_src \<Rightarrow> polyphase_src" where
  "src_polyphase_reset src = src\<lparr>p_mute := True, number_of_stages := 0, p_blk_in := 0, p_blk_out := 0, stage1_times := 0,
     stage2_times := 0, stage1 := None, stage2 := None, state1 := src_state_reset (state1 src), state2 := src_state_reset (state2 src)\<rparr>"

text \<open>The delay lines: consecutive parts of the memory from \<open>start\<close> on.\<close>

definition init_lines :: "src_stage \<Rightarrow> src_stage \<Rightarrow> int \<Rightarrow> u32 \<Rightarrow> polyphase_src \<Rightarrow> int \<times> polyphase_src" where
  "init_lines s1 s2 n start src =
     (let t1 = (state1 src)\<lparr>fir_delay_size := src_fir_delay_length s1, out_delay_size := src_out_delay_length s1, fir_delay := start\<rparr>;
          t1 = t1\<lparr>out_delay := fir_delay t1 + 4 * word_of_int (fir_delay_size t1)\<rparr>;
          t2 = (if 1 < n then
                  (let t2 = (state2 src)\<lparr>fir_delay_size := src_fir_delay_length s2, out_delay_size := src_out_delay_length s2,
                              fir_delay := out_delay t1 + 4 * word_of_int (out_delay_size t1)\<rparr>
                   in t2\<lparr>out_delay := fir_delay t2 + 4 * word_of_int (fir_delay_size t2)\<rparr>)
                else (state2 src)\<lparr>fir_delay_size := 0, out_delay_size := 0, fir_delay := 0, out_delay := 0\<rparr>)
      in if MAX_FIR_DELAY_SIZE < fir_delay_size t1 \<or> MAX_OUT_DELAY_SIZE < out_delay_size t1 \<or>
            MAX_FIR_DELAY_SIZE < fir_delay_size t2 \<or> MAX_OUT_DELAY_SIZE < out_delay_size t2
         then (- EINVAL, src\<lparr>state1 := t1\<lparr>fir_delay := 0, out_delay := 0\<rparr>, state2 := t2\<lparr>fir_delay := 0, out_delay := 0\<rparr>\<rparr>)
         else (0, src\<lparr>state1 := t1, state2 := t2\<rparr>))"

definition init_stages :: "src_stage \<Rightarrow> src_stage \<Rightarrow> polyphase_src \<Rightarrow> int \<Rightarrow> u32 \<Rightarrow> int \<times> polyphase_src" where
  "init_stages s1 s2 src n start =
     (let src = src\<lparr>state1 := src_state_reset (state1 src), state2 := src_state_reset (state2 src), number_of_stages := n,
                    stage1 := Some s1, stage2 := Some s2\<rparr>
      in if n = 1 then
           (let src = src\<lparr>p_blk_in := blk_in s1, p_blk_out := blk_out s1, stage1_times := 1, stage2_times := 0\<rparr>
            in if blk_out s1 = 0 then (- EINVAL, src) else init_lines s1 s2 n start src)
         else if blk_out s1 = 0 \<or> blk_in s1 = 0 then (- EINVAL, src)
         else
           (let k = gcd_c (blk_out s1) (blk_in s2);
                t1 = blk_in s2 sdiv k;
                t2 = (t1 * blk_out s1) sdiv blk_in s2
            in init_lines s1 s2 n start
                 (src\<lparr>stage1_times := t1, stage2_times := t2, p_blk_in := t1 * blk_in s1, p_blk_out := t2 * blk_out s2\<rparr>)))"

definition src_polyphase_init :: "polyphase_src \<Rightarrow> int \<Rightarrow> int \<Rightarrow> u32 \<Rightarrow> int \<times> polyphase_src" where
  "src_polyphase_init src fs1 fs2 start =
     (let idx_in = src_find_fs src_in_fs NUM_IN_FS fs1;
          idx_out = src_find_fs src_out_fs NUM_OUT_FS fs2;
          (ret, n_stages, src) =
            (if idx_in < 0 \<or> idx_out < 0 then (- EINVAL, 0, src)
             else
               (let s1 = src_table1 ! nat idx_out ! nat idx_in;
                    s2 = src_table2 ! nat idx_out ! nat idx_in;
                    (ret, src) = init_stages s1 s2 src 2 start
                in (if filter_length s2 = 0 then - EINVAL else ret, if filter_length s2 = 1 then 1 else 2, src)))
      in if ret < 0 then
           (let f = gcd_c fs1 fs2 in (- EINVAL, src\<lparr>p_blk_in := fs1 sdiv f, p_blk_out := fs2 sdiv f\<rparr>))
         else (n_stages, src))"

section \<open>Filtering\<close>

fun fir_part :: "s64 \<Rightarrow> nat \<Rightarrow> s32 list \<Rightarrow> int \<Rightarrow> mem \<Rightarrow> u32 \<Rightarrow> int \<Rightarrow> (s64 \<times> int \<times> int) option" where
  "fir_part y 0 c ic m d idx = Some (y, ic, idx)"
| "fir_part y (Suc n) c ic m d idx = do {
     ck \<leftarrow> iget c ic;
     if idx < 0 then None
     else fir_part (y + scast ck * scast (load32 m (d + 4 * word_of_int idx))) n c (ic + 1) m d (idx - 1) }"

text \<open>The result: the output, the coefficient index and \<open>fir_ri\<close>.\<close>

definition fir_filter :: "src_state \<Rightarrow> s32 list \<Rightarrow> int \<Rightarrow> int \<Rightarrow> int \<Rightarrow> mem \<Rightarrow> (s32 \<times> int \<times> int) option" where
  "fir_filter fir c ic len sh m =
     (let n1 = fir_ri fir + 1 in do {
        (y, ic, ri) \<leftarrow> (if len < n1 then fir_part 0 (nat len) c ic m (fir_delay fir) (fir_ri fir)
                         else do {
                           (y, ic, _) \<leftarrow> fir_part 0 (nat n1) c ic m (fir_delay fir) (fir_ri fir);
                           fir_part y (nat (len - n1)) c ic m (fir_delay fir) (fir_delay_size fir - 1) });
        if 23 + sh < 0 \<or> 63 < 23 + sh then None
        else Some (sat_int32 (signed_drop_bit (nat (23 + sh)) y), ic, ri) })"

section \<open>The copy loops\<close>

text \<open>
  Both loops move samples between a delay line, at index \<open>i\<close> of \<open>size\<close>, and a circular buffer, at
  pointer \<open>p\<close> with step \<open>inc\<close>: the input loop with \<open>copy_in\<close>, the output loop with \<open>copy_out\<close>.
\<close>

type_synonym move = "mem \<Rightarrow> int \<Rightarrow> u32 \<Rightarrow> mem"

definition copy_in :: "u32 \<Rightarrow> move" where
  "copy_in d m i p = store32 m (d + 4 * word_of_int i) (load32 m p)"

definition copy_out :: "u32 \<Rightarrow> move" where
  "copy_out d m i p = store32 m p (load32 m (d + 4 * word_of_int i))"

text \<open>\<open>while (k > 0)\<close>, with \<open>k\<close> either \<open>m\<close> or \<open>n_wrap_min\<close>; the result: the remaining \<open>m\<close> and the state.\<close>

function move_inner :: "move \<Rightarrow> int \<Rightarrow> int \<Rightarrow> int \<Rightarrow> int \<times> u32 \<times> mem \<Rightarrow> int \<times> int \<times> u32 \<times> mem" where
  "move_inner cp inc k m (i, p, mem) =
     (if 0 < k \<and> 0 < inc then move_inner cp inc (k - inc) (m - inc) (i + 1, p + 4 * word_of_int inc, cp mem i p)
      else (m, i, p, mem))"
  by pat_completeness auto

termination move_inner
  by (relation "measure (\<lambda>(_, _, k, _). nat k)") auto

declare move_inner.simps [simp del]

fun move_loop :: "move \<Rightarrow> nat \<Rightarrow> int \<Rightarrow> int \<Rightarrow> u32 \<Rightarrow> u32 \<Rightarrow> int \<Rightarrow> int \<times> u32 \<times> mem \<Rightarrow> (int \<times> u32 \<times> mem) option" where
  "move_loop cp 0 inc sz end_p psize m s = None"
| "move_loop cp (Suc fuel) inc sz end_p psize m (i, p, mem) =
     (if 0 < m then
        (let n_wrap_fir = (sz - i) * inc;
             n_wrap_buf = sint (end_p - p) sdiv 4;
             n_wrap_min = (if n_wrap_fir < n_wrap_buf then n_wrap_fir else n_wrap_buf)
         in if m < n_wrap_min then
              (let (m, s) = move_inner cp inc m m (i, p, mem) in move_loop cp fuel inc sz end_p psize m s)
            else
              (let (m, i, p, mem) = move_inner cp inc n_wrap_min m (i, p, mem);
                   p = (if end_p \<le> p then p - psize else p);
                   i = (if i = sz then 0 else i)
               in move_loop cp fuel inc sz end_p psize m (i, p, mem)))
      else Some (i, p, mem))"

section \<open>One stage\<close>

text \<open>The loop over the subfilters: \<open>k\<close> more of them, coefficient index \<open>c\<close>, read index \<open>r\<close>.\<close>

fun filter_loop :: "src_stage \<Rightarrow> nat \<Rightarrow> int \<Rightarrow> int \<Rightarrow> src_state \<Rightarrow> mem \<Rightarrow> (src_state \<times> mem) option" where
  "filter_loop g 0 c r st m = Some (st, m)"
| "filter_loop g (Suc k) c r st m = do {
     let st = st\<lparr>fir_ri := r\<rparr>;
     (z, c, ri) \<leftarrow> fir_filter st (coefs g) c (subfilter_length g) (shift g) m;
     let st = st\<lparr>fir_ri := ri\<rparr>;
     let r = r + idm g;
     let r = (if fir_delay_size st - 1 < r then r - fir_delay_size st else r);
     if out_wi st < 0 \<or> out_delay_size st \<le> out_wi st then None
     else do {
       let m = store32 m (out_delay st + 4 * word_of_int (out_wi st)) z;
       let w = out_wi st + odm g;
       let w = (if out_delay_size st - 1 < w then w - out_delay_size st else w);
       filter_loop g k c r (st\<lparr>out_wi := w\<rparr>) m } }"

text \<open>One round of the outer loop of \<open>src_polyphase_stage_cir\<close>.\<close>

definition stage_block :: "nat \<Rightarrow> src_stage_prm \<Rightarrow> mem \<Rightarrow> (src_stage_prm \<times> mem) option" where
  "stage_block fuel s m =
     (let st = prm_state s; g = prm_stage s in do {
        (wi, xp, m) \<leftarrow> move_loop (copy_in (fir_delay st)) fuel (x_inc s) (fir_delay_size st) (x_end_addr s) (x_size s)
                         (x_inc s * blk_in g) (fir_wi st, x_rptr s, m);
        let st = st\<lparr>fir_wi := wi\<rparr>;
        let r = fir_wi st - blk_in g - (num_of_subfilters g - 1) * idm g;
        let r = (if r < 0 then r + fir_delay_size st else r);
        (st, m) \<leftarrow> filter_loop g (nat (num_of_subfilters g)) 0 r (st\<lparr>out_wi := out_ri st\<rparr>) m;
        (ri, yp, m) \<leftarrow> move_loop (copy_out (out_delay st)) fuel (y_inc s) (out_delay_size st) (y_end_addr s) (y_size s)
                         (y_inc s * num_of_subfilters g) (out_ri st, y_wptr s, m);
        Some (s\<lparr>x_rptr := xp, y_wptr := yp, prm_state := st\<lparr>out_ri := ri\<rparr>\<rparr>, m) })"

fun stage_blocks :: "nat \<Rightarrow> nat \<Rightarrow> src_stage_prm \<Rightarrow> mem \<Rightarrow> (src_stage_prm \<times> mem) option" where
  "stage_blocks fuel 0 s m = Some (s, m)"
| "stage_blocks fuel (Suc n) s m = do {
     (s, m) \<leftarrow> stage_block fuel s m;
     stage_blocks fuel n s m }"

definition src_polyphase_stage_cir :: "nat \<Rightarrow> src_stage_prm \<Rightarrow> mem \<Rightarrow> (src_stage_prm \<times> mem) option" where
  "src_polyphase_stage_cir fuel s m = stage_blocks fuel (nat (times s)) s m"

end
