(* ===== verification/Reef_Src_Copy.thy ===== *)
theory Reef_Src_Copy
  imports Reef_Src_Core Reef_Samples
begin

text \<open>
  The copy loops of a converter stage: the loop that moves samples in runs as long as neither the
  delay line nor the circular buffer wraps is the same as moving one sample at a time and wrapping
  after each (\<open>move_loop_steps\<close>), and it ends within as many rounds as it moves samples. From there
  the input loop is a push of samples into the delay line's history, the output loop a list of writes.
\<close>

section \<open>One sample at a time\<close>

definition raw_move :: "move \<Rightarrow> nat \<Rightarrow> int \<times> u32 \<times> mem \<Rightarrow> int \<times> u32 \<times> mem" where
  "raw_move cp N = (\<lambda>(i, p, m). (i + 1, p + of_nat (4 * N), cp m i p))"

definition wrap_move :: "int \<Rightarrow> u32 \<Rightarrow> u32 \<Rightarrow> int \<times> u32 \<times> mem \<Rightarrow> int \<times> u32 \<times> mem" where
  "wrap_move sz e psize = (\<lambda>(i, p, m). (if i = sz then 0 else i, if e \<le> p then p - psize else p, m))"

definition one_move :: "move \<Rightarrow> nat \<Rightarrow> int \<Rightarrow> u32 \<Rightarrow> u32 \<Rightarrow> int \<times> u32 \<times> mem \<Rightarrow> int \<times> u32 \<times> mem" where
  "one_move cp N sz e psize s = wrap_move sz e psize (raw_move cp N s)"

text \<open>The invariant of the cursors: both are inside their areas, and the pointer is aligned to the end.\<close>

definition cursor_ok :: "nat \<Rightarrow> int \<Rightarrow> u32 \<Rightarrow> u32 \<Rightarrow> int \<Rightarrow> u32 \<Rightarrow> bool" where
  "cursor_ok N sz e psize i p \<longleftrightarrow> 0 < N \<and> 0 \<le> i \<and> i < sz \<and> unat psize \<le> unat e \<and> unat e - unat psize \<le> unat p \<and>
     unat p < unat e \<and> 4 dvd unat e - unat p \<and> 4 dvd unat psize \<and> 4 * N \<le> unat psize \<and> unat psize < 2 ^ 31 \<and>
     unat e + 4 * N < 2 ^ 32"

text \<open>The pointer after one sample.\<close>

definition adv :: "nat \<Rightarrow> u32 \<Rightarrow> u32 \<Rightarrow> u32 \<Rightarrow> u32" where
  "adv N e psize p = (if e \<le> p + of_nat (4 * N) then p + of_nat (4 * N) - psize else p + of_nat (4 * N))"

lemma unat_step:
  assumes "cursor_ok N sz e psize i p"
  shows "unat (p + of_nat (4 * N)) = unat p + 4 * N"
  using assms unat32_lt [of e] by (intro unat_offset [of p "4 * N + 1"]) (simp_all add: cursor_ok_def fits_def)

lemma adv_ok:
  assumes "cursor_ok N sz e psize i p"
  shows "cursor_ok N sz e psize (if i + 1 = sz then 0 else i + 1) (adv N e psize p)"
proof -
  note c = assms [unfolded cursor_ok_def]
  note u = unat_step [OF assms]
  show ?thesis
  proof (cases "e \<le> p + of_nat (4 * N)")
    case True
    then have e: "unat e \<le> unat p + 4 * N" using u by (simp add: word_le_nat_alt)
    have "unat (p + of_nat (4 * N) - psize) = unat p + 4 * N - unat psize"
      using u c e by (subst unat_sub_le) (simp_all add: word_le_nat_alt)
    moreover have "4 dvd unat e - (unat p + 4 * N - unat psize)"
    proof -
      obtain a b where ab: "unat e - unat p = 4 * a" "unat psize = 4 * b" using c by (auto simp: dvd_def)
      have "unat p < unat e" using c by blast
      then have "unat e = unat p + 4 * a" using ab(1) by linarith
      then have "unat e - (unat p + 4 * N - unat psize) = 4 * (a + b - N)" using ab(2) c e by simp
      then show ?thesis by simp
    qed
    moreover have "unat e - unat psize \<le> unat p + 4 * N - unat psize \<and> unat p + 4 * N - unat psize < unat e"
    proof -
      have "unat p < unat e" "4 * N \<le> unat psize" "unat psize \<le> unat e" using c by blast+
      then show ?thesis using e by linarith
    qed
    ultimately show ?thesis using c True by (simp add: cursor_ok_def adv_def)
  next
    case False
    then have e: "unat p + 4 * N < unat e" using u by (simp add: word_le_nat_alt)
    have "4 dvd unat e - (unat p + 4 * N)" using c e by (metis diff_diff_left dvd_diff_nat dvd_triv_left)
    then show ?thesis using c e u False by (simp add: cursor_ok_def adv_def)
  qed
qed

lemma one_move_eq:
  "one_move cp N sz e psize (i, p, m) = (if i + 1 = sz then 0 else i + 1, adv N e psize p, cp m i p)"
  by (simp add: one_move_def wrap_move_def raw_move_def adv_def)

lemma raw_pow: "\<exists>m'. (raw_move cp N ^^ j) (i, p, m) = (i + int j, p + of_nat (4 * N * j), m')"
  by (induction j) (auto simp: raw_move_def algebra_simps)

lemma raw_is_move:
  assumes "i + int j < sz" "unat p + 4 * N * j < unat e"
  shows "(one_move cp N sz e psize ^^ j) (i, p, m) = (raw_move cp N ^^ j) (i, p, m)"
  using assms
proof (induction j)
  case (Suc j)
  obtain m' where r: "(raw_move cp N ^^ j) (i, p, m) = (i + int j, p + of_nat (4 * N * j), m')" using raw_pow by blast
  have s: "(raw_move cp N ^^ Suc j) (i, p, m) = (i + int (Suc j), p + of_nat (4 * N * Suc j), cp m' (i + int j) (p + of_nat (4 * N * j)))"
  proof -
    have "(raw_move cp N ^^ Suc j) (i, p, m) = raw_move cp N (i + int j, p + of_nat (4 * N * j), m')" by (simp add: r)
    also have "\<dots> = (i + int j + 1, p + of_nat (4 * N * j) + of_nat (4 * N), cp m' (i + int j) (p + of_nat (4 * N * j)))"
      by (simp add: raw_move_def)
    finally show ?thesis by (simp add: algebra_simps)
  qed
  have "unat (p + of_nat (4 * N * Suc j)) = unat p + 4 * N * Suc j"
    using Suc.prems(2) unat32_lt [of e] by (intro unat_offset [of p "unat e - unat p"]) (simp_all add: fits_def)
  then have n: "\<not> e \<le> p + of_nat (4 * N * Suc j)" using Suc.prems(2) by (simp add: word_le_nat_alt)
  have "(one_move cp N sz e psize ^^ Suc j) (i, p, m) = one_move cp N sz e psize ((raw_move cp N ^^ j) (i, p, m))"
    using Suc by simp
  also have "\<dots> = wrap_move sz e psize ((raw_move cp N ^^ Suc j) (i, p, m))" by (simp add: one_move_def)
  also have "\<dots> = (raw_move cp N ^^ Suc j) (i, p, m)" unfolding s wrap_move_def using n Suc.prems(1) by simp
  finally show ?case .
qed simp

text \<open>The inner loop moves as many samples as fit \<open>k\<close>, rounded up.\<close>

lemma move_inner_raw:
  assumes "0 < N" "k \<le> int (N * j)" "j = 0 \<or> int (N * (j - 1)) < k"
  shows "move_inner cp (int N) k m s = (m - int (N * j), (raw_move cp N ^^ j) s)"
  using assms
proof (induction j arbitrary: k m s)
  case 0
  obtain i p mm where s: "s = (i, p, mm)" by (cases s)
  have "\<not> (0 < k \<and> 0 < int N)" using 0 by simp
  then show ?case unfolding s by (subst move_inner.simps) (simp only: if_False, simp)
next
  case (Suc j)
  obtain i p mm where s: "s = (i, p, mm)" by (cases s)
  have "int (N * (Suc j - 1)) < k" using Suc.prems(3) by blast
  then have k: "0 < k" using of_nat_0_le_iff [of "N * (Suc j - 1)"] by linarith
  have "k - int N \<le> int (N * j)" using Suc.prems(2) by (simp add: algebra_simps)
  moreover have "j = 0 \<or> int (N * (j - 1)) < k - int N" using Suc.prems(3) by (cases j) (simp_all add: algebra_simps)
  ultimately have ih: "move_inner cp (int N) (k - int N) (m - int N) (raw_move cp N s) = (m - int N - int (N * j), (raw_move cp N ^^ j) (raw_move cp N s))"
    using Suc.IH Suc.prems(1) by blast
  have "move_inner cp (int N) k m s = move_inner cp (int N) (k - int N) (m - int N) (raw_move cp N s)"
    using k Suc.prems(1) unfolding s by (subst move_inner.simps) (simp add: raw_move_def)
  then show ?case unfolding ih by (simp add: funpow_swap1 algebra_simps)
qed

lemma ptr_words:
  assumes "cursor_ok N sz e psize i p"
  shows "sint (e - p) sdiv 4 = int ((unat e - unat p) div 4)" "4 * ((unat e - unat p) div 4) = unat e - unat p"
    "0 < (unat e - unat p) div 4"
proof -
  note c = assms [unfolded cursor_ok_def]
  have le: "unat p < unat e" "4 dvd unat e - unat p" "unat e - unat psize \<le> unat p" "unat psize < 2 ^ 31" "unat psize \<le> unat e"
    using c by blast+
  have u: "unat (e - p) = unat e - unat p" using le(1) by (intro unat_sub_le) (simp add: word_le_nat_alt)
  have "unat e - unat p < 2147483648" using le by simp
  then have "sint (e - p) = int (unat e - unat p)" using u by (subst sint_small32) simp_all
  moreover have "int x sdiv 4 = int (x div 4)" for x :: nat
    by (cases "x = 0") (simp_all add: signed_divide_int_def zdiv_int)
  ultimately show "sint (e - p) sdiv 4 = int ((unat e - unat p) div 4)" by (simp only:)
  show w: "4 * ((unat e - unat p) div 4) = unat e - unat p" using le(2) by simp
  then show "0 < (unat e - unat p) div 4" using le(1) by (metis mult_0_right neq0_conv zero_less_diff)
qed

lemma ceil_count:
  assumes "0 < (N :: nat)" "0 < (x :: int)" "x \<le> int (N * k)"
  obtains j where "0 < j" "j \<le> k" "x \<le> int (N * j)" "int (N * (j - 1)) < x"
proof -
  define j where "j = (LEAST j. x \<le> int (N * j))"
  have ex: "x \<le> int (N * j)" unfolding j_def using assms(3) by (rule LeastI)
  have le: "j \<le> k" unfolding j_def using assms(3) by (rule Least_le)
  have pos: "0 < j" using ex assms(2) by (cases j) simp_all
  have "\<not> x \<le> int (N * (j - 1))" using pos not_less_Least [of "j - 1" "\<lambda>j. x \<le> int (N * j)"] unfolding j_def by simp
  then show ?thesis using that [OF pos le ex] by simp
qed

text \<open>
  The loop with its fast paths is the sample by sample loop, and \<open>k + 1\<close> rounds are enough for \<open>k\<close>
  samples.
\<close>

lemma move_loop_steps:
  assumes "cursor_ok N sz e psize i p" "k < fuel"
  shows "move_loop cp fuel (int N) sz e psize (int (N * k)) (i, p, m) = Some ((one_move cp N sz e psize ^^ k) (i, p, m))"
  using assms
proof (induction k arbitrary: fuel i p m rule: less_induct)
  case (less k)
  obtain f where f: "fuel = Suc f" using less.prems(2) by (cases fuel) simp_all
  note c = less.prems(1) [unfolded cursor_ok_def]
  have N: "0 < N" "0 \<le> i" "i < sz" using c by blast+
  show ?case
  proof (cases "k = 0")
    case False
    then have "0 < N * k" using N(1) by simp
    then have k: "0 < int (N * k)" by (simp only: of_nat_0_less_iff)
    define B where "B = (unat e - unat p) div 4"
    note B = ptr_words [OF less.prems(1), folded B_def]
    let ?w = "if (sz - i) * int N < int B then (sz - i) * int N else int B"
    have w: "0 < ?w" using N B(3) by simp
    show ?thesis
    proof (cases "int (N * k) < ?w")
      case True
      have "int k * int N < (sz - i) * int N" using True by (simp add: mult.commute split: if_splits)
      then have "int k < sz - i" using N(1) by simp
      then have 1: "i + int k < sz" by simp
      have "int (N * k) < int B" using True by (simp split: if_splits)
      then have "4 * (N * k) < 4 * B" by (simp only: of_nat_less_iff)
      then have 2: "unat p + 4 * N * k < unat e" using B(2) by simp
      have "move_inner cp (int N) (int (N * k)) (int (N * k)) (i, p, m) = (0, (raw_move cp N ^^ k) (i, p, m))"
      proof -
        have "N * (k - 1) < N * k" using N(1) False by simp
        then have "k = 0 \<or> int (N * (k - 1)) < int (N * k)" by (simp only: of_nat_less_iff simp_thms)
        from move_inner_raw [OF N(1) order_refl this, of cp "int (N * k)" "(i, p, m)"] show ?thesis by (simp only: diff_self)
      qed
      moreover have "move_loop cp f (int N) sz e psize 0 s = Some s" for s
        using less.prems(2) f False by (cases f; cases s) simp_all
      ultimately show ?thesis
        unfolding f move_loop.simps if_P [OF k] Let_def B(1) if_P [OF True] raw_is_move [OF 1 2] by simp
    next
      case nf: False
      obtain j where j: "0 < j" "j \<le> k" "?w \<le> int (N * j)" "int (N * (j - 1)) < ?w"
        using ceil_count [OF N(1) w, of k] nf by (metis not_less)
      let ?s = "(raw_move cp N ^^ (j - 1)) (i, p, m)"
      have "int (j - 1) * int N < (sz - i) * int N" using j(4) by (simp add: mult.commute split: if_splits)
      then have "int (j - 1) < sz - i" using N(1) by simp
      then have 1: "i + int (j - 1) < sz" by simp
      have "int (N * (j - 1)) < int B" using j(4) by (simp split: if_splits)
      then have "4 * (N * (j - 1)) < 4 * B" by (simp only: of_nat_less_iff)
      then have 2: "unat p + 4 * N * (j - 1) < unat e" using B(2) by (simp add: mult.assoc)
      have jj: "j = Suc (j - 1)" using j(1) by simp
      have mv: "(one_move cp N sz e psize ^^ j) (i, p, m) = wrap_move sz e psize ((raw_move cp N ^^ j) (i, p, m))"
        by (subst (1 2) jj) (simp only: funpow.simps o_apply raw_is_move [OF 1 2] one_move_def)
      have inner: "move_inner cp (int N) ?w (int (N * k)) (i, p, m) = (int (N * k) - int (N * j), (raw_move cp N ^^ j) (i, p, m))"
        by (rule move_inner_raw [OF N(1) j(3)]) (use j(4) in blast)
      obtain i1 p1 m1 where r1: "(raw_move cp N ^^ j) (i, p, m) = (i1, p1, m1)" by (cases "(raw_move cp N ^^ j) (i, p, m)")
      obtain i2 p2 m2 where s2: "(one_move cp N sz e psize ^^ j) (i, p, m) = (i2, p2, m2)"
        by (cases "(one_move cp N sz e psize ^^ j) (i, p, m)")
      have ok: "cursor_ok N sz e psize (fst ((one_move cp N sz e psize ^^ l) (i, p, m))) (fst (snd ((one_move cp N sz e psize ^^ l) (i, p, m))))" for l
      proof (induction l)
        case (Suc l)
        obtain a b d where "(one_move cp N sz e psize ^^ l) (i, p, m) = (a, b, d)" by (cases "(one_move cp N sz e psize ^^ l) (i, p, m)")
        then show ?case using Suc adv_ok [of N sz e psize a b] by (simp add: one_move_eq)
      qed (simp add: less.prems(1))
      have ok2: "cursor_ok N sz e psize i2 p2" using ok [of j] s2 by simp
      have "N * k = N * j + N * (k - j)" using j(2) by (simp add: distrib_left [symmetric])
      then have rest: "int (N * k) - int (N * j) = int (N * (k - j))" by (simp only: of_nat_add add_diff_cancel_left')
      have lt: "k - j < k" "k - j < f" using j(1,2) less.prems(2) f by simp_all
      have "move_loop cp fuel (int N) sz e psize (int (N * k)) (i, p, m) = move_loop cp f (int N) sz e psize (int (N * (k - j))) (i2, p2, m2)"
        using mv [unfolded s2 r1 wrap_move_def]
        unfolding f move_loop.simps if_P [OF k] Let_def B(1) if_not_P [OF nf] inner r1 rest prod.case by simp
      also have "\<dots> = Some ((one_move cp N sz e psize ^^ (k - j)) (i2, p2, m2))" by (rule less.IH [OF lt(1) ok2 lt(2)])
      also have "(one_move cp N sz e psize ^^ (k - j)) (i2, p2, m2) = (one_move cp N sz e psize ^^ k) (i, p, m)"
        using j(2) by (simp add: s2 [symmetric] funpow_add [symmetric, THEN fun_cong, unfolded o_apply])
      finally show ?thesis .
    qed
  qed (simp add: f)
qed

section \<open>Moving samples in\<close>

text \<open>A delay line as the list of its samples, the newest, before index \<open>i\<close>, first.\<close>

definition ring_hist :: "mem \<Rightarrow> u32 \<Rightarrow> int \<Rightarrow> int \<Rightarrow> s32 list" where
  "ring_hist m d sz i = map (\<lambda>k. s32_at m d (nat ((i - 1 - int k) mod sz))) [0 ..< nat sz]"

lemma length_ring_hist [simp]: "length (ring_hist m d sz i) = nat sz"
  by (simp add: ring_hist_def)

text \<open>The bytes of a circular buffer that ends at \<open>e\<close>.\<close>

definition area :: "u32 \<Rightarrow> u32 \<Rightarrow> nat set" where
  "area e psize = {unat e - unat psize ..< unat e}"

lemma cursor_area:
  assumes "cursor_ok N sz e psize i p"
  shows "fits p 4" "region p 4 \<subseteq> area e psize"
proof -
  note c = assms [unfolded cursor_ok_def]
  have le: "unat e - unat psize \<le> unat p" "unat p < unat e" "4 dvd unat e - unat p" using c by blast+
  have "4 \<le> unat e - unat p" using le(2,3) by (auto simp: dvd_def)
  then have "unat p + 4 \<le> unat e" using le(2) by linarith
  then show "fits p 4" "region p 4 \<subseteq> area e psize"
    using le(1) unat32_lt [of e] by (auto simp: fits_def region_def area_def)
qed

lemma word_index: "0 \<le> i \<Longrightarrow> d + 4 * word_of_int i = (d + of_nat (nat i * 4) :: u32)"
  by (simp add: mult.commute)

lemma next_mod: "0 \<le> i \<Longrightarrow> i < sz \<Longrightarrow> (if i + 1 = sz then 0 else i + 1) = (i + 1) mod (sz :: int)"
  by (simp add: mod_pos_pos_trivial)

lemma next_index:
  assumes "0 \<le> i1" "i1 < sz" "i1 = (i + int k) mod sz"
  shows "(if i1 + 1 = sz then 0 else i1 + 1) = (i + int (Suc k)) mod sz"
proof -
  have "(if i1 + 1 = sz then 0 else i1 + 1) = (i1 + 1) mod sz" by (rule next_mod [OF assms(1,2)])
  also have "\<dots> = (i + int k + 1) mod sz" unfolding assms(3) by (rule mod_add_left_eq)
  also have "i + int k + 1 = i + int (Suc k)" by simp
  finally show ?thesis .
qed

lemma ring_push:
  assumes "fits d (nat sz * 4)" "0 \<le> i" "i < sz"
  shows "ring_hist (store32 m (d + of_nat (nat i * 4)) v) d sz (if i + 1 = sz then 0 else i + 1)
       = take (nat sz) (v # ring_hist m d sz i)" (is "?l = ?r")
proof (rule nth_equalityI)
  show "length ?l = length ?r" using assms(2,3) by simp
  fix k assume "k < length ?l"
  then have k: "k < nat sz" "int k < sz" by simp_all
  have idx: "((if i + 1 = sz then 0 else i + 1) - 1 - int k) mod sz = (i - int k) mod sz"
  proof (cases "i + 1 = sz")
    case True
    have "(i - int k) mod sz = (i - int k - sz) mod sz" by simp
    also have "i - int k - sz = 0 - 1 - int k" using True by simp
    finally show ?thesis using True by simp
  qed simp
  have r: "0 \<le> (i - int k) mod sz" "(i - int k) mod sz < sz" using assms by simp_all
  have n: "nat ((i - int k) mod sz) < nat sz" "nat i < nat sz" using r assms by simp_all
  have "?l ! k = s32_at (store32 m (d + of_nat (nat i * 4)) v) d (nat ((i - int k) mod sz))"
    using k idx by (simp add: ring_hist_def)
  also have "\<dots> = (if nat ((i - int k) mod sz) = nat i then v else s32_at m d (nat ((i - int k) mod sz)))"
    by (rule s32_at_store [OF assms(1) n])
  also have "\<dots> = ?r ! k"
  proof (cases k)
    case 0
    then show ?thesis using assms by (simp add: mod_pos_pos_trivial)
  next
    case (Suc j)
    have "(i - int k) mod sz \<noteq> i" using tap_index [of i sz "int k"] assms k Suc by (auto split: if_splits)
    then have "nat ((i - int k) mod sz) \<noteq> nat i" using r(1) assms(2) eq_nat_nat_iff by blast
    moreover have "i - int k = i - 1 - int j" using Suc by simp
    moreover have "?r ! k = s32_at m d (nat ((i - 1 - int j) mod sz))" using Suc k by (simp add: ring_hist_def)
    ultimately show ?thesis by (simp only: if_False)
  qed
  finally show "?l ! k = ?r ! k" .
qed

text \<open>The samples the circular buffer delivers from \<open>p\<close> on.\<close>

definition read_circ :: "nat \<Rightarrow> u32 \<Rightarrow> u32 \<Rightarrow> mem \<Rightarrow> u32 \<Rightarrow> nat \<Rightarrow> s32 list" where
  "read_circ N e psize m p k = map (\<lambda>t. load32 m ((adv N e psize ^^ t) p)) [0 ..< k]"

lemma take_push: "take n (x # take n l) = take n (x # l)"
  by (cases n) simp_all

lemma in_steps:
  assumes c: "cursor_ok N sz e psize i p" and f: "fits d (nat sz * 4)" and dj: "area e psize \<inter> region d (nat sz * 4) = {}"
  shows "\<exists>i' m'. (one_move (copy_in d) N sz e psize ^^ k) (i, p, m) = (i', (adv N e psize ^^ k) p, m') \<and>
    i' = (i + int k) mod sz \<and> cursor_ok N sz e psize i' ((adv N e psize ^^ k) p) \<and>
    ring_hist m' d sz i' = take (nat sz) (rev (read_circ N e psize m p k) @ ring_hist m d sz i) \<and>
    (\<forall>a. unat a \<notin> region d (nat sz * 4) \<longrightarrow> m' a = m a)"
proof (induction k)
  case 0
  then show ?case using c by (auto simp: read_circ_def cursor_ok_def mod_pos_pos_trivial)
next
  case (Suc k)
  then obtain i1 m1 where s: "(one_move (copy_in d) N sz e psize ^^ k) (i, p, m) = (i1, (adv N e psize ^^ k) p, m1)"
    "i1 = (i + int k) mod sz" "cursor_ok N sz e psize i1 ((adv N e psize ^^ k) p)"
    "ring_hist m1 d sz i1 = take (nat sz) (rev (read_circ N e psize m p k) @ ring_hist m d sz i)"
    "\<forall>a. unat a \<notin> region d (nat sz * 4) \<longrightarrow> m1 a = m a" by blast
  let ?q = "(adv N e psize ^^ k) p" and ?j = "if i1 + 1 = sz then 0 else i1 + 1"
  have i1: "0 \<le> i1" "i1 < sz" "0 < sz" using s(3) by (auto simp: cursor_ok_def)
  have "load32 m1 ?q = load32 m ?q"
    using cursor_area [OF s(3)] dj s(5) by (intro load32_cong) blast+
  then have mv: "(one_move (copy_in d) N sz e psize ^^ Suc k) (i, p, m)
      = (?j, (adv N e psize ^^ Suc k) p, store32 m1 (d + of_nat (nat i1 * 4)) (load32 m ?q))"
    using i1(1) by (simp add: s(1) one_move_eq copy_in_def word_index)
  have "?j = (i + int (Suc k)) mod sz" by (rule next_index [OF i1(1,2) s(2)])
  moreover have "cursor_ok N sz e psize ?j ((adv N e psize ^^ Suc k) p)" using adv_ok [OF s(3)] by simp
  moreover have "ring_hist (store32 m1 (d + of_nat (nat i1 * 4)) (load32 m ?q)) d sz ?j
      = take (nat sz) (rev (read_circ N e psize m p (Suc k)) @ ring_hist m d sz i)"
    unfolding ring_push [OF f i1(1,2)] s(4) take_push by (simp add: read_circ_def)
  moreover have "\<forall>a. unat a \<notin> region d (nat sz * 4) \<longrightarrow> store32 m1 (d + of_nat (nat i1 * 4)) (load32 m ?q) a = m a"
  proof (intro allI impI)
    fix a :: u32 assume a: "unat a \<notin> region d (nat sz * 4)"
    have "nat i1 < nat sz" using i1 by simp
    from store_outside [OF f this a] show "store32 m1 (d + of_nat (nat i1 * 4)) (load32 m ?q) a = m a" using s(5) a by simp
  qed
  ultimately show ?case using mv by blast
qed

section \<open>Moving samples out\<close>

text \<open>Samples written one after the other into a circular buffer.\<close>

fun write_circ :: "nat \<Rightarrow> u32 \<Rightarrow> u32 \<Rightarrow> u32 \<Rightarrow> s32 list \<Rightarrow> mem \<Rightarrow> mem" where
  "write_circ N e psize p [] m = m"
| "write_circ N e psize p (v # vs) m = write_circ N e psize (adv N e psize p) vs (store32 m p v)"

lemma write_circ_snoc:
  "write_circ N e psize p (vs @ [v]) m = store32 (write_circ N e psize p vs m) ((adv N e psize ^^ length vs) p) v"
  by (induction vs arbitrary: p m) (simp_all add: funpow_swap1)

lemma write_circ_append:
  "write_circ N e psize p (vs @ us) m = write_circ N e psize ((adv N e psize ^^ length vs) p) us (write_circ N e psize p vs m)"
  by (induction vs arbitrary: p m) (simp_all add: funpow_swap1)

text \<open>The delay line as the list of its samples from index \<open>i\<close> on.\<close>

definition ring_from :: "mem \<Rightarrow> u32 \<Rightarrow> int \<Rightarrow> int \<Rightarrow> s32 list" where
  "ring_from m d sz i = map (\<lambda>k. s32_at m d (nat ((i + int k) mod sz))) [0 ..< nat sz]"

lemma length_ring_from [simp]: "length (ring_from m d sz i) = nat sz"
  by (simp add: ring_from_def)

lemma s32_at_cong:
  assumes "fits d (n * 4)" "j < n" "\<And>x. unat x \<in> region d (n * 4) \<Longrightarrow> m' x = m x"
  shows "s32_at m' d j = s32_at m d j"
  unfolding s32_at_smp using assms by (intro smp.sample_cong [of d n F32 j m' m]) simp_all

lemma ring_cong:
  assumes "fits d (nat sz * 4)" "0 < sz" "\<And>x. unat x \<in> region d (nat sz * 4) \<Longrightarrow> m' x = m x"
  shows "ring_from m' d sz i = ring_from m d sz i" "ring_hist m' d sz i = ring_hist m d sz i"
proof -
  have "s32_at m' d (nat (k mod sz)) = s32_at m d (nat (k mod sz))" for k
    using assms(2) by (intro s32_at_cong [OF assms(1) _ assms(3)]) simp_all
  then show "ring_from m' d sz i = ring_from m d sz i" "ring_hist m' d sz i = ring_hist m d sz i"
    by (simp_all add: ring_from_def ring_hist_def)
qed

lemma out_steps:
  assumes c: "cursor_ok N sz e psize i p" and f: "fits d (nat sz * 4)" and dj: "area e psize \<inter> region d (nat sz * 4) = {}"
    and k: "k \<le> nat sz"
  shows "\<exists>i' m'. (one_move (copy_out d) N sz e psize ^^ k) (i, p, m) = (i', (adv N e psize ^^ k) p, m') \<and>
    i' = (i + int k) mod sz \<and> cursor_ok N sz e psize i' ((adv N e psize ^^ k) p) \<and>
    m' = write_circ N e psize p (take k (ring_from m d sz i)) m \<and>
    (\<forall>a. unat a \<notin> area e psize \<longrightarrow> m' a = m a)"
  using k
proof (induction k)
  case 0
  then show ?case using c by (auto simp: cursor_ok_def mod_pos_pos_trivial)
next
  case (Suc k)
  then obtain i1 m1 where s: "(one_move (copy_out d) N sz e psize ^^ k) (i, p, m) = (i1, (adv N e psize ^^ k) p, m1)"
    "i1 = (i + int k) mod sz" "cursor_ok N sz e psize i1 ((adv N e psize ^^ k) p)"
    "m1 = write_circ N e psize p (take k (ring_from m d sz i)) m" "\<forall>a. unat a \<notin> area e psize \<longrightarrow> m1 a = m a"
    by (auto simp: Suc_le_eq)
  let ?q = "(adv N e psize ^^ k) p" and ?j = "if i1 + 1 = sz then 0 else i1 + 1"
  have i1: "0 \<le> i1" "i1 < sz" "0 < sz" using s(3) by (auto simp: cursor_ok_def)
  have kz: "k < nat sz" using Suc.prems by simp
  have v: "s32_at m1 d (nat i1) = ring_from m d sz i ! k"
  proof -
    have "s32_at m1 d (nat i1) = s32_at m d (nat i1)"
      using i1 dj s(5) by (intro s32_at_cong [OF f]) auto
    then show ?thesis using kz s(2) by (simp add: ring_from_def)
  qed
  have mv: "(one_move (copy_out d) N sz e psize ^^ Suc k) (i, p, m) = (?j, (adv N e psize ^^ Suc k) p, store32 m1 ?q (ring_from m d sz i ! k))"
    using i1(1) v by (simp add: s(1) one_move_eq copy_out_def word_index s32_at_def)
  have "?j = (i + int (Suc k)) mod sz" by (rule next_index [OF i1(1,2) s(2)])
  moreover have "cursor_ok N sz e psize ?j ((adv N e psize ^^ Suc k) p)" using adv_ok [OF s(3)] by simp
  moreover have "store32 m1 ?q (ring_from m d sz i ! k) = write_circ N e psize p (take (Suc k) (ring_from m d sz i)) m"
  proof -
    have t: "take (Suc k) (ring_from m d sz i) = take k (ring_from m d sz i) @ [ring_from m d sz i ! k]"
      using kz by (simp add: take_Suc_conv_app_nth)
    have "length (take k (ring_from m d sz i)) = k" using kz by simp
    then show ?thesis unfolding t write_circ_snoc s(4) by simp
  qed
  moreover have "\<forall>a. unat a \<notin> area e psize \<longrightarrow> store32 m1 ?q (ring_from m d sz i ! k) a = m a"
  proof (intro allI impI)
    fix a :: u32 assume a: "unat a \<notin> area e psize"
    then have "unat a \<notin> region ?q 4" using cursor_area(2) [OF s(3)] by blast
    then show "store32 m1 ?q (ring_from m d sz i ! k) a = m a" using store32_other [OF cursor_area(1) [OF s(3)]] s(5) a by simp
  qed
  ultimately show ?case using mv by blast
qed

end
