(* ===== verification/Reef_Src_Props.thy ===== *)
theory Reef_Src_Props
  imports Reef_Src_Copy
begin

text \<open>
  One stage of the sample rate converter computes the polyphase filter of its coefficients: every block
  of inputs yields one output for each subfilter, the dot product of its coefficients with a section
  of the input history, placed in the output stream as the stage's \<open>odm\<close> says. The reference works
  on lists; the stage's circular buffers, delay lines and wrap-around are proved to implement it.
\<close>

section \<open>The reference\<close>

text \<open>The newest sample subfilter \<open>f\<close> reads, counted from the newest of the history.\<close>

definition newest :: "src_stage \<Rightarrow> nat \<Rightarrow> nat" where
  "newest g f = nat (blk_in g) - 1 + (nat (num_of_subfilters g) - 1 - f) * nat (idm g)"

definition poly_sum :: "src_stage \<Rightarrow> s32 list \<Rightarrow> nat \<Rightarrow> int" where
  "poly_sum g h f = (\<Sum>c < nat (subfilter_length g). sint (coefs g ! (f * nat (subfilter_length g) + c)) *
     sint (h ! (newest g f + c)))"

definition poly_out :: "src_stage \<Rightarrow> s32 list \<Rightarrow> nat \<Rightarrow> s32" where
  "poly_out g h f = word_of_int (clamp INT32_MINVALUE INT32_MAXVALUE (poly_sum g h f div 2 ^ nat (23 + shift g)))"

text \<open>
  A block: the history \<open>h\<close> (newest first) takes the inputs, the outputs go to every \<open>odm\<close>-th place of
  the output line \<open>u\<close>, and as many samples as there are subfilters leave it.
\<close>

type_synonym stage_lines = "s32 list \<times> s32 list"

definition place :: "src_stage \<Rightarrow> s32 list \<Rightarrow> nat list \<Rightarrow> s32 list \<Rightarrow> s32 list" where
  "place g h fs u = fold (\<lambda>f u. u[f * nat (odm g) := poly_out g h f]) fs u"

definition ref_block :: "src_stage \<Rightarrow> stage_lines \<Rightarrow> s32 list \<Rightarrow> s32 list \<times> stage_lines" where
  "ref_block g hu xs =
     (let h = take (nat (src_fir_delay_length g)) (rev xs @ fst hu);
          n = nat (num_of_subfilters g);
          u = place g h [0 ..< n] (snd hu)
      in (take n u, (h, drop n u @ take n u)))"

fun ref_blocks :: "src_stage \<Rightarrow> nat \<Rightarrow> stage_lines \<Rightarrow> s32 list \<Rightarrow> s32 list \<times> stage_lines" where
  "ref_blocks g 0 hu xs = ([], hu)"
| "ref_blocks g (Suc k) hu xs =
     (let (ys, hu) = ref_block g hu (take (nat (blk_in g)) xs);
          (zs, hu) = ref_blocks g k hu (drop (nat (blk_in g)) xs)
      in (ys @ zs, hu))"

section \<open>Well-formed stages\<close>

text \<open>The sums of the absolute values of a subfilter's coefficients stay below \<open>2 ^ 32\<close>.\<close>

definition stage_ok :: "src_stage \<Rightarrow> bool" where
  "stage_ok g \<longleftrightarrow> 1 \<le> num_of_subfilters g \<and> 1 \<le> subfilter_length g \<and> 0 \<le> idm g \<and> 0 \<le> odm g \<and> 1 \<le> blk_in g \<and>
     (1 \<le> odm g \<or> num_of_subfilters g = 1) \<and> - 23 \<le> shift g \<and> shift g \<le> 40 \<and>
     length (coefs g) = nat (num_of_subfilters g) * nat (subfilter_length g) \<and>
     (\<forall>f < nat (num_of_subfilters g).
        (\<Sum>c < nat (subfilter_length g). \<bar>sint (coefs g ! (f * nat (subfilter_length g) + c))\<bar>) < 4294967296)"

lemma stage_okD:
  assumes "stage_ok g"
  shows "1 \<le> num_of_subfilters g" "1 \<le> subfilter_length g" "0 \<le> idm g" "0 \<le> odm g" "1 \<le> blk_in g"
    "1 \<le> odm g \<or> num_of_subfilters g = 1" "- 23 \<le> shift g" "shift g \<le> 40"
    "length (coefs g) = nat (num_of_subfilters g) * nat (subfilter_length g)"
    "f < nat (num_of_subfilters g) \<Longrightarrow> (\<Sum>c < nat (subfilter_length g). \<bar>sint (coefs g ! (f * nat (subfilter_length g) + c))\<bar>) < 4294967296"
  using assms by (auto simp: stage_ok_def)

section \<open>One subfilter\<close>

lemma src_part_sum:
  assumes "0 \<le> ic" "ic + int n \<le> int (length c)" "int n \<le> idx + 1"
    and "\<bar>sint y\<bar> + (\<Sum>k < n. \<bar>sint (c ! (nat ic + k))\<bar>) * 2147483648 < 9223372036854775808"
  shows "\<exists>y'. fir_part y n c ic m d idx = Some (y', ic + int n, idx - int n) \<and>
    sint y' = sint y + (\<Sum>k < n. sint (c ! (nat ic + k)) * sint (s32_at m d (nat (idx - int k)))) \<and>
    \<bar>sint y'\<bar> \<le> \<bar>sint y\<bar> + (\<Sum>k < n. \<bar>sint (c ! (nat ic + k))\<bar>) * 2147483648"
  using assms
proof (induction n arbitrary: y ic idx)
  case (Suc n)
  let ?ck = "c ! nat ic" and ?dk = "s32_at m d (nat idx)"
  have r: "iget c ic = Some ?ck" using Suc.prems by (simp add: nat_less_iff)
  have idx: "\<not> idx < 0" using Suc.prems(3) by simp
  have ld: "load32 m (d + 4 * word_of_int idx) = ?dk" using idx by (simp add: s32_at_def mult.commute)
  have sh: "(\<Sum>k < Suc n. f (nat ic + k)) = f (nat ic) + (\<Sum>k < n. f (nat (ic + 1) + k))" for f :: "nat \<Rightarrow> int"
    using Suc.prems(1) by (subst sum.lessThan_Suc_shift) (simp add: nat_add_distrib)
  let ?r = "\<Sum>k < n. \<bar>sint (c ! (nat (ic + 1) + k))\<bar>"
  have r0: "0 \<le> ?r" by (rule sum_nonneg) simp
  have bnd: "\<bar>sint y\<bar> + (\<bar>sint ?ck\<bar> + ?r) * 2147483648 < 9223372036854775808"
    using Suc.prems(4) sh [of "\<lambda>k. \<bar>sint (c ! k)\<bar>"] by simp
  have p: "\<bar>sint ?ck * sint ?dk\<bar> \<le> \<bar>sint ?ck\<bar> * 2147483648"
    using sint_range32 [of ?dk] by (intro abs_prod_bound) (simp_all add: abs_le_iff)
  have b1: "\<bar>sint y\<bar> + \<bar>sint ?ck\<bar> * 2147483648 < 9223372036854775808"
    using bnd r0 unfolding distrib_right by linarith
  have m: "sint (scast ?ck * scast ?dk :: s64) = sint ?ck * sint ?dk" by (rule sint_prod_32_32)
  let ?y = "y + scast ?ck * scast ?dk"
  have t: "\<bar>sint y + sint ?ck * sint ?dk\<bar> \<le> \<bar>sint y\<bar> + \<bar>sint ?ck\<bar> * 2147483648"
    using p abs_triangle_ineq [of "sint y" "sint ?ck * sint ?dk"] by linarith
  have y: "sint ?y = sint y + sint ?ck * sint ?dk"
    using t b1 m by (subst sint_add_fits) (simp_all add: abs_le_iff)
  have yb: "\<bar>sint ?y\<bar> \<le> \<bar>sint y\<bar> + \<bar>sint ?ck\<bar> * 2147483648" using t y by simp
  have "\<bar>sint ?y\<bar> + ?r * 2147483648 < 9223372036854775808" using yb bnd by (simp add: distrib_right)
  from Suc.IH [of "ic + 1" "idx - 1" ?y] this Suc.prems(1-3) obtain y' where
    y': "fir_part ?y n c (ic + 1) m d (idx - 1) = Some (y', ic + 1 + int n, idx - 1 - int n)"
    "sint y' = sint ?y + (\<Sum>k < n. sint (c ! (nat (ic + 1) + k)) * sint (s32_at m d (nat (idx - 1 - int k))))"
    "\<bar>sint y'\<bar> \<le> \<bar>sint ?y\<bar> + ?r * 2147483648" by auto
  have "(\<Sum>k < Suc n. sint (c ! (nat ic + k)) * sint (s32_at m d (nat (idx - int k))))
      = sint ?ck * sint ?dk + (\<Sum>k < n. sint (c ! (nat (ic + 1) + k)) * sint (s32_at m d (nat (idx - 1 - int k))))"
    using Suc.prems(1) by (subst sum.lessThan_Suc_shift) (simp add: nat_add_distrib diff_diff_eq)
  then have "sint y' = sint y + (\<Sum>k < Suc n. sint (c ! (nat ic + k)) * sint (s32_at m d (nat (idx - int k))))"
    using y'(2) y by simp
  moreover have "\<bar>sint y'\<bar> \<le> \<bar>sint y\<bar> + (\<Sum>k < Suc n. \<bar>sint (c ! (nat ic + k))\<bar>) * 2147483648"
    unfolding sh [of "\<lambda>k. \<bar>sint (c ! k)\<bar>"] using y'(3) yb by (simp add: distrib_right)
  moreover have "fir_part y (Suc n) c ic m d idx = Some (y', ic + int (Suc n), idx - int (Suc n))"
    using y'(1) by (simp only: fir_part.simps r bind.bind_lunit if_not_P [OF idx] ld) simp
  ultimately show ?case by blast
qed simp

text \<open>A subfilter whose newest sample is the history's element \<open>b\<close>.\<close>

lemma fir_filter_hist:
  assumes D: "0 \<le> wi" "wi < D" "int b + int n \<le> D" "0 < n" and ri: "fir_ri st = (wi - 1 - int b) mod D" "fir_delay_size st = D"
    and c: "k + n \<le> length cs" and sh: "- 23 \<le> sh" "sh \<le> 40"
    and bnd: "(\<Sum>l < n. \<bar>sint (cs ! (k + l))\<bar>) < 4294967296"
  shows "\<exists>ri'. fir_filter st cs (int k) (int n) sh m = Some (word_of_int (clamp INT32_MINVALUE INT32_MAXVALUE
      ((\<Sum>l < n. sint (cs ! (k + l)) * sint (ring_hist m (fir_delay st) D wi ! (b + l))) div 2 ^ nat (23 + sh))), int k + int n, ri')"
proof -
  let ?r = "fir_ri st" and ?d = "fir_delay st"
  have r: "0 \<le> ?r" "?r < D" using D ri by simp_all
  have hist: "ring_hist m ?d D wi ! (b + l) = s32_at m ?d (nat ((?r - int l) mod D))" if "l < n" for l
  proof -
    have "(?r - int l) mod D = (wi - 1 - int b - int l) mod D" unfolding ri(1) by (rule mod_diff_left_eq)
    then show ?thesis using that D by (simp add: ring_hist_def algebra_simps)
  qed
  let ?t = "\<lambda>l. sint (cs ! (k + l)) * sint (ring_hist m ?d D wi ! (b + l))"
  have "\<exists>y ri'. (if int n < ?r + 1 then fir_part 0 (nat (int n)) cs (int k) m ?d ?r
      else do { (y, ic, _) \<leftarrow> fir_part 0 (nat (?r + 1)) cs (int k) m ?d ?r;
                fir_part y (nat (int n - (?r + 1))) cs ic m ?d (fir_delay_size st - 1) }) = Some (y, int k + int n, ri') \<and>
      sint y = (\<Sum>l < n. ?t l)"
  proof (cases "int n < ?r + 1")
    case True
    from src_part_sum [of "int k" n cs ?r 0 m ?d] c bnd True obtain y where
      y: "fir_part 0 n cs (int k) m ?d ?r = Some (y, int k + int n, ?r - int n)"
      "sint y = (\<Sum>l < n. sint (cs ! (k + l)) * sint (s32_at m ?d (nat (?r - int l))))" by auto
    have "sint y = (\<Sum>l < n. ?t l)"
      unfolding y(2)
    proof (rule sum.cong [OF refl])
      fix l assume "l \<in> {..< n}"
      then have "l < n" "(?r - int l) mod D = ?r - int l" using tap_index [of ?r D "int l"] r True by auto
      then show "sint (cs ! (k + l)) * sint (s32_at m ?d (nat (?r - int l))) = ?t l" using hist by simp
    qed
    then show ?thesis using y(1) True by auto
  next
    case False
    define n1 where "n1 = nat (?r + 1)"
    define n2 where "n2 = n - n1"
    have n: "n = n1 + n2" "int n1 = ?r + 1" "nat (int n - (?r + 1)) = n2" using False r by (simp_all add: n1_def n2_def)
    have split: "(\<Sum>l < n. f l) = (\<Sum>l < n1. f l) + (\<Sum>l < n2. f (n1 + l))" for f :: "nat \<Rightarrow> int"
      unfolding n(1) by (rule sum_split [symmetric])
    have b2: "(\<Sum>l < n1. \<bar>sint (cs ! (k + l))\<bar>) + (\<Sum>l < n2. \<bar>sint (cs ! (k + (n1 + l)))\<bar>) < 4294967296"
      using bnd split [of "\<lambda>l. \<bar>sint (cs ! (k + l))\<bar>"] by simp
    have pos: "0 \<le> (\<Sum>l < n2. \<bar>sint (cs ! (k + (n1 + l)))\<bar>)" "0 \<le> (\<Sum>l < n1. \<bar>sint (cs ! (k + l))\<bar>)" by (rule sum_nonneg, simp)+
    have "(\<Sum>l < n1. \<bar>sint (cs ! (k + l))\<bar>) < 4294967296" using b2 pos(1) by linarith
    then have "(\<Sum>l < n1. \<bar>sint (cs ! (nat (int k) + l))\<bar>) * 2147483648 < 9223372036854775808" by simp
    from src_part_sum [of "int k" n1 cs ?r 0 m ?d] c this n obtain y1 where
      y1: "fir_part 0 n1 cs (int k) m ?d ?r = Some (y1, int k + int n1, ?r - int n1)"
      "sint y1 = (\<Sum>l < n1. sint (cs ! (k + l)) * sint (s32_at m ?d (nat (?r - int l))))"
      "\<bar>sint y1\<bar> \<le> (\<Sum>l < n1. \<bar>sint (cs ! (k + l))\<bar>) * 2147483648" by auto
    have e: "nat (int k + int n1) + l = k + (n1 + l)" for l by simp
    have "\<bar>sint y1\<bar> + (\<Sum>l < n2. \<bar>sint (cs ! (nat (int k + int n1) + l))\<bar>) * 2147483648 < 9223372036854775808"
      unfolding e using y1(3) b2 by simp
    from src_part_sum [of "int k + int n1" n2 cs "D - 1" y1 m ?d, OF _ _ _ this] c n D obtain y2 where
      y2: "fir_part y1 n2 cs (int k + int n1) m ?d (D - 1) = Some (y2, int k + int n1 + int n2, D - 1 - int n2)"
      "sint y2 = sint y1 + (\<Sum>l < n2. sint (cs ! (k + (n1 + l))) * sint (s32_at m ?d (nat (D - 1 - int l))))"
      unfolding e by auto
    have "(\<Sum>l < n1. sint (cs ! (k + l)) * sint (s32_at m ?d (nat (?r - int l)))) = (\<Sum>l < n1. ?t l)"
    proof (rule sum.cong [OF refl])
      fix l assume "l \<in> {..< n1}"
      then have l: "l < n" "int l \<le> ?r" using n by auto
      then have "(?r - int l) mod D = ?r - int l" using tap_index [of ?r D "int l"] r by simp
      then show "sint (cs ! (k + l)) * sint (s32_at m ?d (nat (?r - int l))) = ?t l" using hist [OF l(1)] by simp
    qed
    moreover have "(\<Sum>l < n2. sint (cs ! (k + (n1 + l))) * sint (s32_at m ?d (nat (D - 1 - int l)))) = (\<Sum>l < n2. ?t (n1 + l))"
    proof (rule sum.cong [OF refl])
      fix l assume "l \<in> {..< n2}"
      then have l: "n1 + l < n" "\<not> int (n1 + l) \<le> ?r" using n by auto
      have "int (n1 + l) < D" using l(1) D(3) by linarith
      then have "(?r - int (n1 + l)) mod D = D + ?r - int (n1 + l)" using tap_index [of ?r D "int (n1 + l)"] r l by simp
      also have "\<dots> = D - 1 - int l" using n(2) by simp
      finally show "sint (cs ! (k + (n1 + l))) * sint (s32_at m ?d (nat (D - 1 - int l))) = ?t (n1 + l)" using hist [OF l(1)] by simp
    qed
    ultimately have "sint y2 = (\<Sum>l < n. ?t l)" using y1(2) y2(2) split [of ?t] by simp
    moreover have "int k + int n1 + int n2 = int k + int n" using n(1) by simp
    ultimately show ?thesis
      using False unfolding n(3) n1_def [symmetric] y1(1) bind.bind_lunit prod.case ri(2) y2(1) by auto
  qed
  then obtain y ri' where y: "(if int n < ?r + 1 then fir_part 0 (nat (int n)) cs (int k) m ?d ?r
      else do { (y, ic, _) \<leftarrow> fir_part 0 (nat (?r + 1)) cs (int k) m ?d ?r;
                fir_part y (nat (int n - (?r + 1))) cs ic m ?d (fir_delay_size st - 1) }) = Some (y, int k + int n, ri')"
      "sint y = (\<Sum>l < n. ?t l)" by blast
  have g: "\<not> (23 + sh < 0 \<or> 63 < 23 + sh)" using sh by simp
  have "sat_int32 (signed_drop_bit (nat (23 + sh)) y) = word_of_int (clamp INT32_MINVALUE INT32_MAXVALUE ((\<Sum>l < n. ?t l) div 2 ^ nat (23 + sh)))"
    unfolding y(2) [symmetric] sint_shr [symmetric] sint_sat_int32 [symmetric] by simp
  then show ?thesis unfolding fir_filter_def Let_def y(1) bind.bind_lunit prod.case if_not_P [OF g] by blast
qed

text \<open>One store into the output line, seen from its read position.\<close>

lemma ring_from_store:
  assumes "fits d (nat sz * 4)" "0 \<le> i" "i < sz" "j < nat sz" "w = (i + int j) mod sz"
  shows "ring_from (store32 m (d + 4 * word_of_int w) v) d sz i = (ring_from m d sz i)[j := v]" (is "?l = ?r")
proof (rule nth_equalityI)
  fix k assume "k < length ?l"
  then have k: "k < nat sz" by simp
  have w: "0 \<le> w" "nat w < nat sz" using assms by simp_all
  have nk: "nat ((i + int k) mod sz) < nat sz" using assms by simp
  have same: "nat ((i + int k) mod sz) = nat w \<longleftrightarrow> k = j"
  proof -
    have "(i + int k) mod sz = w \<longleftrightarrow> k = j"
    proof
      assume "(i + int k) mod sz = w"
      then have "(int k - int j) mod sz = 0" unfolding assms(5) by (simp add: mod_eq_dvd_iff)
      then have d: "sz dvd int k - int j" by presburger
      show "k = j"
      proof (rule ccontr)
        assume "k \<noteq> j"
        then have "sz \<le> \<bar>int k - int j\<bar>" using d dvd_imp_le_int [of "int k - int j" sz] assms(3,2) by simp
        then show False using k assms(4) by linarith
      qed
    qed (simp add: assms(5))
    moreover have "0 \<le> (i + int k) mod sz" using assms(2,3) by simp
    ultimately show ?thesis using w(1) eq_nat_nat_iff by blast
  qed
  have "?l ! k = s32_at (store32 m (d + of_nat (nat w * 4)) v) d (nat ((i + int k) mod sz))"
    using k by (simp add: ring_from_def word_index [OF w(1)])
  also have "\<dots> = (if k = j then v else s32_at m d (nat ((i + int k) mod sz)))"
    unfolding s32_at_store [OF assms(1) nk w(2)] same ..
  also have "\<dots> = ?r ! k" using k by (auto simp: ring_from_def nth_list_update)
  finally show "?l ! k = ?r ! k" .
qed simp

lemma ring_from_rotate:
  assumes "0 < sz" "k \<le> nat sz"
  shows "ring_from m d sz ((i + int k) mod sz) = drop k (ring_from m d sz i) @ take k (ring_from m d sz i)" (is "?l = ?r")
proof (rule nth_equalityI)
  fix l assume "l < length ?l"
  then have l: "l < nat sz" by simp
  have "((i + int k) mod sz + int l) mod sz = (i + int (k + l)) mod sz" by (simp add: mod_simps algebra_simps)
  then have e: "?l ! l = s32_at m d (nat ((i + int (k + l)) mod sz))" using l by (simp add: ring_from_def)
  show "?l ! l = ?r ! l"
  proof (cases "k + l < nat sz")
    case True
    then have "l < nat sz - k" by simp
    then show ?thesis unfolding e using assms True by (simp add: nth_append ring_from_def)
  next
    case False
    then have "(i + int (k + l)) mod sz = (i + int (k + l - nat sz) + sz) mod sz" using assms(1) by simp
    then have "(i + int (k + l)) mod sz = (i + int (k + l - nat sz)) mod sz" by simp
    moreover have "k + l - nat sz < k" "l - (nat sz - k) = k + l - nat sz" "\<not> l < nat sz - k" using False l assms by simp_all
    ultimately show ?thesis unfolding e using assms l False by (simp add: nth_append ring_from_def)
  qed
qed (use assms in simp)

section \<open>One block\<close>

lemma place_step: "f < n \<Longrightarrow> place g h [f ..< n] u = place g h [Suc f ..< n] (u[f * nat (odm g) := poly_out g h f])"
  by (simp add: place_def upt_conv_Cons)

lemma place_length [simp]: "length (place g h fs u) = length u"
  unfolding place_def by (induction fs arbitrary: u) simp_all

lemma poly_out_ring:
  assumes g: "stage_ok g" and D: "0 \<le> wi" "wi < src_fir_delay_length g" and f: "f < nat (num_of_subfilters g)"
    and st: "fir_ri st = (wi - 1 - int (newest g f)) mod src_fir_delay_length g" "fir_delay_size st = src_fir_delay_length g"
  shows "\<exists>ri'. fir_filter st (coefs g) (int (f * nat (subfilter_length g))) (subfilter_length g) (shift g) m =
    Some (poly_out g (ring_hist m (fir_delay st) (src_fir_delay_length g) wi) f, int (Suc f * nat (subfilter_length g)), ri')"
proof -
  note ok = stage_okD [OF g]
  let ?L = "nat (subfilter_length g)"
  have L: "int ?L = subfilter_length g" using ok(2) by simp
  have "int (newest g f) + int ?L \<le> src_fir_delay_length g"
  proof -
    have "int ((nat (num_of_subfilters g) - 1 - f) * nat (idm g)) \<le> (num_of_subfilters g - 1) * idm g"
      using ok(1,3) f by (simp add: mult_right_mono)
    then show ?thesis using ok(2,5) by (simp add: newest_def src_fir_delay_length_def)
  qed
  moreover have "f * ?L + ?L \<le> length (coefs g)"
    using f ok(9) mult_le_mono1 [of "Suc f" "nat (num_of_subfilters g)" ?L] by simp
  ultimately show ?thesis
    using fir_filter_hist [of wi "src_fir_delay_length g" "newest g f" ?L st "f * ?L" "coefs g" "shift g" m] D st ok f
    unfolding poly_out_def poly_sum_def by (simp add: L add.commute)
qed

text \<open>The loop over the subfilters, from subfilter \<open>f\<close> on.\<close>

lemma filter_loop_place:
  assumes g: "stage_ok g" and D: "0 \<le> fir_wi st" "fir_wi st < D" "D = src_fir_delay_length g" "fir_delay_size st = D"
    and ol: "0 \<le> i" "i < ol" "ol = src_out_delay_length g" "out_delay_size st = ol"
    and fd: "fits (fir_delay st) (nat D * 4)" and od: "fits (out_delay st) (nat ol * 4)"
    and dj: "region (fir_delay st) (nat D * 4) \<inter> region (out_delay st) (nat ol * 4) = {}"
    and f: "f + k = nat (num_of_subfilters g)"
    and r: "0 < k \<longrightarrow> r = (fir_wi st - 1 - int (newest g f)) mod D \<and> out_wi st = (i + int (f * nat (odm g))) mod ol"
  shows "\<exists>a b m'. filter_loop g k (int (f * nat (subfilter_length g))) r st m = Some (st\<lparr>fir_ri := a, out_wi := b\<rparr>, m') \<and>
    ring_from m' (out_delay st) ol i = place g (ring_hist m (fir_delay st) D (fir_wi st)) [f ..< nat (num_of_subfilters g)] (ring_from m (out_delay st) ol i) \<and>
    (\<forall>x. unat x \<notin> region (out_delay st) (nat ol * 4) \<longrightarrow> m' x = m x)"
  using D(4) ol(4) fd od dj D(1,2) f r
proof (induction k arbitrary: f r st m)
  case 0
  have "filter_loop g 0 (int (f * nat (subfilter_length g))) r st m = Some (st\<lparr>fir_ri := fir_ri st, out_wi := out_wi st\<rparr>, m)" by simp
  then show ?case using 0 by (intro exI [of _ "fir_ri st"] exI [of _ "out_wi st"] exI [of _ m]) (simp add: place_def)
next
  case (Suc k)
  note ok = stage_okD [OF g]
  let ?n = "nat (num_of_subfilters g)" and ?h = "ring_hist m (fir_delay st) D (fir_wi st)"
  have r: "r = (fir_wi st - 1 - int (newest g f)) mod D" "out_wi st = (i + int (f * nat (odm g))) mod ol" and fn: "f < ?n"
    using Suc.prems(8,9) by simp_all
  have pos: "0 < D" "0 < ol" using D ol by simp_all
  obtain ri' where ff: "fir_filter (st\<lparr>fir_ri := r\<rparr>) (coefs g) (int (f * nat (subfilter_length g))) (subfilter_length g) (shift g) m
      = Some (poly_out g ?h f, int (Suc f * nat (subfilter_length g)), ri')"
    using poly_out_ring [OF g, of "fir_wi st" f "st\<lparr>fir_ri := r\<rparr>" m] Suc.prems r(1) fn D(3) by auto
  have w: "0 \<le> out_wi st" "out_wi st < ol" using r(2) pos by simp_all
  define r2 where "r2 = (if D - 1 < r + idm g then r + idm g - D else r + idm g)"
  define w2 where "w2 = (if ol - 1 < out_wi st + odm g then out_wi st + odm g - ol else out_wi st + odm g)"
  define m2 where "m2 = store32 m (out_delay st + 4 * word_of_int (out_wi st)) (poly_out g ?h f)"
  let ?st = "st\<lparr>fir_ri := ri', out_wi := w2\<rparr>"
  have step: "filter_loop g (Suc k) (int (f * nat (subfilter_length g))) r st m = filter_loop g k (int (Suc f * nat (subfilter_length g))) r2 ?st m2"
    using ff w Suc.prems(1,2) by (simp add: r2_def w2_def m2_def)
  have nxt: "0 < k \<longrightarrow> r2 = (fir_wi ?st - 1 - int (newest g (Suc f))) mod D \<and> out_wi ?st = (i + int (Suc f * nat (odm g))) mod ol"
  proof
    assume "0 < k"
    then have k: "Suc f < ?n" using Suc.prems(8) by simp
    then have n2: "2 \<le> num_of_subfilters g" by simp
    have "1 * idm g \<le> (num_of_subfilters g - 1) * idm g" by (intro mult_right_mono) (use n2 ok(3) in simp_all)
    then have di: "idm g < D" using ok(2,5) by (simp add: D(3) src_fir_delay_length_def)
    have "1 * odm g \<le> (num_of_subfilters g - 1) * odm g" by (intro mult_right_mono) (use n2 ok(4) in simp_all)
    then have oi: "odm g < ol" by (simp add: ol(3) src_out_delay_length_def)
    have "int (newest g f) = int (newest g (Suc f)) + idm g"
    proof -
      have "?n - 1 - f = Suc (?n - 1 - Suc f)" using k by simp
      then show ?thesis using ok(3) by (simp add: newest_def)
    qed
    then have "(fir_wi st - 1 - int (newest g (Suc f))) mod D = (r + idm g) mod D" unfolding r(1) by (simp add: mod_simps algebra_simps)
    also have "\<dots> = r2"
    proof -
      have "0 \<le> r" "r < D" using r(1) pos by simp_all
      then show ?thesis using di ok(3) mod_pos_pos_trivial [of "r + idm g - D" D] by (simp add: r2_def)
    qed
    finally have 1: "r2 = (fir_wi st - 1 - int (newest g (Suc f))) mod D" ..
    have "(i + int (Suc f * nat (odm g))) mod ol = (out_wi st + odm g) mod ol" unfolding r(2) using ok(4) by (simp add: mod_simps algebra_simps)
    also have "\<dots> = w2" using w oi ok(4) mod_pos_pos_trivial [of "out_wi st + odm g - ol" ol] by (simp add: w2_def)
    finally show "r2 = (fir_wi ?st - 1 - int (newest g (Suc f))) mod D \<and> out_wi ?st = (i + int (Suc f * nat (odm g))) mod ol" using 1 by simp
  qed
  have m2: "\<forall>x. unat x \<notin> region (out_delay st) (nat ol * 4) \<longrightarrow> m2 x = m x"
  proof -
    have "nat (out_wi st) < nat ol" using w by simp
    then show ?thesis unfolding m2_def word_index [OF w(1)] using store_outside [OF Suc.prems(4)] by blast
  qed
  have h: "ring_hist m2 (fir_delay st) D (fir_wi st) = ?h"
    using Suc.prems(5) m2 by (intro ring_cong(2) [OF Suc.prems(3) pos(1)]) blast
  have fo: "f * nat (odm g) < nat ol"
  proof -
    have "int (f * nat (odm g)) \<le> (num_of_subfilters g - 1) * odm g" using fn ok(1,4) by (simp add: mult_right_mono)
    then have "int (f * nat (odm g)) < ol" unfolding ol(3) src_out_delay_length_def by linarith
    then show ?thesis by linarith
  qed
  have u: "ring_from m2 (out_delay st) ol i = (ring_from m (out_delay st) ol i)[f * nat (odm g) := poly_out g ?h f]"
    unfolding m2_def by (rule ring_from_store [OF Suc.prems(4) ol(1,2) fo r(2)])
  obtain a b m' where ih: "filter_loop g k (int (Suc f * nat (subfilter_length g))) r2 ?st m2 = Some (?st\<lparr>fir_ri := a, out_wi := b\<rparr>, m')"
    "ring_from m' (out_delay st) ol i = place g ?h [Suc f ..< ?n] (ring_from m2 (out_delay st) ol i)"
    "\<forall>x. unat x \<notin> region (out_delay st) (nat ol * 4) \<longrightarrow> m' x = m2 x"
    using Suc.IH [of ?st "Suc f" r2 m2] Suc.prems nxt h by auto
  show ?case unfolding step ih(1) using ih(2,3) m2 u place_step [OF fn, of g ?h] by auto
qed

text \<open>
  The call of a stage: the cursors are inside their buffers and aligned with their ends, and the
  delay lines are disjoint from each other and from both buffers.
\<close>

definition prm_ok :: "src_stage_prm \<Rightarrow> bool" where
  "prm_ok s \<longleftrightarrow> (let st = prm_state s; g = prm_stage s; D = src_fir_delay_length g; ol = src_out_delay_length g;
       fd = region (fir_delay st) (nat D * 4); od = region (out_delay st) (nat ol * 4);
       ax = area (x_end_addr s) (x_size s); ay = area (y_end_addr s) (y_size s) in
     stage_ok g \<and> fir_delay_size st = D \<and> out_delay_size st = ol \<and> 0 < x_inc s \<and> 0 < y_inc s \<and>
     cursor_ok (nat (x_inc s)) D (x_end_addr s) (x_size s) (fir_wi st) (x_rptr s) \<and>
     cursor_ok (nat (y_inc s)) ol (y_end_addr s) (y_size s) (out_ri st) (y_wptr s) \<and>
     fits (fir_delay st) (nat D * 4) \<and> fits (out_delay st) (nat ol * 4) \<and>
     fd \<inter> od = {} \<and> ax \<inter> fd = {} \<and> ax \<inter> od = {} \<and> ay \<inter> fd = {} \<and> ay \<inter> od = {} \<and> ax \<inter> ay = {})"

definition lines :: "src_stage_prm \<Rightarrow> mem \<Rightarrow> stage_lines" where
  "lines s m = (let st = prm_state s in
     (ring_hist m (fir_delay st) (fir_delay_size st) (fir_wi st), ring_from m (out_delay st) (out_delay_size st) (out_ri st)))"

definition inputs :: "src_stage_prm \<Rightarrow> mem \<Rightarrow> nat \<Rightarrow> s32 list" where
  "inputs s m k = read_circ (nat (x_inc s)) (x_end_addr s) (x_size s) m (x_rptr s) k"

definition outputs :: "src_stage_prm \<Rightarrow> s32 list \<Rightarrow> mem \<Rightarrow> mem" where
  "outputs s ys = write_circ (nat (y_inc s)) (y_end_addr s) (y_size s) (y_wptr s) ys"

definition x_after :: "src_stage_prm \<Rightarrow> nat \<Rightarrow> u32" where
  "x_after s k = (adv (nat (x_inc s)) (x_end_addr s) (x_size s) ^^ k) (x_rptr s)"

definition y_after :: "src_stage_prm \<Rightarrow> nat \<Rightarrow> u32" where
  "y_after s k = (adv (nat (y_inc s)) (y_end_addr s) (y_size s) ^^ k) (y_wptr s)"

definition scratch_of :: "src_stage_prm \<Rightarrow> nat set" where
  "scratch_of s = region (fir_delay (prm_state s)) (nat (fir_delay_size (prm_state s)) * 4) \<union>
     region (out_delay (prm_state s)) (nat (out_delay_size (prm_state s)) * 4)"

lemma write_circ_agree: "m x = m' x \<Longrightarrow> write_circ N e psize p vs m x = write_circ N e psize p vs m' x"
proof (induction vs arbitrary: p m m')
  case (Cons v vs)
  have "store32 m p v x = store32 m' p v x" using Cons.prems by (simp add: store32_def)
  then show ?case unfolding write_circ.simps by (rule Cons.IH)
qed simp

lemma out_length:
  assumes "stage_ok g"
  shows "nat (num_of_subfilters g) \<le> nat (src_out_delay_length g)"
proof (cases "num_of_subfilters g = 1")
  case False
  note ok = stage_okD [OF assms]
  have "(num_of_subfilters g - 1) * 1 \<le> (num_of_subfilters g - 1) * odm g"
    by (rule mult_left_mono) (use ok False in simp_all)
  then show ?thesis by (simp add: src_out_delay_length_def)
qed (simp add: src_out_delay_length_def)

lemma stage_block_ref:
  assumes s: "prm_ok s" and g: "g = prm_stage s" and fuel: "nat (blk_in g) < fuel" "nat (num_of_subfilters g) < fuel"
    and r: "ref_block g (lines s m) (inputs s m (nat (blk_in g))) = (ys, hu)"
  shows "\<exists>s' m'. stage_block fuel s m = Some (s', m') \<and> prm_ok s' \<and> lines s' m' = hu \<and>
    (\<exists>a b c d. s' = s\<lparr>x_rptr := x_after s (nat (blk_in g)), y_wptr := y_after s (nat (num_of_subfilters g)),
       prm_state := (prm_state s)\<lparr>fir_wi := a, fir_ri := b, out_wi := c, out_ri := d\<rparr>\<rparr>) \<and>
    (\<forall>x. unat x \<notin> scratch_of s \<longrightarrow> m' x = outputs s ys m x)"
proof -
  let ?st = "prm_state s" and ?b = "nat (blk_in g)" and ?n = "nat (num_of_subfilters g)"
  define D where "D = src_fir_delay_length g"
  define ol where "ol = src_out_delay_length g"
  note ok = s [unfolded prm_ok_def Let_def, folded g, folded D_def ol_def]
  have G: "stage_ok g" and sz: "fir_delay_size ?st = D" "out_delay_size ?st = ol" and inc: "0 < x_inc s" "0 < y_inc s"
    and cx: "cursor_ok (nat (x_inc s)) D (x_end_addr s) (x_size s) (fir_wi ?st) (x_rptr s)"
    and cy: "cursor_ok (nat (y_inc s)) ol (y_end_addr s) (y_size s) (out_ri ?st) (y_wptr s)"
    and fd: "fits (fir_delay ?st) (nat D * 4)" and od: "fits (out_delay ?st) (nat ol * 4)"
    and dj: "region (fir_delay ?st) (nat D * 4) \<inter> region (out_delay ?st) (nat ol * 4) = {}"
      "area (y_end_addr s) (y_size s) \<inter> region (fir_delay ?st) (nat D * 4) = {}"
      "area (y_end_addr s) (y_size s) \<inter> region (out_delay ?st) (nat ol * 4) = {}"
      "area (x_end_addr s) (x_size s) \<inter> region (fir_delay ?st) (nat D * 4) = {}"
    using ok by blast+
  note gk = stage_okD [OF G]
  have pos: "0 < D" "0 < ol" using cx cy by (simp_all add: cursor_ok_def)
  have kx: "x_inc s * blk_in g = int (nat (x_inc s) * ?b)" and ky: "y_inc s * num_of_subfilters g = int (nat (y_inc s) * ?n)"
    using inc gk by simp_all
  let ?xs = "inputs s m ?b"
  obtain wi m1 where in1: "(one_move (copy_in (fir_delay ?st)) (nat (x_inc s)) D (x_end_addr s) (x_size s) ^^ ?b) (fir_wi ?st, x_rptr s, m)
      = (wi, x_after s ?b, m1)" "cursor_ok (nat (x_inc s)) D (x_end_addr s) (x_size s) wi (x_after s ?b)"
      "ring_hist m1 (fir_delay ?st) D wi = take (nat D) (rev ?xs @ ring_hist m (fir_delay ?st) D (fir_wi ?st))"
      "\<forall>a. unat a \<notin> region (fir_delay ?st) (nat D * 4) \<longrightarrow> m1 a = m a"
    using in_steps [OF cx fd, of ?b m] ok unfolding x_after_def inputs_def by blast
  have mv1: "move_loop (copy_in (fir_delay ?st)) fuel (x_inc s) D (x_end_addr s) (x_size s) (x_inc s * blk_in g) (fir_wi ?st, x_rptr s, m)
      = Some (wi, x_after s ?b, m1)"
    using move_loop_steps [OF cx fuel(1), of "copy_in (fir_delay ?st)" m] inc unfolding kx by (simp add: in1(1))
  define h where "h = ring_hist m1 (fir_delay ?st) D wi"
  have wi: "0 \<le> wi" "wi < D" using in1(2) by (simp_all add: cursor_ok_def)
  define r0 where "r0 = (if wi - blk_in g - (num_of_subfilters g - 1) * idm g < 0 then wi - blk_in g - (num_of_subfilters g - 1) * idm g + D
      else wi - blk_in g - (num_of_subfilters g - 1) * idm g)"
  let ?st1 = "?st\<lparr>fir_wi := wi, out_wi := out_ri ?st\<rparr>"
  have r0: "r0 = (wi - 1 - int (newest g 0)) mod D"
  proof -
    have "int (newest g 0) = blk_in g - 1 + (num_of_subfilters g - 1) * idm g" using gk by (simp add: newest_def)
    then have e: "wi - 1 - int (newest g 0) = wi - blk_in g - (num_of_subfilters g - 1) * idm g" by simp
    define q where "q = wi - blk_in g - (num_of_subfilters g - 1) * idm g"
    have "0 \<le> (num_of_subfilters g - 1) * idm g" by (rule mult_nonneg_nonneg) (use gk in simp_all)
    then have "- D \<le> q" "q < D" using wi gk(2,5) unfolding q_def D_def src_fir_delay_length_def by linarith+
    then have "(if q < 0 then q + D else q) = q mod D" using mod_pos_pos_trivial [of "q + D" D] mod_pos_pos_trivial [of q D] by simp
    then show ?thesis unfolding e r0_def q_def .
  qed
  have ori: "0 \<le> out_ri ?st" "out_ri ?st < ol" using cy by (simp_all add: cursor_ok_def)
  obtain a b m2 where fl: "filter_loop g ?n 0 r0 ?st1 m1 = Some (?st1\<lparr>fir_ri := a, out_wi := b\<rparr>, m2)"
    "ring_from m2 (out_delay ?st) ol (out_ri ?st) = place g h [0 ..< ?n] (ring_from m1 (out_delay ?st) ol (out_ri ?st))"
    "\<forall>x. unat x \<notin> region (out_delay ?st) (nat ol * 4) \<longrightarrow> m2 x = m1 x"
    using filter_loop_place [OF G, of ?st1 D "out_ri ?st" ol 0 ?n r0 m1] wi D_def ol_def sz ori fd od ok r0 unfolding h_def by auto
  define u where "u = ring_from m2 (out_delay ?st) ol (out_ri ?st)"
  have u: "u = place g h [0 ..< ?n] (ring_from m (out_delay ?st) ol (out_ri ?st))"
  proof -
    have "ring_from m1 (out_delay ?st) ol (out_ri ?st) = ring_from m (out_delay ?st) ol (out_ri ?st)"
      using in1(4) dj(1) by (intro ring_cong(1) [OF od pos(2)]) blast
    then show ?thesis unfolding u_def fl(2) by simp
  qed
  have nl: "?n \<le> nat ol" unfolding ol_def by (rule out_length [OF G])
  obtain ri m3 where o: "(one_move (copy_out (out_delay ?st)) (nat (y_inc s)) ol (y_end_addr s) (y_size s) ^^ ?n) (out_ri ?st, y_wptr s, m2)
      = (ri, y_after s ?n, m3)" "ri = (out_ri ?st + int ?n) mod ol" "cursor_ok (nat (y_inc s)) ol (y_end_addr s) (y_size s) ri (y_after s ?n)"
      "m3 = outputs s (take ?n u) m2" "\<forall>a. unat a \<notin> area (y_end_addr s) (y_size s) \<longrightarrow> m3 a = m2 a"
    using out_steps [OF cy od _ nl, of m2] ok unfolding y_after_def outputs_def u_def by blast
  have mv2: "move_loop (copy_out (out_delay ?st)) fuel (y_inc s) ol (y_end_addr s) (y_size s) (y_inc s * num_of_subfilters g) (out_ri ?st, y_wptr s, m2)
      = Some (ri, y_after s ?n, m3)"
    using move_loop_steps [OF cy fuel(2), of "copy_out (out_delay ?st)" m2] inc unfolding ky by (simp add: o(1))
  let ?s = "s\<lparr>x_rptr := x_after s ?b, y_wptr := y_after s ?n, prm_state := ?st\<lparr>fir_wi := wi, fir_ri := a, out_wi := b, out_ri := ri\<rparr>\<rparr>"
  have 1: "stage_block fuel s m = Some (?s, m3)"
    unfolding stage_block_def Let_def g [symmetric] sz mv1 bind.bind_lunit prod.case using fl(1) mv2 sz
    by (cases "wi - blk_in g < (num_of_subfilters g - 1) * idm g") (simp_all add: r0_def)
  have 2: "prm_ok ?s" using ok in1(2) o(3) unfolding prm_ok_def Let_def by (simp add: g [symmetric] D_def [symmetric] ol_def [symmetric])
  have h3: "ring_hist m3 (fir_delay ?st) D wi = h"
  proof -
    have "m3 x = m1 x" if "unat x \<in> region (fir_delay ?st) (nat D * 4)" for x
      using that o(5) fl(3) dj(1,2) by (metis disjoint_iff)
    then show ?thesis unfolding h_def by (intro ring_cong(2) [OF fd pos(1)])
  qed
  have u3: "ring_from m3 (out_delay ?st) ol ri = drop ?n u @ take ?n u"
  proof -
    have "ring_from m3 (out_delay ?st) ol ri = ring_from m2 (out_delay ?st) ol ri"
      using o(5) dj(3) by (intro ring_cong(1) [OF od pos(2)]) blast
    then show ?thesis unfolding o(2) u_def by (simp only: ring_from_rotate [OF pos(2) nl])
  qed
  have rb: "(ys, hu) = (take ?n u, (h, drop ?n u @ take ?n u))"
    using r unfolding ref_block_def Let_def lines_def fst_conv snd_conv sz D_def [symmetric] in1(3) [folded h_def, symmetric] u [symmetric] by (rule sym)
  have "lines ?s m3 = (h, drop ?n u @ take ?n u)" using h3 u3 sz by (simp add: lines_def)
  then have 3: "lines ?s m3 = hu" using arg_cong [OF rb, of snd] by (simp only: snd_conv)
  have 4: "\<forall>x. unat x \<notin> scratch_of s \<longrightarrow> m3 x = outputs s ys m x"
  proof (intro allI impI)
    fix x :: u32 assume "unat x \<notin> scratch_of s"
    then have "m2 x = m x" using fl(3) in1(4) unfolding scratch_of_def sz by simp
    then have "outputs s ys m2 x = outputs s ys m x" unfolding outputs_def by (rule write_circ_agree)
    then show "m3 x = outputs s ys m x" using o(4) rb by simp
  qed
  show ?thesis using 1 2 3 4 by blast
qed

section \<open>All blocks\<close>

lemma write_circ_outside:
  assumes "cursor_ok N sz e psize i p" "unat x \<notin> area e psize"
  shows "write_circ N e psize p vs m x = m x"
  using assms
proof (induction vs arbitrary: i p m)
  case (Cons v vs)
  have "unat x \<notin> region p 4" using Cons.prems cursor_area(2) by blast
  then have "store32 m p v x = m x" by (rule store32_other [OF cursor_area(1) [OF Cons.prems(1)]])
  then show ?case using Cons.IH [OF adv_ok [OF Cons.prems(1)] Cons.prems(2)] by simp
qed simp

lemma read_circ_cong:
  assumes "cursor_ok N sz e psize i p" "\<And>x. unat x \<in> area e psize \<Longrightarrow> m' x = m x"
  shows "read_circ N e psize m' p k = read_circ N e psize m p k"
proof -
  have c: "\<exists>i. cursor_ok N sz e psize i ((adv N e psize ^^ t) p)" for t
    by (induction t) (use assms(1) adv_ok in fastforce)+
  have "load32 m' ((adv N e psize ^^ t) p) = load32 m ((adv N e psize ^^ t) p)" for t
  proof -
    obtain i' where "cursor_ok N sz e psize i' ((adv N e psize ^^ t) p)" using c by blast
    then show ?thesis using cursor_area assms(2) by (intro load32_cong) blast+
  qed
  then show ?thesis by (simp add: read_circ_def)
qed

lemma read_circ_add:
  "read_circ N e psize m p (a + b) = read_circ N e psize m p a @ read_circ N e psize m ((adv N e psize ^^ a) p) b"
proof -
  have "[0 ..< a + b] = [0 ..< a] @ map (\<lambda>t. t + a) [0 ..< b]"
    using upt_add_eq_append [of 0 a b] by (simp add: map_add_upt add.commute)
  moreover have "(adv N e psize ^^ (t + a)) p = (adv N e psize ^^ t) ((adv N e psize ^^ a) p)" for t
    by (simp add: funpow_add)
  ultimately show ?thesis by (simp add: read_circ_def del: upt_Suc)
qed

lemma length_inputs [simp]: "length (inputs s m k) = k"
  by (simp add: inputs_def read_circ_def)

lemma prm_okD:
  assumes "prm_ok s"
  shows "\<exists>i. cursor_ok (nat (x_inc s)) (src_fir_delay_length (prm_stage s)) (x_end_addr s) (x_size s) i (x_rptr s)"
    "\<exists>i. cursor_ok (nat (y_inc s)) (src_out_delay_length (prm_stage s)) (y_end_addr s) (y_size s) i (y_wptr s)"
    "area (x_end_addr s) (x_size s) \<inter> area (y_end_addr s) (y_size s) = {}"
    "area (x_end_addr s) (x_size s) \<inter> scratch_of s = {}"
    "stage_ok (prm_stage s)"
  using assms unfolding prm_ok_def Let_def scratch_of_def by auto

text \<open>What a stage changes of its call: the two pointers and the indices into its delay lines.\<close>

definition same_call :: "src_stage_prm \<Rightarrow> src_stage_prm \<Rightarrow> bool" where
  "same_call s s' \<longleftrightarrow> (\<exists>x y a b c d. s' = s\<lparr>x_rptr := x, y_wptr := y,
     prm_state := (prm_state s)\<lparr>fir_wi := a, fir_ri := b, out_wi := c, out_ri := d\<rparr>\<rparr>)"

lemma same_call_refl: "same_call s s"
  unfolding same_call_def
  by (intro exI [of _ "x_rptr s"] exI [of _ "y_wptr s"] exI [of _ "fir_wi (prm_state s)"] exI [of _ "fir_ri (prm_state s)"]
      exI [of _ "out_wi (prm_state s)"] exI [of _ "out_ri (prm_state s)"]) simp

lemma same_call_trans: "same_call s s' \<Longrightarrow> same_call s' s'' \<Longrightarrow> same_call s s''"
  unfolding same_call_def by force

lemma stage_blocks_ref:
  assumes "prm_ok s" "g = prm_stage s" "nat (blk_in g) < fuel" "nat (num_of_subfilters g) < fuel"
    and "ref_blocks g k (lines s m) (inputs s m (k * nat (blk_in g))) = (ys, hu)"
  shows "\<exists>s' m'. stage_blocks fuel k s m = Some (s', m') \<and> prm_ok s' \<and> lines s' m' = hu \<and>
    x_rptr s' = x_after s (k * nat (blk_in g)) \<and> y_wptr s' = y_after s (k * nat (num_of_subfilters g)) \<and>
    (\<forall>x. unat x \<notin> scratch_of s \<longrightarrow> m' x = outputs s ys m x) \<and> same_call s s'"
  using assms
proof (induction k arbitrary: s m ys)
  case 0
  then show ?case by (simp add: outputs_def x_after_def y_after_def same_call_refl)
next
  case (Suc k)
  let ?b = "nat (blk_in g)" and ?n = "nat (num_of_subfilters g)"
  note P = prm_okD [OF Suc.prems(1)]
  have split: "inputs s m (Suc k * ?b) = inputs s m ?b @ read_circ (nat (x_inc s)) (x_end_addr s) (x_size s) m (x_after s ?b) (k * ?b)"
    using read_circ_add [of "nat (x_inc s)" "x_end_addr s" "x_size s" m "x_rptr s" ?b "k * ?b"] by (simp add: inputs_def x_after_def)
  obtain y1 hu1 where b1: "ref_block g (lines s m) (inputs s m ?b) = (y1, hu1)" by (rule prod.exhaust)
  obtain s1 m1 a b c d where st: "stage_block fuel s m = Some (s1, m1)" "prm_ok s1" "lines s1 m1 = hu1"
    "s1 = s\<lparr>x_rptr := x_after s ?b, y_wptr := y_after s ?n, prm_state := (prm_state s)\<lparr>fir_wi := a, fir_ri := b, out_wi := c, out_ri := d\<rparr>\<rparr>"
    "\<forall>x. unat x \<notin> scratch_of s \<longrightarrow> m1 x = outputs s y1 m x"
    using stage_block_ref [OF Suc.prems(1-4) b1] by blast
  have fr: "prm_stage s1 = g" "x_rptr s1 = x_after s ?b" "y_wptr s1 = y_after s ?n" "x_inc s1 = x_inc s" "y_inc s1 = y_inc s"
    "x_end_addr s1 = x_end_addr s" "y_end_addr s1 = y_end_addr s" "x_size s1 = x_size s" "y_size s1 = y_size s" "scratch_of s1 = scratch_of s"
    unfolding st(4) scratch_of_def using Suc.prems(2) by simp_all
  have same: "m1 x = m x" if "unat x \<in> area (x_end_addr s) (x_size s)" for x :: u32
  proof -
    obtain i where i: "cursor_ok (nat (y_inc s)) (src_out_delay_length (prm_stage s)) (y_end_addr s) (y_size s) i (y_wptr s)" using P(2) by blast
    have "unat x \<notin> scratch_of s" "unat x \<notin> area (y_end_addr s) (y_size s)" using that P(3,4) by blast+
    then show ?thesis using st(5) write_circ_outside [OF i] by (simp add: outputs_def)
  qed
  have in1: "inputs s1 m1 (k * ?b) = drop ?b (inputs s m (Suc k * ?b))"
  proof -
    obtain i where "cursor_ok (nat (x_inc s1)) (src_fir_delay_length (prm_stage s1)) (x_end_addr s1) (x_size s1) i (x_rptr s1)"
      using prm_okD(1) [OF st(2)] by blast
    then have "inputs s1 m1 (k * ?b) = inputs s1 m (k * ?b)" unfolding inputs_def
      using same by (intro read_circ_cong) (simp_all add: fr)
    also have "\<dots> = read_circ (nat (x_inc s)) (x_end_addr s) (x_size s) m (x_after s ?b) (k * ?b)" by (simp add: inputs_def fr)
    also have "\<dots> = drop ?b (inputs s m (Suc k * ?b))" unfolding split drop_append by simp
    finally show ?thesis .
  qed
  obtain y2 hu2 where b2: "ref_blocks g k (lines s1 m1) (inputs s1 m1 (k * ?b)) = (y2, hu2)" by (rule prod.exhaust)
  have ys: "ys = y1 @ y2" "hu2 = hu"
  proof -
    have "take ?b (inputs s m (Suc k * ?b)) = inputs s m ?b" unfolding split by simp
    then show "ys = y1 @ y2" "hu2 = hu" using Suc.prems(5) b1 b2 st(3) by (simp_all add: in1)
  qed
  obtain s2 m2 where ih: "stage_blocks fuel k s1 m1 = Some (s2, m2)" "prm_ok s2" "lines s2 m2 = hu"
    "x_rptr s2 = x_after s1 (k * ?b)" "y_wptr s2 = y_after s1 (k * ?n)" "\<forall>x. unat x \<notin> scratch_of s1 \<longrightarrow> m2 x = outputs s1 y2 m1 x"
    "same_call s1 s2"
    using Suc.IH [OF st(2) fr(1) [symmetric] Suc.prems(3,4) b2 [unfolded ys(2)]] by blast
  have len: "length y1 = ?n"
    using b1 out_length [OF P(5)] Suc.prems(1,2) by (auto simp: ref_block_def Let_def lines_def prm_ok_def)
  have "m2 x = outputs s ys m x" if "unat x \<notin> scratch_of s" for x :: u32
  proof -
    have "m1 x = outputs s y1 m x" using st(5) that by blast
    then have "outputs s1 y2 m1 x = outputs s1 y2 (outputs s y1 m) x" unfolding outputs_def by (rule write_circ_agree)
    also have "\<dots> = outputs s ys m x" unfolding outputs_def ys(1) write_circ_append len by (simp add: fr y_after_def)
    finally show ?thesis using ih(6) that fr by simp
  qed
  moreover have "x_rptr s2 = x_after s (Suc k * ?b)" "y_wptr s2 = y_after s (Suc k * ?n)"
    unfolding ih(4,5) x_after_def y_after_def fr by (simp_all add: funpow_add [symmetric, THEN fun_cong, unfolded o_apply] add.commute)
  moreover have "same_call s s2"
    using ih(7) same_call_trans [of s s1 s2] unfolding st(4) by (auto simp: same_call_def)
  ultimately show ?case using st(1) ih by simp
qed

text \<open>
  C6: \<open>src_polyphase_stage_cir\<close> is the polyphase filter bank: it returns with \<open>times\<close> blocks of inputs
  consumed and their outputs, those of \<open>ref_blocks\<close> on the delay lines' contents, stored one after
  the other at the write pointer of the circular buffer, and changes nothing else but its delay lines.
\<close>
theorem src_stage_ref:
  assumes "prm_ok s" "g = prm_stage s" "nat (blk_in g) < fuel" "nat (num_of_subfilters g) < fuel" "k = nat (times s)"
    and "ref_blocks g k (lines s m) (inputs s m (k * nat (blk_in g))) = (ys, hu)"
  shows "\<exists>s' m'. src_polyphase_stage_cir fuel s m = Some (s', m') \<and> lines s' m' = hu \<and>
    x_rptr s' = x_after s (k * nat (blk_in g)) \<and> y_wptr s' = y_after s (k * nat (num_of_subfilters g)) \<and>
    (\<forall>x. unat x \<notin> scratch_of s \<longrightarrow> m' x = outputs s ys m x)"
  using stage_blocks_ref [OF assms(1-4,6)] assms(5) unfolding src_polyphase_stage_cir_def by blast

text \<open>Two subfilters of two taps, upsampling by two; both circular buffers wrap.\<close>

definition demo_stage :: src_stage where
  "demo_stage = \<lparr>idm = 1, odm = 1, num_of_subfilters = 2, subfilter_length = 2, filter_length = 4, blk_in = 1, blk_out = 2,
     halfband = 0, shift = 0, coefs = [8388608, 4194304, 4194304, 8388608]\<rparr>"

definition demo_prm :: src_stage_prm where
  "demo_prm = \<lparr>times = 2, x_rptr = 1004, x_end_addr = 1008, x_size = 8, x_inc = 1, y_wptr = 2008, y_end_addr = 2016,
     y_size = 16, y_inc = 1,
     prm_state = \<lparr>fir_delay_size = 4, out_delay_size = 2, fir_wi = 0, fir_ri = 0, out_wi = 0, out_ri = 0, fir_delay = 3000, out_delay = 4000\<rparr>,
     prm_stage = demo_stage\<rparr>"

definition demo_mem :: mem where "demo_mem = store32 (store32 (\<lambda>_. 0) 1000 10) 1004 100"

lemma demo_prm_ok: "prm_ok demo_prm"
proof -
  have "stage_ok demo_stage" by code_simp
  then show ?thesis
    unfolding prm_ok_def by (auto simp: demo_prm_def demo_stage_def src_fir_delay_length_def src_out_delay_length_def
        cursor_ok_def fits_def region_def area_def)
qed

theorem src_stage_ref_witness:
  "prm_ok demo_prm \<and>
   (\<exists>s' m'. src_polyphase_stage_cir 3 demo_prm demo_mem = Some (s', m') \<and> lines s' m' = ([10, 100, 0, 0], [100, 105]) \<and>
      x_rptr s' = x_after demo_prm 2 \<and> y_wptr s' = y_after demo_prm 4 \<and>
      (\<forall>x. unat x \<notin> scratch_of demo_prm \<longrightarrow> m' x = outputs demo_prm [0, 50, 100, 105] demo_mem x))"
proof -
  have "ref_blocks demo_stage 2 (lines demo_prm demo_mem) (inputs demo_prm demo_mem (2 * nat (blk_in demo_stage)))
      = ([0, 50, 100, 105], ([10, 100, 0, 0], [100, 105]))" by code_simp
  moreover have "demo_stage = prm_stage demo_prm" "nat (blk_in demo_stage) < 3" "nat (num_of_subfilters demo_stage) < 3" "2 = nat (times demo_prm)"
    by (simp_all add: demo_prm_def demo_stage_def)
  moreover have "2 * nat (blk_in demo_stage) = 2" "2 * nat (num_of_subfilters demo_stage) = 4" by (simp_all add: demo_stage_def)
  ultimately show ?thesis using src_stage_ref [OF demo_prm_ok, of demo_stage 3 2 demo_mem] demo_prm_ok by metis
qed

end
