(* ===== verification/Reef_Src_Modes.thy ===== *)
theory Reef_Src_Modes
  imports Reef_Src_Props
begin

text \<open>
  The conversions the tables of the sample rate converter offer: all their filters satisfy the bounds
  the stage's correctness needs, and the two stages the set-up chooses convert exactly the ratio of
  the two rates, with delay lines that fill the memory \<open>src_buffer_lengths\<close> asks for.
\<close>

section \<open>The filters\<close>

text \<open>The sums of the absolute values of \<open>n\<close> consecutive blocks of \<open>l\<close> coefficients stay below \<open>2 ^ 32\<close>.\<close>

fun chunks_ok :: "nat \<Rightarrow> nat \<Rightarrow> int list \<Rightarrow> bool" where
  "chunks_ok l 0 c \<longleftrightarrow> True"
| "chunks_ok l (Suc n) c \<longleftrightarrow> sum_list (map abs (take l c)) < 4294967296 \<and> chunks_ok l n (drop l c)"

definition coefs_ok :: "nat \<Rightarrow> nat \<Rightarrow> int list \<Rightarrow> bool" where
  "coefs_ok l n c \<longleftrightarrow> length c = n * l \<and> list_all (\<lambda>x. - 2147483648 \<le> x \<and> x < 2147483648) c \<and> chunks_ok l n c"

lemma chunks_ok_num:
  "chunks_ok l (numeral k) c \<longleftrightarrow> sum_list (map abs (take l c)) < 4294967296 \<and> chunks_ok l (pred_numeral k) (drop l c)"
  by (simp add: numeral_eq_Suc)

lemma sum_list_nth: "sum_list xs = (\<Sum>i < length xs. xs ! i)" for xs :: "int list"
  by (simp add: sum_list_sum_nth atLeast0LessThan)

lemma chunks_okD:
  assumes "chunks_ok l n c" "length c = n * l" "f < n"
  shows "(\<Sum>k < l. \<bar>c ! (f * l + k)\<bar>) < 4294967296"
  using assms
proof (induction l n c arbitrary: f rule: chunks_ok.induct)
  case (2 l n c)
  show ?case
  proof (cases f)
    case 0
    have "sum_list (map abs (take l c)) = (\<Sum>k < l. \<bar>c ! k\<bar>)" using "2.prems"(2) by (simp add: sum_list_nth)
    then show ?thesis using "2.prems"(1) 0 by simp
  next
    case (Suc f')
    have "(\<Sum>k < l. \<bar>drop l c ! (f' * l + k)\<bar>) < 4294967296" using "2.IH" "2.prems" Suc by simp
    moreover have "drop l c ! (f' * l + k) = c ! (f * l + k)" for k
      using Suc "2.prems"(2) by (simp add: add.assoc)
    ultimately show ?thesis by simp
  qed
qed simp

lemma stage_okI:
  assumes c: "coefs_ok (nat l) (nat n) c" and "1 \<le> n" "1 \<le> l" "0 \<le> i" "0 \<le> d" "1 \<le> bi" "1 \<le> d \<or> n = 1" "- 23 \<le> s" "s \<le> 40"
  shows "stage_ok (stage i d n l f bi bo h s c)"
proof -
  have len: "length c = nat n * nat l" and ch: "chunks_ok (nat l) (nat n) c"
    and r: "x \<in> set c \<Longrightarrow> sint (word_of_int x :: s32) = x" for x
    using c by (auto simp: coefs_ok_def list_all_iff sint_eq_if_fits)
  have "(\<Sum>k < nat l. \<bar>sint (map word_of_int c ! (g * nat l + k) :: s32)\<bar>) < 4294967296" if g: "g < nat n" for g
  proof -
    have "(\<Sum>k < nat l. \<bar>sint (map word_of_int c ! (g * nat l + k) :: s32)\<bar>) = (\<Sum>k < nat l. \<bar>c ! (g * nat l + k)\<bar>)"
    proof (rule sum.cong [OF refl])
      fix k assume "k \<in> {..< nat l}"
      then have "g * nat l + k < Suc g * nat l" by simp
      also have "\<dots> \<le> length c" unfolding len by (rule mult_le_mono1) (use g in simp)
      finally have "g * nat l + k < length c" .
      then show "\<bar>sint (map word_of_int c ! (g * nat l + k) :: s32)\<bar> = \<bar>c ! (g * nat l + k)\<bar>" using r by simp
    qed
    then show ?thesis using chunks_okD [OF ch len g] by simp
  qed
  then show ?thesis using assms len by (simp add: stage_ok_def stage_def)
qed

lemma coefs_1_2_2188_5100: "coefs_ok 46 1 src_int24_1_2_2188_5100_fir"
  by (simp add: coefs_ok_def chunks_ok_num src_int24_1_2_2188_5100_fir_def)

lemma coefs_1_2_4375_5100: "coefs_ok 176 1 src_int24_1_2_4375_5100_fir"
  by (simp add: coefs_ok_def chunks_ok_num src_int24_1_2_4375_5100_fir_def)

lemma coefs_1_3_2188_5100: "coefs_ok 67 1 src_int24_1_3_2188_5100_fir"
  by (simp add: coefs_ok_def chunks_ok_num src_int24_1_3_2188_5100_fir_def)

lemma coefs_1_3_4375_5100: "coefs_ok 260 1 src_int24_1_3_4375_5100_fir"
  by (simp add: coefs_ok_def chunks_ok_num src_int24_1_3_4375_5100_fir_def)

lemma coefs_20_21_4020_5100: "coefs_ok 60 20 src_int24_20_21_4020_5100_fir"
  by (simp add: coefs_ok_def chunks_ok_num src_int24_20_21_4020_5100_fir_def)

lemma coefs_2_1_2188_5100: "coefs_ok 23 2 src_int24_2_1_2188_5100_fir"
  by (simp add: coefs_ok_def chunks_ok_num src_int24_2_1_2188_5100_fir_def)

lemma coefs_2_1_4375_5100: "coefs_ok 88 2 src_int24_2_1_4375_5100_fir"
  by (simp add: coefs_ok_def chunks_ok_num src_int24_2_1_4375_5100_fir_def)

lemma coefs_2_3_4375_5100: "coefs_ok 130 2 src_int24_2_3_4375_5100_fir"
  by (simp add: coefs_ok_def chunks_ok_num src_int24_2_3_4375_5100_fir_def)

lemma coefs_3_1_2188_5100: "coefs_ok 23 3 src_int24_3_1_2188_5100_fir"
  by (simp add: coefs_ok_def chunks_ok_num src_int24_3_1_2188_5100_fir_def)

lemma coefs_3_1_4375_5100: "coefs_ok 87 3 src_int24_3_1_4375_5100_fir"
  by (simp add: coefs_ok_def chunks_ok_num src_int24_3_1_4375_5100_fir_def)

lemma coefs_3_2_4375_5100: "coefs_ok 87 3 src_int24_3_2_4375_5100_fir"
  by (simp add: coefs_ok_def chunks_ok_num src_int24_3_2_4375_5100_fir_def)

lemma coefs_3_4_4375_5100: "coefs_ok 117 3 src_int24_3_4_4375_5100_fir"
  by (simp add: coefs_ok_def chunks_ok_num src_int24_3_4_4375_5100_fir_def)

lemma coefs_4_3_4375_5100: "coefs_ok 88 4 src_int24_4_3_4375_5100_fir"
  by (simp add: coefs_ok_def chunks_ok_num src_int24_4_3_4375_5100_fir_def)

lemma coefs_8_7_4375_5100: "coefs_ok 82 8 src_int24_8_7_4375_5100_fir"
  by (simp add: coefs_ok_def chunks_ok_num src_int24_8_7_4375_5100_fir_def)

lemma stages_ok [simp]:
  shows "stage_ok src_int24_1_1_0_0"
  "stage_ok src_int24_1_2_2188_5100"
  "stage_ok src_int24_1_2_4375_5100"
  "stage_ok src_int24_1_3_2188_5100"
  "stage_ok src_int24_1_3_4375_5100"
  "stage_ok src_int24_20_21_4020_5100"
  "stage_ok src_int24_2_1_2188_5100"
  "stage_ok src_int24_2_1_4375_5100"
  "stage_ok src_int24_2_3_4375_5100"
  "stage_ok src_int24_3_1_2188_5100"
  "stage_ok src_int24_3_1_4375_5100"
  "stage_ok src_int24_3_2_4375_5100"
  "stage_ok src_int24_3_4_4375_5100"
  "stage_ok src_int24_4_3_4375_5100"
  "stage_ok src_int24_8_7_4375_5100"
proof -
  show "stage_ok src_int24_1_1_0_0"
    unfolding src_int24_1_1_0_0_def by (rule stage_okI) (simp_all add: coefs_ok_def fir_one_def)
  show "stage_ok src_int24_1_2_2188_5100"
    unfolding src_int24_1_2_2188_5100_def by (rule stage_okI) (use coefs_1_2_2188_5100 in simp_all)
  show "stage_ok src_int24_1_2_4375_5100"
    unfolding src_int24_1_2_4375_5100_def by (rule stage_okI) (use coefs_1_2_4375_5100 in simp_all)
  show "stage_ok src_int24_1_3_2188_5100"
    unfolding src_int24_1_3_2188_5100_def by (rule stage_okI) (use coefs_1_3_2188_5100 in simp_all)
  show "stage_ok src_int24_1_3_4375_5100"
    unfolding src_int24_1_3_4375_5100_def by (rule stage_okI) (use coefs_1_3_4375_5100 in simp_all)
  show "stage_ok src_int24_20_21_4020_5100"
    unfolding src_int24_20_21_4020_5100_def by (rule stage_okI) (use coefs_20_21_4020_5100 in simp_all)
  show "stage_ok src_int24_2_1_2188_5100"
    unfolding src_int24_2_1_2188_5100_def by (rule stage_okI) (use coefs_2_1_2188_5100 in simp_all)
  show "stage_ok src_int24_2_1_4375_5100"
    unfolding src_int24_2_1_4375_5100_def by (rule stage_okI) (use coefs_2_1_4375_5100 in simp_all)
  show "stage_ok src_int24_2_3_4375_5100"
    unfolding src_int24_2_3_4375_5100_def by (rule stage_okI) (use coefs_2_3_4375_5100 in simp_all)
  show "stage_ok src_int24_3_1_2188_5100"
    unfolding src_int24_3_1_2188_5100_def by (rule stage_okI) (use coefs_3_1_2188_5100 in simp_all)
  show "stage_ok src_int24_3_1_4375_5100"
    unfolding src_int24_3_1_4375_5100_def by (rule stage_okI) (use coefs_3_1_4375_5100 in simp_all)
  show "stage_ok src_int24_3_2_4375_5100"
    unfolding src_int24_3_2_4375_5100_def by (rule stage_okI) (use coefs_3_2_4375_5100 in simp_all)
  show "stage_ok src_int24_3_4_4375_5100"
    unfolding src_int24_3_4_4375_5100_def by (rule stage_okI) (use coefs_3_4_4375_5100 in simp_all)
  show "stage_ok src_int24_4_3_4375_5100"
    unfolding src_int24_4_3_4375_5100_def by (rule stage_okI) (use coefs_4_3_4375_5100 in simp_all)
  show "stage_ok src_int24_8_7_4375_5100"
    unfolding src_int24_8_7_4375_5100_def by (rule stage_okI) (use coefs_8_7_4375_5100 in simp_all)
qed

section \<open>The modes\<close>

text \<open>The pair of stages converts \<open>fi\<close> to \<open>fo\<close>: the blocks of the two stages match, and their product is the ratio of the rates.\<close>

definition converts :: "int \<Rightarrow> int \<Rightarrow> src_stage \<Rightarrow> src_stage \<Rightarrow> bool" where
  "converts fi fo s1 s2 \<longleftrightarrow>
     (let t1 = blk_in s2 sdiv gcd_c (blk_out s1) (blk_in s2); t2 = (t1 * blk_out s1) sdiv blk_in s2 in
      stage_ok s1 \<and> stage_ok s2 \<and> blk_out s1 = num_of_subfilters s1 \<and> blk_out s2 = num_of_subfilters s2 \<and> 0 < t1 \<and> 0 < t2 \<and>
      t1 * blk_out s1 = t2 * blk_in s2 \<and> t1 * blk_in s1 * fo = t2 * blk_out s2 * fi \<and>
      src_fir_delay_length s1 \<le> MAX_FIR_DELAY_SIZE \<and> src_out_delay_length s1 \<le> MAX_OUT_DELAY_SIZE \<and>
      src_fir_delay_length s2 \<le> MAX_FIR_DELAY_SIZE \<and> src_out_delay_length s2 \<le> MAX_OUT_DELAY_SIZE \<and>
      src_stage_buf_length s1 s2 = t1 * blk_out s1 \<and> src_stage_buf_length s1 s2 \<le> 168 \<and>
      (filter_length s2 = 1 \<longrightarrow> t1 = 1 \<and> blk_in s2 = 1 \<and> blk_out s2 = 1))"

lemma stage_sel [simp]:
  "idm (stage i d n l f bi bo h s c) = i" "odm (stage i d n l f bi bo h s c) = d"
  "num_of_subfilters (stage i d n l f bi bo h s c) = n" "subfilter_length (stage i d n l f bi bo h s c) = l"
  "filter_length (stage i d n l f bi bo h s c) = f" "blk_in (stage i d n l f bi bo h s c) = bi"
  "blk_out (stage i d n l f bi bo h s c) = bo"
  by (simp_all add: stage_def)

lemmas stage_defs = src_int24_1_1_0_0_def src_int24_0_0_0_0_def src_int24_1_2_2188_5100_def src_int24_1_2_4375_5100_def
  src_int24_1_3_2188_5100_def src_int24_1_3_4375_5100_def src_int24_20_21_4020_5100_def src_int24_2_1_2188_5100_def
  src_int24_2_1_4375_5100_def src_int24_2_3_4375_5100_def src_int24_3_1_2188_5100_def src_int24_3_1_4375_5100_def
  src_int24_3_2_4375_5100_def src_int24_3_4_4375_5100_def src_int24_4_3_4375_5100_def src_int24_8_7_4375_5100_def

lemma gcd_8_21: "gcd (8 :: int) 21 = 1"
  by code_simp

lemmas mode_simps = converts_def Let_def gcd_c_eq gcd_8_21 src_fir_delay_length_def src_out_delay_length_def
  src_stage_buf_length_def stages_ok [unfolded stage_defs]

lemma modes_convert:
  "list_all (\<lambda>(fo, r). list_all (\<lambda>(fi, s1, s2). filter_length s2 \<noteq> 0 \<longrightarrow> converts fi fo s1 s2) (zip src_in_fs r))
     (zip src_out_fs (map (\<lambda>(a, b). zip a b) (zip src_table1 src_table2)))"
  unfolding src_in_fs_def src_out_fs_def src_table1_def src_table2_def stage_defs
  by (simp add: mode_simps)

lemma mode_at:
  assumes "i < 8" "j < 5" "filter_length (src_table2 ! j ! i) \<noteq> 0"
  shows "converts (src_in_fs ! i) (src_out_fs ! j) (src_table1 ! j ! i) (src_table2 ! j ! i)"
proof -
  have len: "length src_in_fs = 8" "length src_out_fs = 5" "length src_table1 = 5" "length src_table2 = 5"
    by (simp_all add: src_in_fs_def src_out_fs_def src_table1_def src_table2_def)
  have rows: "list_all (\<lambda>r. length r = 8) src_table1" "list_all (\<lambda>r. length r = 8) src_table2"
    by (simp_all add: src_table1_def src_table2_def)
  have r: "length (src_table1 ! j) = 8" "length (src_table2 ! j) = 8"
    using rows assms(2) len by (simp_all add: list_all_length)
  have "list_all (\<lambda>(fi, s1, s2). filter_length s2 \<noteq> 0 \<longrightarrow> converts fi (src_out_fs ! j) s1 s2) (zip src_in_fs (zip (src_table1 ! j) (src_table2 ! j)))"
    using modes_convert assms(2) len unfolding list_all_length by force
  then show ?thesis using assms(1,3) len r unfolding list_all_length by force
qed

section \<open>Choosing a mode\<close>

lemma find_fs_from_cases:
  "find_fs_from i rs fs = - EINVAL \<or> (\<exists>k < length rs. find_fs_from i rs fs = i + int k \<and> rs ! k = fs)"
proof (induction rs arbitrary: i)
  case (Cons r rs)
  show ?case
  proof (cases "r = fs")
    case False
    from Cons.IH [of "i + 1"] show ?thesis
    proof
      assume "\<exists>k < length rs. find_fs_from (i + 1) rs fs = i + 1 + int k \<and> rs ! k = fs"
      then obtain k where "k < length rs" "find_fs_from (i + 1) rs fs = i + 1 + int k" "rs ! k = fs" by blast
      then show ?thesis using False by (intro disjI2 exI [of _ "Suc k"]) simp
    qed (use False in simp)
  qed (auto intro!: exI [of _ 0])
qed simp

lemma src_find_fs_cases:
  assumes "n \<le> length rs"
  obtains "src_find_fs rs n fs < 0" | k where "src_find_fs rs n fs = int k" "k < n" "rs ! k = fs"
  using find_fs_from_cases [of 0 "take n rs" fs] assms by (auto simp: src_find_fs_def min_absorb2)

text \<open>The two outcomes of the set-up.\<close>

lemma src_init_cases:
  obtains (fail) src1 where "src_polyphase_init src fs1 fs2 start =
      (- EINVAL, src1\<lparr>p_blk_in := fs1 sdiv gcd_c fs1 fs2, p_blk_out := fs2 sdiv gcd_c fs1 fs2\<rparr>)"
  | (ok) i j s1 s2 where "i < 8" "j < 5" "src_in_fs ! i = fs1" "src_out_fs ! j = fs2" "s1 = src_table1 ! j ! i" "s2 = src_table2 ! j ! i"
      "src_find_fs src_in_fs NUM_IN_FS fs1 = int i" "src_find_fs src_out_fs NUM_OUT_FS fs2 = int j"
      "filter_length s2 \<noteq> 0" "fst (init_stages s1 s2 src 2 start) = 0"
      "src_polyphase_init src fs1 fs2 start = (if filter_length s2 = 1 then 1 else 2, snd (init_stages s1 s2 src 2 start))"
proof (cases "src_find_fs src_in_fs NUM_IN_FS fs1 < 0 \<or> src_find_fs src_out_fs NUM_OUT_FS fs2 < 0")
  case True
  then have "src_polyphase_init src fs1 fs2 start =
      (- EINVAL, src\<lparr>p_blk_in := fs1 sdiv gcd_c fs1 fs2, p_blk_out := fs2 sdiv gcd_c fs1 fs2\<rparr>)"
    by (auto simp: src_polyphase_init_def Let_def)
  then show ?thesis by (rule fail)
next
  case False
  have "NUM_IN_FS \<le> length src_in_fs" "NUM_OUT_FS \<le> length src_out_fs" by (simp_all add: src_in_fs_def src_out_fs_def)
  with False obtain i j where ij: "src_find_fs src_in_fs NUM_IN_FS fs1 = int i" "i < 8" "src_in_fs ! i = fs1"
    "src_find_fs src_out_fs NUM_OUT_FS fs2 = int j" "j < 5" "src_out_fs ! j = fs2"
    using src_find_fs_cases [of NUM_IN_FS src_in_fs fs1] src_find_fs_cases [of NUM_OUT_FS src_out_fs fs2] by metis
  let ?s1 = "src_table1 ! j ! i" and ?s2 = "src_table2 ! j ! i"
  obtain r src1 where st: "init_stages ?s1 ?s2 src 2 start = (r, src1)" by (rule prod.exhaust)
  have r: "r = 0 \<or> r = - EINVAL"
    using st by (auto simp: init_stages_def init_lines_def Let_def split: if_splits)
  show ?thesis
  proof (cases "filter_length ?s2 \<noteq> 0 \<and> r = 0")
    case True
    then have "src_polyphase_init src fs1 fs2 start = (if filter_length ?s2 = 1 then 1 else 2, src1)"
      using ij st by (simp add: src_polyphase_init_def Let_def)
    then show ?thesis using ok [of i j ?s1 ?s2] ij True st by simp
  next
    case False
    then have "src_polyphase_init src fs1 fs2 start =
        (- EINVAL, src1\<lparr>p_blk_in := fs1 sdiv gcd_c fs1 fs2, p_blk_out := fs2 sdiv gcd_c fs1 fs2\<rparr>)"
      using ij st r by (auto simp: src_polyphase_init_def Let_def)
    then show ?thesis by (rule fail)
  qed
qed

lemma sdiv_gcd_ratio:
  assumes "0 < a" "0 < b"
  shows "(a sdiv gcd_c a b) * b = (b sdiv gcd_c a b) * a" "0 < a sdiv gcd_c a b" "0 < b sdiv gcd_c a b"
proof -
  have g: "gcd_c a b = gcd a b" "0 < gcd a b" using assms by (simp_all add: gcd_c_eq)
  have s: "x sdiv gcd a b = x div gcd a b" if "0 < x" for x
    using that g(2) by (simp add: signed_divide_int_def)
  obtain k l where kl: "a = gcd a b * k" "b = gcd a b * l" by (meson dvdE gcd_dvd1 gcd_dvd2)
  have "a div gcd a b = k" "b div gcd a b = l" using kl g(2) by (metis nonzero_mult_div_cancel_left less_irrefl)+
  moreover have "k * b = l * a" by (subst kl(2), subst (2) kl(1)) (simp add: mult.commute mult.left_commute)
  moreover have "0 < k" "0 < l" using kl assms g(2) by (metis zero_less_mult_pos)+
  ultimately show "(a sdiv gcd_c a b) * b = (b sdiv gcd_c a b) * a" "0 < a sdiv gcd_c a b" "0 < b sdiv gcd_c a b"
    using assms s g(1) by simp_all
qed

lemma fs_pos: "i < 8 \<Longrightarrow> 0 < src_in_fs ! i" "j < 5 \<Longrightarrow> 0 < src_out_fs ! j"
proof -
  have "list_all (\<lambda>x. 0 < x) src_in_fs" "list_all (\<lambda>x. 0 < x) src_out_fs" "length src_in_fs = 8" "length src_out_fs = 5"
    by (simp_all add: src_in_fs_def src_out_fs_def)
  then show "i < 8 \<Longrightarrow> 0 < src_in_fs ! i" "j < 5 \<Longrightarrow> 0 < src_out_fs ! j" by (simp_all add: list_all_length)
qed

text \<open>What \<open>init_stages\<close> leaves for a pair of stages that converts.\<close>

definition laid_out :: "u32 \<Rightarrow> int \<Rightarrow> src_stage \<Rightarrow> src_stage \<Rightarrow> polyphase_src \<Rightarrow> bool" where
  "laid_out start single s1 s2 src \<longleftrightarrow>
     state1 src = \<lparr>fir_delay_size = src_fir_delay_length s1, out_delay_size = src_out_delay_length s1, fir_wi = 0, fir_ri = 0, out_wi = 0, out_ri = 0,
       fir_delay = start, out_delay = start + 4 * word_of_int (src_fir_delay_length s1)\<rparr> \<and>
     (if filter_length s2 = 1 then single = src_fir_delay_length s1 + src_out_delay_length s1
      else single = src_fir_delay_length s1 + src_out_delay_length s1 + src_fir_delay_length s2 + src_out_delay_length s2 \<and>
        state2 src = \<lparr>fir_delay_size = src_fir_delay_length s2, out_delay_size = src_out_delay_length s2, fir_wi = 0, fir_ri = 0, out_wi = 0, out_ri = 0,
          fir_delay = start + 4 * word_of_int (src_fir_delay_length s1 + src_out_delay_length s1),
          out_delay = start + 4 * word_of_int (src_fir_delay_length s1 + src_out_delay_length s1 + src_fir_delay_length s2)\<rparr>)"

lemma init_stages_converts:
  assumes "converts fi fo s1 s2" "init_stages s1 s2 src 2 start = (r, src')"
  shows "r = 0" "stage1 src' = Some s1" "stage2 src' = Some s2" "p_blk_in src' = stage1_times src' * blk_in s1"
    "p_blk_out src' = stage2_times src' * blk_out s2" "0 < stage1_times src'" "0 < stage2_times src'"
    "stage1_times src' * blk_out s1 = stage2_times src' * blk_in s2" "p_blk_in src' * fo = p_blk_out src' * fi"
    "src_stage_buf_length s1 s2 = stage1_times src' * blk_out s1"
    "filter_length s2 = 1 \<Longrightarrow> stage1_times src' = 1 \<and> stage2_times src' = blk_out s1 \<and> p_blk_out src' = blk_out s1"
    "p_mute src' = p_mute src"
    "laid_out start (if filter_length s2 = 1 then src_fir_delay_length s1 + src_out_delay_length s1
       else src_fir_delay_length s1 + src_out_delay_length s1 + src_fir_delay_length s2 + src_out_delay_length s2) s1 s2 src'"
proof -
  note c = assms(1) [unfolded converts_def Let_def]
  have ok: "stage_ok s1" "stage_ok s2" using c by blast+
  have nz: "blk_out s1 \<noteq> 0" "blk_in s1 \<noteq> 0" using c stage_okD(1,5) [OF ok(1)] by auto
  have sz: "\<not> (263 < src_fir_delay_length s1 \<or> 50 < src_out_delay_length s1 \<or> 263 < src_fir_delay_length s2 \<or> 50 < src_out_delay_length s2)"
    using c by (simp add: not_less)
  note st = assms(2) [unfolded init_stages_def init_lines_def Let_def]
  have e: "r = 0 \<and> src' = snd (init_stages s1 s2 src 2 start)" using assms(2) st nz sz by (simp split: if_splits)
  show "r = 0" using e by blast
  have src': "stage1 src' = Some s1" "stage2 src' = Some s2" "stage1_times src' = blk_in s2 sdiv gcd_c (blk_out s1) (blk_in s2)"
    "stage2_times src' = (blk_in s2 sdiv gcd_c (blk_out s1) (blk_in s2) * blk_out s1) sdiv blk_in s2"
    "p_blk_in src' = stage1_times src' * blk_in s1" "p_blk_out src' = stage2_times src' * blk_out s2" "p_mute src' = p_mute src"
    using st nz sz by (auto split: if_splits)
  then show "stage1 src' = Some s1" "stage2 src' = Some s2" "p_blk_in src' = stage1_times src' * blk_in s1"
    "p_blk_out src' = stage2_times src' * blk_out s2" "p_mute src' = p_mute src" by simp_all
  show eq: "0 < stage1_times src'" "0 < stage2_times src'" "stage1_times src' * blk_out s1 = stage2_times src' * blk_in s2"
    "p_blk_in src' * fo = p_blk_out src' * fi" "src_stage_buf_length s1 s2 = stage1_times src' * blk_out s1"
    using c unfolding src' by blast+
  show "filter_length s2 = 1 \<Longrightarrow> stage1_times src' = 1 \<and> stage2_times src' = blk_out s1 \<and> p_blk_out src' = blk_out s1"
  proof -
    assume "filter_length s2 = 1"
    then have "stage1_times src' = 1" "blk_in s2 = 1" "blk_out s2 = 1" using c unfolding src'(3) by blast+
    then show ?thesis using eq(3) src'(6) by simp
  qed
  show "laid_out start (if filter_length s2 = 1 then src_fir_delay_length s1 + src_out_delay_length s1
       else src_fir_delay_length s1 + src_out_delay_length s1 + src_fir_delay_length s2 + src_out_delay_length s2) s1 s2 src'"
    using st nz sz unfolding laid_out_def by (auto simp: src_state_reset_def algebra_simps split: if_splits)
qed

text \<open>
  C9: whether or not the rates are supported, the block sizes the set-up leaves are positive and in
  the exact ratio of the rates, so neither conversion nor the muted fallback drifts.
\<close>
theorem src_ratio_exact:
  assumes "src_polyphase_init src fs1 fs2 start = (n, src')" "0 < fs1" "0 < fs2"
  shows "0 < p_blk_in src' \<and> 0 < p_blk_out src' \<and> p_blk_in src' * fs2 = p_blk_out src' * fs1"
proof (cases rule: src_init_cases [of src fs1 fs2 start])
  case (fail src1)
  then show ?thesis using assms(1) sdiv_gcd_ratio [OF assms(2,3)] by auto
next
  case (ok i j s1 s2)
  have c: "converts fs1 fs2 s1 s2" using mode_at [OF ok(1,2)] ok by simp
  have "(n, src') = (if filter_length s2 = 1 then 1 else 2, snd (init_stages s1 s2 src 2 start))" using assms(1) ok(11) by (simp only:)
  then have n: "n = (if filter_length s2 = 1 then 1 else 2)" and "src' = snd (init_stages s1 s2 src 2 start)" by (simp_all only: prod.inject)
  then have e: "init_stages s1 s2 src 2 start = (0, src')" using ok(10) by (simp add: prod_eq_iff)
  note f = init_stages_converts [OF c e]
  have st: "stage_ok s1" "stage_ok s2" "blk_out s2 = num_of_subfilters s2" using c by (simp_all add: converts_def Let_def)
  have "0 < blk_in s1" "0 < num_of_subfilters s2" using stage_okD(5) [OF st(1)] stage_okD(1) [OF st(2)] by simp_all
  then show ?thesis using f(4-7,9) st(3) by simp
qed

text \<open>
  C8: when the set-up accepts a pair of rates, both stages satisfy the bounds that make a stage exact
  (\<open>stage_ok\<close>), the outputs of a block of the first stage are the inputs of a block of the second and
  fit the scratch buffer, and the delay lines lie one after the other in the memory
  \<open>src_buffer_lengths\<close> reserves for one channel, to its last word.
\<close>
theorem src_modes_ok:
  assumes "src_polyphase_init src fs1 fs2 start = (n, src')" "0 \<le> n"
  shows "\<exists>s1 s2 a. stage1 src' = Some s1 \<and> stage2 src' = Some s2 \<and> stage_ok s1 \<and> stage_ok s2 \<and>
    n = (if filter_length s2 = 1 then 1 else 2) \<and> src_buffer_lengths fs1 fs2 nch = (0, Some a) \<and>
    src_alloc.total a = scratch a + nch * single_src a \<and> laid_out start (single_src a) s1 s2 src' \<and>
    scratch a = (if n = 1 then 0 else stage1_times src' * num_of_subfilters s1) \<and> scratch a \<le> 168 \<and>
    p_blk_in src' = stage1_times src' * blk_in s1 \<and> stage1_times src' * num_of_subfilters s1 = stage2_times src' * blk_in s2 \<and>
    p_blk_out src' = (if n = 1 then num_of_subfilters s1 else stage2_times src' * num_of_subfilters s2)"
proof (cases rule: src_init_cases [of src fs1 fs2 start])
  case (fail src1)
  then show ?thesis using assms by simp
next
  case (ok i j s1 s2)
  have c: "converts fs1 fs2 s1 s2" using mode_at [OF ok(1,2)] ok by simp
  have "(n, src') = (if filter_length s2 = 1 then 1 else 2, snd (init_stages s1 s2 src 2 start))" using assms(1) ok(11) by (simp only:)
  then have n: "n = (if filter_length s2 = 1 then 1 else 2)" and "src' = snd (init_stages s1 s2 src 2 start)" by (simp_all only: prod.inject)
  then have e: "init_stages s1 s2 src 2 start = (0, src')" using ok(10) by (simp add: prod_eq_iff)
  note f = init_stages_converts [OF c e]
  have st: "stage_ok s1" "stage_ok s2" "blk_out s1 = num_of_subfilters s1" "blk_out s2 = num_of_subfilters s2" "src_stage_buf_length s1 s2 \<le> 168"
    using c unfolding converts_def Let_def by blast+
  have b: "\<exists>a. src_buffer_lengths fs1 fs2 nch = (0, Some a) \<and> src_alloc.total a = scratch a + nch * single_src a \<and>
      single_src a = (if filter_length s2 = 1 then src_fir_delay_length s1 + src_out_delay_length s1
       else src_fir_delay_length s1 + src_out_delay_length s1 + src_fir_delay_length s2 + src_out_delay_length s2) \<and>
      scratch a = (if filter_length s2 = 1 then 0 else src_stage_buf_length s1 s2)"
    using ok(5-8) by (simp add: src_buffer_lengths_def Let_def)
  then show ?thesis using f st n by (auto simp: f(10))
qed

definition fresh_src :: polyphase_src where
  "fresh_src = \<lparr>p_mute = True, number_of_stages = 0, p_blk_in = 0, p_blk_out = 0, stage1_times = 0, stage2_times = 0,
     stage1 = None, stage2 = None,
     state1 = \<lparr>fir_delay_size = 0, out_delay_size = 0, fir_wi = 0, fir_ri = 0, out_wi = 0, out_ri = 0, fir_delay = 0, out_delay = 0\<rparr>,
     state2 = \<lparr>fir_delay_size = 0, out_delay_size = 0, fir_wi = 0, fir_ri = 0, out_wi = 0, out_ri = 0, fir_delay = 0, out_delay = 0\<rparr>\<rparr>"

lemma fresh_init: "fst (src_polyphase_init fresh_src 44100 48000 0x1000) = 2"
proof -
  have i: "src_find_fs src_in_fs NUM_IN_FS 44100 = 4" "src_find_fs src_out_fs NUM_OUT_FS 48000 = 4"
    by (simp_all add: src_find_fs_def src_in_fs_def src_out_fs_def)
  have t: "src_table1 ! 4 ! 4 = src_int24_8_7_4375_5100" "src_table2 ! 4 ! 4 = src_int24_20_21_4020_5100"
    by (simp_all add: src_table1_def src_table2_def)
  show ?thesis
    by (simp add: src_polyphase_init_def Let_def i t init_stages_def init_lines_def gcd_c_eq gcd_8_21 stage_defs
        src_fir_delay_length_def src_out_delay_length_def fresh_src_def)
qed

theorem src_ratio_exact_witness:
  "let src' = snd (src_polyphase_init fresh_src 44100 48000 0x1000)
   in 0 < p_blk_in src' \<and> 0 < p_blk_out src' \<and> p_blk_in src' * 48000 = p_blk_out src' * 44100"
  using src_ratio_exact [of fresh_src 44100 48000 "0x1000"] by (simp add: prod_eq_iff Let_def)

theorem src_modes_ok_witness:
  "\<exists>s1 s2 a. laid_out 0x1000 (single_src a) s1 s2 (snd (src_polyphase_init fresh_src 44100 48000 0x1000)) \<and>
     src_buffer_lengths 44100 48000 2 = (0, Some a) \<and> stage_ok s1 \<and> stage_ok s2 \<and> scratch a \<le> 168"
  using src_modes_ok [of fresh_src 44100 48000 "0x1000" "fst (src_polyphase_init fresh_src 44100 48000 0x1000)"
      "snd (src_polyphase_init fresh_src 44100 48000 0x1000)" 2] fresh_init
  by (metis prod.collapse zero_le_numeral)

end
