(* ===== verification/Reef_Src.thy ===== *)
theory Reef_Src
  imports Reef_Src_Core Reef_Eq
begin

unbundle bit_operations_syntax

text \<open>
  The sample rate converter component, src/src/audio/src.c: the choice of the conversion function and
  the set-up of the channels' converters from the stream parameters, the conversion of a period with
  one or two stages, the muted variant, and the driver's operations. The converters' delay lines are
  part of the byte memory; the component's copy of the PCM parameters lies 384 bytes into its private
  data, after the four converters.

  C \<open>int\<close>s are \<open>int\<close>s where they hold block sizes, counts and indices; comparisons with unsigned
  operands are made on 32 bit words, as C makes them. The loops take fuel, one unit for each round.
  \<open>None\<close> is a fault: a fifth channel, a division by zero, a \<open>NULL\<close> stage, or fuel used up.
\<close>

section \<open>State\<close>

abbreviation (input) SRC_CHANNELS :: nat where "SRC_CHANNELS \<equiv> 4"
abbreviation (input) STAGE_BUF_SIZE :: u32 where "STAGE_BUF_SIZE \<equiv> 168"
abbreviation (input) COMP_CMD_SRC :: int where "COMP_CMD_SRC \<equiv> 104"

datatype src_func = Src_2s | Src_1s | Fallback

record src_data =
  srcs :: "polyphase_src list"
  delay_lines :: u32
  scratch_length :: int
  src_fn :: src_func

text \<open>\<open>out_rates\<close>: the field \<open>out_rate\<close> of the IPC object in the component's device.\<close>

record src_world = world +
  srcds :: "u32 \<Rightarrow> src_data"
  out_rates :: "u32 \<Rightarrow> u32"

definition upd_src :: "u32 \<Rightarrow> (src_data \<Rightarrow> src_data) \<Rightarrow> 'a src_world_scheme \<Rightarrow> 'a src_world_scheme" where
  "upd_src p f w = w\<lparr>srcds := (srcds w)(p := f (srcds w p))\<rparr>"

lemma upd_src_sel [simp]:
  "srcds (upd_buf b g w) = srcds w" "srcds (upd_dev d h w) = srcds w" "srcds (upd_pcm q k w) = srcds w"
  "out_rates (upd_buf b g w) = out_rates w" "out_rates (upd_dev d h w) = out_rates w" "out_rates (upd_pcm q k w) = out_rates w"
  "srcds (upd_src p f w) = (srcds w)(p := f (srcds w p))" "out_rates (upd_src p f w) = out_rates w"
  "bufs (upd_src p f w) = bufs w" "devs (upd_src p f w) = devs w" "pcms (upd_src p f w) = pcms w" "mm (upd_src p f w) = mm w"
  "wmem (upd_src p f w) = wmem w"
  by (simp_all add: upd_src_def upd_buf_def upd_dev_def upd_pcm_def)

text \<open>\<open>&cd->pcm_params\<close>\<close>

definition src_pcm :: "u32 \<Rightarrow> u32" where "src_pcm p = p + 384"

section \<open>Conversion of a period\<close>

text \<open>\<open>for (i = 0; cond; i += inc) body\<close>, from \<open>i\<close> on.\<close>

fun block_loop :: "('s \<Rightarrow> 's option) \<Rightarrow> nat \<Rightarrow> (int \<Rightarrow> bool) \<Rightarrow> int \<Rightarrow> int \<Rightarrow> 's \<Rightarrow> 's option" where
  "block_loop body 0 cond inc i s = (if cond i then None else Some s)"
| "block_loop body (Suc fuel) cond inc i s =
     (if cond i then do { s \<leftarrow> body s; block_loop body fuel cond inc (i + inc) s } else Some s)"

text \<open>The state of the muted loop: \<open>dest\<close>, \<open>n_read\<close>, \<open>n_written\<close> and the memory.\<close>

definition muted_block :: "comp_buffer \<Rightarrow> int \<Rightarrow> int \<Rightarrow> int \<Rightarrow> u32 \<times> int \<times> int \<times> mem \<Rightarrow> (u32 \<times> int \<times> int \<times> mem) option" where
  "muted_block sk bi bo nch = (\<lambda>(dest, n_read, n_written, m).
     let n_max = ptr_diff (end_addr sk) dest;
         n = nch * bo;
         (dest, m) = (if n < n_max then (dest + 4 * word_of_int n, bzero m dest (word_of_int n * 4))
                      else (addr sk + 4 * word_of_int (n - n_max),
                            bzero (bzero m dest (word_of_int n_max * 4)) (addr sk) (word_of_int (n - n_max) * 4)))
     in Some (dest, n_read + nch * bi, n_written + nch * bo, m))"

definition src_muted_s32 :: "nat \<Rightarrow> u32 \<Rightarrow> u32 \<Rightarrow> int \<Rightarrow> int \<Rightarrow> int \<Rightarrow> int \<Rightarrow> 'a world_scheme \<Rightarrow> 'a world_scheme option" where
  "src_muted_s32 fuel source sink bi bo nch source_frames w =
     (let src = r_ptr (bufs w source) in do {
        (dest, n_read, n_written, m) \<leftarrow> block_loop (muted_block (bufs w sink) bi bo nch) fuel
           (\<lambda>i. i < source_frames - bi + 1) bi 0 (w_ptr (bufs w sink), 0, 0, wmem w);
        let w = w\<lparr>wmem := m\<rparr>;
        let w = upd_buf source (\<lambda>b. b\<lparr>r_ptr := src + 4 * word_of_int n_read\<rparr>) w;
        let w = upd_buf sink (\<lambda>b. b\<lparr>w_ptr := dest\<rparr>) w;
        let w = upd_buf source comp_wrap_source_r_ptr_circular w;
        let w = upd_buf sink comp_wrap_sink_w_ptr_circular w;
        let w = upd_buf source (comp_update_source_free_avail (word_of_int n_read)) w;
        Some (upd_buf sink (comp_update_sink_free_avail (word_of_int n_written)) w) })"

text \<open>
  One block of one channel. The state: the pointers into source and sink, the converter, the counts
  and the memory. With two stages the first writes to the scratch buffer at the start of the delay
  lines and the second reads from there.
\<close>

type_synonym chan_state = "u32 \<times> u32 \<times> polyphase_src \<times> int \<times> int \<times> mem"

definition block_1s :: "nat \<Rightarrow> int \<Rightarrow> comp_buffer \<Rightarrow> comp_buffer \<Rightarrow> int \<Rightarrow> int \<Rightarrow> int \<Rightarrow> chan_state \<Rightarrow> chan_state option" where
  "block_1s fuel n_times sr sk nch bi bo = (\<lambda>(x, y, s, n_read, n_written, m). do {
     g \<leftarrow> stage1 s;
     (p, m) \<leftarrow> src_polyphase_stage_cir fuel
       \<lparr>times = n_times, x_rptr = x, x_end_addr = end_addr sr, x_size = alloc_size sr, x_inc = nch,
        y_wptr = y, y_end_addr = end_addr sk, y_size = alloc_size sk, y_inc = nch, prm_state = state1 s, prm_stage = g\<rparr> m;
     Some (x_rptr p, y_wptr p, s\<lparr>state1 := prm_state p\<rparr>, n_read + bi, n_written + bo, m) })"

definition block_2s :: "nat \<Rightarrow> int \<Rightarrow> int \<Rightarrow> u32 \<Rightarrow> int \<Rightarrow> comp_buffer \<Rightarrow> comp_buffer \<Rightarrow> int \<Rightarrow> int \<Rightarrow> int \<Rightarrow> chan_state \<Rightarrow> chan_state option" where
  "block_2s fuel t1 t2 lines scr sr sk nch bi bo = (\<lambda>(x, y, s, n_read, n_written, m). do {
     g1 \<leftarrow> stage1 s;
     g2 \<leftarrow> stage2 s;
     let scr_end = lines + 4 * word_of_int scr;
     (p, m) \<leftarrow> src_polyphase_stage_cir fuel
       \<lparr>times = t1, x_rptr = x, x_end_addr = end_addr sr, x_size = alloc_size sr, x_inc = nch,
        y_wptr = lines, y_end_addr = scr_end, y_size = STAGE_BUF_SIZE * 4, y_inc = 1, prm_state = state1 s, prm_stage = g1\<rparr> m;
     (q, m) \<leftarrow> src_polyphase_stage_cir fuel
       \<lparr>times = t2, x_rptr = lines, x_end_addr = scr_end, x_size = STAGE_BUF_SIZE * 4, x_inc = 1,
        y_wptr = y, y_end_addr = end_addr sk, y_size = alloc_size sk, y_inc = nch, prm_state = state2 s, prm_stage = g2\<rparr> m;
     Some (x_rptr p, y_wptr q, s\<lparr>state1 := prm_state p, state2 := prm_state q\<rparr>, n_read + bi, n_written + bo, m) })"

text \<open>The loop over the channels: \<open>src\<close> and \<open>dest\<close> are the start pointers of the next channel.\<close>

fun src_channels :: "(chan_state \<Rightarrow> chan_state option) \<Rightarrow> nat \<Rightarrow> (int \<Rightarrow> bool) \<Rightarrow> int \<Rightarrow> nat list \<Rightarrow> u32 \<Rightarrow> u32
    \<Rightarrow> u32 \<times> u32 \<times> polyphase_src list \<times> int \<times> int \<times> mem \<Rightarrow> (u32 \<times> u32 \<times> polyphase_src list \<times> int \<times> int \<times> mem) option" where
  "src_channels body fuel cond bi [] src dest s = Some s"
| "src_channels body fuel cond bi (j # js) src dest (x, y, ss, n_read, n_written, m) = do {
     s \<leftarrow> aget ss j;
     (x, y, s, n_read, n_written, m) \<leftarrow> block_loop body fuel cond bi 0 (src, dest, s, n_read, n_written, m);
     src_channels body fuel cond bi js (src + 4) (dest + 4) (x, y, ss[j := s], n_read, n_written, m) }"

text \<open>What the two functions share: \<open>body\<close> is the block, \<open>cond\<close> the loop's condition.\<close>

definition src_convert :: "(chan_state \<Rightarrow> chan_state option) \<Rightarrow> nat \<Rightarrow> (int \<Rightarrow> bool) \<Rightarrow> int \<Rightarrow> u32 \<Rightarrow> u32 \<Rightarrow> polyphase_src list
    \<Rightarrow> 'a world_scheme \<Rightarrow> (polyphase_src list \<times> 'a world_scheme) option" where
  "src_convert body fuel cond bi source sink ss w =
     (let cn = channels (pcms w (b_pcm (bufs w sink)));
          src = r_ptr (bufs w source);
          dest = w_ptr (bufs w sink)
      in do {
        (x, y, ss, n_read, n_written, m) \<leftarrow> src_channels body fuel cond bi [0 ..< nat (sint cn)] src dest
           (src + 4 * (cn - 1), dest + 4 * (cn - 1), ss, 0, 0, wmem w);
        let w = w\<lparr>wmem := m\<rparr>;
        let w = upd_buf source (\<lambda>b. b\<lparr>r_ptr := x - 4 * (cn - 1)\<rparr>) w;
        let w = upd_buf sink (\<lambda>b. b\<lparr>w_ptr := y - 4 * (cn - 1)\<rparr>) w;
        let w = upd_buf source comp_wrap_source_r_ptr_circular w;
        let w = upd_buf sink comp_wrap_sink_w_ptr_circular w;
        let w = upd_buf source (comp_update_source_free_avail (word_of_int n_read)) w;
        let w = upd_buf sink (comp_update_sink_free_avail (word_of_int n_written)) w;
        Some (ss, w) })"

text \<open>\<open>i < source_frames - blk_in + 1\<close> and \<open>i + blk_in - 1 < source_frames\<close>, both unsigned.\<close>

definition more_2s :: "u32 \<Rightarrow> int \<Rightarrow> int \<Rightarrow> bool" where
  "more_2s source_frames bi i \<longleftrightarrow> (word_of_int i :: u32) < source_frames - word_of_int bi + 1"

definition more_1s :: "u32 \<Rightarrow> int \<Rightarrow> int \<Rightarrow> bool" where
  "more_1s source_frames bi i \<longleftrightarrow> (word_of_int (i + bi - 1) :: u32) < source_frames"

definition src_2s_s32_default :: "nat \<Rightarrow> u32 \<Rightarrow> u32 \<Rightarrow> u32 \<Rightarrow> src_data \<Rightarrow> 'a world_scheme \<Rightarrow> (src_data \<times> 'a world_scheme) option" where
  "src_2s_s32_default fuel source sink source_frames cd w = do {
     s0 \<leftarrow> aget (srcs cd) 0;
     let nch = sint (channels (pcms w (b_pcm (bufs w sink))));
     if p_mute s0 then do {
       w \<leftarrow> src_muted_s32 fuel source sink (p_blk_in s0) (p_blk_out s0) nch (sint source_frames) w;
       Some (cd, w) }
     else do {
       (ss, w) \<leftarrow> src_convert (block_2s fuel (stage1_times s0) (stage2_times s0) (delay_lines cd) (scratch_length cd)
                     (bufs w source) (bufs w sink) nch (p_blk_in s0) (p_blk_out s0))
                   fuel (more_2s source_frames (p_blk_in s0)) (p_blk_in s0) source sink (srcs cd) w;
       Some (cd\<lparr>srcs := ss\<rparr>, w) } }"

definition src_1s_s32_default :: "nat \<Rightarrow> u32 \<Rightarrow> u32 \<Rightarrow> u32 \<Rightarrow> src_data \<Rightarrow> 'a world_scheme \<Rightarrow> (src_data \<times> 'a world_scheme) option" where
  "src_1s_s32_default fuel source sink source_frames cd w = do {
     s0 \<leftarrow> aget (srcs cd) 0;
     let nch = sint (channels (pcms w (b_pcm (bufs w sink))));
     if p_mute s0 then do {
       w \<leftarrow> src_muted_s32 fuel source sink (p_blk_in s0) (p_blk_out s0) nch (sint source_frames) w;
       Some (cd, w) }
     else do {
       (ss, w) \<leftarrow> src_convert (block_1s fuel (stage1_times s0) (bufs w source) (bufs w sink) nch (p_blk_in s0) (p_blk_out s0))
                   fuel (more_1s source_frames (p_blk_in s0)) (p_blk_in s0) source sink (srcs cd) w;
       Some (cd\<lparr>srcs := ss\<rparr>, w) } }"

definition fallback_s32 :: "nat \<Rightarrow> u32 \<Rightarrow> u32 \<Rightarrow> u32 \<Rightarrow> src_data \<Rightarrow> 'a world_scheme \<Rightarrow> (src_data \<times> 'a world_scheme) option" where
  "fallback_s32 fuel source sink source_frames cd w = do {
     s0 \<leftarrow> aget (srcs cd) 0;
     w \<leftarrow> src_muted_s32 fuel source sink (p_blk_in s0) (p_blk_out s0)
           (sint (channels (pcms w (b_pcm (bufs w sink))))) (sint source_frames) w;
     Some (cd, w) }"

fun call_src_func :: "src_func \<Rightarrow> nat \<Rightarrow> u32 \<Rightarrow> u32 \<Rightarrow> u32 \<Rightarrow> src_data \<Rightarrow> 'a world_scheme \<Rightarrow> (src_data \<times> 'a world_scheme) option" where
  "call_src_func Src_2s = src_2s_s32_default"
| "call_src_func Src_1s = src_1s_s32_default"
| "call_src_func Fallback = fallback_s32"

section \<open>The driver's operations\<close>

text \<open>\<open>COMP_SIZE(struct sof_ipc_comp_src)\<close> and \<open>sizeof(struct comp_data)\<close>.\<close>

definition sizeof_src_dev :: u32 where "sizeof_src_dev = 124"
definition sizeof_src_data :: u32 where "sizeof_src_data = 472"

definition src_new :: "src_data \<Rightarrow> ipc_comp \<Rightarrow> u32 \<Rightarrow> 'a src_world_scheme \<Rightarrow> (u32 \<times> 'a src_world_scheme) option" where
  "src_new junk c orate w = do {
     (d, h) \<leftarrow> rmalloc RZONE_RUNTIME RFLAGS_NONE sizeof_src_dev (mm w);
     let w = w\<lparr>mm := h\<rparr>;
     if d = 0 then Some (0, w)
     else do {
       let w = (upd_dev d (\<lambda>r. r\<lparr>comp := c\<rparr>) w)\<lparr>out_rates := (out_rates w)(d := orate)\<rparr>;
       (p, h) \<leftarrow> rmalloc RZONE_RUNTIME RFLAGS_NONE sizeof_src_data (mm w);
       let w = w\<lparr>mm := h\<rparr>;
       if p = 0 then do { h \<leftarrow> rfree d (mm w); Some (0, w\<lparr>mm := h\<rparr>) }
       else Some (d, upd_src p (\<lambda>_. junk\<lparr>delay_lines := 0, src_fn := Src_2s, srcs := map src_polyphase_reset (srcs junk)\<rparr>)
                       (upd_dev d (\<lambda>r. r\<lparr>priv := p\<rparr>) w)) } }"

definition src_free :: "u32 \<Rightarrow> 'a src_world_scheme \<Rightarrow> 'a src_world_scheme option" where
  "src_free d w = do {
     let p = priv (devs w d);
     h \<leftarrow> (if delay_lines (srcds w p) \<noteq> 0 then rfree (delay_lines (srcds w p)) (mm w) else Some (mm w));
     h \<leftarrow> rfree p h;
     h \<leftarrow> rfree d h;
     Some (w\<lparr>mm := h\<rparr>) }"

text \<open>The loop that sets up the channels: \<open>n\<close> is the result of the last set-up.\<close>

fun init_channels :: "nat list \<Rightarrow> int \<Rightarrow> int \<Rightarrow> int \<Rightarrow> u32 \<Rightarrow> int \<Rightarrow> polyphase_src list \<Rightarrow> (int \<times> polyphase_src list) option" where
  "init_channels [] fs1 fs2 single start n ss = Some (n, ss)"
| "init_channels (i # is) fs1 fs2 single start n ss = do {
     s \<leftarrow> aget ss i;
     (case src_polyphase_init s fs1 fs2 start of (n, s) \<Rightarrow>
        init_channels is fs1 fs2 single (start + 4 * word_of_int single) n (ss[i := s])) }"

text \<open>The parameters of the sink: a copy of the stream's, with the output rate and the period adjusted to it.\<close>

definition src_sink_pcm :: "u32 \<Rightarrow> u32 \<Rightarrow> pcm_params \<Rightarrow> pcm_params" where
  "src_sink_pcm out_rate in_rate p =
     p\<lparr>rate := out_rate, period_count := period_count p * out_rate div in_rate, period_bytes := period_bytes p * out_rate div in_rate\<rparr>"

definition src_params :: "u32 \<Rightarrow> u32 \<Rightarrow> 'a src_world_scheme \<Rightarrow> (int \<times> 'a src_world_scheme) option" where
  "src_params d pcm w =
     (if stream_type (pcms w pcm) \<noteq> STREAM_TYPE_PCM \<or> frame_fmt (pcms w pcm) \<noteq> SOF_IPC_FRAME_S32_LE then Some (- EINVAL, w)
      else do {
        let w = comp_buffer_sink_params d pcm w;
        source \<leftarrow> first_of (bsource_list (devs w d));
        sink \<leftarrow> first_of (bsink_list (devs w d));
        let p = priv (devs w d);
        if SRC_CHANNELS < unat (channels (pcms w pcm)) then None
        else do {
          let w = upd_pcm (src_pcm p) (\<lambda>_. pcms w pcm) w;
          let w = upd_buf sink (\<lambda>b. b\<lparr>b_pcm := src_pcm p\<rparr>) w;
          let spcm = b_pcm (bufs w source);
          let out_rate = out_rates w d;
          let w = upd_pcm (src_pcm p) (\<lambda>c. c\<lparr>rate := out_rate\<rparr>) w;
          if rate (pcms w spcm) = 0 then None
          else do {
            let w = upd_pcm (src_pcm p) (src_sink_pcm out_rate (rate (pcms w spcm))) w;
            let fs1 = sint (rate (pcms w spcm));
            let fs2 = sint (rate (pcms w (src_pcm p)));
            let nch = sint (channels (pcms w spcm));
            (case src_buffer_lengths fs1 fs2 nch of
               (_, None) \<Rightarrow> Some (- EINVAL, w)
             | (_, Some need) \<Rightarrow> do {
                 let dls = 4 * word_of_int (src_alloc.total need);
                 h \<leftarrow> (if delay_lines (srcds w p) \<noteq> 0 then rfree (delay_lines (srcds w p)) (mm w) else Some (mm w));
                 (dl, h) \<leftarrow> rmalloc RZONE_RUNTIME RFLAGS_NONE dls h;
                 let w = upd_src p (\<lambda>cd. cd\<lparr>delay_lines := dl\<rparr>) (w\<lparr>mm := h\<rparr>);
                 if dl = 0 then Some (- ENOMEM, w)
                 else do {
                   let w = w\<lparr>wmem := memset (wmem w) dl 0 dls\<rparr>;
                   (n, ss) \<leftarrow> init_channels [0 ..< unat (channels (pcms w spcm))] fs1 fs2 (single_src need) (dl + 4 * word_of_int (scratch need)) 0 (srcs (srcds w p));
                   let w = upd_src p (\<lambda>cd. cd\<lparr>scratch_length := scratch need, srcs := ss\<rparr>) w;
                   if n \<noteq> 1 \<and> n \<noteq> 2 then Some (- EINVAL, upd_src p (\<lambda>cd. cd\<lparr>src_fn := Fallback\<rparr>) w)
                   else do {
                     let w = upd_src p (\<lambda>cd. cd\<lparr>src_fn := (if n = 1 then Src_1s else Src_2s)\<rparr>) w;
                     s0 \<leftarrow> aget ss 0;
                     if period_count (pcms w (b_pcm (bufs w source))) < word_of_int (p_blk_in s0) then Some (- EINVAL, w)
                     else if period_count (pcms w (b_pcm (bufs w sink))) < word_of_int (p_blk_out s0) then Some (- EINVAL, w)
                     else Some (0, w) } } }) } } })"

text \<open>\<open>COMP_CMD_SRC\<close> stores the masks of supported rates in its data: the second result.\<close>

definition src_cmd :: "u32 \<Rightarrow> int \<Rightarrow> 'a src_world_scheme \<Rightarrow> int \<times> (s32 \<times> s32) option \<times> 'a src_world_scheme" where
  "src_cmd d c w =
     (let p = priv (devs w d) in
      if c = COMP_CMD_SRC then (0, Some (src_input_rates, src_output_rates), w)
      else if c = COMP_CMD_MUTE then (0, None, upd_src p (\<lambda>cd. cd\<lparr>srcs := map src_polyphase_mute (srcs cd)\<rparr>) w)
      else if c = COMP_CMD_UNMUTE then (0, None, upd_src p (\<lambda>cd. cd\<lparr>srcs := map src_polyphase_unmute (srcs cd)\<rparr>) w)
      else (0, None, eq_state_cmd d c w))"

text \<open>The loop of \<open>src_copy\<close>; the comparisons with \<open>need_source\<close> and \<open>need_sink\<close> are unsigned.\<close>

fun src_copy_loop :: "nat \<Rightarrow> u32 \<Rightarrow> u32 \<Rightarrow> u32 \<Rightarrow> u32 \<Rightarrow> u32 \<Rightarrow> u32 \<Rightarrow> 'a src_world_scheme \<Rightarrow> 'a src_world_scheme option" where
  "src_copy_loop 0 p source sink need_source need_sink frames w = None"
| "src_copy_loop (Suc fuel) p source sink need_source need_sink frames w =
     (if need_source \<le> avail (bufs w source) \<and> need_sink \<le> bfree (bufs w sink) then do {
        (cd, w) \<leftarrow> call_src_func (src_fn (srcds w p)) fuel source sink frames (srcds w p) w;
        src_copy_loop fuel p source sink need_source need_sink frames (upd_src p (\<lambda>_. cd) w) }
      else Some w)"

definition src_copy :: "nat \<Rightarrow> u32 \<Rightarrow> 'a src_world_scheme \<Rightarrow> (int \<times> 'a src_world_scheme) option" where
  "src_copy fuel d w = do {
     let p = priv (devs w d);
     source \<leftarrow> first_of (bsource_list (devs w d));
     sink \<leftarrow> first_of (bsink_list (devs w d));
     s0 \<leftarrow> aget (srcs (srcds w p)) 0;
     let spcm = pcms w (b_pcm (bufs w source));
     let kpcm = pcms w (b_pcm (bufs w sink));
     let min_in = word_of_int (p_blk_in s0);
     let frames_source = (if min_in < period_count spcm then period_count spcm else min_in);
     let min_out = word_of_int (p_blk_out s0);
     let frames_sink = (if min_out < period_count kpcm then period_count kpcm else min_out);
     w \<leftarrow> src_copy_loop fuel p source sink (frames_source * frame_size spcm) (frames_sink * frame_size kpcm) frames_source w;
     Some (0, w) }"

definition src_prepare :: "u32 \<Rightarrow> 'a src_world_scheme \<Rightarrow> (int \<times> 'a src_world_scheme) option" where
  "src_prepare d w = Some (0, set_state d COMP_STATE_PREPARE w)"

definition src_preload :: "u32 \<Rightarrow> 'a src_world_scheme \<Rightarrow> (int \<times> 'a src_world_scheme) option" where
  "src_preload d w = Some (0, w)"

definition src_reset :: "u32 \<Rightarrow> 'a src_world_scheme \<Rightarrow> (int \<times> 'a src_world_scheme) option" where
  "src_reset d w =
     (let p = priv (devs w d) in
      Some (0, set_state d COMP_STATE_INIT (upd_src p (\<lambda>cd. cd\<lparr>src_fn := Src_2s, srcs := map src_polyphase_reset (srcs cd)\<rparr>) w)))"

end
