(* ===== verification/Reef_Src_Drv.thy ===== *)
theory Reef_Src_Drv
  imports Reef_Src Reef_Src_Modes
begin

unbundle bit_operations_syntax

text \<open>
  The driver of the sample rate converter: a period of all channels is, for each of them, the
  polyphase filter bank on its samples, each channel with its own delay lines; the conversions for
  which the parameters are refused because the delay lines do not fit a block of the runtime heap;
  and the copy function after a reset, which does not end.
\<close>

section \<open>One channel\<close>

definition chan_prm :: "int \<Rightarrow> comp_buffer \<Rightarrow> comp_buffer \<Rightarrow> int \<Rightarrow> u32 \<Rightarrow> u32 \<Rightarrow> src_stage \<Rightarrow> src_state \<Rightarrow> src_stage_prm" where
  "chan_prm t sr sk nch x y g st = \<lparr>times = t, x_rptr = x, x_end_addr = end_addr sr, x_size = alloc_size sr, x_inc = nch,
     y_wptr = y, y_end_addr = end_addr sk, y_size = alloc_size sk, y_inc = nch, prm_state = st, prm_stage = g\<rparr>"

lemma chan_prm_same:
  "same_call (chan_prm t sr sk nch x y g st) p \<Longrightarrow> p = chan_prm t sr sk nch (x_rptr p) (y_wptr p) g (prm_state p)"
  by (auto simp: same_call_def chan_prm_def)

lemma stage_blocks_add:
  "stage_blocks fuel (a + b) s m = do { (s, m) \<leftarrow> stage_blocks fuel a s m; stage_blocks fuel b s m }"
  by (induction a arbitrary: s m) (simp_all add: bind_assoc split_def)

text \<open>The loop over the blocks of one channel is one loop over all blocks of the stage.\<close>

lemma chan_blocks:
  assumes "prm_ok (chan_prm t sr sk nch x y g (state1 s))" "stage1 s = Some g" "nat (blk_in g) < fuel" "nat (num_of_subfilters g) < fuel"
    and "\<And>k. k < K \<Longrightarrow> cond (i + int k * bi)" "\<not> cond (i + int K * bi)" "K < F"
  shows "\<exists>p m'. stage_blocks fuel (K * nat t) (chan_prm t sr sk nch x y g (state1 s)) m = Some (p, m') \<and>
    block_loop (block_1s fuel t sr sk nch bi bo) F cond bi i (x, y, s, nr, nw, m)
      = Some (x_rptr p, y_wptr p, s\<lparr>state1 := prm_state p\<rparr>, nr + int K * bi, nw + int K * bo, m')"
  using assms
proof (induction K arbitrary: F i x y s nr nw m)
  case 0
  have "block_loop (block_1s fuel t sr sk nch bi bo) F cond bi i (x, y, s, nr, nw, m) = Some (x, y, s, nr, nw, m)"
    using "0.prems"(6) by (cases F) simp_all
  then show ?case by (simp add: chan_prm_def)
next
  case (Suc K)
  obtain f where F: "F = Suc f" using Suc.prems(7) by (cases F) simp_all
  let ?P = "chan_prm t sr sk nch x y g (state1 s)"
  have st: "prm_stage ?P = g" by (simp add: chan_prm_def)
  obtain ys hu where "ref_blocks g (nat t) (lines ?P m) (inputs ?P m (nat t * nat (blk_in g))) = (ys, hu)" by (rule prod.exhaust)
  from stage_blocks_ref [OF Suc.prems(1) st [symmetric] Suc.prems(3,4) this] obtain p m1 where
    b: "stage_blocks fuel (nat t) ?P m = Some (p, m1)" "prm_ok p" "same_call ?P p" by blast
  note p = chan_prm_same [OF b(3)]
  let ?s = "s\<lparr>state1 := prm_state p\<rparr>"
  have c: "block_1s fuel t sr sk nch bi bo (x, y, s, nr, nw, m) = Some (x_rptr p, y_wptr p, ?s, nr + bi, nw + bo, m1)"
    using b(1) Suc.prems(2) by (simp add: block_1s_def src_polyphase_stage_cir_def chan_prm_def)
  have "\<exists>p' m'. stage_blocks fuel (K * nat t) (chan_prm t sr sk nch (x_rptr p) (y_wptr p) g (state1 ?s)) m1 = Some (p', m') \<and>
    block_loop (block_1s fuel t sr sk nch bi bo) f cond bi (i + bi) (x_rptr p, y_wptr p, ?s, nr + bi, nw + bo, m1)
      = Some (x_rptr p', y_wptr p', ?s\<lparr>state1 := prm_state p'\<rparr>, (nr + bi) + int K * bi, (nw + bo) + int K * bo, m')"
  proof (rule Suc.IH)
    show "prm_ok (chan_prm t sr sk nch (x_rptr p) (y_wptr p) g (state1 ?s))" using b(2) p by simp
    show "cond (i + bi + int k * bi)" if "k < K" for k using Suc.prems(5) [of "Suc k"] that by (simp add: algebra_simps)
    show "\<not> cond (i + bi + int K * bi)" using Suc.prems(6) by (simp add: algebra_simps)
  qed (use Suc.prems F in simp_all)
  then obtain p' m' where ih: "stage_blocks fuel (K * nat t) p m1 = Some (p', m')"
    "block_loop (block_1s fuel t sr sk nch bi bo) f cond bi (i + bi) (x_rptr p, y_wptr p, ?s, nr + bi, nw + bo, m1)
      = Some (x_rptr p', y_wptr p', s\<lparr>state1 := prm_state p'\<rparr>, nr + int (Suc K) * bi, nw + int (Suc K) * bo, m')"
    using p by (auto simp: algebra_simps)
  have "stage_blocks fuel (Suc K * nat t) ?P m = Some (p', m')"
    using b(1) ih(1) by (simp add: stage_blocks_add)
  moreover have "cond i" using Suc.prems(5) [of 0] by simp
  then have "block_loop (block_1s fuel t sr sk nch bi bo) F cond bi i (x, y, s, nr, nw, m)
      = Some (x_rptr p', y_wptr p', s\<lparr>state1 := prm_state p'\<rparr>, nr + int (Suc K) * bi, nw + int (Suc K) * bo, m')"
    unfolding F using c ih(2) by simp
  ultimately show ?case by blast
qed

section \<open>All channels\<close>

definition lines_ok :: "src_state \<Rightarrow> bool" where
  "lines_ok st \<longleftrightarrow> 0 < fir_delay_size st \<and> 0 < out_delay_size st \<and>
     fits (fir_delay st) (nat (fir_delay_size st) * 4) \<and> fits (out_delay st) (nat (out_delay_size st) * 4)"

lemma prm_lines_ok: "prm_ok s \<Longrightarrow> lines_ok (prm_state s)"
  by (auto simp: prm_ok_def lines_ok_def cursor_ok_def Let_def)

lemma same_call_lines:
  assumes "same_call s s'"
  shows "scratch_of s' = scratch_of s" "lines_ok (prm_state s') = lines_ok (prm_state s)"
  using assms by (auto simp: same_call_def scratch_of_def lines_ok_def)

lemma lines_cong:
  assumes "lines_ok (prm_state s)" "\<And>x. unat x \<in> scratch_of s \<Longrightarrow> m' x = m x"
  shows "lines s m' = lines s m"
proof -
  note k = assms(1) [unfolded lines_ok_def]
  let ?st = "prm_state s"
  have "ring_hist m' (fir_delay ?st) (fir_delay_size ?st) (fir_wi ?st) = ring_hist m (fir_delay ?st) (fir_delay_size ?st) (fir_wi ?st)"
    by (rule ring_cong(2)) (use k assms(2) in \<open>simp_all add: scratch_of_def\<close>)
  moreover have "ring_from m' (out_delay ?st) (out_delay_size ?st) (out_ri ?st) = ring_from m (out_delay ?st) (out_delay_size ?st) (out_ri ?st)"
    by (rule ring_cong(1)) (use k assms(2) in \<open>simp_all add: scratch_of_def\<close>)
  ultimately show ?thesis by (simp add: lines_def Let_def)
qed

lemma inputs_cong:
  assumes "prm_ok s" "\<And>x. unat x \<in> area (x_end_addr s) (x_size s) \<Longrightarrow> m' x = m x"
  shows "inputs s m' k = inputs s m k"
  using prm_okD(1) [OF assms(1)] read_circ_cong assms(2) unfolding inputs_def by blast

text \<open>The call of channel \<open>j\<close> at the start of a period, and the outputs and delay lines that come of it.\<close>

definition chan_call :: "comp_buffer \<Rightarrow> comp_buffer \<Rightarrow> nat \<Rightarrow> int \<Rightarrow> u32 \<Rightarrow> u32 \<Rightarrow> polyphase_src list \<Rightarrow> nat \<Rightarrow> src_stage_prm" where
  "chan_call sr sk nch t src dest ss j =
     chan_prm t sr sk (int nch) (src + 4 * of_nat j) (dest + 4 * of_nat j) (the (stage1 (ss ! j))) (state1 (ss ! j))"

definition chan_result :: "nat \<Rightarrow> src_stage_prm \<Rightarrow> mem \<Rightarrow> s32 list \<times> stage_lines" where
  "chan_result k p m = ref_blocks (prm_stage p) k (lines p m) (inputs p m (k * nat (blk_in (prm_stage p))))"

definition chan_ready :: "nat \<Rightarrow> comp_buffer \<Rightarrow> comp_buffer \<Rightarrow> nat \<Rightarrow> int \<Rightarrow> u32 \<Rightarrow> u32 \<Rightarrow> polyphase_src list \<Rightarrow> nat \<Rightarrow> bool" where
  "chan_ready fuel sr sk nch t src dest ss j \<longleftrightarrow> stage1 (ss ! j) \<noteq> None \<and> prm_ok (chan_call sr sk nch t src dest ss j) \<and>
     nat (blk_in (the (stage1 (ss ! j)))) < fuel \<and> nat (num_of_subfilters (the (stage1 (ss ! j)))) < fuel"

text \<open>One channel of the period, from the beginning of its blocks.\<close>

lemma chan_period:
  assumes rdy: "chan_ready fuel sr sk nch t src dest ss j" and j: "j < length ss"
    and cond: "\<forall>k < K. cond (int k * bi)" "\<not> cond (int K * bi)" "K < fuel"
    and r: "chan_result (K * nat t) (chan_call sr sk nch t src dest ss j) m = (ys, hu)"
  shows "\<exists>x y st m'. block_loop (block_1s fuel t sr sk (int nch) bi bo) fuel cond bi 0 (src + 4 * of_nat j, dest + 4 * of_nat j, ss ! j, nr, nw, m)
      = Some (x, y, (ss ! j)\<lparr>state1 := st\<rparr>, nr + int K * bi, nw + int K * bo, m') \<and>
    lines (chan_call sr sk nch t src dest (ss[j := (ss ! j)\<lparr>state1 := st\<rparr>]) j) m' = hu \<and>
    x = x_after (chan_call sr sk nch t src dest ss j) (K * nat t * nat (blk_in (the (stage1 (ss ! j))))) \<and>
    y = y_after (chan_call sr sk nch t src dest ss j) (K * nat t * nat (num_of_subfilters (the (stage1 (ss ! j))))) \<and>
    (\<forall>a. unat a \<notin> scratch_of (chan_call sr sk nch t src dest ss j) \<longrightarrow> m' a = outputs (chan_call sr sk nch t src dest ss j) ys m a) \<and>
    scratch_of (chan_call sr sk nch t src dest (ss[j := (ss ! j)\<lparr>state1 := st\<rparr>]) j) = scratch_of (chan_call sr sk nch t src dest ss j) \<and>
    lines_ok st"
proof -
  let ?P = "chan_call sr sk nch t src dest ss j"
  obtain g where g: "stage1 (ss ! j) = Some g" using rdy by (auto simp: chan_ready_def)
  have P: "?P = chan_prm t sr sk (int nch) (src + 4 * of_nat j) (dest + 4 * of_nat j) g (state1 (ss ! j))" "prm_stage ?P = g"
    using g by (simp_all add: chan_call_def chan_prm_def)
  have ok: "prm_ok ?P" "nat (blk_in g) < fuel" "nat (num_of_subfilters g) < fuel" using rdy g by (simp_all add: chan_ready_def)
  from stage_blocks_ref [OF ok(1) P(2) [symmetric] ok(2,3) r [unfolded chan_result_def P(2)]] obtain p m' where
    b: "stage_blocks fuel (K * nat t) ?P m = Some (p, m')" "prm_ok p" "lines p m' = hu" "x_rptr p = x_after ?P (K * nat t * nat (blk_in g))"
      "y_wptr p = y_after ?P (K * nat t * nat (num_of_subfilters g))"
      "\<forall>x. unat x \<notin> scratch_of ?P \<longrightarrow> m' x = outputs ?P ys m x" "same_call ?P p" by blast
  have "\<exists>q n. stage_blocks fuel (K * nat t) ?P m = Some (q, n) \<and>
    block_loop (block_1s fuel t sr sk (int nch) bi bo) fuel cond bi 0 (src + 4 * of_nat j, dest + 4 * of_nat j, ss ! j, nr, nw, m)
      = Some (x_rptr q, y_wptr q, (ss ! j)\<lparr>state1 := prm_state q\<rparr>, nr + int K * bi, nw + int K * bo, n)"
    unfolding P(1) by (rule chan_blocks [OF ok(1) [unfolded P(1)] g ok(2,3)]) (use cond in simp_all)
  then have "block_loop (block_1s fuel t sr sk (int nch) bi bo) fuel cond bi 0 (src + 4 * of_nat j, dest + 4 * of_nat j, ss ! j, nr, nw, m)
      = Some (x_rptr p, y_wptr p, (ss ! j)\<lparr>state1 := prm_state p\<rparr>, nr + int K * bi, nw + int K * bo, m')"
    using b(1) by simp
  moreover have "lines (chan_call sr sk nch t src dest (ss[j := (ss ! j)\<lparr>state1 := prm_state p\<rparr>]) j) m' = hu"
    using b(3) j by (simp add: chan_call_def chan_prm_def lines_def)
  moreover have "scratch_of (chan_call sr sk nch t src dest (ss[j := (ss ! j)\<lparr>state1 := prm_state p\<rparr>]) j) = scratch_of ?P"
    using same_call_lines(1) [OF b(7)] j by (simp add: chan_call_def chan_prm_def scratch_of_def)
  moreover have "lines_ok (prm_state p)" using same_call_lines(2) [OF b(7)] prm_lines_ok [OF ok(1)] by simp
  ultimately show ?thesis unfolding g option.sel using b(4,5,6) by blast
qed

lemma outputs_outside: "prm_ok s \<Longrightarrow> unat x \<notin> area (y_end_addr s) (y_size s) \<Longrightarrow> outputs s ys m x = m x"
  using prm_okD(2) write_circ_outside unfolding outputs_def by blast

lemma fold_outputs_agree: "m x = m' x \<Longrightarrow> fold (\<lambda>j. outputs (p j) (ys j)) js m x = fold (\<lambda>j. outputs (p j) (ys j)) js m' x"
proof (induction js arbitrary: m m')
  case (Cons j js)
  have "outputs (p j) (ys j) m x = outputs (p j) (ys j) m' x" unfolding outputs_def using Cons.prems by (rule write_circ_agree)
  then show ?case unfolding fold.simps o_apply by (rule Cons.IH)
qed simp

lemma fold_outputs_outside:
  "\<forall>j \<in> set js. prm_ok (p j) \<and> unat x \<notin> area (y_end_addr (p j)) (y_size (p j)) \<Longrightarrow> fold (\<lambda>j. outputs (p j) (ys j)) js m x = m x"
  by (induction js arbitrary: m) (simp_all add: outputs_outside)

lemma chan_call_sel [simp]:
  "x_end_addr (chan_call sr sk nch t src dest ss j) = end_addr sr" "x_size (chan_call sr sk nch t src dest ss j) = alloc_size sr"
  "y_end_addr (chan_call sr sk nch t src dest ss j) = end_addr sk" "y_size (chan_call sr sk nch t src dest ss j) = alloc_size sk"
  "prm_state (chan_call sr sk nch t src dest ss j) = state1 (ss ! j)"
  by (simp_all add: chan_call_def chan_prm_def)

lemma chan_result_cong:
  assumes "prm_ok p" "\<And>x. unat x \<in> scratch_of p \<union> area (x_end_addr p) (x_size p) \<Longrightarrow> m' x = m x"
  shows "chan_result k p m' = chan_result k p m"
  using lines_cong [OF prm_lines_ok [OF assms(1)], of m' m] inputs_cong [OF assms(1), of m' m] assms(2) by (simp add: chan_result_def)

text \<open>All channels from channel \<open>c\<close> on: every channel works as if it were alone.\<close>

lemma channels_period:
  assumes rdy: "\<forall>j. c \<le> j \<and> j < N \<longrightarrow> chan_ready fuel sr sk nch t src dest ss j" and N: "N \<le> length ss" "N = c + d"
    and apart: "\<forall>i j. c \<le> i \<and> i < j \<and> j < N \<longrightarrow> scratch_of (chan_call sr sk nch t src dest ss i) \<inter> scratch_of (chan_call sr sk nch t src dest ss j) = {}"
    and cond: "\<forall>k < K. cond (int k * bi)" "\<not> cond (int K * bi)" "K < fuel"
  shows "\<exists>x y ss' m'. src_channels (block_1s fuel t sr sk (int nch) bi bo) fuel cond bi [c ..< N] (src + 4 * of_nat c) (dest + 4 * of_nat c) (x0, y0, ss, nr, nw, m)
      = Some (x, y, ss', nr + int d * (int K * bi), nw + int d * (int K * bo), m') \<and> length ss' = length ss \<and> (\<forall>j < c. ss' ! j = ss ! j) \<and>
    (\<forall>j. c \<le> j \<and> j < N \<longrightarrow> lines (chan_call sr sk nch t src dest ss' j) m' = snd (chan_result (K * nat t) (chan_call sr sk nch t src dest ss j) m)) \<and>
    (\<forall>a. (\<forall>j. c \<le> j \<and> j < N \<longrightarrow> unat a \<notin> scratch_of (chan_call sr sk nch t src dest ss j)) \<longrightarrow>
       m' a = fold (\<lambda>j. outputs (chan_call sr sk nch t src dest ss j) (fst (chan_result (K * nat t) (chan_call sr sk nch t src dest ss j) m))) [c ..< N] m a) \<and>
    (if d = 0 then x = x0 \<and> y = y0
     else x = x_after (chan_call sr sk nch t src dest ss (N - 1)) (K * nat t * nat (blk_in (the (stage1 (ss ! (N - 1)))))) \<and>
          y = y_after (chan_call sr sk nch t src dest ss (N - 1)) (K * nat t * nat (num_of_subfilters (the (stage1 (ss ! (N - 1)))))))"
  using rdy N apart
proof (induction d arbitrary: c x0 y0 ss nr nw m)
  case 0
  then show ?case by auto
next
  case (Suc d)
  let ?P = "chan_call sr sk nch t src dest ss" and ?R = "\<lambda>m j. chan_result (K * nat t) (chan_call sr sk nch t src dest ss j) m"
  have cN: "c < N" "c < length ss" "N = Suc c + d" using Suc.prems(2,3) by simp_all
  have rc: "chan_ready fuel sr sk nch t src dest ss c" using Suc.prems(1) cN by simp
  have ok: "prm_ok (?P j)" if "c \<le> j" "j < N" for j using Suc.prems(1) that by (simp add: chan_ready_def)
  obtain ys hu where R: "?R m c = (ys, hu)" by (rule prod.exhaust)
  from chan_period [OF rc cN(2) cond R, of bo nr nw] obtain x y st m1 where
    c1: "block_loop (block_1s fuel t sr sk (int nch) bi bo) fuel cond bi 0 (src + 4 * of_nat c, dest + 4 * of_nat c, ss ! c, nr, nw, m)
      = Some (x, y, (ss ! c)\<lparr>state1 := st\<rparr>, nr + int K * bi, nw + int K * bo, m1)"
    "lines (chan_call sr sk nch t src dest (ss[c := (ss ! c)\<lparr>state1 := st\<rparr>]) c) m1 = hu"
    "x = x_after (?P c) (K * nat t * nat (blk_in (the (stage1 (ss ! c)))))"
    "y = y_after (?P c) (K * nat t * nat (num_of_subfilters (the (stage1 (ss ! c)))))"
    "\<forall>a. unat a \<notin> scratch_of (?P c) \<longrightarrow> m1 a = outputs (?P c) ys m a"
    "scratch_of (chan_call sr sk nch t src dest (ss[c := (ss ! c)\<lparr>state1 := st\<rparr>]) c) = scratch_of (?P c)" "lines_ok st" by blast
  define ss1 where "ss1 = ss[c := (ss ! c)\<lparr>state1 := st\<rparr>]"
  have other: "chan_call sr sk nch t src dest ss1 j = ?P j" "ss1 ! j = ss ! j" if "j \<noteq> c" for j
    using that by (simp_all add: ss1_def chan_call_def)
  have sep: "scratch_of (?P c) \<inter> scratch_of (?P j) = {}" if "Suc c \<le> j" "j < N" for j
    using Suc.prems(4) that by simp
  have ax: "area (end_addr sr) (alloc_size sr) \<inter> scratch_of (?P c) = {}" "area (end_addr sr) (alloc_size sr) \<inter> area (end_addr sk) (alloc_size sk) = {}"
    using prm_okD(3,4) [OF ok [OF order_refl cN(1)]] by simp_all
  have ay: "area (end_addr sk) (alloc_size sk) \<inter> scratch_of (?P j) = {}" if "c \<le> j" "j < N" for j
    using ok [OF that] by (auto simp: prm_ok_def scratch_of_def Let_def)
  have same: "m1 a = m a" if "unat a \<notin> scratch_of (?P c)" "unat a \<notin> area (end_addr sk) (alloc_size sk)" for a
    using c1(5) that outputs_outside [OF ok [OF order_refl cN(1)]] by simp
  have R1: "chan_result (K * nat t) (?P j) m1 = ?R m j" if j: "Suc c \<le> j" "j < N" for j
  proof (rule chan_result_cong)
    show "prm_ok (?P j)" using ok j by simp
    fix a :: u32 assume "unat a \<in> scratch_of (?P j) \<union> area (x_end_addr (?P j)) (x_size (?P j))"
    then have "unat a \<in> scratch_of (?P j) \<or> unat a \<in> area (end_addr sr) (alloc_size sr)" by simp
    moreover have "area (end_addr sk) (alloc_size sk) \<inter> scratch_of (?P j) = {}" using ay j by simp
    ultimately have "unat a \<notin> scratch_of (?P c)" "unat a \<notin> area (end_addr sk) (alloc_size sk)" using sep [OF j] ax by blast+
    then show "m1 a = m a" by (rule same)
  qed
  have "\<exists>x' y' ss' m'. src_channels (block_1s fuel t sr sk (int nch) bi bo) fuel cond bi [Suc c ..< N] (src + 4 * of_nat (Suc c)) (dest + 4 * of_nat (Suc c))
        (x, y, ss1, nr + int K * bi, nw + int K * bo, m1)
      = Some (x', y', ss', (nr + int K * bi) + int d * (int K * bi), (nw + int K * bo) + int d * (int K * bo), m') \<and> length ss' = length ss1 \<and>
    (\<forall>j < Suc c. ss' ! j = ss1 ! j) \<and>
    (\<forall>j. Suc c \<le> j \<and> j < N \<longrightarrow> lines (chan_call sr sk nch t src dest ss' j) m' = snd (chan_result (K * nat t) (chan_call sr sk nch t src dest ss1 j) m1)) \<and>
    (\<forall>a. (\<forall>j. Suc c \<le> j \<and> j < N \<longrightarrow> unat a \<notin> scratch_of (chan_call sr sk nch t src dest ss1 j)) \<longrightarrow>
       m' a = fold (\<lambda>j. outputs (chan_call sr sk nch t src dest ss1 j) (fst (chan_result (K * nat t) (chan_call sr sk nch t src dest ss1 j) m1))) [Suc c ..< N] m1 a) \<and>
    (if d = 0 then x' = x \<and> y' = y
     else x' = x_after (chan_call sr sk nch t src dest ss1 (N - 1)) (K * nat t * nat (blk_in (the (stage1 (ss1 ! (N - 1)))))) \<and>
          y' = y_after (chan_call sr sk nch t src dest ss1 (N - 1)) (K * nat t * nat (num_of_subfilters (the (stage1 (ss1 ! (N - 1)))))))"
  proof (rule Suc.IH)
    show "\<forall>j. Suc c \<le> j \<and> j < N \<longrightarrow> chan_ready fuel sr sk nch t src dest ss1 j"
      using Suc.prems(1) other by (simp add: chan_ready_def)
    show "\<forall>i j. Suc c \<le> i \<and> i < j \<and> j < N \<longrightarrow> scratch_of (chan_call sr sk nch t src dest ss1 i) \<inter> scratch_of (chan_call sr sk nch t src dest ss1 j) = {}"
      using Suc.prems(4) other by simp
  qed (use Suc.prems(2) cN in \<open>simp_all add: ss1_def\<close>)
  then obtain x' y' ss' m' where
    ih: "src_channels (block_1s fuel t sr sk (int nch) bi bo) fuel cond bi [Suc c ..< N] (src + 4 * of_nat (Suc c)) (dest + 4 * of_nat (Suc c))
        (x, y, ss1, nr + int K * bi, nw + int K * bo, m1)
      = Some (x', y', ss', (nr + int K * bi) + int d * (int K * bi), (nw + int K * bo) + int d * (int K * bo), m')"
    and len: "length ss' = length ss1" and bef: "\<forall>j < Suc c. ss' ! j = ss1 ! j"
    and ln: "\<forall>j. Suc c \<le> j \<and> j < N \<longrightarrow> lines (chan_call sr sk nch t src dest ss' j) m' = snd (chan_result (K * nat t) (chan_call sr sk nch t src dest ss1 j) m1)"
    and ot: "\<forall>a. (\<forall>j. Suc c \<le> j \<and> j < N \<longrightarrow> unat a \<notin> scratch_of (chan_call sr sk nch t src dest ss1 j)) \<longrightarrow>
       m' a = fold (\<lambda>j. outputs (chan_call sr sk nch t src dest ss1 j) (fst (chan_result (K * nat t) (chan_call sr sk nch t src dest ss1 j) m1))) [Suc c ..< N] m1 a"
    and xy: "if d = 0 then x' = x \<and> y' = y
     else x' = x_after (chan_call sr sk nch t src dest ss1 (N - 1)) (K * nat t * nat (blk_in (the (stage1 (ss1 ! (N - 1)))))) \<and>
          y' = y_after (chan_call sr sk nch t src dest ss1 (N - 1)) (K * nat t * nat (num_of_subfilters (the (stage1 (ss1 ! (N - 1))))))"
    by blast
  have line_c: "lines (chan_call sr sk nch t src dest ss' c) m' = snd (?R m c)"
  proof -
    have m': "m' a = m1 a" if a: "unat a \<in> scratch_of (?P c)" for a
    proof -
      have "m' a = fold (\<lambda>j. outputs (chan_call sr sk nch t src dest ss1 j) (fst (chan_result (K * nat t) (chan_call sr sk nch t src dest ss1 j) m1))) [Suc c ..< N] m1 a"
        using ot sep other a by auto
      also have "\<dots> = m1 a"
      proof (rule fold_outputs_outside, rule ballI)
        fix j assume "j \<in> set [Suc c ..< N]"
        then have "Suc c \<le> j" "j < N" by auto
        then show "prm_ok (chan_call sr sk nch t src dest ss1 j) \<and>
            unat a \<notin> area (y_end_addr (chan_call sr sk nch t src dest ss1 j)) (y_size (chan_call sr sk nch t src dest ss1 j))"
          using ok [of j] other [of j] ay [OF order_refl cN(1)] a by auto
      qed
      finally show ?thesis .
    qed
    have "chan_call sr sk nch t src dest ss' c = chan_call sr sk nch t src dest ss1 c" using bef by (simp add: chan_call_def)
    moreover have "lines (chan_call sr sk nch t src dest ss1 c) m' = lines (chan_call sr sk nch t src dest ss1 c) m1"
      by (rule lines_cong) (use c1(6,7) m' cN(2) in \<open>simp_all add: ss1_def\<close>)
    ultimately show ?thesis using c1(2) R by (simp add: ss1_def)
  qed
  have up: "[c ..< N] = c # [Suc c ..< N]" using cN(1) by (simp add: upt_conv_Cons)
  have step: "src_channels (block_1s fuel t sr sk (int nch) bi bo) fuel cond bi [c ..< N] (src + 4 * of_nat c) (dest + 4 * of_nat c) (x0, y0, ss, nr, nw, m)
      = Some (x', y', ss', nr + int (Suc d) * (int K * bi), nw + int (Suc d) * (int K * bo), m')"
  proof -
    have p4: "p + 4 * of_nat c + 4 = (p + 4 * of_nat (Suc c) :: u32)" for p by simp
    show ?thesis
      unfolding up src_channels.simps aget_in [OF cN(2)] bind.bind_lunit c1(1) prod.case p4 ss1_def [symmetric] ih
      by (simp add: algebra_simps)
  qed
  have "length ss' = length ss" "\<forall>j < c. ss' ! j = ss ! j" using len bef other(2) by (simp_all add: ss1_def)
  moreover have "lines (chan_call sr sk nch t src dest ss' j) m' = snd (?R m j)" if j: "c \<le> j" "j < N" for j
    using ln line_c R1 other(1) j by (cases "j = c") simp_all
  moreover have "m' a = fold (\<lambda>j. outputs (?P j) (fst (?R m j))) [c ..< N] m a"
    if a: "\<forall>j. c \<le> j \<and> j < N \<longrightarrow> unat a \<notin> scratch_of (?P j)" for a
  proof -
    have m1: "m1 a = outputs (?P c) (fst (?R m c)) m a" using c1(5) a cN(1) R by simp
    have "m' a = fold (\<lambda>j. outputs (chan_call sr sk nch t src dest ss1 j) (fst (chan_result (K * nat t) (chan_call sr sk nch t src dest ss1 j) m1))) [Suc c ..< N] m1 a"
      using ot other a by simp
    also have "\<dots> = fold (\<lambda>j. outputs (?P j) (fst (?R m j))) [Suc c ..< N] m1 a"
    proof -
      have "fold (\<lambda>j. outputs (chan_call sr sk nch t src dest ss1 j) (fst (chan_result (K * nat t) (chan_call sr sk nch t src dest ss1 j) m1))) [Suc c ..< N] m1
          = fold (\<lambda>j. outputs (?P j) (fst (?R m j))) [Suc c ..< N] m1"
        by (rule fold_cong) (use other(1) R1 in auto)
      then show ?thesis by simp
    qed
    also have "\<dots> = fold (\<lambda>j. outputs (?P j) (fst (?R m j))) [Suc c ..< N] (outputs (?P c) (fst (?R m c)) m) a"
      using m1 by (rule fold_outputs_agree)
    finally show ?thesis unfolding up by simp
  qed
  moreover have "x' = x_after (?P (N - 1)) (K * nat t * nat (blk_in (the (stage1 (ss ! (N - 1)))))) \<and>
      y' = y_after (?P (N - 1)) (K * nat t * nat (num_of_subfilters (the (stage1 (ss ! (N - 1))))))"
  proof (cases "d = 0")
    case True
    then have "N - 1 = c" using cN(3) by simp
    then show ?thesis using xy True c1(3,4) by simp
  next
    case False
    then have "N - 1 \<noteq> c" using cN(3) by simp
    then show ?thesis using xy False other by simp
  qed
  ultimately show ?case using step by auto
qed

section \<open>A period\<close>

lemma more_1s_iff:
  assumes "0 \<le> i + bi - 1" "i + bi - 1 < 2 ^ 31" "F < 2 ^ 31"
  shows "more_1s (of_nat F) bi i \<longleftrightarrow> i + bi - 1 < int F"
  using assms uint_of_int32 [of "i + bi - 1"] uint_of_nat32 [of F] by (simp add: more_1s_def word_less_def)

lemma period_blocks:
  assumes "1 \<le> bi" "bi + int F < 2 ^ 31" "K = F div nat bi"
  shows "\<forall>k < K. more_1s (of_nat F) bi (int k * bi)" "\<not> more_1s (of_nat F) bi (int K * bi)"
proof -
  have b: "int (nat bi) = bi" "F < 2 ^ 31" using assms by simp_all
  have le: "int k * bi + bi \<le> int F" if "k < K" for k
  proof -
    have "Suc k * nat bi \<le> F" using that assms(3) by (metis Suc_leI div_times_less_eq_dividend le_trans mult_le_mono1)
    then have "int (Suc k * nat bi) \<le> int F" by (simp only: of_nat_le_iff)
    then show ?thesis using b(1) by (simp add: algebra_simps)
  qed
  show "\<forall>k < K. more_1s (of_nat F) bi (int k * bi)"
  proof (intro allI impI)
    fix k assume "k < K"
    then have "int k * bi + bi \<le> int F" by (rule le)
    moreover have "0 \<le> int k * bi" using assms(1) by simp
    ultimately have "0 \<le> int k * bi + bi - 1" "int k * bi + bi - 1 < 2 ^ 31" "int k * bi + bi - 1 < int F" using assms(1,2) by linarith+
    then show "more_1s (of_nat F) bi (int k * bi)" using b(2) by (simp only: more_1s_iff)
  qed
  have "F < nat bi + F div nat bi * nat bi" by (rule dividend_less_div_times) (use assms(1) in simp)
  then have "int F < int (nat bi + K * nat bi)" unfolding assms(3) by (simp only: of_nat_less_iff)
  then have 1: "int F < int K * bi + bi" using b(1) by (simp add: algebra_simps)
  have "K * nat bi \<le> F" unfolding assms(3) by simp
  then have "int K * bi \<le> int F" using b(1) by (metis of_nat_le_iff of_nat_mult)
  then show "\<not> more_1s (of_nat F) bi (int K * bi)"
    using 1 assms(1,2) b(2) by (subst more_1s_iff) simp_all
qed

text \<open>
  C7: a period of a one-stage conversion of \<open>N\<close> channels. Every channel's samples, read at its place in
  the frames of the source, pass through the polyphase filter bank of its stage, \<open>K\<close> blocks of them, from
  the contents of its own delay lines, which afterwards hold the channel's history; the outputs are
  stored at the channel's place in the frames of the sink. No channel disturbs another, nothing else
  but the delay lines is written, and the pointers and counters move by the samples consumed and produced.
\<close>
theorem src_1s_period:
  fixes w :: "'a world_scheme"
  assumes b: "bufs w source = sr" "bufs w sink = sk" "source \<noteq> sink"
    and N: "channels (pcms w (b_pcm sk)) = of_nat N" "0 < N" "N < 2 ^ 31" "N \<le> length (srcs cd)"
    and s0: "\<not> p_mute (srcs cd ! 0)" "stage1_times (srcs cd ! 0) = t" "p_blk_in (srcs cd ! 0) = bi" "p_blk_out (srcs cd ! 0) = bo"
    and K: "1 \<le> bi" "bi + int F < 2 ^ 31" "K = F div nat bi" "K < fuel"
    and P: "P = chan_call sr sk N t (r_ptr sr) (w_ptr sk) (srcs cd)" "R = (\<lambda>j. chan_result (K * nat t) (P j) (wmem w))"
    and rdy: "\<forall>j < N. chan_ready fuel sr sk N t (r_ptr sr) (w_ptr sk) (srcs cd) j"
    and apart: "\<forall>i j. i < j \<and> j < N \<longrightarrow> scratch_of (P i) \<inter> scratch_of (P j) = {}"
  shows "\<exists>ss w'. src_1s_s32_default fuel source sink (of_nat F) cd w = Some (cd\<lparr>srcs := ss\<rparr>, w') \<and>
    (\<forall>j < N. lines (chan_call sr sk N t (r_ptr sr) (w_ptr sk) ss j) (wmem w') = snd (R j)) \<and>
    (\<forall>a. (\<forall>j < N. unat a \<notin> scratch_of (P j)) \<longrightarrow> wmem w' a = fold (\<lambda>j. outputs (P j) (fst (R j))) [0 ..< N] (wmem w) a) \<and>
    bufs w' source = comp_update_source_free_avail (word_of_int (int N * (int K * bi))) (comp_wrap_source_r_ptr_circular
      (sr\<lparr>r_ptr := x_after (P (N - 1)) (K * nat t * nat (blk_in (prm_stage (P (N - 1))))) - 4 * (of_nat N - 1)\<rparr>)) \<and>
    bufs w' sink = comp_update_sink_free_avail (word_of_int (int N * (int K * bo))) (comp_wrap_sink_w_ptr_circular
      (sk\<lparr>w_ptr := y_after (P (N - 1)) (K * nat t * nat (num_of_subfilters (prm_stage (P (N - 1))))) - 4 * (of_nat N - 1)\<rparr>))"
proof -
  note sN = sint_of_nat32 [OF N(3)]
  have "0 < length (srcs cd)" using N(2,4) by (rule less_le_trans)
  then have a0: "aget (srcs cd) 0 = Some (srcs cd ! 0)" by (rule aget_in)
  have "\<forall>j. 0 \<le> j \<and> j < N \<longrightarrow> chan_ready fuel sr sk N t (r_ptr sr) (w_ptr sk) (srcs cd) j" using rdy by simp
  moreover have "\<forall>i j. 0 \<le> i \<and> i < j \<and> j < N \<longrightarrow> scratch_of (chan_call sr sk N t (r_ptr sr) (w_ptr sk) (srcs cd) i)
      \<inter> scratch_of (chan_call sr sk N t (r_ptr sr) (w_ptr sk) (srcs cd) j) = {}" using apart P(1) by simp
  moreover have "N = 0 + N" by simp
  ultimately obtain x y ss m where
    e: "src_channels (block_1s fuel t sr sk (int N) bi bo) fuel (more_1s (of_nat F) bi) bi [0 ..< N] (r_ptr sr + 4 * of_nat 0) (w_ptr sk + 4 * of_nat 0)
        (r_ptr sr + 4 * (of_nat N - 1), w_ptr sk + 4 * (of_nat N - 1), srcs cd, 0, 0, wmem w)
      = Some (x, y, ss, 0 + int N * (int K * bi), 0 + int N * (int K * bo), m)"
    and l: "\<forall>j. 0 \<le> j \<and> j < N \<longrightarrow> lines (chan_call sr sk N t (r_ptr sr) (w_ptr sk) ss j) m = snd (R j)"
    and o: "\<forall>a. (\<forall>j. 0 \<le> j \<and> j < N \<longrightarrow> unat a \<notin> scratch_of (P j)) \<longrightarrow> m a = fold (\<lambda>j. outputs (P j) (fst (R j))) [0 ..< N] (wmem w) a"
    and xy: "if N = 0 then x = r_ptr sr + 4 * (of_nat N - 1) \<and> y = w_ptr sk + 4 * (of_nat N - 1)
     else x = x_after (P (N - 1)) (K * nat t * nat (blk_in (the (stage1 (srcs cd ! (N - 1)))))) \<and>
          y = y_after (P (N - 1)) (K * nat t * nat (num_of_subfilters (the (stage1 (srcs cd ! (N - 1))))))"
    using channels_period [of 0 N fuel sr sk N t "r_ptr sr" "w_ptr sk" "srcs cd" N K "more_1s (of_nat F) bi" bi bo
        "r_ptr sr + 4 * (of_nat N - 1)" "w_ptr sk + 4 * (of_nat N - 1)" 0 0 "wmem w"] N(4) period_blocks [OF K(1-3)] K(4)
    unfolding P(2) P(1) by blast
  have st: "prm_stage (P (N - 1)) = the (stage1 (srcs cd ! (N - 1)))" by (simp add: P(1) chan_call_def chan_prm_def)
  have e': "src_channels (block_1s fuel t sr sk (int N) bi bo) fuel (more_1s (of_nat F) bi) bi [0 ..< N] (r_ptr sr) (w_ptr sk)
        (r_ptr sr + 4 * (of_nat N - 1), w_ptr sk + 4 * (of_nat N - 1), srcs cd, 0, 0, wmem w)
      = Some (x, y, ss, int N * (int K * bi), int N * (int K * bo), m)" using e by simp
  define w1 where "w1 = upd_buf sink (\<lambda>b. b\<lparr>w_ptr := y - 4 * (of_nat N - 1)\<rparr>) (upd_buf source (\<lambda>b. b\<lparr>r_ptr := x - 4 * (of_nat N - 1)\<rparr>) (w\<lparr>wmem := m\<rparr>))"
  define w2 where "w2 = upd_buf sink (comp_update_sink_free_avail (word_of_int (int N * (int K * bo))))
    (upd_buf source (comp_update_source_free_avail (word_of_int (int N * (int K * bi))))
      (upd_buf sink comp_wrap_sink_w_ptr_circular (upd_buf source comp_wrap_source_r_ptr_circular w1)))"
  have "src_1s_s32_default fuel source sink (of_nat F) cd w = Some (cd\<lparr>srcs := ss\<rparr>, w2)"
    unfolding src_1s_s32_default_def src_convert_def Let_def a0 bind.bind_lunit b(1,2) N(1) s0(2-4) sN if_not_P [OF s0(1)] nat_int e' prod.case
      w2_def w1_def ..
  moreover have "wmem w2 = m"
    "bufs w2 source = comp_update_source_free_avail (word_of_int (int N * (int K * bi))) (comp_wrap_source_r_ptr_circular (sr\<lparr>r_ptr := x - 4 * (of_nat N - 1)\<rparr>))"
    "bufs w2 sink = comp_update_sink_free_avail (word_of_int (int N * (int K * bo))) (comp_wrap_sink_w_ptr_circular (sk\<lparr>w_ptr := y - 4 * (of_nat N - 1)\<rparr>))"
    using b by (simp_all add: w2_def w1_def)
  ultimately show ?thesis using l o xy N(2) unfolding st by (intro exI [of _ ss] exI [of _ w2]) simp
qed

end
