(* ===== verification/Reef_Src_Drv_Props.thy ===== *)
theory Reef_Src_Drv_Props
  imports Reef_Src_Drv Reef_Ring
begin

unbundle bit_operations_syntax

text \<open>
  What the driver of the sample rate converter refuses and where it does not return, and concrete
  worlds for its theorems.
\<close>

section \<open>Parameters\<close>

text \<open>The conversions whose delay lines for two channels take more than the 1024 bytes of the largest runtime block.\<close>

definition stereo_too_large :: "(int \<times> int) list" where
  "stereo_too_large = [(16000, 8000), (24000, 8000), (32000, 8000), (48000, 8000), (24000, 16000), (32000, 16000), (48000, 16000),
     (48000, 24000), (48000, 32000), (44100, 48000), (96000, 48000), (192000, 48000)]"

lemma stereo_need:
  assumes "(fs1, fs2) \<in> set stereo_too_large"
  obtains a where "src_buffer_lengths fs1 fs2 2 = (0, Some a)" "256 < src_alloc.total a" "src_alloc.total a < 1000"
proof -
  have h: "list_all (\<lambda>(a, b). case src_buffer_lengths a b 2 of (r, Some n) \<Rightarrow> r = 0 \<and> 256 < src_alloc.total n \<and> src_alloc.total n < 1000 | _ \<Rightarrow> False)
      stereo_too_large"
    unfolding stereo_too_large_def
    by (simp add: src_buffer_lengths_def Let_def src_find_fs_def src_in_fs_def src_out_fs_def src_table1_def src_table2_def stage_defs
        src_fir_delay_length_def src_out_delay_length_def src_stage_buf_length_def gcd_c_eq gcd_8_21)
  have "case src_buffer_lengths fs1 fs2 2 of (r, Some n) \<Rightarrow> r = 0 \<and> 256 < src_alloc.total n \<and> src_alloc.total n < 1000 | _ \<Rightarrow> False"
    using bspec [OF h [unfolded list_all_iff] assms] by simp
  then show ?thesis using that by (auto split: prod.splits option.splits)
qed

lemma fit_level_small: "\<forall>m \<in> set ms. ucast (block_size m) < n \<Longrightarrow> fit_level n i ms = None"
  by (induction ms arbitrary: i) simp_all

text \<open>
  for these conversions, among them 48 kHz to 16 kHz and 44.1 kHz to 48 kHz, the parameters of a
  stereo stream are refused with \<open>-ENOMEM\<close> however empty the heap is, and the converter is left
  without delay lines.
\<close>
theorem src_stereo_enomem:
  assumes fmt: "stream_type (pcms w pcm) = STREAM_TYPE_PCM" "frame_fmt (pcms w pcm) = SOF_IPC_FRAME_S32_LE" "channels (pcms w pcm) = 2"
    and ls: "bsource_list (devs w d) = source # srcs'" "bsink_list (devs w d) = [sink]" "source \<noteq> sink"
    and p: "priv (devs w d) = p" "b_pcm (bufs w source) = pcm" "pcm \<noteq> src_pcm p" "delay_lines (srcds w p) = 0"
    and rates: "(sint (rate (pcms w pcm)), sint (out_rates w d)) \<in> set stereo_too_large"
    and heap: "\<forall>m \<in> set (rt_heap_map (mm w)). block_size m \<le> 1024"
  shows "\<exists>w'. src_params d pcm w = Some (- ENOMEM, w') \<and> delay_lines (srcds w' p) = 0"
proof -
  obtain a where a: "src_buffer_lengths (sint (rate (pcms w pcm))) (sint (out_rates w d)) 2 = (0, Some a)" "256 < src_alloc.total a" "src_alloc.total a < 1000"
    using stereo_need [OF rates] by blast
  have nz: "rate (pcms w pcm) \<noteq> 0"
    using rates by (auto simp: stereo_too_large_def)
  let ?dls = "4 * word_of_int (src_alloc.total a) :: u32"
  have "uint ?dls = 4 * src_alloc.total a"
  proof -
    have "?dls = word_of_int (4 * src_alloc.total a)" by simp
    then show ?thesis using a(2,3) by (simp only:) (rule uint_of_int32; simp)
  qed
  then have d: "unat ?dls = nat (4 * src_alloc.total a)" by (simp add: unat_eq_nat_uint)
  have "ucast (block_size m) < ?dls" if "m \<in> set (rt_heap_map (mm w))" for m
  proof -
    have "unat (block_size m) \<le> 1024" using heap that by (simp add: word_le_nat_alt)
    moreover have "1024 < unat ?dls" using a(2) unfolding d by simp
    ultimately show ?thesis by (simp add: word_less_nat_alt unat_ucast_16_32)
  qed
  then have r: "rmalloc RZONE_RUNTIME RFLAGS_NONE ?dls (mm w) = Some (0, mm w)"
    by (simp add: rmalloc_runtime_def fit_level_small)
  show ?thesis
    using fmt ls p a(1) nz r
    by (simp add: src_params_def first_of_def comp_buffer_sink_params_def Let_def src_sink_pcm_def)
qed

section \<open>After a reset\<close>

lemma block_loop_stuck:
  assumes "\<And>s. body s \<noteq> None" "cond i"
  shows "block_loop body fuel cond 0 i s = None"
  using assms(2)
proof (induction fuel arbitrary: s)
  case (Suc fuel)
  then show ?case using assms(1) by (auto simp: bind_eq_None_conv)
qed simp

text \<open>
  a reset sets the block sizes to 0. Copying before new parameters are set, with a period available
  and room for it, never ends: the muted conversion advances by blocks of size 0.
\<close>
theorem src_reset_copy_hangs:
  assumes "src_reset d w = Some (0, w1)" and ls: "bsource_list (devs w d) = source # srcs'" "bsink_list (devs w d) = sink # snks"
    and s0: "srcs (srcds w (priv (devs w d))) \<noteq> []"
    and per: "period_count (pcms w (b_pcm (bufs w source))) < 2 ^ 31 - 1"
      "period_count (pcms w (b_pcm (bufs w source))) * frame_size (pcms w (b_pcm (bufs w source))) \<le> avail (bufs w source)"
      "period_count (pcms w (b_pcm (bufs w sink))) * frame_size (pcms w (b_pcm (bufs w sink))) \<le> bfree (bufs w sink)"
  shows "src_copy fuel d w1 = None"
proof -
  let ?p = "priv (devs w d)"
  have w1: "w1 = set_state d COMP_STATE_INIT (upd_src ?p (\<lambda>cd. cd\<lparr>src_fn := Src_2s, srcs := map src_polyphase_reset (srcs cd)\<rparr>) w)"
    using assms(1) by (simp add: src_reset_def Let_def)
  obtain s ss where ss: "srcs (srcds w ?p) = s # ss" using s0 by (cases "srcs (srcds w ?p)") auto
  have sel: "devs w1 d = (devs w d)\<lparr>state := COMP_STATE_INIT\<rparr>" "bufs w1 = bufs w" "pcms w1 = pcms w"
    "srcds w1 ?p = (srcds w ?p)\<lparr>src_fn := Src_2s, srcs := src_polyphase_reset s # map src_polyphase_reset ss\<rparr>"
    using ss unfolding w1 by (simp_all add: upd_dev_def)
  let ?n = "period_count (pcms w (b_pcm (bufs w source)))"
  have "0 \<le> sint ?n"
  proof -
    have "unat ?n < 2 ^ 31" using per(1) by (simp add: word_less_nat_alt)
    then show ?thesis by (subst sint_small32) simp_all
  qed
  then have stuck: "src_muted_s32 f source sink 0 0 nch (sint ?n) w' = None" for f nch and w' :: "'b world_scheme"
    unfolding src_muted_s32_def Let_def by (subst block_loop_stuck) (auto simp: muted_block_def Let_def)
  have call: "call_src_func (src_fn (srcds w1 ?p)) f source sink ?n (srcds w1 ?p) w' = None" for f and w' :: "'a src_world_scheme"
    using sel(4) by (simp add: src_2s_s32_default_def aget_def src_polyphase_reset_def stuck)
  have "src_copy_loop fuel ?p source sink (?n * frame_size (pcms w (b_pcm (bufs w source))))
      (period_count (pcms w (b_pcm (bufs w sink))) * frame_size (pcms w (b_pcm (bufs w sink)))) ?n w1 = None"
    using per sel call by (cases fuel) simp_all
  moreover have gz: "(if 0 < x then x else 0) = x" for x :: u32 by (simp add: word_gt_0)
  moreover have "aget (srcs (srcds w1 ?p)) 0 = Some (src_polyphase_reset s)" unfolding sel(4) by (simp add: aget_def)
  moreover have "p_blk_in (src_polyphase_reset s) = 0" "p_blk_out (src_polyphase_reset s) = 0" by (simp_all add: src_polyphase_reset_def)
  moreover have "first_of (bsource_list (devs w1 d)) = Some source" "first_of (bsink_list (devs w1 d)) = Some sink" "priv (devs w1 d) = ?p"
    using ls unfolding sel(1) by (simp_all add: first_of_def)
  ultimately show ?thesis by (simp only: src_copy_def Let_def sel(2,3) bind.bind_lunit of_int_0 gz bind.bind_lzero)
qed

section \<open>Two channels and a driver\<close>

text \<open>Two channels over the stage of two subfilters, with delay lines of their own.\<close>

definition demo_src :: "polyphase_src list" where
  "demo_src = map (\<lambda>d. \<lparr>p_mute = False, number_of_stages = 1, p_blk_in = 1, p_blk_out = 2, stage1_times = 1, stage2_times = 0,
     stage1 = Some demo_stage, stage2 = None,
     state1 = \<lparr>fir_delay_size = 4, out_delay_size = 2, fir_wi = 0, fir_ri = 0, out_wi = 0, out_ri = 0, fir_delay = d, out_delay = d + 1000\<rparr>,
     state2 = \<lparr>fir_delay_size = 0, out_delay_size = 0, fir_wi = 0, fir_ri = 0, out_wi = 0, out_ri = 0, fir_delay = 0, out_delay = 0\<rparr>\<rparr>)
     [3000, 5000]"

definition demo_data :: src_data where
  "demo_data = \<lparr>srcs = demo_src, delay_lines = 2900, scratch_length = 0, src_fn = Src_1s\<rparr>"

definition demo_source :: comp_buffer where
  "demo_source = zero_buffer\<lparr>alloc_size := 16, avail := 16, addr := 1000, end_addr := 1016, r_ptr := 1000, w_ptr := 1000\<rparr>"
definition demo_sink :: comp_buffer where
  "demo_sink = zero_buffer\<lparr>alloc_size := 32, bfree := 32, addr := 2000, end_addr := 2032, r_ptr := 2000, w_ptr := 2000\<rparr>"

definition demo_world :: world where
  "demo_world = empty_world\<lparr>wmem := demo_mem, bufs := (\<lambda>_. zero_buffer)(11 := demo_source, 12 := demo_sink),
     pcms := (\<lambda>_. \<lparr>stream_type = 0, direction = 0, frame_fmt = 2, rate = 48000, channels = 2, frame_size = 8, period_bytes = 16, period_count = 2\<rparr>)\<rparr>"

lemma demo_ready: "chan_ready 3 demo_source demo_sink 2 1 1000 2000 demo_src j" if "j < 2" for j
proof -
  have g: "stage_ok demo_stage" by code_simp
  have "j = 0 \<or> j = 1" using that by auto
  then show ?thesis
    unfolding chan_ready_def prm_ok_def
    using g
    by (auto simp: demo_src_def demo_stage_def chan_call_def chan_prm_def demo_source_def demo_sink_def src_fir_delay_length_def src_out_delay_length_def
        cursor_ok_def fits_def region_def area_def)
qed

lemma src_1s_period_witness:
  "\<exists>ss w'. src_1s_s32_default 3 11 12 2 demo_data demo_world = Some (demo_data\<lparr>srcs := ss\<rparr>, w') \<and>
     lines (chan_call demo_source demo_sink 2 1 1000 2000 ss 1) (wmem w') = ([0, 100, 0, 0], [100, 100]) \<and>
     r_ptr (bufs w' 11) = 1000 \<and> avail (bufs w' 11) = 0"
proof -
  let ?P = "chan_call demo_source demo_sink 2 1 1000 2000 demo_src"
  have r: "\<forall>j < 2. chan_ready 3 demo_source demo_sink 2 1 1000 2000 demo_src j" using demo_ready by blast
  have ap: "\<forall>i j. i < j \<and> j < 2 \<longrightarrow> scratch_of (?P i) \<inter> scratch_of (?P j) = {}"
  proof (intro allI impI)
    fix i j :: nat assume "i < j \<and> j < 2"
    then have "i = 0" "j = 1" by auto
    moreover have "scratch_of (?P 0) = {3000 ..< 3016} \<union> {4000 ..< 4008}" "scratch_of (?P 1) = {5000 ..< 5016} \<union> {6000 ..< 6008}"
      by (simp_all add: scratch_of_def demo_src_def region_def)
    ultimately show "scratch_of (?P i) \<inter> scratch_of (?P j) = {}" by auto
  qed
  have s: "snd (chan_result 2 (?P 1) demo_mem) = ([0, 100, 0, 0], [100, 100])" by code_simp
  have x: "x_after (?P 1) 2 = 1004" by code_simp
  have b: "bufs demo_world 11 = demo_source" "bufs demo_world 12 = demo_sink" "wmem demo_world = demo_mem"
    "channels (pcms demo_world (b_pcm demo_sink)) = of_nat 2" by (simp_all add: demo_world_def demo_sink_def)
  have g: "prm_stage (?P 1) = demo_stage" by (simp add: chan_call_def chan_prm_def demo_src_def)
  have s0: "\<not> p_mute (srcs demo_data ! 0)" "stage1_times (srcs demo_data ! 0) = 1" "p_blk_in (srcs demo_data ! 0) = 1"
    "p_blk_out (srcs demo_data ! 0) = 2" "2 \<le> length (srcs demo_data)" "srcs demo_data = demo_src"
    by (simp_all add: demo_data_def demo_src_def)
  have p: "r_ptr demo_source = 1000" "w_ptr demo_sink = 2000" by (simp_all add: demo_source_def demo_sink_def)
  have "\<exists>ss w'. src_1s_s32_default 3 11 12 (of_nat 2) demo_data demo_world = Some (demo_data\<lparr>srcs := ss\<rparr>, w') \<and>
     (\<forall>j < 2. lines (chan_call demo_source demo_sink 2 1 (r_ptr demo_source) (w_ptr demo_sink) ss j) (wmem w') = snd (chan_result (2 * nat 1) (?P j) demo_mem)) \<and>
     bufs w' 11 = comp_update_source_free_avail (word_of_int (int 2 * (int 2 * 1))) (comp_wrap_source_r_ptr_circular
       (demo_source\<lparr>r_ptr := x_after (?P (2 - 1)) (2 * nat 1 * nat (blk_in (prm_stage (?P (2 - 1))))) - 4 * (of_nat 2 - 1)\<rparr>))"
    using src_1s_period [of demo_world 11 demo_source 12 demo_sink 2 demo_data 1 1 2 2 2 3 ?P "\<lambda>j. chan_result (2 * nat 1) (?P j) (wmem demo_world)",
      OF b(1,2) _ b(4) _ _ s0(5) s0(1-4) _ _ _ _ _ refl] r ap b(3) p s0(6) by auto
  then obtain ss w' where w: "src_1s_s32_default 3 11 12 (of_nat 2) demo_data demo_world = Some (demo_data\<lparr>srcs := ss\<rparr>, w')"
    "\<forall>j < 2. lines (chan_call demo_source demo_sink 2 1 (r_ptr demo_source) (w_ptr demo_sink) ss j) (wmem w') = snd (chan_result (2 * nat 1) (?P j) demo_mem)"
    "bufs w' 11 = comp_update_source_free_avail (word_of_int (int 2 * (int 2 * 1))) (comp_wrap_source_r_ptr_circular
       (demo_source\<lparr>r_ptr := x_after (?P (2 - 1)) (2 * nat 1 * nat (blk_in (prm_stage (?P (2 - 1))))) - 4 * (of_nat 2 - 1)\<rparr>))" by blast
  let ?b = "comp_update_source_free_avail 4 (comp_wrap_source_r_ptr_circular (demo_source\<lparr>r_ptr := 1000\<rparr>))"
  have "r_ptr ?b = 1000 \<and> avail ?b = 0" by code_simp
  moreover have "bufs w' 11 = ?b" using w(3) x g by (simp add: demo_stage_def)
  moreover have "lines (chan_call demo_source demo_sink 2 1 1000 2000 ss 1) (wmem w') = ([0, 100, 0, 0], [100, 100])"
    using w(2) s p by simp
  ultimately show ?thesis using w(1) by (intro exI [of _ ss] exI [of _ w']) simp
qed
text \<open>A stereo stream from 48 kHz to 16 kHz on the heap as it is after boot.\<close>

definition demo_driver :: src_world where
  "demo_driver = world.extend (empty_world\<lparr>bufs := (\<lambda>_. zero_buffer\<lparr>b_pcm := 5, avail := 1024, bfree := 1024\<rparr>),
      devs := (\<lambda>_. (devs empty_world 0)\<lparr>bsource_list := [11], bsink_list := [12], priv := 77\<rparr>),
      pcms := (\<lambda>_. \<lparr>stream_type = 0, direction = 0, frame_fmt = 2, rate = 48000, channels = 2, frame_size = 8, period_bytes = 384, period_count = 48\<rparr>)\<rparr>)
    (src_world.fields (\<lambda>_. demo_data\<lparr>delay_lines := 0\<rparr>) (\<lambda>_. 16000))"

lemma demo_driver_sel:
  "mm demo_driver = heap0" "bufs demo_driver b = zero_buffer\<lparr>b_pcm := 5, avail := 1024, bfree := 1024\<rparr>"
  "bsource_list (devs demo_driver d) = [11]" "bsink_list (devs demo_driver d) = [12]" "priv (devs demo_driver d) = 77"
  "pcms demo_driver p = \<lparr>stream_type = 0, direction = 0, frame_fmt = 2, rate = 48000, channels = 2, frame_size = 8, period_bytes = 384, period_count = 48\<rparr>"
  "srcds demo_driver p = demo_data\<lparr>delay_lines := 0\<rparr>" "out_rates demo_driver d = 16000"
  by (simp_all add: demo_driver_def src_world.defs world.defs empty_world_def)

lemma src_stereo_enomem_witness: "\<exists>w'. src_params 1 5 demo_driver = Some (- ENOMEM, w') \<and> delay_lines (srcds w' 77) = 0"
proof (rule src_stereo_enomem [where source = 11 and srcs' = "[]" and sink = 12])
  show "(sint (rate (pcms demo_driver 5)), sint (out_rates demo_driver 1)) \<in> set stereo_too_large"
    by (simp add: demo_driver_sel stereo_too_large_def)
  show "\<forall>m \<in> set (rt_heap_map (mm demo_driver)). block_size m \<le> 1024"
    unfolding demo_driver_sel(1) heap0_maps by simp
qed (simp_all add: demo_driver_sel SOF_IPC_FRAME_S32_LE_def STREAM_TYPE_PCM_def src_pcm_def)

lemma src_reset_copy_hangs_witness: "\<exists>w1. src_reset 1 demo_driver = Some (0, w1) \<and> (\<forall>fuel. src_copy fuel 1 w1 = None)"
proof -
  obtain w1 where r: "src_reset 1 demo_driver = Some (0, w1)" by (simp add: src_reset_def Let_def)
  have "src_copy fuel 1 w1 = None" for fuel
    by (rule src_reset_copy_hangs [OF r, where source = 11 and srcs' = "[]" and sink = 12 and snks = "[]"])
      (simp_all add: demo_driver_sel demo_data_def demo_src_def)
  then show ?thesis using r by blast
qed
end
