(* ===== verification/Reef_Trig.thy ===== *)
theory Reef_Trig
  imports Reef_Format
begin

unbundle bit_operations_syntax

text \<open>
  src/src/math/trig.c, include/reef/math/trig.h: the sine of a fixed-point angle by a quarter-wave
  table of 512 steps and linear interpolation. The table is split into four parts. Its entries and
  \<open>sin_fixed\<close> are the words of the code; the lemmas give their values as integers, on the angles
  of a full turn, where nothing overflows but the shift that computes the fraction.
\<close>

section \<open>The table\<close>

definition PI_Q4_28 :: int where "PI_Q4_28 = 843314857"
definition PI_MUL2_Q4_28 :: int where "PI_MUL2_Q4_28 = 1686629713"
definition SINE_C_Q20 :: int where "SINE_C_Q20 = 341782638"
abbreviation (input) SINE_NQUART :: int where "SINE_NQUART \<equiv> 512"

definition sine_part1 :: "int list" where
  "sine_part1 = [
    0, 6588387, 13176712, 19764913, 26352928, 32940695, 39528151, 46115236, 52701887, 59288042,
    65873638, 72458615, 79042909, 85626460, 92209205, 98791081, 105372028, 111951983, 118530885, 125108670,
    131685278, 138260647, 144834714, 151407418, 157978697, 164548489, 171116732, 177683365, 184248325, 190811551,
    197372981, 203932553, 210490206, 217045877, 223599506, 230151030, 236700388, 243247517, 249792358, 256334847,
    262874923, 269412525, 275947592, 282480061, 289009871, 295536961, 302061269, 308582734, 315101294, 321616889,
    328129457, 334638936, 341145265, 347648383, 354148229, 360644742, 367137860, 373627523, 380113669, 386596237,
    393075166, 399550396, 406021864, 412489512, 418953276, 425413098, 431868915, 438320667, 444768293, 451211734,
    457650927, 464085813, 470516330, 476942419, 483364019, 489781069, 496193509, 502601279, 509004318, 515402566,
    521795963, 528184448, 534567963, 540946445, 547319836, 553688076, 560051103, 566408860, 572761285, 579108319,
    585449903, 591785976, 598116478, 604441351, 610760535, 617073970, 623381597, 629683357, 635979190, 642269036,
    648552837, 654830534, 661102068, 667367379, 673626408, 679879097, 686125386, 692365218, 698598533, 704825272,
    711045377, 717258790, 723465451, 729665303, 735858287, 742044345, 748223418, 754395449, 760560379, 766718151,
    772868706, 779011986, 785147934, 791276492, 797397602, 803511207, 809617248, 815715670, 821806413]"

definition sine_part2 :: "int list" where
  "sine_part2 = [
    827889421, 833964637, 840032003, 846091463, 852142959, 858186434, 864221832, 870249095, 876268167, 882278991,
    888281511, 894275670, 900261412, 906238681, 912207419, 918167571, 924119082, 930061894, 935995952, 941921200,
    947837582, 953745043, 959643527, 965532978, 971413341, 977284561, 983146583, 988999351, 994842809, 1000676905,
    1006501581, 1012316784, 1018122458, 1023918549, 1029705003, 1035481765, 1041248781, 1047005996, 1052753356, 1058490807,
    1064218296, 1069935767, 1075643168, 1081340445, 1087027543, 1092704410, 1098370992, 1104027236, 1109673088, 1115308496,
    1120933406, 1126547765, 1132151521, 1137744620, 1143327011, 1148898640, 1154459455, 1160009404, 1165548435, 1171076495,
    1176593532, 1182099495, 1187594332, 1193077990, 1198550419, 1204011566, 1209461381, 1214899812, 1220326808, 1225742318,
    1231146290, 1236538675, 1241919421, 1247288477, 1252645793, 1257991319, 1263325005, 1268646799, 1273956652, 1279254515,
    1284540337, 1289814068, 1295075658, 1300325059, 1305562221, 1310787095, 1315999631, 1321199780, 1326387493, 1331562722,
    1336725418, 1341875532, 1347013016, 1352137822, 1357249900, 1362349204, 1367435684, 1372509294, 1377569985, 1382617710,
    1387652421, 1392674071, 1397682613, 1402677999, 1407660183, 1412629117, 1417584755, 1422527050, 1427455956, 1432371426,
    1437273414, 1442161874, 1447036759, 1451898025, 1456745625, 1461579513, 1466399644, 1471205973, 1475998455, 1480777044,
    1485541695, 1490292364, 1495029005, 1499751575, 1504460029, 1509154322, 1513834410, 1518500249]"

definition sine_part3 :: "int list" where
  "sine_part3 = [
    1523151796, 1527789006, 1532411836, 1537020243, 1541614182, 1546193612, 1550758488, 1555308767, 1559844407, 1564365366,
    1568871600, 1573363067, 1577839726, 1582301533, 1586748446, 1591180425, 1595597427, 1599999410, 1604386334, 1608758157,
    1613114837, 1617456334, 1621782607, 1626093615, 1630389318, 1634669675, 1638934646, 1643184190, 1647418268, 1651636840,
    1655839867, 1660027308, 1664199124, 1668355276, 1672495724, 1676620431, 1680729357, 1684822463, 1688899710, 1692961061,
    1697006478, 1701035921, 1705049354, 1709046738, 1713028036, 1716993211, 1720942224, 1724875039, 1728791619, 1732691927,
    1736575926, 1740443580, 1744294852, 1748129706, 1751948106, 1755750016, 1759535401, 1763304223, 1767056449, 1770792043,
    1774510970, 1778213194, 1781898680, 1785567395, 1789219304, 1792854372, 1796472564, 1800073848, 1803658188, 1807225552,
    1810775906, 1814309215, 1817825448, 1821324571, 1824806551, 1828271355, 1831718951, 1835149305, 1838562387, 1841958164,
    1845336603, 1848697673, 1852041343, 1855367580, 1858676354, 1861967633, 1865241387, 1868497585, 1871736195, 1874957188,
    1878160534, 1881346201, 1884514160, 1887664382, 1890796836, 1893911493, 1897008324, 1900087300, 1903148391, 1906191569,
    1909216806, 1912224072, 1915213339, 1918184580, 1921137766, 1924072870, 1926989863, 1929888719, 1932769410, 1935631909,
    1938476189, 1941302224, 1944109986, 1946899450, 1949670588, 1952423376, 1955157787, 1957873795, 1960571374, 1963250500,
    1965911147, 1968553291, 1971176905, 1973781966, 1976368449, 1978936330, 1981485584, 1984016188]"

definition sine_part4 :: "int list" where
  "sine_part4 = [
    1986528117, 1989021349, 1991495859, 1993951624, 1996388621, 1998806828, 2001206221, 2003586778, 2005948477, 2008291295,
    2010615209, 2012920200, 2015206244, 2017473320, 2019721407, 2021950483, 2024160528, 2026351521, 2028523441, 2030676268,
    2032809981, 2034924561, 2037019987, 2039096240, 2041153301, 2043191149, 2045209766, 2047209132, 2049189230, 2051150040,
    2053091543, 2055013722, 2056916559, 2058800035, 2060664132, 2062508835, 2064334123, 2066139982, 2067926393, 2069693341,
    2071440807, 2073168776, 2074877232, 2076566159, 2078235539, 2079885359, 2081515602, 2083126253, 2084717297, 2086288719,
    2087840504, 2089372637, 2090885104, 2092377891, 2093850984, 2095304369, 2096738031, 2098151959, 2099546138, 2100920555,
    2102275198, 2103610053, 2104925108, 2106220351, 2107495769, 2108751351, 2109987084, 2111202958, 2112398959, 2113575079,
    2114731304, 2115867625, 2116984030, 2118080510, 2119157053, 2120213650, 2121250291, 2122266966, 2123263665, 2124240379,
    2125197099, 2126133816, 2127050521, 2127947205, 2128823861, 2129680479, 2130517051, 2131333571, 2132130029, 2132906419,
    2133662733, 2134398965, 2135115106, 2135811152, 2136487094, 2137142926, 2137778643, 2138394239, 2138989707, 2139565042,
    2140120239, 2140655292, 2141170196, 2141664947, 2142139540, 2142593970, 2143028233, 2143442325, 2143836243, 2144209981,
    2144563538, 2144896909, 2145210091, 2145503082, 2145775879, 2146028479, 2146260880, 2146473079, 2146665075, 2146836865,
    2146988449, 2147119824, 2147230990, 2147321945, 2147392689, 2147443221, 2147473541, 2147483647]"

definition sine_table :: "int list" where
  "sine_table = sine_part1 @ sine_part2 @ sine_part3 @ sine_part4"

section \<open>Lookup and interpolation\<close>

definition sine_lookup :: "int \<Rightarrow> s32" where
  "sine_lookup idx =
     (let i1 = idx AND (2 * SINE_NQUART - 1);
          i1 = (if SINE_NQUART < i1 then 2 * SINE_NQUART - i1 else i1);
          s = word_of_int (sine_table ! nat i1)
      in if 2 * SINE_NQUART < idx then - s else s)"

definition sin_fixed :: "s32 \<Rightarrow> s32" where
  "sin_fixed w =
     (let idx_tmp = scast w * word_of_int SINE_C_Q20 :: s64;
          idx = sint (scast (signed_drop_bit 48 idx_tmp) :: s32);
          idx_tmp = signed_drop_bit 17 idx_tmp;
          idx_tmp = idx_tmp - scast (push_bit 31 (word_of_int idx) :: s32);
          frac = scast idx_tmp :: s32;
          s0 = sine_lookup idx;
          s1 = sine_lookup (idx + 1);
          delta = s1 - s0;
          sine = scast s0 + q_mults_32x32 frac delta 31 31 31 :: s64
      in scast sine)"

section \<open>The values of the table\<close>

lemma length_sine_table [simp]: "length sine_table = 513"
  by (simp add: sine_table_def sine_part1_def sine_part2_def sine_part3_def sine_part4_def)

abbreviation (input) T :: "int \<Rightarrow> int" where "T k \<equiv> sine_table ! nat k"

fun rising :: "int list \<Rightarrow> bool" where
  "rising (a # b # l) \<longleftrightarrow> a \<le> b \<and> b \<le> a + 6588387 \<and> rising (b # l)"
| "rising _ \<longleftrightarrow> True"

lemma rising_append: "rising (a @ [x]) \<Longrightarrow> rising (x # b) \<Longrightarrow> rising (a @ x # b)"
  by (induction a rule: rising.induct) auto

lemma rising_table: "rising sine_table"
  unfolding sine_table_def sine_part1_def sine_part2_def sine_part3_def sine_part4_def by simp

lemma rising_nth:
  assumes "rising l" "Suc i < length l"
  shows "l ! i \<le> l ! Suc i \<and> l ! Suc i \<le> l ! i + 6588387"
  using assms by (induction l arbitrary: i rule: rising.induct) (auto simp: nth_Cons split: nat.splits)

lemma table_step: "0 \<le> k \<Longrightarrow> k < 512 \<Longrightarrow> T k \<le> T (k + 1) \<and> T (k + 1) \<le> T k + 6588387"
  using rising_nth [OF rising_table, of "nat k"] by (simp add: nat_add_distrib)

lemma table_mono: "i \<le> j \<Longrightarrow> j < 513 \<Longrightarrow> sine_table ! i \<le> sine_table ! j"
proof (induction j)
  case (Suc j)
  then show ?case using rising_nth [OF rising_table, of j] by (cases "i = Suc j") auto
qed simp

lemma table_ends: "sine_table ! 0 = 0" "sine_table ! Suc 0 = 6588387" "sine_table ! 512 = 2147483647"
  by (simp_all add: sine_table_def sine_part1_def sine_part2_def sine_part3_def sine_part4_def)

lemma table_range: "0 \<le> k \<Longrightarrow> k \<le> 512 \<Longrightarrow> 0 \<le> T k \<and> T k \<le> 2147483647"
  using table_mono [of 0 "nat k"] table_mono [of "nat k" 512] table_ends by simp

section \<open>A full turn\<close>

text \<open>The four quarters of the wave, at table steps; the lookup after the last step starts the third quarter's mirror again.\<close>

definition wave :: "int \<Rightarrow> int" where
  "wave k = (if k \<le> 512 then T k else if k \<le> 1024 then T (1024 - k) else if k \<le> 1536 then - T (k - 1024)
     else if k \<le> 2048 then - T (2048 - k) else - T (k - 2048))"

lemma and_1023: "k AND 1023 = k mod 1024" for k :: int
proof -
  have "(1023 :: int) = mask 10" by (simp add: mask_eq_exp_minus_1)
  then show ?thesis by (simp only: take_bit_eq_mask [symmetric] take_bit_eq_mod) simp
qed

lemma sine_lookup_wave:
  assumes "0 \<le> k" "k \<le> 2049"
  shows "sint (sine_lookup k) = wave k"
proof -
  have word: "sint (word_of_int (T j) :: s32) = T j" "sint (- word_of_int (T j) :: s32) = - T j" if "0 \<le> j" "j \<le> 512" for j
  proof -
    note r = table_range [OF that]
    show "sint (word_of_int (T j) :: s32) = T j" using r by (intro sint_eq_if_fits) simp_all
    have "- word_of_int (T j) = (word_of_int (- T j) :: s32)" by simp
    then show "sint (- word_of_int (T j) :: s32) = - T j" using r by (simp only:) (intro sint_eq_if_fits; simp)
  qed
  consider "k \<le> 512" | "512 < k" "k < 1024" | "k = 1024" | "1024 < k" "k \<le> 1536" | "1536 < k" "k < 2048" | "k = 2048" | "k = 2049"
    using assms by linarith
  then show ?thesis
  proof cases
    case 1
    then have "k mod 1024 = k" using assms by simp
    then show ?thesis using 1 assms word(1) [of k] by (simp add: sine_lookup_def and_1023 wave_def)
  next
    case 2
    then have "k mod 1024 = k" by simp
    then show ?thesis using 2 word(1) [of "1024 - k"] by (simp add: sine_lookup_def and_1023 wave_def)
  next
    case 4
    then have "k mod 1024 = (k - 1024) mod 1024" "(k - 1024) mod 1024 = k - 1024" by (intro mod_pos_geq mod_pos_pos_trivial; simp)+
    then have m: "k AND (2 * SINE_NQUART - 1) = k - 1024" by (simp add: and_1023)
    have "sine_lookup k = - word_of_int (T (k - 1024))" unfolding sine_lookup_def Let_def m using 4 by simp
    moreover have "wave k = - T (k - 1024)" using 4 by (simp add: wave_def)
    ultimately show ?thesis using 4 word(2) [of "k - 1024"] by simp
  next
    case 5
    then have "k mod 1024 = (k - 1024) mod 1024" "(k - 1024) mod 1024 = k - 1024" by (intro mod_pos_geq mod_pos_pos_trivial; simp)+
    then have m: "k AND (2 * SINE_NQUART - 1) = k - 1024" by (simp add: and_1023)
    have "sine_lookup k = - word_of_int (T (2048 - k))" unfolding sine_lookup_def Let_def m using 5 by simp
    moreover have "wave k = - T (2048 - k)" using 5 by (simp add: wave_def)
    ultimately show ?thesis using 5 word(2) [of "2048 - k"] by simp
  qed (simp_all add: sine_lookup_def and_1023 wave_def table_ends)
qed

lemma wave_range:
  assumes "0 \<le> k" "k \<le> 2049"
  shows "- 2147483647 \<le> wave k" "wave k \<le> 2147483647"
proof -
  consider "k \<le> 512" | "512 < k" "k \<le> 1024" | "1024 < k" "k \<le> 1536" | "1536 < k" "k \<le> 2048" | "2048 < k" by linarith
  then have "\<exists>j. 0 \<le> j \<and> j \<le> 512 \<and> (wave k = T j \<or> wave k = - T j)"
  proof cases
    case 1 then show ?thesis using assms by (intro exI [of _ k]) (simp add: wave_def)
  next
    case 2 then show ?thesis by (intro exI [of _ "1024 - k"]) (simp add: wave_def)
  next
    case 3 then show ?thesis by (intro exI [of _ "k - 1024"]) (simp add: wave_def)
  next
    case 4 then show ?thesis by (intro exI [of _ "2048 - k"]) (simp add: wave_def)
  next
    case 5 then show ?thesis using assms by (intro exI [of _ "k - 2048"]) (simp add: wave_def)
  qed
  then obtain j where "0 \<le> j" "j \<le> 512" "wave k = T j \<or> wave k = - T j" by blast
  with table_range [of j] show "- 2147483647 \<le> wave k" "wave k \<le> 2147483647" by auto
qed

lemma wave_step: "0 \<le> k \<Longrightarrow> k \<le> 2048 \<Longrightarrow> \<bar>wave (k + 1) - wave k\<bar> \<le> 6588387"
proof -
  assume k: "0 \<le> k" "k \<le> 2048"
  consider "k < 512" | "512 \<le> k" "k < 1024" | "1024 \<le> k" "k < 1536" | "1536 \<le> k" "k < 2048" | "k = 2048" using k by linarith
  then show ?thesis
  proof cases
    case 1 then show ?thesis using k table_step [of k] by (simp add: wave_def)
  next
    case 2
    then have "1024 - k - 1 = 1024 - (k + 1)" by simp
    then show ?thesis using 2 table_step [of "1024 - (k + 1)"] by (auto simp: wave_def table_ends)
  next
    case 3 then show ?thesis using table_step [of "k - 1024"] by (auto simp: wave_def table_ends algebra_simps)
  next
    case 4 then show ?thesis using table_step [of "2048 - (k + 1)"] by (auto simp: wave_def table_ends algebra_simps)
  next
    case 5 then show ?thesis by (simp add: wave_def table_ends)
  qed
qed

section \<open>Interpolation\<close>

text \<open>Table step and fraction of an angle.\<close>

definition sine_idx :: "int \<Rightarrow> int" where "sine_idx w = w * SINE_C_Q20 div 2 ^ 48"
definition sine_frac :: "int \<Rightarrow> int" where "sine_frac w = w * SINE_C_Q20 div 2 ^ 17 mod 2 ^ 31"

lemma sine_idx_range: "0 \<le> w \<Longrightarrow> w \<le> PI_MUL2_Q4_28 \<Longrightarrow> 0 \<le> sine_idx w \<and> sine_idx w \<le> 2048"
proof -
  assume w: "0 \<le> w" "w \<le> PI_MUL2_Q4_28"
  then have "w * SINE_C_Q20 \<le> PI_MUL2_Q4_28 * SINE_C_Q20" "0 \<le> w * SINE_C_Q20"
    by (simp_all add: SINE_C_Q20_def)
  then have "w * SINE_C_Q20 div 2 ^ 48 \<le> PI_MUL2_Q4_28 * SINE_C_Q20 div 2 ^ 48" by (intro zdiv_mono1) simp_all
  then show ?thesis using \<open>0 \<le> w * SINE_C_Q20\<close> by (simp add: sine_idx_def PI_MUL2_Q4_28_def SINE_C_Q20_def)
qed

lemma sine_frac_range: "0 \<le> sine_frac w" "sine_frac w < 2 ^ 31"
  by (simp_all add: sine_frac_def)

lemma sine_split: "w * SINE_C_Q20 div 2 ^ 17 = sine_idx w * 2 ^ 31 + sine_frac w"
proof -
  have "sine_idx w = w * SINE_C_Q20 div 2 ^ 17 div 2 ^ 31" by (simp add: sine_idx_def zdiv_zmult2_eq [symmetric])
  then show ?thesis by (simp add: sine_frac_def)
qed

lemma interpolate_between:
  fixes a d f :: int
  assumes "0 \<le> f" "f < 2 ^ 31"
  shows "min a (a + d) \<le> a + f * d div 2 ^ 31 \<and> a + f * d div 2 ^ 31 \<le> max a (a + d)"
proof (cases "0 \<le> d")
  case True
  then have "0 \<le> f * d" using assms by simp
  then have "0 \<le> f * d div 2 ^ 31" by simp
  moreover have "f * d \<le> 2 ^ 31 * d" using assms True by (intro mult_right_mono) simp_all
  then have "f * d div 2 ^ 31 \<le> 2 ^ 31 * d div 2 ^ 31" by (intro zdiv_mono1) simp_all
  ultimately show ?thesis using True by simp
next
  case False
  then have "f * d \<le> 0" using assms by (simp add: mult_nonneg_nonpos)
  then have "f * d div 2 ^ 31 \<le> 0 div 2 ^ 31" by (intro zdiv_mono1) simp_all
  moreover have "2 ^ 31 * d \<le> f * d" using assms False by (intro mult_right_mono_neg) simp_all
  then have "2 ^ 31 * d div 2 ^ 31 \<le> f * d div 2 ^ 31" by (intro zdiv_mono1) simp_all
  ultimately show ?thesis using False by simp
qed

lemma scast_down_diff: "scast (x - y :: s64) = (scast x - scast y :: s32)"
proof -
  have "sint (x - y) = signed_take_bit 63 (sint x - sint y)" by (simp add: sint_word_ariths)
  then have "word_of_int (sint (x - y)) = (word_of_int (signed_take_bit 63 (sint x - sint y)) :: s32)" by (rule arg_cong)
  also have "\<dots> = word_of_int (sint x - sint y)"
    unfolding word_of_int_eq_iff by (rule take_bit_signed_take_bit) simp
  also have "\<dots> = scast x - scast y" by (simp only: scast_eq wi_hom_sub)
  finally show ?thesis by (subst scast_eq)
qed

lemma scast_up_down: "scast (scast z :: s64) = (z :: s32)"
  by (subst scast_eq) simp

text \<open>
  On the angles of a full turn the result is the linear interpolation, rounded down, between the two
  table steps next to the angle.
\<close>

lemma sin_fixed_value:
  assumes "0 \<le> sint w" "sint w \<le> PI_MUL2_Q4_28"
  shows "sint (sin_fixed w) = wave (sine_idx (sint w)) +
    sine_frac (sint w) * (wave (sine_idx (sint w) + 1) - wave (sine_idx (sint w))) div 2 ^ 31"
proof -
  let ?k = "sine_idx (sint w)" and ?f = "sine_frac (sint w)"
  note k = sine_idx_range [OF assms] and f = sine_frac_range [of "sint w"]
  define p where "p = (scast w * word_of_int SINE_C_Q20 :: s64)"
  have c: "sint (word_of_int SINE_C_Q20 :: s64) = SINE_C_Q20" by (simp add: SINE_C_Q20_def)
  have "0 \<le> sint w * SINE_C_Q20" "sint w * SINE_C_Q20 \<le> PI_MUL2_Q4_28 * SINE_C_Q20" using assms by (simp_all add: SINE_C_Q20_def)
  then have p: "sint p = sint w * SINE_C_Q20"
    unfolding p_def by (subst sint_mult_fits) (simp_all add: c sint_scast_fits PI_MUL2_Q4_28_def SINE_C_Q20_def)
  have k32: "sint (word_of_int ?k :: s32) = ?k" using k by (intro sint_eq_if_fits) simp_all
  have "sint (signed_drop_bit 48 p) = ?k" unfolding sint_shr p sine_idx_def ..
  then have i: "sint (scast (signed_drop_bit 48 p) :: s32) = ?k" using k32 by (simp add: scast_eq)
  define q where "q = signed_drop_bit 17 p - scast (push_bit 31 (word_of_int ?k :: s32))"
  have "scast q = (scast (signed_drop_bit 17 p) - push_bit 31 (word_of_int ?k) :: s32)"
    unfolding q_def scast_down_diff scast_up_down ..
  also have "scast (signed_drop_bit 17 p) = (word_of_int (?k * 2 ^ 31 + ?f) :: s32)"
    unfolding scast_eq sint_shr p sine_split ..
  also have "push_bit 31 (word_of_int ?k) = (word_of_int (?k * 2 ^ 31) :: s32)" by (simp add: push_bit_eq_mult)
  finally have "scast q = (word_of_int ?f :: s32)" by simp
  then have fr: "sint (scast q :: s32) = ?f" using f by (simp only:) (rule sint_eq_if_fits; simp)
  have s: "sint (sine_lookup ?k) = wave ?k" "sint (sine_lookup (?k + 1)) = wave (?k + 1)" using k by (simp_all add: sine_lookup_wave)
  have st: "\<bar>wave (?k + 1) - wave ?k\<bar> \<le> 6588387" using k by (intro wave_step) simp_all
  then have d: "sint (sine_lookup (?k + 1) - sine_lookup ?k) = wave (?k + 1) - wave ?k"
    by (subst sint_sub_fits) (simp_all add: s abs_le_iff)
  let ?r = "wave ?k + ?f * (wave (?k + 1) - wave ?k) div 2 ^ 31"
  have m: "sint (q_mults_32x32 (scast q) (sine_lookup (?k + 1) - sine_lookup ?k) 31 31 31) = ?f * (wave (?k + 1) - wave ?k) div 2 ^ 31"
    by (simp add: sint_q_mults_32x32 fr d)
  have r: "- 2147483647 \<le> ?r" "?r \<le> 2147483647"
    using interpolate_between [OF f, of "wave ?k" "wave (?k + 1) - wave ?k"] wave_range [of ?k] wave_range [of "?k + 1"] k
    by (auto simp: min_def max_def split: if_splits)
  have "\<bar>?f * (wave (?k + 1) - wave ?k) div 2 ^ 31\<bar> \<le> 6588387 + 1"
    using interpolate_between [OF f, of 0 "wave (?k + 1) - wave ?k"] st by (auto simp: min_def max_def split: if_splits)
  then have e: "sint (scast (sine_lookup ?k) + q_mults_32x32 (scast q) (sine_lookup (?k + 1) - sine_lookup ?k) 31 31 31 :: s64) = ?r"
    using r by (subst sint_add_fits) (simp_all add: m s sint_scast_fits)
  have "sin_fixed w = scast (scast (sine_lookup ?k) + q_mults_32x32 (scast q) (sine_lookup (?k + 1) - sine_lookup ?k) 31 31 31 :: s64)"
    unfolding sin_fixed_def Let_def p_def [symmetric] i q_def [symmetric] ..
  also have "\<dots> = word_of_int (sint (scast (sine_lookup ?k) + q_mults_32x32 (scast q) (sine_lookup (?k + 1) - sine_lookup ?k) 31 31 31 :: s64))"
    by (rule scast_eq)
  finally have "sin_fixed w = word_of_int ?r" unfolding e .
  then show ?thesis using r by (simp only:) (rule sint_eq_if_fits; simp)
qed

lemma sin_fixed_range:
  assumes "0 \<le> sint w" "sint w \<le> PI_MUL2_Q4_28"
  shows "- 2147483647 \<le> sint (sin_fixed w)" "sint (sin_fixed w) \<le> 2147483647"
  using interpolate_between [OF sine_frac_range(1) [of "sint w"] sine_frac_range(2) [of "sint w"], of "wave (sine_idx (sint w))" "wave (sine_idx (sint w) + 1) - wave (sine_idx (sint w))"]
    wave_range [of "sine_idx (sint w)"] wave_range [of "sine_idx (sint w) + 1"] sine_idx_range [OF assms]
  unfolding sin_fixed_value [OF assms] by (auto simp: min_def max_def split: if_splits)

end
