(* ===== verification/Reef_Sine.thy ===== *)
theory Reef_Sine
  imports Complex_Main Reef_Trig
begin

text \<open>
  How close \<open>sin_fixed\<close> is to the sine. The angle of a table step is a quarter turn halved nine times,
  so its cosine and sine are enclosed by rational numbers through the half-angle formula; rotating by
  it 512 times, in integers with 80 bits after the point and an explicit error bound, encloses the
  sine at every table step, and the table is checked against that. Between the steps the
  interpolation error is bounded by the curvature.
\<close>

section \<open>The angle of a table step\<close>

definition step_angle :: real where "step_angle = pi / 1024"

lemma cos_half_lower: "0 \<le> x \<Longrightarrow> x \<le> pi \<Longrightarrow> L \<le> cos x \<Longrightarrow> 2 * l\<^sup>2 - 1 \<le> L \<Longrightarrow> l \<le> cos (x / 2)"
proof (rule power2_le_imp_le)
  assume "0 \<le> x" "x \<le> pi" "L \<le> cos x" "2 * l\<^sup>2 - 1 \<le> L"
  then show "l\<^sup>2 \<le> (cos (x / 2))\<^sup>2" using cos_double_cos [of "x / 2"] by simp
  show "0 \<le> cos (x / 2)" using \<open>0 \<le> x\<close> \<open>x \<le> pi\<close> by (intro cos_ge_zero) simp_all
qed

lemma cos_half_upper:
  fixes x :: real
  assumes "cos x \<le> U" "U \<le> 2 * u\<^sup>2 - 1" "0 \<le> u"
  shows "cos (x / 2) \<le> u"
  using _ assms(3)
proof (rule power2_le_imp_le)
  show "(cos (x / 2))\<^sup>2 \<le> u\<^sup>2" using assms cos_double_cos [of "x / 2"] by simp
qed

definition near :: "real \<Rightarrow> int \<Rightarrow> int \<Rightarrow> bool" where
  "near x l u \<longleftrightarrow> of_int l \<le> 10 ^ 34 * x \<and> 10 ^ 34 * x \<le> of_int u"

lemma near_half:
  assumes "near (cos x) L U" "0 \<le> x" "x \<le> pi" "2 * l\<^sup>2 - 10 ^ 68 \<le> L * 10 ^ 34" "U * 10 ^ 34 \<le> 2 * u\<^sup>2 - 10 ^ 68" "0 \<le> u"
  shows "near (cos (x / 2)) l u"
proof -
  have i: "of_int (2 * l\<^sup>2 - 10 ^ 68) \<le> (of_int (L * 10 ^ 34) :: real)" "of_int (U * 10 ^ 34) \<le> (of_int (2 * u\<^sup>2 - 10 ^ 68) :: real)"
    using assms(4,5) by (simp_all only: of_int_le_iff)
  have "2 * (of_int l / 10 ^ 34)\<^sup>2 - 1 \<le> of_int L / (10 ^ 34 :: real)" "of_int U / (10 ^ 34 :: real) \<le> 2 * (of_int u / 10 ^ 34)\<^sup>2 - 1"
    using i by (simp_all add: power_divide field_simps)
  moreover have "of_int L / 10 ^ 34 \<le> cos x" "cos x \<le> of_int U / 10 ^ 34" using assms(1) by (simp_all add: near_def field_simps)
  ultimately have "of_int l / 10 ^ 34 \<le> cos (x / 2)" "cos (x / 2) \<le> of_int u / 10 ^ 34"
    using cos_half_lower [OF assms(2,3), of "of_int L / 10 ^ 34" "of_int l / 10 ^ 34"]
      cos_half_upper [of x "of_int U / 10 ^ 34" "of_int u / 10 ^ 34"] assms(6) by simp_all
  then show ?thesis by (simp add: near_def field_simps)
qed

lemma cos_steps:
  shows cos_step2: "near (cos (pi / 4)) 7071067811865475244008443621048488 7071067811865475244008443621048493"
    and cos_step3: "near (cos (pi / 8)) 9238795325112867561281831893967879 9238795325112867561281831893967886"
    and cos_step4: "near (cos (pi / 16)) 9807852804032304491261822361342386 9807852804032304491261822361342395"
    and cos_step5: "near (cos (pi / 32)) 9951847266721968862448369531094794 9951847266721968862448369531094805"
    and cos_step6: "near (cos (pi / 64)) 9987954562051723927147716047591000 9987954562051723927147716047591013"
    and cos_step7: "near (cos (pi / 128)) 9996988186962042201157656496661714 9996988186962042201157656496661729"
    and cos_step8: "near (cos (pi / 256)) 9999247018391445409216464911963824 9999247018391445409216464911963841"
    and cos_step9: "near (cos (pi / 512)) 9999811752826011426569904377285668 9999811752826011426569904377285687"
    and cos_step10: "near (cos (pi / 1024)) 9999952938095761715115801257001188 9999952938095761715115801257001209"
proof -
  have c1: "near (cos (pi / 2)) 0 0" by (simp add: near_def)
  show c2: "near (cos (pi / 4)) 7071067811865475244008443621048488 7071067811865475244008443621048493"
    using near_half [OF c1, of 7071067811865475244008443621048488 7071067811865475244008443621048493] by simp
  show c3: "near (cos (pi / 8)) 9238795325112867561281831893967879 9238795325112867561281831893967886"
    using near_half [OF c2, of 9238795325112867561281831893967879 9238795325112867561281831893967886] by simp
  show c4: "near (cos (pi / 16)) 9807852804032304491261822361342386 9807852804032304491261822361342395"
    using near_half [OF c3, of 9807852804032304491261822361342386 9807852804032304491261822361342395] by simp
  show c5: "near (cos (pi / 32)) 9951847266721968862448369531094794 9951847266721968862448369531094805"
    using near_half [OF c4, of 9951847266721968862448369531094794 9951847266721968862448369531094805] by simp
  show c6: "near (cos (pi / 64)) 9987954562051723927147716047591000 9987954562051723927147716047591013"
    using near_half [OF c5, of 9987954562051723927147716047591000 9987954562051723927147716047591013] by simp
  show c7: "near (cos (pi / 128)) 9996988186962042201157656496661714 9996988186962042201157656496661729"
    using near_half [OF c6, of 9996988186962042201157656496661714 9996988186962042201157656496661729] by simp
  show c8: "near (cos (pi / 256)) 9999247018391445409216464911963824 9999247018391445409216464911963841"
    using near_half [OF c7, of 9999247018391445409216464911963824 9999247018391445409216464911963841] by simp
  show c9: "near (cos (pi / 512)) 9999811752826011426569904377285668 9999811752826011426569904377285687"
    using near_half [OF c8, of 9999811752826011426569904377285668 9999811752826011426569904377285687] by simp
  show c10: "near (cos (pi / 1024)) 9999952938095761715115801257001188 9999952938095761715115801257001209"
    using near_half [OF c9, of 9999952938095761715115801257001188 9999952938095761715115801257001209] by simp
qed

text \<open>\<open>2 - 2 * cos step_angle\<close> and \<open>sin step_angle\<close> with 56 bits after the point.\<close>

definition DD :: int where "DD = 678233518051"
definition SH :: int where "SH = 221069582951718"

lemma DD_near: "\<bar>of_int DD - 2 ^ 56 * (2 - 2 * cos step_angle)\<bar> \<le> 1"
  using cos_step10 by (simp add: near_def step_angle_def DD_def abs_le_iff)

lemma sin_h_bounds: "(of_int SH - 1) / 2 ^ 56 \<le> sin step_angle" "sin step_angle \<le> (of_int SH + 1) / 2 ^ 56"
proof -
  have d: "2 * (sin step_angle)\<^sup>2 = 1 - cos (pi / 512)" using cos_double_sin [of step_angle] by (simp add: step_angle_def)
  have p: "0 \<le> sin step_angle" by (intro sin_ge_zero) (simp_all add: step_angle_def)
  show "sin step_angle \<le> (of_int SH + 1) / 2 ^ 56"
  proof (rule power2_le_imp_le)
    have "2 * (sin step_angle)\<^sup>2 \<le> 2 * ((of_int SH + 1) / 2 ^ 56)\<^sup>2" unfolding d using cos_step9 by (simp add: near_def SH_def power2_eq_square)
    then show "(sin step_angle)\<^sup>2 \<le> ((of_int SH + 1) / 2 ^ 56)\<^sup>2" by simp
  qed (simp add: SH_def)
  show "(of_int SH - 1) / 2 ^ 56 \<le> sin step_angle"
  proof (rule power2_le_imp_le [OF _ p])
    have "2 * ((of_int SH - 1) / 2 ^ 56)\<^sup>2 \<le> 2 * (sin step_angle)\<^sup>2" unfolding d using cos_step9 by (simp add: near_def SH_def power2_eq_square)
    then show "((of_int SH - 1) / 2 ^ 56)\<^sup>2 \<le> (sin step_angle)\<^sup>2" by simp
  qed
qed

lemma SH_near: "\<bar>of_int SH - 2 ^ 56 * sin step_angle\<bar> \<le> 1"
  using sin_h_bounds by (simp add: abs_le_iff field_simps)

section \<open>The table\<close>

text \<open>
  \<open>S\<close> is the sine of a step and \<open>D\<close> the difference to the next, with 56 bits after the point;
  \<open>eS\<close> and \<open>eD\<close> bound their errors. Every entry must lie within one and a half units of the sine
  in Q1.31; \<open>r\<close> is the state after the last.
\<close>

fun steps_near :: "int \<Rightarrow> int \<Rightarrow> int \<Rightarrow> int \<Rightarrow> int list \<Rightarrow> int \<times> int \<times> int \<times> int \<Rightarrow> bool" where
  "steps_near D S eD eS [] r \<longleftrightarrow> r = (D, S, eD, eS)"
| "steps_near D S eD eS (t # ts) r \<longleftrightarrow> \<bar>t * 2 ^ 25 - (S + D)\<bar> + (eS + eD) \<le> 3 * 2 ^ 24 \<and>
     steps_near (D - drop_bit 56 ((S + D) * DD)) (S + D) (eD + drop_bit 16 (eS + eD) + 3) (eS + eD) ts r"

lemma steps_near_append:
  "steps_near D S eD eS ts (D', S', eD', eS') \<Longrightarrow> steps_near D' S' eD' eS' us r \<Longrightarrow> steps_near D S eD eS (ts @ us) r"
  by (induction ts arbitrary: D S eD eS) auto

text \<open>The parts of the table are checked in four pieces each.\<close>

definition piece :: "nat \<Rightarrow> 'a list \<Rightarrow> 'a list" where
  "piece i l = (if i = 3 then drop 96 l else take 32 (drop (32 * i) l))"

lemma pieces: "l = piece 0 l @ piece 1 l @ piece 2 l @ piece 3 l"
proof -
  have "l = take 32 l @ drop 32 l" "drop 32 l = take 32 (drop 32 l) @ drop 64 l" "drop 64 l = take 32 (drop 64 l) @ drop 96 l"
    using append_take_drop_id [of 32 "drop 32 l"] append_take_drop_id [of 32 "drop 64 l"] by simp_all
  then show ?thesis by (simp add: piece_def)
qed

lemma steps_10: "steps_near 221069582951718 (-221069582951718) 1 1 (piece 0 sine_part1)
    (220038311740317, 6842840994886054, 97, 1521)"
  by (simp add: sine_part1_def piece_def del: steps_near.simps) (simp add: DD_def)

lemma steps_11: "steps_near 220038311740317 6842840994886054 97 1521 (piece 1 sine_part1)
    (216887951301674, 13840851273266148, 193, 6113)"
  by (simp add: sine_part1_def piece_def del: steps_near.simps) (simp add: DD_def)

lemma steps_12: "steps_near 216887951301674 13840851273266148 193 6113 (piece 2 sine_part1)
    (211648841328984, 20705566587706199, 289, 13777)"
  by (simp add: sine_part1_def piece_def del: steps_near.simps) (simp add: DD_def)

lemma steps_13: "steps_near 211648841328984 20705566587706199 289 13777 (piece 3 sine_part1)
    (204111888584636, 27575247414408207, 388, 24898)"
  by (simp add: sine_part1_def piece_def del: steps_near.simps) (simp add: DD_def)

lemma steps_20: "steps_near 204111888584636 27575247414408207 388 24898 (piece 0 sine_part2)
    (194806107572201, 33967714693017316, 484, 38802)"
  by (simp add: sine_part2_def piece_def del: steps_near.simps) (simp add: DD_def)

lemma steps_21: "steps_near 194806107572201 33967714693017316 484 38802 (piece 1 sine_part2)
    (183624237251994, 40033054310491424, 580, 55778)"
  by (simp add: sine_part2_def piece_def del: steps_near.simps) (simp add: DD_def)

lemma steps_22: "steps_near 183624237251994 40033054310491424 580 55778 (piece 2 sine_part2)
    (170673965147831, 45712853730662320, 692, 75946)"
  by (simp add: sine_part2_def piece_def del: steps_near.simps) (simp add: DD_def)

lemma steps_23: "steps_near 170673965147831 45712853730662320 692 75946 (piece 3 sine_part2)
    (156080009459415, 50952413380219517, 820, 100074)"
  by (simp add: sine_part2_def piece_def del: steps_near.simps) (simp add: DD_def)

lemma steps_30: "steps_near 156080009459415 50952413380219517 820 100074 (piece 0 sine_part3)
    (139982917957892, 55701273435503193, 948, 128298)"
  by (simp add: sine_part3_def piece_def del: steps_near.simps) (simp add: DD_def)

lemma steps_31: "steps_near 139982917957892 55701273435503193 948 128298 (piece 1 sine_part3)
    (122537714433987, 59913699778189960, 1106, 161053)"
  by (simp add: sine_part3_def piece_def del: steps_near.simps) (simp add: DD_def)

lemma steps_32: "steps_near 122537714433987 59913699778189960 1106 161053 (piece 2 sine_part3)
    (103912405734153, 63549124439853202, 1268, 198926)"
  by (simp add: sine_part3_def piece_def del: steps_near.simps) (simp add: DD_def)

lemma steps_33: "steps_near 103912405734153 63549124439853202 1268 198926 (piece 3 sine_part3)
    (84286363762800, 66572536293675836, 1460, 242478)"
  by (simp add: sine_part3_def piece_def del: steps_near.simps) (simp add: DD_def)

lemma steps_40: "steps_near 84286363762800 66572536293675836 1460 242478 (piece 0 sine_part4)
    (63848598032796, 68954818230740456, 1671, 292345)"
  by (simp add: sine_part4_def piece_def del: steps_near.simps) (simp add: DD_def)

lemma steps_41: "steps_near 63848598032796 68954818230740456 1671 292345 (piece 1 sine_part4)
    (42795935400547, 70673027573705406, 1907, 349355)"
  by (simp add: sine_part4_def piece_def del: steps_near.simps) (simp add: DD_def)

lemma steps_42: "steps_near 42795935400547 70673027573705406 1907 349355 (piece 2 sine_part4)
    (21331124515754, 71710617027329280, 2173, 414392)"
  by (simp add: sine_part4_def piece_def del: steps_near.simps) (simp add: DD_def)

lemma steps_43: "steps_near 21331124515754 71710617027329280 2173 414392 (piece 3 sine_part4)
    (-339116758907, 72057594037969576, 2474, 488470)"
  by (simp add: sine_part4_def piece_def del: steps_near.simps) (simp add: DD_def)

lemma steps_table: "\<exists>r. steps_near SH (- SH) 1 1 sine_table r"
proof -
  have p1: "steps_near 221069582951718 (-221069582951718) 1 1 sine_part1 (204111888584636, 27575247414408207, 388, 24898)"
    by (subst pieces [of sine_part1]) (rule steps_near_append [OF steps_10 steps_near_append [OF steps_11 steps_near_append [OF steps_12 steps_13]]])
  have p2: "steps_near 204111888584636 27575247414408207 388 24898 sine_part2 (156080009459415, 50952413380219517, 820, 100074)"
    by (subst pieces [of sine_part2]) (rule steps_near_append [OF steps_20 steps_near_append [OF steps_21 steps_near_append [OF steps_22 steps_23]]])
  have p3: "steps_near 156080009459415 50952413380219517 820 100074 sine_part3 (84286363762800, 66572536293675836, 1460, 242478)"
    by (subst pieces [of sine_part3]) (rule steps_near_append [OF steps_30 steps_near_append [OF steps_31 steps_near_append [OF steps_32 steps_33]]])
  have p4: "steps_near 84286363762800 66572536293675836 1460 242478 sine_part4 (-339116758907, 72057594037969576, 2474, 488470)"
    by (subst pieces [of sine_part4]) (rule steps_near_append [OF steps_40 steps_near_append [OF steps_41 steps_near_append [OF steps_42 steps_43]]])
  show ?thesis unfolding sine_table_def SH_def
    using steps_near_append [OF p1 steps_near_append [OF p2 steps_near_append [OF p3 p4]]] by (rule exI)
qed


lemma drop_bit_near: "real_of_int (drop_bit n a) \<le> of_int a / 2 ^ n" "of_int a / 2 ^ n - 1 \<le> real_of_int (drop_bit n a)"
proof -
  have "a div 2 ^ n * 2 ^ n \<le> a" "a < a div 2 ^ n * 2 ^ n + 2 ^ n"
    using div_mult_mod_eq [of a "2 ^ n"] pos_mod_bound [of "2 ^ n" a] pos_mod_sign [of "2 ^ n" a] by (smt (verit) zero_less_numeral zero_less_power)+
  then have "of_int (a div 2 ^ n * 2 ^ n) \<le> real_of_int a" "real_of_int a < of_int (a div 2 ^ n * 2 ^ n + 2 ^ n)"
    by (simp_all only: of_int_le_iff of_int_less_iff)
  then show "real_of_int (drop_bit n a) \<le> of_int a / 2 ^ n" "of_int a / 2 ^ n - 1 \<le> real_of_int (drop_bit n a)"
    by (simp_all add: drop_bit_eq_div field_simps)
qed

lemma next_difference: "sin (a + step_angle + step_angle) - sin (a + step_angle) = sin (a + step_angle) - sin a - (2 - 2 * cos step_angle) * sin (a + step_angle)"
  using sin_add [of "a + step_angle" step_angle] sin_diff [of "a + step_angle" step_angle] by (simp add: algebra_simps)

lemma difference_error:
  fixes S eS x :: real
  assumes "\<bar>S - 2 ^ 56 * x\<bar> \<le> eS" "\<bar>x\<bar> \<le> 1"
  shows "\<bar>S * of_int DD / 2 ^ 56 - 2 ^ 56 * ((2 - 2 * cos step_angle) * x)\<bar> \<le> eS / 2 ^ 16 + 1"
proof -
  let ?d = "of_int DD / 2 ^ 56 :: real"
  have "0 \<le> ?d" "?d \<le> 1 / 2 ^ 16" by (simp_all add: DD_def)
  then have "\<bar>S - 2 ^ 56 * x\<bar> * ?d \<le> eS * (1 / 2 ^ 16)" using assms(1) by (intro mult_mono) simp_all
  then have 1: "\<bar>(S - 2 ^ 56 * x) * ?d\<bar> \<le> eS / 2 ^ 16" using \<open>0 \<le> ?d\<close> by (simp add: abs_mult)
  have "\<bar>x\<bar> * \<bar>of_int DD - 2 ^ 56 * (2 - 2 * cos step_angle)\<bar> \<le> 1 * 1" using assms(2) DD_near by (intro mult_mono) simp_all
  then have 2: "\<bar>x * (of_int DD - 2 ^ 56 * (2 - 2 * cos step_angle))\<bar> \<le> 1" by (simp add: abs_mult)
  have "S * of_int DD / 2 ^ 56 - 2 ^ 56 * ((2 - 2 * cos step_angle) * x) = (S - 2 ^ 56 * x) * ?d + x * (of_int DD - 2 ^ 56 * (2 - 2 * cos step_angle))"
    by (simp add: field_simps)
  then show ?thesis using 1 2 by linarith
qed

lemma add_errors:
  fixes P Q E A A' B eB p e :: real
  assumes "\<bar>P - Q\<bar> \<le> E / 2 ^ 16 + 1" "A' = A - Q" "\<bar>B - A\<bar> \<le> eB" "p \<le> P" "P - 1 \<le> p" "E / 2 ^ 16 - 1 \<le> e"
  shows "\<bar>B - p - A'\<bar> \<le> eB + e + 3"
  using assms unfolding abs_le_iff by linarith

lemma steps_near_sin:
  assumes "steps_near D S eD eS ts r" "\<bar>of_int S - 2 ^ 56 * sin a\<bar> \<le> of_int eS" "\<bar>of_int D - 2 ^ 56 * (sin (a + step_angle) - sin a)\<bar> \<le> of_int eD"
    and "i < length ts"
  shows "\<bar>of_int (ts ! i) - 2 ^ 31 * sin (a + step_angle + of_nat i * step_angle)\<bar> \<le> 3 / 2"
  using assms
proof (induction ts arbitrary: D S eD eS a i)
  case (Cons t ts)
  have sd: "\<bar>of_int (S + D) - 2 ^ 56 * sin (a + step_angle)\<bar> \<le> of_int (eS + eD)"
    using Cons.prems(2,3) unfolding of_int_add right_diff_distrib by linarith
  show ?case
  proof (cases i)
    case 0
    have "real_of_int (\<bar>t * 2 ^ 25 - (S + D)\<bar> + (eS + eD)) \<le> of_int (3 * 2 ^ 24)"
      using Cons.prems(1) by (simp only: of_int_le_iff steps_near.simps)
    then have "\<bar>of_int t * 2 ^ 25 - of_int (S + D)\<bar> + of_int (eS + eD) \<le> (3 * 2 ^ 24 :: real)" by simp
    then have "\<bar>of_int t * 2 ^ 25 - 2 ^ 56 * sin (a + step_angle)\<bar> \<le> 3 * 2 ^ 24" using sd by linarith
    then have "\<bar>2 ^ 25 * (of_int t - 2 ^ 31 * sin (a + step_angle))\<bar> \<le> 3 * 2 ^ 24" by (simp add: algebra_simps)
    then have "2 ^ 25 * \<bar>of_int t - 2 ^ 31 * sin (a + step_angle)\<bar> \<le> 3 * 2 ^ 24" by (simp only: abs_mult) simp
    then show ?thesis using 0 by simp
  next
    case (Suc j)
    let ?D = "D - drop_bit 56 ((S + D) * DD)" and ?eD = "eD + drop_bit 16 (eS + eD) + 3"
    let ?q = "2 ^ 56 * ((2 - 2 * cos step_angle) * sin (a + step_angle))"
    have "\<bar>of_int ((S + D) * DD) / 2 ^ 56 - ?q\<bar> \<le> of_int (eS + eD) / 2 ^ 16 + 1"
      using difference_error [OF sd] by simp
    moreover have "2 ^ 56 * (sin (a + step_angle + step_angle) - sin (a + step_angle)) = 2 ^ 56 * (sin (a + step_angle) - sin a) - ?q"
      unfolding next_difference by (simp only: right_diff_distrib)
    ultimately have "\<bar>of_int D - of_int (drop_bit 56 ((S + D) * DD)) - 2 ^ 56 * (sin (a + step_angle + step_angle) - sin (a + step_angle))\<bar> \<le> of_int eD + of_int (drop_bit 16 (eS + eD)) + 3"
      using add_errors [OF _ _ Cons.prems(3) drop_bit_near(1) drop_bit_near(2) drop_bit_near(2)] by blast
    then have "\<bar>of_int ?D - 2 ^ 56 * (sin (a + step_angle + step_angle) - sin (a + step_angle))\<bar> \<le> of_int ?eD" by (simp only: of_int_diff of_int_add of_int_numeral)
    then have "\<bar>of_int (ts ! j) - 2 ^ 31 * sin (a + step_angle + step_angle + of_nat j * step_angle)\<bar> \<le> 3 / 2"
      using Cons.prems(1,4) sd Suc by (intro Cons.IH [of ?D "S + D" ?eD "eS + eD"]) simp_all
    then show ?thesis using Suc by (simp add: algebra_simps)
  qed
qed simp

lemma table_sin:
  assumes "0 \<le> k" "k \<le> 512"
  shows "\<bar>of_int (sine_table ! nat k) - 2 ^ 31 * sin (of_int k * step_angle)\<bar> \<le> 3 / 2"
proof -
  obtain r where "steps_near SH (- SH) 1 1 sine_table r" using steps_table by blast
  then have "\<bar>of_int (sine_table ! nat k) - 2 ^ 31 * sin (- step_angle + step_angle + of_nat (nat k) * step_angle)\<bar> \<le> 3 / 2"
    by (rule steps_near_sin) (use SH_near assms in \<open>simp_all add: abs_le_iff\<close>)
  then show ?thesis using assms by simp
qed

section \<open>A full turn\<close>

lemma quarter_turns: "1024 * step_angle = pi" "2048 * step_angle = 2 * pi" "512 * step_angle = pi / 2" "1536 * step_angle = pi + pi / 2"
  by (simp_all add: step_angle_def)

lemma wave_sin:
  assumes "0 \<le> k" "k \<le> 2048"
  shows "\<bar>of_int (wave k) - 2 ^ 31 * sin (of_int k * step_angle)\<bar> \<le> 3 / 2"
proof -
  consider "k \<le> 512" | "512 < k" "k \<le> 1024" | "1024 < k" "k \<le> 1536" | "1536 < k" "k \<le> 2048" using assms by linarith
  then show ?thesis
  proof cases
    case 1 then show ?thesis using table_sin [of k] assms by (simp add: wave_def)
  next
    case 2
    have "of_int (1024 - k) * step_angle = pi - of_int k * step_angle" using quarter_turns(1) by (simp add: left_diff_distrib)
    then show ?thesis using 2 table_sin [of "1024 - k"] by (simp add: wave_def)
  next
    case 3
    have "of_int (k - 1024) * step_angle = of_int k * step_angle - pi" using quarter_turns(1) by (simp add: left_diff_distrib)
    then have "sin (of_int (k - 1024) * step_angle) = - sin (of_int k * step_angle)" by (simp add: sin_diff)
    then have "of_int (wave k) - 2 ^ 31 * sin (of_int k * step_angle) = - (of_int (sine_table ! nat (k - 1024)) - 2 ^ 31 * sin (of_int (k - 1024) * step_angle))"
      using 3 by (simp add: wave_def)
    then show ?thesis using 3 table_sin [of "k - 1024"] by (simp only: abs_minus_cancel)
  next
    case 4
    have "of_int (2048 - k) * step_angle = 2 * pi - of_int k * step_angle" using quarter_turns(2) by (simp add: left_diff_distrib)
    then have "sin (of_int (2048 - k) * step_angle) = - sin (of_int k * step_angle)" by (simp add: sin_diff)
    then have "of_int (wave k) - 2 ^ 31 * sin (of_int k * step_angle) = - (of_int (sine_table ! nat (2048 - k)) - 2 ^ 31 * sin (of_int (2048 - k) * step_angle))"
      using 4 by (simp add: wave_def)
    then show ?thesis using 4 table_sin [of "2048 - k"] by (simp only: abs_minus_cancel)
  qed
qed

section \<open>Between the steps\<close>

lemma sin_cubic: "0 \<le> x \<Longrightarrow> \<bar>sin x - (x - x ^ 3 / 6)\<bar> \<le> x ^ 5 / 120" for x :: real
proof -
  have "(\<Sum>m<5. sin_coeff m * x ^ m) = x - x ^ 3 / 6" by (simp add: lessThan_nat_numeral sin_coeff_def fact_numeral)
  from Maclaurin_sin_bound [of x 5, unfolded this] show "0 \<le> x \<Longrightarrow> \<bar>sin x - (x - x ^ 3 / 6)\<bar> \<le> x ^ 5 / 120" by (simp add: fact_numeral)
qed

lemma sin_linear: "0 \<le> x \<Longrightarrow> \<bar>sin x - x\<bar> \<le> x ^ 3 / 6" for x :: real
proof -
  have "(\<Sum>m<3. sin_coeff m * x ^ m) = x" by (simp add: lessThan_nat_numeral sin_coeff_def fact_numeral)
  from Maclaurin_sin_bound [of x 3, unfolded this] show "0 \<le> x \<Longrightarrow> \<bar>sin x - x\<bar> \<le> x ^ 3 / 6" by (simp add: fact_numeral)
qed

lemma step_angle_pos: "0 < step_angle" by (simp add: step_angle_def)

lemma step_angle_range: "0.0030679615746 \<le> step_angle" "step_angle \<le> 0.0030679615759"
proof -
  have c: "step_angle < 1 / 256" using pi_less_4 by (simp add: step_angle_def)
  have pow: "step_angle ^ n \<le> b ^ n" if "step_angle \<le> b" for b n using step_angle_pos that by (intro power_mono) simp_all
  have s: "0.003067956762 \<le> sin step_angle" "sin step_angle \<le> 0.003067956763"
    using sin_h_bounds by (simp_all add: SH_def)
  have low: "0.003067956762 \<le> step_angle" using s(1) sin_x_le_x [of step_angle] step_angle_pos by simp
  have up5: "step_angle ^ 5 \<le> 120 / 10 ^ 14" using pow [of "1 / 256" 5] c by (simp add: power_divide)
  have q: "sin step_angle \<le> step_angle - step_angle ^ 3 / 6 + 1 / 10 ^ 14" "step_angle - step_angle ^ 3 / 6 - 1 / 10 ^ 14 \<le> sin step_angle"
    using sin_cubic [of step_angle] step_angle_pos up5 unfolding abs_le_iff by simp_all
  have "step_angle ^ 3 \<le> 1 / 16777216" using pow [of "1 / 256" 3] c by (simp add: power_divide)
  then have up: "step_angle \<le> 0.0030679668" using q s(2) by simp
  have "step_angle ^ 3 \<le> 0.0030679668 ^ 3" by (rule pow [OF up])
  also have "\<dots> \<le> 0.000000028877" by (simp add: power_divide)
  finally show "step_angle \<le> 0.0030679615759" using q s(2) by simp
  have "0.0000000288767 \<le> (0.003067956762 :: real) ^ 3" by (simp add: power_divide)
  also have "\<dots> \<le> step_angle ^ 3" using low by (intro power_mono) simp_all
  finally show "0.0030679615746 \<le> step_angle" using q s(1) by simp
qed

lemma one_minus_cos: "0 \<le> x \<Longrightarrow> \<bar>1 - cos x - x\<^sup>2 / 2\<bar> \<le> x ^ 4 / 24" for x :: real
proof -
  assume x: "0 \<le> x"
  let ?y = "x / 2"
  have "1 - cos x = 2 * (sin ?y)\<^sup>2" using cos_double_sin [of ?y] by simp
  then have "1 - cos x - x\<^sup>2 / 2 = 2 * ((sin ?y - ?y) * (sin ?y + ?y))" by (simp add: power2_eq_square algebra_simps)
  then have "\<bar>1 - cos x - x\<^sup>2 / 2\<bar> = 2 * (\<bar>sin ?y - ?y\<bar> * \<bar>sin ?y + ?y\<bar>)" by (simp only: abs_mult abs_numeral)
  also have "\<dots> \<le> 2 * (?y ^ 3 / 6 * (2 * ?y))"
  proof (intro mult_left_mono mult_mono)
    show "\<bar>sin ?y - ?y\<bar> \<le> ?y ^ 3 / 6" using x by (intro sin_linear) simp
    show "\<bar>sin ?y + ?y\<bar> \<le> 2 * ?y" using x abs_sin_x_le_abs_x [of ?y] by (simp add: abs_le_iff)
  qed (use x in simp_all)
  also have "\<dots> = x ^ 4 / 24" by (simp add: power_numeral_reduce)
  finally show ?thesis .
qed

text \<open>The chord from \<open>a\<close> to \<open>a + step_angle\<close> against the arc, at the fraction \<open>f\<close>.\<close>

lemma chord_error:
  assumes "0 \<le> f" "f \<le> 1"
  shows "\<bar>(1 - f) * sin a + f * sin (a + step_angle) - sin (a + f * step_angle)\<bar> \<le> step_angle\<^sup>2 / 8 + step_angle ^ 4 / 12 + step_angle ^ 3 / 3"
proof -
  let ?x = "f * step_angle"
  have x: "0 \<le> ?x" "?x \<le> step_angle" using assms step_angle_pos by (simp_all add: mult_left_le_one_le)
  have e: "(1 - f) * sin a + f * sin (a + step_angle) - sin (a + ?x)
      = sin a * ((1 - cos ?x) - f * (1 - cos step_angle)) + cos a * (f * sin step_angle - sin ?x)"
    by (simp add: sin_add algebra_simps)
  have q: "0 \<le> f * (1 - f)" "f * (1 - f) \<le> 1 / 4"
    using assms zero_le_power2 [of "f - 1 / 2"] by (simp, simp add: power2_eq_square algebra_simps)
  have "\<bar>(1 - cos ?x) - f * (1 - cos step_angle)\<bar> \<le> step_angle\<^sup>2 / 8 + step_angle ^ 4 / 12"
  proof -
    have p: "?x ^ 4 \<le> step_angle ^ 4" using x by (intro power_mono) simp_all
    have "f * \<bar>1 - cos step_angle - step_angle\<^sup>2 / 2\<bar> \<le> 1 * (step_angle ^ 4 / 24)" using one_minus_cos [of step_angle] step_angle_pos assms by (intro mult_mono) simp_all
    then have "\<bar>f * (1 - cos step_angle - step_angle\<^sup>2 / 2)\<bar> \<le> step_angle ^ 4 / 24" using assms by (simp add: abs_mult)
    moreover have "\<bar>1 - cos ?x - ?x\<^sup>2 / 2\<bar> \<le> step_angle ^ 4 / 24" using one_minus_cos [OF x(1)] p by linarith
    moreover have "\<bar>?x\<^sup>2 / 2 - f * (step_angle\<^sup>2 / 2)\<bar> \<le> step_angle\<^sup>2 / 8"
    proof -
      have "?x\<^sup>2 / 2 - f * (step_angle\<^sup>2 / 2) = - (f * (1 - f) * (step_angle\<^sup>2 / 2))" by (simp add: power2_eq_square field_simps)
      moreover have "f * (1 - f) * (step_angle\<^sup>2 / 2) \<le> 1 / 4 * (step_angle\<^sup>2 / 2)" using q by (intro mult_right_mono) simp_all
      ultimately show ?thesis using q(1) by (simp add: abs_le_iff)
    qed
    moreover have "(1 - cos ?x) - f * (1 - cos step_angle) = (1 - cos ?x - ?x\<^sup>2 / 2) - f * (1 - cos step_angle - step_angle\<^sup>2 / 2) + (?x\<^sup>2 / 2 - f * (step_angle\<^sup>2 / 2))"
      by (simp add: algebra_simps)
    ultimately show ?thesis by linarith
  qed
  then have 1: "\<bar>sin a * ((1 - cos ?x) - f * (1 - cos step_angle))\<bar> \<le> 1 * (step_angle\<^sup>2 / 8 + step_angle ^ 4 / 12)"
    unfolding abs_mult by (intro mult_mono) simp_all
  have "\<bar>f * sin step_angle - sin ?x\<bar> \<le> step_angle ^ 3 / 3"
  proof -
    have "f * \<bar>sin step_angle - step_angle\<bar> \<le> 1 * (step_angle ^ 3 / 6)" using sin_linear [of step_angle] step_angle_pos assms by (intro mult_mono) simp_all
    then have "\<bar>f * (sin step_angle - step_angle)\<bar> \<le> step_angle ^ 3 / 6" using assms by (simp add: abs_mult)
    moreover have "?x ^ 3 \<le> step_angle ^ 3" using x by (intro power_mono) simp_all
    then have "\<bar>sin ?x - ?x\<bar> \<le> step_angle ^ 3 / 6" using sin_linear [OF x(1)] by linarith
    moreover have "f * sin step_angle - sin ?x = f * (sin step_angle - step_angle) - (sin ?x - ?x)" by (simp add: algebra_simps)
    ultimately show ?thesis by linarith
  qed
  then have 2: "\<bar>cos a * (f * sin step_angle - sin ?x)\<bar> \<le> 1 * (step_angle ^ 3 / 3)" unfolding abs_mult by (intro mult_mono) simp_all
  show ?thesis unfolding e using add_mono [OF 1 2] by (intro order_trans [OF abs_triangle_ineq]) simp
qed


lemma abs_trans: "\<bar>a - b\<bar> \<le> p \<Longrightarrow> \<bar>b - c\<bar> \<le> q \<Longrightarrow> p + q \<le> r \<Longrightarrow> \<bar>a - c\<bar> \<le> r" for a b c p q r :: real
  by linarith

lemma abs_scale: "\<bar>a - 2 ^ 31 * b\<bar> \<le> e \<Longrightarrow> \<bar>a / 2 ^ 31 - b\<bar> \<le> e / 2 ^ 31" for a b e :: real
proof -
  assume "\<bar>a - 2 ^ 31 * b\<bar> \<le> e"
  moreover have "a / 2 ^ 31 - b = (a - 2 ^ 31 * b) / 2 ^ 31" by (simp add: field_simps)
  ultimately show ?thesis by (simp only: abs_divide) (simp add: divide_right_mono)
qed

lemma sin_lipschitz: "\<bar>sin x - sin y\<bar> \<le> \<bar>x - y\<bar>" for x y :: real
proof -
  have "sin x - sin y = 2 * (sin ((x - y) / 2) * cos ((x + y) / 2))" by (simp add: sin_diff_sin)
  then have "\<bar>sin x - sin y\<bar> = 2 * (\<bar>sin ((x - y) / 2)\<bar> * \<bar>cos ((x + y) / 2)\<bar>)" by (simp only: abs_mult abs_numeral)
  also have "\<dots> \<le> 2 * (\<bar>(x - y) / 2\<bar> * 1)" by (intro mult_left_mono mult_mono abs_sin_x_le_abs_x) simp_all
  finally show ?thesis by simp
qed

text \<open>The angle in table steps, from its index and fraction, is the angle in radians but for a few parts in ten to the nine.\<close>

lemma angle_near:
  assumes "0 \<le> v" "v \<le> PI_MUL2_Q4_28"
  shows "\<bar>(of_int (sine_idx v) + of_int (sine_frac v) / 2 ^ 31) * step_angle - of_int v / 2 ^ 28\<bar> \<le> 6 / 10 ^ 9"
proof -
  let ?x = "of_int (sine_idx v) + of_int (sine_frac v) / 2 ^ 31 :: real" and ?c = "of_int (v * SINE_C_Q20) / 2 ^ 48 :: real"
  have "real_of_int (v * SINE_C_Q20 div 2 ^ 17) = of_int (sine_idx v * 2 ^ 31 + sine_frac v)" by (simp only: sine_split)
  then have x: "?x = of_int (drop_bit 17 (v * SINE_C_Q20)) / 2 ^ 31" by (simp add: drop_bit_eq_div field_simps)
  then have "\<bar>?x - ?c\<bar> \<le> 1 / 2 ^ 31" using drop_bit_near [where n = 17 and a = "v * SINE_C_Q20"] by (simp add: abs_le_iff field_simps)
  then have "\<bar>?x - ?c\<bar> * step_angle \<le> 1 / 2 ^ 31 * 1" using step_angle_range step_angle_pos by (intro mult_mono) simp_all
  then have 1: "\<bar>?x * step_angle - ?c * step_angle\<bar> \<le> 1 / 2 ^ 31" using step_angle_pos by (simp only: left_diff_distrib [symmetric] abs_mult abs_of_pos mult_1_right)
  have v: "0 \<le> real_of_int v" "real_of_int v \<le> 1686629713" using assms by (simp_all add: PI_MUL2_Q4_28_def)
  have "\<bar>of_int SINE_C_Q20 * step_angle / 2 ^ 20 - 1\<bar> \<le> 8 / 10 ^ 10" using step_angle_range by (simp add: SINE_C_Q20_def abs_le_iff)
  then have "of_int v * \<bar>of_int SINE_C_Q20 * step_angle / 2 ^ 20 - 1\<bar> \<le> 1686629713 * (8 / 10 ^ 10)" using v by (intro mult_mono) simp_all
  then have "\<bar>of_int v * (of_int SINE_C_Q20 * step_angle / 2 ^ 20 - 1)\<bar> \<le> 1686629713 * (8 / 10 ^ 10)" using v by (simp only: abs_mult abs_of_nonneg)
  moreover have "?c * step_angle - of_int v / 2 ^ 28 = of_int v * (of_int SINE_C_Q20 * step_angle / 2 ^ 20 - 1) / 2 ^ 28" by (simp add: field_simps)
  ultimately have 2: "\<bar>?c * step_angle - of_int v / 2 ^ 28\<bar> \<le> 1686629713 * (8 / 10 ^ 10) / 2 ^ 28" by (simp only: abs_divide) (simp add: field_simps)
  have "1 / 2 ^ 31 + 1686629713 * (8 / 10 ^ 10) / 2 ^ 28 \<le> (6 / 10 ^ 9 :: real)" by simp
  then show ?thesis by (rule abs_trans [OF 1 2])
qed

text \<open>A combination of two values in error is in error by no more than the greater of the errors.\<close>

lemma convex_error:
  fixes a b a' b' f e :: real
  assumes "\<bar>a - a'\<bar> \<le> e" "\<bar>b - b'\<bar> \<le> e" "0 \<le> f" "f \<le> 1"
  shows "\<bar>(1 - f) * a + f * b - ((1 - f) * a' + f * b')\<bar> \<le> e"
proof -
  have "(1 - f) * \<bar>a - a'\<bar> + f * \<bar>b - b'\<bar> \<le> (1 - f) * e + f * e" using assms by (intro add_mono mult_left_mono) simp_all
  moreover have "(1 - f) * a + f * b - ((1 - f) * a' + f * b') = (1 - f) * (a - a') + f * (b - b')" by (simp add: algebra_simps)
  moreover have "\<bar>(1 - f) * (a - a') + f * (b - b')\<bar> \<le> (1 - f) * \<bar>a - a'\<bar> + f * \<bar>b - b'\<bar>"
    using assms by (intro order_trans [OF abs_triangle_ineq]) (simp add: abs_mult)
  ultimately show ?thesis by (simp add: algebra_simps)
qed

lemma sine_inside:
  assumes "0 \<le> sint w" "sint w \<le> PI_MUL2_Q4_28" "sine_idx (sint w) < 2048"
  shows "\<bar>real_of_int (sint (sin_fixed w)) / 2 ^ 31 - sin ((of_int (sine_idx (sint w)) + of_int (sine_frac (sint w)) / 2 ^ 31) * step_angle)\<bar> \<le> 1189 / 10 ^ 9"
proof -
  let ?k = "sine_idx (sint w)" and ?v = "sine_frac (sint w)"
  let ?f = "of_int ?v / 2 ^ 31 :: real" and ?a = "of_int ?k * step_angle"
  have k: "0 \<le> ?k" using sine_idx_range [OF assms(1,2)] by simp
  have f: "0 \<le> ?f" "?f \<le> 1" using sine_frac_range [of "sint w"] by simp_all
  have d: "\<bar>of_int (sint (sin_fixed w)) - ((1 - ?f) * of_int (wave ?k) + ?f * of_int (wave (?k + 1)))\<bar> \<le> 1"
    using drop_bit_near [where n = 31 and a = "?v * (wave (?k + 1) - wave ?k)"] unfolding sin_fixed_value [OF assms(1,2)]
    by (simp add: drop_bit_eq_div abs_le_iff algebra_simps)
  have t: "\<bar>(1 - ?f) * of_int (wave ?k) + ?f * of_int (wave (?k + 1)) - ((1 - ?f) * (2 ^ 31 * sin ?a) + ?f * (2 ^ 31 * sin (?a + step_angle)))\<bar> \<le> 3 / 2"
    using wave_sin [of ?k] wave_sin [of "?k + 1"] k assms(3) f by (intro convex_error) (simp_all add: distrib_right)
  have "step_angle\<^sup>2 / 8 + step_angle ^ 4 / 12 + step_angle ^ 3 / 3 \<le> 1187 / 10 ^ 9"
  proof -
    have "step_angle ^ n \<le> 0.0030679615759 ^ n" for n using step_angle_range step_angle_pos by (intro power_mono) simp_all
    from this [of 2] this [of 3] this [of 4] show ?thesis by (simp add: power_divide)
  qed
  then have c: "\<bar>(1 - ?f) * sin ?a + ?f * sin (?a + step_angle) - sin (?a + ?f * step_angle)\<bar> \<le> 1187 / 10 ^ 9"
    using chord_error [OF f, of ?a] by linarith
  have e: "(1 - ?f) * (2 ^ 31 * sin ?a) + ?f * (2 ^ 31 * sin (?a + step_angle)) = 2 ^ 31 * ((1 - ?f) * sin ?a + ?f * sin (?a + step_angle))" by (simp add: algebra_simps)
  have "\<bar>of_int (sint (sin_fixed w)) - 2 ^ 31 * ((1 - ?f) * sin ?a + ?f * sin (?a + step_angle))\<bar> \<le> 5 / 2"
    unfolding e [symmetric] by (rule abs_trans [OF d t]) simp
  then have "\<bar>of_int (sint (sin_fixed w)) / 2 ^ 31 - ((1 - ?f) * sin ?a + ?f * sin (?a + step_angle))\<bar> \<le> 5 / 2 / 2 ^ 31" by (rule abs_scale)
  then have "\<bar>real_of_int (sint (sin_fixed w)) / 2 ^ 31 - sin (?a + ?f * step_angle)\<bar> \<le> 1189 / 10 ^ 9" by (rule abs_trans [OF _ c]) simp
  then show ?thesis by (simp add: distrib_right)
qed

text \<open>At the end of the turn the lookup past the last step has the wrong sign, on a negligible fraction.\<close>

lemma sine_end:
  assumes "0 \<le> sint w" "sint w \<le> PI_MUL2_Q4_28" "sine_idx (sint w) = 2048"
  shows "\<bar>real_of_int (sint (sin_fixed w)) / 2 ^ 31 - sin ((of_int (sine_idx (sint w)) + of_int (sine_frac (sint w)) / 2 ^ 31) * step_angle)\<bar> \<le> 1189 / 10 ^ 9"
proof -
  let ?v = "sine_frac (sint w)"
  have "sint w * SINE_C_Q20 \<le> PI_MUL2_Q4_28 * SINE_C_Q20" using assms(2) by (simp add: SINE_C_Q20_def)
  then have "sint w * SINE_C_Q20 div 2 ^ 17 \<le> PI_MUL2_Q4_28 * SINE_C_Q20 div 2 ^ 17" by (intro zdiv_mono1) simp_all
  then have v: "0 \<le> ?v" "?v \<le> 2555" using sine_split [of "sint w"] assms(3) sine_frac_range [of "sint w"] by (simp_all add: PI_MUL2_Q4_28_def SINE_C_Q20_def)
  have "sint (sin_fixed w) = ?v * (- 6588387) div 2 ^ 31"
    unfolding sin_fixed_value [OF assms(1,2)] assms(3) by (simp add: wave_def table_ends)
  moreover have "- 8 \<le> ?v * (- 6588387) div 2 ^ 31" "?v * (- 6588387) div 2 ^ 31 \<le> 0" using v by simp_all
  ultimately have "\<bar>of_int (sint (sin_fixed w)) / 2 ^ 31 :: real\<bar> \<le> 8 / 2 ^ 31" by simp
  moreover have "(of_int 2048 + of_int ?v / 2 ^ 31) * step_angle = of_int ?v / 2 ^ 31 * step_angle + 2 * pi" using quarter_turns(2) by (simp add: distrib_right)
  then have "sin ((of_int 2048 + of_int ?v / 2 ^ 31) * step_angle) = sin (of_int ?v / 2 ^ 31 * step_angle)" by (simp only: sin_periodic)
  moreover have "\<bar>sin (of_int ?v / 2 ^ 31 * step_angle)\<bar> \<le> 2555 / 2 ^ 31 * (1 / 100)"
  proof -
    have "of_int ?v / 2 ^ 31 * step_angle \<le> 2555 / 2 ^ 31 * (1 / 100)" using v step_angle_range step_angle_pos by (intro mult_mono) simp_all
    moreover have "0 \<le> of_int ?v / 2 ^ 31 * step_angle" using v step_angle_pos by simp
    ultimately show ?thesis using abs_sin_x_le_abs_x [of "of_int ?v / 2 ^ 31 * step_angle"] by linarith
  qed
  ultimately have "\<bar>real_of_int (sint (sin_fixed w)) / 2 ^ 31 - 0\<bar> \<le> 8 / 2 ^ 31"
    "\<bar>0 - sin ((of_int 2048 + of_int ?v / 2 ^ 31) * step_angle)\<bar> \<le> 2555 / 2 ^ 31 * (1 / 100)" by simp_all
  then show ?thesis unfolding assms(3) by (rule abs_trans) simp
qed

lemma sine_accuracy:
  assumes "0 \<le> sint w" "sint w \<le> PI_MUL2_Q4_28"
  shows "\<bar>real_of_int (sint (sin_fixed w)) / 2 ^ 31 - sin (real_of_int (sint w) / 2 ^ 28)\<bar> \<le> 12 / 10 ^ (7 :: nat)"
proof -
  let ?x = "(of_int (sine_idx (sint w)) + of_int (sine_frac (sint w)) / 2 ^ 31) * step_angle"
  have "\<bar>real_of_int (sint (sin_fixed w)) / 2 ^ 31 - sin ?x\<bar> \<le> 1189 / 10 ^ 9"
    using sine_inside [OF assms] sine_end [OF assms] sine_idx_range [OF assms] by linarith
  moreover have "\<bar>sin ?x - sin (real_of_int (sint w) / 2 ^ 28)\<bar> \<le> 6 / 10 ^ 9" using angle_near [OF assms] sin_lipschitz order_trans by blast
  ultimately show ?thesis by (rule abs_trans) simp
qed

text \<open>
  C11: on every angle of a full turn, from 0 to 2 pi in Q4.28, the fixed-point sine is the sine of that
  angle, in Q1.31, to within 1.2 millionths of full scale.
\<close>
theorem sin_fixed_accuracy:
  assumes "0 \<le> sint w" "sint w \<le> PI_MUL2_Q4_28"
  shows "\<bar>real_of_int (sint (sin_fixed w)) / 2 ^ 31 - sin (real_of_int (sint w) / 2 ^ 28)\<bar> \<le> 12 / 10 ^ (7 :: nat)"
  using assms by (rule sine_accuracy)

lemma sin_fixed_accuracy_witness:
  "sint (sin_fixed 140552476) = 1073740700 \<and> \<bar>1073740700 / 2 ^ 31 - sin (140552476 / 2 ^ 28 :: real)\<bar> \<le> 12 / 10 ^ (7 :: nat)"
proof -
  have "sint (sin_fixed 140552476) = 1073740700" by code_simp
  then show ?thesis using sin_fixed_accuracy [of 140552476] by (simp add: PI_MUL2_Q4_28_def)
qed

end
