(* ===== verification/Reef_Tone.thy ===== *)
theory Reef_Tone
  imports Reef_Trig Reef_Eq
begin

text \<open>
  The tone generator, src/src/audio/tone.c, tone.h: a sine wave whose amplitude follows linear ramps and
  whose frequency and amplitude may be swept from one repetition to the next, and the component around
  it. The fields of \<open>struct tone_state\<close> have the prefix \<open>sg_\<close>. The state commands are those of the
  equalizers (\<open>eq_state_cmd\<close>), whose text \<open>tone_cmd\<close> repeats.
\<close>

section \<open>State\<close>

record tone_state =
  sg_mute :: bool
  sg_a :: s32
  sg_a_target :: s32
  sg_ampl_coef :: s32
  sg_c :: s32
  sg_f :: s32
  sg_freq_coef :: s32
  sg_fs :: s32
  sg_ramp_step :: s32
  sg_w :: s32
  sg_w_step :: s32
  sg_block_count :: u32
  sg_repeat_count :: u32
  sg_repeats :: u32
  sg_sample_count :: u32
  sg_samples_in_block :: u32
  sg_tone_length :: u32
  sg_tone_period :: u32

record tone_world = world +
  tones :: "u32 \<Rightarrow> tone_state"

definition upd_tone :: "u32 \<Rightarrow> (tone_state \<Rightarrow> tone_state) \<Rightarrow> 'a tone_world_scheme \<Rightarrow> 'a tone_world_scheme" where
  "upd_tone p f w = w\<lparr>tones := (tones w)(p := f (tones w p))\<rparr>"

lemma upd_tone_sel [simp]:
  "tones (upd_buf b g w) = tones w" "tones (upd_dev d k w) = tones w"
  "tones (upd_tone p f w) = (tones w)(p := f (tones w p))" "bufs (upd_tone p f w) = bufs w" "devs (upd_tone p f w) = devs w"
  "pcms (upd_tone p f w) = pcms w" "mm (upd_tone p f w) = mm w" "wmem (upd_tone p f w) = wmem w"
  by (simp_all add: upd_tone_def upd_buf_def upd_dev_def)

text \<open>\<open>2 * pi / Fs\<close> in Q1.31 for each sample rate.\<close>

definition tone_fs_list :: "s32 list" where
  "tone_fs_list = [8000, 11025, 16000, 22050, 24000, 32000, 44100, 48000, 64000, 88200, 96000, 176400, 192000]"

definition tone_pi2_div_fs :: "s32 list" where
  "tone_pi2_div_fs = [1686630, 1223858, 843315, 611929, 562210, 421657, 305965, 281105, 210829, 152982, 140552, 76491, 70276]"

text \<open>\<open>TONE_FREQ(997.0)\<close>: 997 Hz in Q16.16.\<close>

definition TONE_FREQUENCY_DEFAULT :: s32 where "TONE_FREQUENCY_DEFAULT = 997 * 2 ^ 16"
definition TONE_AMPLITUDE_DEFAULT :: s32 where "TONE_AMPLITUDE_DEFAULT = MINUS_60DB_Q1_31"

section \<open>The generator\<close>

definition tonegen :: "tone_state \<Rightarrow> s32 \<times> tone_state" where
  "tonegen sg =
     (let sine = q_mults_32x32 (sin_fixed (sg_w sg)) (sg_a sg) 31 31 31;
          w = scast (sg_w sg) + scast (sg_w_step sg) :: s64;
          sg = sg\<lparr>sg_w := (if word_of_int PI_MUL2_Q4_28 <s w then scast (w - word_of_int PI_MUL2_Q4_28) else scast w)\<rparr>
      in (if sg_mute sg then 0 else scast sine, sg))"

definition tonegen_update_f :: "s32 \<Rightarrow> tone_state \<Rightarrow> tone_state" where
  "tonegen_update_f f sg =
     (let f_max = Q_SHIFT_LEFT (scast (sg_fs sg)) 0 (16 - 1);
          f_max = (if word_of_int INT32_MAXVALUE <s f_max then word_of_int INT32_MAXVALUE else f_max);
          sg = sg\<lparr>sg_f := (if f_max <s scast f then scast f_max else f)\<rparr>;
          w_tmp = q_multsr_32x32 (sg_f sg) (sg_c sg) 16 31 28;
          w_tmp = (if word_of_int PI_Q4_28 <s w_tmp then word_of_int PI_Q4_28 else w_tmp)
      in sg\<lparr>sg_w_step := scast w_tmp\<rparr>)"

text \<open>The three adjustments at the end of a block: ramp up, ramp down, next repetition.\<close>

definition tone_ramp_up :: "tone_state \<Rightarrow> tone_state" where
  "tone_ramp_up sg =
     (let sg = (if sg_a sg = 0 then sg\<lparr>sg_w := 0\<rparr> else sg);
          t = scast (sg_a_target sg) :: s64;
          a = (if sg_a_target sg <s sg_a sg
               then (let a = scast (sg_a sg) - scast (sg_ramp_step sg) in if a <s t then t else a)
               else (let a = scast (sg_a sg) + scast (sg_ramp_step sg) in if t <s a then t else a))
      in sg\<lparr>sg_a := scast a\<rparr>)"

definition tone_ramp_down :: "tone_state \<Rightarrow> tone_state" where
  "tone_ramp_down sg =
     (let a = scast (sg_a sg) - scast (sg_ramp_step sg) :: s64
      in sg\<lparr>sg_a := scast (if a <s 0 then 0 else a)\<rparr>)"

definition tone_next :: "tone_state \<Rightarrow> tone_state" where
  "tone_next sg =
     (let sg = sg\<lparr>sg_block_count := 0\<rparr>;
          sg = (if 0 <s sg_ampl_coef sg then
                  (let sg = sg\<lparr>sg_a_target := sat_int32 (q_multsr_32x32 (sg_a_target sg) (sg_ampl_coef sg) 31 30 31)\<rparr>
                   in sg\<lparr>sg_a := (if sg_a_target sg <s sg_ramp_step sg then sg_a_target sg else sg_ramp_step sg)\<rparr>)
                else sg);
          sg = (if 0 <s sg_freq_coef sg then tonegen_update_f (scast (q_multsr_32x32 (sg_f sg) (sg_freq_coef sg) 16 30 16)) sg else sg)
      in sg\<lparr>sg_repeat_count := sg_repeat_count sg + 1\<rparr>)"

definition tonegen_control :: "tone_state \<Rightarrow> tone_state" where
  "tonegen_control sg =
     (let sg = sg\<lparr>sg_sample_count := sg_sample_count sg + 1\<rparr> in
      if sg_sample_count sg < sg_samples_in_block sg then sg
      else
        (let sg = sg\<lparr>sg_sample_count := 0\<rparr>;
             sg = (if sg_block_count sg < word_of_int INT32_MAXVALUE then sg\<lparr>sg_block_count := sg_block_count sg + 1\<rparr> else sg);
             sg = (if sg_block_count sg < sg_tone_length sg then tone_ramp_up sg else sg);
             sg = (if sg_tone_length sg < sg_block_count sg then tone_ramp_down sg else sg)
         in if sg_tone_period sg < sg_block_count sg \<and> sg_repeat_count sg + 1 < sg_repeats sg then tone_next sg else sg))"

section \<open>Settings\<close>

definition tonegen_set_a :: "s32 \<Rightarrow> tone_state \<Rightarrow> tone_state" where "tonegen_set_a a sg = sg\<lparr>sg_a_target := a\<rparr>"
definition tonegen_set_f :: "s32 \<Rightarrow> tone_state \<Rightarrow> tone_state" where "tonegen_set_f f sg = sg\<lparr>sg_f := f\<rparr>"
definition tonegen_get_f :: "tone_state \<Rightarrow> s32" where "tonegen_get_f sg = sg_f sg"
definition tonegen_get_a :: "tone_state \<Rightarrow> s32" where "tonegen_get_a sg = sg_a_target sg"
definition tonegen_mute :: "tone_state \<Rightarrow> tone_state" where "tonegen_mute sg = sg\<lparr>sg_mute := True\<rparr>"
definition tonegen_unmute :: "tone_state \<Rightarrow> tone_state" where "tonegen_unmute sg = sg\<lparr>sg_mute := False\<rparr>"

definition tonegen_set_sweep :: "s32 \<Rightarrow> s32 \<Rightarrow> u32 \<Rightarrow> u32 \<Rightarrow> u32 \<Rightarrow> tone_state \<Rightarrow> tone_state" where
  "tonegen_set_sweep fc ac l p r sg =
     sg\<lparr>sg_repeats := r,
        sg_freq_coef := (if 0 <s fc then fc else ONE_Q2_30),
        sg_ampl_coef := (if 0 <s ac then ac else ONE_Q2_30),
        sg_tone_length := (if 0 < l then l else word_of_int INT32_MAXVALUE),
        sg_tone_period := (if 0 < p then p else word_of_int INT32_MAXVALUE)\<rparr>"

definition tonegen_set_linramp :: "s32 \<Rightarrow> tone_state \<Rightarrow> tone_state" where
  "tonegen_set_linramp step sg = sg\<lparr>sg_ramp_step := (if 0 <s step then step else word_of_int INT32_MAXVALUE)\<rparr>"

definition tonegen_reset :: "tone_state \<Rightarrow> tone_state" where
  "tonegen_reset sg =
     sg\<lparr>sg_mute := True, sg_a := 0, sg_a_target := TONE_AMPLITUDE_DEFAULT, sg_c := 0, sg_f := TONE_FREQUENCY_DEFAULT,
        sg_w := 0, sg_w_step := 0, sg_block_count := 0, sg_repeat_count := 0, sg_repeats := 0, sg_sample_count := 0,
        sg_samples_in_block := 0, sg_freq_coef := ONE_Q2_30, sg_ampl_coef := ONE_Q2_30,
        sg_tone_length := word_of_int INT32_MAXVALUE, sg_tone_period := word_of_int INT32_MAXVALUE, sg_ramp_step := ONE_Q1_31\<rparr>"

text \<open>The search keeps the last index that matches, -1 for none.\<close>

definition tone_find_fs :: "s32 \<Rightarrow> int" where
  "tone_find_fs fs = fold (\<lambda>i idx. if fs = tone_fs_list ! i then int i else idx) [0 ..< length tone_fs_list] (- 1)"

definition tonegen_init :: "s32 \<Rightarrow> s32 \<Rightarrow> s32 \<Rightarrow> tone_state \<Rightarrow> int \<times> tone_state" where
  "tonegen_init fs f a sg =
     (let sg = sg\<lparr>sg_a_target := a\<rparr>;
          sg = sg\<lparr>sg_a := (if sg_a_target sg <s sg_ramp_step sg then sg_a_target sg else sg_ramp_step sg)\<rparr>;
          sg = sg\<lparr>sg_mute := True, sg_fs := 0\<rparr>;
          idx = tone_find_fs fs
      in if idx < 0 then (- EINVAL, sg\<lparr>sg_w_step := 0\<rparr>)
         else
           (let sg = tonegen_update_f f (sg\<lparr>sg_fs := fs, sg_c := tone_pi2_div_fs ! nat idx, sg_mute := False\<rparr>)
            in (0, sg\<lparr>sg_samples_in_block := scast (q_multsr_32x32 fs 268435 0 31 0)\<rparr>)))"

section \<open>A period of samples\<close>

text \<open>A sample is stored in every channel of a frame.\<close>

fun store_frame :: "nat \<Rightarrow> s32 \<Rightarrow> u32 \<Rightarrow> mem \<Rightarrow> u32 \<times> mem" where
  "store_frame 0 v dest m = (dest, m)"
| "store_frame (Suc i) v dest m = store_frame i v (dest + 4) (store32 m dest v)"

definition tone_frame :: "int \<Rightarrow> u32 \<times> tone_state \<times> mem \<Rightarrow> u32 \<times> tone_state \<times> mem" where
  "tone_frame nch = (\<lambda>(dest, sg, m).
     let (v, sg) = tonegen (tonegen_control sg);
         (dest, m) = store_frame (nat nch) v dest m
     in (dest, sg, m))"

text \<open>\<open>while (n > 0)\<close> without a wrap, and \<open>while (n_wrap_dest > 0)\<close>, which counts both down.\<close>

fun tone_rest :: "nat \<Rightarrow> int \<Rightarrow> int \<Rightarrow> u32 \<times> tone_state \<times> mem \<Rightarrow> (int \<times> u32 \<times> tone_state \<times> mem) option" where
  "tone_rest 0 nch n s = None"
| "tone_rest (Suc fuel) nch n s = (if 0 < n then tone_rest fuel nch (n - nch) (tone_frame nch s) else Some (n, s))"

fun tone_to_wrap :: "nat \<Rightarrow> int \<Rightarrow> int \<Rightarrow> int \<Rightarrow> u32 \<times> tone_state \<times> mem \<Rightarrow> (int \<times> u32 \<times> tone_state \<times> mem) option" where
  "tone_to_wrap 0 nch n_wrap n s = None"
| "tone_to_wrap (Suc fuel) nch n_wrap n s =
     (if 0 < n_wrap then tone_to_wrap fuel nch (n_wrap - nch) (n - nch) (tone_frame nch s) else Some (n, s))"

fun tone_loop :: "nat \<Rightarrow> comp_buffer \<Rightarrow> int \<Rightarrow> int \<Rightarrow> u32 \<times> tone_state \<times> mem \<Rightarrow> (u32 \<times> tone_state \<times> mem) option" where
  "tone_loop 0 sk nch n s = None"
| "tone_loop (Suc fuel) sk nch n s =
     (if 0 < n then
        (let n_wrap = ptr_diff (end_addr sk) (fst s) in
         if n < n_wrap then do { (n, s) \<leftarrow> tone_rest fuel nch n s; tone_loop fuel sk nch n s }
         else do {
           (n, dest, sg, m) \<leftarrow> tone_to_wrap fuel nch n_wrap n s;
           tone_loop fuel sk nch n (dest - ipc_size sk, sg, m) })
      else Some s)"

definition tone_s32_default :: "nat \<Rightarrow> u32 \<Rightarrow> u32 \<Rightarrow> u32 \<Rightarrow> 'a tone_world_scheme \<Rightarrow> 'a tone_world_scheme option" where
  "tone_s32_default fuel p sink frames w =
     (let sk = bufs w sink; cn = channels (pcms w (b_pcm sk)) in do {
        (dest, sg, m) \<leftarrow> tone_loop fuel sk (sint cn) (sint (frames * cn)) (w_ptr sk, tones w p, wmem w);
        let w = upd_tone p (\<lambda>_. sg) (w\<lparr>wmem := m\<rparr>);
        let w = upd_buf sink (\<lambda>b. b\<lparr>w_ptr := dest\<rparr>) w;
        Some (upd_buf sink (comp_update_sink_free_avail (frames * cn)) w) })"

section \<open>The component\<close>

definition sizeof_tone_data :: u32 where "sizeof_tone_data = 76"

text \<open>The device's IPC object is not copied: its fields keep what the block held.\<close>

definition tone_new :: "tone_state \<Rightarrow> ipc_comp \<Rightarrow> 'a tone_world_scheme \<Rightarrow> (u32 \<times> 'a tone_world_scheme) option" where
  "tone_new junk c w = do {
     (d, h) \<leftarrow> rmalloc RZONE_RUNTIME RFLAGS_NONE sizeof_comp_dev (mm w);
     let w = w\<lparr>mm := h\<rparr>;
     if d = 0 then Some (0, w)
     else do {
       (p, h) \<leftarrow> rmalloc RZONE_RUNTIME RFLAGS_NONE sizeof_tone_data (mm w);
       let w = w\<lparr>mm := h\<rparr>;
       if p = 0 then do { h \<leftarrow> rfree d (mm w); Some (0, w\<lparr>mm := h\<rparr>) }
       else Some (d, upd_tone p (\<lambda>_. tonegen_reset junk) (comp_set_endpoint d (upd_dev d (\<lambda>r. r\<lparr>priv := p\<rparr>) w))) } }"

definition tone_free :: "u32 \<Rightarrow> 'a tone_world_scheme \<Rightarrow> 'a tone_world_scheme option" where
  "tone_free d w = do {
     h \<leftarrow> rfree (priv (devs w d)) (mm w);
     h \<leftarrow> rfree d h;
     Some (w\<lparr>mm := h\<rparr>) }"

definition tone_params :: "u32 \<Rightarrow> u32 \<Rightarrow> 'a tone_world_scheme \<Rightarrow> (int \<times> 'a tone_world_scheme) option" where
  "tone_params d pcm w =
     (if stream_type (pcms w pcm) \<noteq> STREAM_TYPE_PCM \<or> frame_fmt (pcms w pcm) \<noteq> SOF_IPC_FRAME_S32_LE then Some (- EINVAL, w)
      else Some (0, comp_buffer_sink_params d pcm w))"

record ipc_tone =
  it_frequency :: s32
  it_amplitude :: s32
  it_freq_mult :: s32
  it_ampl_mult :: s32
  it_length :: s32
  it_period :: s32
  it_repeats :: s32
  it_ramp_step :: s32

abbreviation (input) COMP_CMD_TONE :: int where "COMP_CMD_TONE \<equiv> 106"

definition tone_cmd :: "u32 \<Rightarrow> int \<Rightarrow> ipc_tone \<Rightarrow> 'a tone_world_scheme \<Rightarrow> int \<times> 'a tone_world_scheme" where
  "tone_cmd d c ct w =
     (let p = priv (devs w d) in
      if c = COMP_CMD_TONE then
        (0, upd_tone p (\<lambda>sg.
           tonegen_set_linramp (it_ramp_step ct)
             (tonegen_set_sweep (it_freq_mult ct) (it_ampl_mult ct) (it_length ct) (it_period ct) (it_repeats ct)
               (tonegen_set_a (it_amplitude ct) (tonegen_set_f (it_frequency ct) sg)))) w)
      else if c = COMP_CMD_MUTE then (0, upd_tone p tonegen_mute w)
      else if c = COMP_CMD_UNMUTE then (0, upd_tone p tonegen_unmute w)
      else (0, eq_state_cmd d c w))"

definition tone_copy :: "nat \<Rightarrow> u32 \<Rightarrow> 'a tone_world_scheme \<Rightarrow> (int \<times> 'a tone_world_scheme) option" where
  "tone_copy fuel d w = do {
     sink \<leftarrow> first_of (bsink_list (devs w d));
     let pcm = pcms w (b_pcm (bufs w sink));
     let need_sink = period_count pcm * frame_size pcm;
     w \<leftarrow> (if need_sink \<le> bfree (bufs w sink) then tone_s32_default fuel (priv (devs w d)) sink (period_count pcm) w else Some w);
     Some (0, w) }"

definition tone_prepare :: "u32 \<Rightarrow> 'a tone_world_scheme \<Rightarrow> (int \<times> 'a tone_world_scheme) option" where
  "tone_prepare d w = do {
     sink \<leftarrow> first_of (bsink_list (devs w d));
     let p = priv (devs w d);
     let sg = tones w p;
     (case tonegen_init (rate (pcms w (b_pcm (bufs w sink)))) (tonegen_get_f sg) (tonegen_get_a sg) sg of
        (r, sg) \<Rightarrow>
          let w = upd_tone p (\<lambda>_. sg) w in
          if r < 0 then Some (- EINVAL, w) else Some (0, set_state d COMP_STATE_PREPARE w)) }"

definition tone_preload :: "u32 \<Rightarrow> 'a tone_world_scheme \<Rightarrow> (int \<times> 'a tone_world_scheme) option" where
  "tone_preload d w = Some (0, w)"

definition tone_reset :: "u32 \<Rightarrow> 'a tone_world_scheme \<Rightarrow> (int \<times> 'a tone_world_scheme) option" where
  "tone_reset d w = Some (0, set_state d COMP_STATE_INIT (upd_tone (priv (devs w d)) tonegen_reset w))"

end
