(* ===== verification/Reef_Tone_Blocks.thy ===== *)
theory Reef_Tone_Blocks
  imports Reef_Tone
begin

text \<open>
  The tone generator from block to block: the state after a number of samples, up to the phase, and the
  linear ramps of the amplitude in closed form.
\<close>

section \<open>Blocks\<close>

text \<open>One sample: the control and the generator, without the sample itself.\<close>

definition tone_step :: "tone_state \<Rightarrow> tone_state" where "tone_step sg = snd (tonegen (tonegen_control sg))"

text \<open>The state but for the phase, which the control does not read.\<close>

definition quiet :: "tone_state \<Rightarrow> tone_state" where "quiet sg = sg\<lparr>sg_w := 0\<rparr>"

lemma quiet_w [simp]: "quiet (sg\<lparr>sg_w := x\<rparr>) = quiet sg" "quiet (quiet sg) = quiet sg"
  by (simp_all add: quiet_def)

lemma quiet_sel [simp]:
  "sg_a (quiet sg) = sg_a sg" "sg_a_target (quiet sg) = sg_a_target sg" "sg_ramp_step (quiet sg) = sg_ramp_step sg"
  "sg_block_count (quiet sg) = sg_block_count sg" "sg_sample_count (quiet sg) = sg_sample_count sg"
  "sg_samples_in_block (quiet sg) = sg_samples_in_block sg" "sg_tone_length (quiet sg) = sg_tone_length sg"
  "sg_tone_period (quiet sg) = sg_tone_period sg" "sg_repeat_count (quiet sg) = sg_repeat_count sg" "sg_repeats (quiet sg) = sg_repeats sg"
  "sg_mute (quiet sg) = sg_mute sg" "sg_w_step (quiet sg) = sg_w_step sg"
  by (simp_all add: quiet_def)

lemma parts_quiet:
  "quiet (tone_ramp_up (quiet sg)) = quiet (tone_ramp_up sg)" "quiet (tone_ramp_down (quiet sg)) = quiet (tone_ramp_down sg)"
  "quiet (tone_next (quiet sg)) = quiet (tone_next sg)"
  by (simp_all add: quiet_def tone_ramp_up_def tone_ramp_down_def tone_next_def tonegen_update_f_def Let_def)

lemma quiet_eqD:
  assumes "quiet s = quiet t"
  shows "quiet (tone_ramp_up s) = quiet (tone_ramp_up t)" "quiet (tone_ramp_down s) = quiet (tone_ramp_down t)"
    "quiet (tone_next s) = quiet (tone_next t)" "sg_block_count s = sg_block_count t" "sg_sample_count s = sg_sample_count t"
    "sg_samples_in_block s = sg_samples_in_block t" "sg_tone_length s = sg_tone_length t" "sg_tone_period s = sg_tone_period t"
    "sg_repeat_count s = sg_repeat_count t" "sg_repeats s = sg_repeats t"
  using parts_quiet(1) [of s] parts_quiet(1) [of t] parts_quiet(2) [of s] parts_quiet(2) [of t] parts_quiet(3) [of s] parts_quiet(3) [of t] assms
  by (metis quiet_sel)+

lemma quiet_counts:
  "quiet s = quiet t \<Longrightarrow> quiet (s\<lparr>sg_sample_count := i\<rparr>) = quiet (t\<lparr>sg_sample_count := i\<rparr>)"
  "quiet s = quiet t \<Longrightarrow> quiet (s\<lparr>sg_block_count := k\<rparr>) = quiet (t\<lparr>sg_block_count := k\<rparr>)"
  by (cases s, cases t, simp add: quiet_def)+

lemma if_quiet: "quiet (if b then s else t) = (if b then quiet s else quiet t)"
  by simp

lemma control_cong:
  assumes "quiet s = quiet t"
  shows "quiet (tonegen_control s) = quiet (tonegen_control t)"
proof -
  define c where "c = (\<lambda>s :: tone_state. s\<lparr>sg_sample_count := sg_sample_count s + 1\<rparr>)"
  define z where "z = (\<lambda>s :: tone_state. s\<lparr>sg_sample_count := 0\<rparr>)"
  define b where "b = (\<lambda>s :: tone_state. if sg_block_count s < word_of_int INT32_MAXVALUE then s\<lparr>sg_block_count := sg_block_count s + 1\<rparr> else s)"
  define u where "u = (\<lambda>s :: tone_state. if sg_block_count s < sg_tone_length s then tone_ramp_up s else s)"
  define d where "d = (\<lambda>s :: tone_state. if sg_tone_length s < sg_block_count s then tone_ramp_down s else s)"
  define n where "n = (\<lambda>s :: tone_state. if sg_tone_period s < sg_block_count s \<and> sg_repeat_count s + 1 < sg_repeats s then tone_next s else s)"
  have e: "tonegen_control s = (if sg_sample_count (c s) < sg_samples_in_block (c s) then c s else n (d (u (b (z (c s))))))" for s
    unfolding tonegen_control_def Let_def c_def z_def b_def u_def d_def n_def ..
  have cb: "quiet (b s) = quiet (b t)" if "quiet s = quiet t" for s t
    using quiet_eqD(4) [OF that] quiet_counts(2) [OF that, of "sg_block_count t + 1"] that by (simp add: b_def)
  have cu: "quiet (u s) = quiet (u t)" if "quiet s = quiet t" for s t
    using quiet_eqD(1,4,7) [OF that] that by (simp add: u_def)
  have cd: "quiet (d s) = quiet (d t)" if "quiet s = quiet t" for s t
    using quiet_eqD(2,4,7) [OF that] that by (simp add: d_def)
  have cn: "quiet (n s) = quiet (n t)" if "quiet s = quiet t" for s t
    using quiet_eqD(3,4,8,9,10) [OF that] that by (simp add: n_def)
  have c: "quiet (c s) = quiet (c t)" using quiet_counts(1) [OF assms] quiet_eqD(5) [OF assms] by (simp add: c_def)
  then have "quiet (z (c s)) = quiet (z (c t))" unfolding z_def by (rule quiet_counts)
  then have "quiet (n (d (u (b (z (c s)))))) = quiet (n (d (u (b (z (c t))))))" by (intro cn cd cu cb)
  then show ?thesis unfolding e using c quiet_eqD(5,6) [OF c] by simp
qed

lemma control_quiet: "quiet (tonegen_control (quiet sg)) = quiet (tonegen_control sg)"
  by (rule control_cong) simp

lemma step_quiet: "quiet (tone_step sg) = quiet (tonegen_control (quiet sg))"
  unfolding control_quiet by (simp add: tone_step_def tonegen_def Let_def)

text \<open>A block without a change of the repetition: the counters and one ramp step.\<close>

definition ramp_to :: "int \<Rightarrow> int \<Rightarrow> int \<Rightarrow> int" where
  "ramp_to t r a = (if t < a then max t (a - r) else min t (a + r))"

lemma ramp_up_value:
  assumes "0 \<le> sint (sg_ramp_step sg)"
  shows "sint (sg_a (tone_ramp_up sg)) = ramp_to (sint (sg_a_target sg)) (sint (sg_ramp_step sg)) (sint (sg_a sg))"
    "quiet (tone_ramp_up sg) = quiet (sg\<lparr>sg_a := sg_a (tone_ramp_up sg)\<rparr>)"
proof -
  note r = sint_range32 [of "sg_a sg"] sint_range32 [of "sg_ramp_step sg"] sint_range32 [of "sg_a_target sg"]
  have d: "sint (scast (sg_a sg) - scast (sg_ramp_step sg) :: s64) = sint (sg_a sg) - sint (sg_ramp_step sg)" using r by (subst sint_sub_fits) simp_all
  have a: "sint (scast (sg_a sg) + scast (sg_ramp_step sg) :: s64) = sint (sg_a sg) + sint (sg_ramp_step sg)" using r by (subst sint_add_fits) simp_all
  have "sg_a (if sg_a sg = 0 then sg\<lparr>sg_w := 0\<rparr> else sg) = sg_a sg" "sg_a_target (if sg_a sg = 0 then sg\<lparr>sg_w := 0\<rparr> else sg) = sg_a_target sg"
    "sg_ramp_step (if sg_a sg = 0 then sg\<lparr>sg_w := 0\<rparr> else sg) = sg_ramp_step sg" by simp_all
  then show "sint (sg_a (tone_ramp_up sg)) = ramp_to (sint (sg_a_target sg)) (sint (sg_ramp_step sg)) (sint (sg_a sg))"
    using r assms by (auto simp: tone_ramp_up_def Let_def ramp_to_def word_sless_alt a d sint_scast_fits max_def min_def simp del: if_split split: if_split_asm)
  show "quiet (tone_ramp_up sg) = quiet (sg\<lparr>sg_a := sg_a (tone_ramp_up sg)\<rparr>)" by (simp add: tone_ramp_up_def Let_def quiet_def)
qed

lemma ramp_down_value:
  assumes "0 \<le> sint (sg_ramp_step sg)"
  shows "sint (sg_a (tone_ramp_down sg)) = max 0 (sint (sg_a sg) - sint (sg_ramp_step sg))"
    "tone_ramp_down sg = sg\<lparr>sg_a := sg_a (tone_ramp_down sg)\<rparr>"
proof -
  note r = sint_range32 [of "sg_a sg"] sint_range32 [of "sg_ramp_step sg"]
  have d: "sint (scast (sg_a sg) - scast (sg_ramp_step sg) :: s64) = sint (sg_a sg) - sint (sg_ramp_step sg)" using r by (subst sint_sub_fits) simp_all
  show "sint (sg_a (tone_ramp_down sg)) = max 0 (sint (sg_a sg) - sint (sg_ramp_step sg))"
    using r assms by (auto simp: tone_ramp_down_def Let_def word_sless_alt d sint_scast_fits max_def)
  show "tone_ramp_down sg = sg\<lparr>sg_a := sg_a (tone_ramp_down sg)\<rparr>" by (simp add: tone_ramp_down_def Let_def)
qed

definition block_end :: "tone_state \<Rightarrow> tone_state" where
  "block_end sg =
     (let sg = sg\<lparr>sg_sample_count := 0, sg_block_count := sg_block_count sg + 1\<rparr>;
          sg = (if sg_block_count sg < sg_tone_length sg then tone_ramp_up sg else sg)
      in if sg_tone_length sg < sg_block_count sg then tone_ramp_down sg else sg)"

lemma control_inside: "sg_sample_count sg + 1 < sg_samples_in_block sg \<Longrightarrow> tonegen_control sg = sg\<lparr>sg_sample_count := sg_sample_count sg + 1\<rparr>"
  by (simp add: tonegen_control_def Let_def)

lemma control_end:
  assumes "\<not> sg_sample_count sg + 1 < sg_samples_in_block sg" "sg_block_count sg + 1 \<le> sg_tone_period sg" "sg_block_count sg < word_of_int INT32_MAXVALUE"
  shows "tonegen_control sg = block_end sg"
proof -
  define n where "n = (\<lambda>s :: tone_state. if sg_tone_period s < sg_block_count s \<and> sg_repeat_count s + 1 < sg_repeats s then tone_next s else s)"
  define c where "c = sg\<lparr>sg_sample_count := sg_sample_count sg + 1\<rparr>"
  define b where "b = sg\<lparr>sg_sample_count := 0, sg_block_count := sg_block_count sg + 1\<rparr>"
  have f: "\<not> sg_sample_count c < sg_samples_in_block c" using assms(1) by (simp add: c_def)
  have "c\<lparr>sg_sample_count := 0\<rparr> = sg\<lparr>sg_sample_count := 0\<rparr>" by (simp add: c_def)
  moreover have "sg_block_count (sg\<lparr>sg_sample_count := 0\<rparr>) < word_of_int INT32_MAXVALUE" using assms(3) by simp
  moreover have "sg\<lparr>sg_sample_count := 0, sg_block_count := sg_block_count (sg\<lparr>sg_sample_count := 0\<rparr>) + 1\<rparr> = b" by (simp add: b_def)
  ultimately have "tonegen_control sg = n (block_end sg)"
    unfolding tonegen_control_def block_end_def Let_def c_def [symmetric] b_def [symmetric] n_def by (simp only: f if_True if_False)
  moreover have "sg_block_count (block_end sg) = sg_block_count sg + 1" "sg_tone_period (block_end sg) = sg_tone_period sg"
    by (simp_all add: block_end_def tone_ramp_up_def tone_ramp_down_def Let_def)
  then have "\<not> sg_tone_period (block_end sg) < sg_block_count (block_end sg)" using assms(2) by simp
  ultimately show ?thesis by (simp add: n_def)
qed

text \<open>The samples of one block.\<close>

lemma quiet_block:
  assumes "sg_sample_count sg = 0" "0 < sg_samples_in_block sg" "sg_block_count sg + 1 \<le> sg_tone_period sg" "sg_block_count sg < word_of_int INT32_MAXVALUE"
  shows "quiet ((tone_step ^^ unat (sg_samples_in_block sg)) sg) = quiet (block_end sg)"
proof -
  let ?n = "unat (sg_samples_in_block sg)"
  have "quiet ((tone_step ^^ k) sg) = quiet (sg\<lparr>sg_sample_count := of_nat k\<rparr>)" if "k < ?n" for k
    using that
  proof (induction k)
    case 0
    then show ?case using assms(1) by (cases sg) simp
  next
    case (Suc k)
    have k: "quiet ((tone_step ^^ k) sg) = quiet (sg\<lparr>sg_sample_count := of_nat k\<rparr>)" using Suc by simp
    have "of_nat k + 1 < sg_samples_in_block sg"
    proof -
      have "unat (of_nat (Suc k) :: u32) = Suc k" using Suc.prems unat32_lt [of "sg_samples_in_block sg"] by (intro unat_of_nat_fits) simp
      then have "(of_nat (Suc k) :: u32) < sg_samples_in_block sg" using Suc.prems by (simp only: word_less_nat_alt)
      then show ?thesis by (simp add: add.commute)
    qed
    then show ?case by (simp add: step_quiet k control_inside) (simp add: quiet_def add.commute)
  qed
  from this [of "?n - 1"] have k: "quiet ((tone_step ^^ (?n - 1)) sg) = quiet (sg\<lparr>sg_sample_count := of_nat (?n - 1)\<rparr>)"
    using assms(2) by (simp add: word_less_nat_alt)
  have n: "0 < ?n" using assms(2) by (simp add: word_less_nat_alt)
  then have "of_nat (?n - 1) + 1 = sg_samples_in_block sg" by (simp add: of_nat_diff)
  then have "tonegen_control (sg\<lparr>sg_sample_count := of_nat (?n - 1)\<rparr>) = block_end (sg\<lparr>sg_sample_count := of_nat (?n - 1)\<rparr>)"
    using assms(3,4) by (intro control_end) simp_all
  also have "\<dots> = block_end sg" by (simp add: block_end_def Let_def)
  finally have "quiet (tone_step ((tone_step ^^ (?n - 1)) sg)) = quiet (block_end sg)"
    using control_cong [OF k] by (simp add: step_quiet control_quiet)
  moreover have "(tone_step ^^ ?n) sg = tone_step ((tone_step ^^ (?n - 1)) sg)" using n by (cases ?n) simp_all
  ultimately show ?thesis by simp
qed

text \<open>The amplitude after \<open>k\<close> blocks of attack, and of decay.\<close>

definition attack :: "int \<Rightarrow> int \<Rightarrow> int \<Rightarrow> nat \<Rightarrow> int" where
  "attack t r a k = (if t < a then max t (a - int k * r) else min t (a + int k * r))"

lemma attack_Suc: "0 \<le> r \<Longrightarrow> ramp_to t r (attack t r a k) = attack t r a (Suc k)"
proof -
  assume r: "0 \<le> r"
  have "0 \<le> int k * r" using r by simp
  then show ?thesis using r by (auto simp: ramp_to_def attack_def max_def min_def algebra_simps)
qed

lemma block_attack:
  assumes "0 \<le> sint (sg_ramp_step sg)" "sg_block_count sg + 1 < sg_tone_length sg"
  shows "sint (sg_a (block_end sg)) = ramp_to (sint (sg_a_target sg)) (sint (sg_ramp_step sg)) (sint (sg_a sg))"
    "quiet (block_end sg) = quiet (sg\<lparr>sg_sample_count := 0, sg_block_count := sg_block_count sg + 1, sg_a := sg_a (block_end sg)\<rparr>)"
proof -
  let ?s = "sg\<lparr>sg_sample_count := 0, sg_block_count := sg_block_count sg + 1\<rparr>"
  have n: "\<not> sg_tone_length sg < sg_block_count sg + 1" using assms(2) by simp
  have b: "block_end sg = tone_ramp_up ?s" using assms(2) n by (simp add: block_end_def Let_def tone_ramp_up_def)
  show "sint (sg_a (block_end sg)) = ramp_to (sint (sg_a_target sg)) (sint (sg_ramp_step sg)) (sint (sg_a sg))"
    "quiet (block_end sg) = quiet (sg\<lparr>sg_sample_count := 0, sg_block_count := sg_block_count sg + 1, sg_a := sg_a (block_end sg)\<rparr>)"
    unfolding b using ramp_up_value [of ?s] assms(1) by simp_all
qed

lemma block_decay:
  assumes "0 \<le> sint (sg_ramp_step sg)" "sg_tone_length sg < sg_block_count sg + 1"
  shows "sint (sg_a (block_end sg)) = max 0 (sint (sg_a sg) - sint (sg_ramp_step sg))"
    "quiet (block_end sg) = quiet (sg\<lparr>sg_sample_count := 0, sg_block_count := sg_block_count sg + 1, sg_a := sg_a (block_end sg)\<rparr>)"
proof -
  let ?s = "sg\<lparr>sg_sample_count := 0, sg_block_count := sg_block_count sg + 1\<rparr>"
  have n: "\<not> sg_block_count sg + 1 < sg_tone_length sg" using assms(2) by simp
  have b: "block_end sg = tone_ramp_down ?s" using assms(2) n by (simp add: block_end_def Let_def)
  have d: "tone_ramp_down ?s = ?s\<lparr>sg_a := sg_a (tone_ramp_down ?s)\<rparr>" by (rule ramp_down_value) (use assms(1) in simp)
  show "sint (sg_a (block_end sg)) = max 0 (sint (sg_a sg) - sint (sg_ramp_step sg))"
    unfolding b using ramp_down_value(1) [of ?s] assms(1) by simp
  show "quiet (block_end sg) = quiet (sg\<lparr>sg_sample_count := 0, sg_block_count := sg_block_count sg + 1, sg_a := sg_a (block_end sg)\<rparr>)"
    unfolding b by (subst d) simp
qed

text \<open>The state after \<open>k\<close> blocks in which only the counters and the amplitude have changed.\<close>

definition after_blocks :: "tone_state \<Rightarrow> nat \<Rightarrow> int \<Rightarrow> tone_state" where
  "after_blocks sg k a = sg\<lparr>sg_block_count := sg_block_count sg + of_nat k, sg_a := word_of_int a\<rparr>"

lemma count_Suc: "sg_block_count (after_blocks sg j a) + 1 = sg_block_count sg + of_nat (Suc j)"
  by (simp add: after_blocks_def)

lemma after_a: "sg_a (after_blocks sg k a) = word_of_int a"
  by (simp add: after_blocks_def)

lemma steps_cong: "quiet s = quiet t \<Longrightarrow> quiet ((tone_step ^^ n) s) = quiet ((tone_step ^^ n) t)"
proof (induction n)
  case (Suc n)
  then show ?case unfolding funpow.simps o_apply step_quiet control_quiet by (intro control_cong) simp
qed simp

lemma blocks_iter:
  assumes sg: "sg_sample_count sg = 0" "0 < sg_samples_in_block sg" "A 0 = sint (sg_a sg)"
    and lim: "unat (sg_block_count sg) + k \<le> unat (sg_tone_period sg)" "unat (sg_block_count sg) + k < 2 ^ 31"
    and step: "\<And>j. j < k \<Longrightarrow> quiet (block_end (after_blocks sg j (A j))) = quiet (after_blocks sg (Suc j) (A (Suc j)))"
  shows "quiet ((tone_step ^^ (k * unat (sg_samples_in_block sg))) sg) = quiet (after_blocks sg k (A k))"
  using lim step
proof (induction k)
  case 0
  then show ?case using sg(3) by (cases sg) (simp add: after_blocks_def)
next
  case (Suc k)
  let ?n = "unat (sg_samples_in_block sg)" and ?s = "after_blocks sg k (A k)"
  have ih: "quiet ((tone_step ^^ (k * ?n)) sg) = quiet ?s" using Suc by simp
  have c: "unat (sg_block_count sg + of_nat j) = unat (sg_block_count sg) + j" if "j \<le> Suc k" for j
    using Suc.prems(2) that by (intro unat_count) simp
  have "(tone_step ^^ (Suc k * ?n)) sg = (tone_step ^^ ?n) ((tone_step ^^ (k * ?n)) sg)" by (simp add: funpow_add)
  then have "quiet ((tone_step ^^ (Suc k * ?n)) sg) = quiet ((tone_step ^^ ?n) ?s)" using steps_cong [OF ih] by simp
  also have "\<dots> = quiet (block_end ?s)"
  proof -
    have "sg_block_count ?s + 1 \<le> sg_tone_period sg" using c [of "Suc k"] Suc.prems(1) by (simp only: word_le_nat_alt count_Suc)
    moreover have "sg_block_count ?s < word_of_int INT32_MAXVALUE"
      using c [of k] Suc.prems(2) by (simp add: word_less_nat_alt after_blocks_def)
    ultimately show ?thesis using quiet_block [of ?s] sg by (simp add: after_blocks_def)
  qed
  also have "\<dots> = quiet (after_blocks sg (Suc k) (A (Suc k)))" using Suc.prems(3) by simp
  finally show ?case .
qed

lemma after_blocks_end:
  assumes "quiet (block_end s) = quiet (s\<lparr>sg_sample_count := 0, sg_block_count := sg_block_count s + 1, sg_a := sg_a (block_end s)\<rparr>)"
    and "s = after_blocks sg j a" "sint (sg_a (block_end s)) = b" "sg_sample_count sg = 0"
  shows "quiet (block_end s) = quiet (after_blocks sg (Suc j) b)"
proof -
  have "s\<lparr>sg_sample_count := 0, sg_block_count := sg_block_count s + 1, sg_a := sg_a (block_end s)\<rparr> = after_blocks sg (Suc j) b"
    unfolding assms(2) using assms(3,4) by (cases sg) (auto simp: after_blocks_def assms(2) algebra_simps)
  then show ?thesis using assms(1) by simp
qed

text \<open>
  C18: from the beginning of a block, within the length of the tone, the amplitude moves to its target by
  one ramp step for every block and stays there: the linear ramp in closed form, from above or below.
\<close>
theorem tone_attack:
  assumes "sg_sample_count sg = 0" "0 < sg_samples_in_block sg" "0 \<le> sint (sg_ramp_step sg)"
    and "unat (sg_block_count sg) + k < unat (sg_tone_length sg)" "sg_tone_length sg \<le> sg_tone_period sg"
    and "unat (sg_block_count sg) + k < 2 ^ 31"
  shows "quiet ((tone_step ^^ (k * unat (sg_samples_in_block sg))) sg)
    = quiet (after_blocks sg k (attack (sint (sg_a_target sg)) (sint (sg_ramp_step sg)) (sint (sg_a sg)) k))"
proof (rule blocks_iter)
  let ?t = "sint (sg_a_target sg)" and ?r = "sint (sg_ramp_step sg)" and ?a = "sint (sg_a sg)"
  show "attack ?t ?r ?a 0 = ?a" by (simp add: attack_def)
  show "unat (sg_block_count sg) + k \<le> unat (sg_tone_period sg)" using assms(4,5) by (simp add: word_le_nat_alt)
  fix j assume j: "j < k"
  let ?s = "after_blocks sg j (attack ?t ?r ?a j)"
  have a: "sint (sg_a ?s) = attack ?t ?r ?a j"
  proof -
    have "min ?t ?a \<le> attack ?t ?r ?a j" "attack ?t ?r ?a j \<le> max ?t ?a" using assms(3) by (auto simp: attack_def min_def max_def)
    then show ?thesis using sint_range32 [of "sg_a_target sg"] sint_range32 [of "sg_a sg"] unfolding after_a by (intro sint_eq_if_fits) simp_all
  qed
  have "unat (sg_block_count sg + of_nat (Suc j)) = unat (sg_block_count sg) + Suc j" using assms(6) j by (intro unat_count) simp
  then have l: "sg_block_count ?s + 1 < sg_tone_length ?s" unfolding count_Suc using assms(4) j by (simp add: word_less_nat_alt) (simp add: after_blocks_def)
  have r: "0 \<le> sint (sg_ramp_step ?s)" using assms(3) by (simp add: after_blocks_def)
  show "quiet (block_end ?s) = quiet (after_blocks sg (Suc j) (attack ?t ?r ?a (Suc j)))"
  proof (rule after_blocks_end [OF block_attack(2) [OF r l] refl _ assms(1)])
    show "sint (sg_a (block_end ?s)) = attack ?t ?r ?a (Suc j)"
      unfolding block_attack(1) [OF r l] a using attack_Suc [OF assms(3)] by (simp add: after_blocks_def)
  qed
qed (use assms in simp_all)


text \<open>
  after the length of the tone the amplitude falls by one ramp step for every block, down to silence,
  and stays there until the next repetition.
\<close>
theorem tone_decay:
  assumes "sg_sample_count sg = 0" "0 < sg_samples_in_block sg" "0 \<le> sint (sg_ramp_step sg)" "0 \<le> sint (sg_a sg)"
    and "sg_tone_length sg \<le> sg_block_count sg" "unat (sg_block_count sg) + k \<le> unat (sg_tone_period sg)"
    and "unat (sg_block_count sg) + k < 2 ^ 31"
  shows "quiet ((tone_step ^^ (k * unat (sg_samples_in_block sg))) sg)
    = quiet (after_blocks sg k (max 0 (sint (sg_a sg) - int k * sint (sg_ramp_step sg))))"
proof (rule blocks_iter)
  let ?r = "sint (sg_ramp_step sg)" and ?a = "sint (sg_a sg)"
  show "max 0 (?a - int 0 * ?r) = ?a" using assms(4) by simp
  fix j assume j: "j < k"
  let ?s = "after_blocks sg j (max 0 (?a - int j * ?r))"
  have "0 \<le> int j * ?r" using assms(3) by simp
  then have a: "sint (sg_a ?s) = max 0 (?a - int j * ?r)"
    using sint_range32 [of "sg_a sg"] unfolding after_a by (intro sint_eq_if_fits) simp_all
  have "unat (sg_block_count sg + of_nat (Suc j)) = unat (sg_block_count sg) + Suc j" using assms(7) j by (intro unat_count) simp
  then have l: "sg_tone_length ?s < sg_block_count ?s + 1" unfolding count_Suc using assms(5) by (simp add: word_less_nat_alt word_le_nat_alt) (simp add: after_blocks_def)
  have r: "0 \<le> sint (sg_ramp_step ?s)" using assms(3) by (simp add: after_blocks_def)
  show "quiet (block_end ?s) = quiet (after_blocks sg (Suc j) (max 0 (?a - int (Suc j) * ?r)))"
  proof (rule after_blocks_end [OF block_decay(2) [OF r l] refl _ assms(1)])
    show "sint (sg_a (block_end ?s)) = max 0 (?a - int (Suc j) * ?r)"
      unfolding block_decay(1) [OF r l] a using assms(3) by (auto simp: after_blocks_def algebra_simps)
  qed
qed (use assms in simp_all)

text \<open>A generator at the start of a block of six samples.\<close>

definition tone_demo :: tone_state where
  "tone_demo = \<lparr>sg_mute = False, sg_a = 2 ^ 20, sg_a_target = 2 ^ 24, sg_ampl_coef = ONE_Q2_30, sg_c = 281105, sg_f = TONE_FREQUENCY_DEFAULT,
     sg_freq_coef = ONE_Q2_30, sg_fs = 48000, sg_ramp_step = 2 ^ 22, sg_w = 0, sg_w_step = 35027624, sg_block_count = 0, sg_repeat_count = 0,
     sg_repeats = 0, sg_sample_count = 0, sg_samples_in_block = 6, sg_tone_length = 100, sg_tone_period = 200\<rparr>"

lemmas tone_demo_simps = tone_demo_def TONE_FREQUENCY_DEFAULT_def

lemma tone_attack_witness: "sint (sg_a ((tone_step ^^ 18) tone_demo)) = 13631488 \<and> sint (sg_a ((tone_step ^^ 60) tone_demo)) = 2 ^ 24"
proof -
  have a: "sg_a ((tone_step ^^ (k * 6)) tone_demo) = word_of_int (attack (2 ^ 24) (2 ^ 22) (2 ^ 20) k)" if "k < 100" for k
  proof -
    have "quiet ((tone_step ^^ (k * unat (sg_samples_in_block tone_demo))) tone_demo)
      = quiet (after_blocks tone_demo k (attack (sint (sg_a_target tone_demo)) (sint (sg_ramp_step tone_demo)) (sint (sg_a tone_demo)) k))"
      by (rule tone_attack) (use that in \<open>simp_all add: tone_demo_simps\<close>)
    then have "sg_a ((tone_step ^^ (k * unat (sg_samples_in_block tone_demo))) tone_demo)
      = word_of_int (attack (sint (sg_a_target tone_demo)) (sint (sg_ramp_step tone_demo)) (sint (sg_a tone_demo)) k)"
      by (metis quiet_sel(1) after_a)
    then show ?thesis by (simp add: tone_demo_simps)
  qed
  show ?thesis using a [of 3] a [of 10] by (simp add: attack_def)
qed

lemma tone_decay_witness: "sint (sg_a ((tone_step ^^ 6) (tone_demo\<lparr>sg_tone_length := 0, sg_a := 2 ^ 23\<rparr>))) = 2 ^ 22 \<and>
  sint (sg_a ((tone_step ^^ 30) (tone_demo\<lparr>sg_tone_length := 0, sg_a := 2 ^ 23\<rparr>))) = 0"
proof -
  let ?t = "tone_demo\<lparr>sg_tone_length := 0, sg_a := 2 ^ 23\<rparr>"
  have a: "sg_a ((tone_step ^^ (k * 6)) ?t) = word_of_int (max 0 (2 ^ 23 - int k * 2 ^ 22))" if "k < 100" for k
  proof -
    have "quiet ((tone_step ^^ (k * unat (sg_samples_in_block ?t))) ?t)
      = quiet (after_blocks ?t k (max 0 (sint (sg_a ?t) - int k * sint (sg_ramp_step ?t))))"
      by (rule tone_decay) (use that in \<open>simp_all add: tone_demo_simps\<close>)
    then have "sg_a ((tone_step ^^ (k * unat (sg_samples_in_block ?t))) ?t) = word_of_int (max 0 (sint (sg_a ?t) - int k * sint (sg_ramp_step ?t)))"
      by (metis quiet_sel(1) after_a)
    then show ?thesis by (simp add: tone_demo_simps)
  qed
  show ?thesis using a [of 1] a [of 5] by simp
qed

end
