(* ===== verification/Reef_Tone_Props.thy ===== *)
theory Reef_Tone_Props
  imports Reef_Tone_Blocks Reef_Sine
begin

text \<open>
  The tone generator: its samples and its frequency against the sine of the reals.
\<close>


section \<open>Phase and samples\<close>

text \<open>The angle within a turn, a step of at most half a turn.\<close>

definition phase_ok :: "tone_state \<Rightarrow> bool" where
  "phase_ok sg \<longleftrightarrow> 0 \<le> sint (sg_w sg) \<and> sint (sg_w sg) \<le> PI_MUL2_Q4_28 \<and> 0 \<le> sint (sg_w_step sg) \<and> sint (sg_w_step sg) \<le> PI_Q4_28"

lemma product_fits:
  fixes x a :: int
  assumes "\<bar>x\<bar> \<le> 2147483647" "\<bar>a\<bar> \<le> 2147483648"
  shows "\<bar>x * a div 2 ^ 31\<bar> \<le> 2147483647"
proof -
  have "\<bar>x * a\<bar> \<le> 2147483647 * 2147483648" unfolding abs_mult using assms by (intro mult_mono) simp_all
  then have "x * a \<le> 2147483647 * 2 ^ 31" "(- 2147483647) * 2 ^ 31 \<le> x * a" by (simp_all add: abs_le_iff)
  then have "x * a div 2 ^ 31 \<le> 2147483647 * 2 ^ 31 div 2 ^ 31" "(- 2147483647) * 2 ^ 31 div 2 ^ 31 \<le> x * a div 2 ^ 31"
    by (intro zdiv_mono1; simp)+
  then show ?thesis by (simp add: abs_le_iff)
qed

lemma tonegen_sample:
  assumes "phase_ok sg"
  shows "sint (fst (tonegen sg)) = (if sg_mute sg then 0 else sint (sin_fixed (sg_w sg)) * sint (sg_a sg) div 2 ^ 31)"
proof -
  have "\<bar>sint (sin_fixed (sg_w sg))\<bar> \<le> 2147483647" using sin_fixed_range [of "sg_w sg"] assms by (simp add: phase_ok_def abs_le_iff)
  moreover have "\<bar>sint (sg_a sg)\<bar> \<le> 2147483648" using sint_range32 [of "sg_a sg"] by (simp add: abs_le_iff)
  ultimately have "\<bar>sint (q_mults_32x32 (sin_fixed (sg_w sg)) (sg_a sg) 31 31 31)\<bar> \<le> 2147483647"
    using product_fits by (simp add: sint_q_mults_32x32)
  then have "sint (scast (q_mults_32x32 (sin_fixed (sg_w sg)) (sg_a sg) 31 31 31) :: s32) = sint (sin_fixed (sg_w sg)) * sint (sg_a sg) div 2 ^ 31"
    by (subst sint_scast_64_32) (simp_all add: abs_le_iff sint_q_mults_32x32)
  then show ?thesis by (simp add: tonegen_def Let_def)
qed

definition turn :: "int \<Rightarrow> int" where "turn w = (if PI_MUL2_Q4_28 < w then w - PI_MUL2_Q4_28 else w)"

lemma tonegen_phase:
  assumes "phase_ok sg"
  shows "sint (sg_w (snd (tonegen sg))) = turn (sint (sg_w sg) + sint (sg_w_step sg))"
    "snd (tonegen sg) = sg\<lparr>sg_w := word_of_int (turn (sint (sg_w sg) + sint (sg_w_step sg)))\<rparr>" "phase_ok (snd (tonegen sg))"
proof -
  note k = assms [unfolded phase_ok_def PI_Q4_28_def PI_MUL2_Q4_28_def]
  let ?w = "scast (sg_w sg) + scast (sg_w_step sg) :: s64" and ?n = "turn (sint (sg_w sg) + sint (sg_w_step sg))"
  have w: "sint ?w = sint (sg_w sg) + sint (sg_w_step sg)" using k by (subst sint_add_fits) simp_all
  have p: "sint (word_of_int PI_MUL2_Q4_28 :: s64) = PI_MUL2_Q4_28" by (simp add: PI_MUL2_Q4_28_def)
  have n: "0 \<le> ?n" "?n \<le> 1686629713" using k by (auto simp: turn_def PI_MUL2_Q4_28_def)
  have d: "sint (?w - word_of_int PI_MUL2_Q4_28) = sint (sg_w sg) + sint (sg_w_step sg) - PI_MUL2_Q4_28"
    using k by (subst sint_sub_fits) (simp_all add: w p PI_MUL2_Q4_28_def)
  have "(if word_of_int PI_MUL2_Q4_28 <s ?w then scast (?w - word_of_int PI_MUL2_Q4_28) else scast ?w) = (word_of_int ?n :: s32)"
    using d w p by (simp only: word_sless_alt scast_eq turn_def split: if_splits) simp
  then show e: "snd (tonegen sg) = sg\<lparr>sg_w := word_of_int ?n\<rparr>" by (simp add: tonegen_def Let_def)
  have n32: "sint (word_of_int ?n :: s32) = ?n" using n by (intro sint_eq_if_fits) simp_all
  then show "sint (sg_w (snd (tonegen sg))) = ?n" by (simp add: e)
  show "phase_ok (snd (tonegen sg))" unfolding e phase_ok_def using n n32 assms by (simp add: phase_ok_def PI_MUL2_Q4_28_def)
qed

section \<open>Frequency\<close>

lemma tone_update_ok:
  assumes "0 \<le> sint (sg_fs sg)" "sint (sg_fs sg) \<le> 192000" "0 \<le> sint (sg_c sg)" "0 \<le> sint f"
  shows "sint (sg_f (tonegen_update_f f sg)) = min (sint f) (sint (sg_fs sg) * 2 ^ 15)"
    "sint (sg_w_step (tonegen_update_f f sg)) = min PI_Q4_28 ((sint (sg_f (tonegen_update_f f sg)) * sint (sg_c sg) + 2 ^ 18) div 2 ^ 19)"
    "tonegen_update_f f sg = sg\<lparr>sg_f := sg_f (tonegen_update_f f sg), sg_w_step := sg_w_step (tonegen_update_f f sg)\<rparr>"
proof -
  let ?m = "Q_SHIFT_LEFT (scast (sg_fs sg)) 0 15 :: s64"
  let ?g = "if word_of_int INT32_MAXVALUE <s ?m then word_of_int INT32_MAXVALUE else ?m :: s64"
  let ?f = "if ?g <s scast f then scast ?g else f :: s32"
  let ?w = "q_multsr_32x32 ?f (sg_c sg) 16 31 28"
  have m: "sint ?m = sint (sg_fs sg) * 2 ^ 15"
  proof -
    have "?m = scast (sg_fs sg) * word_of_int (2 ^ 15)" by (simp add: Q_SHIFT_LEFT_def push_bit_eq_mult)
    then show ?thesis using assms(1,2) by (simp only:) (subst sint_mult_fits; simp)
  qed
  have g: "sint ?g = min 2147483647 (sint (sg_fs sg) * 2 ^ 15)" using m by (simp add: word_sless_alt min_def)
  have f: "sint ?f = min (sint f) (sint (sg_fs sg) * 2 ^ 15)"
    using g assms(1) sint_range32 [of f] by (auto simp: word_sless_alt sint_scast_fits min_def)
  have up: "tonegen_update_f f sg = sg\<lparr>sg_f := ?f, sg_w_step := scast (if word_of_int PI_Q4_28 <s ?w then word_of_int PI_Q4_28 else ?w)\<rparr>"
    by (simp add: tonegen_update_f_def Let_def)
  show "sint (sg_f (tonegen_update_f f sg)) = min (sint f) (sint (sg_fs sg) * 2 ^ 15)" unfolding up using f by simp
  have w: "sint ?w = (sint ?f * sint (sg_c sg) + 2 ^ 18) div 2 ^ 19" by (simp add: sint_q_multsr_32x32)
  have "0 \<le> sint ?f * sint (sg_c sg)" unfolding f using assms by (intro mult_nonneg_nonneg) simp_all
  then have "0 \<le> sint ?w" unfolding w by simp
  then show "sint (sg_w_step (tonegen_update_f f sg)) = min PI_Q4_28 ((sint (sg_f (tonegen_update_f f sg)) * sint (sg_c sg) + 2 ^ 18) div 2 ^ 19)"
    unfolding up using w by (auto simp: word_sless_alt PI_Q4_28_def sint_scast_fits min_def)
  show "tonegen_update_f f sg = sg\<lparr>sg_f := sg_f (tonegen_update_f f sg), sg_w_step := sg_w_step (tonegen_update_f f sg)\<rparr>"
    unfolding up by simp
qed


lemma tone_find_fs_cases:
  "tone_find_fs fs = - 1 \<or> (\<exists>i < 13. tone_find_fs fs = int i \<and> tone_fs_list ! i = fs)"
proof -
  have "length tone_fs_list = 13" by (simp add: tone_fs_list_def)
  moreover have "fold (\<lambda>i idx. if fs = tone_fs_list ! i then int i else idx) [0 ..< n] (- 1) = - 1 \<or>
    (\<exists>i < n. fold (\<lambda>i idx. if fs = tone_fs_list ! i then int i else idx) [0 ..< n] (- 1) = int i \<and> tone_fs_list ! i = fs)" for n
    by (induction n) (auto simp: less_Suc_eq)
  ultimately show ?thesis unfolding tone_find_fs_def by simp
qed

text \<open>\<open>2 * pi / Fs\<close> of the table is right to one half, and a block of 125 us has \<open>Fs / 8000\<close> samples, rounded.\<close>

lemma tone_tables:
  assumes "i < 13"
  shows "8000 \<le> sint (tone_fs_list ! i) \<and> sint (tone_fs_list ! i) \<le> 192000 \<and>
    \<bar>real_of_int (sint (tone_pi2_div_fs ! i)) * real_of_int (sint (tone_fs_list ! i)) - 2 * pi * 2 ^ 31\<bar> \<le> sint (tone_fs_list ! i) * (48 / 100) \<and>
    70276 \<le> sint (tone_pi2_div_fs ! i)"
proof -
  have p: "3.1415926523 \<le> pi" "pi \<le> 3.1415926538" using step_angle_range by (simp_all add: step_angle_def)
  have "i = 0 \<or> i = 1 \<or> i = 2 \<or> i = 3 \<or> i = 4 \<or> i = 5 \<or> i = 6 \<or> i = 7 \<or> i = 8 \<or> i = 9 \<or> i = 10 \<or> i = 11 \<or> i = 12"
    using assms by presburger
  then show ?thesis using p by (elim disjE) (simp_all add: tone_fs_list_def tone_pi2_div_fs_def abs_le_iff)
qed

lemma step_error:
  fixes F c fs v :: real
  assumes "0 \<le> F" "0 < fs" "70276 \<le> c" "\<bar>c * fs - 2 * pi * 2 ^ 31\<bar> \<le> fs * (48 / 100)" "\<bar>v - F * c / 2 ^ 19\<bar> \<le> 1 / 2"
  defines "exact \<equiv> 2 * pi * (F / 2 ^ 16) / fs"
  shows "\<bar>v / 2 ^ 28 - exact\<bar> \<le> exact * (7 / 10 ^ 6) + 1 / 2 ^ 29"
proof -
  define x where "x = 2 * pi * 2 ^ 31 / fs"
  have "\<bar>c * fs - 2 * pi * 2 ^ 31\<bar> / fs \<le> 48 / 100" using assms(2,4) by (simp add: pos_divide_le_eq mult.commute)
  moreover have "(c * fs - 2 * pi * 2 ^ 31) / fs = c - x" using assms(2) by (simp add: x_def field_simps)
  ultimately have "\<bar>c - x\<bar> \<le> 48 / 100" using assms(2) by (metis abs_divide abs_of_pos)
  moreover from this have "70275 \<le> x" using assms(3) by linarith
  then have "48 / 100 \<le> x * (7 / 10 ^ 6)" by simp
  ultimately have "\<bar>c - x\<bar> \<le> x * (7 / 10 ^ 6)" by (rule order_trans)
  then have "F * \<bar>c - x\<bar> \<le> F * (x * (7 / 10 ^ 6))" using assms(1) by (rule mult_left_mono)
  then have "\<bar>F * c - F * x\<bar> \<le> F * x * (7 / 10 ^ 6)" using assms(1) by (simp only: right_diff_distrib [symmetric] abs_mult abs_of_nonneg mult.assoc)
  then have "\<bar>F * c / 2 ^ 19 - F * x / 2 ^ 19\<bar> \<le> F * x * (7 / 10 ^ 6) / 2 ^ 19" by (simp only: diff_divide_distrib [symmetric] abs_divide) (simp add: field_simps)
  with assms(5) have "\<bar>v - F * x / 2 ^ 19\<bar> \<le> 1 / 2 + F * x * (7 / 10 ^ 6) / 2 ^ 19" by (rule abs_trans) simp
  then have "\<bar>v - F * x / 2 ^ 19\<bar> / 2 ^ 28 \<le> (1 / 2 + F * x * (7 / 10 ^ 6) / 2 ^ 19) / 2 ^ 28" by (rule divide_right_mono) simp
  moreover have "v / 2 ^ 28 - exact = (v - F * x / 2 ^ 19) / 2 ^ 28" using assms(2) by (simp add: exact_def x_def field_simps)
  moreover have "(1 / 2 + F * x * (7 / 10 ^ 6) / 2 ^ 19) / 2 ^ 28 = exact * (7 / 10 ^ 6) + 1 / 2 ^ 29" using assms(2) by (simp add: exact_def x_def field_simps)
  ultimately show ?thesis by (simp only: abs_divide) simp
qed

text \<open>
  C17: a sample rate of the table and a frequency up to half of it give an angle step that is the exact
  one, \<open>2 * pi * f / fs\<close>, to within half a unit of Q4.28 and 7 parts in a million.
\<close>
theorem tone_step_accuracy:
  assumes "tonegen_init fs f a sg = (0, sg')" "0 \<le> sint f" "sint f \<le> sint fs * 2 ^ 15"
  defines "exact \<equiv> 2 * pi * (sint f / 2 ^ 16) / sint fs"
  shows "\<bar>sint (sg_w_step sg') / 2 ^ 28 - exact\<bar> \<le> exact * (7 / 10 ^ 6) + 1 / 2 ^ 29"
proof -
  have idx: "0 \<le> tone_find_fs fs" using assms(1) by (auto simp: tonegen_init_def Let_def split: if_splits)
  then obtain i where i: "i < 13" "tone_find_fs fs = int i" "tone_fs_list ! i = fs" using tone_find_fs_cases [of fs] by auto
  define c where "c = tone_pi2_div_fs ! i"
  note t = tone_tables [OF i(1), unfolded i(3) c_def [symmetric]]
  obtain sg0 where sg0: "sg_fs sg0 = fs" "sg_c sg0 = c" "sg_w_step sg' = sg_w_step (tonegen_update_f f sg0)"
  proof
    let ?s = "sg\<lparr>sg_a_target := a, sg_a := (if a <s sg_ramp_step sg then a else sg_ramp_step sg), sg_fs := fs, sg_c := c, sg_mute := False\<rparr>"
    show "sg_fs ?s = fs" "sg_c ?s = c" by simp_all
    show "sg_w_step sg' = sg_w_step (tonegen_update_f f ?s)"
      using assms(1) i(2) by (auto simp: tonegen_init_def Let_def c_def)
  qed
  have "0 \<le> sint (sg_fs sg0)" "sint (sg_fs sg0) \<le> 192000" "0 \<le> sint (sg_c sg0)" using t by (simp_all add: sg0)
  note u = tone_update_ok [OF this assms(2)]
  have f: "sint (sg_f (tonegen_update_f f sg0)) = sint f" using u(1) assms(3) by (simp add: sg0)
  define v where "v = (sint f * sint c + 2 ^ 18) div 2 ^ 19"
  have w: "sint (sg_w_step sg') = min PI_Q4_28 v" using u(2) f by (simp add: sg0 v_def)
  have fs: "0 < real_of_int (sint fs)" "0 \<le> real_of_int (sint f)" "70276 \<le> real_of_int (sint c)" using t assms(2) by linarith+
  have d: "\<bar>v - real_of_int (sint f) * sint c / 2 ^ 19\<bar> \<le> 1 / 2"
    using drop_bit_near [where n = 19 and a = "sint f * sint c + 2 ^ 18"] by (simp add: v_def drop_bit_eq_div abs_le_iff field_simps)
  have m: "\<bar>real_of_int (sint c) * sint fs - 2 * pi * 2 ^ 31\<bar> \<le> real_of_int (sint fs) * (48 / 100)" using t by simp
  note b = step_error [OF fs(2,1,3) m d, folded exact_def]
  show ?thesis
  proof (cases "v \<le> PI_Q4_28")
    case True
    then show ?thesis using b w by simp
  next
    case False
    have "exact \<le> pi"
    proof -
      have "real_of_int (sint f) \<le> real_of_int (sint fs * 2 ^ 15)" using assms(3) by (simp only: of_int_le_iff)
      then have "sint f / 2 ^ 16 / sint fs \<le> 1 / 2" using fs(1) by (simp add: field_simps)
      then have "2 * pi * (sint f / 2 ^ 16 / sint fs) \<le> 2 * pi * (1 / 2)" by (rule mult_left_mono) simp
      then show ?thesis by (simp add: exact_def)
    qed
    moreover have "pi \<le> PI_Q4_28 / 2 ^ 28" using step_angle_range by (simp add: step_angle_def PI_Q4_28_def)
    moreover have "PI_Q4_28 / 2 ^ 28 \<le> v / (2 ^ 28 :: real)" using False by (simp add: divide_right_mono)
    ultimately show ?thesis using b w False by simp
  qed
qed

section \<open>Accuracy of a sample\<close>

text \<open>
  a sample is the amplitude times the sine of the phase, to within 1.2 millionths of the amplitude
  and one unit of Q1.31.
\<close>
theorem tone_sample_accuracy:
  assumes "phase_ok sg" "\<not> sg_mute sg"
  shows "\<bar>sint (fst (tonegen sg)) / 2 ^ 31 - sint (sg_a sg) / 2 ^ 31 * sin (sint (sg_w sg) / 2 ^ 28)\<bar>
    \<le> \<bar>sint (sg_a sg) / 2 ^ 31\<bar> * (12 / 10 ^ (7 :: nat)) + 1 / 2 ^ 31"
proof -
  let ?a = "real_of_int (sint (sg_a sg)) / 2 ^ 31" and ?s = "real_of_int (sint (sin_fixed (sg_w sg)))" and ?t = "sin (real_of_int (sint (sg_w sg)) / 2 ^ 28)"
  have "\<bar>?s / 2 ^ 31 - ?t\<bar> \<le> 12 / 10 ^ 7" using sine_accuracy [of "sg_w sg"] assms(1) by (simp only: phase_ok_def)
  then have "\<bar>?a\<bar> * \<bar>?s / 2 ^ 31 - ?t\<bar> \<le> \<bar>?a\<bar> * (12 / 10 ^ 7)" by (rule mult_left_mono) simp
  then have 1: "\<bar>?a * (?s / 2 ^ 31) - ?a * ?t\<bar> \<le> \<bar>?a\<bar> * (12 / 10 ^ 7)" by (simp only: right_diff_distrib [symmetric] abs_mult)
  have "\<bar>real_of_int (sint (fst (tonegen sg))) - 2 ^ 31 * (?a * (?s / 2 ^ 31))\<bar> \<le> 1"
    using tonegen_sample [OF assms(1)] assms(2) drop_bit_near [where n = 31 and a = "sint (sin_fixed (sg_w sg)) * sint (sg_a sg)"]
    by (simp add: drop_bit_eq_div abs_le_iff algebra_simps)
  then have "\<bar>real_of_int (sint (fst (tonegen sg))) / 2 ^ 31 - ?a * (?s / 2 ^ 31)\<bar> \<le> 1 / 2 ^ 31" by (rule abs_scale)
  then show ?thesis using 1 by (rule abs_trans) simp
qed

lemma tone_sample_accuracy_witness:
  "\<bar>sint (fst (tonegen (tone_demo\<lparr>sg_w := 400000000\<rparr>))) / 2 ^ 31 - 1 / 2 ^ 11 * sin (400000000 / 2 ^ 28)\<bar> \<le> 1 / 2 ^ 11 * (12 / 10 ^ (7 :: nat)) + 1 / 2 ^ 31"
  using tone_sample_accuracy [of "tone_demo\<lparr>sg_w := 400000000\<rparr>"]
  by (simp add: phase_ok_def tone_demo_simps PI_MUL2_Q4_28_def PI_Q4_28_def)

lemma tone_step_accuracy_witness:
  "fst (tonegen_init 48000 (997 * 2 ^ 16) 0 tone_demo) = 0 \<and>
   \<bar>sint (sg_w_step (snd (tonegen_init 48000 (997 * 2 ^ 16) 0 tone_demo))) / 2 ^ 28 - 2 * pi * 997 / 48000\<bar>
     \<le> 2 * pi * 997 / 48000 * (7 / 10 ^ (6 :: nat)) + 1 / 2 ^ 29"
proof -
  have "fst (tonegen_init 48000 (997 * 2 ^ 16) 0 tone_demo) = 0"
    by (simp add: tonegen_init_def Let_def tone_find_fs_def tone_fs_list_def)
  moreover from this have "tonegen_init 48000 (997 * 2 ^ 16) 0 tone_demo = (0, snd (tonegen_init 48000 (997 * 2 ^ 16) 0 tone_demo))"
    by (metis prod.collapse)
  ultimately show ?thesis using tone_step_accuracy [of 48000 "997 * 2 ^ 16" 0 tone_demo] by simp
qed

end
