(* ===== verification/Reef_Tone_Copy.thy ===== *)
theory Reef_Tone_Copy
  imports Reef_Tone_Blocks Reef_Src_Copy Reef_Eq_Props
begin

text \<open>
  The period the tone generator writes to its sink: the nested loops of \<open>tone_s32_default\<close> against the
  list of samples of the generator, and their end with a fuel of two more than the frames.
\<close>

section \<open>A period in the sink\<close>

text \<open>The samples of \<open>n\<close> frames, and their frames of \<open>nch\<close> channels.\<close>

fun tone_samples :: "nat \<Rightarrow> tone_state \<Rightarrow> s32 list" where
  "tone_samples 0 sg = []"
| "tone_samples (Suc n) sg = fst (tonegen (tonegen_control sg)) # tone_samples n (tone_step sg)"

definition frames_of :: "nat \<Rightarrow> s32 list \<Rightarrow> s32 list" where
  "frames_of nch vs = concat (map (replicate nch) vs)"

lemma length_tone_samples [simp]: "length (tone_samples n sg) = n"
  by (induction n arbitrary: sg) simp_all

lemma tone_samples_add: "tone_samples (i + j) sg = tone_samples i sg @ tone_samples j ((tone_step ^^ i) sg)"
  by (induction i arbitrary: sg) (simp_all add: funpow_swap1)

lemma length_frames_of [simp]: "length (frames_of nch vs) = length vs * nch"
  by (induction vs) (simp_all add: frames_of_def)

lemma frames_of_append: "frames_of nch (us @ vs) = frames_of nch us @ frames_of nch vs"
  by (simp add: frames_of_def)

text \<open>The sink as far as the generator is concerned: whole frames up to its end.\<close>

definition sink_room :: "nat \<Rightarrow> u32 \<Rightarrow> u32 \<Rightarrow> u32 \<Rightarrow> nat \<Rightarrow> bool" where
  "sink_room nch e s p k \<longleftrightarrow> 0 < nch \<and> unat s < 2 ^ 31 \<and> unat s \<le> unat e \<and> unat p + 4 * nch * k = unat e \<and> 4 * nch * k \<le> unat s"

lemma adv_one: "unat p + 4 < unat e \<Longrightarrow> adv 1 e s p = p + 4" "unat p + 4 = unat e \<Longrightarrow> adv 1 e s p = e - s"
proof -
  assume l: "unat p + 4 < unat e"
  then have "unat (p + 4) = unat p + 4" using unat_count [of p 4] unat32_lt [of e] by simp
  then have "\<not> e \<le> p + 4" using l by (simp add: word_le_nat_alt)
  then show "adv 1 e s p = p + 4" by (simp add: adv_def)
next
  assume l: "unat p + 4 = unat e"
  then have "unat (p + 4) = unat e" using unat_count [of p 4] unat32_lt [of e] by simp
  then have "p + 4 = e" by (simp only: word_unat_eq_iff)
  then show "adv 1 e s p = e - s" by (simp add: adv_def)
qed

lemma adv_run: "0 < k \<Longrightarrow> unat p + 4 * k \<le> unat e \<Longrightarrow> (adv 1 e s ^^ k) p = (if unat p + 4 * k = unat e then e - s else p + of_nat (4 * k))"
proof (induction k arbitrary: p)
  case (Suc k)
  show ?case
  proof (cases "k = 0")
    case True
    then show ?thesis using Suc.prems adv_one [of p e s] by (auto simp: le_less)
  next
    case False
    then have l: "unat p + 4 < unat e" using Suc.prems by simp
    then have u: "unat (p + 4) = unat p + 4" using unat_count [of p 4] unat32_lt [of e] by simp
    have "(adv 1 e s ^^ Suc k) p = (adv 1 e s ^^ k) (p + 4)" using adv_one(1) [OF l] by (simp add: funpow_swap1)
    then show ?thesis using Suc.IH [of "p + 4"] Suc.prems False u by (simp add: algebra_simps)
  qed
qed simp

lemma store_frame_circ:
  "unat p + 4 * nch \<le> unat e \<Longrightarrow> store_frame nch v p m = (p + of_nat (4 * nch), write_circ 1 e s p (replicate nch v) m)"
proof (induction nch arbitrary: p m)
  case (Suc nch)
  show ?case
  proof (cases "nch = 0")
    case False
    then have l: "unat p + 4 < unat e" using Suc.prems by simp
    then have u: "unat (p + 4) = unat p + 4" using unat_count [of p 4] unat32_lt [of e] by simp
    show ?thesis using Suc.IH [of "p + 4"] Suc.prems u adv_one(1) [OF l] by (simp add: algebra_simps)
  qed simp
qed simp

text \<open>Frames up to the end of the buffer at most.\<close>

lemma frames_run:
  assumes "unat p + 4 * nch * k \<le> unat e" "0 < nch"
  shows "((tone_frame (int nch)) ^^ k) (p, sg, m)
    = (p + of_nat (4 * nch * k), (tone_step ^^ k) sg, write_circ 1 e s p (frames_of nch (tone_samples k sg)) m)"
  using assms(1)
proof (induction k)
  case (Suc k)
  have l: "unat p + 4 * nch * k + 4 * nch \<le> unat e" using Suc.prems by (simp add: algebra_simps)
  then have u: "unat (p + of_nat (4 * nch * k)) = unat p + 4 * nch * k" using unat32_lt [of e] by (intro unat_count) simp
  have ih: "((tone_frame (int nch)) ^^ k) (p, sg, m) = (p + of_nat (4 * nch * k), (tone_step ^^ k) sg, write_circ 1 e s p (frames_of nch (tone_samples k sg)) m)"
    using Suc by simp
  have "(adv 1 e s ^^ (k * nch)) p = p + of_nat (4 * nch * k)"
    using adv_run [of "k * nch" p e s] l assms(2) by (cases "k = 0") (simp_all add: algebra_simps)
  moreover have "tone_samples (Suc k) sg = tone_samples k sg @ [fst (tonegen (tonegen_control ((tone_step ^^ k) sg)))]"
    using tone_samples_add [of k 1 sg] by simp
  ultimately have "write_circ 1 e s p (frames_of nch (tone_samples (Suc k) sg)) m
      = write_circ 1 e s (p + of_nat (4 * nch * k)) (replicate nch (fst (tonegen (tonegen_control ((tone_step ^^ k) sg)))))
          (write_circ 1 e s p (frames_of nch (tone_samples k sg)) m)"
    by (simp add: frames_of_append write_circ_append) (simp add: frames_of_def)
  moreover have "tone_frame (int nch) (p + of_nat (4 * nch * k), (tone_step ^^ k) sg, m')
      = (p + of_nat (4 * nch * k) + of_nat (4 * nch), (tone_step ^^ Suc k) sg,
         write_circ 1 e s (p + of_nat (4 * nch * k)) (replicate nch (fst (tonegen (tonegen_control ((tone_step ^^ k) sg))))) m')" for m'
    using store_frame_circ [of "p + of_nat (4 * nch * k)" nch e _ m' s] l u by (simp add: tone_frame_def tone_step_def split_def Let_def)
  ultimately show ?case using ih by (simp add: algebra_simps)
qed (simp add: frames_of_def)

lemma tone_rest_run: "0 < nch \<Longrightarrow> k < fuel \<Longrightarrow> tone_rest fuel (int nch) (int (k * nch)) s = Some (0, ((tone_frame (int nch)) ^^ k) s)"
proof (induction k arbitrary: fuel s)
  case 0 then show ?case by (cases fuel) simp_all
next
  case (Suc k)
  then obtain f where "fuel = Suc f" "k < f" by (cases fuel) simp_all
  moreover have "0 < int nch + int k * int nch" using Suc.prems(1) by (intro add_pos_nonneg) simp_all
  ultimately show ?case using Suc.IH [of f] Suc.prems by (simp add: funpow_swap1)
qed

lemma tone_wrap_run: "0 < nch \<Longrightarrow> k < fuel \<Longrightarrow>
  tone_to_wrap fuel (int nch) (int (k * nch)) n s = Some (n - int (k * nch), ((tone_frame (int nch)) ^^ k) s)"
proof (induction k arbitrary: fuel n s)
  case 0 then show ?case by (cases fuel) simp_all
next
  case (Suc k)
  then obtain f where "fuel = Suc f" "k < f" by (cases fuel) simp_all
  moreover have "0 < int nch + int k * int nch" using Suc.prems(1) by (intro add_pos_nonneg) simp_all
  ultimately show ?case using Suc.IH [of f "n - int nch"] Suc.prems by (simp add: funpow_swap1 algebra_simps)
qed

text \<open>\<open>k\<close> whole frames are left up to the end of the ring.\<close>

lemma room_ptr_diff:
  assumes "sink_room nch (end_addr b) s p k"
  shows "ptr_diff (end_addr b) p = int (k * nch)"
proof -
  have le: "p \<le> end_addr b" using assms by (simp add: sink_room_def word_le_nat_alt)
  then have u: "unat (end_addr b - p) = 4 * nch * k" unfolding unat_sub_le [OF le] using assms unfolding sink_room_def by linarith
  have "4 * nch * k \<le> unat s" "unat s < 2147483648" using assms unfolding sink_room_def by simp_all
  then have "unat (end_addr b - p) < 2147483648" using u by linarith
  then have "sint (end_addr b - p) = int (4 * (nch * k))" using u by (simp add: sint_small32)
  moreover have "int (4 * (nch * k)) div 4 = int (nch * k)" by (simp add: zdiv_int [symmetric])
  ultimately show ?thesis unfolding ptr_diff_def by (simp only: sdiv_pos [OF of_nat_0_le_iff]) (simp add: mult.commute)
qed

lemma sink_room_adv:
  assumes "sink_room nch e s p k" "unat s = 4 * nch * R" "0 < j" "j \<le> k"
  shows "(adv 1 e s ^^ (j * nch)) p = (if j = k then e - s else p + of_nat (4 * nch * j))"
    "j < k \<Longrightarrow> sink_room nch e s (p + of_nat (4 * nch * j)) (k - j)" "sink_room nch e s (e - s) R"
proof -
  note r = assms(1) [unfolded sink_room_def]
  have jk: "4 * nch * j \<le> 4 * nch * k" using assms(4) by simp
  have m: "4 * (j * nch) = 4 * nch * j" by simp
  have "(unat p + 4 * nch * j = unat e) = (j = k)"
  proof
    assume "unat p + 4 * nch * j = unat e"
    then have "4 * nch * j = 4 * nch * k" using r by linarith
    then show "j = k" using r by simp
  qed (use r in simp)
  then show "(adv 1 e s ^^ (j * nch)) p = (if j = k then e - s else p + of_nat (4 * nch * j))"
    using adv_run [of "j * nch" p e s, unfolded m] r assms(3) jk by simp
  show "sink_room nch e s (p + of_nat (4 * nch * j)) (k - j)" if "j < k"
  proof -
    have "unat p + 4 * nch * j < 4294967296" using r jk unat32_lt [of e] by linarith
    then have "unat (p + of_nat (4 * nch * j)) = unat p + 4 * nch * j" by (intro unat_count) simp
    moreover have "4 * nch * k - 4 * nch * j \<le> unat s" using r by linarith
    ultimately show ?thesis using r jk that by (simp add: sink_room_def diff_mult_distrib2)
  qed
  show "sink_room nch e s (e - s) R" using r assms(2) by (simp add: sink_room_def unat_sub_le word_le_nat_alt)
qed

lemma tone_loop_run:
  assumes "unat (ipc_size b) = 4 * nch * R" "0 < R"
  shows "sink_room nch (end_addr b) (ipc_size b) p k \<Longrightarrow> 0 < k \<Longrightarrow> f + 2 \<le> fuel \<Longrightarrow>
    tone_loop fuel b (int nch) (int (f * nch)) (p, sg, m) =
      Some ((adv 1 (end_addr b) (ipc_size b) ^^ (f * nch)) p, (tone_step ^^ f) sg,
            write_circ 1 (end_addr b) (ipc_size b) p (frames_of nch (tone_samples f sg)) m)"
proof (induction f arbitrary: fuel p k sg m rule: less_induct)
  case (less f)
  let ?e = "end_addr b" and ?s = "ipc_size b"
  note r = less.prems(1) [unfolded sink_room_def]
  obtain fu where fu: "fuel = Suc fu" using less.prems(3) by (cases fuel) simp_all
  show ?case
  proof (cases "f = 0")
    case True
    then show ?thesis by (simp add: fu frames_of_def)
  next
    case False
    then have n: "0 < int (f * nch)" using r by simp
    have fr: "((tone_frame (int nch)) ^^ j) (p, sg, m)
      = (p + of_nat (4 * nch * j), (tone_step ^^ j) sg, write_circ 1 ?e ?s p (frames_of nch (tone_samples j sg)) m)" if "j \<le> k" for j
    proof (rule frames_run)
      have "4 * nch * j \<le> 4 * nch * k" using that by simp
      then show "unat p + 4 * nch * j \<le> unat ?e" using r by linarith
      show "0 < nch" using r by simp
    qed
    show ?thesis
    proof (cases "f < k")
      case True
      have "int (f * nch) < ptr_diff ?e p" unfolding room_ptr_diff [OF less.prems(1)] using True r by simp
      moreover have "tone_rest fu (int nch) (int (f * nch)) (p, sg, m) = Some (0, ((tone_frame (int nch)) ^^ f) (p, sg, m))"
        using less.prems(3) r by (intro tone_rest_run) (simp_all add: fu)
      moreover have "tone_loop fu b (int nch) 0 t = Some t" for t using less.prems(3) by (cases fu) (simp_all add: fu)
      moreover have "(adv 1 ?e ?s ^^ (f * nch)) p = p + of_nat (4 * nch * f)"
        using sink_room_adv(1) [OF less.prems(1) assms(1), of f] True False by simp
      ultimately show ?thesis using n fr [of f] True unfolding fu by (simp only: tone_loop.simps if_True Let_def fst_conv) simp
    next
      case nk: False
      have w: "\<not> int (f * nch) < ptr_diff ?e p" unfolding room_ptr_diff [OF less.prems(1)] using nk by (simp only: not_less of_nat_le_iff mult_le_mono1)
      have "tone_to_wrap fu (int nch) (int (k * nch)) (int (f * nch)) (p, sg, m)
        = Some (int (f * nch) - int (k * nch), ((tone_frame (int nch)) ^^ k) (p, sg, m))"
        using less.prems(3) r nk by (intro tone_wrap_run) (simp_all add: fu)
      moreover have "int (f * nch) - int (k * nch) = int ((f - k) * nch)" using nk by (simp add: of_nat_diff algebra_simps)
      moreover have "p + of_nat (4 * nch * k) = ?e"
      proof -
        have "unat (p + of_nat (4 * nch * k)) = unat p + 4 * nch * k" using r unat32_lt [of ?e] by (intro unat_count) simp
        then show ?thesis using r by (simp only: word_unat_eq_iff)
      qed
      ultimately have t: "tone_to_wrap fu (int nch) (ptr_diff ?e p) (int (f * nch)) (p, sg, m)
        = Some (int ((f - k) * nch), ?e, (tone_step ^^ k) sg, write_circ 1 ?e ?s p (frames_of nch (tone_samples k sg)) m)"
        using fr [of k] by (simp only: room_ptr_diff [OF less.prems(1)])
      have a: "(adv 1 ?e ?s ^^ (k * nch)) p = ?e - ?s" using sink_room_adv(1) [OF less.prems(1) assms(1), of k] less.prems(2) by simp
      have l: "sink_room nch ?e ?s (?e - ?s) R" using sink_room_adv(3) [OF less.prems(1) assms(1), of k] less.prems(2) by simp
      have "tone_loop fu b (int nch) (int ((f - k) * nch)) (?e - ?s, (tone_step ^^ k) sg, m')
        = Some ((adv 1 ?e ?s ^^ ((f - k) * nch)) (?e - ?s), (tone_step ^^ (f - k)) ((tone_step ^^ k) sg),
            write_circ 1 ?e ?s (?e - ?s) (frames_of nch (tone_samples (f - k) ((tone_step ^^ k) sg))) m')" for m'
        using less.IH [of "f - k" "?e - ?s" R fu, OF _ l assms(2)] less.prems(2,3) nk by (simp add: fu)
      moreover have "(tone_step ^^ (f - k)) ((tone_step ^^ k) sg) = (tone_step ^^ f) sg"
        using nk by (metis funpow_add comp_apply le_add_diff_inverse2 not_less)
      moreover have "(adv 1 ?e ?s ^^ ((f - k) * nch)) (?e - ?s) = (adv 1 ?e ?s ^^ (f * nch)) p"
      proof -
        have e: "f * nch = (f - k) * nch + k * nch" using nk by (simp flip: add_mult_distrib)
        have "adv 1 ?e ?s ^^ (f * nch) = (adv 1 ?e ?s ^^ ((f - k) * nch)) \<circ> (adv 1 ?e ?s ^^ (k * nch))" by (subst e) (rule funpow_add)
        then show ?thesis by (simp only: comp_apply a)
      qed
      moreover have "frames_of nch (tone_samples f sg) = frames_of nch (tone_samples k sg) @ frames_of nch (tone_samples (f - k) ((tone_step ^^ k) sg))"
        using tone_samples_add [of k "f - k" sg] nk by (simp add: frames_of_append)
      ultimately show ?thesis using n w t a unfolding fu
        by (simp only: tone_loop.simps if_True if_False Let_def fst_conv bind.bind_lunit prod.case write_circ_append length_frames_of length_tone_samples)
    qed
  qed
qed

section \<open>The period\<close>

text \<open>
  C12: a period of \<open>F\<close> frames of \<open>N\<close> channels, into a sink that holds whole frames and whose writer stands at
  one: the generation ends, the \<open>F\<close> samples of the generator stand in the ring from the writer on, each in
  all channels of its frame and wrapped at the end of the ring, the writer is past them, the generator has
  made \<open>F\<close> steps, and nothing else of the world has changed but the counts of the sink.
\<close>
theorem tone_period:
  fixes w :: "'a tone_world_scheme" and p :: u32
  assumes "channels (pcms w (b_pcm (bufs w sink))) = of_nat N" "F * N < 2 ^ 31" "0 < N" "N < 2 ^ 31"
    and "sink_room N (end_addr (bufs w sink)) (ipc_size (bufs w sink)) (w_ptr (bufs w sink)) k" "0 < k"
    and "unat (ipc_size (bufs w sink)) = 4 * N * R" "F + 2 \<le> fuel"
  defines "b \<equiv> bufs w sink"
  defines "sg \<equiv> tones w p"
  shows "\<exists>w'. tone_s32_default fuel p sink (of_nat F) w = Some w' \<and>
    wmem w' = write_circ 1 (end_addr b) (ipc_size b) (w_ptr b) (frames_of N (tone_samples F sg)) (wmem w) \<and>
    tones w' = (tones w)(p := (tone_step ^^ F) sg) \<and>
    bufs w' = (bufs w)(sink := b\<lparr>w_ptr := (adv 1 (end_addr b) (ipc_size b) ^^ (F * N)) (w_ptr b),
      avail := avail b + of_nat (4 * F * N), bfree := bfree b - of_nat (4 * F * N)\<rparr>) \<and>
    devs w' = devs w \<and> pcms w' = pcms w \<and> mm w' = mm w"
proof -
  have R: "0 < R"
  proof (rule ccontr)
    assume "\<not> 0 < R"
    then show False using assms(3,5,6,7) by (simp add: sink_room_def)
  qed
  have n: "sint (of_nat N :: u32) = int N" using assms(4) by (subst sint_small32) (simp_all add: unat_of_nat_fits)
  have "of_nat F * of_nat N = (of_nat (F * N) :: u32)" by simp
  moreover have "sint (of_nat (F * N) :: u32) = int (F * N)"
  proof -
    have "unat (of_nat (F * N) :: u32) = F * N" using assms(2) by (intro unat_of_nat_fits) simp
    then show ?thesis using assms(2) by (subst sint_small32) simp_all
  qed
  ultimately have fn: "sint (of_nat F * of_nat N :: u32) = int (F * N)" by simp
  define v where "v = write_circ 1 (end_addr b) (ipc_size b) (w_ptr b) (frames_of N (tone_samples F sg)) (wmem w)"
  define d where "d = (adv 1 (end_addr b) (ipc_size b) ^^ (F * N)) (w_ptr b)"
  have l: "tone_loop fuel b (int N) (int (F * N)) (w_ptr b, sg, wmem w) = Some (d, (tone_step ^^ F) sg, v)"
    unfolding d_def v_def using assms(5-8) R unfolding b_def by (intro tone_loop_run)
  have ch: "channels (pcms w (b_pcm b)) = of_nat N" using assms(1) by (simp only: b_def)
  define w1 where "w1 = upd_tone p (\<lambda>_. (tone_step ^^ F) sg) (w\<lparr>wmem := v\<rparr>)"
  define w' where "w' = upd_buf sink (comp_update_sink_free_avail (of_nat F * of_nat N)) (upd_buf sink (\<lambda>b. b\<lparr>w_ptr := d\<rparr>) w1)"
  have "tone_s32_default fuel p sink (of_nat F) w = Some w'"
    using l by (simp add: tone_s32_default_def Let_def b_def [symmetric] ch n fn sg_def [symmetric] w'_def w1_def)
  moreover have "wmem w' = v" "tones w' = (tones w)(p := (tone_step ^^ F) sg)" "devs w' = devs w" "pcms w' = pcms w" "mm w' = mm w"
    by (simp_all add: w'_def w1_def)
  moreover have "bufs w' = (bufs w)(sink := b\<lparr>w_ptr := d, avail := avail b + of_nat (4 * F * N), bfree := bfree b - of_nat (4 * F * N)\<rparr>)"
    by (simp add: w'_def w1_def upd_buf_def upd_tone_def comp_update_sink_free_avail_def b_def mult.assoc)
  ultimately show ?thesis unfolding v_def d_def by (intro exI [of _ w']) simp
qed
definition tone_sink :: tone_world where
  "tone_sink = world.extend (empty_world\<lparr>
     pcms := (\<lambda>_. \<lparr>stream_type = 0, direction = 0, frame_fmt = 2, rate = 48000, channels = 2, frame_size = 8, period_bytes = 24, period_count = 3\<rparr>),
     bufs := (\<lambda>_. zero_buffer\<lparr>ipc_size := 32, w_ptr := 1016, r_ptr := 1000, addr := 1000, end_addr := 1032, avail := 8, bfree := 24\<rparr>)\<rparr>)
     \<lparr>tones = (\<lambda>_. tone_demo)\<rparr>"

lemma tone_sink_sel:
  "pcms tone_sink q = \<lparr>stream_type = 0, direction = 0, frame_fmt = 2, rate = 48000, channels = 2, frame_size = 8, period_bytes = 24, period_count = 3\<rparr>"
  "bufs tone_sink b = zero_buffer\<lparr>ipc_size := 32, w_ptr := 1016, r_ptr := 1000, addr := 1000, end_addr := 1032, avail := 8, bfree := 24\<rparr>"
  "tones tone_sink p = tone_demo"
  by (simp_all add: tone_sink_def world.defs empty_world_def)

lemma tone_period_witness:
  "\<exists>w'. tone_s32_default 5 30 20 3 tone_sink = Some w' \<and> w_ptr (bufs w' 20) = 1008 \<and> avail (bufs w' 20) = 32 \<and> bfree (bufs w' 20) = 0 \<and>
     wmem w' = write_circ 1 1032 32 1016 (frames_of 2 (tone_samples 3 tone_demo)) (wmem tone_sink)"
proof -
  have "sink_room 2 (end_addr (bufs tone_sink 20)) (ipc_size (bufs tone_sink 20)) (w_ptr (bufs tone_sink 20)) 2"
    by (simp add: tone_sink_sel sink_room_def)
  then have "\<exists>w'. tone_s32_default 5 30 20 (of_nat 3) tone_sink = Some w' \<and>
    wmem w' = write_circ 1 (end_addr (bufs tone_sink 20)) (ipc_size (bufs tone_sink 20)) (w_ptr (bufs tone_sink 20))
      (frames_of 2 (tone_samples 3 (tones tone_sink 30))) (wmem tone_sink) \<and>
    tones w' = (tones tone_sink)(30 := (tone_step ^^ 3) (tones tone_sink 30)) \<and>
    bufs w' = (bufs tone_sink)(20 := (bufs tone_sink 20)
      \<lparr>w_ptr := (adv 1 (end_addr (bufs tone_sink 20)) (ipc_size (bufs tone_sink 20)) ^^ (3 * 2)) (w_ptr (bufs tone_sink 20)),
       avail := avail (bufs tone_sink 20) + of_nat (4 * 3 * 2), bfree := bfree (bufs tone_sink 20) - of_nat (4 * 3 * 2)\<rparr>) \<and>
    devs w' = devs tone_sink \<and> pcms w' = pcms tone_sink \<and> mm w' = mm tone_sink"
    by (intro tone_period [where N = 2 and R = 4 and k = 2]) (simp_all add: tone_sink_sel)
  moreover have "(6 :: nat) = Suc (Suc (Suc (Suc (Suc (Suc 0)))))" by simp
  then have "(adv 1 1032 32 ^^ 6) 1016 = 1008" by (simp only: funpow.simps o_apply id_apply) (simp add: adv_def)
  ultimately show ?thesis by (auto simp: tone_sink_sel zero_buffer_def)
qed

end
