(* ===== verification/Reef_Msg.thy ===== *)
theory Reef_Msg
  imports Reef_Memory
begin

text \<open>
  The messages between the DSP and the host: the queue of src/src/ipc/intel-ipc.c and the doorbell
  protocol of src/src/ipc/byt-ipc.c. The twelve messages of \<open>struct ipc\<close> are named by their index;
  the lists are in the order of the C lists. A mailbox is the list of its bytes. The registers of the
  shim are fields; \<open>isr\<close>, what a read of the interrupt status returns, is an argument.

  \<open>list_item_append\<close> of a message that already is on a list leaves links that form no list: that is
  the fault \<open>None\<close> of \<open>do_notify\<close>. A message's call back is code of the caller; the model records
  the calls.
\<close>

section \<open>State\<close>

definition MSG_QUEUE_SIZE :: nat where "MSG_QUEUE_SIZE = 12"
definition SOF_IPC_MSG_MAX_SIZE :: u32 where "SOF_IPC_MSG_MAX_SIZE = 128"
definition MAILBOX_OUTBOX_SIZE :: nat where "MAILBOX_OUTBOX_SIZE = 0x400"

definition SHIM_DONE :: u32 where "SHIM_DONE = push_bit 30 1"
definition SHIM_BUSY :: u32 where "SHIM_BUSY = push_bit 31 1"
definition SHIM_ISRD_DONE :: u32 where "SHIM_ISRD_DONE = 1"
definition SHIM_ISRD_BUSY :: u32 where "SHIM_ISRD_BUSY = 2"

record ipc_msg =
  m_header :: u32
  tx_size :: u32
  tx_data :: "u8 list"
  rx_size :: u32
  rx_data :: "u8 list"
  m_cb :: u32
  m_cb_data :: u32

record host_ipc =
  host_msg :: u32
  dsp_msg :: "nat option"
  host_pending :: u32
  dsp_pending :: u32
  msg_list :: "nat list"
  empty_list :: "nat list"
  message :: "nat \<Rightarrow> ipc_msg"
  outbox :: "u8 list"
  inbox :: "u8 list"
  ipcxl :: u32
  ipcxh :: u32
  ipcdl :: u32
  ipcdh :: u32
  imrd :: u32
  cb_calls :: "(u32 \<times> u32 \<times> u8 list) list"

text \<open>\<open>rmemcpy\<close> of \<open>n\<close> bytes to the start of an area.\<close>

definition copy_in :: "u8 list \<Rightarrow> u8 list \<Rightarrow> u8 list" where
  "copy_in src dest = src @ drop (length src) dest"

definition mailbox_outbox_write :: "u8 list \<Rightarrow> host_ipc \<Rightarrow> host_ipc" where
  "mailbox_outbox_write src s = s\<lparr>outbox := copy_in src (outbox s)\<rparr>"

definition mailbox_inbox_read :: "nat \<Rightarrow> host_ipc \<Rightarrow> u8 list" where
  "mailbox_inbox_read n s = take n (inbox s)"

section \<open>Queueing\<close>

definition msg_get_empty :: "host_ipc \<Rightarrow> nat option \<times> host_ipc" where
  "msg_get_empty s = (case empty_list s of [] \<Rightarrow> (None, s) | i # is \<Rightarrow> (Some i, s\<lparr>empty_list := is\<rparr>))"

text \<open>\<open>data\<close> are the \<open>tx_bytes\<close> bytes at \<open>tx_data\<close>. A message of 128 bytes and more is queued without them.\<close>

definition ipc_queue_host_message :: "u32 \<Rightarrow> u8 list \<Rightarrow> u32 \<Rightarrow> u32 \<Rightarrow> u32 \<Rightarrow> host_ipc \<Rightarrow> int \<times> host_ipc" where
  "ipc_queue_host_message header data rx_bytes cb cb_data s =
     (case msg_get_empty s of
        (None, s) \<Rightarrow> (- EBUSY, s)
      | (Some i, s) \<Rightarrow>
          let tx_bytes = of_nat (length data);
              m = (message s i)\<lparr>m_header := header, tx_size := tx_bytes, rx_size := rx_bytes, m_cb_data := cb_data, m_cb := cb\<rparr>;
              m = (if 0 < tx_bytes \<and> tx_bytes < SOF_IPC_MSG_MAX_SIZE then m\<lparr>tx_data := copy_in data (tx_data m)\<rparr> else m)
          in (0, s\<lparr>message := (message s)(i := m), dsp_pending := 1, msg_list := msg_list s @ [i]\<rparr>))"

definition SOF_IPC_GLB_STREAM_MSG :: u32 where "SOF_IPC_GLB_STREAM_MSG = push_bit 28 6"
definition SOF_IPC_STREAM_POSITION :: u32 where "SOF_IPC_STREAM_POSITION = push_bit 16 0xa"

definition ipc_stream_send_notification :: "u8 list \<Rightarrow> host_ipc \<Rightarrow> int \<times> host_ipc" where
  "ipc_stream_send_notification posn s =
     ipc_queue_host_message (SOF_IPC_GLB_STREAM_MSG OR SOF_IPC_STREAM_POSITION) posn 0 0 0 s"

section \<open>The doorbell\<close>

text \<open>A message longer than its buffer would be read past its end.\<close>

definition ipc_platform_send_msg :: "host_ipc \<Rightarrow> host_ipc option" where
  "ipc_platform_send_msg s =
     (case msg_list s of
        [] \<Rightarrow> Some (s\<lparr>dsp_pending := 0\<rparr>)
      | i # is \<Rightarrow>
          if ipcdh s AND (SHIM_BUSY OR SHIM_DONE) \<noteq> 0 then Some s
          else if SOF_IPC_MSG_MAX_SIZE < tx_size (message s i) then None
          else
            (let m = message s i;
                 s = mailbox_outbox_write (take (unat (tx_size m)) (tx_data m)) s
             in Some (s\<lparr>msg_list := is, dsp_msg := Some i, ipcdl := m_header m, ipcdh := SHIM_BUSY\<rparr>)))"

definition do_notify :: "host_ipc \<Rightarrow> host_ipc option" where
  "do_notify s =
     do {
       s \<leftarrow> (case dsp_msg s of
              None \<Rightarrow> Some s
            | Some i \<Rightarrow>
                let m = message s i;
                    m = (if rx_size m \<noteq> 0 \<and> rx_size m < SOF_IPC_MSG_MAX_SIZE
                         then m\<lparr>rx_data := copy_in (mailbox_inbox_read (unat (rx_size m)) s) (rx_data m)\<rparr> else m);
                    s = s\<lparr>message := (message s)(i := m)\<rparr>;
                    s = (if m_cb m \<noteq> 0 then s\<lparr>cb_calls := cb_calls s @ [(m_cb m, m_cb_data m, rx_data m)]\<rparr> else s)
                in if i \<in> set (empty_list s) \<union> set (msg_list s) then None
                   else Some (s\<lparr>empty_list := empty_list s @ [i]\<rparr>));
       Some (s\<lparr>ipcdh := ipcdh s AND NOT SHIM_DONE, imrd := imrd s AND NOT SHIM_ISRD_DONE\<rparr>) }"

definition irq_handler :: "u32 \<Rightarrow> host_ipc \<Rightarrow> host_ipc option" where
  "irq_handler isr s =
     do {
       s \<leftarrow> (if isr AND SHIM_ISRD_DONE \<noteq> 0 then do_notify (s\<lparr>imrd := imrd s OR SHIM_ISRD_DONE\<rparr>) else Some s);
       if isr AND SHIM_ISRD_BUSY \<noteq> 0 then
         (let s = s\<lparr>imrd := imrd s OR SHIM_ISRD_BUSY\<rparr>
          in Some (s\<lparr>host_msg := ipcxl s, host_pending := 1\<rparr>))
       else Some s }"

text \<open>
  The command the host has put in the mailbox is run by \<open>cmd\<close>, \<open>ipc_cmd\<close> of \<open>Reef_Dispatch\<close>, whose
  result is dropped. \<open>pm_prepare_D3\<close> is never set.
\<close>

definition ipc_platform_do_cmd :: "(host_ipc \<Rightarrow> (int \<times> host_ipc) option) \<Rightarrow> host_ipc \<Rightarrow> host_ipc option" where
  "ipc_platform_do_cmd cmd s =
     do {
       (_, s) \<leftarrow> cmd s;
       let s = s\<lparr>host_pending := 0\<rparr>;
       Some (s\<lparr>ipcxh := (ipcxh s AND NOT SHIM_BUSY) OR SHIM_DONE, imrd := imrd s AND NOT SHIM_ISRD_BUSY\<rparr>) }"

definition ipc_process_msg_queue :: "(host_ipc \<Rightarrow> (int \<times> host_ipc) option) \<Rightarrow> host_ipc \<Rightarrow> (int \<times> host_ipc) option" where
  "ipc_process_msg_queue cmd s =
     do {
       s \<leftarrow> (if host_pending s \<noteq> 0 then ipc_platform_do_cmd cmd s else Some s);
       s \<leftarrow> (if dsp_pending s \<noteq> 0 then ipc_platform_send_msg s else Some s);
       Some (0, s) }"

text \<open>\<open>list_item_prepend\<close> puts the messages on the empty list in reverse.\<close>

definition platform_ipc_init :: "host_ipc \<Rightarrow> host_ipc" where
  "platform_ipc_init s =
     s\<lparr>dsp_msg := None, msg_list := [], empty_list := fold (\<lambda>i l. i # l) [0 ..< MSG_QUEUE_SIZE] [],
       imrd := imrd s AND NOT (SHIM_ISRD_BUSY OR SHIM_ISRD_DONE)\<rparr>"

end
