(* ===== verification/Reef_Msg_Props.thy ===== *)
theory Reef_Msg_Props
  imports Reef_Msg
begin

text \<open>
  The message queue under the doorbell protocol, as a state machine of the firmware and the host: what
  the host takes is what was queued, in order; no message is lost or used twice; all of it arrives when
  the host answers; and what the code does when the protocol is not kept.
\<close>

section \<open>Firmware and host\<close>

text \<open>
  The host has read a message when it clears BUSY and sets DONE. The steps of the firmware and of the
  host in any order, with the messages queued so far and the header and the outbox at each taking. The
  handler runs with the DONE status only while the DONE bit of the doorbell is set.
\<close>

definition host_take :: "host_ipc \<Rightarrow> host_ipc" where
  "host_take s = s\<lparr>ipcdh := (ipcdh s AND NOT SHIM_BUSY) OR SHIM_DONE\<rparr>"

definition host_command :: "u32 \<Rightarrow> host_ipc \<Rightarrow> host_ipc" where
  "host_command v s = s\<lparr>ipcxl := v, ipcxh := ipcxh s OR SHIM_BUSY\<rparr>"

text \<open>
  What the queue needs of a command of the host: it leaves the messages and the doorbell alone and, while
  the host has not taken the message in the outbox, the outbox. A reply of a power management command,
  which goes to the start of the outbox at any time, is not such a command.
\<close>

definition keeps_queue :: "host_ipc \<Rightarrow> host_ipc \<Rightarrow> bool" where
  "keeps_queue s s' \<longleftrightarrow> ipcdh s' = ipcdh s \<and> ipcdl s' = ipcdl s \<and> dsp_msg s' = dsp_msg s \<and> empty_list s' = empty_list s \<and> msg_list s' = msg_list s \<and>
     message s' = message s \<and> dsp_pending s' = dsp_pending s \<and> length (outbox s') = length (outbox s) \<and> (ipcdh s = SHIM_BUSY \<longrightarrow> outbox s' = outbox s)"

inductive msg_reach :: "host_ipc \<Rightarrow> (u32 \<times> u8 list) list \<Rightarrow> (u32 \<times> u8 list) list \<Rightarrow> bool" where
  start: "ipcdh s = 0 \<Longrightarrow> length (outbox s) = MAILBOX_OUTBOX_SIZE \<Longrightarrow> dsp_pending s = 0 \<Longrightarrow>
    (\<And>i. length (tx_data (message s i)) = 128) \<Longrightarrow> msg_reach (platform_ipc_init s) [] []"
| queue: "msg_reach s q t \<Longrightarrow> ipc_queue_host_message h d rx cb cbd s = (0, s') \<Longrightarrow> length d < 128 \<Longrightarrow> msg_reach s' (q @ [(h, d)]) t"
| send: "msg_reach s q t \<Longrightarrow> ipc_platform_send_msg s = Some s' \<Longrightarrow> msg_reach s' q t"
| cmd: "msg_reach s q t \<Longrightarrow> cmd s = Some (r, s1) \<Longrightarrow> keeps_queue s s1 \<Longrightarrow> ipc_platform_do_cmd cmd s = Some s' \<Longrightarrow> msg_reach s' q t"
| command: "msg_reach s q t \<Longrightarrow> msg_reach (host_command v s) q t"
| interrupt: "msg_reach s q t \<Longrightarrow> irq_handler isr s = Some s' \<Longrightarrow>
    isr AND SHIM_ISRD_DONE \<noteq> 0 \<Longrightarrow> ipcdh s AND SHIM_DONE \<noteq> 0 \<Longrightarrow> msg_reach s' q t"
| busy_interrupt: "msg_reach s q t \<Longrightarrow> irq_handler isr s = Some s' \<Longrightarrow> isr AND SHIM_ISRD_DONE = 0 \<Longrightarrow> msg_reach s' q t"
| take_msg: "msg_reach s q t \<Longrightarrow> ipcdh s AND SHIM_BUSY \<noteq> 0 \<Longrightarrow> msg_reach (host_take s) q (t @ [(ipcdl s, outbox s)])"

section \<open>The invariant\<close>

definition content :: "host_ipc \<Rightarrow> nat \<Rightarrow> u32 \<times> u8 list" where
  "content s i = (m_header (message s i), take (unat (tx_size (message s i))) (tx_data (message s i)))"

text \<open>What the host has seen shows a message: the header, and its bytes at the start of the outbox.\<close>

definition shows_msg :: "u32 \<times> u8 list \<Rightarrow> u32 \<times> u8 list \<Rightarrow> bool" where
  "shows_msg m t \<longleftrightarrow> fst t = fst m \<and> take (length (snd m)) (snd t) = snd m"

text \<open>The message the host has not finished with, and the part of the queue still to be taken.\<close>

definition in_flight :: "host_ipc \<Rightarrow> nat list" where
  "in_flight s = (if ipcdh s = 0 then [] else case dsp_msg s of None \<Rightarrow> [] | Some i \<Rightarrow> [i])"

definition to_take :: "host_ipc \<Rightarrow> nat list" where
  "to_take s = (if ipcdh s = SHIM_BUSY then in_flight s else []) @ msg_list s"

definition msg_inv :: "host_ipc \<Rightarrow> (u32 \<times> u8 list) list \<Rightarrow> (u32 \<times> u8 list) list \<Rightarrow> bool" where
  "msg_inv s q t \<longleftrightarrow>
     ipcdh s \<in> {0, SHIM_BUSY, SHIM_DONE} \<and> (ipcdh s \<noteq> 0 \<longrightarrow> dsp_msg s \<noteq> None) \<and>
     distinct (empty_list s @ msg_list s @ in_flight s) \<and> set (empty_list s @ msg_list s @ in_flight s) = {..< MSG_QUEUE_SIZE} \<and>
     (\<forall>i. length (tx_data (message s i)) = 128) \<and> (\<forall>i \<in> set (msg_list s). tx_size (message s i) < SOF_IPC_MSG_MAX_SIZE) \<and>
     length (outbox s) = MAILBOX_OUTBOX_SIZE \<and>
     (ipcdh s = SHIM_BUSY \<longrightarrow> (\<forall>i \<in> set (in_flight s). shows_msg (content s i) (ipcdl s, outbox s))) \<and>
     length t \<le> length q \<and> list_all2 shows_msg (take (length t) q) t \<and> drop (length t) q = map (content s) (to_take s) \<and>
     (msg_list s \<noteq> [] \<longrightarrow> dsp_pending s \<noteq> 0)"

lemma shim_bits:
  "SHIM_BUSY = 0x80000000" "SHIM_DONE = 0x40000000" "SHIM_BUSY \<noteq> 0" "SHIM_DONE \<noteq> 0" "SHIM_BUSY \<noteq> SHIM_DONE"
  "SHIM_DONE AND SHIM_BUSY = 0" "SHIM_BUSY AND SHIM_DONE = 0"
  by (simp_all add: SHIM_BUSY_def SHIM_DONE_def)


lemma inv_start:
  assumes "ipcdh s = 0" "length (outbox s) = MAILBOX_OUTBOX_SIZE" "\<And>i. length (tx_data (message s i)) = 128"
  shows "msg_inv (platform_ipc_init s) [] []"
proof -
  have "fold (\<lambda>i l. i # l) [0 ..< n] [] = rev [0 ..< n]" for n :: nat by (simp add: fold_Cons_rev)
  then show ?thesis using assms by (auto simp: msg_inv_def platform_ipc_init_def in_flight_def to_take_def)
qed

lemma copy_in_take: "length d \<le> length b \<Longrightarrow> take (length d) (copy_in d b) = d" "length d \<le> length b \<Longrightarrow> length (copy_in d b) = length b"
  by (simp_all add: copy_in_def)

lemma queued_message:
  assumes "ipc_queue_host_message h d rx cb cbd s = (0, s')" "length d < 128" "length (tx_data (message s (hd (empty_list s)))) = 128"
  shows "\<exists>i js m. empty_list s = i # js \<and> m_header m = h \<and> take (length d) (tx_data m) = d \<and> length (tx_data m) = 128 \<and>
    tx_size m = of_nat (length d) \<and> unat (tx_size m) = length d \<and>
    s' = s\<lparr>empty_list := js, message := (message s)(i := m), dsp_pending := 1, msg_list := msg_list s @ [i]\<rparr>"
proof (cases "empty_list s")
  case (Cons i js)
  let ?n = "of_nat (length d) :: u32"
  have n: "unat ?n = length d" using assms(2) by (intro unat_of_nat_fits) simp
  define m1 where "m1 = (message s i)\<lparr>m_header := h, tx_size := ?n, rx_size := rx, m_cb_data := cbd, m_cb := cb\<rparr>"
  define m where "m = (if 0 < ?n \<and> ?n < SOF_IPC_MSG_MAX_SIZE then m1\<lparr>tx_data := copy_in d (tx_data m1)\<rparr> else m1)"
  have small: "?n < SOF_IPC_MSG_MAX_SIZE" using n assms(2) by (simp add: word_less_nat_alt SOF_IPC_MSG_MAX_SIZE_def)
  have "s' = s\<lparr>empty_list := js, message := (message s)(i := m), dsp_pending := 1, msg_list := msg_list s @ [i]\<rparr>"
    using assms(1) Cons by (auto simp: ipc_queue_host_message_def msg_get_empty_def Let_def m_def m1_def split: if_splits)
  moreover have "m_header m = h" "tx_size m = ?n" by (simp_all add: m_def m1_def)
  moreover have "take (length d) (tx_data m) = d \<and> length (tx_data m) = 128"
  proof (cases "d = []")
    case True
    then show ?thesis using assms(3) Cons by (simp add: m_def m1_def)
  next
    case False
    then have "0 < ?n" using n by (simp add: word_less_nat_alt)
    then show ?thesis using small assms(2,3) Cons by (simp add: m_def m1_def copy_in_take)
  qed
  ultimately show ?thesis using Cons n by (intro exI [of _ i] exI [of _ js] exI [of _ m]) simp
qed (use assms(1) in \<open>simp add: ipc_queue_host_message_def msg_get_empty_def\<close>)

lemma inv_queue:
  assumes "msg_inv s q t" "ipc_queue_host_message h d rx cb cbd s = (0, s')" "length d < 128"
  shows "msg_inv s' (q @ [(h, d)]) t"
proof -
  have "length (tx_data (message s (hd (empty_list s)))) = 128" using assms(1) by (simp add: msg_inv_def)
  from queued_message [OF assms(2,3) this] obtain i js m where
    s': "s' = s\<lparr>empty_list := js, message := (message s)(i := m), dsp_pending := 1, msg_list := msg_list s @ [i]\<rparr>"
    and e: "empty_list s = i # js" and m: "m_header m = h" "take (length d) (tx_data m) = d" "length (tx_data m) = 128"
      "tx_size m = of_nat (length d)" "unat (tx_size m) = length d"
    by blast
  have fl: "in_flight s' = in_flight s" by (simp add: in_flight_def s')
  have i: "i \<notin> set (msg_list s)" "i \<notin> set (in_flight s)" using assms(1) e by (auto simp: msg_inv_def)
  have "content s' j = content s j" if "j \<noteq> i" for j using that by (simp add: content_def s')
  then have c: "map (content s') (to_take s) = map (content s) (to_take s)" "\<forall>j \<in> set (in_flight s). content s' j = content s j"
    using i by (auto simp: to_take_def split: if_splits) metis+
  have "content s' i = (h, d)" using m by (simp add: content_def s')
  then have tk: "map (content s') (to_take s') = map (content s) (to_take s) @ [(h, d)]"
    using c(1) by (simp add: to_take_def fl) (simp add: s')
  have "tx_size m < SOF_IPC_MSG_MAX_SIZE" using m(5) assms(3) by (simp add: word_less_nat_alt SOF_IPC_MSG_MAX_SIZE_def)
  then show ?thesis using assms(1) fl c(2) tk i e m(3) unfolding msg_inv_def by (auto simp: s')
qed

text \<open>Steps that leave queue, lists, outbox and doorbell alone.\<close>

lemma inv_same:
  assumes "msg_inv s q t" "ipcdh s' = ipcdh s" "dsp_msg s' = dsp_msg s" "empty_list s' = empty_list s" "msg_list s' = msg_list s"
    "message s' = message s" "length (outbox s') = length (outbox s)" "ipcdh s = SHIM_BUSY \<Longrightarrow> outbox s' = outbox s" "ipcdl s' = ipcdl s" "dsp_pending s' = dsp_pending s"
  shows "msg_inv s' q t"
proof -
  have "content s' = content s" "in_flight s' = in_flight s" "to_take s' = to_take s"
    using assms by (simp_all add: fun_eq_iff content_def in_flight_def to_take_def)
  then show ?thesis using assms(1,2,3,4,5,6,7,9,10) assms(8) unfolding msg_inv_def by (cases "ipcdh s = SHIM_BUSY") simp_all
qed

lemma inv_send:
  assumes "msg_inv s q t" "ipc_platform_send_msg s = Some s'"
  shows "msg_inv s' q t"
proof (cases "msg_list s")
  case Nil
  then have s': "s' = s\<lparr>dsp_pending := 0\<rparr>" using assms(2) by (simp add: ipc_platform_send_msg_def)
  have "content s' = content s" "in_flight s' = in_flight s" "to_take s' = to_take s"
    by (simp_all add: fun_eq_iff content_def in_flight_def to_take_def s')
  then show ?thesis using assms(1) Nil unfolding msg_inv_def by (simp add: s')
next
  case (Cons i js)
  show ?thesis
  proof (cases "ipcdh s = 0")
    case False
    then have "s' = s" using assms Cons shim_bits by (auto simp: ipc_platform_send_msg_def msg_inv_def)
    then show ?thesis using assms(1) by simp
  next
    case True
    define bs where "bs = take (unat (tx_size (message s i))) (tx_data (message s i))"
    have sz: "tx_size (message s i) < SOF_IPC_MSG_MAX_SIZE" using assms(1) Cons by (simp add: msg_inv_def)
    then have "\<not> SOF_IPC_MSG_MAX_SIZE < tx_size (message s i)" by simp
    then have s': "s' = s\<lparr>outbox := copy_in bs (outbox s), msg_list := js, dsp_msg := Some i, ipcdl := m_header (message s i), ipcdh := SHIM_BUSY\<rparr>"
      using assms(2) Cons True by (simp add: ipc_platform_send_msg_def mailbox_outbox_write_def bs_def Let_def)
    have l: "length bs \<le> length (outbox s)" using assms(1) sz
      by (simp add: bs_def msg_inv_def MAILBOX_OUTBOX_SIZE_def)
    have c: "content s' = content s" by (simp add: fun_eq_iff content_def s')
    have fl: "in_flight s = []" "in_flight s' = [i]" using True by (simp_all add: in_flight_def s' shim_bits)
    have tt: "to_take s = i # js" "to_take s' = i # js" using True Cons fl by (simp_all add: to_take_def s' shim_bits)
    have "shows_msg (content s i) (ipcdl s', outbox s')" using copy_in_take(1) [OF l] by (simp add: shows_msg_def content_def s' bs_def)
    then show ?thesis using assms(1) Cons True fl c tt copy_in_take(2) [OF l] unfolding msg_inv_def
      by (auto simp: s' shim_bits)
  qed
qed

lemma inv_take:
  assumes "msg_inv s q t" "ipcdh s AND SHIM_BUSY \<noteq> 0"
  shows "msg_inv (host_take s) q (t @ [(ipcdl s, outbox s)])"
proof -
  have b: "ipcdh s = SHIM_BUSY" using assms shim_bits by (auto simp: msg_inv_def)
  then obtain i where i: "dsp_msg s = Some i" using assms(1) shim_bits by (auto simp: msg_inv_def)
  have s': "host_take s = s\<lparr>ipcdh := SHIM_DONE\<rparr>" by (simp add: host_take_def b shim_bits)
  have c: "content (host_take s) = content s" by (simp add: fun_eq_iff content_def s')
  have fl: "in_flight s = [i]" "in_flight (host_take s) = [i]" using b i by (simp_all add: in_flight_def s' shim_bits)
  have tt: "to_take s = i # msg_list s" "to_take (host_take s) = msg_list s" using b fl shim_bits by (simp_all add: to_take_def s')
  have d: "drop (length t) q = content s i # map (content s) (msg_list s)" using assms(1) tt by (simp add: msg_inv_def)
  then have l: "length t < length q" by (metis drop_all linorder_not_le list.distinct(1))
  then have q: "q ! length t = content s i" "drop (Suc (length t)) q = map (content s) (msg_list s)"
    using d by (metis Cons_nth_drop_Suc list.inject)+
  have "shows_msg (content s i) (ipcdl s, outbox s)" using assms(1) b fl by (simp add: msg_inv_def)
  then have "list_all2 shows_msg (take (Suc (length t)) q) (t @ [(ipcdl s, outbox s)])"
    using assms(1) l q(1) by (simp add: take_Suc_conv_app_nth msg_inv_def list_all2_appendI)
  then show ?thesis using assms(1) fl c tt q l i unfolding msg_inv_def by (auto simp: s' shim_bits)
qed

text \<open>The end of a message: its handler with the DONE bit set.\<close>

lemma notify_done:
  assumes "msg_inv s q t" "ipcdh s = SHIM_DONE"
  shows "\<exists>i f c r. dsp_msg s = Some i \<and> tx_size (f (message s i)) = tx_size (message s i) \<and> tx_data (f (message s i)) = tx_data (message s i) \<and>
    m_header (f (message s i)) = m_header (message s i) \<and>
    do_notify s = Some (s\<lparr>message := (message s)(i := f (message s i)), cb_calls := c, empty_list := empty_list s @ [i], ipcdh := 0, imrd := r\<rparr>)"
proof -
  obtain i where i: "dsp_msg s = Some i" using assms shim_bits by (auto simp: msg_inv_def)
  then have fl: "in_flight s = [i]" using assms(2) shim_bits by (simp add: in_flight_def)
  then have n: "i \<notin> set (empty_list s) \<union> set (msg_list s)" using assms(1) by (auto simp: msg_inv_def)
  define m where "m = message s i"
  define b where "b = (rx_size m \<noteq> 0 \<and> rx_size m < SOF_IPC_MSG_MAX_SIZE)"
  define f where "f = (\<lambda>m :: ipc_msg. if b then m\<lparr>rx_data := copy_in (mailbox_inbox_read (unat (rx_size m)) s) (rx_data m)\<rparr> else m)"
  define c where "c = (if m_cb (f m) \<noteq> 0 then cb_calls s @ [(m_cb (f m), m_cb_data (f m), rx_data (f m))] else cb_calls s)"
  have "do_notify s = Some (s\<lparr>message := (message s)(i := f (message s i)), cb_calls := c, empty_list := empty_list s @ [i], ipcdh := 0, imrd := imrd s AND NOT SHIM_ISRD_DONE\<rparr>)"
    using n by (simp add: do_notify_def i Let_def c_def f_def b_def m_def assms(2))
  moreover have "tx_size (f (message s i)) = tx_size (message s i)" "tx_data (f (message s i)) = tx_data (message s i)" "m_header (f (message s i)) = m_header (message s i)"
    by (simp_all add: f_def)
  ultimately show ?thesis using i by blast
qed

lemma inv_notify:
  assumes "msg_inv s q t" "ipcdh s = SHIM_DONE"
  shows "\<exists>s'. do_notify s = Some s' \<and> msg_inv s' q t \<and> ipcdh s' = 0 \<and> msg_list s' = msg_list s"
proof -
  from notify_done [OF assms] obtain i f c r where i: "dsp_msg s = Some i"
    and f: "tx_size (f (message s i)) = tx_size (message s i)" "tx_data (f (message s i)) = tx_data (message s i)" "m_header (f (message s i)) = m_header (message s i)"
    and n: "do_notify s = Some (s\<lparr>message := (message s)(i := f (message s i)), cb_calls := c, empty_list := empty_list s @ [i], ipcdh := 0, imrd := r\<rparr>)"
    by blast
  define s' where "s' = s\<lparr>message := (message s)(i := f (message s i)), cb_calls := c, empty_list := empty_list s @ [i], ipcdh := 0, imrd := r\<rparr>"
  have ct: "content s' = content s" using f by (auto simp: fun_eq_iff content_def s'_def)
  have fl: "in_flight s = [i]" "in_flight s' = []" using i assms(2) shim_bits by (simp_all add: in_flight_def s'_def)
  have tt: "to_take s = msg_list s" "to_take s' = msg_list s" using assms(2) shim_bits by (simp_all add: to_take_def s'_def)
  have "msg_inv s' q t" using assms(1) fl ct tt f shim_bits unfolding msg_inv_def by (auto simp: s'_def)
  then show ?thesis using n by (simp add: s'_def)
qed

lemma done_bit: "msg_inv s q t \<Longrightarrow> ipcdh s AND SHIM_DONE \<noteq> 0 \<longleftrightarrow> ipcdh s = SHIM_DONE"
  using shim_bits by (auto simp: msg_inv_def)

lemma irq_done:
  assumes "msg_inv s q t" "ipcdh s = SHIM_DONE" "isr AND SHIM_ISRD_DONE \<noteq> 0"
  shows "\<exists>s'. irq_handler isr s = Some s' \<and> msg_inv s' q t \<and> ipcdh s' = 0 \<and> msg_list s' = msg_list s"
proof -
  let ?s = "s\<lparr>imrd := imrd s OR SHIM_ISRD_DONE\<rparr>"
  have "msg_inv ?s q t" by (rule inv_same [OF assms(1)]) simp_all
  moreover have "ipcdh ?s = SHIM_DONE" using assms(2) by simp
  ultimately obtain s1 where s1: "do_notify ?s = Some s1" "msg_inv s1 q t" "ipcdh s1 = 0" "msg_list s1 = msg_list s"
    using inv_notify by fastforce
  define s' where "s' = (if isr AND SHIM_ISRD_BUSY \<noteq> 0 then s1\<lparr>imrd := imrd s1 OR SHIM_ISRD_BUSY, host_msg := ipcxl s1, host_pending := 1\<rparr> else s1)"
  have "irq_handler isr s = Some s'" using s1(1) assms(3) by (simp add: irq_handler_def s'_def Let_def)
  moreover have "msg_inv s' q t" by (rule inv_same [OF s1(2)]) (simp_all add: s'_def)
  ultimately show ?thesis using s1 by (auto simp: s'_def)
qed

lemma irq_busy: "irq_handler isr s = Some s' \<Longrightarrow> isr AND SHIM_ISRD_DONE = 0 \<Longrightarrow> msg_inv s q t \<Longrightarrow> msg_inv s' q t"
  by (rule inv_same [where s = s]) (auto simp: irq_handler_def Let_def split: if_splits)

lemma reach_inv: "msg_reach s q t \<Longrightarrow> msg_inv s q t"
proof (induction rule: msg_reach.induct)
  case (interrupt s q t isr s')
  then show ?case using irq_done done_bit by fastforce
next
  case (cmd s q t cmd r s1 s')
  from cmd.IH show ?case by (rule inv_same) (use cmd.hyps in \<open>auto simp: ipc_platform_do_cmd_def Let_def keeps_queue_def\<close>)
next
  case (command s q t v)
  then show ?case by (elim inv_same) (simp_all add: host_command_def)
qed (auto intro: inv_start inv_queue inv_send inv_take irq_busy)

section \<open>What the protocol gives\<close>

text \<open>
  C13: under the doorbell protocol what the host takes is what was queued, in order, each message with its
  header and its bytes; the rest of the queue stands in the message list, but for the message in the
  outbox. The messages have less than 128 bytes; steps of firmware, interrupts and host come in any order,
  also commands of the host that answer in the outbox, as long as they do not while a message stands in it.
\<close>
theorem msg_fifo:
  assumes "msg_reach s q t"
  shows "length t \<le> length q \<and> list_all2 shows_msg (take (length t) q) t \<and> drop (length t) q = map (content s) (to_take s)"
  using reach_inv [OF assms] by (simp add: msg_inv_def)

text \<open>
  C14: no message is lost or used twice: the twelve messages are, each once, on the empty list, on the
  message list or with the host, and the handler never appends one that is on a list.
\<close>
theorem msg_conserved:
  assumes "msg_reach s q t"
  shows "distinct (empty_list s @ msg_list s @ in_flight s) \<and> set (empty_list s @ msg_list s @ in_flight s) = {..< 12} \<and>
    (ipcdh s AND SHIM_DONE \<noteq> 0 \<longrightarrow> (\<forall>isr. isr AND SHIM_ISRD_DONE \<noteq> 0 \<longrightarrow> irq_handler isr s \<noteq> None))"
proof -
  note inv = reach_inv [OF assms]
  have "irq_handler isr s \<noteq> None" if "ipcdh s AND SHIM_DONE \<noteq> 0" "isr AND SHIM_ISRD_DONE \<noteq> 0" for isr
    using irq_done [OF inv _ that(2)] done_bit [OF inv] that(1) by auto
  then show ?thesis using inv by (auto simp: msg_inv_def MSG_QUEUE_SIZE_def)
qed

text \<open>
  C36: queueing fails, with -EBUSY and no effect, exactly when twelve messages are waiting or with the host.
\<close>
theorem msg_ebusy:
  assumes "msg_reach s q t"
  shows "fst (ipc_queue_host_message h d rx cb cbd s) \<in> {0, - EBUSY} \<and>
    (fst (ipc_queue_host_message h d rx cb cbd s) = - EBUSY \<longleftrightarrow> length (msg_list s) + length (in_flight s) = 12) \<and>
    (fst (ipc_queue_host_message h d rx cb cbd s) = - EBUSY \<longrightarrow> snd (ipc_queue_host_message h d rx cb cbd s) = s)"
proof -
  have inv: "distinct (empty_list s @ msg_list s @ in_flight s)" "set (empty_list s @ msg_list s @ in_flight s) = {..< 12}"
    using reach_inv [OF assms] by (simp_all add: msg_inv_def MSG_QUEUE_SIZE_def)
  have "length (empty_list s @ msg_list s @ in_flight s) = card (set (empty_list s @ msg_list s @ in_flight s))"
    using distinct_card [OF inv(1)] by simp
  then have "length (empty_list s) + length (msg_list s) + length (in_flight s) = 12" unfolding inv(2) by simp
  then show ?thesis by (cases "empty_list s") (simp_all add: ipc_queue_host_message_def msg_get_empty_def Let_def)
qed

section \<open>Delivery\<close>

text \<open>One round: the firmware looks at its queues, the host takes the message, the handler runs.\<close>

definition round_of :: "host_ipc \<Rightarrow> (host_ipc \<times> (u32 \<times> u8 list)) option" where
  "round_of s = do {
     (_, s) \<leftarrow> ipc_process_msg_queue (\<lambda>s. Some (0, s)) s;
     let seen = (ipcdl s, outbox s);
     s \<leftarrow> irq_handler SHIM_ISRD_DONE (host_take s);
     Some (s, seen) }"

fun rounds :: "nat \<Rightarrow> host_ipc \<Rightarrow> (host_ipc \<times> (u32 \<times> u8 list) list) option" where
  "rounds 0 s = Some (s, [])"
| "rounds (Suc k) s = do { (s, x) \<leftarrow> round_of s; (s, xs) \<leftarrow> rounds k s; Some (s, x # xs) }"

lemma round_delivers:
  assumes "msg_inv s q t" "ipcdh s = 0" "msg_list s = i # js"
  shows "\<exists>s' x. round_of s = Some (s', x) \<and> msg_inv s' q (t @ [x]) \<and> ipcdh s' = 0 \<and> msg_list s' = js"
proof -
  define s1 where "s1 = (if host_pending s \<noteq> 0 then s\<lparr>host_pending := 0, ipcxh := (ipcxh s AND NOT SHIM_BUSY) OR SHIM_DONE, imrd := imrd s AND NOT SHIM_ISRD_BUSY\<rparr> else s)"
  have i1: "msg_inv s1 q t" by (rule inv_same [OF assms(1)]) (simp_all add: s1_def)
  have d1: "ipcdh s1 = 0" "msg_list s1 = i # js" "dsp_pending s1 \<noteq> 0" using assms by (simp_all add: s1_def msg_inv_def)
  have sz: "\<not> SOF_IPC_MSG_MAX_SIZE < tx_size (message s1 i)" using i1 d1 by (auto simp: msg_inv_def)
  define s2 where "s2 = s1\<lparr>outbox := copy_in (take (unat (tx_size (message s1 i))) (tx_data (message s1 i))) (outbox s1), msg_list := js, dsp_msg := Some i,
    ipcdl := m_header (message s1 i), ipcdh := SHIM_BUSY\<rparr>"
  have "ipc_platform_send_msg s1 = Some s2" using d1 sz by (simp add: ipc_platform_send_msg_def mailbox_outbox_write_def Let_def s2_def)
  moreover have "(if host_pending s \<noteq> 0 then ipc_platform_do_cmd (\<lambda>s. Some (0, s)) s else Some s) = Some s1"
    by (simp add: ipc_platform_do_cmd_def Let_def s1_def)
  ultimately have i2: "msg_inv s2 q t" and p: "ipc_process_msg_queue (\<lambda>s. Some (0, s)) s = Some (0, s2)"
    using inv_send [OF i1] d1(3) by (simp_all add: ipc_process_msg_queue_def)
  let ?x = "(ipcdl s2, outbox s2)"
  have "msg_inv (host_take s2) q (t @ [?x])" "ipcdh (host_take s2) = SHIM_DONE" "msg_list (host_take s2) = js"
    using inv_take [OF i2] shim_bits by (simp_all add: s2_def host_take_def)
  moreover have "SHIM_ISRD_DONE AND SHIM_ISRD_DONE \<noteq> 0" by (simp add: SHIM_ISRD_DONE_def)
  ultimately obtain s' where "irq_handler SHIM_ISRD_DONE (host_take s2) = Some s'" "msg_inv s' q (t @ [?x])" "ipcdh s' = 0" "msg_list s' = js"
    using irq_done by metis
  then show ?thesis using p by (auto simp: round_of_def)
qed

lemma rounds_deliver:
  "msg_inv s q t \<Longrightarrow> ipcdh s = 0 \<Longrightarrow> \<exists>s' xs. rounds (length (msg_list s)) s = Some (s', xs) \<and> msg_list s' = [] \<and> msg_inv s' q (t @ xs) \<and> ipcdh s' = 0"
proof (induction "msg_list s" arbitrary: s t)
  case Nil
  then show ?case by simp
next
  case (Cons i js)
  obtain s1 x where r: "round_of s = Some (s1, x)" "msg_inv s1 q (t @ [x])" "ipcdh s1 = 0" "msg_list s1 = js"
    using round_delivers [OF Cons.prems Cons.hyps(2) [symmetric]] by blast
  from Cons.hyps(1) [OF r(4) [symmetric] r(2,3)] obtain s' xs where
    "rounds (length js) s1 = Some (s', xs)" "msg_list s' = []" "msg_inv s' q ((t @ [x]) @ xs)" "ipcdh s' = 0" by (auto simp: r(4))
  then show ?case using r(1) Cons.hyps(2) by (auto simp flip: Cons.hyps(2))
qed

text \<open>
  C16: when the doorbell is free and the host answers, as many rounds as messages wait deliver them all:
  then the host has taken everything that was ever queued.
\<close>
theorem msgs_delivered:
  assumes "msg_reach s q t" "ipcdh s = 0"
  shows "\<exists>s' xs. rounds (length (msg_list s)) s = Some (s', xs) \<and> msg_list s' = [] \<and> list_all2 shows_msg q (t @ xs)"
proof -
  obtain s' xs where s': "rounds (length (msg_list s)) s = Some (s', xs)" "msg_list s' = []" "msg_inv s' q (t @ xs)" "ipcdh s' = 0"
    using rounds_deliver [OF reach_inv [OF assms(1)] assms(2)] by blast
  have "to_take s' = []" using s'(2,4) shim_bits by (simp add: to_take_def)
  then have l: "length (t @ xs) = length q" using s'(3) unfolding msg_inv_def by simp
  have "list_all2 shows_msg (take (length (t @ xs)) q) (t @ xs)" using s'(3) unfolding msg_inv_def by (elim conjE)
  then have "list_all2 shows_msg q (t @ xs)" unfolding l by simp
  then show ?thesis using s'(1,2) by blast
qed

section \<open>When the protocol is not kept\<close>

text \<open>The message stays in \<open>dsp_msg\<close>: a second DONE for it appends it to the empty list again.\<close>

lemma done_twice_faults: "do_notify s = Some s' \<Longrightarrow> dsp_msg s \<noteq> None \<Longrightarrow> do_notify s' = None"
  by (auto simp: do_notify_def Let_def split: option.splits if_splits bind_splits)

text \<open>
  A command that answers in the outbox while a message stands in it destroys the message: a run of the
  queue's own steps but for that command, after which the host takes other bytes.
\<close>

lemma reply_over_message:
  assumes "ipcdh s = SHIM_BUSY" "outbox s = d @ rest" "length d = 4"
  shows "\<exists>s'. ipc_platform_do_cmd (\<lambda>s. Some (0, mailbox_outbox_write [x0, x1, x2, x3] s)) s = Some s' \<and> ipcdh s' = SHIM_BUSY \<and>
    take 4 (outbox (host_take s')) = [x0, x1, x2, x3]"
  using assms by (simp add: ipc_platform_do_cmd_def mailbox_outbox_write_def copy_in_def host_take_def Let_def)

text \<open>The bound is exclusive: a message of 128 bytes, which would fit, is queued without its bytes.\<close>

lemma full_message_not_copied:
  assumes "length d = 128" "empty_list s = i # js"
  shows "\<exists>s'. ipc_queue_host_message h d rx cb cbd s = (0, s') \<and> tx_size (message s' i) = 128 \<and> tx_data (message s' i) = tx_data (message s i)"
  using assms by (simp add: ipc_queue_host_message_def msg_get_empty_def Let_def SOF_IPC_MSG_MAX_SIZE_def)

section \<open>Witnesses\<close>

definition msg_demo0 :: host_ipc where
  "msg_demo0 = platform_ipc_init \<lparr>host_msg = 0, dsp_msg = None, host_pending = 0, dsp_pending = 0, msg_list = [], empty_list = [],
     message = (\<lambda>_. \<lparr>m_header = 0, tx_size = 0, tx_data = replicate 128 0, rx_size = 0, rx_data = replicate 128 0, m_cb = 0, m_cb_data = 0\<rparr>),
     outbox = replicate MAILBOX_OUTBOX_SIZE 0, inbox = replicate 1024 0, ipcxl = 0, ipcxh = 0, ipcdl = 0, ipcdh = 0, imrd = 3, cb_calls = []\<rparr>"

text \<open>Two messages queued.\<close>

definition msg_demo :: host_ipc where
  "msg_demo = snd (ipc_queue_host_message 0x600a0000 [3, 4, 5] 0 0 0 (snd (ipc_stream_send_notification [1, 2] msg_demo0)))"

lemma msg_demo_reach: "msg_reach msg_demo [(0x600a0000, [1, 2]), (0x600a0000, [3, 4, 5])] []"
proof -
  have e: "empty_list msg_demo0 = [11, 10, 9, 8, 7, 6, 5, 4, 3, 2, 1, 0]"
    by (simp add: msg_demo0_def platform_ipc_init_def MSG_QUEUE_SIZE_def upt_rec)
  have h: "SOF_IPC_GLB_STREAM_MSG OR SOF_IPC_STREAM_POSITION = 0x600a0000" by (simp add: SOF_IPC_GLB_STREAM_MSG_def SOF_IPC_STREAM_POSITION_def)
  have "msg_reach msg_demo0 [] []" unfolding msg_demo0_def by (rule msg_reach.start) simp_all
  moreover obtain s1 where s1: "ipc_queue_host_message 0x600a0000 [1, 2] 0 0 0 msg_demo0 = (0, s1)" "empty_list s1 = [10, 9, 8, 7, 6, 5, 4, 3, 2, 1, 0]"
    by (simp add: ipc_queue_host_message_def msg_get_empty_def e Let_def)
  ultimately have "msg_reach s1 ([] @ [(0x600a0000, [1, 2])]) []" by (elim msg_reach.queue) simp_all
  moreover obtain s2 where s2: "ipc_queue_host_message 0x600a0000 [3, 4, 5] 0 0 0 s1 = (0, s2)"
    by (simp add: ipc_queue_host_message_def msg_get_empty_def s1 Let_def)
  ultimately have "msg_reach s2 (([] @ [(0x600a0000, [1, 2])]) @ [(0x600a0000, [3, 4, 5])]) []" by (elim msg_reach.queue) simp_all
  then show ?thesis using s1 s2 by (simp add: msg_demo_def ipc_stream_send_notification_def h)
qed

lemma msg_fifo_witness: "map (content msg_demo) (to_take msg_demo) = [(0x600a0000, [1, 2]), (0x600a0000, [3, 4, 5])]"
  using msg_fifo [OF msg_demo_reach] by simp

lemma msg_conserved_witness: "distinct (empty_list msg_demo @ msg_list msg_demo @ in_flight msg_demo)"
  using msg_conserved [OF msg_demo_reach] by simp

lemma msg_demo_lists: "msg_list msg_demo = [11, 10]" "ipcdh msg_demo = 0" "in_flight msg_demo = []"
  by (simp_all add: msg_demo_def msg_demo0_def ipc_stream_send_notification_def ipc_queue_host_message_def msg_get_empty_def
      platform_ipc_init_def MSG_QUEUE_SIZE_def upt_rec Let_def in_flight_def)

lemma msg_ebusy_witness: "fst (ipc_queue_host_message 1 [] 0 0 0 msg_demo) = 0"
  using msg_ebusy [OF msg_demo_reach, of 1 "[]" 0 0 0] by (auto simp: msg_demo_lists)

lemma msgs_delivered_witness:
  "\<exists>s' xs. rounds 2 msg_demo = Some (s', xs) \<and> list_all2 shows_msg [(0x600a0000, [1, 2]), (0x600a0000, [3, 4, 5])] xs"
  using msgs_delivered [OF msg_demo_reach msg_demo_lists(2)] by (auto simp: msg_demo_lists numeral_2_eq_2)

end
