(* ===== verification/Reef_Dma.thy ===== *)
theory Reef_Dma
  imports Reef_Audio
begin

text \<open>
  The interface of a DMA controller, src/src/include/reef/dma.h: scatter-gather elements, the channel
  configuration and the operations table every driver fills in, and the transfers between a host's
  scatter-gather buffer and DSP memory of src/src/ipc/dma-copy.c. The controller itself and the wait for
  its interrupt are behind the table and a function \<open>wait\<close>, as for the C code.
\<close>

section \<open>Configuration and operations\<close>

record dma_sg_elem =
  e_src :: u32
  e_dest :: u32
  e_size :: u32

abbreviation (input) "DMA_DIR_HMEM_TO_LMEM \<equiv> 1 :: u32"
abbreviation (input) "DMA_DIR_LMEM_TO_HMEM \<equiv> 2 :: u32"
abbreviation (input) "DMA_DIR_MEM_TO_DEV \<equiv> 3 :: u32"
abbreviation (input) "DMA_DIR_DEV_TO_MEM \<equiv> 4 :: u32"

record dma_sg_config =
  src_width :: u32
  dest_width :: u32
  dma_direction :: u32
  src_dev :: u32
  dest_dev :: u32
  cyclic :: u32
  sg_elems :: "dma_sg_elem list"

text \<open>A call back is named by a number.\<close>

record 'w dma_ops =
  channel_get :: "'w \<Rightarrow> int \<times> 'w"
  channel_put :: "int \<Rightarrow> 'w \<Rightarrow> 'w"
  dma_start :: "int \<Rightarrow> 'w \<Rightarrow> int \<times> 'w"
  dma_stop :: "int \<Rightarrow> int \<Rightarrow> 'w \<Rightarrow> int \<times> 'w"
  dma_pause :: "int \<Rightarrow> 'w \<Rightarrow> int \<times> 'w"
  dma_release :: "int \<Rightarrow> 'w \<Rightarrow> int \<times> 'w"
  set_config :: "int \<Rightarrow> dma_sg_config \<Rightarrow> 'w \<Rightarrow> int \<times> 'w"
  set_cb :: "int \<Rightarrow> nat \<Rightarrow> u32 \<Rightarrow> 'w \<Rightarrow> 'w"

definition dma_sg_get_size :: "dma_sg_config \<Rightarrow> u32" where
  "dma_sg_get_size sg = fold (\<lambda>e n. n + e_size e) (sg_elems sg) 0"

section \<open>Copies to and from the host\<close>

definition HOST_PAGE_SIZE :: u32 where "HOST_PAGE_SIZE = 4096"

text \<open>The element with a byte offset and the offset in it; \<open>i\<close> is the index of the element.\<close>

fun sg_get_elem_at :: "dma_sg_elem list \<Rightarrow> s32 \<Rightarrow> nat \<Rightarrow> (nat \<times> s32) option" where
  "sg_get_elem_at [] off i = None"
| "sg_get_elem_at (e # es) off i =
     (if 0 \<le>s off \<and> off < e_size e then Some (i, off) else sg_get_elem_at es (off - e_size e) (Suc i))"

text \<open>
  The loop over the pages, to the host when \<open>up\<close>. After the last element the C list gives its head, of
  which the address is read before the size is tested: \<open>past\<close> is what is read there. \<open>src_dev\<close> and \<open>dest_dev\<close>, which the code
  leaves unset, are 0.
\<close>

fun copy_pages :: "nat \<Rightarrow> bool \<Rightarrow> 'w dma_ops \<Rightarrow> ('w \<Rightarrow> int \<times> 'w) \<Rightarrow> dma_sg_elem \<Rightarrow> dma_sg_elem list \<Rightarrow> int \<Rightarrow> u32 \<Rightarrow>
    nat \<Rightarrow> dma_sg_elem \<Rightarrow> s32 \<Rightarrow> s32 \<Rightarrow> 'w \<Rightarrow> (int \<times> 'w) option" where
  "copy_pages 0 up D wait past host chan local_ptr i e left host_offset w = None"
| "copy_pages (Suc n) up D wait past host chan local_ptr i e left host_offset w =
     (if 0 <s left then
        (let cfg = \<lparr>src_width = 4, dest_width = 4, dma_direction = (if up then DMA_DIR_LMEM_TO_HMEM else DMA_DIR_HMEM_TO_LMEM),
                    src_dev = 0, dest_dev = 0, cyclic = 0, sg_elems = [e]\<rparr>;
             (_, w) = set_config D chan cfg w;
             (_, w) = dma_start D chan w;
             (err, w) = wait w
         in if err < 0 then Some (- EIO, channel_put D chan w)
            else
              (let left = left - e_size e;
                   host_offset = host_offset + e_size e;
                   i = Suc i;
                   h = (if i < length host then host ! i else past);
                   e = (if up then e\<lparr>e_dest := e_dest h, e_src := local_ptr + e_size e\<rparr>
                        else e\<lparr>e_src := e_src h, e_dest := local_ptr + e_size e\<rparr>);
                   e = e\<lparr>e_size := (if HOST_PAGE_SIZE \<le>s left then HOST_PAGE_SIZE else left)\<rparr>
               in copy_pages n up D wait past host chan local_ptr i e left host_offset w))
      else Some (sint host_offset, channel_put D chan w))"

definition dma_copy_to_host :: "nat \<Rightarrow> 'w dma_ops \<Rightarrow> ('w \<Rightarrow> int \<times> 'w) \<Rightarrow> dma_sg_elem \<Rightarrow> dma_sg_elem list \<Rightarrow> s32 \<Rightarrow> u32 \<Rightarrow> s32 \<Rightarrow>
    'w \<Rightarrow> (int \<times> 'w) option" where
  "dma_copy_to_host n D wait past host host_offset local_ptr len w =
     (let (chan, w) = channel_get D w in
      if chan < 0 then Some (chan, w)
      else case sg_get_elem_at host host_offset 0 of
        None \<Rightarrow> Some (- EINVAL, w)
      | Some (i, off) \<Rightarrow>
          copy_pages n True D wait past host chan local_ptr i
            \<lparr>e_src = local_ptr, e_dest = e_dest (host ! i) + off, e_size = HOST_PAGE_SIZE - off\<rparr> len host_offset w)"

definition dma_copy_from_host :: "nat \<Rightarrow> 'w dma_ops \<Rightarrow> ('w \<Rightarrow> int \<times> 'w) \<Rightarrow> dma_sg_elem \<Rightarrow> dma_sg_elem list \<Rightarrow> s32 \<Rightarrow> u32 \<Rightarrow> s32 \<Rightarrow>
    'w \<Rightarrow> (int \<times> 'w) option" where
  "dma_copy_from_host n D wait past host host_offset local_ptr len w =
     (let (chan, w) = channel_get D w in
      if chan < 0 then Some (chan, w)
      else case sg_get_elem_at host host_offset 0 of
        None \<Rightarrow> Some (- EINVAL, w)
      | Some (i, off) \<Rightarrow>
          copy_pages n False D wait past host chan local_ptr i
            \<lparr>e_src = e_src (host ! i) + off, e_dest = local_ptr, e_size = HOST_PAGE_SIZE - off\<rparr> len host_offset w)"

section \<open>Shared by the endpoints\<close>

text \<open>\<open>dma_get\<close> of platform/baytrail/dma.c: the two controllers of the platform.\<close>

definition dma_get :: "u32 \<Rightarrow> nat option" where
  "dma_get i = (if i = 0 then Some 0 else if i = 1 then Some 1 else None)"

definition sizeof_dma_sg_elem :: u32 where "sizeof_dma_sg_elem = 20"

definition zero_dev :: "ipc_comp \<Rightarrow> comp_dev" where
  "zero_dev c = \<lparr>state = 0, is_endpoint = 0, pipeline_of = 0, period_frames = 0, dev_period_bytes = 0, drv = 0, bsource_list = [], bsink_list = [], priv = 0, comp = c\<rparr>"

definition zero_elem :: dma_sg_elem where "zero_elem = \<lparr>e_src = 0, e_dest = 0, e_size = 0\<rparr>"

definition zero_cfg :: dma_sg_config where
  "zero_cfg = \<lparr>src_width = 0, dest_width = 0, dma_direction = 0, src_dev = 0, dest_dev = 0, cyclic = 0, sg_elems = []\<rparr>"

text \<open>Allocation and release over the audio world; \<open>free_all\<close> is the loop over a list of objects.\<close>

definition zalloc :: "u32 \<Rightarrow> 'a world_scheme \<Rightarrow> (u32 \<times> 'a world_scheme) option" where
  "zalloc n w = do { (a, h, m) \<leftarrow> rzalloc RZONE_RUNTIME RFLAGS_NONE n (mm w, wmem w); Some (a, w\<lparr>mm := h, wmem := m\<rparr>) }"

definition free_one :: "u32 \<Rightarrow> 'a world_scheme \<Rightarrow> 'a world_scheme option" where
  "free_one a w = do { h \<leftarrow> rfree a (mm w); Some (w\<lparr>mm := h\<rparr>) }"

fun free_all :: "u32 list \<Rightarrow> 'a world_scheme \<Rightarrow> 'a world_scheme option" where
  "free_all [] w = Some w"
| "free_all (a # as) w = do { w \<leftarrow> free_one a w; free_all as w }"

end
