(* ===== verification/Reef_Ssp.thy ===== *)
theory Reef_Ssp
  imports Reef_Audio
begin

text \<open>
  The serial ports: src/src/drivers/ssp.c, include/reef/ssp.h, the interface include/reef/dai.h and the
  table of ports of platform/baytrail/dai.c. A register reads what was last written to it. A lock is a
  real one, also on this single core: taking one that is held never returns, which is the fault \<open>None\<close>.
  The drain work runs while the trigger waits for it, or, when the wait times out first, as a later step.
\<close>

section \<open>Registers\<close>

definition SSCR0 :: u32 where "SSCR0 = 0x00"
definition SSCR1 :: u32 where "SSCR1 = 0x04"
definition SSDR :: u32 where "SSDR = 0x10"
definition SSPSP :: u32 where "SSPSP = 0x2C"
definition SFIFOTT :: u32 where "SFIFOTT = 0x6C"

definition SSCR0_DSIZE :: "u32 \<Rightarrow> u32" where "SSCR0_DSIZE x = x - 1"
definition SSCR0_PSP :: u32 where "SSCR0_PSP = push_bit 4 3"
definition SSCR0_ECS :: u32 where "SSCR0_ECS = push_bit 6 1"
definition SSCR0_SSE :: u32 where "SSCR0_SSE = push_bit 7 1"
definition SSCR0_SCR :: "u32 \<Rightarrow> u32" where "SSCR0_SCR x = push_bit 8 x"
definition SSCR0_EDSS :: u32 where "SSCR0_EDSS = push_bit 20 1"
definition SSCR0_NCS :: u32 where "SSCR0_NCS = push_bit 21 1"
definition SSCR0_ACS :: u32 where "SSCR0_ACS = push_bit 30 1"
definition SSCR0_MOD :: u32 where "SSCR0_MOD = push_bit 31 1"
definition SSCR1_LBM :: u32 where "SSCR1_LBM = push_bit 2 1"
definition SSCR1_TX :: "u32 \<Rightarrow> u32" where "SSCR1_TX x = push_bit 6 (x - 1)"
definition SSCR1_RX :: "u32 \<Rightarrow> u32" where "SSCR1_RX x = push_bit 10 (x - 1)"
definition SSCR1_RSRE :: u32 where "SSCR1_RSRE = push_bit 20 1"
definition SSCR1_TSRE :: u32 where "SSCR1_TSRE = push_bit 21 1"
definition SSCR1_TRAIL :: u32 where "SSCR1_TRAIL = push_bit 22 1"
definition SSCR1_RWOT :: u32 where "SSCR1_RWOT = push_bit 23 1"
definition SSCR1_SFRMDIR :: u32 where "SSCR1_SFRMDIR = push_bit 24 1"
definition SSCR1_SCLKDIR :: u32 where "SSCR1_SCLKDIR = push_bit 25 1"
definition SSCR1_SCFR :: u32 where "SSCR1_SCFR = push_bit 28 1"
definition SSPSP_SCMODE :: "u32 \<Rightarrow> u32" where "SSPSP_SCMODE x = x"
definition SSPSP_SFRMP :: u32 where "SSPSP_SFRMP = push_bit 2 1"
definition SSPSP_DMYSTRT :: "u32 \<Rightarrow> u32" where "SSPSP_DMYSTRT x = push_bit 7 x"
definition SSPSP_SFRMDLY :: "u32 \<Rightarrow> u32" where "SSPSP_SFRMDLY x = push_bit 9 x"
definition SSPSP_SFRMWDTH :: "u32 \<Rightarrow> u32" where "SSPSP_SFRMWDTH x = push_bit 16 x"
definition SSPSP_FSRT :: u32 where "SSPSP_FSRT = push_bit 25 1"
definition SFIFOTT_TX :: "u32 \<Rightarrow> u32" where "SFIFOTT_TX x = x - 1"
definition SFIFOTT_RX :: "u32 \<Rightarrow> u32" where "SFIFOTT_RX x = push_bit 16 (x - 1)"

lemmas ssp_bits = SSCR0_DSIZE_def SSCR0_PSP_def SSCR0_ECS_def SSCR0_SSE_def SSCR0_SCR_def SSCR0_EDSS_def SSCR0_NCS_def SSCR0_ACS_def SSCR0_MOD_def
  SSCR1_LBM_def SSCR1_TX_def SSCR1_RX_def SSCR1_RSRE_def SSCR1_TSRE_def SSCR1_TRAIL_def SSCR1_RWOT_def SSCR1_SFRMDIR_def SSCR1_SCLKDIR_def SSCR1_SCFR_def
  SSPSP_SCMODE_def SSPSP_SFRMP_def SSPSP_DMYSTRT_def SSPSP_SFRMDLY_def SSPSP_SFRMWDTH_def SSPSP_FSRT_def SFIFOTT_TX_def SFIFOTT_RX_def

section \<open>State\<close>

definition SSP_STATE_INIT :: u32 where "SSP_STATE_INIT = 0"
definition SSP_STATE_RUNNING :: u32 where "SSP_STATE_RUNNING = 1"
definition SSP_STATE_IDLE :: u32 where "SSP_STATE_IDLE = 2"
definition SSP_STATE_DRAINING :: u32 where "SSP_STATE_DRAINING = 3"
definition SSP_STATE_PAUSING :: u32 where "SSP_STATE_PAUSING = 4"
definition SSP_STATE_PAUSED :: u32 where "SSP_STATE_PAUSED = 5"

lemmas ssp_states = SSP_STATE_INIT_def SSP_STATE_RUNNING_def SSP_STATE_IDLE_def SSP_STATE_DRAINING_def SSP_STATE_PAUSING_def SSP_STATE_PAUSED_def

record ssp_params =
  ssp_comp_id :: u32
  ssp_mclk :: u32
  ssp_bclk :: u32
  ssp_id :: u16
  ssp_mode :: u16
  ssp_num_slots :: u16
  ssp_frame_width :: u16
  ssp_clk_id :: u16
  ssp_format :: u16

record dai_fifo_data =
  f_offset :: u32
  f_handshake :: u32

text \<open>\<open>struct dai\<close> with the private data of the port.\<close>

record ssp_dai =
  d_type :: u32
  d_index :: u32
  d_base :: u32
  d_irq :: u32
  d_fifo :: "dai_fifo_data list"
  d_config :: ssp_params
  sv_sscr0 :: u32
  sv_sscr1 :: u32
  sv_psp :: u32
  s_lock :: bool
  s_state :: "u32 list"
  drain_work :: bool
  drain_complete :: bool
  regs :: "u32 \<Rightarrow> u32"

definition ssp_write :: "u32 \<Rightarrow> u32 \<Rightarrow> ssp_dai \<Rightarrow> ssp_dai" where
  "ssp_write r v s = s\<lparr>regs := (regs s)(r := v)\<rparr>"

definition ssp_read :: "u32 \<Rightarrow> ssp_dai \<Rightarrow> u32" where
  "ssp_read r s = regs s r"

definition ssp_update_bits :: "u32 \<Rightarrow> u32 \<Rightarrow> u32 \<Rightarrow> ssp_dai \<Rightarrow> ssp_dai" where
  "ssp_update_bits r m v s = ssp_write r ((ssp_read r s AND NOT m) OR (v AND m)) s"

definition spin_lock :: "ssp_dai \<Rightarrow> ssp_dai option" where
  "spin_lock s = (if s_lock s then None else Some (s\<lparr>s_lock := True\<rparr>))"

definition spin_unlock :: "ssp_dai \<Rightarrow> ssp_dai" where
  "spin_unlock s = s\<lparr>s_lock := False\<rparr>"

text \<open>\<open>ssp->state[direction]\<close>; a direction other than 0, to play, and 1, to capture, lies outside the array.\<close>

definition set_ssp_state :: "nat \<Rightarrow> u32 \<Rightarrow> ssp_dai \<Rightarrow> ssp_dai option" where
  "set_ssp_state dir v s = do { l \<leftarrow> aset (s_state s) dir v; Some (s\<lparr>s_state := l\<rparr>) }"

section \<open>Power management\<close>

definition ssp_context_store :: "ssp_dai \<Rightarrow> int \<times> ssp_dai" where
  "ssp_context_store s = (0, s\<lparr>sv_sscr0 := ssp_read SSCR0 s, sv_sscr1 := ssp_read SSCR1 s, sv_psp := ssp_read SSPSP s\<rparr>)"

definition ssp_context_restore :: "ssp_dai \<Rightarrow> int \<times> ssp_dai" where
  "ssp_context_restore s =
     (let s = ssp_write SSCR0 (sv_sscr0 s) s; s = ssp_write SSCR1 (sv_sscr1 s) s; s = ssp_write SSPSP (sv_psp s) s in (0, s))"

section \<open>Configuration\<close>

text \<open>
  The four switches: what each sets in the registers, \<open>None\<close> for an error return. The case
  \<open>SSP_CLK_DEFAULT\<close> of the first cannot match the masked value.
\<close>

definition ssp_master :: "u16 \<Rightarrow> u32 option" where
  "ssp_master f =
     (let m = f AND 0xf000 in
      if m = 0 then Some (SSCR1_SCLKDIR OR SSCR1_SFRMDIR)
      else if m = push_bit 12 4 then Some (SSCR1_SCFR OR SSCR1_RWOT)
      else if m = push_bit 12 3 then Some SSCR1_SFRMDIR
      else if m = push_bit 12 2 then Some (SSCR1_SCLKDIR OR SSCR1_SFRMDIR OR SSCR1_SCFR)
      else if m = 4 then Some 0
      else None)"

definition ssp_polarity :: "u16 \<Rightarrow> u32 option" where
  "ssp_polarity f =
     (let m = f AND 0x0f00 in
      if m = 0 then Some 0
      else if m = push_bit 8 2 then Some 0
      else if m = push_bit 8 4 then Some (SSPSP_SCMODE 2)
      else if m = push_bit 8 3 then Some (SSPSP_SCMODE 2 OR SSPSP_SFRMP)
      else None)"

definition ssp_clock :: "u16 \<Rightarrow> u32 option" where
  "ssp_clock i =
     (if i = 0 then Some SSCR0_ACS else if i = 1 then Some SSCR0_MOD else if i = 2 then Some SSCR0_ECS
      else if i = 3 then Some (SSCR0_NCS OR SSCR0_MOD) else None)"

text \<open>For the format also the bits of \<open>SSCR0\<close> and \<open>SSCR1\<close>, the same for all.\<close>

definition ssp_frame :: "u16 \<Rightarrow> u32 \<Rightarrow> u32 option" where
  "ssp_frame f width =
     (let m = f AND 0x000f in
      if m = 1 then Some (SSPSP_SFRMWDTH (width + 1) OR SSPSP_SFRMDLY ((width + 1) * 2) OR SSPSP_DMYSTRT 1)
      else if m = 4 then Some SSPSP_FSRT
      else if m = 5 then Some 0
      else None)"

definition ssp_data_size :: "u32 \<Rightarrow> u32" where
  "ssp_data_size width = (if 16 < width then SSCR0_EDSS OR SSCR0_DSIZE (width - 16) else SSCR0_DSIZE width)"

text \<open>An error return leaves the lock taken. The check of the states lets \<open>RUNNING\<close>, the number 1, pass.\<close>

definition ssp_set_config :: "ssp_params \<Rightarrow> ssp_dai \<Rightarrow> (int \<times> ssp_dai) option" where
  "ssp_set_config c s = do {
     s \<leftarrow> spin_lock s;
     p \<leftarrow> aget (s_state s) 0;
     q \<leftarrow> aget (s_state s) 1;
     if SSP_STATE_IDLE < p \<or> SSP_STATE_IDLE < q then Some (0, spin_unlock s)
     else
       (let s = s\<lparr>d_config := c\<rparr>; width = ucast (ssp_frame_width c) in
        case ssp_master (ssp_format c) of None \<Rightarrow> Some (- EINVAL, s)
        | Some master \<Rightarrow>
            (case ssp_polarity (ssp_format c) of None \<Rightarrow> Some (- EINVAL, s)
             | Some polarity \<Rightarrow>
                 (case ssp_clock (ssp_clk_id c) of None \<Rightarrow> Some (- ENODEV, s)
                  | Some clock \<Rightarrow>
                      if ssp_bclk c = 0 then None
                      else
                        (case ssp_frame (ssp_format c) width of None \<Rightarrow> Some (- EINVAL, s)
                         | Some frame \<Rightarrow>
                             let sscr0 = clock OR SSCR0_SCR (ssp_mclk c div ssp_bclk c - 1) OR SSCR0_PSP OR ssp_data_size width;
                                 sscr1 = master OR SSCR1_TRAIL OR (SSCR1_TX 4 OR SSCR1_RX 4);
                                 s = ssp_write SSCR0 sscr0 s;
                                 s = ssp_write SSCR1 sscr1 s;
                                 s = ssp_write SSPSP (polarity OR frame) s;
                                 s = ssp_write SFIFOTT (SFIFOTT_TX 8 OR SFIFOTT_RX 8) s
                             in do {
                               s \<leftarrow> set_ssp_state 0 SSP_STATE_IDLE s;
                               s \<leftarrow> set_ssp_state 1 SSP_STATE_IDLE s;
                               Some (0, spin_unlock s) })))) }"

definition ssp_set_loopback_mode :: "u32 \<Rightarrow> ssp_dai \<Rightarrow> (int \<times> ssp_dai) option" where
  "ssp_set_loopback_mode lbm s = do {
     s \<leftarrow> spin_lock s;
     Some (0, spin_unlock (ssp_update_bits SSCR1 SSCR1_LBM (if lbm \<noteq> 0 then SSCR1_LBM else 0) s)) }"

section \<open>Streams\<close>

definition ssp_start :: "nat \<Rightarrow> ssp_dai \<Rightarrow> ssp_dai option" where
  "ssp_start dir s = do {
     s \<leftarrow> spin_lock s;
     s \<leftarrow> set_ssp_state dir SSP_STATE_RUNNING (ssp_update_bits SSCR0 SSCR0_SSE SSCR0_SSE s);
     let s = (if dir = 0 then ssp_update_bits SSCR1 SSCR1_TSRE SSCR1_TSRE s else ssp_update_bits SSCR1 SSCR1_RSRE SSCR1_RSRE s);
     Some (spin_unlock s) }"

text \<open>The requests of the DMA are disabled, those to play only in the state that goes before.\<close>

definition ssp_dma_off :: "u32 \<Rightarrow> nat \<Rightarrow> ssp_dai \<Rightarrow> ssp_dai option" where
  "ssp_dma_off st dir s =
     (if dir = 0 then do {
        p \<leftarrow> aget (s_state s) 0;
        Some (if p = st then ssp_update_bits SSCR1 SSCR1_TSRE 0 s else s) }
      else Some (ssp_update_bits SSCR1 SSCR1_RSRE 0 s))"

definition ssp_stop :: "nat \<Rightarrow> ssp_dai \<Rightarrow> ssp_dai option" where
  "ssp_stop dir s = do {
     s \<leftarrow> spin_lock s;
     s \<leftarrow> ssp_dma_off SSP_STATE_DRAINING dir s;
     let s = (if ssp_read SSCR1 s AND (SSCR1_TSRE OR SSCR1_RSRE) = 0 then ssp_update_bits SSCR0 SSCR0_SSE 0 s else s);
     s \<leftarrow> set_ssp_state dir SSP_STATE_IDLE s;
     Some (spin_unlock s) }"

definition ssp_pause :: "nat \<Rightarrow> ssp_dai \<Rightarrow> ssp_dai option" where
  "ssp_pause dir s = do {
     s \<leftarrow> spin_lock s;
     s \<leftarrow> ssp_dma_off SSP_STATE_PAUSING dir s;
     s \<leftarrow> set_ssp_state dir SSP_STATE_PAUSED s;
     Some (spin_unlock s) }"

definition ssp_drain_work :: "ssp_dai \<Rightarrow> ssp_dai option" where
  "ssp_drain_work s = do {
     q \<leftarrow> aget (s_state s) 1;
     s \<leftarrow> (if q = SSP_STATE_DRAINING then ssp_stop 1 s else ssp_pause 1 s);
     Some (s\<lparr>drain_complete := True, drain_work := False\<rparr>) }"

text \<open>\<open>work_schedule_default\<close>, \<open>wait_init\<close> and the wait; \<open>drains\<close> says whether the work runs before the wait times out.\<close>

definition wait_drain :: "bool \<Rightarrow> ssp_dai \<Rightarrow> ssp_dai option" where
  "wait_drain drains s = (let s = s\<lparr>drain_work := True, drain_complete := False\<rparr> in if drains then ssp_drain_work s else Some s)"

definition ssp_trigger :: "bool \<Rightarrow> int \<Rightarrow> nat \<Rightarrow> ssp_dai \<Rightarrow> (int \<times> ssp_dai) option" where
  "ssp_trigger drains c dir s =
     (if c = COMP_CMD_START then do {
        st \<leftarrow> aget (s_state s) dir;
        s \<leftarrow> (if st = SSP_STATE_IDLE then ssp_start dir s else Some s);
        Some (0, s) }
      else if c = COMP_CMD_RELEASE then do {
        st \<leftarrow> aget (s_state s) dir;
        s \<leftarrow> (if st = SSP_STATE_PAUSED then ssp_start dir s else Some s);
        Some (0, s) }
      else if c = COMP_CMD_PAUSE then do {
        st \<leftarrow> aget (s_state s) dir;
        if st \<noteq> SSP_STATE_RUNNING then Some (0, s)
        else if dir = 1 then do {
          s \<leftarrow> set_ssp_state 1 SSP_STATE_PAUSING s;
          s \<leftarrow> wait_drain drains s;
          Some (0, s) }
        else do { s \<leftarrow> ssp_pause dir s; Some (0, s) } }
      else if c = COMP_CMD_STOP then do {
        st \<leftarrow> aget (s_state s) dir;
        if st \<noteq> SSP_STATE_RUNNING \<and> st \<noteq> SSP_STATE_PAUSED then Some (0, s)
        else if dir = 0 \<and> st = SSP_STATE_RUNNING then do {
          s \<leftarrow> set_ssp_state 0 SSP_STATE_DRAINING s;
          s \<leftarrow> wait_drain drains s;
          Some (0, s) }
        else do { s \<leftarrow> ssp_stop dir s; Some (0, s) } }
      else if c = COMP_CMD_RESUME then do { s \<leftarrow> ssp_start dir (snd (ssp_context_restore s)); Some (0, s) }
      else if c = COMP_CMD_SUSPEND then do { s \<leftarrow> ssp_stop dir s; Some (0, snd (ssp_context_store s)) }
      else Some (0, s))"

definition ssp_probe :: "ssp_dai \<Rightarrow> int \<times> ssp_dai" where
  "ssp_probe s = (0, s\<lparr>sv_sscr0 := 0, sv_sscr1 := 0, sv_psp := 0, s_lock := False, drain_work := False, drain_complete := False,
     s_state := [SSP_STATE_INIT, SSP_STATE_INIT]\<rparr>)"

section \<open>The ports of the platform\<close>

definition SSP_BASE :: "nat \<Rightarrow> u32" where "SSP_BASE i = 0xFF2A0000 + of_nat i * 0x1000"

definition no_ssp_params :: ssp_params where
  "no_ssp_params = \<lparr>ssp_comp_id = 0, ssp_mclk = 0, ssp_bclk = 0, ssp_id = 0, ssp_mode = 0, ssp_num_slots = 0, ssp_frame_width = 0, ssp_clk_id = 0, ssp_format = 0\<rparr>"

text \<open>Port \<open>i\<close>: \<open>DMA_HANDSHAKE_SSPi_TX\<close> is 2 i + 1, \<open>DMA_HANDSHAKE_SSPi_RX\<close> 2 i.\<close>

definition ssp_port :: "nat \<Rightarrow> ssp_dai" where
  "ssp_port i = \<lparr>d_type = 0, d_index = of_nat i, d_base = SSP_BASE i, d_irq = of_nat (16 + i),
     d_fifo = [\<lparr>f_offset = SSP_BASE i + SSDR, f_handshake = of_nat (2 * i + 1)\<rparr>, \<lparr>f_offset = SSP_BASE i + SSDR, f_handshake = of_nat (2 * i)\<rparr>],
     d_config = no_ssp_params, sv_sscr0 = 0, sv_sscr1 = 0, sv_psp = 0, s_lock = False, s_state = [0, 0], drain_work = False, drain_complete = False,
     regs = (\<lambda>_. 0)\<rparr>"

definition ssp_table :: "ssp_dai list" where "ssp_table = map ssp_port [0, 1, 2]"

definition dai_get :: "u32 \<Rightarrow> u32 \<Rightarrow> ssp_dai list \<Rightarrow> nat option" where
  "dai_get ty i tab = find (\<lambda>k. d_type (tab ! k) = ty \<and> d_index (tab ! k) = i) [0 ..< length tab]"

text \<open>\<open>dai_fifo\<close>: the address of the data register.\<close>

definition dai_fifo :: "ssp_dai \<Rightarrow> nat \<Rightarrow> u32 option" where
  "dai_fifo s dir = do { f \<leftarrow> aget (d_fifo s) dir; Some (f_offset f) }"

end
