(* ===== verification/Reef_Dispatch.thy ===== *)
theory Reef_Dispatch
  imports Reef_Dma Reef_Ssp Reef_Msg Reef_Ipc
begin

text \<open>
  The commands of the host: validation, dispatch and handlers of src/src/ipc/intel-ipc.c over the object
  registry and the pipelines. The message is copied to the block \<open>comp_data\<close> of DSP memory and its fields
  are read there at their offsets. The PCM parameters every buffer refers to are those bytes: the record
  at the address \<open>comp_data\<close> of \<open>pcms\<close> and the bytes are one object, kept equal by \<open>pcm_put\<close> before and
  \<open>pcm_get\<close> after each new message.
\<close>

section \<open>State\<close>

text \<open>
  What the handlers call: the operations tables of the drivers (the optional operations \<open>host_buffer\<close> and
  \<open>dai_config\<close> are \<open>None\<close> for \<open>NULL\<close>), the DMA controller, the wait for a completion; and the addresses of
  \<open>comp_data\<close>, of the page table and of the reply on the stack. \<open>junk_elem\<close> is what an uninitialised element holds.
\<close>

record 'w ipc_env =
  ops_of :: "'w ops_table"
  host_buffer_of :: "u32 \<Rightarrow> (u32 \<Rightarrow> dma_sg_elem \<Rightarrow> u32 \<Rightarrow> 'w \<Rightarrow> (int \<times> 'w) option) option"
  dai_config_of :: "u32 \<Rightarrow> (u32 \<Rightarrow> ssp_params \<Rightarrow> 'w \<Rightarrow> (int \<times> 'w) option) option"
  dmac0 :: "'w dma_ops"
  wait_of :: "u32 \<Rightarrow> 'w \<Rightarrow> int \<times> 'w"
  comp_data :: u32
  page_table :: u32
  junk_elem :: dma_sg_elem
  reply_addr :: u32
  walk_fuel :: nat

record 'w ipc_sys =
  reg :: ipc
  aw :: 'w
  hq :: host_ipc
  ints_off :: u32
  timer_stopped :: bool

fun store_bytes :: "u32 \<Rightarrow> u8 list \<Rightarrow> mem \<Rightarrow> mem" where
  "store_bytes a [] m = m"
| "store_bytes a (b # bs) m = store_bytes (a + 1) bs (m(a := b))"

definition load_bytes :: "u32 \<Rightarrow> nat \<Rightarrow> mem \<Rightarrow> u8 list" where
  "load_bytes a n m = map (\<lambda>k. m (a + of_nat k)) [0 ..< n]"

text \<open>
  \<open>struct sof_ipc_pcm_params\<close> at an address. The type is the one \<open>ipc_stream_pcm_params\<close> gives to the
  \<open>stream_params\<close> it makes of them.
\<close>

definition pcm_get :: "u32 \<Rightarrow> mem \<Rightarrow> pcm_params" where
  "pcm_get a m = \<lparr>stream_type = STREAM_TYPE_PCM, direction = load32 m (a + 28), frame_fmt = load32 m (a + 32), rate = load32 m (a + 40), channels = load32 m (a + 44),
     frame_size = load32 m (a + 48), period_bytes = load32 m (a + 52), period_count = load32 m (a + 56)\<rparr>"

definition pcm_put :: "u32 \<Rightarrow> pcm_params \<Rightarrow> mem \<Rightarrow> mem" where
  "pcm_put a p m =
     (let m = store32 m (a + 28) (direction p); m = store32 m (a + 32) (frame_fmt p); m = store32 m (a + 40) (rate p);
          m = store32 m (a + 44) (channels p); m = store32 m (a + 48) (frame_size p); m = store32 m (a + 52) (period_bytes p)
      in store32 m (a + 56) (period_count p))"

definition set_comp_data :: "u32 \<Rightarrow> mem \<Rightarrow> 'a world_scheme \<Rightarrow> 'a world_scheme" where
  "set_comp_data c m w = w\<lparr>wmem := m, pcms := (pcms w)(c := pcm_get c m)\<rparr>"

abbreviation field :: "'a world_scheme ipc_env \<Rightarrow> u32 \<Rightarrow> 'a world_scheme ipc_sys \<Rightarrow> u32" where
  "field E off s \<equiv> load32 (wmem (aw s)) (comp_data E + off)"

section \<open>Validation\<close>

text \<open>A size below that of the header makes the length of the second copy negative.\<close>

definition mailbox_validate :: "'a world_scheme ipc_env \<Rightarrow> 'a world_scheme ipc_sys \<Rightarrow> (bool \<times> 'a world_scheme ipc_sys) option" where
  "mailbox_validate E s =
     (let c = comp_data E; w = aw s;
          m = store_bytes c (mailbox_inbox_read 8 (hq s)) (pcm_put c (pcms w c) (wmem w));
          sz = load32 m (c + 4)
      in if SOF_IPC_MSG_MAX_SIZE < sz then Some (False, s\<lparr>aw := set_comp_data c m w\<rparr>)
         else if sz < 8 then None
         else
           (let m = store_bytes (c + 8) (drop 8 (mailbox_inbox_read (unat sz) (hq s))) m
            in Some (True, s\<lparr>aw := set_comp_data c m w\<rparr>)))"

section \<open>Page tables\<close>

record host_buffer =
  hb_phy_addr :: u32
  hb_pages :: u32
  hb_size :: u32
  hb_offset :: u32

definition ring_at :: "'a world_scheme ipc_env \<Rightarrow> 'a world_scheme ipc_sys \<Rightarrow> host_buffer" where
  "ring_at E s = \<lparr>hb_phy_addr = field E 12 s, hb_pages = field E 16 s, hb_size = field E 20 s, hb_offset = field E 24 s\<rparr>"

abbreviation (input) DMA_IRQ_TYPE_LLIST :: nat where "DMA_IRQ_TYPE_LLIST \<equiv> 2"
abbreviation (input) PLATFORM_IPC_DMA_TIMEOUT :: u32 where "PLATFORM_IPC_DMA_TIMEOUT \<equiv> 2000"

definition get_page_descriptors :: "'a world_scheme ipc_env \<Rightarrow> host_buffer \<Rightarrow> 'a world_scheme \<Rightarrow> int \<times> 'a world_scheme" where
  "get_page_descriptors E ring w =
     (let (chan, w) = channel_get (dmac0 E) w in
      if chan < 0 then (chan, w)
      else
        (let elem = \<lparr>e_src = hb_phy_addr ring, e_dest = page_table E, e_size = (hb_pages ring * 5 * 16 + 31) div 32\<rparr>;
             cfg = \<lparr>src_width = 4, dest_width = 4, dma_direction = DMA_DIR_HMEM_TO_LMEM, src_dev = 0, dest_dev = 0, cyclic = 0, sg_elems = [elem]\<rparr>;
             (ret, w) = set_config (dmac0 E) chan cfg w
         in if ret < 0 then (ret, channel_put (dmac0 E) chan w)
            else
              (let w = set_cb (dmac0 E) chan DMA_IRQ_TYPE_LLIST 0 w;
                   (_, w) = dma_start (dmac0 E) chan w;
                   (ret, w) = wait_of E PLATFORM_IPC_DMA_TIMEOUT w
               in (ret, channel_put (dmac0 E) chan w))))"

text \<open>Entry \<open>i\<close> of a table of 20 bit page numbers.\<close>

definition page_entry :: "(u32 \<Rightarrow> u8) \<Rightarrow> u32 \<Rightarrow> s32 \<Rightarrow> u32" where
  "page_entry m pt i =
     (let idx = drop_bit 1 (push_bit 2 i + i);
          phy = ucast (m (pt + idx)) OR push_bit 8 (ucast (m (pt + (idx + 1)))) OR push_bit 16 (ucast (m (pt + (idx + 2))));
          phy = (if i AND 1 \<noteq> 0 then push_bit 8 phy else push_bit 12 phy)
      in phy AND 0xfffff000)"

definition comp_host_buffer :: "'a world_scheme ipc_env \<Rightarrow> u32 \<Rightarrow> dma_sg_elem \<Rightarrow> u32 \<Rightarrow> 'a world_scheme \<Rightarrow> (int \<times> 'a world_scheme) option" where
  "comp_host_buffer E d e host_size w = (case host_buffer_of E (drv (devs w d)) of None \<Rightarrow> Some (0, w) | Some f \<Rightarrow> f d e host_size w)"

fun parse_pages :: "nat \<Rightarrow> nat \<Rightarrow> 'a world_scheme ipc_env \<Rightarrow> host_buffer \<Rightarrow> u32 \<Rightarrow> dma_sg_elem \<Rightarrow> 'a world_scheme \<Rightarrow> (int \<times> 'a world_scheme) option" where
  "parse_pages 0 i E ring d e w = Some (0, w)"
| "parse_pages (Suc k) i E ring d e w =
     (let phy = page_entry (wmem w) (page_table E) (of_nat i);
          e = (if host_direction (comp (devs w d)) = SOF_IPC_STREAM_PLAYBACK then e\<lparr>e_src := phy\<rparr> else e\<lparr>e_dest := phy\<rparr>)
      in do {
        (err, w) \<leftarrow> comp_host_buffer E d e (hb_size ring) w;
        if err < 0 then Some (err, w) else parse_pages k (Suc i) E ring d e w })"

definition parse_page_descriptors :: "'a world_scheme ipc_env \<Rightarrow> host_buffer \<Rightarrow> u32 \<Rightarrow> 'a world_scheme \<Rightarrow> (int \<times> 'a world_scheme) option" where
  "parse_page_descriptors E ring d w = parse_pages (unat (hb_pages ring)) 0 E ring d ((junk_elem E)\<lparr>e_size := HOST_PAGE_SIZE\<rparr>) w"

section \<open>Streams\<close>

definition lift_world :: "('w \<Rightarrow> (int \<times> 'w) option) \<Rightarrow> 'w ipc_sys \<Rightarrow> (int \<times> 'w ipc_sys) option" where
  "lift_world f s = do { (r, w) \<leftarrow> f (aw s); Some (r, s\<lparr>aw := w\<rparr>) }"

text \<open>After an error the pipeline is reset and the handler returns -EINVAL.\<close>

definition ipc_stream_pcm_params :: "'a world_scheme ipc_env \<Rightarrow> 'a world_scheme ipc_sys \<Rightarrow> (int \<times> 'a world_scheme ipc_sys) option" where
  "ipc_stream_pcm_params E s =
     (case ipc_get_comp (reg s) (field E 8 s) (aw s) of
        None \<Rightarrow> Some (- EINVAL, s)
      | Some icd \<Rightarrow>
          let d = icd_cd (reg s) icd; ring = ring_at E s;
              fail = (\<lambda>w. do { (_, w) \<leftarrow> pipeline_reset (walk_fuel E) (ops_of E) d w; Some (- EINVAL, w) })
          in lift_world (\<lambda>w.
               let (err, w) = get_page_descriptors E ring w in
               if err < 0 then fail w
               else do {
                 (err, w) \<leftarrow> parse_page_descriptors E ring d w;
                 if err < 0 then fail w
                 else do {
                   (err, w) \<leftarrow> pipeline_params (walk_fuel E) (ops_of E) d (comp_data E) w;
                   if err < 0 then fail w else Some (0, w) } }) s)"

text \<open>The missing component is reported with a positive \<open>ENODEV\<close>.\<close>

definition ipc_stream_pcm_free :: "'a world_scheme ipc_env \<Rightarrow> 'a world_scheme ipc_sys \<Rightarrow> (int \<times> 'a world_scheme ipc_sys) option" where
  "ipc_stream_pcm_free E s =
     (case ipc_get_comp (reg s) (field E 8 s) (aw s) of
        None \<Rightarrow> Some (ENODEV, s)
      | Some icd \<Rightarrow>
          do { (_, s) \<leftarrow> lift_world (pipeline_reset (walk_fuel E) (ops_of E) (icd_cd (reg s) icd)) s; Some (0, s) })"

definition stream_trig :: "int \<Rightarrow> u32" where "stream_trig k = push_bit 16 (word_of_int k)"

abbreviation (input) "SOF_IPC_STREAM_TRIG_START \<equiv> stream_trig 4"
abbreviation (input) "SOF_IPC_STREAM_TRIG_STOP \<equiv> stream_trig 5"
abbreviation (input) "SOF_IPC_STREAM_TRIG_PAUSE \<equiv> stream_trig 6"
abbreviation (input) "SOF_IPC_STREAM_TRIG_RELEASE \<equiv> stream_trig 7"
abbreviation (input) "SOF_IPC_STREAM_TRIG_DRAIN \<equiv> stream_trig 8"
abbreviation (input) "SOF_IPC_STREAM_TRIG_XRUN \<equiv> stream_trig 9"

text \<open>\<open>switch (header)\<close> of \<open>ipc_stream_trigger\<close>: no command at all for an underrun.\<close>

definition trigger_cmd :: "u32 \<Rightarrow> int option" where
  "trigger_cmd header =
     (if header = SOF_IPC_STREAM_TRIG_START then Some COMP_CMD_START
      else if header = SOF_IPC_STREAM_TRIG_STOP then Some COMP_CMD_STOP
      else if header = SOF_IPC_STREAM_TRIG_PAUSE then Some COMP_CMD_PAUSE
      else if header = SOF_IPC_STREAM_TRIG_RELEASE then Some COMP_CMD_RELEASE
      else if header = SOF_IPC_STREAM_TRIG_DRAIN then Some COMP_CMD_DRAIN
      else if header = SOF_IPC_STREAM_TRIG_XRUN then None
      else Some COMP_CMD_RELEASE)"

definition ipc_stream_trigger :: "'a world_scheme ipc_env \<Rightarrow> u32 \<Rightarrow> 'a world_scheme ipc_sys \<Rightarrow> (int \<times> 'a world_scheme ipc_sys) option" where
  "ipc_stream_trigger E header s =
     (case ipc_get_comp (reg s) (field E 8 s) (aw s) of
        None \<Rightarrow> Some (0, s)
      | Some icd \<Rightarrow>
          (case trigger_cmd header of
             None \<Rightarrow> Some (0, s)
           | Some c \<Rightarrow> do { (_, s) \<leftarrow> lift_world (pipeline_cmd (walk_fuel E) (ops_of E) (icd_cd (reg s) icd) c []) s; Some (0, s) }))"

definition cmd_of :: "u32 \<Rightarrow> u32" where "cmd_of header = drop_bit 16 (header AND push_bit 16 0xfff)"
definition glb_type_of :: "u32 \<Rightarrow> u32" where "glb_type_of header = drop_bit 28 (header AND push_bit 28 0xf)"

definition ipc_glb_stream_message :: "'a world_scheme ipc_env \<Rightarrow> u32 \<Rightarrow> 'a world_scheme ipc_sys \<Rightarrow> (int \<times> 'a world_scheme ipc_sys) option" where
  "ipc_glb_stream_message E header s =
     (let c = cmd_of header in
      if c = 1 then ipc_stream_pcm_params E s
      else if c = 3 then ipc_stream_pcm_free E s
      else if c \<in> {4, 5, 6, 7, 8, 9} then ipc_stream_trigger E header s
      else Some (- EINVAL, s))"

section \<open>Digital audio interfaces and power management\<close>

definition ssp_at :: "u32 \<Rightarrow> mem \<Rightarrow> ssp_params" where
  "ssp_at a m = \<lparr>ssp_comp_id = load32 m (a + 8), ssp_mclk = load32 m (a + 12), ssp_bclk = load32 m (a + 16), ssp_id = load16 m (a + 20),
     ssp_mode = load16 m (a + 22), ssp_num_slots = load16 m (a + 24), ssp_frame_width = load16 m (a + 26), ssp_clk_id = load16 m (a + 28),
     ssp_format = load16 m (a + 30)\<rparr>"

definition comp_dai_config :: "'a world_scheme ipc_env \<Rightarrow> u32 \<Rightarrow> ssp_params \<Rightarrow> 'a world_scheme \<Rightarrow> (int \<times> 'a world_scheme) option" where
  "comp_dai_config E d p w = (case dai_config_of E (drv (devs w d)) of None \<Rightarrow> Some (0, w) | Some f \<Rightarrow> f d p w)"

definition ipc_dai_ssp_config :: "'a world_scheme ipc_env \<Rightarrow> 'a world_scheme ipc_sys \<Rightarrow> (int \<times> 'a world_scheme ipc_sys) option" where
  "ipc_dai_ssp_config E s =
     (case ipc_get_comp (reg s) (field E 8 s) (aw s) of
        None \<Rightarrow> Some (0, s)
      | Some icd \<Rightarrow>
          do { (_, s) \<leftarrow> lift_world (comp_dai_config E (icd_cd (reg s) icd) (ssp_at (comp_data E) (wmem (aw s)))) s; Some (0, s) })"

text \<open>\<open>sizeof(struct sof_ipc_pm_ctx)\<close> is 32.\<close>

definition ipc_pm_context_size :: "'w ipc_sys \<Rightarrow> (int \<times> 'w ipc_sys) option" where
  "ipc_pm_context_size s = Some (0, s\<lparr>hq := mailbox_outbox_write (replicate 32 0) (hq s)\<rparr>)"

definition ipc_pm_context_save :: "'a world_scheme ipc_env \<Rightarrow> 'a world_scheme ipc_sys \<Rightarrow> (int \<times> 'a world_scheme ipc_sys) option" where
  "ipc_pm_context_save E s =
     (let s = s\<lparr>ints_off := ints_off s OR 0xffff, timer_stopped := True\<rparr>
      in Some (0, s\<lparr>hq := mailbox_outbox_write (load_bytes (comp_data E) 32 (wmem (aw s))) (hq s)\<rparr>))"

definition ipc_pm_context_restore :: "'w ipc_sys \<Rightarrow> (int \<times> 'w ipc_sys) option" where
  "ipc_pm_context_restore s = Some (0, s)"

definition ipc_glb_pm_message :: "'a world_scheme ipc_env \<Rightarrow> u32 \<Rightarrow> 'a world_scheme ipc_sys \<Rightarrow> (int \<times> 'a world_scheme ipc_sys) option" where
  "ipc_glb_pm_message E header s =
     (let c = cmd_of header in
      if c = 0 then ipc_pm_context_save E s
      else if c = 1 then ipc_pm_context_restore s
      else if c = 2 then ipc_pm_context_size s
      else Some (- ENOMEM, s))"

section \<open>Components\<close>

text \<open>\<open>struct sof_ipc_ctrl_values\<close>: the values the message counts, wherever they lie.\<close>

definition ctrl_at :: "u32 \<Rightarrow> mem \<Rightarrow> ctrl_values" where
  "ctrl_at a m = map (\<lambda>k. (load32 m (a + 16 + of_nat (8 * k)), load32 m (a + 20 + of_nat (8 * k)))) [0 ..< unat (load32 m (a + 12))]"

definition ipc_comp_set_value :: "'a world_scheme ipc_env \<Rightarrow> int \<Rightarrow> 'a world_scheme ipc_sys \<Rightarrow> (int \<times> 'a world_scheme ipc_sys) option" where
  "ipc_comp_set_value E c s =
     (case ipc_get_comp (reg s) (field E 8 s) (aw s) of
        None \<Rightarrow> Some (- ENODEV, s)
      | Some icd \<Rightarrow> lift_world (comp_cmd (ops_of E) (icd_cd (reg s) icd) c (ctrl_at (comp_data E) (wmem (aw s)))) s)"

text \<open>
  The replies are written with \<open>mailbox_outbox_write(values, 0, size)\<close>, the place and the source exchanged:
  \<open>size\<close> bytes are copied from address 0 to the pointer plus the base of the outbox, in units of the
  structure, as C adds a pointer and an integer. They go to the DSP memory, not to the outbox.
\<close>

definition MAILBOX_OUTBOX_BASE :: u32 where "MAILBOX_OUTBOX_BASE = 0xFF344000"

definition mailbox_reply_swapped :: "u32 \<Rightarrow> nat \<Rightarrow> 'a world_scheme ipc_sys \<Rightarrow> 'a world_scheme ipc_sys" where
  "mailbox_reply_swapped ptr n s =
     s\<lparr>aw := (aw s)\<lparr>wmem := store_bytes (ptr + of_nat n * MAILBOX_OUTBOX_BASE) (load_bytes 0 n (wmem (aw s))) (wmem (aw s))\<rparr>\<rparr>"

text \<open>The command is \<open>COMP_CMD_VOLUME\<close> whatever value is asked for.\<close>

definition ipc_comp_get_value :: "'a world_scheme ipc_env \<Rightarrow> int \<Rightarrow> 'a world_scheme ipc_sys \<Rightarrow> (int \<times> 'a world_scheme ipc_sys) option" where
  "ipc_comp_get_value E c s =
     (case ipc_get_comp (reg s) (field E 8 s) (aw s) of
        None \<Rightarrow> Some (- ENODEV, s)
      | Some icd \<Rightarrow> do {
          (ret, s) \<leftarrow> lift_world (comp_cmd (ops_of E) (icd_cd (reg s) icd) COMP_CMD_VOLUME (ctrl_at (comp_data E) (wmem (aw s)))) s;
          if ret < 0 then Some (ret, s)
          else Some (0, mailbox_reply_swapped (comp_data E) 80 s) })"

abbreviation (input) "COMP_CMD_ROUTE \<equiv> 103 :: int"
abbreviation (input) "COMP_CMD_SRC \<equiv> 104 :: int"
abbreviation (input) "COMP_CMD_LOOPBACK \<equiv> 105 :: int"

definition ipc_glb_comp_message :: "'a world_scheme ipc_env \<Rightarrow> u32 \<Rightarrow> 'a world_scheme ipc_sys \<Rightarrow> (int \<times> 'a world_scheme ipc_sys) option" where
  "ipc_glb_comp_message E header s =
     (let c = cmd_of header in
      if c = 0 then ipc_comp_set_value E COMP_CMD_VOLUME s
      else if c = 1 then ipc_comp_get_value E COMP_CMD_VOLUME s
      else if c = 2 then ipc_comp_set_value E COMP_CMD_ROUTE s
      else if c = 3 then ipc_comp_get_value E COMP_CMD_ROUTE s
      else if c = 4 then ipc_comp_set_value E COMP_CMD_ROUTE s
      else if c = 5 then ipc_comp_get_value E COMP_CMD_ROUTE s
      else if c = 6 then ipc_comp_set_value E COMP_CMD_SRC s
      else if c = 7 then ipc_comp_get_value E COMP_CMD_SRC s
      else if c = 8 then ipc_dai_ssp_config E s
      else if c = 0x11 then ipc_comp_set_value E COMP_CMD_LOOPBACK s
      else Some (- EINVAL, s))"

section \<open>Topology\<close>

text \<open>The direction of a host component lies after its PCM description.\<close>

definition comp_at :: "u32 \<Rightarrow> mem \<Rightarrow> ipc_comp" where
  "comp_at a m = \<lparr>comp_id = load32 m (a + 8), comp_type = load32 m (a + 12), host_direction = load32 m (a + 60)\<rparr>"

definition ipc_glb_tplg_comp_new :: "'a world_scheme ipc_env \<Rightarrow> 'a world_scheme ipc_sys \<Rightarrow> (int \<times> 'a world_scheme ipc_sys) option" where
  "ipc_glb_tplg_comp_new E s =
     do {
       (ret, ipc, w) \<leftarrow> ipc_comp_new (ops_of E) (comp_at (comp_data E) (wmem (aw s))) (reg s) (aw s);
       let s = s\<lparr>reg := ipc, aw := w\<rparr>;
       if ret < 0 then Some (ret, s) else Some (0, mailbox_reply_swapped (reply_addr E) 16 s) }"

definition ipc_glb_tplg_buffer_new :: "'a world_scheme ipc_env \<Rightarrow> 'a world_scheme ipc_sys \<Rightarrow> (int \<times> 'a world_scheme ipc_sys) option" where
  "ipc_glb_tplg_buffer_new E s =
     do {
       (ret, ipc, w) \<leftarrow> ipc_buffer_new (field E 8 s) (field E 16 s) (field E 20 s) (reg s) (aw s);
       Some (ret, s\<lparr>reg := ipc, aw := w\<rparr>) }"

definition ipc_glb_tplg_pipe_new :: "'a world_scheme ipc_env \<Rightarrow> 'a world_scheme ipc_sys \<Rightarrow> (int \<times> 'a world_scheme ipc_sys) option" where
  "ipc_glb_tplg_pipe_new E s =
     do {
       (ret, ipc, w) \<leftarrow> ipc_pipeline_new \<lparr>pn_pipeline_id = field E 12 s, pn_core = field E 16 s, pn_priority = field E 24 s\<rparr> (reg s) (aw s);
       Some (ret, s\<lparr>reg := ipc, aw := w\<rparr>) }"

definition ipc_glb_tplg_comp_connect :: "'a world_scheme ipc_env \<Rightarrow> 'a world_scheme ipc_sys \<Rightarrow> (int \<times> 'a world_scheme ipc_sys) option" where
  "ipc_glb_tplg_comp_connect E s =
     (let (ret, w) = ipc_comp_connect \<lparr>cc_pipeline_id = field E 8 s, cc_source_id = field E 12 s, cc_buffer_id = field E 16 s, cc_sink_id = field E 20 s\<rparr> (reg s) (aw s)
      in Some (ret, s\<lparr>aw := w\<rparr>))"

definition ipc_glb_tplg_pipe_connect :: "'a world_scheme ipc_env \<Rightarrow> 'a world_scheme ipc_sys \<Rightarrow> (int \<times> 'a world_scheme ipc_sys) option" where
  "ipc_glb_tplg_pipe_connect E s =
     (let (ret, w) = ipc_pipe_connect_op \<lparr>pp_pipeline_source_id = field E 8 s, pp_comp_source_id = field E 12 s, pp_buffer_id = field E 16 s,
                       pp_pipeline_sink_id = field E 20 s, pp_comp_sink_id = field E 24 s\<rparr> (reg s) (aw s)
      in Some (ret, s\<lparr>aw := w\<rparr>))"

definition ipc_glb_tplg_free :: "'a world_scheme ipc_env \<Rightarrow> (u32 \<Rightarrow> ipc \<Rightarrow> 'a world_scheme \<Rightarrow> (ipc \<times> 'a world_scheme) option) \<Rightarrow>
    'a world_scheme ipc_sys \<Rightarrow> (int \<times> 'a world_scheme ipc_sys) option" where
  "ipc_glb_tplg_free E free_func s =
     do { (ipc, w) \<leftarrow> free_func (field E 8 s) (reg s) (aw s); Some (0, s\<lparr>reg := ipc, aw := w\<rparr>) }"

definition ipc_glb_tplg_message :: "'a world_scheme ipc_env \<Rightarrow> u32 \<Rightarrow> 'a world_scheme ipc_sys \<Rightarrow> (int \<times> 'a world_scheme ipc_sys) option" where
  "ipc_glb_tplg_message E header s =
     (let c = cmd_of header in
      if c = 0 then ipc_glb_tplg_comp_new E s
      else if c = 1 then ipc_glb_tplg_free E (ipc_comp_free (ops_of E)) s
      else if c = 2 then ipc_glb_tplg_comp_connect E s
      else if c = 0x10 then ipc_glb_tplg_pipe_new E s
      else if c = 0x11 then ipc_glb_tplg_free E ipc_pipeline_free s
      else if c = 0x12 then ipc_glb_tplg_pipe_connect E s
      else if c = 0x20 then ipc_glb_tplg_buffer_new E s
      else if c = 0x21 then ipc_glb_tplg_free E ipc_buffer_free s
      else Some (- EINVAL, s))"

section \<open>The command\<close>

definition ipc_cmd :: "'a world_scheme ipc_env \<Rightarrow> 'a world_scheme ipc_sys \<Rightarrow> (int \<times> 'a world_scheme ipc_sys) option" where
  "ipc_cmd E s =
     do {
       (ok, s) \<leftarrow> mailbox_validate E s;
       if \<not> ok then Some (- EINVAL, s)
       else
         (let header = field E 0 s; type = glb_type_of header in
          if type = 1 then Some (0, s)
          else if type = 2 then Some (- EINVAL, s)
          else if type = 3 then ipc_glb_tplg_message E header s
          else if type = 4 then ipc_glb_pm_message E header s
          else if type = 5 then ipc_glb_comp_message E header s
          else if type = 6 then ipc_glb_stream_message E header s
          else Some (- EINVAL, s)) }"

text \<open>
  The two queues are looked at in turn: \<open>ipc_process_msg_queue\<close> with this command. The result of the
  command is dropped; the host is only told that it is done.
\<close>

definition ipc_process :: "'a world_scheme ipc_env \<Rightarrow> 'a world_scheme ipc_sys \<Rightarrow> (int \<times> 'a world_scheme ipc_sys) option" where
  "ipc_process E s =
     do {
       s \<leftarrow> (if host_pending (hq s) \<noteq> 0 then do {
               (_, s) \<leftarrow> ipc_cmd E s;
               h \<leftarrow> ipc_platform_do_cmd (\<lambda>h. Some (0, h)) (hq s);
               Some (s\<lparr>hq := h\<rparr>) }
             else Some s);
       h \<leftarrow> (if dsp_pending (hq s) \<noteq> 0 then ipc_platform_send_msg (hq s) else Some (hq s));
       Some (0, s\<lparr>hq := h\<rparr>) }"

end
