(* ===== verification/Reef_Dispatch_Props.thy ===== *)
theory Reef_Dispatch_Props
  imports Reef_Dispatch Reef_Msg_Props Reef_Ring
begin

text \<open>
  The host's commands: the words of a message are the fields the handlers read, the packed page table is
  decoded, what is refused and what a message shorter than its header does; and what the handlers of
  stream triggers and of value requests do.
\<close>

section \<open>Bytes and words\<close>

definition word_bytes :: "u32 \<Rightarrow> u8 list" where
  "word_bytes w = [byte_of 0 w, byte_of 1 w, byte_of 2 w, byte_of 3 w]"

definition msg_bytes :: "u32 list \<Rightarrow> u8 list" where
  "msg_bytes ws = concat (map word_bytes ws)"

lemma length_msg_bytes [simp]: "length (msg_bytes ws) = 4 * length ws"
  by (induction ws) (simp_all add: msg_bytes_def word_bytes_def)

lemma store_bytes_append: "store_bytes a (xs @ ys) m = store_bytes (a + of_nat (length xs)) ys (store_bytes a xs m)"
  by (induction xs arbitrary: a m) (simp_all add: algebra_simps)

lemma store_bytes_word: "store_bytes a (word_bytes w) m = store32 m a w"
  by (simp add: word_bytes_def store32_def add.commute)

lemma store_bytes_other:
  "fits a (length bs) \<Longrightarrow> unat x \<notin> region a (length bs) \<Longrightarrow> store_bytes a bs m x = m x"
proof (induction bs arbitrary: a m)
  case (Cons b bs)
  have f: "fits a (1 + length bs)" using Cons.prems(1) by simp
  have x: "x \<noteq> a" using Cons.prems(2) by (auto simp: region_def)
  show ?case
  proof (cases bs)
    case Nil
    then show ?thesis using x by simp
  next
    case (Cons c cs)
    then have p: "0 < length bs" by simp
    then have "fits (a + of_nat 1) (length bs)" "region (a + of_nat 1) (length bs) \<subseteq> region a (1 + length bs)"
      using fits_offset [OF f p] region_offset [OF f p] by blast+
    then have "store_bytes (a + 1) bs (m(a := b)) x = (m(a := b)) x" using Cons.prems(2) by (intro Cons.IH) (auto simp: region_def)
    then show ?thesis using x by simp
  qed
qed simp

lemma load32_store_bytes:
  assumes "fits a (4 * length ws)" "i < length ws"
  shows "load32 (store_bytes a (msg_bytes ws) m) (a + of_nat (4 * i)) = ws ! i"
  using assms
proof (induction ws arbitrary: a m i)
  case (Cons w ws)
  have f: "fits a (4 + 4 * length ws)" using Cons.prems(1) by simp
  have e: "store_bytes a (msg_bytes (w # ws)) m = store_bytes (a + 4) (msg_bytes ws) (store32 m a w)"
    by (simp add: msg_bytes_def store_bytes_append store_bytes_word) (simp add: word_bytes_def)
  show ?case
  proof (cases i)
    case 0
    have "load32 (store_bytes (a + 4) (msg_bytes ws) (store32 m a w)) a = load32 (store32 m a w) a"
    proof (cases "ws = []")
      case False
      then have p: "0 < 4 * length ws" by simp
      have f4: "fits (a + 4) (length (msg_bytes ws))" using fits_offset [OF f p] by simp
      show ?thesis
      proof (rule load32_cong)
        show "fits a 4" using f by (simp add: fits_def)
        fix x :: u32 assume x: "unat x \<in> region a 4"
        have "unat (a + of_nat 4) = unat a + 4" using unat_offset [of a "4 + 4 * length ws" 4] f p by simp
        then have "unat x \<notin> region (a + 4) (length (msg_bytes ws))" using x by (auto simp: region_def)
        then show "store_bytes (a + 4) (msg_bytes ws) (store32 m a w) x = store32 m a w x" using f4 by (rule store_bytes_other [rotated])
      qed
    qed (simp add: msg_bytes_def)
    then show ?thesis unfolding e by (simp add: 0)
  next
    case (Suc j)
    then have j: "j < length ws" using Cons.prems(2) by simp
    then have "0 < 4 * length ws" by linarith
    then have "fits (a + of_nat 4) (4 * length ws)" using fits_offset [OF f] by blast
    then have "load32 (store_bytes (a + 4) (msg_bytes ws) (store32 m a w)) (a + 4 + of_nat (4 * j)) = ws ! j" using Cons.IH [of "a + 4"] j by simp
    then show ?thesis unfolding e by (simp add: Suc algebra_simps)
  qed
qed simp

section \<open>A message as its words\<close>

text \<open>The message of the words \<open>ws\<close>: the header's size counts its bytes.\<close>

definition message_words :: "host_ipc \<Rightarrow> u32 list \<Rightarrow> bool" where
  "message_words h ws \<longleftrightarrow> 2 \<le> length ws \<and> length ws \<le> 32 \<and> ws ! 1 = of_nat (4 * length ws) \<and> take (4 * length ws) (inbox h) = msg_bytes ws"

lemma validate_words:
  assumes "message_words (hq s) ws" "fits (comp_data E) 128"
  shows "\<exists>m. mailbox_validate E s = Some (True, s\<lparr>aw := set_comp_data (comp_data E) m (aw s)\<rparr>) \<and>
    (\<forall>i < length ws. load32 m (comp_data E + of_nat (4 * i)) = ws ! i) \<and>
    m = store_bytes (comp_data E) (msg_bytes ws) (pcm_put (comp_data E) (pcms (aw s) (comp_data E)) (wmem (aw s)))"
proof -
  let ?c = "comp_data E" and ?base = "pcm_put (comp_data E) (pcms (aw s) (comp_data E)) (wmem (aw s))"
  note w = assms(1) [unfolded message_words_def]
  obtain w0 w1 rest where ws: "ws = w0 # w1 # rest" using w by (metis One_nat_def Suc_1 Suc_le_length_iff)
  have in8: "mailbox_inbox_read 8 (hq s) = msg_bytes [w0, w1]"
  proof -
    have "take 8 (take (4 * length ws) (inbox (hq s))) = take 8 (msg_bytes ws)" using w by simp
    then show ?thesis using w by (simp add: ws mailbox_inbox_read_def min_def msg_bytes_def word_bytes_def)
  qed
  have "w1 = of_nat (4 * length ws)" using w by (simp add: ws)
  then have n: "unat w1 = 4 * length ws" using w by (simp only:) (rule unat_of_nat_fits; simp)
  have inn: "mailbox_inbox_read (unat w1) (hq s) = msg_bytes [w0, w1] @ msg_bytes rest"
    using w by (simp add: n mailbox_inbox_read_def) (simp add: ws msg_bytes_def)
  let ?m = "store_bytes ?c (msg_bytes [w0, w1]) ?base"
  have f8: "fits ?c (4 * length [w0, w1])" by (rule fits_le [OF assms(2)]) simp
  have sz: "load32 ?m (?c + 4) = w1" using load32_store_bytes [OF f8, of 1] by simp
  have "\<not> SOF_IPC_MSG_MAX_SIZE < w1" "\<not> w1 < 8" using n w by (simp_all add: SOF_IPC_MSG_MAX_SIZE_def word_less_nat_alt ws)
  moreover have d: "store_bytes (?c + 8) (drop 8 (mailbox_inbox_read (unat w1) (hq s))) ?m = store_bytes ?c (msg_bytes ws) ?base"
    unfolding inn by (simp add: ws msg_bytes_def store_bytes_append word_bytes_def add.commute)
  ultimately have v: "mailbox_validate E s = Some (True, s\<lparr>aw := set_comp_data ?c (store_bytes ?c (msg_bytes ws) ?base) (aw s)\<rparr>)"
    by (simp add: mailbox_validate_def Let_def in8 sz)
  have "fits ?c (4 * length ws)" by (rule fits_le [OF assms(2)]) (use w in simp)
  then have al: "\<forall>i < length ws. load32 (store_bytes ?c (msg_bytes ws) ?base) (?c + of_nat (4 * i)) = ws ! i" using load32_store_bytes by blast
  show ?thesis using v al by (intro exI [of _ "store_bytes ?c (msg_bytes ws) ?base"]) simp
qed

text \<open>The new message changes nothing else.\<close>

lemma set_comp_data_sel [simp]:
  "devs (set_comp_data c m w) = devs w" "bufs (set_comp_data c m w) = bufs w" "mm (set_comp_data c m w) = mm w"
  "drivers (set_comp_data c m w) = drivers w" "wmem (set_comp_data c m w) = m"
  by (simp_all add: set_comp_data_def)

lemma ipc_get_comp_data [simp]: "ipc_get_comp r i (set_comp_data c m w) = ipc_get_comp r i w"
  by (simp add: ipc_get_comp_def)

text \<open>
  a message of the host arrives as it is: its words are the fields the handlers read, and neither the
  registry nor the queue to the host nor any object but the message block changes.
\<close>
theorem message_fields:
  assumes "message_words (hq s) ws" "fits (comp_data E) 128"
  shows "\<exists>s'. mailbox_validate E s = Some (True, s') \<and> (\<forall>i < length ws. field E (of_nat (4 * i)) s' = ws ! i) \<and>
    reg s' = reg s \<and> hq s' = hq s \<and> devs (aw s') = devs (aw s) \<and> bufs (aw s') = bufs (aw s) \<and> mm (aw s') = mm (aw s)"
  using validate_words [OF assms] by auto

lemma cmd_words:
  assumes "message_words (hq s) ws" "fits (comp_data E) 128"
  shows "\<exists>m. (\<forall>i < length ws. load32 m (comp_data E + of_nat (4 * i)) = ws ! i) \<and>
    ipc_cmd E s = (let s = s\<lparr>aw := set_comp_data (comp_data E) m (aw s)\<rparr>; header = ws ! 0; type = glb_type_of header in
          if type = 1 then Some (0, s)
          else if type = 2 then Some (- EINVAL, s)
          else if type = 3 then ipc_glb_tplg_message E header s
          else if type = 4 then ipc_glb_pm_message E header s
          else if type = 5 then ipc_glb_comp_message E header s
          else if type = 6 then ipc_glb_stream_message E header s
          else Some (- EINVAL, s))"
proof -
  obtain m where m: "mailbox_validate E s = Some (True, s\<lparr>aw := set_comp_data (comp_data E) m (aw s)\<rparr>)"
    "\<forall>i < length ws. load32 m (comp_data E + of_nat (4 * i)) = ws ! i"
    using validate_words [OF assms] by blast
  have "0 < length ws" using assms(1) unfolding message_words_def by linarith
  then have h: "load32 m (comp_data E) = ws ! 0" using m(2) by auto
  show ?thesis using m by (intro exI [of _ m]) (simp add: ipc_cmd_def Let_def h)
qed

section \<open>Values\<close>

definition ctrl_words :: "ctrl_values \<Rightarrow> u32 list" where
  "ctrl_words vs = concat (map (\<lambda>(c, v). [c, v]) vs)"

lemma length_ctrl_words [simp]: "length (ctrl_words vs) = 2 * length vs"
  by (induction vs) (auto simp: ctrl_words_def)

lemma nth_ctrl_words: "k < length vs \<Longrightarrow> ctrl_words vs ! (2 * k) = fst (vs ! k) \<and> ctrl_words vs ! (2 * k + 1) = snd (vs ! k)"
proof (induction vs arbitrary: k)
  case (Cons v vs)
  then show ?case by (cases k) (auto simp: ctrl_words_def split: prod.splits)
qed simp

lemma ctrl_at_words:
  assumes "ws = [h, sz, i, of_nat (length vs)] @ ctrl_words vs" "\<forall>i < length ws. load32 m (a + of_nat (4 * i)) = ws ! i" "length vs < 2 ^ 32"
  shows "ctrl_at a m = vs"
proof (rule nth_equalityI)
  have "load32 m (a + of_nat (4 * 3)) = ws ! 3" using assms(2) by (rule allE [of _ 3]) (simp add: assms(1))
  then have "load32 m (a + 12) = of_nat (length vs)" by (simp add: assms(1))
  then have n: "unat (load32 m (a + 12)) = length vs" using assms(3) by (simp only: unat_of_nat_fits len_num0 len_num1 len_bit0) (simp add: unat_of_nat_fits)
  then show "length (ctrl_at a m) = length vs" by (simp add: ctrl_at_def)
  fix k assume "k < length (ctrl_at a m)"
  then have k: "k < length vs" using n by (simp add: ctrl_at_def)
  have l: "4 + (2 * k + 1) < length ws" using k by (simp add: assms(1))
  have "load32 m (a + of_nat (4 * (4 + 2 * k))) = ws ! (4 + 2 * k)" by (rule assms(2) [rule_format]) (use l in linarith)
  moreover have "load32 m (a + of_nat (4 * (4 + (2 * k + 1)))) = ws ! (4 + (2 * k + 1))" by (rule assms(2) [rule_format]) (rule l)
  moreover have "ws ! (4 + j) = ctrl_words vs ! j" for j unfolding assms(1) by (simp add: numeral_eq_Suc)
  ultimately have "load32 m (a + of_nat (4 * (4 + 2 * k))) = fst (vs ! k)" "load32 m (a + of_nat (4 * (4 + (2 * k + 1)))) = snd (vs ! k)"
    using nth_ctrl_words [OF k] by (simp_all only:)
  then show "ctrl_at a m ! k = vs ! k" using k n by (simp add: ctrl_at_def algebra_simps)
qed

lemma set_value_fields:
  assumes "message_words (hq s) ws" "ws = [h, sz, i, of_nat (length vs)] @ ctrl_words vs" "\<forall>i < length ws. load32 m (comp_data E + of_nat (4 * i)) = ws ! i"
  shows "field E 8 (s\<lparr>aw := set_comp_data (comp_data E) m (aw s)\<rparr>) = i"
    "ctrl_at (comp_data E) (wmem (aw (s\<lparr>aw := set_comp_data (comp_data E) m (aw s)\<rparr>))) = vs"
proof -
  have "load32 m (comp_data E + of_nat (4 * 2)) = ws ! 2" using assms(3) by (rule allE [of _ 2]) (simp add: assms(2))
  then show "field E 8 (s\<lparr>aw := set_comp_data (comp_data E) m (aw s)\<rparr>) = i" by (simp add: assms(2))
  have "length vs < 2 ^ 32" using assms(1,2) by (simp add: message_words_def)
  then show "ctrl_at (comp_data E) (wmem (aw (s\<lparr>aw := set_comp_data (comp_data E) m (aw s)\<rparr>))) = vs" using ctrl_at_words [OF assms(2,3)] by simp
qed

text \<open>
  C22: a message that sets values reaches the operation \<open>cmd\<close> of the component it names with the command
  and the channel values the host wrote, and what the operation returns is the result.
\<close>
theorem set_value_applied:
  assumes "message_words (hq s) ws" "fits (comp_data E) 128" "ws = [h, sz, i, of_nat (length vs)] @ ctrl_words vs"
    and "glb_type_of h = 5" "(cmd_of h, c) \<in> {(0, COMP_CMD_VOLUME), (2, COMP_CMD_ROUTE), (4, COMP_CMD_ROUTE), (6, COMP_CMD_SRC), (0x11, COMP_CMD_LOOPBACK)}"
    and "ipc_get_comp (reg s) i (aw s) = Some icd"
  shows "\<exists>m. ipc_cmd E s = lift_world (comp_cmd (ops_of E) (icd_cd (reg s) icd) c vs) (s\<lparr>aw := set_comp_data (comp_data E) m (aw s)\<rparr>)"
proof -
  obtain m where m: "\<forall>i < length ws. load32 m (comp_data E + of_nat (4 * i)) = ws ! i"
    and r: "ipc_cmd E s = (let s = s\<lparr>aw := set_comp_data (comp_data E) m (aw s)\<rparr>; header = ws ! 0; type = glb_type_of header in
          if type = 1 then Some (0, s) else if type = 2 then Some (- EINVAL, s) else if type = 3 then ipc_glb_tplg_message E header s
          else if type = 4 then ipc_glb_pm_message E header s else if type = 5 then ipc_glb_comp_message E header s
          else if type = 6 then ipc_glb_stream_message E header s else Some (- EINVAL, s))"
    using cmd_words [OF assms(1,2)] by blast
  let ?s = "s\<lparr>aw := set_comp_data (comp_data E) m (aw s)\<rparr>"
  note f = set_value_fields [OF assms(1,3) m]
  have "ipc_cmd E s = ipc_glb_comp_message E h ?s" using r assms(3,4) by (simp add: Let_def)
  also have "\<dots> = ipc_comp_set_value E c ?s" using assms(5) by (auto simp: ipc_glb_comp_message_def Let_def)
  also have "\<dots> = lift_world (comp_cmd (ops_of E) (icd_cd (reg s) icd) c vs) ?s"
    unfolding ipc_comp_set_value_def f using assms(6) by simp
  finally show ?thesis by blast
qed

section \<open>Requests for values\<close>

lemma lift_world_hq: "lift_world f s = Some (r, s') \<Longrightarrow> hq s' = hq s \<and> reg s' = reg s"
  by (auto simp: lift_world_def split: bind_splits prod.splits)

lemma get_value_hq: "ipc_comp_get_value E c s = Some (r, s') \<Longrightarrow> hq s' = hq s"
  by (auto simp: ipc_comp_get_value_def mailbox_reply_swapped_def split: option.splits bind_splits if_splits dest!: lift_world_hq)

text \<open>
  a request for values is not answered: it runs the command that sets volumes, with the values of the
  request, and whatever comes of it, neither the outbox nor the queue to the host changes.
\<close>
theorem value_request_lost:
  assumes "message_words (hq s) ws" "fits (comp_data E) 128" "ws = [h, sz, i, of_nat (length vs)] @ ctrl_words vs"
    and "glb_type_of h = 5" "cmd_of h \<in> {1, 3, 5, 7}" "ipc_get_comp (reg s) i (aw s) = Some icd"
  shows "(\<exists>m. ipc_cmd E s = do {
      (ret, s) \<leftarrow> lift_world (comp_cmd (ops_of E) (icd_cd (reg s) icd) COMP_CMD_VOLUME vs) (s\<lparr>aw := set_comp_data (comp_data E) m (aw s)\<rparr>);
      if ret < 0 then Some (ret, s) else Some (0, mailbox_reply_swapped (comp_data E) 80 s) }) \<and>
    (\<forall>r s'. ipc_cmd E s = Some (r, s') \<longrightarrow> hq s' = hq s)"
proof -
  obtain m where m: "\<forall>i < length ws. load32 m (comp_data E + of_nat (4 * i)) = ws ! i"
    and r: "ipc_cmd E s = (let s = s\<lparr>aw := set_comp_data (comp_data E) m (aw s)\<rparr>; header = ws ! 0; type = glb_type_of header in
          if type = 1 then Some (0, s) else if type = 2 then Some (- EINVAL, s) else if type = 3 then ipc_glb_tplg_message E header s
          else if type = 4 then ipc_glb_pm_message E header s else if type = 5 then ipc_glb_comp_message E header s
          else if type = 6 then ipc_glb_stream_message E header s else Some (- EINVAL, s))"
    using cmd_words [OF assms(1,2)] by blast
  let ?s = "s\<lparr>aw := set_comp_data (comp_data E) m (aw s)\<rparr>"
  obtain c where g: "ipc_cmd E s = ipc_comp_get_value E c ?s"
    using r assms(3-5) by (auto simp: Let_def ipc_glb_comp_message_def)
  note f = set_value_fields [OF assms(1,3) m]
  have "ipc_cmd E s = do {
      (ret, s) \<leftarrow> lift_world (comp_cmd (ops_of E) (icd_cd (reg s) icd) COMP_CMD_VOLUME vs) ?s;
      if ret < 0 then Some (ret, s) else Some (0, mailbox_reply_swapped (comp_data E) 80 s) }"
    unfolding g ipc_comp_get_value_def f using assms(6) by simp
  moreover have "\<forall>r s'. ipc_cmd E s = Some (r, s') \<longrightarrow> hq s' = hq s" using get_value_hq unfolding g by fastforce
  ultimately show ?thesis by blast
qed

section \<open>Stream triggers\<close>

text \<open>The type bits are part of the header the switch looks at.\<close>

lemma trigger_cmd_header:
  assumes "glb_type_of header = 6"
  shows "trigger_cmd header = Some COMP_CMD_RELEASE"
proof -
  have "glb_type_of (stream_trig k) = 0" if "k \<in> {4, 5, 6, 7, 8, 9}" for k
    using that by (auto simp: glb_type_of_def stream_trig_def)
  then have "header \<noteq> stream_trig k" if "k \<in> {4, 5, 6, 7, 8, 9}" for k using that assms by fastforce
  then show ?thesis by (simp add: trigger_cmd_def)
qed

text \<open>
  C38: every trigger of a stream, be it to start, to stop, to pause or to drain, runs the command RELEASE
  over the pipeline, and an error of the pipeline is not reported.
\<close>
theorem trigger_releases:
  assumes "message_words (hq s) [h, 12, i]" "fits (comp_data E) 128" "glb_type_of h = 6" "cmd_of h \<in> {4, 5, 6, 7, 8, 9}"
    and "ipc_get_comp (reg s) i (aw s) = Some icd"
  shows "\<exists>m. ipc_cmd E s = do {
    (_, s) \<leftarrow> lift_world (pipeline_cmd (walk_fuel E) (ops_of E) (icd_cd (reg s) icd) COMP_CMD_RELEASE []) (s\<lparr>aw := set_comp_data (comp_data E) m (aw s)\<rparr>);
    Some (0, s) }"
proof -
  obtain m where m: "\<forall>k < length [h, 12, i]. load32 m (comp_data E + of_nat (4 * k)) = [h, 12, i] ! k"
    and r: "ipc_cmd E s = (let s = s\<lparr>aw := set_comp_data (comp_data E) m (aw s)\<rparr>; header = [h, 12, i] ! 0; type = glb_type_of header in
          if type = 1 then Some (0, s) else if type = 2 then Some (- EINVAL, s) else if type = 3 then ipc_glb_tplg_message E header s
          else if type = 4 then ipc_glb_pm_message E header s else if type = 5 then ipc_glb_comp_message E header s
          else if type = 6 then ipc_glb_stream_message E header s else Some (- EINVAL, s))"
    using cmd_words [OF assms(1,2)] by blast
  let ?s = "s\<lparr>aw := set_comp_data (comp_data E) m (aw s)\<rparr>"
  have "load32 m (comp_data E + of_nat (4 * 2)) = [h, 12, i] ! 2" using m by (rule allE [of _ 2]) simp
  then have f: "field E 8 ?s = i" by simp
  have "ipc_cmd E s = ipc_stream_trigger E h ?s"
    using r assms(3,4) by (auto simp: Let_def ipc_glb_stream_message_def)
  then show ?thesis unfolding ipc_stream_trigger_def f using assms(5) trigger_cmd_header [OF assms(3)]
    by (intro exI [of _ m]) simp
qed

section \<open>What is refused\<close>

text \<open>
  a message longer than 128 bytes is refused with -EINVAL, and the objects, the queue, the components
  and the heaps are left alone; one that is shorter than its header makes the firmware copy past every bound.
\<close>
theorem message_sizes:
  assumes "take 8 (inbox (hq s)) = msg_bytes [h, sz]" "fits (comp_data E) 128"
  shows "(128 < sz \<longrightarrow> (\<exists>s'. ipc_cmd E s = Some (- EINVAL, s') \<and> reg s' = reg s \<and> hq s' = hq s \<and>
      devs (aw s') = devs (aw s) \<and> bufs (aw s') = bufs (aw s) \<and> mm (aw s') = mm (aw s))) \<and>
    (sz < 8 \<longrightarrow> ipc_cmd E s = None)"
proof -
  let ?c = "comp_data E"
  let ?m = "store_bytes ?c (msg_bytes [h, sz]) (pcm_put ?c (pcms (aw s) ?c) (wmem (aw s)))"
  have "fits ?c (4 * length [h, sz])" by (rule fits_le [OF assms(2)]) simp
  then have f: "load32 ?m (?c + 4) = sz" using load32_store_bytes [of ?c "[h, sz]" 1] by simp
  have i: "mailbox_inbox_read 8 (hq s) = msg_bytes [h, sz]" using assms(1) by (simp add: mailbox_inbox_read_def)
  have "\<exists>s'. ipc_cmd E s = Some (- EINVAL, s') \<and> reg s' = reg s \<and> hq s' = hq s \<and>
      devs (aw s') = devs (aw s) \<and> bufs (aw s') = bufs (aw s) \<and> mm (aw s') = mm (aw s)" if "128 < sz"
    using that by (simp add: ipc_cmd_def mailbox_validate_def Let_def i f SOF_IPC_MSG_MAX_SIZE_def)
  moreover have "ipc_cmd E s = None" if "sz < 8"
  proof -
    have "\<not> SOF_IPC_MSG_MAX_SIZE < sz" using that by (simp add: SOF_IPC_MSG_MAX_SIZE_def word_less_nat_alt)
    then show ?thesis using that by (simp add: ipc_cmd_def mailbox_validate_def Let_def i f)
  qed
  ultimately show ?thesis by blast
qed

section \<open>Page tables\<close>

text \<open>The table the host writes: 20 bits for each page, two pages in five bytes.\<close>

fun pack_pages :: "u32 list \<Rightarrow> u8 list" where
  "pack_pages [] = []"
| "pack_pages [p] = [byte_of 0 p, byte_of 1 p, byte_of 2 p]"
| "pack_pages (p # q # ps) =
     byte_of 0 p # byte_of 1 p # (byte_of 2 p OR ucast (push_bit 4 q)) # byte_of 0 (drop_bit 4 q) # byte_of 1 (drop_bit 4 q) # pack_pages ps"

lemma mask_page: "(0xfffff000 :: u32) = NOT (mask 12)"
  by (simp add: mask_eq_exp_minus_1)

lemma page_even:
  fixes p :: u32 and x :: u8
  assumes "p < 2 ^ 20" "\<And>k. k < 4 \<Longrightarrow> \<not> bit x k"
  shows "push_bit 12 (ucast (byte_of 0 p) OR push_bit 8 (ucast (byte_of 1 p)) OR push_bit 16 (ucast (byte_of 2 p OR x))) AND 0xfffff000 = (push_bit 12 p :: u32)"
  unfolding mask_page
proof (rule bit_word_eqI)
  fix n assume "n < LENGTH(32)"
  then have n: "n < 32" by simp
  then consider "n < 12" | "12 \<le> n" "n < 20" | "20 \<le> n" "n < 28" | "28 \<le> n" by linarith
  then show "bit (push_bit 12 (ucast (byte_of 0 p) OR push_bit 8 (ucast (byte_of 1 p)) OR push_bit 16 (ucast (byte_of 2 p OR x))) AND NOT (mask 12) :: u32) n = bit (push_bit 12 p :: u32) n"
    using n assms(2) [of "n - 28"] by cases (auto simp: byte_of_def bit_simps)
qed

lemma page_odd:
  fixes p q :: u32
  assumes "p < 2 ^ 20" "q < 2 ^ 20"
  shows "push_bit 8 (ucast (byte_of 2 p OR ucast (push_bit 4 q) :: u8) OR push_bit 8 (ucast (byte_of 0 (drop_bit 4 q))) OR push_bit 16 (ucast (byte_of 1 (drop_bit 4 q)))) AND 0xfffff000
    = (push_bit 12 q :: u32)"
  unfolding mask_page
proof (rule bit_word_eqI)
  fix n assume "n < LENGTH(32)"
  then have n: "n < 32" by simp
  then consider "n < 12" | "12 \<le> n" "n < 16" | "16 \<le> n" "n < 24" | "24 \<le> n" by linarith
  then show "bit (push_bit 8 (ucast (byte_of 2 p OR ucast (push_bit 4 q) :: u8) OR push_bit 8 (ucast (byte_of 0 (drop_bit 4 q) :: u8)) OR push_bit 16 (ucast (byte_of 1 (drop_bit 4 q) :: u8))) AND NOT (mask 12) :: u32) n
    = bit (push_bit 12 q :: u32) n"
    using n below_bits [OF assms(1)] by cases (auto simp: byte_of_def bit_simps)
qed

lemma pack_even:
  "2 * j < length ps \<Longrightarrow> 5 * j + 2 < length (pack_pages ps) \<and> pack_pages ps ! (5 * j) = byte_of 0 (ps ! (2 * j)) \<and> pack_pages ps ! (5 * j + 1) = byte_of 1 (ps ! (2 * j)) \<and>
    (\<exists>x. pack_pages ps ! (5 * j + 2) = byte_of 2 (ps ! (2 * j)) OR x \<and> (\<forall>k < 4. \<not> bit x k))"
proof (induction ps arbitrary: j rule: pack_pages.induct)
  case (2 p)
  then show ?case by (auto intro!: exI [of _ 0])
next
  case (3 p q ps)
  show ?case
  proof (cases j)
    case 0
    then show ?thesis by (auto intro!: exI [of _ "ucast (push_bit 4 q)"] simp: bit_simps)
  next
    case (Suc i)
    then have "5 * j = Suc (Suc (Suc (Suc (Suc (5 * i)))))" by simp
    then show ?thesis using 3 Suc by simp
  qed
qed simp

lemma pack_odd:
  "2 * j + 1 < length ps \<Longrightarrow> 5 * j + 4 < length (pack_pages ps) \<and>
    pack_pages ps ! (5 * j + 2) = (byte_of 2 (ps ! (2 * j)) OR ucast (push_bit 4 (ps ! (2 * j + 1)))) \<and>
    pack_pages ps ! (5 * j + 3) = byte_of 0 (drop_bit 4 (ps ! (2 * j + 1))) \<and> pack_pages ps ! (5 * j + 4) = byte_of 1 (drop_bit 4 (ps ! (2 * j + 1)))"
proof (induction ps arbitrary: j rule: pack_pages.induct)
  case (3 p q ps)
  show ?case
  proof (cases j)
    case 0
    then show ?thesis by (simp add: numeral_eq_Suc)
  next
    case (Suc i)
    then have "5 * j = Suc (Suc (Suc (Suc (Suc (5 * i)))))" by simp
    then show ?thesis using 3 Suc by (simp add: add.commute)
  qed
qed simp_all

lemma page_index:
  assumes "i < 2 ^ 28"
  shows "drop_bit 1 (push_bit 2 (of_nat i) + of_nat i :: u32) = of_nat (5 * i div 2)" "(of_nat i AND 1 \<noteq> (0 :: u32)) = odd i"
proof -
  have "push_bit 2 (of_nat i) + of_nat i = (of_nat (5 * i) :: u32)" by (simp add: push_bit_eq_mult algebra_simps)
  then show "drop_bit 1 (push_bit 2 (of_nat i) + of_nat i :: u32) = of_nat (5 * i div 2)"
  proof -
    have "unat (of_nat (5 * i) :: u32) = 5 * i" "unat (of_nat (5 * i div 2) :: u32) = 5 * i div 2" using assms by (intro unat_of_nat_fits; simp)+
    then have "unat (drop_bit 1 (of_nat (5 * i) :: u32)) = unat (of_nat (5 * i div 2) :: u32)" by (simp add: drop_bit_eq_div unat_div_distrib del: of_nat_mult)
    then show ?thesis unfolding \<open>push_bit 2 (of_nat i) + of_nat i = (of_nat (5 * i) :: u32)\<close> by (simp only: word_unat_eq_iff)
  qed
  have "unat (of_nat i :: u32) = i" using assms by (intro unat_of_nat_fits) simp
  then have "unat (of_nat i AND 1 :: u32) = i mod 2" by (simp only: unsigned_and_eq unsigned_1) (simp only: and_one_eq)
  moreover have "(of_nat i AND 1 \<noteq> (0 :: u32)) = (unat (of_nat i AND 1 :: u32) \<noteq> 0)" by (simp only: unat_eq_zero)
  ultimately show "(of_nat i AND 1 \<noteq> (0 :: u32)) = odd i" by (simp only: odd_iff_mod_2_eq_one) simp
qed

text \<open>
  C23: decoding the packed table gives back the pages: entry \<open>i\<close> is the address of page \<open>i\<close> of the table
  the host packed.
\<close>
theorem page_table_roundtrip:
  assumes "\<forall>p \<in> set ps. p < 2 ^ 20" "\<forall>k < length (pack_pages ps). m (pt + of_nat k) = pack_pages ps ! k" "i < length ps" "length ps < 2 ^ 28"
  shows "page_entry m pt (of_nat i) = push_bit 12 (ps ! i)"
proof -
  have l: "i < 2 ^ 28" using assms(3,4) by simp
  note x = page_index [OF l]
  show ?thesis
  proof (cases "odd i")
    case False
    then obtain j where j: "i = 2 * j" by blast
    then have "5 * i div 2 = 5 * j" by simp
    obtain e where p: "5 * j + 2 < length (pack_pages ps)" "pack_pages ps ! (5 * j) = byte_of 0 (ps ! i)" "pack_pages ps ! (5 * j + 1) = byte_of 1 (ps ! i)"
      "pack_pages ps ! (5 * j + 2) = byte_of 2 (ps ! i) OR e" "\<forall>k < 4. \<not> bit e k"
      using pack_even [of j ps] assms(3) j by auto
    have m: "m (pt + of_nat (5 * j + k)) = pack_pages ps ! (5 * j + k)" if "k \<le> 2" for k
      by (rule assms(2) [rule_format]) (use p(1) that in linarith)
    have "page_entry m pt (of_nat i) = push_bit 12 (ucast (m (pt + of_nat (5 * j + 0))) OR push_bit 8 (ucast (m (pt + of_nat (5 * j + 1))))
        OR push_bit 16 (ucast (m (pt + of_nat (5 * j + 2))))) AND 0xfffff000"
      using False by (simp only: page_entry_def Let_def x \<open>5 * i div 2 = 5 * j\<close> if_False not_not of_nat_add) (simp add: add.commute)
    also have "\<dots> = push_bit 12 (ps ! i)"
    proof -
      have "m (pt + of_nat (5 * j + 0)) = byte_of 0 (ps ! i)" "m (pt + of_nat (5 * j + 1)) = byte_of 1 (ps ! i)" "m (pt + of_nat (5 * j + 2)) = byte_of 2 (ps ! i) OR e"
        using m [of 0] m [of 1] m [of 2] p by simp_all
      moreover have "ps ! i < 2 ^ 20" using assms(1,3) by simp
      ultimately show ?thesis using page_even p(5) by simp
    qed
    finally show ?thesis .
  next
    case True
    then obtain j where j: "i = 2 * j + 1" by (elim oddE)
    then have "5 * i div 2 = 5 * j + 2" by simp
    have p: "5 * j + 4 < length (pack_pages ps)" "pack_pages ps ! (5 * j + 2) = (byte_of 2 (ps ! (2 * j)) OR ucast (push_bit 4 (ps ! i)))"
      "pack_pages ps ! (5 * j + 3) = byte_of 0 (drop_bit 4 (ps ! i))" "pack_pages ps ! (5 * j + 4) = byte_of 1 (drop_bit 4 (ps ! i))"
      using pack_odd [of j ps] assms(3) j by auto
    have m: "m (pt + of_nat (5 * j + k)) = pack_pages ps ! (5 * j + k)" if "k \<le> 4" for k
      by (rule assms(2) [rule_format]) (use p(1) that in linarith)
    have "page_entry m pt (of_nat i) = push_bit 8 (ucast (m (pt + of_nat (5 * j + 2))) OR push_bit 8 (ucast (m (pt + of_nat (5 * j + 3))))
        OR push_bit 16 (ucast (m (pt + of_nat (5 * j + 4))))) AND 0xfffff000"
      using True by (simp only: page_entry_def Let_def x \<open>5 * i div 2 = 5 * j + 2\<close> if_True) (simp add: add.commute)
    also have "\<dots> = push_bit 12 (ps ! i)"
      using page_odd [of "ps ! (2 * j)" "ps ! i"] p m [of 2] m [of 3] m [of 4] assms(1,3) j by simp
    finally show ?thesis .
  qed
qed

section \<open>Examples\<close>

text \<open>One component, whose command stores the first value, and a message in the inbox.\<close>

definition dispatch_ops :: "world comp_ops" where
  "dispatch_ops = \<lparr>op_new = (\<lambda>c w. Some (0, w)), op_free = (\<lambda>d w. Some w), op_params = (\<lambda>d p w. Some (0, w)), op_preload = (\<lambda>d w. Some (0, w)),
     op_cmd = (\<lambda>d c v w. Some (0, upd_dev d (\<lambda>r. r\<lparr>priv := (case v of [] \<Rightarrow> word_of_int c | x # _ \<Rightarrow> snd x)\<rparr>) w)), op_prepare = (\<lambda>d w. Some (0, w)),
     op_reset = (\<lambda>d w. Some (0, w)), op_copy = (\<lambda>d w. Some (0, w))\<rparr>"

lemma dispatch_op_cmd: "op_cmd dispatch_ops d c v w = Some (0, upd_dev d (\<lambda>r. r\<lparr>priv := (case v of [] \<Rightarrow> word_of_int c | x # _ \<Rightarrow> snd x)\<rparr>) w)"
  by (simp add: dispatch_ops_def)

definition idle_dma :: "world dma_ops" where
  "idle_dma = \<lparr>channel_get = (\<lambda>w. (0, w)), channel_put = (\<lambda>c w. w), dma_start = (\<lambda>c w. (0, w)), dma_stop = (\<lambda>c k w. (0, w)),
     dma_pause = (\<lambda>c w. (0, w)), dma_release = (\<lambda>c w. (0, w)), set_config = (\<lambda>c g w. (0, w)), set_cb = (\<lambda>c k d w. w)\<rparr>"

definition dispatch_env :: "world ipc_env" where
  "dispatch_env = \<lparr>ops_of = (\<lambda>_. dispatch_ops), host_buffer_of = (\<lambda>_. None), dai_config_of = (\<lambda>_. None), dmac0 = idle_dma, wait_of = (\<lambda>t w. (0, w)),
     comp_data = 1000, page_table = 2000, junk_elem = \<lparr>e_src = 0, e_dest = 0, e_size = 0\<rparr>, reply_addr = 3000, walk_fuel = 5\<rparr>"

definition dispatch_demo :: "u32 list \<Rightarrow> world ipc_sys" where
  "dispatch_demo ws = \<lparr>reg = \<lparr>comp_list = [70], buffer_list = [], pipeline_list = [], icd_cd = (\<lambda>_. 1), ibd_cb = (\<lambda>_. 0), ipd_pipe = (\<lambda>_. 0), pipes = undefined\<rparr>,
     aw = empty_world, hq = msg_demo0\<lparr>inbox := msg_bytes ws @ replicate 100 0\<rparr>, ints_off = 0, timer_stopped = False\<rparr>"

lemma dispatch_demo_sel [simp]:
  "take (4 * length ws) (inbox (hq (dispatch_demo ws))) = msg_bytes ws" "comp_data dispatch_env = 1000" "ops_of dispatch_env = (\<lambda>_. dispatch_ops)"
  "fits 1000 128"
  by (simp_all add: dispatch_demo_def dispatch_env_def fits_def)

lemma dispatch_fits: "fits (comp_data dispatch_env) 128" by simp

lemma dispatch_demo_cd [simp]: "icd_cd (reg (dispatch_demo ws)) x = 1"
  by (simp add: dispatch_demo_def)

text \<open>\<open>SOF_IPC_GLB_COMP_MSG | SOF_IPC_COMP_SET_VOLUME\<close>, the request of the volume, and a trigger.\<close>

definition demo_id :: u32 where "demo_id = comp_id (comp (devs empty_world 1))"
definition demo_set :: "u32 list" where "demo_set = [0x50000000, 24, demo_id, of_nat (length [(0 :: u32, 7 :: u32)])] @ ctrl_words [(0, 7)]"
definition demo_get :: "u32 list" where "demo_get = [0x50010000, 24, demo_id, of_nat (length [(0 :: u32, 7 :: u32)])] @ ctrl_words [(0, 7)]"

lemma dispatch_comp: "ipc_get_comp (reg (dispatch_demo ws)) demo_id (aw (dispatch_demo ws)) = Some 70"
  by (simp add: dispatch_demo_def ipc_get_comp_def demo_id_def)

lemma demo_words: "message_words (hq (dispatch_demo demo_set)) demo_set" "message_words (hq (dispatch_demo demo_get)) demo_get"
  unfolding message_words_def dispatch_demo_sel by (simp_all add: demo_set_def demo_get_def ctrl_words_def)

lemma message_fields_witness:
  "\<exists>s'. mailbox_validate dispatch_env (dispatch_demo demo_set) = Some (True, s') \<and> field dispatch_env (of_nat (4 * 5)) s' = 7"
proof -
  obtain s' where "mailbox_validate dispatch_env (dispatch_demo demo_set) = Some (True, s')"
    "\<forall>i < length demo_set. field dispatch_env (of_nat (4 * i)) s' = demo_set ! i"
    using message_fields [OF demo_words(1) dispatch_fits] by blast
  moreover from this(2) have "field dispatch_env (of_nat (4 * 5)) s' = demo_set ! 5" by (rule allE [of _ 5]) (simp add: demo_set_def)
  ultimately show ?thesis by (intro exI [of _ s']) (simp add: demo_set_def ctrl_words_def)
qed

lemma set_value_applied_witness: "\<exists>s'. ipc_cmd dispatch_env (dispatch_demo demo_set) = Some (0, s') \<and> priv (devs (aw s') 1) = 7"
proof -
  have c: "glb_type_of 0x50000000 = 5" "(cmd_of 0x50000000, COMP_CMD_VOLUME) \<in> {(0, COMP_CMD_VOLUME), (2, COMP_CMD_ROUTE), (4, COMP_CMD_ROUTE), (6, COMP_CMD_SRC), (0x11, COMP_CMD_LOOPBACK)}"
    by (simp_all add: glb_type_of_def cmd_of_def)
  obtain m where "ipc_cmd dispatch_env (dispatch_demo demo_set) =
    lift_world (comp_cmd (ops_of dispatch_env) (icd_cd (reg (dispatch_demo demo_set)) 70) COMP_CMD_VOLUME [(0, 7)])
      ((dispatch_demo demo_set)\<lparr>aw := set_comp_data (comp_data dispatch_env) m (aw (dispatch_demo demo_set))\<rparr>)"
    using set_value_applied [OF demo_words(1) dispatch_fits demo_set_def c dispatch_comp] by blast
  then show ?thesis by (simp add: lift_world_def comp_cmd_def dispatch_op_cmd upd_dev_def)
qed

lemma value_request_lost_witness:
  "\<exists>s'. ipc_cmd dispatch_env (dispatch_demo demo_get) = Some (0, s') \<and> priv (devs (aw s') 1) = 7 \<and> hq s' = hq (dispatch_demo demo_get)"
proof -
  have c: "glb_type_of 0x50010000 = 5" "cmd_of 0x50010000 \<in> {1, 3, 5, 7}" by (simp_all add: glb_type_of_def cmd_of_def)
  obtain m where m: "ipc_cmd dispatch_env (dispatch_demo demo_get) = do {
      (ret, s) \<leftarrow> lift_world (comp_cmd (ops_of dispatch_env) (icd_cd (reg (dispatch_demo demo_get)) 70) COMP_CMD_VOLUME [(0, 7)])
        ((dispatch_demo demo_get)\<lparr>aw := set_comp_data (comp_data dispatch_env) m (aw (dispatch_demo demo_get))\<rparr>);
      if ret < 0 then Some (ret, s) else Some (0, mailbox_reply_swapped (comp_data dispatch_env) 80 s) }"
    and q: "\<forall>r s'. ipc_cmd dispatch_env (dispatch_demo demo_get) = Some (r, s') \<longrightarrow> hq s' = hq (dispatch_demo demo_get)"
    using value_request_lost [OF demo_words(2) dispatch_fits demo_get_def c dispatch_comp] by blast
  have "\<exists>s'. ipc_cmd dispatch_env (dispatch_demo demo_get) = Some (0, s') \<and> priv (devs (aw s') 1) = 7"
    unfolding m by (simp add: lift_world_def comp_cmd_def dispatch_op_cmd upd_dev_def mailbox_reply_swapped_def)
  then show ?thesis using q by blast
qed

text \<open>STOP, as \<open>SOF_IPC_GLB_STREAM_MSG | SOF_IPC_STREAM_TRIG_STOP\<close>, and what the component gets.\<close>

lemma trigger_releases_witness: "\<exists>s'. ipc_cmd dispatch_env (dispatch_demo [0x60050000, 12, demo_id]) = Some (0, s') \<and> priv (devs (aw s') 1) = word_of_int COMP_CMD_RELEASE"
proof -
  have w: "message_words (hq (dispatch_demo [0x60050000, 12, demo_id])) [0x60050000, 12, demo_id]" 
    unfolding message_words_def dispatch_demo_sel by simp
  have c: "glb_type_of 0x60050000 = 6" "cmd_of 0x60050000 \<in> {4, 5, 6, 7, 8, 9}" by (simp_all add: glb_type_of_def cmd_of_def)
  obtain m where m: "ipc_cmd dispatch_env (dispatch_demo [0x60050000, 12, demo_id]) = do {
    (_, s) \<leftarrow> lift_world (pipeline_cmd (walk_fuel dispatch_env) (ops_of dispatch_env) (icd_cd (reg (dispatch_demo [0x60050000, 12, demo_id])) 70) COMP_CMD_RELEASE [])
      ((dispatch_demo [0x60050000, 12, demo_id])\<lparr>aw := set_comp_data (comp_data dispatch_env) m (aw (dispatch_demo [0x60050000, 12, demo_id]))\<rparr>);
    Some (0, s) }"
    using trigger_releases [OF w dispatch_fits c dispatch_comp] by blast
  have f: "walk_fuel dispatch_env = Suc 4" by (simp add: dispatch_env_def)
  have d: "devs (aw (dispatch_demo ws)) = devs empty_world" "bsource_list (devs empty_world d) = []" "bsink_list (devs empty_world d) = []" for ws d
    by (simp_all add: dispatch_demo_def empty_world_def)
  have u: "component_op_upstream (Suc 4) t op 1 1 True w = Some (0, w)" if "bsource_list (devs w 1) = []" for t op and w :: world
    using component_op_upstream.simps(2) [of 4 t op 1 1 True w] that by simp
  have e: "component_op_downstream (Suc 4) (\<lambda>_. dispatch_ops) (Op_Cmd c []) 1 1 False w = Some (0, upd_dev 1 (\<lambda>r. r\<lparr>priv := word_of_int c\<rparr>) w)"
    if "bsink_list (devs w 1) = []" for c and w :: world
    using component_op_downstream.simps(2) [of 4 "\<lambda>_. dispatch_ops" "Op_Cmd c []" 1 1 False w] that by (simp add: comp_cmd_def dispatch_op_cmd upd_dev_def)
  show ?thesis unfolding m f
    by (simp add: u [simplified] e [simplified] lift_world_def pipeline_cmd_def up_then_down_def comp_cmd_def d dispatch_op_cmd upd_dev_def)
qed

lemma message_sizes_witness:
  "(\<exists>s'. ipc_cmd dispatch_env (dispatch_demo [0x60050000, 200]) = Some (- EINVAL, s')) \<and> ipc_cmd dispatch_env (dispatch_demo [0x60050000, 4]) = None"
proof -
  have t: "take 8 (inbox (hq (dispatch_demo [h, sz]))) = msg_bytes [h, sz]" for h sz using dispatch_demo_sel(1) [of "[h, sz]"] by simp
  show ?thesis using message_sizes [OF t dispatch_fits, of 200 "0x60050000"] message_sizes [OF t dispatch_fits, of 4 "0x60050000"] by auto
qed

lemma page_table_roundtrip_witness: "page_entry (\<lambda>a. (pack_pages [0x12345, 0x6789A, 0xBCDEF] @ replicate 8 0) ! unat (a - 2000)) 2000 (of_nat 1) = 0x6789A000"
proof -
  have "page_entry (\<lambda>a. (pack_pages [0x12345, 0x6789A, 0xBCDEF] @ replicate 8 0) ! unat (a - 2000)) 2000 (of_nat 1) = push_bit 12 ([0x12345, 0x6789A, 0xBCDEF] ! 1)"
  proof (rule page_table_roundtrip)
    show "\<forall>k < length (pack_pages [0x12345, 0x6789A, 0xBCDEF]). (pack_pages [0x12345, 0x6789A, 0xBCDEF] @ replicate 8 0) ! unat (2000 + of_nat k - (2000 :: u32)) = pack_pages [0x12345, 0x6789A, 0xBCDEF] ! k"
    proof (intro allI impI)
      fix k :: nat assume k: "k < length (pack_pages [0x12345, 0x6789A, 0xBCDEF])"
      then have "k < 8" by simp
      then have "unat (of_nat k :: u32) = k" by (intro unat_of_nat_fits) simp
      then show "(pack_pages [0x12345, 0x6789A, 0xBCDEF] @ replicate 8 0) ! unat (2000 + of_nat k - (2000 :: u32)) = pack_pages [0x12345, 0x6789A, 0xBCDEF] ! k"
        using k by (simp only: add_diff_cancel_left' nth_append if_True)
    qed
  qed simp_all
  then show ?thesis by simp
qed

end
