(* ===== verification/Reef_Host.thy ===== *)
theory Reef_Host
  imports Reef_Dma Reef_Msg
begin

text \<open>
  The host endpoint, src/src/audio/host.c: periods are moved by DMA between the scatter-gather pages of
  the host's ring and the periods of the DSP's ring; a period that meets the end of a page is moved in
  pieces. The elements of both lists are in the store \<open>elems\<close>, the lists are of their addresses. The
  fields of \<open>struct host_data\<close> have the prefix \<open>hd_\<close>; \<open>hd_cfg\<close> is the configuration but for its one
  element, which is at \<open>hd_elem\<close>.
\<close>

section \<open>State\<close>

record hc_buf =
  hc_elems :: "u32 list"
  hc_current :: u32
  current_end :: u32

datatype hc_ref = HC_null | HC_host | HC_local

record host_data =
  hd_chan :: int
  hd_cfg :: dma_sg_config
  hd_elem :: u32
  hd_complete :: u32
  hd_dma_buffer :: u32
  hd_period_count :: s32
  hd_host :: hc_buf
  hd_local :: hc_buf
  hd_host_size :: u32
  hd_host_pos :: u32
  hd_report_period :: u32
  hd_report_pos :: u32
  hd_local_pos :: u32
  hd_source :: hc_ref
  hd_sink :: hc_ref
  hd_split_remaining :: u32
  hd_next_inc :: u32
  hd_pcm :: u32
  hd_posn :: "u8 list"

record host_world = world +
  hosts :: "u32 \<Rightarrow> host_data"
  elems :: "u32 \<Rightarrow> dma_sg_elem"
  msgs :: host_ipc

definition upd_host :: "u32 \<Rightarrow> (host_data \<Rightarrow> host_data) \<Rightarrow> 'a host_world_scheme \<Rightarrow> 'a host_world_scheme" where
  "upd_host p f w = w\<lparr>hosts := (hosts w)(p := f (hosts w p))\<rparr>"

definition upd_elem :: "u32 \<Rightarrow> (dma_sg_elem \<Rightarrow> dma_sg_elem) \<Rightarrow> 'a host_world_scheme \<Rightarrow> 'a host_world_scheme" where
  "upd_elem e f w = w\<lparr>elems := (elems w)(e := f (elems w e))\<rparr>"

lemma upd_host_sel [simp]:
  "hosts (upd_buf b g w) = hosts w" "elems (upd_buf b g w) = elems w" "msgs (upd_buf b g w) = msgs w"
  "hosts (upd_dev d k w) = hosts w" "elems (upd_dev d k w) = elems w" "msgs (upd_dev d k w) = msgs w"
  "hosts (upd_host p f w) = (hosts w)(p := f (hosts w p))" "elems (upd_host p f w) = elems w" "msgs (upd_host p f w) = msgs w"
  "bufs (upd_host p f w) = bufs w" "devs (upd_host p f w) = devs w" "pcms (upd_host p f w) = pcms w" "mm (upd_host p f w) = mm w" "wmem (upd_host p f w) = wmem w"
  "elems (upd_elem e h w) = (elems w)(e := h (elems w e))" "hosts (upd_elem e h w) = hosts w" "msgs (upd_elem e h w) = msgs w"
  "bufs (upd_elem e h w) = bufs w" "devs (upd_elem e h w) = devs w" "pcms (upd_elem e h w) = pcms w" "mm (upd_elem e h w) = mm w" "wmem (upd_elem e h w) = wmem w"
  by (simp_all add: upd_host_def upd_elem_def upd_buf_def upd_dev_def)

text \<open>\<open>hd->source\<close> and \<open>hd->sink\<close> point to one of the two lists of the same record.\<close>

fun hc_get :: "hc_ref \<Rightarrow> host_data \<Rightarrow> hc_buf option" where
  "hc_get HC_null r = None"
| "hc_get HC_host r = Some (hd_host r)"
| "hc_get HC_local r = Some (hd_local r)"

fun hc_put :: "hc_ref \<Rightarrow> hc_buf \<Rightarrow> host_data \<Rightarrow> host_data" where
  "hc_put HC_null hc r = r"
| "hc_put HC_host hc r = r\<lparr>hd_host := hc\<rparr>"
| "hc_put HC_local hc r = r\<lparr>hd_local := hc\<rparr>"

section \<open>The call back of the DMA\<close>

text \<open>The element after the current one, from the last one the first.\<close>

definition next_buffer :: "hc_buf \<Rightarrow> u32 option" where
  "next_buffer hc = (case dropWhile (\<lambda>e. e \<noteq> hc_current hc) (hc_elems hc) of
     [] \<Rightarrow> None
   | [_] \<Rightarrow> first_of (hc_elems hc)
   | _ # e # _ \<Rightarrow> Some e)"

text \<open>\<open>update buffer positions\<close>: the piece just moved has been written to or read from the DSP's ring.\<close>

definition host_buffer_moved :: "u32 \<Rightarrow> u32 \<Rightarrow> 'a host_world_scheme \<Rightarrow> 'a host_world_scheme" where
  "host_buffer_moved p n w =
     (let hd = hosts w p; b = hd_dma_buffer hd in
      if direction (pcms w (hd_pcm hd)) = SOF_IPC_STREAM_PLAYBACK then
        (let w = upd_buf b (\<lambda>r. r\<lparr>w_ptr := w_ptr r + n\<rparr>) w;
             w = upd_buf b wrap_w w
         in upd_buf b comp_update_buffer_produce w)
      else
        (let w = upd_buf b (\<lambda>r. r\<lparr>r_ptr := r_ptr r + n\<rparr>) w;
             w = upd_buf b wrap_r w
         in upd_buf b comp_update_buffer_consume w))"

definition host_report :: "u32 \<Rightarrow> u32 \<Rightarrow> 'a host_world_scheme \<Rightarrow> 'a host_world_scheme" where
  "host_report p n w =
     (let hd = hosts w p;
          hd = hd\<lparr>hd_local_pos := hd_local_pos hd + n\<rparr>;
          hd = (if hd_host_size hd \<le> hd_local_pos hd then hd\<lparr>hd_local_pos := 0\<rparr> else hd);
          hd = hd\<lparr>hd_report_pos := hd_report_pos hd + n\<rparr>
      in if hd_report_period hd \<le> hd_report_pos hd then
           (let hd = hd\<lparr>hd_report_pos := 0\<rparr>;
                w = upd_host p (\<lambda>_. hd) w
            in if hd_host_pos hd \<noteq> 0
               then w\<lparr>wmem := store32 (wmem w) (hd_host_pos hd) (hd_local_pos hd), msgs := snd (ipc_stream_send_notification (hd_posn hd) (msgs w))\<rparr>
               else w)
         else upd_host p (\<lambda>_. hd) w)"

text \<open>Both positions move on; at the end of an element the next one begins.\<close>

definition host_advance :: "u32 \<Rightarrow> 'a host_world_scheme \<Rightarrow> 'a host_world_scheme option" where
  "host_advance p w =
     (let l = hd_elem (hosts w p); w = upd_elem l (\<lambda>e. e\<lparr>e_src := e_src e + e_size e, e_dest := e_dest e + e_size e\<rparr>) w in do {
        src \<leftarrow> hc_get (hd_source (hosts w p)) (hosts w p);
        w \<leftarrow> (if e_src (elems w l) = current_end src then do {
                e \<leftarrow> next_buffer src;
                let w = upd_host p (hc_put (hd_source (hosts w p)) (src\<lparr>hc_current := e, current_end := e_src (elems w e) + e_size (elems w e)\<rparr>)) w;
                Some (upd_elem l (\<lambda>r. r\<lparr>e_src := e_src (elems w e)\<rparr>) w) }
              else Some w);
        snk \<leftarrow> hc_get (hd_sink (hosts w p)) (hosts w p);
        if e_dest (elems w l) = current_end snk then do {
          e \<leftarrow> next_buffer snk;
          let w = upd_host p (hc_put (hd_sink (hosts w p)) (snk\<lparr>hc_current := e, current_end := e_dest (elems w e) + e_size (elems w e)\<rparr>)) w;
          Some (upd_elem l (\<lambda>r. r\<lparr>e_dest := e_dest (elems w e)\<rparr>) w) }
        else Some w })"

text \<open>The size of the next piece, and whether it belongs to the same period.\<close>

definition host_next_size :: "u32 \<Rightarrow> u32 \<Rightarrow> 'a host_world_scheme \<Rightarrow> (bool \<times> 'a host_world_scheme) option" where
  "host_next_size d p w =
     (let hd = hosts w p; l = hd_elem hd; e = elems w l; period = dev_period_bytes (devs w d) in do {
        src \<leftarrow> hc_get (hd_source hd) hd;
        snk \<leftarrow> hc_get (hd_sink hd) hd;
        let next_size = period;
        let next_size = (if current_end src < e_src e + next_size then current_end src - e_src e else next_size);
        let next_size = (if current_end snk < e_dest e + next_size then current_end snk - e_dest e else next_size);
        if hd_split_remaining hd = 0 then
          (let hd = (if next_size \<noteq> period then hd\<lparr>hd_split_remaining := period - next_size\<rparr> else hd)
           in Some (False, upd_elem l (\<lambda>e. e\<lparr>e_size := next_size\<rparr>) (upd_host p (\<lambda>_. hd) w)))
        else
          (let next_size = (if next_size < hd_split_remaining hd then next_size else hd_split_remaining hd);
               hd = hd\<lparr>hd_split_remaining := hd_split_remaining hd - next_size\<rparr>
           in Some (True, upd_elem l (\<lambda>e. e\<lparr>e_size := next_size\<rparr>) (upd_host p (\<lambda>_. hd) w))) })"

text \<open>The result is the transfer the controller is told to go on with, if any.\<close>

definition host_dma_cb :: "u32 \<Rightarrow> 'a host_world_scheme \<Rightarrow> (dma_sg_elem option \<times> 'a host_world_scheme) option" where
  "host_dma_cb d w =
     (let p = priv (devs w d); n = e_size (elems w (hd_elem (hosts w p))) in do {
        let w = host_buffer_moved p n w;
        let w = host_report p n w;
        w \<leftarrow> host_advance p w;
        (need_copy, w) \<leftarrow> host_next_size d p w;
        if need_copy then Some (Some (elems w (hd_elem (hosts w p))), w)
        else Some (None, upd_host p (\<lambda>hd. hd\<lparr>hd_complete := 1\<rparr>) w) })"

section \<open>The driver\<close>

definition sizeof_host_dev :: u32 where "sizeof_host_dev = 132"
definition sizeof_host_data :: u32 where "sizeof_host_data = 188"
definition zero_hc :: hc_buf where "zero_hc = \<lparr>hc_elems = [], hc_current = 0, current_end = 0\<rparr>"

definition zero_host_data :: host_data where
  "zero_host_data = \<lparr>hd_chan = 0, hd_cfg = zero_cfg, hd_elem = 0, hd_complete = 0, hd_dma_buffer = 0, hd_period_count = 0, hd_host = zero_hc, hd_local = zero_hc,
     hd_host_size = 0, hd_host_pos = 0, hd_report_period = 0, hd_report_pos = 0, hd_local_pos = 0, hd_source = HC_null, hd_sink = HC_null,
     hd_split_remaining = 0, hd_next_inc = 0, hd_pcm = 0, hd_posn = replicate 28 0\<rparr>"

definition host_new :: "'a host_world_scheme dma_ops \<Rightarrow> ipc_comp \<Rightarrow> 'a host_world_scheme \<Rightarrow> (u32 \<times> 'a host_world_scheme) option" where
  "host_new D c w = do {
     (d, w) \<leftarrow> zalloc sizeof_host_dev w;
     if d = 0 then Some (0, w)
     else do {
       let w = upd_dev d (\<lambda>_. zero_dev c) w;
       (p, w) \<leftarrow> zalloc sizeof_host_data w;
       if p = 0 then do { w \<leftarrow> free_one d w; Some (0, w) }
       else do {
         let w = upd_host p (\<lambda>_. zero_host_data) w;
         (e, w) \<leftarrow> zalloc sizeof_dma_sg_elem w;
         if e = 0 then do { w \<leftarrow> free_all [d, p] w; Some (0, w) }
         else do {
           let w = upd_elem e (\<lambda>_. zero_elem) w;
           let w = comp_set_endpoint d (upd_dev d (\<lambda>r. r\<lparr>priv := p\<rparr>) w);
           if dma_get 0 = None then do { w \<leftarrow> free_all [e, p, d] w; Some (0, w) }
           else do {
             let w = upd_host p (\<lambda>hd. hd\<lparr>hd_elem := e\<rparr>) w;
             let (chan, w) = channel_get D w;
             let w = upd_host p (\<lambda>hd. hd\<lparr>hd_chan := chan\<rparr>) w;
             if chan < 0 then do { w \<leftarrow> free_all [e, p, d] w; Some (0, w) }
             else Some (d, set_cb D chan 2 d w) } } } } }"

definition host_free :: "'a host_world_scheme dma_ops \<Rightarrow> u32 \<Rightarrow> 'a host_world_scheme \<Rightarrow> 'a host_world_scheme option" where
  "host_free D d w =
     (let p = priv (devs w d); e = hd_elem (hosts w p)
      in free_all [e, p, d] (channel_put D (hd_chan (hosts w p)) w))"

text \<open>One element for each period of the DSP's ring.\<close>

fun local_elems :: "nat \<Rightarrow> nat \<Rightarrow> u32 \<Rightarrow> u32 \<Rightarrow> bool \<Rightarrow> 'a host_world_scheme \<Rightarrow> (int \<times> 'a host_world_scheme) option" where
  "local_elems 0 i d p play w = Some (0, w)"
| "local_elems (Suc k) i d p play w = do {
     (e, w) \<leftarrow> zalloc sizeof_dma_sg_elem w;
     if e = 0 then do {
       w \<leftarrow> free_all (hc_elems (hd_local (hosts w p))) w;
       Some (- ENOMEM, upd_host p (\<lambda>hd. hd\<lparr>hd_local := (hd_local hd)\<lparr>hc_elems := []\<rparr>\<rparr>) w) }
     else
       (let period = dev_period_bytes (devs w d);
            a = addr (bufs w (hd_dma_buffer (hosts w p))) + of_nat i * period;
            r = (if play then zero_elem\<lparr>e_dest := a\<rparr> else zero_elem\<lparr>e_src := a\<rparr>);
            w = upd_elem e (\<lambda>_. r\<lparr>e_size := period\<rparr>) w;
            w = upd_host p (\<lambda>hd. hd\<lparr>hd_local := (hd_local hd)\<lparr>hc_elems := hc_elems (hd_local hd) @ [e]\<rparr>\<rparr>) w
        in local_elems k (Suc i) d p play w) }"

definition create_local_elems :: "u32 \<Rightarrow> u32 \<Rightarrow> 'a host_world_scheme \<Rightarrow> (int \<times> 'a host_world_scheme) option" where
  "create_local_elems d pcm w =
     (let p = priv (devs w d)
      in local_elems (nat (sint (hd_period_count (hosts w p)))) 0 d p (direction (pcms w pcm) = SOF_IPC_STREAM_PLAYBACK) w)"

definition host_elements_reset :: "u32 \<Rightarrow> 'a host_world_scheme \<Rightarrow> 'a host_world_scheme option" where
  "host_elements_reset d w =
     (let p = priv (devs w d) in do {
        src \<leftarrow> hc_get (hd_source (hosts w p)) (hosts w p);
        s \<leftarrow> first_of (hc_elems src);
        let w = upd_host p (hc_put (hd_source (hosts w p)) (src\<lparr>hc_current := s, current_end := e_src (elems w s) + e_size (elems w s)\<rparr>)) w;
        snk \<leftarrow> hc_get (hd_sink (hosts w p)) (hosts w p);
        t \<leftarrow> first_of (hc_elems snk);
        let w = upd_host p (hc_put (hd_sink (hosts w p)) (snk\<lparr>hc_current := t, current_end := e_dest (elems w t) + e_size (elems w t)\<rparr>)) w;
        let w = upd_elem (hd_elem (hosts w p)) (\<lambda>_. \<lparr>e_src = e_src (elems w s), e_dest = e_dest (elems w t), e_size = dev_period_bytes (devs w d)\<rparr>) w;
        Some (upd_host p (\<lambda>hd. hd\<lparr>hd_next_inc := dev_period_bytes (devs w d)\<rparr>) w) })"

text \<open>The division by the period is a fault while the period is 0, as \<open>host_new\<close> leaves it.\<close>

definition host_params :: "u32 \<Rightarrow> u32 \<Rightarrow> 'a host_world_scheme \<Rightarrow> (int \<times> 'a host_world_scheme) option" where
  "host_params d pcm w =
     (let p = priv (devs w d); w = upd_host p (\<lambda>hd. hd\<lparr>hd_pcm := pcm\<rparr>) w in do {
        w \<leftarrow> (if direction (pcms w pcm) = SOF_IPC_STREAM_PLAYBACK then
                (let w = comp_buffer_sink_params d pcm w in do {
                   b \<leftarrow> first_of (bsink_list (devs w d));
                   Some (upd_host p (\<lambda>hd. hd\<lparr>hd_source := HC_host, hd_sink := HC_local, hd_dma_buffer := b,
                           hd_cfg := (hd_cfg hd)\<lparr>dma_direction := DMA_DIR_HMEM_TO_LMEM\<rparr>\<rparr>) w) })
              else
                (let w = comp_set_source_params d pcm w in do {
                   b \<leftarrow> first_of (bsource_list (devs w d));
                   Some (upd_host p (\<lambda>hd. hd\<lparr>hd_source := HC_local, hd_sink := HC_host, hd_dma_buffer := b,
                           hd_cfg := (hd_cfg hd)\<lparr>dma_direction := DMA_DIR_LMEM_TO_HMEM\<rparr>\<rparr>) w) }));
        let b = hd_dma_buffer (hosts w p);
        let period = dev_period_bytes (devs w d);
        (if period = 0 then None
         else
           (let n = buf_size_field (bufs w b) div period;
                w = upd_host p (\<lambda>hd. hd\<lparr>hd_period_count := n\<rparr>) w
            in if \<not> n * period \<le> alloc_size (bufs w b) then Some (- EINVAL, w)
               else
                 (let w = upd_buf b (\<lambda>r. r\<lparr>buf_size_field := n * period\<rparr>) w
                  in if hd_host_size (hosts w p) mod period \<noteq> 0 then Some (- EINVAL, w)
                     else do {
                       (err, w) \<leftarrow> create_local_elems d pcm w;
                       if err < 0 then Some (err, w)
                       else do {
                         let w = upd_buf b (\<lambda>r. r\<lparr>r_ptr := addr r, w_ptr := addr r\<rparr>) w;
                         let w = upd_host p (\<lambda>hd. hd\<lparr>hd_cfg := (hd_cfg hd)\<lparr>src_width := 4, dest_width := 4, cyclic := 0\<rparr>\<rparr>) w;
                         w \<leftarrow> host_elements_reset d w;
                         Some (0, w) } }))) })"

definition host_preload :: "u32 \<Rightarrow> 'a host_world_scheme \<Rightarrow> (int \<times> 'a host_world_scheme) option" where
  "host_preload d w = Some (0, w)"

definition clear_host_pos :: "u32 \<Rightarrow> 'a host_world_scheme \<Rightarrow> 'a host_world_scheme" where
  "clear_host_pos p w = (if hd_host_pos (hosts w p) \<noteq> 0 then w\<lparr>wmem := store32 (wmem w) (hd_host_pos (hosts w p)) 0\<rparr> else w)"

definition host_prepare :: "u32 \<Rightarrow> 'a host_world_scheme \<Rightarrow> (int \<times> 'a host_world_scheme) option" where
  "host_prepare d w =
     (let p = priv (devs w d); pcm = hd_pcm (hosts w p) in do {
        b \<leftarrow> first_of (if direction (pcms w pcm) = SOF_IPC_STREAM_PLAYBACK then bsink_list (devs w d) else bsource_list (devs w d));
        let w = upd_buf b (\<lambda>r. r\<lparr>w_ptr := addr r, r_ptr := addr r\<rparr>) w;
        let w = clear_host_pos p (upd_host p (\<lambda>hd. hd\<lparr>hd_local_pos := 0\<rparr>) w);
        let w = upd_host p (\<lambda>hd. hd\<lparr>hd_report_pos := 0, hd_report_period := period_bytes (pcms w pcm), hd_split_remaining := 0\<rparr>) w;
        Some (0, set_state d COMP_STATE_PREPARE w) })"

definition host_pointer_reset :: "u32 \<Rightarrow> 'a host_world_scheme \<Rightarrow> 'a host_world_scheme" where
  "host_pointer_reset d w =
     (let p = priv (devs w d)
      in upd_host p (\<lambda>hd. hd\<lparr>hd_local_pos := 0, hd_report_pos := 0\<rparr>) (clear_host_pos p w))"

definition host_stop :: "u32 \<Rightarrow> 'a host_world_scheme \<Rightarrow> (int \<times> 'a host_world_scheme) option" where
  "host_stop d w = do {
     let w = host_pointer_reset d w;
     w \<leftarrow> host_elements_reset d w;
     let w = comp_buffer_reset d w;
     Some (0, set_state d COMP_STATE_SETUP w) }"

definition host_cmd :: "u32 \<Rightarrow> int \<Rightarrow> ctrl_values \<Rightarrow> 'a host_world_scheme \<Rightarrow> (int \<times> 'a host_world_scheme) option" where
  "host_cmd d c data w =
     (let st = state (devs w d) in
      if c = COMP_CMD_PAUSE then Some (0, if st = COMP_STATE_RUNNING then set_state d COMP_STATE_PAUSED w else w)
      else if c = COMP_CMD_STOP then
        (if st = COMP_STATE_RUNNING \<or> st = COMP_STATE_DRAINING \<or> st = COMP_STATE_PAUSED then host_stop d w else Some (0, w))
      else if c = COMP_CMD_RELEASE \<or> c = COMP_CMD_START then Some (0, set_state d COMP_STATE_RUNNING w)
      else Some (0, w))"

definition host_buffer :: "u32 \<Rightarrow> dma_sg_elem \<Rightarrow> u32 \<Rightarrow> 'a host_world_scheme \<Rightarrow> (int \<times> 'a host_world_scheme) option" where
  "host_buffer d e host_size w = do {
     (a, w) \<leftarrow> zalloc sizeof_dma_sg_elem w;
     if a = 0 then Some (- ENOMEM, w)
     else
       (let p = priv (devs w d); w = upd_elem a (\<lambda>_. e) w
        in Some (0, upd_host p (\<lambda>hd. hd\<lparr>hd_host_size := host_size, hd_host := (hd_host hd)\<lparr>hc_elems := hc_elems (hd_host hd) @ [a]\<rparr>\<rparr>) w)) }"

definition host_reset :: "u32 \<Rightarrow> 'a host_world_scheme \<Rightarrow> (int \<times> 'a host_world_scheme) option" where
  "host_reset d w =
     (let p = priv (devs w d) in do {
        w \<leftarrow> free_all (hc_elems (hd_host (hosts w p))) w;
        let w = upd_host p (\<lambda>hd. hd\<lparr>hd_host := (hd_host hd)\<lparr>hc_elems := []\<rparr>\<rparr>) w;
        w \<leftarrow> free_all (hc_elems (hd_local (hosts w p))) w;
        let w = upd_host p (\<lambda>hd. hd\<lparr>hd_local := (hd_local hd)\<lparr>hc_elems := []\<rparr>\<rparr>) w;
        let w = host_pointer_reset d w;
        let w = upd_host p (\<lambda>hd. hd\<lparr>hd_host_pos := 0, hd_report_period := 0, hd_source := HC_null, hd_sink := HC_null\<rparr>) w;
        Some (0, set_state d COMP_STATE_INIT w) })"

text \<open>\<open>wait\<close> returns when the call back has completed the transfer or the time is up.\<close>

definition host_copy :: "'a host_world_scheme dma_ops \<Rightarrow> (u32 \<Rightarrow> 'a host_world_scheme \<Rightarrow> int \<times> 'a host_world_scheme) \<Rightarrow> u32 \<Rightarrow>
    'a host_world_scheme \<Rightarrow> (int \<times> 'a host_world_scheme) option" where
  "host_copy D wait d w =
     (if state (devs w d) \<noteq> COMP_STATE_RUNNING then Some (0, w)
      else
        (let p = priv (devs w d);
             w = upd_host p (\<lambda>hd. hd\<lparr>hd_complete := 0\<rparr>) w;
             (_, w) = set_config D (hd_chan (hosts w p)) ((hd_cfg (hosts w p))\<lparr>sg_elems := [elems w (hd_elem (hosts w p))]\<rparr>) w;
             (_, w) = dma_start D (hd_chan (hosts w p)) w;
             (_, w) = wait 1333 w
         in Some (0, w)))"

end
