(* ===== verification/Reef_Host_Props.thy ===== *)
theory Reef_Host_Props
  imports Reef_Host Reef_Msg_Props Reef_Ring
begin

text \<open>
  The host endpoint: every period is moved in pieces that together are the next bytes of the host's ring
  of pages and of the DSP's ring, none of which crosses the end of an element; and parameters that cannot
  be set while the period is unknown.
\<close>

section \<open>A ring of segments\<close>

text \<open>The addresses of the bytes of a list of segments, and the segment and offset of a position of the ring.\<close>

definition seg_bytes :: "(u32 \<times> u32) list \<Rightarrow> u32 list" where
  "seg_bytes segs = concat (map (\<lambda>(a, n). map (\<lambda>k. a + of_nat k) [0 ..< unat n]) segs)"

definition cur_at :: "(u32 \<times> u32) list \<Rightarrow> nat \<Rightarrow> nat \<Rightarrow> nat \<Rightarrow> bool" where
  "cur_at segs x i j \<longleftrightarrow> i < length segs \<and> j < unat (snd (segs ! i)) \<and> x mod length (seg_bytes segs) = length (seg_bytes (take i segs)) + j"

lemma seg_bytes_append: "seg_bytes (xs @ ys) = seg_bytes xs @ seg_bytes ys"
  by (simp add: seg_bytes_def)

lemma seg_bytes_Cons: "seg_bytes (s # segs) = map (\<lambda>k. fst s + of_nat k) [0 ..< unat (snd s)] @ seg_bytes segs"
  by (cases s) (simp add: seg_bytes_def)

lemma seg_split:
  assumes "i < length segs"
  shows "seg_bytes segs = seg_bytes (take i segs) @ map (\<lambda>k. fst (segs ! i) + of_nat k) [0 ..< unat (snd (segs ! i))] @ seg_bytes (drop (Suc i) segs)"
  using id_take_nth_drop [OF assms] seg_bytes_append [of "take i segs" "segs ! i # drop (Suc i) segs"] by (simp add: seg_bytes_Cons)

lemma length_seg_bytes_Suc:
  "i < length segs \<Longrightarrow> length (seg_bytes (take (Suc i) segs)) = length (seg_bytes (take i segs)) + unat (snd (segs ! i))"
  by (simp add: take_Suc_conv_app_nth seg_bytes_append seg_bytes_Cons) (simp add: seg_bytes_def)

lemma cur_bound: "cur_at segs x i j \<Longrightarrow> length (seg_bytes (take i segs)) + unat (snd (segs ! i)) \<le> length (seg_bytes segs)"
  using seg_split [of i segs] by (simp add: cur_at_def)

lemma cur_bytes:
  assumes "cur_at segs x i j" "k < unat (snd (segs ! i)) - j"
  shows "seg_bytes segs ! ((x + k) mod length (seg_bytes segs)) = fst (segs ! i) + of_nat (j + k)"
proof -
  let ?T = "length (seg_bytes segs)" and ?b = "length (seg_bytes (take i segs))"
  have i: "i < length segs" "x mod ?T = ?b + j" using assms(1) by (simp_all add: cur_at_def)
  have "?b + j + k < ?T" using cur_bound [OF assms(1)] assms(2) by linarith
  then have "(x + k) mod ?T = ?b + (j + k)" using i(2) by (metis add.assoc mod_add_left_eq mod_less)
  moreover have "j + k < unat (snd (segs ! i))" using assms(2) by linarith
  ultimately show ?thesis using seg_split [OF i(1)] by (simp add: nth_append)
qed

lemma cur_advance:
  assumes "cur_at segs x i j" "n \<le> unat (snd (segs ! i)) - j" "\<forall>s \<in> set segs. 0 < unat (snd s)"
  shows "j + n < unat (snd (segs ! i)) \<Longrightarrow> cur_at segs (x + n) i (j + n)"
    "j + n = unat (snd (segs ! i)) \<Longrightarrow> cur_at segs (x + n) (if Suc i = length segs then 0 else Suc i) 0"
proof -
  let ?T = "length (seg_bytes segs)" and ?b = "length (seg_bytes (take i segs))"
  have i: "i < length segs" "x mod ?T = ?b + j" using assms(1) by (simp_all add: cur_at_def)
  show "cur_at segs (x + n) i (j + n)" if "j + n < unat (snd (segs ! i))"
  proof -
    have "?b + j + n < ?T" using cur_bound [OF assms(1)] that by linarith
    then have "(x + n) mod ?T = ?b + (j + n)" using i(2) by (metis add.assoc mod_add_left_eq mod_less)
    then show ?thesis using i that by (simp add: cur_at_def)
  qed
  show "cur_at segs (x + n) (if Suc i = length segs then 0 else Suc i) 0" if e: "j + n = unat (snd (segs ! i))"
  proof -
    have m: "(x + n) mod ?T = (?b + unat (snd (segs ! i))) mod ?T" using i(2) e by (metis add.assoc mod_add_left_eq)
    show ?thesis
    proof (cases "Suc i = length segs")
      case True
      then have "?b + unat (snd (segs ! i)) = ?T" using seg_split [OF i(1)] by (simp add: seg_bytes_def)
      moreover have "segs ! 0 \<in> set segs" using i(1) by (intro nth_mem) linarith
      ultimately show ?thesis using m True i(1) assms(3) by (auto simp: cur_at_def seg_bytes_def)
    next
      case False
      then have s: "Suc i < length segs" using i(1) by simp
      then have p: "0 < unat (snd (segs ! Suc i))" using assms(3) by simp
      have "length (seg_bytes (take (Suc i) segs)) + unat (snd (segs ! Suc i)) \<le> ?T" using seg_split [OF s] by simp
      then have "?b + unat (snd (segs ! i)) < ?T" using length_seg_bytes_Suc [OF i(1)] p by linarith
      then show ?thesis using m False s p length_seg_bytes_Suc [OF i(1)] by (simp add: cur_at_def)
    qed
  qed
qed

section \<open>The cursor of a list of elements\<close>

definition segs_of :: "(dma_sg_elem \<Rightarrow> u32) \<Rightarrow> 'a host_world_scheme \<Rightarrow> u32 list \<Rightarrow> (u32 \<times> u32) list" where
  "segs_of g w es = map (\<lambda>e. (g (elems w e), e_size (elems w e))) es"

lemma nth_segs [simp]: "i < length es \<Longrightarrow> segs_of g w es ! i = (g (elems w (es ! i)), e_size (elems w (es ! i)))" "length (segs_of g w es) = length es"
  by (simp_all add: segs_of_def)

text \<open>The list stands at position \<open>x\<close>, of which \<open>pos\<close> is the address; \<open>m\<close> bytes are left in the element.\<close>

definition hc_at :: "(dma_sg_elem \<Rightarrow> u32) \<Rightarrow> 'a host_world_scheme \<Rightarrow> hc_buf \<Rightarrow> u32 \<Rightarrow> nat \<Rightarrow> nat \<Rightarrow> bool" where
  "hc_at g w hc pos x m \<longleftrightarrow> (\<exists>i j. cur_at (segs_of g w (hc_elems hc)) x i j \<and> hc_current hc = hc_elems hc ! i \<and>
     current_end hc = g (elems w (hc_elems hc ! i)) + e_size (elems w (hc_elems hc ! i)) \<and>
     pos = g (elems w (hc_elems hc ! i)) + of_nat j \<and> m = unat (e_size (elems w (hc_elems hc ! i))) - j)"

text \<open>Elements of some bytes whose ends, and a period more, are addresses.\<close>

definition hc_ok :: "(dma_sg_elem \<Rightarrow> u32) \<Rightarrow> 'a host_world_scheme \<Rightarrow> nat \<Rightarrow> u32 list \<Rightarrow> bool" where
  "hc_ok g w P es \<longleftrightarrow> distinct es \<and> (\<forall>e \<in> set es. 0 < unat (e_size (elems w e)) \<and> unat (g (elems w e)) + unat (e_size (elems w e)) + P < 2 ^ 32)"

lemma next_buffer_nth:
  assumes "distinct (hc_elems hc)" "i < length (hc_elems hc)" "hc_current hc = hc_elems hc ! i"
  shows "next_buffer hc = Some (hc_elems hc ! (if Suc i = length (hc_elems hc) then 0 else Suc i))"
proof -
  let ?es = "hc_elems hc"
  let ?P = "\<lambda>e. e \<noteq> hc_current hc"
  have "\<And>e. e \<in> set (take i ?es) \<Longrightarrow> ?P e"
    using assms by (auto simp: in_set_conv_nth nth_eq_iff_index_eq)
  then have "dropWhile ?P ?es = dropWhile ?P (drop i ?es)"
    using dropWhile_append2 [of "take i ?es" ?P "drop i ?es"] by (metis append_take_drop_id)
  also have "\<dots> = drop i ?es" using assms(2,3) by (simp add: Cons_nth_drop_Suc [symmetric])
  finally have "dropWhile ?P ?es = drop i ?es" .
  then have "next_buffer hc = (case drop i ?es of [] \<Rightarrow> None | [_] \<Rightarrow> first_of ?es | _ # e # _ \<Rightarrow> Some e)" by (simp add: next_buffer_def)
  also have "drop i ?es = ?es ! i # drop (Suc i) ?es" using assms(2) by (simp add: Cons_nth_drop_Suc)
  finally show ?thesis
  proof (cases "Suc i = length ?es")
    case True
    then have "drop i ?es = [?es ! i]" using \<open>drop i ?es = _\<close> by simp
    moreover have "first_of ?es = Some (?es ! 0)" using assms(2) by (cases ?es) (simp_all add: first_of_def)
    ultimately show ?thesis using \<open>next_buffer hc = _\<close> True by simp
  next
    case False
    then have "drop (Suc i) ?es = ?es ! Suc i # drop (Suc (Suc i)) ?es" using assms(2) by (simp add: Cons_nth_drop_Suc)
    then show ?thesis using \<open>next_buffer hc = _\<close> \<open>drop i ?es = _\<close> False by simp
  qed
qed

text \<open>Moving on by \<open>n\<close> bytes, as \<open>host_advance\<close> does it for one of the two lists.\<close>

definition hc_moved :: "(dma_sg_elem \<Rightarrow> u32) \<Rightarrow> 'a host_world_scheme \<Rightarrow> u32 \<Rightarrow> hc_buf \<Rightarrow> (u32 \<times> hc_buf) option" where
  "hc_moved g w pos hc =
     (if pos = current_end hc then do {
        e \<leftarrow> next_buffer hc;
        Some (g (elems w e), hc\<lparr>hc_current := e, current_end := g (elems w e) + e_size (elems w e)\<rparr>) }
      else Some (pos, hc))"

lemma hc_at_moved:
  assumes "hc_at g w hc pos x m" "hc_ok g w P (hc_elems hc)" "unat n \<le> m"
  shows "\<exists>pos' hc' m'. hc_moved g w (pos + n) hc = Some (pos', hc') \<and> hc_elems hc' = hc_elems hc \<and> hc_at g w hc' pos' (x + unat n) m'"
proof -
  let ?es = "hc_elems hc"
  obtain i j where c: "cur_at (segs_of g w ?es) x i j" "hc_current hc = ?es ! i"
    "current_end hc = g (elems w (?es ! i)) + e_size (elems w (?es ! i))" "pos = g (elems w (?es ! i)) + of_nat j" "m = unat (e_size (elems w (?es ! i))) - j"
    using assms(1) by (auto simp: hc_at_def)
  let ?a = "g (elems w (?es ! i))" and ?s = "e_size (elems w (?es ! i))"
  have i: "i < length ?es" using c(1) by (simp add: cur_at_def)
  have j: "j < unat ?s" using c(1) i by (simp add: cur_at_def)
  have ok: "distinct ?es" "unat ?a + unat ?s + P < 2 ^ 32" using assms(2) i by (simp_all add: hc_ok_def)
  have pos: "\<forall>t \<in> set (segs_of g w ?es). 0 < unat (snd t)" using assms(2) by (auto simp: hc_ok_def segs_of_def)
  have nj: "unat n \<le> unat (snd (segs_of g w ?es ! i)) - j" using assms(3) c(5) i by simp
  note adv = cur_advance [OF c(1) nj pos]
  have jn: "j + unat n \<le> unat ?s" using assms(3) c(5) j by linarith
  have pn: "pos + n = ?a + of_nat (j + unat n)" by (simp add: c(4))
  have "unat (?a + of_nat (j + unat n)) = unat ?a + (j + unat n)" "unat (?a + ?s) = unat ?a + unat ?s"
    using ok(2) jn unat_count [of ?a "j + unat n"] unat_count [of ?a "unat ?s"] by simp_all
  then have e: "pos + n = current_end hc \<longleftrightarrow> j + unat n = unat ?s" unfolding pn c(3) word_unat_eq_iff by simp
  show ?thesis
  proof (cases "j + unat n = unat ?s")
    case False
    then have "cur_at (segs_of g w ?es) (x + unat n) i (j + unat n)" using adv(1) jn i by simp
    then have "hc_at g w hc (pos + n) (x + unat n) (unat ?s - (j + unat n))" unfolding hc_at_def using c(2,3) pn by blast
    moreover have "hc_moved g w (pos + n) hc = Some (pos + n, hc)" using False e by (simp add: hc_moved_def)
    ultimately show ?thesis by blast
  next
    case True
    let ?i = "if Suc i = length ?es then 0 else Suc i"
    let ?hc = "hc\<lparr>hc_current := ?es ! ?i, current_end := g (elems w (?es ! ?i)) + e_size (elems w (?es ! ?i))\<rparr>"
    have "cur_at (segs_of g w ?es) (x + unat n) ?i 0" using adv(2) True i by simp
    then have "hc_at g w ?hc (g (elems w (?es ! ?i))) (x + unat n) (unat (e_size (elems w (?es ! ?i))))"
      unfolding hc_at_def by (intro exI [of _ ?i] exI [of _ 0]) simp
    moreover have "hc_moved g w (pos + n) hc = Some (g (elems w (?es ! ?i)), ?hc)"
      using True e next_buffer_nth [OF ok(1) i c(2)] by (simp add: hc_moved_def)
    ultimately show ?thesis by auto
  qed
qed

text \<open>What it reads from the store is the elements of the list.\<close>

lemma segs_cong: "(\<And>e. e \<in> set es \<Longrightarrow> elems w' e = elems w e) \<Longrightarrow> segs_of g w' es = segs_of g w es"
  by (simp add: segs_of_def)

lemma hc_at_cong:
  assumes "\<And>e. e \<in> set (hc_elems hc) \<Longrightarrow> elems w' e = elems w e"
  shows "hc_at g w hc pos x m \<Longrightarrow> hc_at g w' hc pos x m" "hc_ok g w P (hc_elems hc) \<Longrightarrow> hc_ok g w' P (hc_elems hc)"
proof -
  have e: "elems w' (hc_elems hc ! i) = elems w (hc_elems hc ! i)" if "i < length (hc_elems hc)" for i
    using that assms by simp
  have s: "segs_of g w' (hc_elems hc) = segs_of g w (hc_elems hc)" using assms by (rule segs_cong)
  show "hc_at g w hc pos x m \<Longrightarrow> hc_at g w' hc pos x m"
    unfolding hc_at_def s cur_at_def using e by (fastforce simp del: nth_segs(1))
  show "hc_ok g w P (hc_elems hc) \<Longrightarrow> hc_ok g w' P (hc_elems hc)"
    unfolding hc_ok_def using assms by simp
qed

text \<open>The bytes of a piece within the element, and the limit the element puts on a size.\<close>

lemma hc_at_bytes:
  assumes "hc_at g w hc pos x m" "n \<le> m"
  shows "map (\<lambda>k. pos + of_nat k) [0 ..< n] =
    map (\<lambda>k. seg_bytes (segs_of g w (hc_elems hc)) ! ((x + k) mod length (seg_bytes (segs_of g w (hc_elems hc))))) [0 ..< n]"
proof -
  obtain i j where c: "cur_at (segs_of g w (hc_elems hc)) x i j" "pos = g (elems w (hc_elems hc ! i)) + of_nat j" "m = unat (e_size (elems w (hc_elems hc ! i))) - j"
    using assms(1) by (auto simp: hc_at_def)
  have i: "i < length (hc_elems hc)" using c(1) by (simp add: cur_at_def)
  show ?thesis
  proof (rule map_cong [OF refl])
    fix k assume "k \<in> set [0 ..< n]"
    then have "k < unat (snd (segs_of g w (hc_elems hc) ! i)) - j" using assms(2) c(3) i by simp
    from cur_bytes [OF c(1) this] show "pos + of_nat k = seg_bytes (segs_of g w (hc_elems hc)) ! ((x + k) mod length (seg_bytes (segs_of g w (hc_elems hc))))"
      using c(2) i by simp
  qed
qed

lemma hc_at_limit:
  assumes "hc_at g w hc pos x m" "hc_ok g w P (hc_elems hc)" "unat q \<le> P"
  shows "unat (if current_end hc < pos + q then current_end hc - pos else q) = min (unat q) m" "0 < m"
proof -
  obtain i j where c: "cur_at (segs_of g w (hc_elems hc)) x i j" "current_end hc = g (elems w (hc_elems hc ! i)) + e_size (elems w (hc_elems hc ! i))"
    "pos = g (elems w (hc_elems hc ! i)) + of_nat j" "m = unat (e_size (elems w (hc_elems hc ! i))) - j"
    using assms(1) by (auto simp: hc_at_def)
  let ?a = "g (elems w (hc_elems hc ! i))" and ?s = "e_size (elems w (hc_elems hc ! i))"
  have i: "i < length (hc_elems hc)" using c(1) by (simp add: cur_at_def)
  have j: "j < unat ?s" using c(1) i by (simp add: cur_at_def)
  have ok: "unat ?a + unat ?s + P < 2 ^ 32" using assms(2) i by (simp add: hc_ok_def)
  have e: "unat (current_end hc) = unat ?a + unat ?s" using ok unat_count [of ?a "unat ?s"] by (simp add: c(2))
  have p: "unat pos = unat ?a + j" using ok j unat_count [of ?a j] by (simp add: c(3))
  have q: "unat (pos + q) = unat ?a + j + unat q" using ok j assms(3) p unat_count [of pos "unat q"] by simp
  have "unat (current_end hc - pos) = m" using e p j c(4) by (subst unat_sub) (simp_all add: word_le_nat_alt)
  then show "unat (if current_end hc < pos + q then current_end hc - pos else q) = min (unat q) m"
    using e q c(4) j by (auto simp: word_less_nat_alt)
  show "0 < m" using j c(4) by simp
qed

lemma next_buffer_in: "next_buffer hc = Some e \<Longrightarrow> e \<in> set (hc_elems hc)"
  by (auto simp: next_buffer_def first_of_def split: list.splits dest!: arg_cong [where f = set] set_dropWhileD)

section \<open>One call of the call back\<close>

text \<open>The positions of the buffer and the report to the host leave lists and elements as they are.\<close>

lemma host_buffer_moved_sel [simp]:
  "hosts (host_buffer_moved p n w) = hosts w" "elems (host_buffer_moved p n w) = elems w" "devs (host_buffer_moved p n w) = devs w"
  by (simp_all add: host_buffer_moved_def Let_def)

lemma host_report_sel [simp]:
  "elems (host_report p n w) = elems w" "devs (host_report p n w) = devs w"
  "hd_source (hosts (host_report p n w) p) = hd_source (hosts w p)" "hd_sink (hosts (host_report p n w) p) = hd_sink (hosts w p)"
  "hd_elem (hosts (host_report p n w) p) = hd_elem (hosts w p)" "hd_split_remaining (hosts (host_report p n w) p) = hd_split_remaining (hosts w p)"
  "hd_host (hosts (host_report p n w) p) = hd_host (hosts w p)" "hd_local (hosts (host_report p n w) p) = hd_local (hosts w p)"
  by (simp_all add: host_report_def Let_def)

lemma hc_get_report [simp]: "hc_get r (hosts (host_report p n w) p) = hc_get r (hosts w p)"
  by (cases r) simp_all

lemma hc_get_put: "r \<noteq> HC_null \<Longrightarrow> hc_get r (hc_put r' hc h) = (if r = r' then Some hc else hc_get r h)"
  by (cases r; cases r') simp_all

lemma hc_put_sel [simp]:
  "hd_source (hc_put r hc h) = hd_source h" "hd_sink (hc_put r hc h) = hd_sink h" "hd_elem (hc_put r hc h) = hd_elem h"
  "hd_split_remaining (hc_put r hc h) = hd_split_remaining h"
  by (cases r; simp)+

lemma hc_put_id: "hc_get r h = Some hc \<Longrightarrow> hc_put r hc h = h"
  by (cases r) auto

text \<open>The two sides move on apart.\<close>

lemma host_advance_ok:
  assumes "hc_get (hd_source (hosts w p)) (hosts w p) = Some src" "hc_get (hd_sink (hosts w p)) (hosts w p) = Some snk" "hd_source (hosts w p) \<noteq> hd_sink (hosts w p)"
    and l: "hd_elem (hosts w p) = l" "l \<notin> set (hc_elems src)" "l \<notin> set (hc_elems snk)"
    and m: "hc_moved e_src w (e_src (elems w l) + e_size (elems w l)) src = Some (sp, src')"
      "hc_moved e_dest w (e_dest (elems w l) + e_size (elems w l)) snk = Some (dp, snk')"
  shows "\<exists>w'. host_advance p w = Some w' \<and> devs w' = devs w \<and> hosts w' p = hc_put (hd_sink (hosts w p)) snk' (hc_put (hd_source (hosts w p)) src' (hosts w p)) \<and>
    elems w' = (elems w)(l := \<lparr>e_src = sp, e_dest = dp, e_size = e_size (elems w l)\<rparr>)"
proof -
  let ?S = "hd_source (hosts w p)" and ?K = "hd_sink (hosts w p)"
  let ?e = "(elems w l)\<lparr>e_src := e_src (elems w l) + e_size (elems w l), e_dest := e_dest (elems w l) + e_size (elems w l)\<rparr>"
  let ?w = "upd_elem l (\<lambda>e. e\<lparr>e_src := e_src e + e_size e, e_dest := e_dest e + e_size e\<rparr>) w"
  have K: "?K \<noteq> HC_null" using assms(2) by auto
  have ns: "e \<noteq> l" if "next_buffer src = Some e" for e using next_buffer_in [OF that] l(2) by blast
  have nk: "e \<noteq> l" if "next_buffer snk = Some e" for e using next_buffer_in [OF that] l(3) by blast
  have "\<exists>w1. (if e_src (elems ?w l) = current_end src then do {
                e \<leftarrow> next_buffer src;
                let w = upd_host p (hc_put (hd_source (hosts ?w p)) (src\<lparr>hc_current := e, current_end := e_src (elems ?w e) + e_size (elems ?w e)\<rparr>)) ?w;
                Some (upd_elem l (\<lambda>r. r\<lparr>e_src := e_src (elems w e)\<rparr>) w) }
              else Some ?w) = Some w1 \<and> devs w1 = devs w \<and> hosts w1 p = hc_put ?S src' (hosts w p) \<and>
      elems w1 = (elems w)(l := ?e\<lparr>e_src := sp\<rparr>)"
  proof (cases "e_src (elems w l) + e_size (elems w l) = current_end src")
    case True
    then obtain e where e: "next_buffer src = Some e" "sp = e_src (elems w e)" "src' = src\<lparr>hc_current := e, current_end := e_src (elems w e) + e_size (elems w e)\<rparr>"
      using m(1) by (auto simp: hc_moved_def split: bind_splits)
    then show ?thesis using True ns [OF e(1)] by (simp add: Let_def)
  next
    case False
    then show ?thesis using m(1) hc_put_id [OF assms(1)] by (cases "elems w l") (auto simp: hc_moved_def)
  qed
  then obtain w1 where w1: "(if e_src (elems ?w l) = current_end src then do {
                e \<leftarrow> next_buffer src;
                let w = upd_host p (hc_put (hd_source (hosts ?w p)) (src\<lparr>hc_current := e, current_end := e_src (elems ?w e) + e_size (elems ?w e)\<rparr>)) ?w;
                Some (upd_elem l (\<lambda>r. r\<lparr>e_src := e_src (elems w e)\<rparr>) w) }
              else Some ?w) = Some w1" "devs w1 = devs w" "hosts w1 p = hc_put ?S src' (hosts w p)"
    "elems w1 = (elems w)(l := ?e\<lparr>e_src := sp\<rparr>)" by blast
  have snk: "hc_get (hd_sink (hosts w1 p)) (hosts w1 p) = Some snk" using assms(2,3) K by (simp add: w1 hc_get_put)
  have "host_advance p w = (if e_dest (elems w1 l) = current_end snk then do {
          e \<leftarrow> next_buffer snk;
          let w = upd_host p (hc_put (hd_sink (hosts w1 p)) (snk\<lparr>hc_current := e, current_end := e_dest (elems w1 e) + e_size (elems w1 e)\<rparr>)) w1;
          Some (upd_elem l (\<lambda>r. r\<lparr>e_dest := e_dest (elems w e)\<rparr>) w) }
        else Some w1)"
    using w1(1) assms(1) l(1) snk by (simp add: host_advance_def Let_def)
  moreover have "\<exists>w'. \<dots> = Some w' \<and> devs w' = devs w \<and> hosts w' p = hc_put ?K snk' (hc_put ?S src' (hosts w p)) \<and>
    elems w' = (elems w)(l := \<lparr>e_src = sp, e_dest = dp, e_size = e_size (elems w l)\<rparr>)"
  proof (cases "e_dest (elems w l) + e_size (elems w l) = current_end snk")
    case True
    then obtain e where e: "next_buffer snk = Some e" "dp = e_dest (elems w e)" "snk' = snk\<lparr>hc_current := e, current_end := e_dest (elems w e) + e_size (elems w e)\<rparr>"
      using m(2) by (auto simp: hc_moved_def split: bind_splits)
    then show ?thesis using True nk [OF e(1)] by (cases "elems w l") (simp add: Let_def w1)
  next
    case False
    then have d: "dp = e_dest (elems w l) + e_size (elems w l)" "snk' = snk" using m(2) by (auto simp: hc_moved_def)
    have "hc_put ?K snk (hc_put ?S src' (hosts w p)) = hc_put ?S src' (hosts w p)" using snk hc_put_id by (simp add: w1)
    then show ?thesis using False d by (cases "elems w l") (simp add: w1)
  qed
  ultimately show ?thesis by simp
qed

text \<open>
  The transfer that is set up is of \<open>n\<close> bytes at position \<open>x\<close> of both rings, \<open>S\<close> the addresses of the
  source and \<open>D\<close> those of the sink; \<open>r\<close> bytes of the period are to follow.
\<close>

definition piece_at :: "u32 \<Rightarrow> u32 list \<Rightarrow> u32 list \<Rightarrow> 'a host_world_scheme \<Rightarrow> nat \<Rightarrow> nat \<Rightarrow> nat \<Rightarrow> bool" where
  "piece_at d S D w x n r \<longleftrightarrow>
     (let hd = hosts w (priv (devs w d)); l = hd_elem hd; P = unat (dev_period_bytes (devs w d)) in
      hd_source hd \<noteq> hd_sink hd \<and> 0 < P \<and> 0 < n \<and> unat (e_size (elems w l)) = n \<and> unat (hd_split_remaining hd) = r \<and> r \<le> P \<and>
      (\<exists>src snk a b. hc_get (hd_source hd) hd = Some src \<and> hc_get (hd_sink hd) hd = Some snk \<and>
         l \<notin> set (hc_elems src) \<and> l \<notin> set (hc_elems snk) \<and> hc_ok e_src w P (hc_elems src) \<and> hc_ok e_dest w P (hc_elems snk) \<and>
         seg_bytes (segs_of e_src w (hc_elems src)) = S \<and> seg_bytes (segs_of e_dest w (hc_elems snk)) = D \<and>
         hc_at e_src w src (e_src (elems w l)) x a \<and> hc_at e_dest w snk (e_dest (elems w l)) x b \<and> n \<le> a \<and> n \<le> b))"

lemma piece_atI:
  assumes "priv (devs w d) = p" "hd_elem (hosts w p) = l" "unat (dev_period_bytes (devs w d)) = P"
    and "elems w l = \<lparr>e_src = sp, e_dest = dp, e_size = z\<rparr>" "unat z = n" "unat (hd_split_remaining (hosts w p)) = r"
    and "hd_source (hosts w p) \<noteq> hd_sink (hosts w p)" "0 < P" "0 < n" "r \<le> P"
    and "hc_get (hd_source (hosts w p)) (hosts w p) = Some src" "hc_get (hd_sink (hosts w p)) (hosts w p) = Some snk"
    and "l \<notin> set (hc_elems src)" "l \<notin> set (hc_elems snk)" "hc_ok e_src w P (hc_elems src)" "hc_ok e_dest w P (hc_elems snk)"
    and "seg_bytes (segs_of e_src w (hc_elems src)) = S" "seg_bytes (segs_of e_dest w (hc_elems snk)) = D"
    and "hc_at e_src w src sp x a" "hc_at e_dest w snk dp x b" "n \<le> a" "n \<le> b"
  shows "piece_at d S D w x n r"
  unfolding piece_at_def Let_def assms(1-6) using assms(5,7-22) by auto

definition src_bytes :: "dma_sg_elem \<Rightarrow> u32 list" where "src_bytes e = map (\<lambda>k. e_src e + of_nat k) [0 ..< unat (e_size e)]"
definition dest_bytes :: "dma_sg_elem \<Rightarrow> u32 list" where "dest_bytes e = map (\<lambda>k. e_dest e + of_nat k) [0 ..< unat (e_size e)]"

text \<open>The bytes of a ring from a position on.\<close>

definition ring_part :: "u32 list \<Rightarrow> nat \<Rightarrow> nat \<Rightarrow> u32 list" where
  "ring_part R x n = map (\<lambda>k. R ! ((x + k) mod length R)) [0 ..< n]"

lemma ring_part_add: "ring_part R x (n + r) = ring_part R x n @ ring_part R (x + n) r"
proof -
  have e: "[n ..< n + r] = map (\<lambda>k. k + n) [0 ..< r]" using map_add_upt [of n r] by (simp only: add.commute)
  show ?thesis unfolding ring_part_def upt_add_eq_append [OF le0, of n r] e by (simp add: comp_def ac_simps)
qed

abbreviation piece_of :: "u32 \<Rightarrow> 'a host_world_scheme \<Rightarrow> dma_sg_elem" where
  "piece_of d w \<equiv> elems w (hd_elem (hosts w (priv (devs w d))))"

lemma piece_bytes:
  assumes "piece_at d S D w x n r"
  shows "src_bytes (piece_of d w) = ring_part S x n" "dest_bytes (piece_of d w) = ring_part D x n"
  using assms hc_at_bytes by (force simp: piece_at_def Let_def src_bytes_def dest_bytes_def ring_part_def)+

lemma host_next_size_eq:
  assumes "hc_get (hd_source (hosts w p)) (hosts w p) = Some src" "hc_get (hd_sink (hosts w p)) (hosts w p) = Some snk"
    and "hd_elem (hosts w p) = l" "dev_period_bytes (devs w d) = q"
    and "s1 = (if current_end src < e_src (elems w l) + q then current_end src - e_src (elems w l) else q)"
    and "s2 = (if current_end snk < e_dest (elems w l) + s1 then current_end snk - e_dest (elems w l) else s1)"
  shows "host_next_size d p w =
    (if hd_split_remaining (hosts w p) = 0
     then Some (False, upd_elem l (\<lambda>e. e\<lparr>e_size := s2\<rparr>) (upd_host p (\<lambda>_. if s2 \<noteq> q then (hosts w p)\<lparr>hd_split_remaining := q - s2\<rparr> else hosts w p) w))
     else (let n = if s2 < hd_split_remaining (hosts w p) then s2 else hd_split_remaining (hosts w p)
       in Some (True, upd_elem l (\<lambda>e. e\<lparr>e_size := n\<rparr>) (upd_host p (\<lambda>_. (hosts w p)\<lparr>hd_split_remaining := hd_split_remaining (hosts w p) - n\<rparr>) w))))"
  unfolding host_next_size_def Let_def assms(1,2,3,4) Option.bind.simps assms(5,6) by (rule refl)

text \<open>A call ends the period, or goes on with the next piece of it.\<close>

lemma host_dma_cb_piece:
  assumes "piece_at d S D w x n r"
  shows "\<exists>k w' n'. host_dma_cb d w = Some (k, w') \<and> dev_period_bytes (devs w' d) = dev_period_bytes (devs w d) \<and>
    (if r = 0 then k = None \<and> n' \<le> unat (dev_period_bytes (devs w d)) \<and> piece_at d S D w' (x + n) n' (unat (dev_period_bytes (devs w d)) - n')
     else k = Some (piece_of d w') \<and> n' \<le> r \<and> piece_at d S D w' (x + n) n' (r - n'))"
proof -
  let ?p = "priv (devs w d)" and ?q = "dev_period_bytes (devs w d)"
  let ?h = "hosts w ?p" let ?l = "hd_elem ?h" let ?P = "unat ?q"
  obtain src snk a b where P: "hd_source ?h \<noteq> hd_sink ?h" "0 < ?P" "0 < n" "unat (e_size (elems w ?l)) = n" "unat (hd_split_remaining ?h) = r" "r \<le> ?P"
    and g: "hc_get (hd_source ?h) ?h = Some src" "hc_get (hd_sink ?h) ?h = Some snk"
    and l: "?l \<notin> set (hc_elems src)" "?l \<notin> set (hc_elems snk)" and ok: "hc_ok e_src w ?P (hc_elems src)" "hc_ok e_dest w ?P (hc_elems snk)"
    and R: "seg_bytes (segs_of e_src w (hc_elems src)) = S" "seg_bytes (segs_of e_dest w (hc_elems snk)) = D"
    and at: "hc_at e_src w src (e_src (elems w ?l)) x a" "hc_at e_dest w snk (e_dest (elems w ?l)) x b" "n \<le> a" "n \<le> b"
    using assms unfolding piece_at_def Let_def by blast
  let ?n = "e_size (elems w ?l)"
  let ?w1 = "host_report ?p ?n (host_buffer_moved ?p ?n w)"
  obtain sp src' a' where s: "hc_moved e_src w (e_src (elems w ?l) + ?n) src = Some (sp, src')" "hc_elems src' = hc_elems src" "hc_at e_src w src' sp (x + n) a'"
    using hc_at_moved [OF at(1) ok(1), of ?n] P(4) at(3) by auto
  obtain dp snk' b' where k: "hc_moved e_dest w (e_dest (elems w ?l) + ?n) snk = Some (dp, snk')" "hc_elems snk' = hc_elems snk" "hc_at e_dest w snk' dp (x + n) b'"
    using hc_at_moved [OF at(2) ok(2), of ?n] P(4) at(4) by auto
  have eq1: "hc_moved g ?w1 y hc = hc_moved g w y hc" for g y hc by (simp add: hc_moved_def)
  obtain w2 where w2: "host_advance ?p ?w1 = Some w2" "devs w2 = devs w" "hosts w2 ?p = hc_put (hd_sink ?h) snk' (hc_put (hd_source ?h) src' (hosts ?w1 ?p))"
    "elems w2 = (elems w)(?l := \<lparr>e_src = sp, e_dest = dp, e_size = ?n\<rparr>)"
    using host_advance_ok [of ?w1 ?p src snk ?l sp src' dp snk'] g P(1) l s(1) k(1) by (auto simp: eq1)
  have nn: "hd_source ?h \<noteq> HC_null" "hd_sink ?h \<noteq> HC_null" using g by auto
  have h2: "hd_source (hosts w2 ?p) = hd_source ?h" "hd_sink (hosts w2 ?p) = hd_sink ?h" "hd_elem (hosts w2 ?p) = ?l" "hd_split_remaining (hosts w2 ?p) = hd_split_remaining ?h"
    "hc_get (hd_source ?h) (hosts w2 ?p) = Some src'" "hc_get (hd_sink ?h) (hosts w2 ?p) = Some snk'"
    using nn P(1) by (auto simp: w2(3) hc_get_put)
  have same: "elems w2 e = elems w e" if "e \<in> set (hc_elems src') \<union> set (hc_elems snk')" for e using that l s(2) k(2) by (auto simp: w2(4))
  define s1 where "s1 = (if current_end src' < sp + ?q then current_end src' - sp else ?q)"
  define s2 where "s2 = (if current_end snk' < dp + s1 then current_end snk' - dp else s1)"
  have ok': "hc_ok e_src w ?P (hc_elems src')" "hc_ok e_dest w ?P (hc_elems snk')" using ok s(2) k(2) by simp_all
  have l1: "unat s1 = min ?P a'" "0 < a'" using hc_at_limit [OF s(3) ok'(1), of ?q] by (simp_all add: s1_def)
  have l2: "unat s2 = min (min ?P a') b'" "0 < b'" using hc_at_limit [OF k(3) ok'(2), of s1] l1 by (simp_all add: s2_def)
  let ?N = "if r = 0 then s2 else if s2 < hd_split_remaining ?h then s2 else hd_split_remaining ?h"
  let ?R = "if r = 0 then ?q - s2 else hd_split_remaining ?h - ?N"
  have z: "hd_split_remaining ?h = 0 \<longleftrightarrow> r = 0" using P(5) unat_eq_zero [of "hd_split_remaining ?h"] by simp
  have N: "unat ?N \<le> a'" "unat ?N \<le> b'" "0 < unat ?N" "unat ?N \<le> (if r = 0 then ?P else r)" "unat ?R = (if r = 0 then ?P else r) - unat ?N"
    using l1(2) l2 P(2,5) z by (auto simp: word_less_nat_alt unat_sub word_le_nat_alt min_def split: if_splits)
  obtain w3 where w3: "host_next_size d ?p w2 = Some (r \<noteq> 0, w3)" "devs w3 = devs w" "hosts w3 ?p = (hosts w2 ?p)\<lparr>hd_split_remaining := ?R\<rparr>"
    "elems w3 = (elems w)(?l := \<lparr>e_src = sp, e_dest = dp, e_size = ?N\<rparr>)"
  proof -
    have e2: "elems w2 ?l = \<lparr>e_src = sp, e_dest = dp, e_size = ?n\<rparr>" by (simp add: w2(4))
    have "host_next_size d ?p w2 =
      (if hd_split_remaining ?h = 0
       then Some (False, upd_elem ?l (\<lambda>e. e\<lparr>e_size := s2\<rparr>) (upd_host ?p (\<lambda>_. if s2 \<noteq> ?q then (hosts w2 ?p)\<lparr>hd_split_remaining := ?q - s2\<rparr> else hosts w2 ?p) w2))
       else (let n = if s2 < hd_split_remaining ?h then s2 else hd_split_remaining ?h
         in Some (True, upd_elem ?l (\<lambda>e. e\<lparr>e_size := n\<rparr>) (upd_host ?p (\<lambda>_. (hosts w2 ?p)\<lparr>hd_split_remaining := hd_split_remaining ?h - n\<rparr>) w2))))"
      using host_next_size_eq [of w2 ?p src' snk' ?l d ?q s1 s2] h2 w2(2) e2 s1_def s2_def by simp
    then have n: "host_next_size d ?p w2 = Some (r \<noteq> 0, upd_elem ?l (\<lambda>e. e\<lparr>e_size := ?N\<rparr>) (upd_host ?p (\<lambda>_. if r = 0 \<and> s2 = ?q then hosts w2 ?p else (hosts w2 ?p)\<lparr>hd_split_remaining := ?R\<rparr>) w2))"
      using z by (simp add: Let_def)
    have "hosts w2 ?p = (hosts w2 ?p)\<lparr>hd_split_remaining := 0\<rparr>" if "r = 0" using that z h2(4) by simp
    then show thesis using z by (intro that [OF n]) (auto simp: w2)
  qed
  let ?w4 = "if r \<noteq> 0 then w3 else upd_host ?p (\<lambda>hd. hd\<lparr>hd_complete := 1\<rparr>) w3"
  have cb: "host_dma_cb d w = Some (if r \<noteq> 0 then Some (elems w3 ?l) else None, ?w4)"
    using w2(1) w3(1,3) h2(3) by (simp add: host_dma_cb_def Let_def)
  have sel: "devs ?w4 = devs w" "elems ?w4 = elems w3" "hd_source (hosts ?w4 ?p) = hd_source ?h" "hd_sink (hosts ?w4 ?p) = hd_sink ?h" "hd_elem (hosts ?w4 ?p) = ?l"
    "hd_split_remaining (hosts ?w4 ?p) = ?R" using w3 h2 by simp_all
  have hg: "hc_get rr (h\<lparr>hd_split_remaining := y\<rparr>) = hc_get rr h" "hc_get rr (h\<lparr>hd_complete := z\<rparr>) = hc_get rr h" for rr h y z by (cases rr; simp)+
  have get: "hc_get (hd_source ?h) (hosts ?w4 ?p) = Some src'" "hc_get (hd_sink ?h) (hosts ?w4 ?p) = Some snk'" using w3(3) h2(5,6) by (simp_all add: hg)
  have same: "elems ?w4 e = elems w e" if "e \<in> set (hc_elems src') \<union> set (hc_elems snk')" for e using that l s(2) k(2) by (auto simp: sel(2) w3(4))
  note cs = hc_at_cong [of src' ?w4 w] segs_cong [of "hc_elems src'" ?w4 w]
  note ck = hc_at_cong [of snk' ?w4 w] segs_cong [of "hc_elems snk'" ?w4 w]
  have pc: "elems ?w4 ?l = \<lparr>e_src = sp, e_dest = dp, e_size = ?N\<rparr>" by (simp add: sel(2) w3(4))
  have "piece_at d S D ?w4 (x + n) (unat ?N) ((if r = 0 then ?P else r) - unat ?N)"
  proof (rule piece_atI [OF _ _ _ pc, where P = ?P and p = ?p and src = src' and snk = snk' and a = a' and b = b'])
    show "hc_at e_src ?w4 src' sp (x + n) a'" "hc_ok e_src ?w4 ?P (hc_elems src')" using cs(1,2) same s(3) ok'(1) by simp_all
    show "hc_at e_dest ?w4 snk' dp (x + n) b'" "hc_ok e_dest ?w4 ?P (hc_elems snk')" using ck(1,2) same k(3) ok'(2) by simp_all
    show "seg_bytes (segs_of e_src ?w4 (hc_elems src')) = S" "seg_bytes (segs_of e_dest ?w4 (hc_elems snk')) = D" using cs(3) ck(3) same R s(2) k(2) by simp_all
    show "hc_get (hd_source (hosts ?w4 ?p)) (hosts ?w4 ?p) = Some src'" "hc_get (hd_sink (hosts ?w4 ?p)) (hosts ?w4 ?p) = Some snk'"
      unfolding sel(3,4) by (rule get)+
    show "(if r = 0 then ?P else r) - unat ?N \<le> ?P" by (rule le_trans [OF diff_le_self]) (use P(6) in simp)
  qed (use P(1-4) N l s(2) k(2) sel in \<open>simp_all\<close>)
  moreover obtain m where "m = unat ?N" by blast
  ultimately have m: "piece_at d S D ?w4 (x + n) m ((if r = 0 then ?P else r) - m)" "m \<le> (if r = 0 then ?P else r)" using N(4) by simp_all
  show ?thesis
  proof (cases "r = 0")
    case True
    then show ?thesis using cb sel(1) m by (intro exI [of _ None] exI [of _ ?w4] exI [of _ m]) simp
  next
    case False
    then show ?thesis using cb sel(1,5) m by (intro exI [of _ "Some (elems w3 ?l)"] exI [of _ w3] exI [of _ m]) simp
  qed
qed

section \<open>A period\<close>

text \<open>The pieces the controller moves for one start: each transfer ends with a call of the call back.\<close>

fun host_pieces :: "nat \<Rightarrow> u32 \<Rightarrow> 'a host_world_scheme \<Rightarrow> (dma_sg_elem list \<times> 'a host_world_scheme) option" where
  "host_pieces 0 d w = None"
| "host_pieces (Suc n) d w = do {
     (go_on, w') \<leftarrow> host_dma_cb d w;
     case go_on of
       None \<Rightarrow> Some ([piece_of d w], w')
     | Some _ \<Rightarrow> do { (es, w'') \<leftarrow> host_pieces n d w'; Some (piece_of d w # es, w'') } }"

lemma host_pieces_mono: "host_pieces n d w = Some z \<Longrightarrow> n \<le> m \<Longrightarrow> host_pieces m d w = Some z"
proof (induction n arbitrary: m w z)
  case (Suc n)
  then obtain m' where m: "m = Suc m'" "n \<le> m'" by (cases m) auto
  obtain k w' where c: "host_dma_cb d w = Some (k, w')" using Suc.prems(1) by (auto split: bind_splits)
  show ?case
  proof (cases k)
    case None
    then show ?thesis using Suc.prems(1) m c by simp
  next
    case (Some e)
    then obtain y where y: "host_pieces n d w' = Some y" using Suc.prems(1) c by (auto split: bind_splits)
    then show ?thesis using Suc.IH [OF y m(2)] Suc.prems(1) m(1) c Some by simp
  qed
qed simp

lemma host_pieces_ok:
  "piece_at d S D w x n r \<Longrightarrow> \<exists>es w' n'. host_pieces (Suc r) d w = Some (es, w') \<and> dev_period_bytes (devs w' d) = dev_period_bytes (devs w d) \<and>
    concat (map src_bytes es) = ring_part S x (n + r) \<and> concat (map dest_bytes es) = ring_part D x (n + r) \<and>
    n' \<le> unat (dev_period_bytes (devs w d)) \<and> piece_at d S D w' (x + (n + r)) n' (unat (dev_period_bytes (devs w d)) - n')"
proof (induction r arbitrary: w x n rule: less_induct)
  case (less r)
  note b = piece_bytes [OF less.prems]
  obtain k w1 n1 where c: "host_dma_cb d w = Some (k, w1)" "dev_period_bytes (devs w1 d) = dev_period_bytes (devs w d)"
    "if r = 0 then k = None \<and> n1 \<le> unat (dev_period_bytes (devs w d)) \<and> piece_at d S D w1 (x + n) n1 (unat (dev_period_bytes (devs w d)) - n1)
     else k = Some (piece_of d w1) \<and> n1 \<le> r \<and> piece_at d S D w1 (x + n) n1 (r - n1)"
    using host_dma_cb_piece [OF less.prems] by blast
  show ?case
  proof (cases "r = 0")
    case True
    then show ?thesis using c b by (intro exI [of _ "[piece_of d w]"] exI [of _ w1] exI [of _ n1]) simp
  next
    case False
    then have k: "k = Some (piece_of d w1)" "n1 \<le> r" "piece_at d S D w1 (x + n) n1 (r - n1)" using c(3) by simp_all
    then have "0 < n1" by (simp add: piece_at_def Let_def)
    then have lt: "r - n1 < r" using False by simp
    obtain es w' n' where i: "host_pieces (Suc (r - n1)) d w1 = Some (es, w')" "dev_period_bytes (devs w' d) = dev_period_bytes (devs w1 d)"
      "concat (map src_bytes es) = ring_part S (x + n) (n1 + (r - n1))" "concat (map dest_bytes es) = ring_part D (x + n) (n1 + (r - n1))"
      "n' \<le> unat (dev_period_bytes (devs w1 d))" "piece_at d S D w' (x + n + (n1 + (r - n1))) n' (unat (dev_period_bytes (devs w1 d)) - n')"
      using less.IH [OF lt k(3)] by blast
    have "host_pieces r d w1 = Some (es, w')" using host_pieces_mono [OF i(1)] lt by simp
    then have "host_pieces (Suc r) d w = Some (piece_of d w # es, w')" using c(1) k(1) by simp
    moreover have "n1 + (r - n1) = r" using k(2) by simp
    ultimately show ?thesis using i c(2) b
      by (intro exI [of _ "piece_of d w # es"] exI [of _ w'] exI [of _ n']) (simp add: ring_part_add add.assoc)
  qed
qed

text \<open>Period after period.\<close>

fun host_periods :: "nat \<Rightarrow> u32 \<Rightarrow> 'a host_world_scheme \<Rightarrow> (dma_sg_elem list \<times> 'a host_world_scheme) option" where
  "host_periods 0 d w = Some ([], w)"
| "host_periods (Suc k) d w = do {
     (es, w) \<leftarrow> host_pieces (unat (dev_period_bytes (devs w d))) d w;
     (fs, w) \<leftarrow> host_periods k d w;
     Some (es @ fs, w) }"

lemma host_periods_ok:
  assumes "piece_at d S D w x n r" "n + r = unat (dev_period_bytes (devs w d))"
  shows "\<exists>es w'. host_periods k d w = Some (es, w') \<and>
    concat (map src_bytes es) = ring_part S x (k * unat (dev_period_bytes (devs w d))) \<and> concat (map dest_bytes es) = ring_part D x (k * unat (dev_period_bytes (devs w d)))"
  using assms
proof (induction k arbitrary: w x n r)
  case 0
  then show ?case by (simp add: ring_part_def)
next
  case (Suc k)
  let ?P = "unat (dev_period_bytes (devs w d))"
  obtain es w1 n1 where e: "host_pieces (Suc r) d w = Some (es, w1)" "dev_period_bytes (devs w1 d) = dev_period_bytes (devs w d)"
    "concat (map src_bytes es) = ring_part S x (n + r)" "concat (map dest_bytes es) = ring_part D x (n + r)"
    "n1 \<le> ?P" "piece_at d S D w1 (x + (n + r)) n1 (?P - n1)"
    using host_pieces_ok [OF Suc.prems(1)] by blast
  have "0 < n" using Suc.prems(1) by (simp add: piece_at_def Let_def)
  then have p: "host_pieces ?P d w = Some (es, w1)" using host_pieces_mono [OF e(1)] Suc.prems(2) by simp
  have "n1 + (?P - n1) = unat (dev_period_bytes (devs w1 d))" using e(2,5) by simp
  from Suc.IH [OF e(6) this] obtain fs w' where f: "host_periods k d w1 = Some (fs, w')"
    "concat (map src_bytes fs) = ring_part S (x + ?P) (k * ?P)" "concat (map dest_bytes fs) = ring_part D (x + ?P) (k * ?P)"
    using e(2) Suc.prems(2) by auto
  show ?case using p e(3,4) f Suc.prems(2) by (intro exI [of _ "es @ fs"] exI [of _ w']) (simp add: ring_part_add)
qed

text \<open>
  The lists are set up: the element of the transfers is on neither, no element is empty or reaches the
  end of the address space, and the first ones hold a period.
\<close>

definition host_setup :: "u32 \<Rightarrow> hc_buf \<Rightarrow> hc_buf \<Rightarrow> 'a host_world_scheme \<Rightarrow> bool" where
  "host_setup d src snk w \<longleftrightarrow>
     (let hd = hosts w (priv (devs w d)); l = hd_elem hd; P = unat (dev_period_bytes (devs w d)) in
      0 < P \<and> hd_source hd \<noteq> hd_sink hd \<and> hd_split_remaining hd = 0 \<and>
      hc_get (hd_source hd) hd = Some src \<and> hc_get (hd_sink hd) hd = Some snk \<and> hc_elems src \<noteq> [] \<and> hc_elems snk \<noteq> [] \<and>
      l \<notin> set (hc_elems src) \<and> l \<notin> set (hc_elems snk) \<and> hc_ok e_src w P (hc_elems src) \<and> hc_ok e_dest w P (hc_elems snk) \<and>
      P \<le> unat (e_size (elems w (hc_elems src ! 0))) \<and> P \<le> unat (e_size (elems w (hc_elems snk ! 0))))"

lemma hc_at_start:
  assumes "hc_elems hc = e # es" "0 < unat (e_size (elems w e))"
  shows "hc_at g w (hc\<lparr>hc_current := e, current_end := g (elems w e) + e_size (elems w e)\<rparr>) (g (elems w e)) 0 (unat (e_size (elems w e)))"
  using assms by (auto simp: hc_at_def cur_at_def seg_bytes_def segs_of_def intro!: exI [of _ 0])

lemma host_reset_start:
  assumes "host_setup d src snk w"
  shows "\<exists>w0. host_elements_reset d w = Some w0 \<and> dev_period_bytes (devs w0 d) = dev_period_bytes (devs w d) \<and>
    piece_at d (seg_bytes (segs_of e_src w (hc_elems src))) (seg_bytes (segs_of e_dest w (hc_elems snk))) w0 0 (unat (dev_period_bytes (devs w d))) 0"
proof -
  let ?p = "priv (devs w d)" and ?q = "dev_period_bytes (devs w d)"
  let ?h = "hosts w ?p" let ?l = "hd_elem ?h" and ?S = "hd_source ?h" and ?K = "hd_sink ?h"
  obtain s ss t ts where es: "hc_elems src = s # ss" "hc_elems snk = t # ts" using assms by (auto simp: host_setup_def Let_def neq_Nil_conv)
  note a = assms [unfolded host_setup_def Let_def]
  have nn: "?S \<noteq> HC_null" "?K \<noteq> HC_null" and ne: "?K \<noteq> ?S" using a by auto
  let ?src = "src\<lparr>hc_current := s, current_end := e_src (elems w s) + e_size (elems w s)\<rparr>"
  let ?snk = "snk\<lparr>hc_current := t, current_end := e_dest (elems w t) + e_size (elems w t)\<rparr>"
  let ?e = "\<lparr>e_src = e_src (elems w s), e_dest = e_dest (elems w t), e_size = ?q\<rparr>"
  let ?h2 = "(hc_put ?K ?snk (hc_put ?S ?src ?h))\<lparr>hd_next_inc := ?q\<rparr>"
  have "\<exists>w0. host_elements_reset d w = Some w0 \<and> devs w0 = devs w \<and> hosts w0 ?p = ?h2 \<and> elems w0 = (elems w)(?l := ?e)"
    using a nn es ne by (simp add: host_elements_reset_def Let_def first_of_def hc_get_put)
  then obtain w0 where w0: "host_elements_reset d w = Some w0" "devs w0 = devs w" "hosts w0 ?p = ?h2" "elems w0 = (elems w)(?l := ?e)" by blast
  have hg: "hc_get rr (h\<lparr>hd_next_inc := y\<rparr>) = hc_get rr h" for rr h y by (cases rr; simp)
  have get: "hc_get ?S ?h2 = Some ?src" "hc_get ?K ?h2 = Some ?snk" using nn a by (auto simp: hg hc_get_put)
  have sel: "hd_source ?h2 = ?S" "hd_sink ?h2 = ?K" "hd_elem ?h2 = ?l" "hd_split_remaining ?h2 = 0" using a by simp_all
  have same: "elems w0 e = elems w e" if "e \<in> set (hc_elems src) \<union> set (hc_elems snk)" for e using that a by (auto simp: w0(4))
  have pos: "0 < unat (e_size (elems w s))" "0 < unat (e_size (elems w t))" using a es by (simp_all add: hc_ok_def)
  note cs = hc_at_cong [of ?src w0 w] segs_cong [of "hc_elems src" w0 w]
  note ck = hc_at_cong [of ?snk w0 w] segs_cong [of "hc_elems snk" w0 w]
  have el: "elems w0 ?l = ?e" by (simp add: w0(4))
  have "piece_at d (seg_bytes (segs_of e_src w (hc_elems src))) (seg_bytes (segs_of e_dest w (hc_elems snk))) w0 0 (unat ?q) 0"
  proof (rule piece_atI [OF _ _ _ el, where P = "unat ?q" and p = ?p and src = ?src and snk = ?snk and a = "unat (e_size (elems w s))" and b = "unat (e_size (elems w t))"])
    show "hc_at e_src w0 ?src (e_src (elems w s)) 0 (unat (e_size (elems w s)))" using cs(1) same hc_at_start [OF es(1) pos(1)] by simp
    show "hc_at e_dest w0 ?snk (e_dest (elems w t)) 0 (unat (e_size (elems w t)))" using ck(1) same hc_at_start [OF es(2) pos(2)] by simp
    show "hc_ok e_src w0 (unat ?q) (hc_elems ?src)" "hc_ok e_dest w0 (unat ?q) (hc_elems ?snk)" using cs(2) ck(2) same a by simp_all
    show "seg_bytes (segs_of e_src w0 (hc_elems ?src)) = seg_bytes (segs_of e_src w (hc_elems src))"
      "seg_bytes (segs_of e_dest w0 (hc_elems ?snk)) = seg_bytes (segs_of e_dest w (hc_elems snk))" using cs(3) ck(3) same by simp_all
    show "hc_get (hd_source (hosts w0 ?p)) (hosts w0 ?p) = Some ?src" "hc_get (hd_sink (hosts w0 ?p)) (hosts w0 ?p) = Some ?snk"
      using get by (simp_all add: w0(3))
  qed (use a es w0(2,3) in \<open>simp_all\<close>)
  then show ?thesis using w0(1,2) by auto
qed

text \<open>
  C15: when the first element of the host's pages and the first of the DSP's ring hold a period at least
  (\<open>host_setup\<close>), whatever the sizes of the elements that follow, the pieces of any number of periods after
  a reset are, one after the other, the bytes of the source ring from its start, moved to
  the bytes of the sink ring from its start: none is lost, repeated or written outside the elements, and
  every period ends.
\<close>
theorem host_stream:
  assumes "host_setup d src snk w"
  shows "\<exists>w0 es w'. host_elements_reset d w = Some w0 \<and> host_periods k d w0 = Some (es, w') \<and>
    concat (map src_bytes es) = ring_part (seg_bytes (segs_of e_src w (hc_elems src))) 0 (k * unat (dev_period_bytes (devs w d))) \<and>
    concat (map dest_bytes es) = ring_part (seg_bytes (segs_of e_dest w (hc_elems snk))) 0 (k * unat (dev_period_bytes (devs w d)))"
proof -
  obtain w0 where w0: "host_elements_reset d w = Some w0" "dev_period_bytes (devs w0 d) = dev_period_bytes (devs w d)"
    "piece_at d (seg_bytes (segs_of e_src w (hc_elems src))) (seg_bytes (segs_of e_dest w (hc_elems snk))) w0 0 (unat (dev_period_bytes (devs w d))) 0"
    using host_reset_start [OF assms] by blast
  then show ?thesis using host_periods_ok [OF w0(3), of k] by simp
qed

text \<open>
  The parameters of a host component cannot be set: nothing in the sources assigns the size of a period
  to the component, \<open>host_new\<close> leaves it 0, and \<open>host_params\<close> divides by it.
\<close>

lemma host_params_no_period:
  assumes "dev_period_bytes (devs w d) = 0"
  shows "host_params d pcm w = None"
proof -
  have f: "devs (fold (\<lambda>b. upd_buf b f) l w) = devs w" for f l and w :: "'a host_world_scheme" by (induction l arbitrary: w) simp_all
  have "devs (comp_buffer_sink_params d pcm w) = devs w" for w :: "'a host_world_scheme" by (simp add: comp_buffer_sink_params_def f)
  moreover have "devs (comp_set_source_params d pcm w) = devs w" for w :: "'a host_world_scheme" by (simp add: comp_set_source_params_def f)
  ultimately show ?thesis using assms by (auto simp: host_params_def Let_def split: bind_splits if_splits)
qed

section \<open>An example\<close>

text \<open>Two pages of 10 and 7 bytes, a DSP ring of two periods of 8 bytes.\<close>

definition host_demo :: host_world where
  "host_demo = world.extend (empty_world\<lparr>devs := (\<lambda>_. (devs empty_world 1)\<lparr>dev_period_bytes := 8, priv := 500\<rparr>)\<rparr>)
     \<lparr>hosts = (\<lambda>_. zero_host_data\<lparr>hd_elem := 5, hd_source := HC_host, hd_sink := HC_local,
        hd_host := zero_hc\<lparr>hc_elems := [1, 2]\<rparr>, hd_local := zero_hc\<lparr>hc_elems := [3, 4]\<rparr>\<rparr>),
      elems = (\<lambda>_. zero_elem)(1 := \<lparr>e_src = 100, e_dest = 0, e_size = 10\<rparr>, 2 := \<lparr>e_src = 200, e_dest = 0, e_size = 7\<rparr>,
        3 := \<lparr>e_src = 0, e_dest = 300, e_size = 8\<rparr>, 4 := \<lparr>e_src = 0, e_dest = 308, e_size = 8\<rparr>),
      msgs = msg_demo0\<rparr>"

lemma host_demo_setup:
  "host_setup 1 (zero_hc\<lparr>hc_elems := [1, 2]\<rparr>) (zero_hc\<lparr>hc_elems := [3, 4]\<rparr>) host_demo" "dev_period_bytes (devs host_demo 1) = 8"
  by (simp_all add: host_demo_def host_setup_def hc_ok_def world.defs empty_world_def zero_host_data_def zero_hc_def Let_def)

lemma host_stream_witness:
  "\<exists>w0 es w'. host_elements_reset 1 host_demo = Some w0 \<and> host_periods 2 1 w0 = Some (es, w') \<and>
    concat (map src_bytes es) = [100, 101, 102, 103, 104, 105, 106, 107, 108, 109, 200, 201, 202, 203, 204, 205] \<and>
    concat (map dest_bytes es) = [300, 301, 302, 303, 304, 305, 306, 307, 308, 309, 310, 311, 312, 313, 314, 315]"
proof -
  obtain w0 es w' where w: "host_elements_reset 1 host_demo = Some w0" "host_periods 2 1 w0 = Some (es, w')"
    "concat (map src_bytes es) = ring_part (seg_bytes (segs_of e_src host_demo (hc_elems (zero_hc\<lparr>hc_elems := [1, 2]\<rparr>)))) 0 (2 * unat (dev_period_bytes (devs host_demo 1)))"
    "concat (map dest_bytes es) = ring_part (seg_bytes (segs_of e_dest host_demo (hc_elems (zero_hc\<lparr>hc_elems := [3, 4]\<rparr>)))) 0 (2 * unat (dev_period_bytes (devs host_demo 1)))"
    using host_stream [OF host_demo_setup(1), of 2] by blast
  have s: "seg_bytes (segs_of e_src host_demo (hc_elems (zero_hc\<lparr>hc_elems := [1, 2]\<rparr>))) = [100, 101, 102, 103, 104, 105, 106, 107, 108, 109, 200, 201, 202, 203, 204, 205, 206]"
    "seg_bytes (segs_of e_dest host_demo (hc_elems (zero_hc\<lparr>hc_elems := [3, 4]\<rparr>))) = [300, 301, 302, 303, 304, 305, 306, 307, 308, 309, 310, 311, 312, 313, 314, 315]"
    by (simp_all add: seg_bytes_def segs_of_def host_demo_def world.defs upt_rec)
  have u: "2 * unat (8 :: u32) = 16" by simp
  show ?thesis using w unfolding s host_demo_setup(2) u
    by (intro exI [of _ w0] exI [of _ es] exI [of _ w']) (simp add: ring_part_def upt_rec)
qed

end
