(* ===== verification/Reef_Ssp_Props.thy ===== *)
theory Reef_Ssp_Props
  imports Reef_Ssp
begin

text \<open>
  The serial port as a state machine: the states that can be reached and what they say of the registers;
  a playback that has been stopped never stops; the fields of the control registers.
\<close>

section \<open>Bits\<close>

abbreviation tsre :: "ssp_dai \<Rightarrow> bool" where "tsre s \<equiv> bit (regs s SSCR1) 21"
abbreviation rsre :: "ssp_dai \<Rightarrow> bool" where "rsre s \<equiv> bit (regs s SSCR1) 20"
abbreviation sse :: "ssp_dai \<Rightarrow> bool" where "sse s \<equiv> bit (regs s SSCR0) 7"

lemma ssp_write_sel [simp]:
  "regs (ssp_write r v s) = (regs s)(r := v)" "s_state (ssp_write r v s) = s_state s" "s_lock (ssp_write r v s) = s_lock s" "drain_work (ssp_write r v s) = drain_work s"
  by (simp_all add: ssp_write_def)

lemma ssp_update_sel [simp]:
  "regs (ssp_update_bits r m v s) = (regs s)(r := (regs s r AND NOT m) OR (v AND m))" "s_state (ssp_update_bits r m v s) = s_state s"
  "s_lock (ssp_update_bits r m v s) = s_lock s" "drain_work (ssp_update_bits r m v s) = drain_work s"
  by (simp_all add: ssp_update_bits_def ssp_read_def)

lemma spin_unlock_sel [simp]:
  "regs (spin_unlock s) = regs s" "s_state (spin_unlock s) = s_state s" "s_lock (spin_unlock s) = False" "drain_work (spin_unlock s) = drain_work s"
  by (simp_all add: spin_unlock_def)

lemma ssp_regs [simp]: "SSCR0 \<noteq> SSCR1" "SSCR1 \<noteq> SSCR0" "SSPSP \<noteq> SSCR0" "SSPSP \<noteq> SSCR1" "SFIFOTT \<noteq> SSCR0" "SFIFOTT \<noteq> SSCR1"
  "SSCR0 \<noteq> SSPSP" "SSCR1 \<noteq> SSPSP" "SSCR0 \<noteq> SFIFOTT" "SSCR1 \<noteq> SFIFOTT" "SFIFOTT \<noteq> SSPSP" "SSPSP \<noteq> SFIFOTT"
  by (simp_all add: SSCR0_def SSCR1_def SSPSP_def SFIFOTT_def)

lemma bit_masks [simp]:
  "bit SSCR0_SSE n \<longleftrightarrow> n = 7" "bit SSCR0_EDSS n \<longleftrightarrow> n = 20" "bit SSCR0_ACS n \<longleftrightarrow> n = 30" "bit SSCR0_MOD n \<longleftrightarrow> n = 31" "bit SSCR0_ECS n \<longleftrightarrow> n = 6" "bit SSCR0_NCS n \<longleftrightarrow> n = 21" "bit SSCR1_TSRE n \<longleftrightarrow> n = 21" "bit SSCR1_RSRE n \<longleftrightarrow> n = 20" "bit SSCR1_LBM n \<longleftrightarrow> n = 2"
  by (simp_all only: ssp_bits bit_push_bit_iff bit_1_iff possible_bit_word) (auto dest: bit_imp_le_length)

lemma no_requests: "x AND (SSCR1_TSRE OR SSCR1_RSRE) = 0 \<longleftrightarrow> \<not> bit x 20 \<and> \<not> bit x 21"
proof
  assume "x AND (SSCR1_TSRE OR SSCR1_RSRE) = 0"
  then have "bit (x AND (SSCR1_TSRE OR SSCR1_RSRE)) n = False" for n by simp
  from this [of 20] this [of 21] show "\<not> bit x 20 \<and> \<not> bit x 21" by (simp add: bit_simps)
next
  assume "\<not> bit x 20 \<and> \<not> bit x 21"
  then show "x AND (SSCR1_TSRE OR SSCR1_RSRE) = 0" by (intro bit_word_eqI) (auto simp: bit_simps)
qed

section \<open>Steps\<close>

text \<open>
  The triggers of the audio driver on either stream, with the drain work running in time or not; the
  configuration, the loop back and the drain work that is still scheduled.
\<close>

inductive ssp_step :: "ssp_dai \<Rightarrow> ssp_dai \<Rightarrow> bool" where
  trigger: "c \<in> {COMP_CMD_START, COMP_CMD_STOP, COMP_CMD_PAUSE, COMP_CMD_RELEASE} \<Longrightarrow> dir < 2 \<Longrightarrow> ssp_trigger drains c dir s = Some (r, s') \<Longrightarrow> ssp_step s s'"
| config: "ssp_set_config p s = Some (0, s') \<Longrightarrow> ssp_step s s'"
| loopback: "ssp_set_loopback_mode lbm s = Some (r, s') \<Longrightarrow> ssp_step s s'"
| work: "drain_work s \<Longrightarrow> ssp_drain_work s = Some s' \<Longrightarrow> ssp_step s s'"

inductive ssp_reach :: "ssp_dai \<Rightarrow> bool" where
  probed: "ssp_reach (snd (ssp_probe s))"
| step: "ssp_reach s \<Longrightarrow> ssp_step s s' \<Longrightarrow> ssp_reach s'"

definition ssp_inv :: "ssp_dai \<Rightarrow> bool" where
  "ssp_inv s \<longleftrightarrow> length (s_state s) = 2 \<and> \<not> s_lock s \<and>
     s_state s ! 0 \<in> {SSP_STATE_INIT, SSP_STATE_RUNNING, SSP_STATE_IDLE, SSP_STATE_DRAINING, SSP_STATE_PAUSED} \<and>
     s_state s ! 1 \<in> {SSP_STATE_INIT, SSP_STATE_RUNNING, SSP_STATE_IDLE, SSP_STATE_PAUSING, SSP_STATE_PAUSED} \<and>
     (s_state s ! 0 \<in> {SSP_STATE_RUNNING, SSP_STATE_DRAINING, SSP_STATE_PAUSED} \<longrightarrow> tsre s \<and> sse s) \<and>
     (s_state s ! 1 \<in> {SSP_STATE_RUNNING, SSP_STATE_PAUSING} \<longrightarrow> rsre s \<and> sse s) \<and>
     (s_state s ! 1 = SSP_STATE_PAUSED \<longrightarrow> \<not> rsre s)"

text \<open>What the operations do to a port in order, by the states and bits.\<close>

lemma spin_lock_free: "\<not> s_lock s \<Longrightarrow> spin_lock s = Some (s\<lparr>s_lock := True\<rparr>)"
  by (simp add: spin_lock_def)

lemma ssp_start_inv:
  assumes "ssp_inv s" "dir < 2"
  shows "\<exists>s'. ssp_start dir s = Some s' \<and> ssp_inv s' \<and> s_state s' = (s_state s)[dir := SSP_STATE_RUNNING]"
  using assms by (cases "dir = 0") (auto simp: ssp_inv_def ssp_start_def spin_lock_free set_ssp_state_def bit_simps ssp_states less_2_cases_iff)

lemma ssp_pause_inv:
  assumes "ssp_inv s" "dir < 2" "dir = 0 \<longrightarrow> s_state s ! 0 = SSP_STATE_RUNNING"
  shows "\<exists>s'. ssp_pause dir s = Some s' \<and> ssp_inv s' \<and> s_state s' = (s_state s)[dir := SSP_STATE_PAUSED]"
  using assms by (cases "dir = 0") (auto simp: ssp_inv_def ssp_pause_def ssp_dma_off_def spin_lock_free set_ssp_state_def bit_simps ssp_states less_2_cases_iff)

lemma ssp_stop_inv:
  assumes "ssp_inv s" "dir < 2"
  shows "\<exists>s'. ssp_stop dir s = Some s' \<and> ssp_inv s' \<and> s_state s' = (s_state s)[dir := SSP_STATE_IDLE]"
  using assms by (cases "dir = 0") (auto simp: ssp_inv_def ssp_stop_def ssp_dma_off_def spin_lock_free set_ssp_state_def ssp_read_def no_requests bit_simps ssp_states less_2_cases_iff)

lemma ssp_drain_inv:
  assumes "ssp_inv s"
  shows "\<exists>s'. ssp_drain_work s = Some s' \<and> ssp_inv s' \<and> s_state s' = (s_state s)[1 := SSP_STATE_PAUSED]"
proof -
  have n: "1 < length (s_state s)" "s_state s ! 1 \<noteq> SSP_STATE_DRAINING" using assms by (auto simp: ssp_inv_def ssp_states)
  obtain s' where s': "ssp_pause 1 s = Some s'" "ssp_inv s'" "s_state s' = (s_state s)[1 := SSP_STATE_PAUSED]"
    using ssp_pause_inv [OF assms, of 1] by auto
  then have "ssp_drain_work s = Some (s'\<lparr>drain_complete := True, drain_work := False\<rparr>)" using n by (simp add: ssp_drain_work_def)
  moreover have "ssp_inv (s'\<lparr>drain_complete := True, drain_work := False\<rparr>)" using s'(2) by (simp add: ssp_inv_def)
  ultimately show ?thesis using s'(3) by auto
qed

lemma wait_drain_inv:
  assumes "ssp_inv s"
  shows "\<exists>s'. wait_drain b s = Some s' \<and> ssp_inv s' \<and> s_state s' ! 0 = s_state s ! 0 \<and> (b \<longrightarrow> s_state s' = (s_state s)[1 := SSP_STATE_PAUSED])"
proof (cases b)
  case True
  have "ssp_inv (s\<lparr>drain_work := True, drain_complete := False\<rparr>)" using assms by (simp add: ssp_inv_def)
  from ssp_drain_inv [OF this] show ?thesis using True by (auto simp: wait_drain_def)
next
  case False
  then show ?thesis using assms by (simp add: wait_drain_def ssp_inv_def)
qed

text \<open>Every trigger returns, and leaves a playback that drains as it is.\<close>

lemma ssp_trigger_inv:
  assumes "ssp_inv s" "c \<in> {COMP_CMD_START, COMP_CMD_STOP, COMP_CMD_PAUSE, COMP_CMD_RELEASE}" "dir < 2"
  shows "\<exists>s'. ssp_trigger b c dir s = Some (0, s') \<and> ssp_inv s' \<and> (s_state s ! 0 = SSP_STATE_DRAINING \<longrightarrow> s_state s' ! 0 = SSP_STATE_DRAINING)"
proof -
  have l: "dir < length (s_state s)" "length (s_state s) = 2" using assms(1,3) by (simp_all add: ssp_inv_def)
  have go: "\<exists>s'. ssp_start dir s = Some s' \<and> ssp_inv s' \<and> (s_state s ! 0 = SSP_STATE_DRAINING \<longrightarrow> s_state s' ! 0 = SSP_STATE_DRAINING)"
    if "s_state s ! dir = SSP_STATE_IDLE \<or> s_state s ! dir = SSP_STATE_PAUSED"
    using ssp_start_inv [OF assms(1,3)] that assms(3) by (auto simp: less_2_cases_iff ssp_states)
  consider "c = COMP_CMD_START" | "c = COMP_CMD_RELEASE" | "c = COMP_CMD_PAUSE" | "c = COMP_CMD_STOP" using assms(2) by blast
  then show ?thesis
  proof cases
    case 1
    then show ?thesis using go assms(1) l by (cases "s_state s ! dir = SSP_STATE_IDLE") (auto simp: ssp_trigger_def)
  next
    case 2
    then show ?thesis using go assms(1) l by (cases "s_state s ! dir = SSP_STATE_PAUSED") (auto simp: ssp_trigger_def)
  next
    case 3
    show ?thesis
    proof (cases "s_state s ! dir = SSP_STATE_RUNNING")
      case True
      show ?thesis
      proof (cases "dir = 1")
        case True
        let ?s = "s\<lparr>s_state := (s_state s)[1 := SSP_STATE_PAUSING]\<rparr>"
        have "ssp_inv ?s" using assms(1) \<open>s_state s ! dir = SSP_STATE_RUNNING\<close> True by (auto simp: ssp_inv_def ssp_states)
        from wait_drain_inv [OF this, of b] show ?thesis using 3 True \<open>s_state s ! dir = SSP_STATE_RUNNING\<close> l
          by (auto simp: ssp_trigger_def set_ssp_state_def)
      next
        case False
        then have "dir = 0" using assms(3) by simp
        then show ?thesis using ssp_pause_inv [OF assms(1,3)] 3 \<open>s_state s ! dir = SSP_STATE_RUNNING\<close> l by (auto simp: ssp_trigger_def ssp_states)
      qed
    qed (use 3 assms(1) l in \<open>simp add: ssp_trigger_def\<close>)
  next
    case 4
    show ?thesis
    proof (cases "s_state s ! dir = SSP_STATE_RUNNING \<or> s_state s ! dir = SSP_STATE_PAUSED")
      case True
      show ?thesis
      proof (cases "dir = 0 \<and> s_state s ! dir = SSP_STATE_RUNNING")
        case True
        let ?s = "s\<lparr>s_state := (s_state s)[0 := SSP_STATE_DRAINING]\<rparr>"
        have "ssp_inv ?s" using assms(1) True by (auto simp: ssp_inv_def ssp_states)
        from wait_drain_inv [OF this, of b] show ?thesis using 4 True l by (auto simp: ssp_trigger_def set_ssp_state_def ssp_states)
      next
        case False
        then show ?thesis using ssp_stop_inv [OF assms(1,3)] True 4 l assms(3) by (auto simp: ssp_trigger_def less_2_cases_iff ssp_states)
      qed
    qed (use 4 assms(1) l in \<open>simp add: ssp_trigger_def\<close>)
  qed
qed

lemma ssp_config_inv:
  assumes "ssp_inv s" "ssp_set_config p s = Some (0, s')"
  shows "ssp_inv s' \<and> (s_state s ! 0 = SSP_STATE_DRAINING \<longrightarrow> s_state s' ! 0 = SSP_STATE_DRAINING)"
proof (cases "SSP_STATE_IDLE < s_state s ! 0 \<or> SSP_STATE_IDLE < s_state s ! 1")
  case True
  then have "s' = spin_unlock (s\<lparr>s_lock := True\<rparr>)" using assms by (auto simp: ssp_set_config_def ssp_inv_def spin_lock_free)
  then show ?thesis using assms(1) by (simp add: ssp_inv_def)
next
  case False
  have l: "length (s_state s) = 2" "\<not> s_lock s" using assms(1) by (simp_all add: ssp_inv_def)
  have "s_state s' = (s_state s)[0 := SSP_STATE_IDLE, 1 := SSP_STATE_IDLE] \<and> \<not> s_lock s'"
    using assms(2) False l by (auto simp: ssp_set_config_def spin_lock_free set_ssp_state_def Let_def split: option.splits if_splits)
  then show ?thesis using l False by (auto simp: ssp_inv_def ssp_states)
qed

lemma ssp_step_inv:
  assumes "ssp_step s s'" "ssp_inv s"
  shows "ssp_inv s' \<and> (s_state s ! 0 = SSP_STATE_DRAINING \<longrightarrow> s_state s' ! 0 = SSP_STATE_DRAINING)"
  using assms(1)
proof cases
  case (trigger c dir drains r)
  then show ?thesis using ssp_trigger_inv [OF assms(2) trigger(1,2), of drains] by auto
next
  case (config p)
  then show ?thesis using ssp_config_inv [OF assms(2)] by blast
next
  case (loopback lbm r)
  then have e: "s' = spin_unlock (ssp_update_bits SSCR1 SSCR1_LBM (if lbm \<noteq> 0 then SSCR1_LBM else 0) (s\<lparr>s_lock := True\<rparr>))"
    using assms(2) by (simp add: ssp_set_loopback_mode_def ssp_inv_def spin_lock_free)
  have "tsre s' = tsre s" "rsre s' = rsre s" "sse s' = sse s" "s_state s' = s_state s" "\<not> s_lock s'"
    unfolding e by (simp_all add: bit_simps)
  then show ?thesis using assms(2) by (simp add: ssp_inv_def)
next
  case work
  obtain t where "ssp_drain_work s = Some t" "ssp_inv t" "s_state t = (s_state s)[1 := SSP_STATE_PAUSED]" using ssp_drain_inv [OF assms(2)] by blast
  then show ?thesis using work(2) by simp
qed

lemma ssp_reach_inv: "ssp_reach s \<Longrightarrow> ssp_inv s"
proof (induction rule: ssp_reach.induct)
  case (probed s)
  then show ?case by (simp add: ssp_probe_def ssp_inv_def ssp_states)
next
  case (step s s')
  then show ?case using ssp_step_inv by blast
qed

text \<open>
  C26: in every state a port can come to, a stream that runs, drains or pauses is enabled in the
  registers: the port is on, its DMA requests are on while it runs; a paused capture makes none.
\<close>
theorem ssp_states_registers:
  assumes "ssp_reach s"
  shows "(s_state s ! 0 \<in> {SSP_STATE_RUNNING, SSP_STATE_DRAINING, SSP_STATE_PAUSED} \<longrightarrow> bit (regs s SSCR1) 21 \<and> bit (regs s SSCR0) 7) \<and>
    (s_state s ! 1 \<in> {SSP_STATE_RUNNING, SSP_STATE_PAUSING} \<longrightarrow> bit (regs s SSCR1) 20 \<and> bit (regs s SSCR0) 7) \<and>
    (s_state s ! 1 = SSP_STATE_PAUSED \<longrightarrow> \<not> bit (regs s SSCR1) 20)"
  using ssp_reach_inv [OF assms] by (simp add: ssp_inv_def)

lemma draining_stays:
  "ssp_step\<^sup>*\<^sup>* s s' \<Longrightarrow> ssp_inv s \<Longrightarrow> s_state s ! 0 = SSP_STATE_DRAINING \<Longrightarrow> ssp_inv s' \<and> s_state s' ! 0 = SSP_STATE_DRAINING"
  by (induction rule: rtranclp_induct) (use ssp_step_inv in blast)+

lemma stop_drains:
  assumes "ssp_inv s" "s_state s ! 0 = SSP_STATE_RUNNING"
  shows "\<exists>s1. ssp_trigger b COMP_CMD_STOP 0 s = Some (0, s1) \<and> ssp_inv s1 \<and> s_state s1 ! 0 = SSP_STATE_DRAINING \<and> (b \<longrightarrow> s_state s1 ! 1 = SSP_STATE_PAUSED)"
proof -
  let ?s = "s\<lparr>s_state := (s_state s)[0 := SSP_STATE_DRAINING]\<rparr>"
  have l: "length (s_state s) = 2" using assms(1) by (simp add: ssp_inv_def)
  have "ssp_inv ?s" using assms by (auto simp: ssp_inv_def ssp_states)
  from wait_drain_inv [OF this, of b] show ?thesis using assms(2) l by (auto simp: ssp_trigger_def set_ssp_state_def)
qed

text \<open>
  C25: a playback that is stopped never stops. The drain work looks at the capture: it pauses the capture,
  running or not, and the playback stays in the state it drains in, with its DMA requests and the port on,
  whatever triggers, configurations and works follow; it cannot be started again.
\<close>
theorem stopped_playback_drains:
  assumes "ssp_reach s" "s_state s ! 0 = SSP_STATE_RUNNING"
  shows "\<exists>s1. ssp_trigger b COMP_CMD_STOP 0 s = Some (0, s1) \<and> (b \<longrightarrow> s_state s1 ! 1 = SSP_STATE_PAUSED) \<and>
    (\<forall>s2. ssp_step\<^sup>*\<^sup>* s1 s2 \<longrightarrow> s_state s2 ! 0 = SSP_STATE_DRAINING \<and> bit (regs s2 SSCR1) 21 \<and> bit (regs s2 SSCR0) 7)"
proof -
  obtain s1 where s1: "ssp_trigger b COMP_CMD_STOP 0 s = Some (0, s1)" "ssp_inv s1" "s_state s1 ! 0 = SSP_STATE_DRAINING" "b \<longrightarrow> s_state s1 ! 1 = SSP_STATE_PAUSED"
    using stop_drains [OF ssp_reach_inv [OF assms(1)] assms(2), of b] by blast
  have "s_state s2 ! 0 = SSP_STATE_DRAINING \<and> tsre s2 \<and> sse s2" if "ssp_step\<^sup>*\<^sup>* s1 s2" for s2
    using draining_stays [OF that s1(2,3)] by (simp add: ssp_inv_def)
  then show ?thesis using s1 by blast
qed

section \<open>Configuration\<close>

lemma scr_mask: "(0x000fff00 :: u32) = push_bit 8 (mask 12)" "(0xf :: u32) = mask 4"
  by (simp_all add: mask_eq_exp_minus_1)

lemma sscr0_fields:
  fixes k x y e :: u32
  assumes "\<And>n. bit k n \<Longrightarrow> n \<in> {6, 21, 30, 31}" "x < 2 ^ 12" "y < 2 ^ 4" "e = 0 \<or> e = SSCR0_EDSS"
  shows "drop_bit 8 ((k OR push_bit 8 x OR SSCR0_PSP OR (e OR y)) AND 0x000fff00) = x" "(k OR push_bit 8 x OR SSCR0_PSP OR (e OR y)) AND 0xf = y"
    "bit (k OR push_bit 8 x OR SSCR0_PSP OR (e OR y)) 20 \<longleftrightarrow> e \<noteq> 0" "\<not> bit (k OR push_bit 8 x OR SSCR0_PSP OR (e OR y)) 7"
proof -
  have e: "bit e n \<longleftrightarrow> e \<noteq> 0 \<and> n = 20" for n
  proof -
    have "(SSCR0_EDSS :: u32) \<noteq> 0" by (simp add: ssp_bits)
    then show ?thesis using assms(4) by (elim disjE) simp_all
  qed
  have P: "bit SSCR0_PSP n \<longleftrightarrow> n = 4 \<or> n = 5" for n
  proof -
    have m: "SSCR0_PSP = push_bit 4 (mask 2)" by (simp add: ssp_bits mask_eq_exp_minus_1)
    show ?thesis unfolding m bit_push_bit_iff bit_mask_iff by (auto simp: possible_bit_word dest: bit_imp_le_length)
  qed
  have b: "bit (k OR push_bit 8 x OR SSCR0_PSP OR (e OR y)) n \<longleftrightarrow> bit k n \<or> (8 \<le> n \<and> bit x (n - 8)) \<or> n = 4 \<or> n = 5 \<or> (e \<noteq> 0 \<and> n = 20) \<or> bit y n" if "n < 32" for n
    using that by (simp add: bit_simps P e disj_assoc)
  note X = below_bits [OF assms(2)] and Y = below_bits [OF assms(3)]
  show "drop_bit 8 ((k OR push_bit 8 x OR SSCR0_PSP OR (e OR y)) AND 0x000fff00) = x"
    unfolding scr_mask
  proof (rule bit_word_eqI)
    fix n assume "n < LENGTH(32)"
    then show "bit (drop_bit 8 ((k OR push_bit 8 x OR SSCR0_PSP OR (e OR y)) AND push_bit 8 (mask 12))) n = bit x n"
      using X [of n] Y [of "8 + n"] assms(1) [of "8 + n"] b [of "8 + n"] by (cases "n < 12") (auto simp: bit_simps)
  qed
  show "(k OR push_bit 8 x OR SSCR0_PSP OR (e OR y)) AND 0xf = y"
    unfolding scr_mask
  proof (rule bit_word_eqI)
    fix n assume "n < LENGTH(32)"
    then show "bit ((k OR push_bit 8 x OR SSCR0_PSP OR (e OR y)) AND mask 4) n = bit y n"
      using Y [of n] assms(1) [of n] b [of n] by (cases "n < 4") (auto simp: bit_simps)
  qed
  show "bit (k OR push_bit 8 x OR SSCR0_PSP OR (e OR y)) 20 \<longleftrightarrow> e \<noteq> 0" using X [of 12] Y [of 20] assms(1) [of 20] b [of 20] by auto
  show "\<not> bit (k OR push_bit 8 x OR SSCR0_PSP OR (e OR y)) 7" using Y [of 7] assms(1) [of 7] b [of 7] by auto
qed

text \<open>
  C27: while no stream drains or pauses, a configuration that is accepted can be read back from the
  registers: the clock divider and the size of a sample, for dividers that fit their field; the port is off.
\<close>
theorem ssp_config_fields:
  assumes "ssp_set_config c s = Some (0, s')" "s_state s ! 0 \<le> SSP_STATE_IDLE" "s_state s ! 1 \<le> SSP_STATE_IDLE"
    and "0 < ssp_mclk c div ssp_bclk c" "ssp_mclk c div ssp_bclk c \<le> 4096" "0 < ssp_frame_width c" "ssp_frame_width c \<le> 32"
  shows "drop_bit 8 (regs s' SSCR0 AND 0x000fff00) + 1 = ssp_mclk c div ssp_bclk c \<and>
    (regs s' SSCR0 AND 0xf) + 1 + (if bit (regs s' SSCR0) 20 then 16 else 0) = ucast (ssp_frame_width c) \<and> \<not> bit (regs s' SSCR0) 7"
proof -
  let ?d = "ssp_mclk c div ssp_bclk c" and ?w = "ucast (ssp_frame_width c) :: u32"
  obtain k where k: "ssp_clock (ssp_clk_id c) = Some k" "regs s' SSCR0 = k OR SSCR0_SCR (?d - 1) OR SSCR0_PSP OR ssp_data_size ?w"
    using assms(1-3) by (auto simp: ssp_set_config_def set_ssp_state_def spin_lock_def Let_def not_le [symmetric] split: bind_splits option.splits if_splits)
  have kb: "n \<in> {6, 21, 30, 31}" if "bit k n" for n
    using k(1) that by (auto simp: ssp_clock_def bit_or_iff split: if_splits)
  have w: "unat ?w = unat (ssp_frame_width c)" "unat (ssp_frame_width c) \<le> 32" "0 < unat (ssp_frame_width c)"
    using assms(6,7) by (simp_all add: unsigned_ucast_eq word_le_nat_alt word_less_nat_alt)
  define e where "e = (if 16 < ?w then SSCR0_EDSS else 0)"
  define y where "y = (if 16 < ?w then ?w - 17 else ?w - 1)"
  have ds: "ssp_data_size ?w = e OR y" by (simp add: ssp_data_size_def e_def y_def SSCR0_DSIZE_def)
  have x: "?d - 1 < 2 ^ 12" using assms(4,5) by (simp add: word_less_nat_alt word_le_nat_alt unat_sub)
  have y: "y < 2 ^ 4" using w by (auto simp: y_def word_less_nat_alt unat_sub word_le_nat_alt)
  have e: "e = 0 \<or> e = SSCR0_EDSS" "e \<noteq> 0 \<longleftrightarrow> 16 < ?w" by (simp_all add: e_def ssp_bits)
  note f = sscr0_fields [OF kb x y e(1)]
  have R: "regs s' SSCR0 = k OR push_bit 8 (?d - 1) OR SSCR0_PSP OR (e OR y)" by (simp only: k(2) ds SSCR0_SCR_def)
  have "y + 1 + (if 16 < ?w then 16 else 0) = ?w" by (simp add: y_def)
  then show ?thesis using f e(2) unfolding R by simp
qed

text \<open>
  After a configuration that was refused with an error the lock is never released: whatever takes it next
  does not return.
\<close>

lemma ssp_config_error_hangs:
  assumes "ssp_set_config c s = Some (r, s')" "r \<noteq> 0"
  shows "ssp_set_config c' s' = None" "ssp_set_loopback_mode lbm s' = None" "ssp_start dir s' = None" "ssp_stop dir s' = None" "ssp_pause dir s' = None"
proof -
  have "s_lock s'" using assms by (auto simp: ssp_set_config_def spin_lock_def Let_def split: bind_splits option.splits if_splits)
  then show "ssp_set_config c' s' = None" "ssp_set_loopback_mode lbm s' = None" "ssp_start dir s' = None" "ssp_stop dir s' = None" "ssp_pause dir s' = None"
    by (simp_all add: ssp_set_config_def ssp_set_loopback_mode_def ssp_start_def ssp_stop_def ssp_pause_def spin_lock_def)
qed

text \<open>A port that plays can be configured: it is switched off under its stream.\<close>

lemma ssp_config_running:
  assumes "ssp_set_config c s = Some (0, s')" "s_state s ! 0 = SSP_STATE_RUNNING" "s_state s ! 1 \<le> SSP_STATE_IDLE" "length (s_state s) = 2"
  shows "s_state s' = [SSP_STATE_IDLE, SSP_STATE_IDLE]"
proof -
  have "\<not> (SSP_STATE_IDLE < s_state s ! 0 \<or> SSP_STATE_IDLE < s_state s ! 1)" using assms(2,3) by (simp add: ssp_states not_less)
  then have "s_state s' = (s_state s)[0 := SSP_STATE_IDLE, 1 := SSP_STATE_IDLE]"
    using assms(1) by (auto simp: ssp_set_config_def spin_lock_def set_ssp_state_def Let_def split: bind_splits option.splits if_splits)
  moreover obtain p q where "s_state s = [p, q]" using assms(4) by (auto simp: numeral_2_eq_2 length_Suc_conv)
  ultimately show ?thesis by simp
qed

section \<open>Examples\<close>

text \<open>I2S at 48 kHz from 19.2 MHz, the codec as the slave; then playing.\<close>

definition demo_params :: ssp_params where
  "demo_params = \<lparr>ssp_comp_id = 0, ssp_mclk = 19200000, ssp_bclk = 2400000, ssp_id = 2, ssp_mode = 0, ssp_num_slots = 2, ssp_frame_width = 24, ssp_clk_id = 2,
     ssp_format = 0x4001\<rparr>"

definition demo_port :: ssp_dai where "demo_port = snd (ssp_probe (ssp_port 2))"
definition demo_ready :: ssp_dai where "demo_ready = snd (the (ssp_set_config demo_params demo_port))"
definition demo_playing :: ssp_dai where "demo_playing = snd (the (ssp_trigger True COMP_CMD_START 0 demo_ready))"

lemma demo_ready_config: "ssp_set_config demo_params demo_port = Some (0, demo_ready)"
  by (simp add: demo_ready_def demo_params_def demo_port_def ssp_probe_def ssp_port_def ssp_set_config_def spin_lock_def ssp_states ssp_master_def ssp_polarity_def
      ssp_clock_def ssp_frame_def set_ssp_state_def)

lemma demo_ready_state: "s_state demo_ready = [SSP_STATE_IDLE, SSP_STATE_IDLE]"
  by (simp add: demo_ready_def demo_params_def demo_port_def ssp_probe_def ssp_port_def ssp_set_config_def spin_lock_def ssp_states ssp_master_def ssp_polarity_def
      ssp_clock_def ssp_frame_def set_ssp_state_def)

lemma demo_reach: "ssp_reach demo_ready" "ssp_reach demo_playing" "s_state demo_playing ! 0 = SSP_STATE_RUNNING"
proof -
  have "ssp_reach demo_port" unfolding demo_port_def by (rule probed)
  then show r: "ssp_reach demo_ready" using ssp_reach.step ssp_step.config [OF demo_ready_config] by blast
  obtain s where s: "ssp_start 0 demo_ready = Some s" "s_state s = [SSP_STATE_RUNNING, SSP_STATE_IDLE]"
    using ssp_start_inv [OF ssp_reach_inv [OF r], of 0] by (auto simp: demo_ready_state)
  then have t: "ssp_trigger True COMP_CMD_START 0 demo_ready = Some (0, s)" by (simp add: ssp_trigger_def demo_ready_state)
  then have d: "demo_playing = s" by (simp add: demo_playing_def)
  then have "ssp_step demo_ready demo_playing" using t ssp_step.trigger [of COMP_CMD_START 0 True demo_ready 0 s] by simp
  then show "ssp_reach demo_playing" using r ssp_reach.step by blast
  show "s_state demo_playing ! 0 = SSP_STATE_RUNNING" using s d by simp
qed

lemma ssp_states_registers_witness: "bit (regs demo_playing SSCR1) 21 \<and> bit (regs demo_playing SSCR0) 7"
  using ssp_states_registers [OF demo_reach(2)] demo_reach(3) by simp

lemma stopped_playback_drains_witness:
  "\<exists>s1. ssp_trigger True COMP_CMD_STOP 0 demo_playing = Some (0, s1) \<and> s_state s1 ! 1 = SSP_STATE_PAUSED \<and> s_state s1 ! 0 = SSP_STATE_DRAINING"
  using stopped_playback_drains [OF demo_reach(2,3), of True] by auto

lemma ssp_config_fields_witness:
  "drop_bit 8 (regs demo_ready SSCR0 AND 0x000fff00) + 1 = 8 \<and> (regs demo_ready SSCR0 AND 0xf) + 1 + (if bit (regs demo_ready SSCR0) 20 then 16 else 0) = 24"
proof -
  have d: "s_state demo_port ! 0 \<le> SSP_STATE_IDLE" "s_state demo_port ! 1 \<le> SSP_STATE_IDLE" by (simp_all add: demo_port_def ssp_probe_def ssp_states)
  have p: "ssp_mclk demo_params div ssp_bclk demo_params = 8" "ssp_frame_width demo_params = 24" by (simp_all add: demo_params_def)
  show ?thesis using ssp_config_fields [OF demo_ready_config d] unfolding p by simp
qed

end
