(* ===== verification/Reef_Dai.thy ===== *)
theory Reef_Dai
  imports Reef_Dma Reef_Ssp Reef_Schedule
begin

text \<open>
  The DAI endpoint, src/src/audio/dai.c: one transfer of the DMA for each period of the ring, round and
  round, to or from the data register of a serial port; its call back moves the ring on and schedules the
  pipeline. The cyclic list of elements is held with the address of each. The two DMA controllers are the
  function \<open>D\<close>; \<open>drains\<close> is as for \<open>ssp_trigger\<close>.
\<close>

section \<open>State\<close>

record dai_data =
  dd_chan :: int
  dd_cfg :: dma_sg_config
  dd_elems :: "(u32 \<times> dma_sg_elem) list"
  dd_direction :: u32
  dd_stream_format :: u32
  dd_dai :: nat
  dd_dma :: nat
  last_bytes :: u32
  dai_pos_blks :: u32
  dai_pos :: u32

record dai_world = world +
  dais :: "u32 \<Rightarrow> dai_data"
  ports :: "ssp_dai list"
  sch :: sched

definition upd_dai :: "u32 \<Rightarrow> (dai_data \<Rightarrow> dai_data) \<Rightarrow> 'a dai_world_scheme \<Rightarrow> 'a dai_world_scheme" where
  "upd_dai p f w = w\<lparr>dais := (dais w)(p := f (dais w p))\<rparr>"

lemma upd_dai_sel [simp]:
  "dais (upd_buf b g w) = dais w" "ports (upd_buf b g w) = ports w" "sch (upd_buf b g w) = sch w"
  "dais (upd_dev d k w) = dais w" "ports (upd_dev d k w) = ports w" "sch (upd_dev d k w) = sch w"
  "dais (upd_pcm q h w) = dais w" "ports (upd_pcm q h w) = ports w" "sch (upd_pcm q h w) = sch w"
  "dais (upd_dai p f w) = (dais w)(p := f (dais w p))" "ports (upd_dai p f w) = ports w" "sch (upd_dai p f w) = sch w"
  "bufs (upd_dai p f w) = bufs w" "devs (upd_dai p f w) = devs w" "pcms (upd_dai p f w) = pcms w" "mm (upd_dai p f w) = mm w" "wmem (upd_dai p f w) = wmem w"
  by (simp_all add: upd_dai_def upd_buf_def upd_dev_def upd_pcm_def)

section \<open>Calls into the port\<close>

definition dai_trigger :: "bool \<Rightarrow> nat \<Rightarrow> int \<Rightarrow> u32 \<Rightarrow> 'a dai_world_scheme \<Rightarrow> 'a dai_world_scheme option" where
  "dai_trigger drains k c dir w = do {
     s \<leftarrow> aget (ports w) k;
     (_, s) \<leftarrow> ssp_trigger drains c (unat dir) s;
     Some (w\<lparr>ports := (ports w)[k := s]\<rparr>) }"

definition fifo_of :: "nat \<Rightarrow> u32 \<Rightarrow> 'a dai_world_scheme \<Rightarrow> u32 option" where
  "fifo_of k dir w = do { s \<leftarrow> aget (ports w) k; dai_fifo s (unat dir) }"

definition handshake_of :: "nat \<Rightarrow> nat \<Rightarrow> 'a dai_world_scheme \<Rightarrow> u32 option" where
  "handshake_of k i w = do { s \<leftarrow> aget (ports w) k; f \<leftarrow> aget (d_fifo s) i; Some (f_handshake f) }"

text \<open>A 64 bit store of a 32 bit difference of pointers, with its sign.\<close>

definition store_pos :: "u32 \<Rightarrow> u32 \<Rightarrow> mem \<Rightarrow> mem" where
  "store_pos a v m = store32 (store32 m a v) (a + 4) (if v <s 0 then - 1 else 0)"

section \<open>Commands\<close>

abbreviation (input) "COMP_CMD_IPC_MMAP_PPOS \<equiv> 201 :: int"

text \<open>\<open>data\<close> is the address the last command maps, 0 for \<open>NULL\<close>.\<close>

definition dai_cmd :: "(nat \<Rightarrow> 'a dai_world_scheme dma_ops) \<Rightarrow> bool \<Rightarrow> u32 \<Rightarrow> int \<Rightarrow> u32 \<Rightarrow> 'a dai_world_scheme \<Rightarrow> (int \<times> 'a dai_world_scheme) option" where
  "dai_cmd D drains d c data w =
     (let p = priv (devs w d); dd = dais w p; st = state (devs w d); ops = D (dd_dma dd) in
      if c = COMP_CMD_PAUSE then
        (if st = COMP_STATE_RUNNING then
           (let (_, w) = dma_pause ops (dd_chan dd) w in do {
              w \<leftarrow> dai_trigger drains (dd_dai dd) c (dd_direction dd) w;
              Some (0, set_state d COMP_STATE_PAUSED w) })
         else Some (0, w))
      else if c = COMP_CMD_STOP then
        (if st = COMP_STATE_RUNNING \<or> st = COMP_STATE_PAUSED then
           (let (_, w) = dma_stop ops (dd_chan dd) (if st = COMP_STATE_RUNNING then 1 else 0) w in do {
              w \<leftarrow> dai_trigger drains (dd_dai dd) c (dd_direction dd) w;
              Some (0, set_state d COMP_STATE_SETUP (upd_dai p (\<lambda>r. r\<lparr>last_bytes := 0\<rparr>) w)) })
         else if st = COMP_STATE_PREPARE then Some (0, set_state d COMP_STATE_SETUP (upd_dai p (\<lambda>r. r\<lparr>last_bytes := 0\<rparr>) w))
         else Some (0, w))
      else if c = COMP_CMD_RELEASE then
        (if st = COMP_STATE_PAUSED then do {
           w \<leftarrow> dai_trigger drains (dd_dai dd) c (dd_direction dd) w;
           let (_, w) = dma_release ops (dd_chan dd) w;
           Some (0, set_state d COMP_STATE_RUNNING w) }
         else Some (0, w))
      else if c = COMP_CMD_START then
        (if st = COMP_STATE_PREPARE then
           (let (ret, w) = dma_start ops (dd_chan dd) w in
            if ret < 0 then Some (ret, w)
            else do {
              w \<leftarrow> dai_trigger drains (dd_dai dd) c (dd_direction dd) w;
              Some (0, set_state d COMP_STATE_RUNNING w) })
         else Some (0, w))
      else if c = COMP_CMD_IPC_MMAP_PPOS then
        (let w = upd_dai p (\<lambda>r. r\<lparr>dai_pos := data\<rparr>) w
         in Some (0, if data \<noteq> 0 then w\<lparr>wmem := store_pos data 0 (wmem w)\<rparr> else w))
      else Some (0, w))"

section \<open>The call back of the DMA\<close>

abbreviation (input) PLAT_DAI_SCHED :: u32 where "PLAT_DAI_SCHED \<equiv> 1000"
abbreviation (input) TASK_PRI_HIGH :: u32 where "TASK_PRI_HIGH \<equiv> - 20"
abbreviation (input) DMA_RELOAD_END :: u32 where "DMA_RELOAD_END \<equiv> 0"

definition report_dai_pos :: "u32 \<Rightarrow> u32 \<Rightarrow> 'a dai_world_scheme \<Rightarrow> 'a dai_world_scheme" where
  "report_dai_pos p off w =
     (let dd = dais w p in if dai_pos dd \<noteq> 0 then w\<lparr>wmem := store_pos (dai_pos dd) (dai_pos_blks dd + off) (wmem w)\<rparr> else w)"

definition dai_played :: "u32 \<Rightarrow> u32 \<Rightarrow> u32 \<Rightarrow> 'a dai_world_scheme \<Rightarrow> 'a dai_world_scheme" where
  "dai_played p b period w =
     (let n = (if last_bytes (dais w p) \<noteq> 0 then last_bytes (dais w p) else period);
          w = upd_buf b (\<lambda>r. r\<lparr>r_ptr := r_ptr r + n\<rparr>) w;
          w = (if end_addr (bufs w b) \<le> r_ptr (bufs w b)
               then upd_dai p (\<lambda>dd. dd\<lparr>dai_pos_blks := dai_pos_blks dd + ipc_size (bufs w b)\<rparr>) (upd_buf b (\<lambda>r. r\<lparr>r_ptr := addr r\<rparr>) w) else w);
          w = upd_dai p (\<lambda>dd. dd\<lparr>dai_pos_blks := dai_pos_blks dd + period\<rparr>) w;
          w = report_dai_pos p (r_ptr (bufs w b) - addr (bufs w b)) w
      in upd_buf b comp_update_buffer_consume w)"

definition dai_captured :: "u32 \<Rightarrow> u32 \<Rightarrow> u32 \<Rightarrow> 'a dai_world_scheme \<Rightarrow> 'a dai_world_scheme" where
  "dai_captured p b period w =
     (let w = upd_buf b (\<lambda>r. r\<lparr>w_ptr := w_ptr r + period\<rparr>) w;
          w = (if end_addr (bufs w b) \<le> w_ptr (bufs w b)
               then upd_dai p (\<lambda>dd. dd\<lparr>dai_pos_blks := dai_pos_blks dd + ipc_size (bufs w b)\<rparr>) (upd_buf b (\<lambda>r. r\<lparr>w_ptr := addr r\<rparr>) w) else w);
          w = report_dai_pos p (w_ptr (bufs w b) - addr (bufs w b)) w
      in upd_buf b comp_update_buffer_produce w)"

text \<open>\<open>nx\<close> is the transfer the controller would go on with; the result is what the call back makes of it.\<close>

definition dai_dma_cb :: "(nat \<Rightarrow> 'a dai_world_scheme dma_ops) \<Rightarrow> bool \<Rightarrow> u32 \<Rightarrow> u32 \<Rightarrow> dma_sg_elem \<Rightarrow> 'a dai_world_scheme \<Rightarrow>
    (dma_sg_elem \<times> 'a dai_world_scheme) option" where
  "dai_dma_cb D drains now d nx w =
     (let p = priv (devs w d); period = dev_period_bytes (devs w d); play = dd_direction (dais w p) = SOF_IPC_STREAM_PLAYBACK in do {
        b \<leftarrow> first_of (if play then bsource_list (devs w d) else bsink_list (devs w d));
        let w = (if play then dai_played p b period w else dai_captured p b period w);
        if play \<and> avail (bufs w b) < period then
          (if avail (bufs w b) = 0 then do {
             (_, w) \<leftarrow> dai_cmd D drains d COMP_CMD_STOP 0 w;
             Some (nx\<lparr>e_size := DMA_RELOAD_END\<rparr>, w) }
           else do {
             f \<leftarrow> fifo_of (dd_dai (dais w p)) (dd_direction (dais w p)) w;
             Some (\<lparr>e_src = r_ptr (bufs w b), e_dest = f, e_size = avail (bufs w b)\<rparr>, upd_dai p (\<lambda>dd. dd\<lparr>last_bytes := avail (bufs w b)\<rparr>) w) })
        else do {
          s \<leftarrow> pipeline_schedule_copy now (pipeline_of (devs w d)) d PLAT_DAI_SCHED TASK_PRI_HIGH (sch w);
          Some (nx, w\<lparr>sch := s\<rparr>) } })"

section \<open>Construction\<close>

definition sizeof_dai_dev :: u32 where "sizeof_dai_dev = 136"
definition sizeof_dai_data :: u32 where "sizeof_dai_data = 64"

definition zero_dai_data :: dai_data where
  "zero_dai_data = \<lparr>dd_chan = 0, dd_cfg = zero_cfg, dd_elems = [], dd_direction = 0, dd_stream_format = 0, dd_dai = 0, dd_dma = 0, last_bytes = 0,
     dai_pos_blks = 0, dai_pos = 0\<rparr>"

text \<open>The port's type and index and the controller are fields of the host's description of the component.\<close>

definition dai_new_ssp :: "(nat \<Rightarrow> 'a dai_world_scheme dma_ops) \<Rightarrow> u32 \<Rightarrow> u32 \<Rightarrow> u32 \<Rightarrow> ipc_comp \<Rightarrow> 'a dai_world_scheme \<Rightarrow> (u32 \<times> 'a dai_world_scheme) option" where
  "dai_new_ssp D ty ix dmac c w = do {
     (d, w) \<leftarrow> zalloc sizeof_dai_dev w;
     if d = 0 then Some (0, w)
     else do {
       let w = upd_dev d (\<lambda>_. zero_dev c) w;
       (p, w) \<leftarrow> zalloc sizeof_dai_data w;
       if p = 0 then do { w \<leftarrow> free_one d w; Some (0, w) }
       else
         (let w = comp_set_endpoint d (upd_dev d (\<lambda>r. r\<lparr>priv := p\<rparr>) (upd_dai p (\<lambda>_. zero_dai_data) w));
              fail = (\<lambda>w. do { w \<leftarrow> free_all [p, d] w; Some (0, w) }) in
          case dai_get ty ix (ports w) of None \<Rightarrow> fail w
          | Some k \<Rightarrow>
              (case dma_get dmac of None \<Rightarrow> fail (upd_dai p (\<lambda>r. r\<lparr>dd_dai := k\<rparr>) w)
               | Some q \<Rightarrow>
                   let w = upd_dai p (\<lambda>r. r\<lparr>dd_dai := k, dd_dma := q, dai_pos := 0, dai_pos_blks := 0, last_bytes := 0\<rparr>) w;
                       (chan, w) = channel_get (D q) w;
                       w = upd_dai p (\<lambda>r. r\<lparr>dd_chan := chan\<rparr>) w
                   in if chan < 0 then fail w
                      else
                        (let w = upd_dai p (\<lambda>r. r\<lparr>dd_stream_format := PLATFORM_SSP_STREAM_FORMAT\<rparr>) w
                         in Some (d, set_cb (D q) chan 2 d w)))) } }"

definition dai_free :: "(nat \<Rightarrow> 'a dai_world_scheme dma_ops) \<Rightarrow> u32 \<Rightarrow> 'a dai_world_scheme \<Rightarrow> 'a dai_world_scheme option" where
  "dai_free D d w = (let p = priv (devs w d) in free_all [p, d] (channel_put (D (dd_dma (dais w p))) (dd_chan (dais w p)) w))"

section \<open>Parameters\<close>

text \<open>The loop that makes the elements: \<open>a\<close> is the address of the first period, \<open>f\<close> the data register.\<close>

fun dai_elems :: "nat \<Rightarrow> nat \<Rightarrow> bool \<Rightarrow> u32 \<Rightarrow> u32 \<Rightarrow> u32 \<Rightarrow> u32 \<Rightarrow> 'a dai_world_scheme \<Rightarrow> (int \<times> 'a dai_world_scheme) option" where
  "dai_elems 0 i play p a f period w = Some (0, w)"
| "dai_elems (Suc k) i play p a f period w = do {
     (x, w) \<leftarrow> zalloc sizeof_dma_sg_elem w;
     if x = 0 then do {
       w \<leftarrow> free_all (map fst (dd_elems (dais w p))) w;
       Some (- ENOMEM, upd_dai p (\<lambda>r. r\<lparr>dd_elems := []\<rparr>) w) }
     else
       (let m = a + of_nat i * period;
            e = (if play then \<lparr>e_src = m, e_dest = f, e_size = period\<rparr> else \<lparr>e_src = f, e_dest = m, e_size = period\<rparr>)
        in dai_elems k (Suc i) play p a f period (upd_dai p (\<lambda>r. r\<lparr>dd_elems := dd_elems r @ [(x, e)]\<rparr>) w)) }"

text \<open>\<open>dai_playback_params\<close> and \<open>dai_capture_params\<close>, which are the same but for the direction.\<close>

definition dai_stream_params :: "bool \<Rightarrow> u32 \<Rightarrow> u32 \<Rightarrow> 'a dai_world_scheme \<Rightarrow> (int \<times> 'a dai_world_scheme) option" where
  "dai_stream_params play d pcm w =
     (let p = priv (devs w d); period = dev_period_bytes (devs w d) in do {
        let w = upd_dai p (\<lambda>r. r\<lparr>dd_direction := direction (pcms w pcm)\<rparr>) w;
        h \<leftarrow> handshake_of (dd_dai (dais w p)) (if play then 0 else 1) w;
        let w = upd_dai p (\<lambda>r. r\<lparr>dd_cfg := (if play
               then (dd_cfg r)\<lparr>dma_direction := DMA_DIR_MEM_TO_DEV, src_width := 4, dest_width := 4, cyclic := 1, dest_dev := h\<rparr>
               else (dd_cfg r)\<lparr>dma_direction := DMA_DIR_DEV_TO_MEM, src_width := 4, dest_width := 4, cyclic := 1, src_dev := h\<rparr>)\<rparr>) w;
        b \<leftarrow> first_of (if play then bsource_list (devs w d) else bsink_list (devs w d));
        let w = upd_buf b (\<lambda>r. r\<lparr>b_pcm := pcm\<rparr>) w;
        (if period = 0 then None
         else
           (let n = buf_size_field (bufs w b) div period in
            if \<not> n * period \<le> alloc_size (bufs w b) then Some (- EINVAL, w)
            else do {
              let w = upd_buf b (\<lambda>r. r\<lparr>buf_size_field := n * period\<rparr>) w;
              let w = upd_pcm pcm (\<lambda>r. r\<lparr>frame_fmt := dd_stream_format (dais w p)\<rparr>) w;
              (err, w) \<leftarrow> (if dd_elems (dais w p) = [] then do {
                  f \<leftarrow> (if sint n \<le> 0 then Some 0 else fifo_of (dd_dai (dais w p)) (direction (pcms w pcm)) w);
                  dai_elems (nat (sint n)) 0 play p (if play then r_ptr (bufs w b) else w_ptr (bufs w b)) f period w }
                else Some (0, w));
              if err < 0 then Some (err, w)
              else Some (0, upd_buf b (\<lambda>r. if play then r\<lparr>w_ptr := addr r\<rparr> else r\<lparr>r_ptr := addr r\<rparr>) w) })) })"

definition dai_params :: "u32 \<Rightarrow> u32 \<Rightarrow> 'a dai_world_scheme \<Rightarrow> (int \<times> 'a dai_world_scheme) option" where
  "dai_params d pcm w =
     (if state (devs w d) \<noteq> COMP_STATE_INIT then Some (- EINVAL, w)
      else if direction (pcms w pcm) = SOF_IPC_STREAM_PLAYBACK then do {
        b \<leftarrow> first_of (bsource_list (devs w d));
        dai_stream_params True d pcm (upd_buf b (\<lambda>r. r\<lparr>r_ptr := addr r\<rparr>) w) }
      else do {
        b \<leftarrow> first_of (bsink_list (devs w d));
        dai_stream_params False d pcm (upd_buf b (\<lambda>r. r\<lparr>w_ptr := addr r\<rparr>) w) })"

definition dai_prepare :: "(nat \<Rightarrow> 'a dai_world_scheme dma_ops) \<Rightarrow> u32 \<Rightarrow> 'a dai_world_scheme \<Rightarrow> (int \<times> 'a dai_world_scheme) option" where
  "dai_prepare D d w =
     (let dd = dais w (priv (devs w d)) in
      if dd_elems dd = [] then Some (- EINVAL, w)
      else
        (let (ret, w) = set_config (D (dd_dma dd)) (dd_chan dd) ((dd_cfg dd)\<lparr>sg_elems := map snd (dd_elems dd)\<rparr>) w
         in Some (ret, set_state d COMP_STATE_PREPARE w)))"

definition dai_reset :: "u32 \<Rightarrow> 'a dai_world_scheme \<Rightarrow> (int \<times> 'a dai_world_scheme) option" where
  "dai_reset d w =
     (let p = priv (devs w d) in do {
        w \<leftarrow> free_all (map fst (dd_elems (dais w p))) w;
        let w = set_state d COMP_STATE_INIT (upd_dai p (\<lambda>r. r\<lparr>dd_elems := [], dai_pos_blks := 0\<rparr>) w);
        let w = (if dai_pos (dais w p) \<noteq> 0 then w\<lparr>wmem := store_pos (dai_pos (dais w p)) 0 (wmem w)\<rparr> else w);
        Some (0, upd_dai p (\<lambda>r. r\<lparr>dai_pos := 0, last_bytes := 0\<rparr>) w) })"

definition dai_copy :: "u32 \<Rightarrow> 'a dai_world_scheme \<Rightarrow> (int \<times> 'a dai_world_scheme) option" where
  "dai_copy d w = Some (0, w)"

definition dai_preload :: "u32 \<Rightarrow> 'a dai_world_scheme \<Rightarrow> (int \<times> 'a dai_world_scheme) option" where
  "dai_preload d w = Some (0, w)"

definition dai_config :: "u32 \<Rightarrow> ssp_params \<Rightarrow> 'a dai_world_scheme \<Rightarrow> (int \<times> 'a dai_world_scheme) option" where
  "dai_config d c w =
     (let k = dd_dai (dais w (priv (devs w d))) in do {
        s \<leftarrow> aget (ports w) k;
        (ret, s) \<leftarrow> ssp_set_config c s;
        Some (ret, w\<lparr>ports := (ports w)[k := s]\<rparr>) })"

end
