(* ===== verification/Reef_Dai_Props.thy ===== *)
theory Reef_Dai_Props
  imports Reef_Dai Reef_Ssp_Props Reef_Ring Reef_Schedule_Props
begin

text \<open>
  The DAI endpoint: the position it reports, the end of a stream, and what is left of a port after a stream
  has been stopped.
\<close>

section \<open>The position\<close>

text \<open>What \<open>report_dai_pos\<close> stores for the buffer \<open>b\<close>.\<close>

definition played_pos :: "u32 \<Rightarrow> u32 \<Rightarrow> 'a dai_world_scheme \<Rightarrow> u32" where
  "played_pos p b w = dai_pos_blks (dais w p) + (r_ptr (bufs w b) - addr (bufs w b))"

definition captured_pos :: "u32 \<Rightarrow> u32 \<Rightarrow> 'a dai_world_scheme \<Rightarrow> u32" where
  "captured_pos p b w = dai_pos_blks (dais w p) + (w_ptr (bufs w b) - addr (bufs w b))"

lemma report_sel [simp]:
  "bufs (report_dai_pos p off w) = bufs w" "dais (report_dai_pos p off w) = dais w" "devs (report_dai_pos p off w) = devs w" "ports (report_dai_pos p off w) = ports w"
  "pcms (report_dai_pos p off w) = pcms w" "sch (report_dai_pos p off w) = sch w"
  by (simp_all add: report_dai_pos_def Let_def)

text \<open>The read pointer after a period, and what it counts.\<close>

lemma dai_played_buf:
  assumes "buf_wf (bufs w b)" "n = (if last_bytes (dais w p) \<noteq> 0 then last_bytes (dais w p) else period)" "roff (bufs w b) + unat n \<le> bsize (bufs w b)"
  shows "bufs (dai_played p b period w) b = comp_update_buffer_consume (step_r (unat n) (bufs w b))"
proof -
  have s: "wrap_r ((bufs w b)\<lparr>r_ptr := r_ptr (bufs w b) + n\<rparr>) = step_r (unat n) (bufs w b)" using wrap_r_step [OF assms(1,3)] by simp
  have "bufs (dai_played p b period w) b = comp_update_buffer_consume (wrap_r ((bufs w b)\<lparr>r_ptr := r_ptr (bufs w b) + n\<rparr>))"
    unfolding dai_played_def Let_def assms(2) [symmetric] by (simp add: wrap_r_def)
  then show ?thesis unfolding s .
qed

lemma dai_played_sel [simp]:
  "devs (dai_played p b period w) = devs w" "ports (dai_played p b period w) = ports w"
  "dd_dai (dais (dai_played p b period w) p) = dd_dai (dais w p)" "dd_direction (dais (dai_played p b period w) p) = dd_direction (dais w p)"
  "last_bytes (dais (dai_played p b period w) p) = last_bytes (dais w p)" "dd_dma (dais (dai_played p b period w) p) = dd_dma (dais w p)"
  by (simp_all add: dai_played_def Let_def)

text \<open>The 64 bit word at the address the position is reported to, as the host reads it.\<close>

definition host_word :: "u32 \<Rightarrow> 'a dai_world_scheme \<Rightarrow> 64 word" where
  "host_word p w = word_cat (load32 (wmem w) (dai_pos (dais w p) + 4)) (load32 (wmem w) (dai_pos (dais w p)))"

lemma sign_word: "word_cat (if v <s 0 then - 1 else 0 :: u32) v = (scast (v :: u32) :: 64 word)"
proof (rule bit_word_eqI)
  fix n assume "n < LENGTH(64)"
  moreover have "v <s 0 \<longleftrightarrow> bit v 31" using bit_last_iff [of v] by (simp add: word_sless_alt)
  ultimately show "bit (word_cat (if v <s 0 then - 1 else 0 :: u32) v :: 64 word) n = bit (scast v :: 64 word) n"
    by (cases "n = 31") (auto simp: bit_word_cat_iff bit_signed_iff bit_simps not_less min_def)
qed

lemma store_pos_word: "word_cat (load32 (store_pos a v m) (a + 4)) (load32 (store_pos a v m) a) = (scast v :: 64 word)"
proof -
  have "load32 (store32 (store32 m a v) (a + 4) u) a = load32 (store32 m a v) a" for u
    by (simp add: load32_def store32_def)
  then have "load32 (store_pos a v m) a = v" "load32 (store_pos a v m) (a + 4) = (if v <s 0 then - 1 else 0)" by (simp_all add: store_pos_def)
  then show ?thesis using sign_word [of v] by simp
qed

lemma report_word: "dai_pos (dais w p) \<noteq> 0 \<Longrightarrow> host_word p (report_dai_pos p off w) = scast (dai_pos_blks (dais w p) + off)"
  by (simp add: host_word_def report_dai_pos_def Let_def store_pos_word)

lemma host_word_upd [simp]: "host_word p (upd_buf b f w) = host_word p w"
  by (simp add: host_word_def)

text \<open>What the call backs leave in memory is the position by the fields they leave.\<close>

lemma played_word: "dai_pos (dais w p) \<noteq> 0 \<Longrightarrow> host_word p (dai_played p b period w) = scast (played_pos p b (dai_played p b period w))"
  by (simp add: dai_played_def Let_def report_word played_pos_def)

lemma captured_word: "dai_pos (dais w p) \<noteq> 0 \<Longrightarrow> host_word p (dai_captured p b period w) = scast (captured_pos p b (dai_captured p b period w))"
  by (simp add: dai_captured_def Let_def report_word captured_pos_def)

lemma dai_position_moves:
  assumes "buf_wf (bufs w b)" "0 < period"
  shows "(last_bytes (dais w p) = 0 \<and> roff (bufs w b) + unat period \<le> bsize (bufs w b) \<longrightarrow>
      played_pos p b (dai_played p b period w) = played_pos p b w + 2 * period) \<and>
    (woff (bufs w b) + unat period \<le> bsize (bufs w b) \<longrightarrow> captured_pos p b (dai_captured p b period w) = captured_pos p b w + period)"
proof (intro conjI impI)
  note d = buf_wfD [OF assms(1)]
  let ?b = "bufs w b"
  have e: "end_addr ?b = addr ?b + ipc_size ?b" using assms(1) by (simp add: buf_wf_def)
  have at_end: "q = end_addr ?b" if "unat (q - addr ?b) \<le> bsize ?b" "end_addr ?b \<le> q" for q
  proof -
    have "addr ?b \<le> end_addr ?b" using d(2) e unat_count [of "addr ?b" "bsize ?b"] by (simp add: word_le_nat_alt bsize_def)
    then have "unat (q - addr ?b) = unat q - unat (addr ?b)" using that(2) by (simp add: unat_sub)
    moreover have "unat (end_addr ?b) = unat (addr ?b) + bsize ?b" using d(2) e unat_count [of "addr ?b" "bsize ?b"] by (simp add: bsize_def)
    ultimately show ?thesis using that by (simp add: word_le_nat_alt word_unat_eq_iff)
  qed
  have offset: "unat (q + period - addr ?b) = k + unat period" if "unat q = unat (addr ?b) + k" "k + unat period \<le> bsize ?b" for q k
  proof -
    have "unat (q + period) = unat (addr ?b) + (k + unat period)" using that d(2) unat_count [of q "unat period"] by simp
    moreover from this have "addr ?b \<le> q + period" by (simp add: word_le_nat_alt)
    ultimately show ?thesis by (simp add: unat_sub)
  qed
  show "played_pos p b (dai_played p b period w) = played_pos p b w + 2 * period"
    if a: "last_bytes (dais w p) = 0 \<and> roff ?b + unat period \<le> bsize ?b"
  proof -
    let ?q = "r_ptr ?b + period"
    have q: "unat (?q - addr ?b) = roff ?b + unat period" using offset [of "r_ptr ?b" "roff ?b"] d(10) a by simp
    show ?thesis
    proof (cases "end_addr ?b \<le> ?q")
      case True
      then have "?q = end_addr ?b" using at_end q a by simp
      then have "r_ptr ?b = addr ?b + ipc_size ?b - period" using e by (simp add: algebra_simps)
      then show ?thesis using True a by (simp add: played_pos_def dai_played_def Let_def comp_update_buffer_consume_def)
    next
      case False
      then show ?thesis using a by (simp add: played_pos_def dai_played_def Let_def comp_update_buffer_consume_def)
    qed
  qed
  show "captured_pos p b (dai_captured p b period w) = captured_pos p b w + period" if a: "woff ?b + unat period \<le> bsize ?b"
  proof -
    let ?q = "w_ptr ?b + period"
    have q: "unat (?q - addr ?b) = woff ?b + unat period" using offset [of "w_ptr ?b" "woff ?b"] d(11) a by simp
    show ?thesis
    proof (cases "end_addr ?b \<le> ?q")
      case True
      then have "?q = end_addr ?b" using at_end q a by simp
      then have "w_ptr ?b = addr ?b + ipc_size ?b - period" using e by (simp add: algebra_simps)
      then show ?thesis using True a by (simp add: captured_pos_def dai_captured_def Let_def comp_update_buffer_produce_def)
    next
      case False
      then show ?thesis using a by (simp add: captured_pos_def dai_captured_def Let_def comp_update_buffer_produce_def)
    qed
  qed
qed

text \<open>
  C29: when the host has mapped a position, the 64 bit word it reads after each period is the position
  counted in blocks and in the ring, sign extended from 32 bits: it moves on by one period when the port
  captures, by two when it plays, where the bytes of a period are counted with the period and again with
  the pointer, also over the end of the ring.
\<close>
theorem dai_position:
  assumes "buf_wf (bufs w b)" "0 < period" "dai_pos (dais w p) \<noteq> 0"
  shows "(last_bytes (dais w p) = 0 \<and> roff (bufs w b) + unat period \<le> bsize (bufs w b) \<longrightarrow>
      (let v = played_pos p b w + 2 * period; w' = dai_played p b period w in
        host_word p w' = scast v \<and> played_pos p b w' = v)) \<and>
    (woff (bufs w b) + unat period \<le> bsize (bufs w b) \<longrightarrow>
      (let v = captured_pos p b w + period; w' = dai_captured p b period w in
        host_word p w' = scast v \<and> captured_pos p b w' = v))"
  using dai_position_moves [OF assms(1,2), of p] played_word [OF assms(3), of b period] captured_word [OF assms(3), of b period]
  by (auto simp: Let_def)

section \<open>The end of a stream\<close>

text \<open>The controller's operations do not touch what the model keeps of the memory.\<close>

definition quiet_dma :: "(nat \<Rightarrow> 'a dai_world_scheme dma_ops) \<Rightarrow> bool" where
  "quiet_dma D \<longleftrightarrow> (\<forall>q c k g w. snd (dma_stop (D q) c k w) = w \<and> dma_start (D q) c w = (0, w) \<and> set_config (D q) c g w = (0, w))"

lemma dai_stop_running:
  assumes "quiet_dma D" "state (devs w d) = COMP_STATE_RUNNING" "dd_direction (dais w (priv (devs w d))) = 0"
    and "dd_dai (dais w (priv (devs w d))) < length (ports w)" "ssp_reach (ports w ! dd_dai (dais w (priv (devs w d))))"
  shows "\<exists>w'. dai_cmd D drains d COMP_CMD_STOP data w = Some (0, w') \<and> bufs w' = bufs w \<and> devs w' = (devs w)(d := (devs w d)\<lparr>state := COMP_STATE_SETUP\<rparr>) \<and>
    dais w' = (dais w)(priv (devs w d) := (dais w (priv (devs w d)))\<lparr>last_bytes := 0\<rparr>)"
proof -
  let ?p = "priv (devs w d)" let ?k = "dd_dai (dais w ?p)"
  obtain s' where s': "ssp_trigger drains COMP_CMD_STOP 0 (ports w ! ?k) = Some (0, s')"
    using ssp_trigger_inv [OF ssp_reach_inv [OF assms(5)], of COMP_CMD_STOP 0 drains] by auto
  have st: "snd (dma_stop (D q) c 1 w) = w" for q c using assms(1) by (simp add: quiet_dma_def)
  have "dai_trigger drains ?k COMP_CMD_STOP (dd_direction (dais w ?p)) w = Some (w\<lparr>ports := (ports w)[?k := s']\<rparr>)"
    using s' assms(3,4) by (simp add: dai_trigger_def)
  then have "dai_cmd D drains d COMP_CMD_STOP data w =
      Some (0, set_state d COMP_STATE_SETUP (upd_dai ?p (\<lambda>r. r\<lparr>last_bytes := 0\<rparr>) (w\<lparr>ports := (ports w)[?k := s']\<rparr>)))"
    using assms(2) st by (simp add: dai_cmd_def Let_def case_prod_unfold)
  then show ?thesis by simp
qed

text \<open>
  C28: when the pipeline brings no more, the port plays what is left, all of it, and stops: with a period
  and \<open>q\<close> bytes in the ring, the call back for the period makes the controller move the \<open>q\<close> bytes that
  follow, and the next one stops the DMA and the component, with the ring empty.
\<close>
theorem dai_drains_ring:
  assumes "quiet_dma D" "state (devs w d) = COMP_STATE_RUNNING" "p = priv (devs w d)" "dd_direction (dais w p) = 0" "last_bytes (dais w p) = 0"
    and "first_of (bsource_list (devs w d)) = Some b" "buf_wf (bufs w b)" "dev_period_bytes (devs w d) = period"
    and "unat period dvd bsize (bufs w b)" "unat period dvd roff (bufs w b)" "unat (avail (bufs w b)) = unat period + q" "0 < q" "q < unat period"
    and "dd_dai (dais w p) < length (ports w)" "ssp_reach (ports w ! dd_dai (dais w p))" "fifo_of (dd_dai (dais w p)) 0 w = Some f"
  shows "\<exists>w1 w2. dai_dma_cb D drains now d nx w = Some (\<lparr>e_src = addr (bufs w b) + of_nat ((roff (bufs w b) + unat period) mod bsize (bufs w b)), e_dest = f, e_size = of_nat q\<rparr>, w1) \<and>
    dai_dma_cb D drains' now' d nx' w1 = Some (nx'\<lparr>e_size := 0\<rparr>, w2) \<and> avail (bufs w2 b) = 0 \<and> state (devs w2 d) = COMP_STATE_SETUP"
proof -
  let ?b = "bufs w b" and ?P = "unat period"
  note wf = buf_wfD [OF assms(7)]
  have pos: "0 < ?P" using assms(13) by simp
  have room: "r + ?P \<le> bsize ?b" if "?P dvd r" "r < bsize ?b" for r
    using that assms(9) pos by (auto elim!: dvdE) (metis Suc_leI mult_Suc_right mult_le_mono2 nat_mult_less_cancel1 add.commute)
  have play: "0 = SOF_IPC_STREAM_PLAYBACK" by (simp add: SOF_IPC_STREAM_PLAYBACK_def)
  let ?w1 = "dai_played p b period w"
  let ?b1 = "bufs ?w1 b"
  have b1: "?b1 = comp_update_buffer_consume (step_r ?P ?b)" by (rule dai_played_buf [OF assms(7)]) (use assms(5,10) room wf(5) in simp_all)
  have av: "0 < ?P" "?P \<le> unat (avail ?b)" using pos assms(11) by simp_all
  have a1: "unat (avail ?b1) = q" unfolding b1 consume_avail [OF assms(7) av] using assms(11) by simp
  have wf1: "buf_wf ?b1" unfolding b1 by (rule consume_wf [OF assms(7) av])
  have cu: "bsize (comp_update_buffer_consume x) = bsize x" "roff (comp_update_buffer_consume x) = roff x" for x by (simp_all add: bsize_def roff_def)
  have s1: "bsize ?b1 = bsize ?b" "roff ?b1 = (roff ?b + ?P) mod bsize ?b" "r_ptr ?b1 = addr ?b + of_nat ((roff ?b + ?P) mod bsize ?b)"
    unfolding b1 using off_step(2) [OF assms(7), of ?P] by (simp_all only: cu) (simp_all add: step_r_def bsize_def)
  have d1: "?P dvd roff ?b1" using assms(9,10) by (simp add: s1 dvd_mod)
  have q1: "of_nat q = avail ?b1" unfolding a1 [symmetric] by simp
  let ?w1' = "upd_dai p (\<lambda>dd. dd\<lparr>last_bytes := avail ?b1\<rparr>) ?w1"
  have c1: "dai_dma_cb D drains now d nx w = Some (\<lparr>e_src = r_ptr ?b1, e_dest = f, e_size = avail ?b1\<rparr>, ?w1')"
  proof -
    have "avail ?b1 < period" "avail ?b1 \<noteq> 0" using a1 assms(12,13) by (auto simp: word_less_nat_alt)
    moreover have "fifo_of (dd_dai (dais w p)) 0 ?w1 = Some f" using assms(16) by (simp add: fifo_of_def)
    ultimately show ?thesis using assms(4,6) by (simp add: dai_dma_cb_def Let_def assms(8) assms(3) [symmetric] play [symmetric])
  qed
  let ?w2 = "dai_played p b period ?w1'"
  have n2: "avail ?b1 \<noteq> 0" using a1 assms(12) by auto
  have b2: "bufs ?w2 b = comp_update_buffer_consume (step_r q ?b1)"
    using dai_played_buf [of ?w1' b "avail ?b1" p period] wf1 n2 a1 room [OF d1] wf1 [THEN buf_wfD(5)] s1(1) assms(13) by simp
  have a2: "avail (bufs ?w2 b) = 0"
    unfolding b2 using consume_avail [OF wf1, of q] a1 assms(12) by (simp add: word_unat_eq_iff)
  have "state (devs ?w2 d) = COMP_STATE_RUNNING" "dd_direction (dais ?w2 (priv (devs ?w2 d))) = 0" "dd_dai (dais ?w2 (priv (devs ?w2 d))) < length (ports ?w2)"
    "ssp_reach (ports ?w2 ! dd_dai (dais ?w2 (priv (devs ?w2 d))))" using assms(2,4,14,15) by (simp_all add: assms(3) [symmetric])
  from dai_stop_running [OF assms(1) this, of drains' 0] obtain w2 where w2: "dai_cmd D drains' d COMP_CMD_STOP 0 ?w2 = Some (0, w2)" "bufs w2 = bufs ?w2"
    "devs w2 = (devs ?w2)(d := (devs ?w2 d)\<lparr>state := COMP_STATE_SETUP\<rparr>)" by blast
  have "dai_dma_cb D drains' now' d nx' ?w1' = Some (nx'\<lparr>e_size := 0\<rparr>, w2)"
    using assms(4,6) w2(1) a2 pos by (simp add: dai_dma_cb_def Let_def assms(8) assms(3) [symmetric] play [symmetric] word_less_nat_alt)
  then show ?thesis using c1 a2 w2(2,3) by (simp add: s1(3) q1)
qed

section \<open>Stop and start\<close>

text \<open>
  a stream that is stopped and started again runs on a port that was never stopped nor started: the
  component is in the state \<open>RUNNING\<close> again, the port still in the one it drains in, with the registers
  the stop has left.
\<close>
theorem dai_restart:
  assumes "quiet_dma D" "state (devs w d) = COMP_STATE_RUNNING" "p = priv (devs w d)" "dd_direction (dais w p) = 0" "dd_elems (dais w p) \<noteq> []"
    and "dd_dai (dais w p) = k" "k < length (ports w)" "ssp_reach (ports w ! k)" "s_state (ports w ! k) ! 0 = SSP_STATE_RUNNING"
  shows "\<exists>w1 w2 w3. dai_cmd D drains d COMP_CMD_STOP 0 w = Some (0, w1) \<and> dai_prepare D d w1 = Some (0, w2) \<and> dai_cmd D drains' d COMP_CMD_START 0 w2 = Some (0, w3) \<and>
    state (devs w3 d) = COMP_STATE_RUNNING \<and> s_state (ports w3 ! k) ! 0 = SSP_STATE_DRAINING \<and> ports w3 = ports w1"
proof -
  obtain s' where s': "ssp_trigger drains COMP_CMD_STOP 0 (ports w ! k) = Some (0, s')" "ssp_inv s'" "s_state s' ! 0 = SSP_STATE_DRAINING"
    using stop_drains [OF ssp_reach_inv [OF assms(8)] assms(9), of drains] by blast
  have st: "snd (dma_stop (D q) c 1 w) = w" "dma_start (D q) c v = (0, v)" "set_config (D q) c g v = (0, v)" for q c g v using assms(1) by (simp_all add: quiet_dma_def)
  let ?w1 = "set_state d COMP_STATE_SETUP (upd_dai p (\<lambda>r. r\<lparr>last_bytes := 0\<rparr>) (w\<lparr>ports := (ports w)[k := s']\<rparr>))"
  have "dai_trigger drains k COMP_CMD_STOP (dd_direction (dais w p)) w = Some (w\<lparr>ports := (ports w)[k := s']\<rparr>)" using s'(1) assms(4,7) by (simp add: dai_trigger_def)
  then have c1: "dai_cmd D drains d COMP_CMD_STOP 0 w = Some (0, ?w1)"
    using assms(2,6) st(1) by (simp add: dai_cmd_def Let_def case_prod_unfold assms(3) [symmetric])
  let ?w2 = "set_state d COMP_STATE_PREPARE ?w1"
  have c2: "dai_prepare D d ?w1 = Some (0, ?w2)" using st(3) assms(5) by (simp add: dai_prepare_def Let_def assms(3) [symmetric])
  have l: "length (s_state s') = 2" using s'(2) by (simp add: ssp_inv_def)
  have "dai_trigger drains' k COMP_CMD_START (dd_direction (dais ?w2 p)) ?w2 = Some (?w2\<lparr>ports := (ports ?w2)[k := s']\<rparr>)"
    using s'(3) l assms(4,7) by (simp add: dai_trigger_def ssp_trigger_def ssp_states)
  then have c3: "dai_cmd D drains' d COMP_CMD_START 0 ?w2 = Some (0, set_state d COMP_STATE_RUNNING (?w2\<lparr>ports := (ports ?w2)[k := s']\<rparr>))"
    using assms(6) st(2) by (simp add: dai_cmd_def Let_def assms(3) [symmetric] comp_states)
  let ?w3 = "set_state d COMP_STATE_RUNNING (?w2\<lparr>ports := (ports ?w2)[k := s']\<rparr>)"
  have "state (devs ?w3 d) = COMP_STATE_RUNNING" "s_state (ports ?w3 ! k) ! 0 = SSP_STATE_DRAINING" "ports ?w3 = ports ?w1"
    using s'(3) assms(7) by simp_all
  then show ?thesis using c1 c2 c3 by blast
qed

section \<open>Examples\<close>

text \<open>A ring of four periods of 8 bytes with a period and 4 bytes in it, on the port that plays.\<close>

definition still_dma :: "dai_world dma_ops" where
  "still_dma = \<lparr>channel_get = (\<lambda>w. (0, w)), channel_put = (\<lambda>c w. w), dma_start = (\<lambda>c w. (0, w)), dma_stop = (\<lambda>c k w. (0, w)),
     dma_pause = (\<lambda>c w. (0, w)), dma_release = (\<lambda>c w. (0, w)), set_config = (\<lambda>c g w. (0, w)), set_cb = (\<lambda>c k d w. w)\<rparr>"

definition dai_ring :: comp_buffer where
  "dai_ring = zero_buffer\<lparr>ipc_size := 32, alloc_size := 32, addr := 1000, end_addr := 1032, r_ptr := 1008, w_ptr := 1020, avail := 12, bfree := 20\<rparr>"

definition dai_demo :: dai_world where
  "dai_demo = world.extend (empty_world\<lparr>devs := (\<lambda>_. (devs empty_world 1)\<lparr>state := COMP_STATE_RUNNING, dev_period_bytes := 8, priv := 500, bsource_list := [10]\<rparr>),
       bufs := (\<lambda>_. dai_ring)\<rparr>)
     \<lparr>dais = (\<lambda>_. zero_dai_data\<lparr>dd_dai := 2, dd_elems := [(700, zero_elem)]\<rparr>), ports = [ssp_port 0, ssp_port 1, demo_playing], sch = idle_sched\<rparr>"

lemma dai_demo_sel:
  "devs dai_demo d = (devs empty_world 1)\<lparr>state := COMP_STATE_RUNNING, dev_period_bytes := 8, priv := 500, bsource_list := [10]\<rparr>"
  "bufs dai_demo b = dai_ring" "dais dai_demo p = zero_dai_data\<lparr>dd_dai := 2, dd_elems := [(700, zero_elem)]\<rparr>"
  "ports dai_demo = [ssp_port 0, ssp_port 1, demo_playing]"
  by (simp_all add: dai_demo_def world.defs empty_world_def)

definition dai_mapped :: dai_world where "dai_mapped = upd_dai 500 (\<lambda>r. r\<lparr>dai_pos := 0x3000\<rparr>) dai_demo"

lemma dai_ring_wf: "buf_wf dai_ring" "roff dai_ring = 8" "bsize dai_ring = 32" "unat (avail dai_ring) = 12" "addr dai_ring = 1000"
  by (simp_all add: dai_ring_def buf_wf_def roff_def woff_def bsize_def zero_buffer_def)

lemma still_quiet: "quiet_dma (\<lambda>_. still_dma)" by (simp add: quiet_dma_def still_dma_def)

lemma dai_position_witness: "host_word 500 (dai_played 500 10 8 dai_mapped) = 24"
proof -
  have "played_pos 500 10 dai_mapped + 2 * 8 = 24" by (simp add: played_pos_def dai_mapped_def dai_demo_sel zero_dai_data_def dai_ring_def)
  then show ?thesis
    using dai_position [of dai_mapped 10 8 500] by (simp add: dai_mapped_def dai_demo_sel dai_ring_wf zero_dai_data_def Let_def)
qed

lemma demo_playing_fifo: "d_fifo demo_playing = d_fifo (ssp_port 2)"
proof -
  have "d_fifo s' = d_fifo s" if "ssp_start dir s = Some s'" for dir s s'
    using that by (auto simp: ssp_start_def spin_lock_def spin_unlock_def set_ssp_state_def ssp_update_bits_def ssp_write_def Let_def split: bind_splits if_splits)
  moreover obtain s where s: "ssp_start 0 demo_ready = Some s" "demo_playing = s"
  proof -
    obtain s where "ssp_start 0 demo_ready = Some s" using ssp_start_inv [OF ssp_reach_inv [OF demo_reach(1)], of 0] by auto
    then show thesis using that by (simp add: demo_playing_def ssp_trigger_def demo_ready_state)
  qed
  ultimately have "d_fifo demo_playing = d_fifo demo_ready" by simp
  also have "\<dots> = d_fifo (ssp_port 2)"
    by (simp add: demo_ready_def demo_params_def demo_port_def ssp_probe_def ssp_port_def ssp_set_config_def spin_lock_def spin_unlock_def ssp_states ssp_master_def
        ssp_polarity_def ssp_clock_def ssp_frame_def set_ssp_state_def ssp_write_def)
  finally show ?thesis .
qed

lemma dai_drains_ring_witness:
  "\<exists>w1 w2. dai_dma_cb (\<lambda>_. still_dma) True 0 1 zero_elem dai_demo = Some (\<lparr>e_src = 1016, e_dest = 0xFF2A2010, e_size = 4\<rparr>, w1) \<and>
    dai_dma_cb (\<lambda>_. still_dma) True 0 1 zero_elem w1 = Some (zero_elem\<lparr>e_size := 0\<rparr>, w2) \<and> avail (bufs w2 10) = 0 \<and> state (devs w2 1) = COMP_STATE_SETUP"
proof -
  have f: "fifo_of 2 0 dai_demo = Some 0xFF2A2010"
    by (simp add: fifo_of_def dai_demo_sel dai_fifo_def demo_playing_fifo) (simp add: ssp_port_def SSP_BASE_def SSDR_def)
  have d: "state (devs dai_demo 1) = COMP_STATE_RUNNING" "500 = priv (devs dai_demo 1)" "dd_direction (dais dai_demo 500) = 0" "last_bytes (dais dai_demo 500) = 0"
    "first_of (bsource_list (devs dai_demo 1)) = Some 10" "buf_wf (bufs dai_demo 10)" "dev_period_bytes (devs dai_demo 1) = 8"
    "unat (8 :: u32) dvd bsize (bufs dai_demo 10)" "unat (8 :: u32) dvd roff (bufs dai_demo 10)" "unat (avail (bufs dai_demo 10)) = unat (8 :: u32) + 4" "(0 :: nat) < 4" "4 < unat (8 :: u32)"
    "dd_dai (dais dai_demo 500) < length (ports dai_demo)" "ssp_reach (ports dai_demo ! dd_dai (dais dai_demo 500))" "fifo_of (dd_dai (dais dai_demo 500)) 0 dai_demo = Some 0xFF2A2010"
    using f demo_reach(2) by (simp_all add: dai_demo_sel dai_ring_wf zero_dai_data_def first_of_def)
  have e: "addr (bufs dai_demo 10) + of_nat ((roff (bufs dai_demo 10) + unat (8 :: u32)) mod bsize (bufs dai_demo 10)) = 1016" by (simp add: dai_demo_sel dai_ring_wf)
  show ?thesis using dai_drains_ring [OF still_quiet d] unfolding e by simp
qed

lemma dai_restart_witness:
  "\<exists>w1 w2 w3. dai_cmd (\<lambda>_. still_dma) True 1 COMP_CMD_STOP 0 dai_demo = Some (0, w1) \<and> dai_prepare (\<lambda>_. still_dma) 1 w1 = Some (0, w2) \<and>
    dai_cmd (\<lambda>_. still_dma) True 1 COMP_CMD_START 0 w2 = Some (0, w3) \<and> state (devs w3 1) = COMP_STATE_RUNNING \<and> s_state (ports w3 ! 2) ! 0 = SSP_STATE_DRAINING"
proof -
  have d: "state (devs dai_demo 1) = COMP_STATE_RUNNING" "500 = priv (devs dai_demo 1)" "dd_direction (dais dai_demo 500) = 0" "dd_elems (dais dai_demo 500) \<noteq> []"
    "dd_dai (dais dai_demo 500) = 2" "2 < length (ports dai_demo)" "ssp_reach (ports dai_demo ! 2)" "s_state (ports dai_demo ! 2) ! 0 = SSP_STATE_RUNNING"
    using demo_reach by (simp_all add: dai_demo_sel zero_dai_data_def)
  show ?thesis using dai_restart [OF still_quiet d, of True True] by blast
qed

end
