(* ===== verification/Reef_Dw_Dma.thy ===== *)
theory Reef_Dw_Dma
  imports Reef_Dma
begin

text \<open>
  The DMA controller, src/src/drivers/dw-dma.c with include/reef/dw-dma.h, and the controllers of
  platform/baytrail/dma.c, built for Baytrail. The device is behind the function \<open>H\<close>: \<open>H r v\<close> is what a
  write of \<open>v\<close> to register \<open>r\<close> does to the values the registers read as. The lock is a real one: taking
  it while it is held never returns, which is \<open>None\<close>. The work that waits for a channel to drain runs
  while \<open>dw_stop\<close> waits for it or as a later step.
\<close>

section \<open>Registers\<close>

definition DW_MAX_CHAN :: nat where "DW_MAX_CHAN = 8"
definition BYT_CHAN_OFFSET :: "nat \<Rightarrow> u32" where "BYT_CHAN_OFFSET c = 0x58 * of_nat c"
definition DW_SAR :: "nat \<Rightarrow> u32" where "DW_SAR c = 0x00 + BYT_CHAN_OFFSET c"
definition DW_DAR :: "nat \<Rightarrow> u32" where "DW_DAR c = 0x08 + BYT_CHAN_OFFSET c"
definition DW_CTRL_LOW :: "nat \<Rightarrow> u32" where "DW_CTRL_LOW c = 0x18 + BYT_CHAN_OFFSET c"
definition DW_CTRL_HIGH :: "nat \<Rightarrow> u32" where "DW_CTRL_HIGH c = 0x1C + BYT_CHAN_OFFSET c"
definition DW_CFG_LOW :: "nat \<Rightarrow> u32" where "DW_CFG_LOW c = 0x40 + BYT_CHAN_OFFSET c"
definition DW_CFG_HIGH :: "nat \<Rightarrow> u32" where "DW_CFG_HIGH c = 0x44 + BYT_CHAN_OFFSET c"

definition DW_STATUS_TFR :: u32 where "DW_STATUS_TFR = 0x2E8"
definition DW_STATUS_BLOCK :: u32 where "DW_STATUS_BLOCK = 0x2F0"
definition DW_STATUS_ERR :: u32 where "DW_STATUS_ERR = 0x308"
definition DW_MASK_TFR :: u32 where "DW_MASK_TFR = 0x310"
definition DW_MASK_BLOCK :: u32 where "DW_MASK_BLOCK = 0x318"
definition DW_MASK_SRC_TRAN :: u32 where "DW_MASK_SRC_TRAN = 0x320"
definition DW_MASK_DST_TRAN :: u32 where "DW_MASK_DST_TRAN = 0x328"
definition DW_MASK_ERR :: u32 where "DW_MASK_ERR = 0x330"
definition DW_CLEAR_TFR :: u32 where "DW_CLEAR_TFR = 0x338"
definition DW_CLEAR_BLOCK :: u32 where "DW_CLEAR_BLOCK = 0x340"
definition DW_CLEAR_SRC_TRAN :: u32 where "DW_CLEAR_SRC_TRAN = 0x348"
definition DW_CLEAR_DST_TRAN :: u32 where "DW_CLEAR_DST_TRAN = 0x350"
definition DW_CLEAR_ERR :: u32 where "DW_CLEAR_ERR = 0x358"
definition DW_DMA_CFG :: u32 where "DW_DMA_CFG = 0x398"
definition DW_DMA_CHAN_EN :: u32 where "DW_DMA_CHAN_EN = 0x3A0"
definition DW_FIFO_PART0_LO :: u32 where "DW_FIFO_PART0_LO = 0x400"
definition DW_FIFO_PART0_HI :: u32 where "DW_FIFO_PART0_HI = 0x404"
definition DW_FIFO_PART1_LO :: u32 where "DW_FIFO_PART1_LO = 0x408"
definition DW_FIFO_PART1_HI :: u32 where "DW_FIFO_PART1_HI = 0x40C"

definition INT_MASK :: "nat \<Rightarrow> u32" where "INT_MASK c = push_bit c 0x100"
definition INT_UNMASK :: "nat \<Rightarrow> u32" where "INT_UNMASK c = push_bit c 0x101"
definition INT_MASK_ALL :: u32 where "INT_MASK_ALL = 0xFF00"
definition CHAN_ENABLE :: "nat \<Rightarrow> u32" where "CHAN_ENABLE c = push_bit c 0x101"
definition CHAN_DISABLE :: "nat \<Rightarrow> u32" where "CHAN_DISABLE c = push_bit c 0x100"

definition DW_CFG_CH_SUSPEND :: u32 where "DW_CFG_CH_SUSPEND = 0x100"
definition DW_CFG_CH_FIFO_EMPTY :: u32 where "DW_CFG_CH_FIFO_EMPTY = 0x200"
definition DW_CFG_CH_DRAIN :: u32 where "DW_CFG_CH_DRAIN = 0x400"
definition DW_CFG_LOW_DEF :: u32 where "DW_CFG_LOW_DEF = 3"
definition DW_CFG_HIGH_DEF :: u32 where "DW_CFG_HIGH_DEF = 0"
definition DW_CFGH_SRC_PER :: "u32 \<Rightarrow> u32" where "DW_CFGH_SRC_PER x = push_bit 0 x"
definition DW_CFGH_DST_PER :: "u32 \<Rightarrow> u32" where "DW_CFGH_DST_PER x = push_bit 4 x"
definition DW_CTLH_BLOCK_TS_MASK :: u32 where "DW_CTLH_BLOCK_TS_MASK = 0x1FFFF"
definition DW_CTLH_CLASS :: "u32 \<Rightarrow> u32" where "DW_CTLH_CLASS x = push_bit 29 x"

definition DW_CTLL_INT_EN :: u32 where "DW_CTLL_INT_EN = 1"
definition DW_CTLL_DST_WIDTH :: "u32 \<Rightarrow> u32" where "DW_CTLL_DST_WIDTH x = push_bit 1 x"
definition DW_CTLL_SRC_WIDTH :: "u32 \<Rightarrow> u32" where "DW_CTLL_SRC_WIDTH x = push_bit 4 x"
definition DW_CTLL_DST_INC :: u32 where "DW_CTLL_DST_INC = push_bit 7 0"
definition DW_CTLL_DST_FIX :: u32 where "DW_CTLL_DST_FIX = push_bit 7 2"
definition DW_CTLL_SRC_INC :: u32 where "DW_CTLL_SRC_INC = push_bit 9 0"
definition DW_CTLL_SRC_FIX :: u32 where "DW_CTLL_SRC_FIX = push_bit 9 2"
definition DW_CTLL_DST_MSIZE :: "u32 \<Rightarrow> u32" where "DW_CTLL_DST_MSIZE x = push_bit 11 x"
definition DW_CTLL_SRC_MSIZE :: "u32 \<Rightarrow> u32" where "DW_CTLL_SRC_MSIZE x = push_bit 14 x"
definition DW_CTLL_FC :: "u32 \<Rightarrow> u32" where "DW_CTLL_FC x = push_bit 20 x"

definition PLATFORM_HOST_DMA_MASK :: u32 where "PLATFORM_HOST_DMA_MASK = 0xFF000000"
definition PLATFORM_DMA_TIMEOUT :: u32 where "PLATFORM_DMA_TIMEOUT = 1333"
definition SHIM_PISR :: u32 where "SHIM_PISR = 0x8"

section \<open>State\<close>

definition DMA_STATUS_FREE :: u32 where "DMA_STATUS_FREE = 0"
definition DMA_STATUS_IDLE :: u32 where "DMA_STATUS_IDLE = 1"
definition DMA_STATUS_RUNNING :: u32 where "DMA_STATUS_RUNNING = 2"
definition DMA_STATUS_DRAINING :: u32 where "DMA_STATUS_DRAINING = 4"
definition DMA_STATUS_CLOSING :: u32 where "DMA_STATUS_CLOSING = 5"
definition DMA_STATUS_PAUSED :: u32 where "DMA_STATUS_PAUSED = 6"
definition DMA_STATUS_PAUSING :: u32 where "DMA_STATUS_PAUSING = 7"
definition DMA_STATUS_STOPPING :: u32 where "DMA_STATUS_STOPPING = 8"

lemmas dma_statuses = DMA_STATUS_FREE_def DMA_STATUS_IDLE_def DMA_STATUS_RUNNING_def DMA_STATUS_DRAINING_def
  DMA_STATUS_CLOSING_def DMA_STATUS_PAUSED_def DMA_STATUS_PAUSING_def DMA_STATUS_STOPPING_def

definition DMA_IRQ_TYPE_LLIST :: u32 where "DMA_IRQ_TYPE_LLIST = push_bit 1 1"
definition DMA_RELOAD_END :: u32 where "DMA_RELOAD_END = 0"
definition DMA_RELOAD_LLI :: u32 where "DMA_RELOAD_LLI = 0xFFFFFFFF"

text \<open>A transfer descriptor; descriptors lie in the runtime heap, \<open>sizeof_dw_lli2\<close> bytes apart.\<close>

record dw_lli2 =
  l_sar :: u32
  l_dar :: u32
  l_llp :: u32
  l_ctrl_lo :: u32
  l_ctrl_hi :: u32
  l_sstat :: u32
  l_dstat :: u32

definition zero_lli :: dw_lli2 where
  "zero_lli = \<lparr>l_sar = 0, l_dar = 0, l_llp = 0, l_ctrl_lo = 0, l_ctrl_hi = 0, l_sstat = 0, l_dstat = 0\<rparr>"

definition sizeof_dw_lli2 :: u32 where "sizeof_dw_lli2 = 28"

text \<open>
  \<open>struct dma_chan_data\<close>; its back pointers are the index in \<open>dw_chans\<close>. Of the completion \<open>c_complete\<close>
  and \<open>c_timeout\<close> are the two fields, \<open>fifo_work\<close> says whether the drain work is scheduled.
\<close>

record dma_chan_data =
  c_status :: u32
  c_direction :: u32
  c_complete :: bool
  c_timeout :: u32
  drain_count :: s32
  c_lli :: u32
  lli_current :: u32
  desc_count :: u32
  cfg_lo :: u32
  cfg_hi :: u32
  fifo_work :: bool
  c_cb :: "nat option"
  c_cb_data :: u32
  c_cb_type :: u32

text \<open>\<open>struct dma\<close> and \<open>struct dma_pdata\<close> of one controller, with the descriptors and the registers.\<close>

record dw_world = world +
  dw_irq :: u32
  dw_lock :: bool
  dw_chans :: "dma_chan_data list"
  dw_class :: u32
  llis :: "u32 \<Rightarrow> dw_lli2"
  dw_regs :: "u32 \<Rightarrow> u32"
  shim :: "u32 \<Rightarrow> u32"

type_synonym dw_device = "u32 \<Rightarrow> u32 \<Rightarrow> (u32 \<Rightarrow> u32) \<Rightarrow> u32 \<Rightarrow> u32"

definition dw_write :: "dw_device \<Rightarrow> u32 \<Rightarrow> u32 \<Rightarrow> 'a dw_world_scheme \<Rightarrow> 'a dw_world_scheme" where
  "dw_write H r v s = s\<lparr>dw_regs := H r v (dw_regs s)\<rparr>"

definition dw_read :: "u32 \<Rightarrow> 'a dw_world_scheme \<Rightarrow> u32" where
  "dw_read r s = dw_regs s r"

definition dw_update_bits :: "dw_device \<Rightarrow> u32 \<Rightarrow> u32 \<Rightarrow> u32 \<Rightarrow> 'a dw_world_scheme \<Rightarrow> 'a dw_world_scheme" where
  "dw_update_bits H r m v s = dw_write H r ((dw_read r s AND NOT m) OR (v AND m)) s"

definition dma_spin_lock :: "'a dw_world_scheme \<Rightarrow> 'a dw_world_scheme option" where
  "dma_spin_lock s = (if dw_lock s then None else Some (s\<lparr>dw_lock := True\<rparr>))"

definition dma_spin_unlock :: "'a dw_world_scheme \<Rightarrow> 'a dw_world_scheme" where
  "dma_spin_unlock s = s\<lparr>dw_lock := False\<rparr>"

definition upd_chan :: "nat \<Rightarrow> (dma_chan_data \<Rightarrow> dma_chan_data) \<Rightarrow> 'a dw_world_scheme \<Rightarrow> 'a dw_world_scheme" where
  "upd_chan c f s = s\<lparr>dw_chans := (dw_chans s)[c := f (dw_chans s ! c)]\<rparr>"

definition upd_lli :: "u32 \<Rightarrow> (dw_lli2 \<Rightarrow> dw_lli2) \<Rightarrow> 'a dw_world_scheme \<Rightarrow> 'a dw_world_scheme" where
  "upd_lli a f s = s\<lparr>llis := (llis s)(a := f (llis s a))\<rparr>"

definition set_status :: "u32 \<Rightarrow> dma_chan_data \<Rightarrow> dma_chan_data" where
  "set_status v = (\<lambda>p. p\<lparr>c_status := v\<rparr>)"

text \<open>\<open>platform_interrupt_clear\<close>: the bits of the controller in the shim's status register.\<close>

definition platform_interrupt_clear :: "u32 \<Rightarrow> u32 \<Rightarrow> 'a dw_world_scheme \<Rightarrow> 'a dw_world_scheme" where
  "platform_interrupt_clear irq m s =
     (if irq = 13 then s\<lparr>shim := (shim s)(SHIM_PISR := push_bit 16 m)\<rparr>
      else if irq = 14 then s\<lparr>shim := (shim s)(SHIM_PISR := push_bit 24 m)\<rparr>
      else s)"

section \<open>Channels\<close>

definition dw_channel_get :: "dw_device \<Rightarrow> 'a dw_world_scheme \<Rightarrow> (int \<times> 'a dw_world_scheme) option" where
  "dw_channel_get H s = do {
     s \<leftarrow> dma_spin_lock s;
     case find (\<lambda>i. c_status (dw_chans s ! i) = DMA_STATUS_FREE) [0 ..< DW_MAX_CHAN] of
       None \<Rightarrow> Some (- ENODEV, dma_spin_unlock s)
     | Some i \<Rightarrow>
         let s = upd_chan i (set_status DMA_STATUS_IDLE) s;
             s = dw_write H DW_MASK_TFR (INT_UNMASK i) s;
             s = dw_write H DW_MASK_BLOCK (INT_UNMASK i) s;
             s = dw_write H DW_MASK_ERR (INT_UNMASK i) s
         in Some (int i, dma_spin_unlock s) }"

definition dw_channel_put_unlocked :: "dw_device \<Rightarrow> nat \<Rightarrow> 'a dw_world_scheme \<Rightarrow> 'a dw_world_scheme option" where
  "dw_channel_put_unlocked H c s = do {
     p \<leftarrow> aget (dw_chans s) c;
     if c_status p = DMA_STATUS_DRAINING then Some (upd_chan c (set_status DMA_STATUS_CLOSING) s)
     else if c_status p = DMA_STATUS_PAUSED then
       (let s = dw_update_bits H (DW_CFG_LOW c) (DW_CFG_CH_SUSPEND OR DW_CFG_CH_DRAIN) (DW_CFG_CH_SUSPEND OR DW_CFG_CH_DRAIN) s;
            s = upd_chan c (set_status DMA_STATUS_CLOSING) s
        in Some (upd_chan c (\<lambda>p. p\<lparr>fifo_work := True\<rparr>) s))
     else
       (let s = dw_write H DW_MASK_TFR (INT_MASK c) s;
            s = dw_write H DW_MASK_BLOCK (INT_MASK c) s;
            s = dw_write H DW_MASK_ERR (INT_MASK c) s
        in do {
          s \<leftarrow> (if c_lli p \<noteq> 0 then do { s \<leftarrow> free_one (c_lli p) s; Some (upd_chan c (\<lambda>p. p\<lparr>c_lli := 0\<rparr>) s) } else Some s);
          Some (upd_chan c (\<lambda>p. p\<lparr>c_status := DMA_STATUS_FREE, c_cb := None, desc_count := 0\<rparr>) s) }) }"

definition dw_channel_put :: "dw_device \<Rightarrow> nat \<Rightarrow> 'a dw_world_scheme \<Rightarrow> 'a dw_world_scheme option" where
  "dw_channel_put H c s = do { s \<leftarrow> dma_spin_lock s; s \<leftarrow> dw_channel_put_unlocked H c s; Some (dma_spin_unlock s) }"

text \<open>A block is programmed: its descriptor, then the configuration of the channel; \<open>en\<close> enables it.\<close>

definition dw_program :: "dw_device \<Rightarrow> nat \<Rightarrow> dw_lli2 \<Rightarrow> dma_chan_data \<Rightarrow> 'a dw_world_scheme \<Rightarrow> 'a dw_world_scheme" where
  "dw_program H c l p s =
     (let s = dw_write H (DW_SAR c) (l_sar l) s;
          s = dw_write H (DW_DAR c) (l_dar l) s;
          s = dw_write H (DW_CTRL_LOW c) (l_ctrl_lo l) s;
          s = dw_write H (DW_CTRL_HIGH c) (l_ctrl_hi l) s;
          s = dw_write H (DW_CFG_LOW c) (cfg_lo p) s
      in dw_write H (DW_CFG_HIGH c) (cfg_hi p) s)"

definition dw_start :: "dw_device \<Rightarrow> nat \<Rightarrow> 'a dw_world_scheme \<Rightarrow> (int \<times> 'a dw_world_scheme) option" where
  "dw_start H c s = do {
     s \<leftarrow> dma_spin_lock s;
     p \<leftarrow> aget (dw_chans s) c;
     if c_status p \<noteq> DMA_STATUS_IDLE \<or> dw_read DW_DMA_CHAN_EN s AND push_bit c 1 \<noteq> 0 then Some (- EBUSY, dma_spin_unlock s)
     else if c_lli p = 0 then Some (- EINVAL, dma_spin_unlock s)
     else
       (let s = dw_write H DW_CLEAR_TFR (push_bit c 1) s;
            s = dw_write H DW_CLEAR_BLOCK (push_bit c 1) s;
            s = dw_write H DW_CLEAR_SRC_TRAN (push_bit c 1) s;
            s = dw_write H DW_CLEAR_DST_TRAN (push_bit c 1) s;
            s = dw_write H DW_CLEAR_ERR (push_bit c 1) s;
            s = platform_interrupt_clear (dw_irq s) (push_bit c 1) s;
            s = dw_program H c (llis s (c_lli p)) p s;
            s = upd_chan c (\<lambda>p. p\<lparr>c_status := DMA_STATUS_RUNNING, lli_current := c_lli p\<rparr>) s;
            s = dw_write H DW_DMA_CHAN_EN (CHAN_ENABLE c) s
        in Some (0, dma_spin_unlock s)) }"

section \<open>Reloading a channel\<close>

definition dw_chan_reload_lli :: "dw_device \<Rightarrow> nat \<Rightarrow> 'a dw_world_scheme \<Rightarrow> 'a dw_world_scheme option" where
  "dw_chan_reload_lli H c s = do {
     p \<leftarrow> aget (dw_chans s) c;
     if lli_current p = 0 \<or> l_llp (llis s (lli_current p)) = 0 then Some (upd_chan c (set_status DMA_STATUS_IDLE) s)
     else
       (let l = l_llp (llis s (lli_current p));
            s = upd_chan c (\<lambda>p. p\<lparr>lli_current := l\<rparr>) s;
            s = dw_program H c (llis s l) p s
        in Some (dw_write H DW_DMA_CHAN_EN (CHAN_ENABLE c) s)) }"

definition dw_chan_reload_next :: "dw_device \<Rightarrow> nat \<Rightarrow> dma_sg_elem \<Rightarrow> 'a dw_world_scheme \<Rightarrow> 'a dw_world_scheme option" where
  "dw_chan_reload_next H c e s = do {
     p \<leftarrow> aget (dw_chans s) c;
     if lli_current p = 0 then None
     else
       (let s = upd_lli (lli_current p) (\<lambda>l. l\<lparr>l_ctrl_hi := DW_CTLH_CLASS (dw_class s) OR (e_size e AND DW_CTLH_BLOCK_TS_MASK)\<rparr>) s;
            s = dw_program H c ((llis s (lli_current p))\<lparr>l_sar := e_src e, l_dar := e_dest e\<rparr>) p s
        in Some (dw_write H DW_DMA_CHAN_EN (CHAN_ENABLE c) s)) }"

section \<open>Pausing and stopping\<close>

definition dw_release :: "dw_device \<Rightarrow> nat \<Rightarrow> 'a dw_world_scheme \<Rightarrow> (int \<times> 'a dw_world_scheme) option" where
  "dw_release H c s = do {
     s \<leftarrow> dma_spin_lock s;
     p \<leftarrow> aget (dw_chans s) c;
     s \<leftarrow> (if c_status p = DMA_STATUS_PAUSED then dw_chan_reload_lli H c s else Some s);
     Some (0, dma_spin_unlock (upd_chan c (set_status DMA_STATUS_RUNNING) s)) }"

definition dw_pause :: "nat \<Rightarrow> 'a dw_world_scheme \<Rightarrow> (int \<times> 'a dw_world_scheme) option" where
  "dw_pause c s = do {
     s \<leftarrow> dma_spin_lock s;
     p \<leftarrow> aget (dw_chans s) c;
     Some (0, dma_spin_unlock (if c_status p \<noteq> DMA_STATUS_RUNNING then s else upd_chan c (set_status DMA_STATUS_PAUSING) s)) }"

definition clear_suspend :: "dw_device \<Rightarrow> nat \<Rightarrow> 'a dw_world_scheme \<Rightarrow> 'a dw_world_scheme" where
  "clear_suspend H c s = dw_update_bits H (DW_CFG_LOW c) (DW_CFG_CH_SUSPEND OR DW_CFG_CH_DRAIN) 0 s"

text \<open>The drain work; it returns the microseconds to its next run. The test counts, whatever it gives.\<close>

definition dw_fifo_work :: "dw_device \<Rightarrow> nat \<Rightarrow> 'a dw_world_scheme \<Rightarrow> (u32 \<times> 'a dw_world_scheme) option" where
  "dw_fifo_work H c s = do {
     s \<leftarrow> dma_spin_lock s;
     p \<leftarrow> aget (dw_chans s) c;
     if c_status p \<noteq> DMA_STATUS_DRAINING \<and> c_status p \<noteq> DMA_STATUS_CLOSING \<and> c_status p \<noteq> DMA_STATUS_STOPPING
     then Some (0, dma_spin_unlock s)
     else
       (let s = upd_chan c (\<lambda>p. p\<lparr>drain_count := drain_count p - 1\<rparr>) s;
            put = (\<lambda>s. if c_status p = DMA_STATUS_CLOSING then dw_channel_put_unlocked H c s else Some s)
        in if drain_count p \<le>s 0 then do {
             s \<leftarrow> put s;
             Some (0, dma_spin_unlock (upd_chan c (set_status DMA_STATUS_IDLE) (clear_suspend H c s))) }
           else if dw_read (DW_CFG_LOW c) s AND DW_CFG_CH_FIFO_EMPTY \<noteq> 0 then
             (if dw_read DW_DMA_CHAN_EN s AND push_bit c 1 = 0 then do {
                s \<leftarrow> put (clear_suspend H c s);
                Some (0, dma_spin_unlock (upd_chan c (\<lambda>p. p\<lparr>c_status := DMA_STATUS_IDLE, c_complete := True\<rparr>) s)) }
              else Some (100, dma_spin_unlock (dw_write H DW_DMA_CHAN_EN (CHAN_DISABLE c) s)))
           else Some (100, dma_spin_unlock s)) }"

text \<open>One run of the work by its queue, after the registers have changed by \<open>h\<close>.\<close>

definition run_fifo_work :: "dw_device \<Rightarrow> nat \<Rightarrow> ((u32 \<Rightarrow> u32) \<Rightarrow> u32 \<Rightarrow> u32) \<Rightarrow> 'a dw_world_scheme \<Rightarrow> 'a dw_world_scheme option" where
  "run_fifo_work H c h s = do {
     (t, s) \<leftarrow> dw_fifo_work H c (s\<lparr>dw_regs := h (dw_regs s)\<rparr>);
     Some (upd_chan c (\<lambda>p. p\<lparr>fifo_work := t \<noteq> 0\<rparr>) s) }"

fun fifo_passes :: "dw_device \<Rightarrow> nat \<Rightarrow> ((u32 \<Rightarrow> u32) \<Rightarrow> u32 \<Rightarrow> u32) list \<Rightarrow> 'a dw_world_scheme \<Rightarrow> 'a dw_world_scheme option" where
  "fifo_passes H c [] s = Some s"
| "fifo_passes H c (h # hs) s =
     (if fifo_work (dw_chans s ! c) then do { s \<leftarrow> run_fifo_work H c h s; fifo_passes H c hs s } else Some s)"

text \<open>
  \<open>wait_for_completion_timeout\<close> on the channel. \<open>timer t\<close> is what the work queue does within a wait of
  \<open>t\<close> microseconds: the runs of the drain work, each with the change of the registers before it, and
  whether the wait has expired when the waiting code looks. Without either event it waits for ever.
\<close>

type_synonym dw_timer = "u32 \<Rightarrow> ((u32 \<Rightarrow> u32) \<Rightarrow> u32 \<Rightarrow> u32) list \<times> bool"

definition dw_wait :: "dw_device \<Rightarrow> dw_timer \<Rightarrow> nat \<Rightarrow> 'a dw_world_scheme \<Rightarrow> (int \<times> 'a dw_world_scheme) option" where
  "dw_wait H timer c s =
     (let (hs, expired) = timer (c_timeout (dw_chans s ! c));
          s = upd_chan c (\<lambda>p. p\<lparr>c_timeout := 0\<rparr>) s
      in do {
        s \<leftarrow> fifo_passes H c hs s;
        if expired then Some (- ETIME, upd_chan c (\<lambda>p. p\<lparr>c_timeout := 1\<rparr>) s)
        else if c_complete (dw_chans s ! c) then Some (0, s)
        else None })"

definition dw_stop :: "dw_device \<Rightarrow> dw_timer \<Rightarrow> nat \<Rightarrow> bool \<Rightarrow> 'a dw_world_scheme \<Rightarrow> (int \<times> 'a dw_world_scheme) option" where
  "dw_stop H timer c drain s = do {
     s \<leftarrow> dma_spin_lock s;
     p \<leftarrow> aget (dw_chans s) c;
     if dw_read DW_DMA_CHAN_EN s AND push_bit c 1 = 0 then Some (0, dma_spin_unlock (upd_chan c (set_status DMA_STATUS_IDLE) s))
     else
       (let bits = (if drain then DW_CFG_CH_SUSPEND OR DW_CFG_CH_DRAIN else DW_CFG_CH_SUSPEND);
            s = upd_chan c (\<lambda>p. p\<lparr>drain_count := (if drain then 14 else 3), c_status := (if drain then DMA_STATUS_DRAINING else DMA_STATUS_STOPPING)\<rparr>) s;
            s = dma_spin_unlock (dw_update_bits H (DW_CFG_LOW c) bits bits s);
            s = upd_chan c (\<lambda>p. p\<lparr>c_complete := False, fifo_work := True\<rparr>) s
        in dw_wait H timer c s) }"

record dma_chan_status =
  ch_state :: u32
  w_pos :: u32
  r_pos :: u32
  ch_timestamp :: u32

definition dw_status :: "nat \<Rightarrow> u32 \<Rightarrow> 'a dw_world_scheme \<Rightarrow> (int \<times> dma_chan_status) option" where
  "dw_status c now s = do {
     p \<leftarrow> aget (dw_chans s) c;
     Some (0, \<lparr>ch_state = c_status p, w_pos = dw_read (DW_DAR c) s, r_pos = dw_read (DW_SAR c) s, ch_timestamp = now\<rparr>) }"

section \<open>Configuration\<close>

text \<open>
  What the switch over the direction sets for an element: the bits of \<open>ctrl_lo\<close>, the two addresses and
  the bits of \<open>cfg_hi\<close>. An unknown direction sets nothing.
\<close>

definition lli_route :: "dma_sg_config \<Rightarrow> dma_sg_elem \<Rightarrow> u32 \<times> u32 \<times> u32 \<times> u32" where
  "lli_route cfg e =
     (let d = dma_direction cfg; m2m = DW_CTLL_FC 0 OR (DW_CTLL_SRC_INC OR DW_CTLL_DST_INC); M = PLATFORM_HOST_DMA_MASK in
      if d = 2 then (m2m, e_src e OR M, e_dest e, 0)
      else if d = 1 then (m2m, e_src e, e_dest e OR M, 0)
      else if d = 0 then (m2m, e_src e OR M, e_dest e OR M, 0)
      else if d = 3 then (DW_CTLL_FC 1 OR (DW_CTLL_SRC_INC OR DW_CTLL_DST_FIX), e_src e OR M, e_dest e, DW_CFGH_DST_PER (dest_dev cfg))
      else if d = 4 then (DW_CTLL_FC 2 OR (DW_CTLL_SRC_FIX OR DW_CTLL_DST_INC), e_src e, e_dest e OR M, DW_CFGH_SRC_PER (src_dev cfg))
      else if d = 5 then (DW_CTLL_FC 3 OR (DW_CTLL_SRC_FIX OR DW_CTLL_DST_FIX), e_src e, e_dest e, DW_CFGH_SRC_PER (src_dev cfg) OR DW_CFGH_DST_PER (dest_dev cfg))
      else (0, 0, 0, 0))"

definition lli_ctrl :: u32 where
  "lli_ctrl = DW_CTLL_SRC_WIDTH 2 OR DW_CTLL_DST_WIDTH 2 OR DW_CTLL_SRC_MSIZE 3 OR DW_CTLL_DST_MSIZE 3 OR DW_CTLL_INT_EN"

fun fill_llis :: "dma_sg_config \<Rightarrow> nat \<Rightarrow> u32 \<Rightarrow> dma_sg_elem list \<Rightarrow> 'a dw_world_scheme \<Rightarrow> int \<times> 'a dw_world_scheme" where
  "fill_llis cfg c a [] s = (0, s)"
| "fill_llis cfg c a (e # es) s =
     (let (lo, sar, dar, hi) = lli_route cfg e;
          s = upd_lli a (\<lambda>l. l\<lparr>l_ctrl_lo := l_ctrl_lo l OR lli_ctrl OR lo, l_sar := sar, l_dar := dar\<rparr>) s;
          s = upd_chan c (\<lambda>p. p\<lparr>cfg_hi := cfg_hi p OR hi\<rparr>) s
      in if DW_CTLH_BLOCK_TS_MASK < e_size e then (- EINVAL, s)
         else
           (let s = upd_lli a (\<lambda>l. l\<lparr>l_ctrl_hi := DW_CTLH_CLASS (dw_class s) OR (e_size e AND DW_CTLH_BLOCK_TS_MASK), l_llp := a + sizeof_dw_lli2\<rparr>) s
            in fill_llis cfg c (a + sizeof_dw_lli2) es s))"

text \<open>\<open>bzero\<close> of the descriptors.\<close>

fun zero_llis :: "nat \<Rightarrow> u32 \<Rightarrow> 'a dw_world_scheme \<Rightarrow> 'a dw_world_scheme" where
  "zero_llis 0 a s = s"
| "zero_llis (Suc n) a s = zero_llis n (a + sizeof_dw_lli2) (upd_lli a (\<lambda>_. zero_lli) s)"

text \<open>A table for \<open>n\<close> descriptors, unless the channel has one of that length.\<close>

definition dw_realloc :: "nat \<Rightarrow> u32 \<Rightarrow> 'a dw_world_scheme \<Rightarrow> 'a dw_world_scheme option" where
  "dw_realloc c n s = do {
     p \<leftarrow> aget (dw_chans s) c;
     if n = desc_count p then Some s
     else do {
       let s = upd_chan c (\<lambda>p. p\<lparr>desc_count := n\<rparr>) s;
       s \<leftarrow> (if c_lli p \<noteq> 0 then free_one (c_lli p) s else Some s);
       (a, s) \<leftarrow> zalloc (sizeof_dw_lli2 * n) s;
       Some (upd_chan c (\<lambda>p. p\<lparr>c_lli := a\<rparr>) s) } }"

text \<open>The three error returns leave the lock taken.\<close>

definition dw_set_config :: "nat \<Rightarrow> dma_sg_config \<Rightarrow> 'a dw_world_scheme \<Rightarrow> (int \<times> 'a dw_world_scheme) option" where
  "dw_set_config c cfg s = do {
     s \<leftarrow> dma_spin_lock s;
     p \<leftarrow> aget (dw_chans s) c;
     let s = upd_chan c (\<lambda>p. p\<lparr>c_direction := dma_direction cfg, cfg_lo := DW_CFG_LOW_DEF, cfg_hi := DW_CFG_HIGH_DEF\<rparr>) s;
     let n = of_nat (length (sg_elems cfg));
     if n = 0 then Some (- EINVAL, s)
     else do {
       s \<leftarrow> dw_realloc c n s;
       let a = c_lli (dw_chans s ! c);
       if a = 0 then (if n = desc_count p then None else Some (- ENOMEM, s))
       else
         (let s = zero_llis (unat n) a s;
              (ret, s) = fill_llis cfg c a (sg_elems cfg) s
          in if ret \<noteq> 0 then Some (ret, s)
             else Some (0, dma_spin_unlock (upd_lli (a + sizeof_dw_lli2 * (n - 1)) (\<lambda>l. l\<lparr>l_llp := (if cyclic cfg \<noteq> 0 then a else 0)\<rparr>) s))) } }"

definition dw_set_cb :: "nat \<Rightarrow> u32 \<Rightarrow> nat option \<Rightarrow> u32 \<Rightarrow> 'a dw_world_scheme \<Rightarrow> 'a dw_world_scheme option" where
  "dw_set_cb c type cb data s = do {
     s \<leftarrow> dma_spin_lock s;
     p \<leftarrow> aget (dw_chans s) c;
     Some (dma_spin_unlock (upd_chan c (\<lambda>p. p\<lparr>c_cb := cb, c_cb_data := data, c_cb_type := type\<rparr>) s)) }"

definition dw_pm_context_restore :: "'a dw_world_scheme \<Rightarrow> int \<times> 'a dw_world_scheme" where
  "dw_pm_context_restore s = (0, s)"

definition dw_pm_context_store :: "dw_device \<Rightarrow> 'a dw_world_scheme \<Rightarrow> int \<times> 'a dw_world_scheme" where
  "dw_pm_context_store H s = (0, dw_write H DW_DMA_CFG 0 s)"

section \<open>The interrupt\<close>

text \<open>
  A call back is called as \<open>call f data type next\<close> and returns what it leaves in \<open>next\<close>, of which the
  handler sets the size only: \<open>stack\<close> holds the other fields.
\<close>

type_synonym 'w dma_call = "nat \<Rightarrow> u32 \<Rightarrow> u32 \<Rightarrow> dma_sg_elem \<Rightarrow> 'w \<Rightarrow> (dma_sg_elem \<times> 'w) option"

definition dw_irq_channel :: "dw_device \<Rightarrow> 'a dw_world_scheme dma_call \<Rightarrow> dma_sg_elem \<Rightarrow> u32 \<Rightarrow> nat \<Rightarrow> 'a dw_world_scheme \<Rightarrow> 'a dw_world_scheme option" where
  "dw_irq_channel H call stack tfr i s = do {
     p \<leftarrow> aget (dw_chans s) i;
     if c_status p \<noteq> DMA_STATUS_RUNNING \<and> c_status p \<noteq> DMA_STATUS_PAUSING then Some s
     else if tfr AND push_bit i 1 \<noteq> 0 \<and> c_cb_type p AND DMA_IRQ_TYPE_LLIST \<noteq> 0 then do {
       let e = stack\<lparr>e_size := DMA_RELOAD_LLI\<rparr>;
       (e, s) \<leftarrow> (case c_cb p of None \<Rightarrow> Some (e, s) | Some f \<Rightarrow> call f (c_cb_data p) DMA_IRQ_TYPE_LLIST e s);
       q \<leftarrow> aget (dw_chans s) i;
       if e_size e = DMA_RELOAD_END then Some (upd_chan i (set_status DMA_STATUS_IDLE) s)
       else if e_size e \<noteq> DMA_RELOAD_LLI then dw_chan_reload_next H i e s
       else if c_status q = DMA_STATUS_PAUSING then Some (upd_chan i (set_status DMA_STATUS_PAUSED) s)
       else dw_chan_reload_lli H i s }
     else Some s }"

fun dw_irq_channels :: "dw_device \<Rightarrow> 'a dw_world_scheme dma_call \<Rightarrow> dma_sg_elem \<Rightarrow> u32 \<Rightarrow> nat list \<Rightarrow> 'a dw_world_scheme \<Rightarrow> 'a dw_world_scheme option" where
  "dw_irq_channels H call stack tfr [] s = Some s"
| "dw_irq_channels H call stack tfr (i # js) s = do { s \<leftarrow> dw_irq_channel H call stack tfr i s; dw_irq_channels H call stack tfr js s }"

definition dw_irq_handler :: "dw_device \<Rightarrow> 'a dw_world_scheme dma_call \<Rightarrow> dma_sg_elem \<Rightarrow> 'a dw_world_scheme \<Rightarrow> 'a dw_world_scheme option" where
  "dw_irq_handler H call stack s =
     (let block = dw_read DW_STATUS_BLOCK s;
          tfr = dw_read DW_STATUS_TFR s;
          s = dw_write H DW_CLEAR_BLOCK block s;
          s = dw_write H DW_CLEAR_TFR tfr s;
          err = dw_read DW_STATUS_ERR s;
          s = dw_write H DW_CLEAR_ERR err s;
          s = platform_interrupt_clear (dw_irq s) (block OR tfr OR err) s
      in dw_irq_channels H call stack tfr [0 ..< DW_MAX_CHAN] s)"

section \<open>Set-up\<close>

definition DW_DMA_CFG_TRIES :: nat where "DW_DMA_CFG_TRIES = 10000"

text \<open>The wait for the controller to be disabled; between two reads the registers change by \<open>idle\<close>.\<close>

fun dw_poll_cfg :: "nat \<Rightarrow> ((u32 \<Rightarrow> u32) \<Rightarrow> u32 \<Rightarrow> u32) \<Rightarrow> 'a dw_world_scheme \<Rightarrow> bool \<times> 'a dw_world_scheme" where
  "dw_poll_cfg 0 idle s = (False, s)"
| "dw_poll_cfg (Suc n) idle s =
     (if dw_read DW_DMA_CFG s = 0 then (True, s) else dw_poll_cfg n idle (s\<lparr>dw_regs := idle (dw_regs s)\<rparr>))"

definition dw_setup :: "dw_device \<Rightarrow> ((u32 \<Rightarrow> u32) \<Rightarrow> u32 \<Rightarrow> u32) \<Rightarrow> u32 list \<Rightarrow> 'a dw_world_scheme \<Rightarrow> 'a dw_world_scheme" where
  "dw_setup H idle class s =
     (let s = (if dw_read DW_DMA_CFG s \<noteq> 0 then dw_write H DW_DMA_CFG 0 s else s);
          (found, s) = dw_poll_cfg DW_DMA_CFG_TRIES idle s
      in if \<not> found then s
         else
           (let s = dw_write H DW_DMA_CFG 1 s;
                s = fold (\<lambda>r. dw_write H r INT_MASK_ALL) [DW_MASK_TFR, DW_MASK_BLOCK, DW_MASK_SRC_TRAN, DW_MASK_DST_TRAN, DW_MASK_ERR] s;
                s = fold (\<lambda>r. dw_write H r 0x100080) [DW_FIFO_PART1_LO, DW_FIFO_PART1_HI, DW_FIFO_PART0_HI] s;
                s = dw_write H DW_FIFO_PART0_LO (0x100080 OR push_bit 26 1) s;
                s = dw_write H DW_FIFO_PART0_LO 0x100080 s
            in fold (\<lambda>i. dw_write H (DW_CTRL_HIGH i) (DW_CTLH_CLASS (class ! i))) [0 ..< DW_MAX_CHAN] s))"

text \<open>
  The private data is zeroed memory of the system heap, \<open>sizeof_dma_pdata\<close> bytes; a failed allocation is
  not tested and faults at the first use. The registration of the interrupt is with the core.
\<close>

definition zero_chan :: dma_chan_data where
  "zero_chan = \<lparr>c_status = 0, c_direction = 0, c_complete = False, c_timeout = 0, drain_count = 0, c_lli = 0, lli_current = 0, desc_count = 0,
     cfg_lo = 0, cfg_hi = 0, fifo_work = False, c_cb = None, c_cb_data = 0, c_cb_type = 0\<rparr>"

definition sizeof_dma_pdata :: u32 where "sizeof_dma_pdata = 8 * 116 + 4"

definition dw_probe :: "dw_device \<Rightarrow> ((u32 \<Rightarrow> u32) \<Rightarrow> u32 \<Rightarrow> u32) \<Rightarrow> u32 list \<Rightarrow> 'a dw_world_scheme \<Rightarrow> (int \<times> 'a dw_world_scheme) option" where
  "dw_probe H idle class s = do {
     (a, h, m) \<leftarrow> rzalloc RZONE_SYS RFLAGS_NONE sizeof_dma_pdata (mm s, wmem s);
     let s = s\<lparr>mm := h, wmem := m, dw_class := 0, dw_lock := False\<rparr>;
     let s = dw_setup H idle class s;
     if a = 0 then None
     else Some (0, s\<lparr>dw_chans := replicate DW_MAX_CHAN (zero_chan\<lparr>c_timeout := PLATFORM_DMA_TIMEOUT\<rparr>)\<rparr>) }"

section \<open>The controllers of the platform\<close>

record dma_plat_data =
  dma_id :: u32
  dma_base :: u32
  dma_irq_num :: u32
  dma_classes :: "u32 list"

definition dma0 :: dma_plat_data where
  "dma0 = \<lparr>dma_id = 0, dma_base = 0xFF298000, dma_irq_num = 13, dma_classes = replicate DW_MAX_CHAN 6\<rparr>"

definition dma1 :: dma_plat_data where
  "dma1 = \<lparr>dma_id = 1, dma_base = 0xFF29C000, dma_irq_num = 14, dma_classes = replicate DW_MAX_CHAN 7\<rparr>"

definition dma_table :: "dma_plat_data list" where "dma_table = [dma0, dma1]"

end
