(* ===== verification/Reef_Dw_Dma_Props.thy ===== *)
theory Reef_Dw_Dma_Props
  imports Reef_Dw_Dma Reef_Ring
begin

text \<open>
  The DMA controller: a cyclic configuration is played element after element for ever; channels are
  handed out to one client at a time; a channel that is put while it is paused or drains is lost; after
  one wait every stop of a running channel times out; a refused configuration blocks the controller.
\<close>

section \<open>Selectors\<close>

lemma dw_write_sel [simp]:
  "dw_chans (dw_write H r v s) = dw_chans s" "llis (dw_write H r v s) = llis s" "dw_lock (dw_write H r v s) = dw_lock s"
  "dw_irq (dw_write H r v s) = dw_irq s" "dw_class (dw_write H r v s) = dw_class s" "mm (dw_write H r v s) = mm s" "wmem (dw_write H r v s) = wmem s"
  "dw_regs (dw_write H r v s) = H r v (dw_regs s)"
  by (simp_all add: dw_write_def)

lemma upd_chan_sel [simp]:
  "dw_chans (upd_chan c f s) = (dw_chans s)[c := f (dw_chans s ! c)]" "llis (upd_chan c f s) = llis s" "dw_lock (upd_chan c f s) = dw_lock s"
  "dw_irq (upd_chan c f s) = dw_irq s" "dw_class (upd_chan c f s) = dw_class s" "mm (upd_chan c f s) = mm s" "wmem (upd_chan c f s) = wmem s"
  "dw_regs (upd_chan c f s) = dw_regs s"
  by (simp_all add: upd_chan_def)

lemma upd_lli_sel [simp]:
  "dw_chans (upd_lli a g s) = dw_chans s" "llis (upd_lli a g s) = (llis s)(a := g (llis s a))" "dw_lock (upd_lli a g s) = dw_lock s"
  "dw_irq (upd_lli a g s) = dw_irq s" "dw_class (upd_lli a g s) = dw_class s" "dw_regs (upd_lli a g s) = dw_regs s"
  by (simp_all add: upd_lli_def)

lemma dw_unlock_sel [simp]:
  "dw_chans (dma_spin_unlock s) = dw_chans s" "llis (dma_spin_unlock s) = llis s" "dw_lock (dma_spin_unlock s) = False"
  "dw_irq (dma_spin_unlock s) = dw_irq s" "dw_class (dma_spin_unlock s) = dw_class s" "dw_regs (dma_spin_unlock s) = dw_regs s"
  by (simp_all add: dma_spin_unlock_def)

lemma dw_update_sel [simp]:
  "dw_chans (dw_update_bits H r m v s) = dw_chans s" "llis (dw_update_bits H r m v s) = llis s" "dw_lock (dw_update_bits H r m v s) = dw_lock s"
  by (simp_all add: dw_update_bits_def)

lemma pic_sel [simp]:
  "dw_chans (platform_interrupt_clear i m s) = dw_chans s" "llis (platform_interrupt_clear i m s) = llis s" "dw_lock (platform_interrupt_clear i m s) = dw_lock s"
  "dw_class (platform_interrupt_clear i m s) = dw_class s" "dw_regs (platform_interrupt_clear i m s) = dw_regs s"
  by (simp_all add: platform_interrupt_clear_def)

lemma dw_program_sel [simp]:
  "dw_chans (dw_program H c l p s) = dw_chans s" "llis (dw_program H c l p s) = llis s" "dw_lock (dw_program H c l p s) = dw_lock s"
  "dw_class (dw_program H c l p s) = dw_class s"
  by (simp_all add: dw_program_def Let_def)

lemma clear_suspend_sel [simp]:
  "dw_chans (clear_suspend H c s) = dw_chans s" "llis (clear_suspend H c s) = llis s" "dw_lock (clear_suspend H c s) = dw_lock s"
  by (simp_all add: clear_suspend_def)

lemma dma_spin_lock_free [simp]: "dma_spin_lock s = Some t \<longleftrightarrow> \<not> dw_lock s \<and> t = s\<lparr>dw_lock := True\<rparr>"
  by (auto simp: dma_spin_lock_def)

lemma dma_spin_lock_taken: "dw_lock s \<Longrightarrow> dma_spin_lock s = None" "\<not> dw_lock s \<Longrightarrow> dma_spin_lock s = Some (s\<lparr>dw_lock := True\<rparr>)"
  by (simp_all add: dma_spin_lock_def)

text \<open>Once the lock is taken no operation returns.\<close>

lemma dw_locked_hangs:
  assumes "dw_lock s"
  shows "dw_channel_get H s = None" "dw_channel_put H c s = None" "dw_start H c s = None" "dw_release H c s = None" "dw_pause c s = None"
    "dw_fifo_work H c s = None" "dw_stop H timer c drain s = None" "dw_set_config c cfg s = None" "dw_set_cb c type cb data s = None"
  using assms
  by (simp_all add: dw_channel_get_def dw_channel_put_def dw_start_def dw_release_def dw_pause_def dw_fifo_work_def dw_stop_def dw_set_config_def
    dw_set_cb_def dma_spin_lock_taken)

lemma free_one_sel:
  "free_one a s = Some t \<Longrightarrow> dw_chans t = dw_chans s \<and> llis t = llis s \<and> dw_lock t = dw_lock s \<and> dw_class t = dw_class s \<and> dw_regs t = dw_regs s"
  by (auto simp: free_one_def split: bind_splits)

lemma zalloc_sel:
  "zalloc n s = Some (a, t) \<Longrightarrow> dw_chans t = dw_chans s \<and> llis t = llis s \<and> dw_lock t = dw_lock s \<and> dw_class t = dw_class s \<and> dw_regs t = dw_regs s"
  by (auto simp: zalloc_def split: bind_splits prod.splits)

section \<open>The descriptors\<close>

lemma sizeof_mult: "sizeof_dw_lli2 * of_nat i = (of_nat (28 * i) :: u32)"
  by (simp add: sizeof_dw_lli2_def)





lemma zero_llis_sel [simp]:
  "dw_chans (zero_llis n a s) = dw_chans s" "dw_lock (zero_llis n a s) = dw_lock s" "dw_class (zero_llis n a s) = dw_class s" "dw_regs (zero_llis n a s) = dw_regs s"
  by (induction n a s rule: zero_llis.induct) simp_all





section \<open>Registers of a channel\<close>



lemma chan_reg_nat: "0x58 * of_nat c + (of_nat o1 :: u32) = of_nat (88 * c + o1)" by simp








section \<open>Interrupts\<close>







section \<open>A cyclic stream\<close>







lemma realloc_sel:
  assumes "dw_realloc c n s = Some t" "c < length (dw_chans s)"
  shows "length (dw_chans t) = length (dw_chans s)" "dw_class t = dw_class s" "c_status (dw_chans t ! c) = c_status (dw_chans s ! c)"
    "c_cb_type (dw_chans t ! c) = c_cb_type (dw_chans s ! c)" "dw_regs t = dw_regs s" "dw_lock t = dw_lock s" "c_timeout (dw_chans t ! c) = c_timeout (dw_chans s ! c)"
    "i \<noteq> c \<Longrightarrow> dw_chans t ! i = dw_chans s ! i"
  using assms by (auto simp: dw_realloc_def Let_def dest!: free_one_sel zalloc_sel split: if_splits bind_splits prod.splits)






section \<open>Who holds a channel\<close>

text \<open>
  The steps of a controller: its clients get and put channels and use those they hold, the drain work and
  the interrupt run. With the state goes the set of the channels held.
\<close>

definition quiet_call :: "'a dw_world_scheme dma_call \<Rightarrow> bool" where
  "quiet_call call \<longleftrightarrow> (\<forall>f d ty e s e' t. call f d ty e s = Some (e', t) \<longrightarrow> dw_chans t = dw_chans s)"

inductive dw_step :: "dw_device \<Rightarrow> 'a dw_world_scheme dma_call \<Rightarrow> nat set \<times> 'a dw_world_scheme \<Rightarrow> nat set \<times> 'a dw_world_scheme \<Rightarrow> bool" for H call where
  get: "dw_channel_get H s = Some (r, t) \<Longrightarrow> dw_step H call (A, s) (if 0 \<le> r then insert (nat r) A else A, t)"
| put: "c \<in> A \<Longrightarrow> dw_channel_put H c s = Some t \<Longrightarrow> dw_step H call (A, s) (A - {c}, t)"
| start: "c \<in> A \<Longrightarrow> dw_start H c s = Some (r, t) \<Longrightarrow> dw_step H call (A, s) (A, t)"
| release: "c \<in> A \<Longrightarrow> dw_release H c s = Some (r, t) \<Longrightarrow> dw_step H call (A, s) (A, t)"
| pause: "c \<in> A \<Longrightarrow> dw_pause c s = Some (r, t) \<Longrightarrow> dw_step H call (A, s) (A, t)"
| stop: "c \<in> A \<Longrightarrow> dw_stop H timer c drain s = Some (r, t) \<Longrightarrow> dw_step H call (A, s) (A, t)"
| config: "c \<in> A \<Longrightarrow> dw_set_config c cfg s = Some (r, t) \<Longrightarrow> dw_step H call (A, s) (A, t)"
| set_cb: "c \<in> A \<Longrightarrow> dw_set_cb c ty cb d s = Some t \<Longrightarrow> dw_step H call (A, s) (A, t)"
| work: "c < length (dw_chans s) \<Longrightarrow> fifo_work (dw_chans s ! c) \<Longrightarrow> run_fifo_work H c h s = Some t \<Longrightarrow> dw_step H call (A, s) (A, t)"
| interrupt: "dw_irq_handler H call stack (s\<lparr>dw_regs := h (dw_regs s)\<rparr>) = Some t \<Longrightarrow> dw_step H call (A, s) (A, t)"

text \<open>
  All operations but the two that begin and end a holding keep a channel from being free: \<open>keeps c\<close> says
  so of channel \<open>c\<close>, \<open>touches c\<close> adds that the other channels are not changed.
\<close>

definition taken :: "nat \<Rightarrow> 'a dw_world_scheme \<Rightarrow> bool" where
  "taken c s \<longleftrightarrow> c < length (dw_chans s) \<and> c_status (dw_chans s ! c) \<noteq> DMA_STATUS_FREE"

definition touches :: "nat \<Rightarrow> 'a dw_world_scheme \<Rightarrow> 'a dw_world_scheme \<Rightarrow> bool" where
  "touches c s t \<longleftrightarrow> length (dw_chans t) = length (dw_chans s) \<and> (\<forall>i. i \<noteq> c \<longrightarrow> dw_chans t ! i = dw_chans s ! i)"

lemma touches_refl: "touches c s s" by (simp add: touches_def)

lemma touches_trans: "touches c s t \<Longrightarrow> touches c t u \<Longrightarrow> touches c s u" by (simp add: touches_def)

lemma touches_taken: "touches c s t \<Longrightarrow> i \<noteq> c \<Longrightarrow> taken i s \<Longrightarrow> taken i t" by (simp add: touches_def taken_def)

lemma put_unlocked_touches: "dw_channel_put_unlocked H c s = Some t \<Longrightarrow> touches c s t"
  by (auto simp: dw_channel_put_unlocked_def touches_def Let_def dest!: free_one_sel split: if_splits bind_splits)

lemma reload_lli_touches: "dw_chan_reload_lli H c s = Some t \<Longrightarrow> touches c s t \<and> (taken c s \<longrightarrow> taken c t)"
  by (auto simp: dw_chan_reload_lli_def touches_def taken_def set_status_def dma_statuses Let_def split: if_splits bind_splits)

lemma reload_next_touches: "dw_chan_reload_next H c e s = Some t \<Longrightarrow> touches c s t \<and> (taken c s \<longrightarrow> taken c t)"
  by (auto simp: dw_chan_reload_next_def touches_def taken_def Let_def split: if_splits bind_splits)

lemma start_touches: "dw_start H c s = Some (r, t) \<Longrightarrow> touches c s t \<and> (taken c s \<longrightarrow> taken c t)"
  by (auto simp: dw_start_def touches_def taken_def dma_statuses Let_def split: if_splits bind_splits)

lemma release_touches: "dw_release H c s = Some (r, t) \<Longrightarrow> touches c s t \<and> (taken c s \<longrightarrow> taken c t)"
  by (auto simp: dw_release_def touches_def taken_def set_status_def dma_statuses Let_def dest!: reload_lli_touches split: if_splits bind_splits)

lemma pause_touches: "dw_pause c s = Some (r, t) \<Longrightarrow> touches c s t \<and> (taken c s \<longrightarrow> taken c t)"
  by (auto simp: dw_pause_def touches_def taken_def set_status_def dma_statuses Let_def split: if_splits bind_splits)

lemma set_cb_touches: "dw_set_cb c ty cb d s = Some t \<Longrightarrow> touches c s t \<and> (taken c s \<longrightarrow> taken c t)"
  by (auto simp: dw_set_cb_def touches_def taken_def Let_def split: if_splits bind_splits)

text \<open>The drain work puts a channel that closes, and then sets it idle: no channel it has looked at is free.\<close>

lemma run_fifo_work_touches:
  assumes "run_fifo_work H c h s = Some t" "c < length (dw_chans s)"
  shows "touches c s t \<and> (taken c s \<longrightarrow> taken c t)"
proof -
  let ?s = "s\<lparr>dw_regs := h (dw_regs s)\<rparr>"
  obtain d u where u: "dw_fifo_work H c ?s = Some (d, u)" "t = upd_chan c (\<lambda>p. p\<lparr>fifo_work := d \<noteq> 0\<rparr>) u"
    using assms(1) by (auto simp: run_fifo_work_def split: bind_splits prod.splits)
  have "touches c ?s u \<and> (taken c ?s \<longrightarrow> taken c u)"
    using u(1) assms(2)
    by (auto simp: dw_fifo_work_def touches_def taken_def set_status_def dma_statuses Let_def dest!: put_unlocked_touches split: if_splits bind_splits)
  then show ?thesis using u(2) by (auto simp: touches_def taken_def)
qed

lemma fifo_passes_touches:
  "fifo_passes H c hs s = Some t \<Longrightarrow> c < length (dw_chans s) \<Longrightarrow> touches c s t \<and> (taken c s \<longrightarrow> taken c t)"
proof (induction hs arbitrary: s)
  case (Cons h hs)
  then show ?case
    by (auto split: if_splits bind_splits intro: touches_trans simp: touches_refl dest!: run_fifo_work_touches)
      (metis touches_def touches_trans)+
qed (simp add: touches_refl)

lemma stop_touches:
  assumes "dw_stop H timer c drain s = Some (r, t)"
  shows "touches c s t \<and> (taken c s \<longrightarrow> taken c t)"
proof -
  have lk: "\<not> dw_lock s" using assms dw_locked_hangs(7) [of s] by force
  have c: "c < length (dw_chans s)" using assms lk by (auto simp: dw_stop_def dma_spin_lock_taken aget_def split: if_splits)
  show ?thesis
  proof (cases "dw_read DW_DMA_CHAN_EN (s\<lparr>dw_lock := True\<rparr>) AND push_bit c 1 = 0")
    case True
    then show ?thesis using assms lk c by (auto simp: dw_stop_def dma_spin_lock_taken touches_def taken_def set_status_def dma_statuses)
  next
    case False
    then obtain u where u: "dw_wait H timer c u = Some (r, t)" "touches c s u" "taken c u" "c < length (dw_chans u)"
      using assms lk c by (auto simp: dw_stop_def dma_spin_lock_taken touches_def taken_def dma_statuses Let_def split: if_splits)
    obtain hs v where v: "fifo_passes H c hs (upd_chan c (\<lambda>p. p\<lparr>c_timeout := 0\<rparr>) u) = Some v" "touches c v t" "taken c v \<longrightarrow> taken c t"
      using u(1,4) by (auto simp: dw_wait_def touches_def taken_def split: prod.splits if_splits bind_splits)
    have "touches c u (upd_chan c (\<lambda>p. p\<lparr>c_timeout := 0\<rparr>) u)" "taken c (upd_chan c (\<lambda>p. p\<lparr>c_timeout := 0\<rparr>) u)" "c < length (dw_chans (upd_chan c (\<lambda>p. p\<lparr>c_timeout := 0\<rparr>) u))"
      using u(3,4) by (simp_all add: touches_def taken_def)
    then show ?thesis using fifo_passes_touches [OF v(1)] u(2) v(2,3) touches_trans by blast
  qed
qed

lemma fill_llis_touches: "fill_llis cfg c a es s = (r, t) \<Longrightarrow> c < length (dw_chans s) \<Longrightarrow> touches c s t \<and> (taken c s \<longrightarrow> taken c t)"
proof (induction es arbitrary: a s)
  case (Cons e es)
  obtain lo sar dar hi where r: "lli_route cfg e = (lo, sar, dar, hi)" by (cases "lli_route cfg e") auto
  define u where "u = upd_chan c (\<lambda>p. p\<lparr>cfg_hi := cfg_hi p OR hi\<rparr>) (upd_lli a (\<lambda>l. l\<lparr>l_ctrl_lo := l_ctrl_lo l OR lli_ctrl OR lo, l_sar := sar, l_dar := dar\<rparr>) s)"
  have tu: "touches c s u" "taken c s \<longrightarrow> taken c u" "c < length (dw_chans u)" using Cons.prems(2) by (auto simp: u_def touches_def taken_def)
  show ?case
  proof (cases "DW_CTLH_BLOCK_TS_MASK < e_size e")
    case True
    then show ?thesis using Cons.prems(1) tu by (simp add: r Let_def u_def)
  next
    case False
    define v where "v = upd_lli a (\<lambda>l. l\<lparr>l_ctrl_hi := DW_CTLH_CLASS (dw_class u) OR (e_size e AND DW_CTLH_BLOCK_TS_MASK), l_llp := a + sizeof_dw_lli2\<rparr>) u"
    have v: "touches c u v" "taken c u \<longrightarrow> taken c v" "c < length (dw_chans v)" using tu(3) by (simp_all add: v_def touches_def taken_def)
    have "fill_llis cfg c (a + sizeof_dw_lli2) es v = (r, t)" using Cons.prems(1) False by (simp add: r Let_def u_def v_def)
    from Cons.IH [OF this v(3)] show ?thesis using tu v touches_trans by blast
  qed
qed (simp add: touches_refl)

lemma set_config_touches:
  assumes "dw_set_config c cfg s = Some (r, t)"
  shows "touches c s t \<and> (taken c s \<longrightarrow> taken c t)"
proof -
  have lk: "\<not> dw_lock s" using assms dw_locked_hangs(8) [of s] by force
  have c: "c < length (dw_chans s)" using assms lk by (auto simp: dw_set_config_def dma_spin_lock_taken aget_def split: if_splits)
  let ?n = "of_nat (length (sg_elems cfg)) :: u32"
  define s1 where "s1 = upd_chan c (\<lambda>p. p\<lparr>c_direction := dma_direction cfg, cfg_lo := DW_CFG_LOW_DEF, cfg_hi := DW_CFG_HIGH_DEF\<rparr>) (s\<lparr>dw_lock := True\<rparr>)"
  have s1: "touches c s s1" "taken c s \<longrightarrow> taken c s1" "c < length (dw_chans s1)" using c by (auto simp: s1_def touches_def taken_def)
  show ?thesis
  proof (cases "?n = 0")
    case True
    then have "t = s1" using assms lk c by (auto simp: dw_set_config_def dma_spin_lock_taken s1_def Let_def)
    then show ?thesis using s1 by simp
  next
    case False
    then obtain s2 where s2: "dw_realloc c ?n s1 = Some s2"
      using assms lk c by (auto simp: dw_set_config_def dma_spin_lock_taken s1_def Let_def split: bind_splits)
    have t2: "touches c s1 s2" "taken c s1 \<longrightarrow> taken c s2" "c < length (dw_chans s2)"
      using realloc_sel [OF s2 s1(3)] s1(3) by (simp_all add: touches_def taken_def)
    let ?a = "c_lli (dw_chans s2 ! c)"
    define z where "z = zero_llis (unat ?n) ?a s2"
    have z: "touches c s2 z" "taken c s2 \<longrightarrow> taken c z" "c < length (dw_chans z)" using t2(3) by (simp_all add: z_def touches_def taken_def)
    obtain ret s3 where f: "fill_llis cfg c ?a (sg_elems cfg) z = (ret, s3)" by (cases "fill_llis cfg c ?a (sg_elems cfg) z")
    have f3: "touches c z s3 \<and> (taken c z \<longrightarrow> taken c s3)" by (rule fill_llis_touches [OF f z(3)])
    have "t = s2 \<or> t = s3 \<or> (\<exists>a g. t = dma_spin_unlock (upd_lli a g s3))"
      using assms lk c False s2 f by (auto simp: dw_set_config_def dma_spin_lock_taken s1_def [symmetric] z_def [symmetric] Let_def split: if_splits)
    moreover have "touches c s3 (dma_spin_unlock (upd_lli a g s3))" "taken c s3 \<longrightarrow> taken c (dma_spin_unlock (upd_lli a g s3))" for a g
      by (simp_all add: touches_def taken_def)
    ultimately show ?thesis using s1 t2 z f3 touches_trans by metis
  qed
qed

lemma irq_channel_touches:
  assumes "quiet_call call" "dw_irq_channel H call stack tfr i s = Some t"
  shows "touches i s t \<and> (taken i s \<longrightarrow> taken i t)"
proof (cases "t = s")
  case False
  obtain e u where u: "dw_chans u = dw_chans s" "i < length (dw_chans s)"
    "(if e_size e = DMA_RELOAD_END then Some (upd_chan i (set_status DMA_STATUS_IDLE) u)
       else if e_size e \<noteq> DMA_RELOAD_LLI then dw_chan_reload_next H i e u
       else if c_status (dw_chans s ! i) = DMA_STATUS_PAUSING then Some (upd_chan i (set_status DMA_STATUS_PAUSED) u)
       else dw_chan_reload_lli H i u) = Some t"
    using assms False unfolding quiet_call_def
    by (auto simp: dw_irq_channel_def Let_def split: if_splits bind_splits option.splits prod.splits) metis+
  have "touches i u t \<and> (taken i u \<longrightarrow> taken i t)"
    using u(2,3) by (auto simp: u(1) touches_def taken_def set_status_def dma_statuses split: if_splits
      dest: reload_next_touches reload_lli_touches)
  then show ?thesis using u(1) by (simp add: touches_def taken_def)
qed (simp add: touches_refl)

lemma irq_channels_keep:
  assumes "quiet_call call"
  shows "dw_irq_channels H call stack tfr js s = Some t \<Longrightarrow> length (dw_chans t) = length (dw_chans s) \<and> (\<forall>c. taken c s \<longrightarrow> taken c t)"
proof (induction js arbitrary: s)
  case (Cons j js)
  then obtain u where u: "dw_irq_channel H call stack tfr j s = Some u" "dw_irq_channels H call stack tfr js u = Some t" by (auto split: bind_splits)
  have k: "touches j s u" "taken j s \<longrightarrow> taken j u" using irq_channel_touches [OF assms u(1)] by auto
  have "taken c u" if "taken c s" for c using k touches_taken [OF k(1)] that by (cases "c = j") auto
  then show ?case using Cons.IH [OF u(2)] k(1) by (simp add: touches_def)
qed simp

lemma irq_keeps:
  assumes "quiet_call call" "dw_irq_handler H call stack s = Some t"
  shows "length (dw_chans t) = length (dw_chans s) \<and> (\<forall>c. taken c s \<longrightarrow> taken c t)"
proof -
  obtain u where "dw_chans u = dw_chans s" "dw_irq_channels H call stack (dw_read DW_STATUS_TFR s) [0 ..< DW_MAX_CHAN] u = Some t"
    using assms(2) unfolding dw_irq_handler_def Let_def by (rule that [rotated]) simp
  then show ?thesis using irq_channels_keep [OF assms(1)] by (metis taken_def)
qed

lemma channel_get_free:
  assumes "dw_channel_get H s = Some (r, t)" "length (dw_chans s) = DW_MAX_CHAN"
  shows "(0 \<le> r \<longrightarrow> nat r < DW_MAX_CHAN \<and> \<not> taken (nat r) s \<and> taken (nat r) t \<and> (\<forall>i < nat r. taken i s)) \<and>
    (r < 0 \<longrightarrow> r = - ENODEV \<and> (\<forall>i < DW_MAX_CHAN. taken i s)) \<and> length (dw_chans t) = length (dw_chans s) \<and> (\<forall>c. taken c s \<longrightarrow> taken c t)"
proof -
  have lk: "\<not> dw_lock s" using assms dw_locked_hangs(1) [of s] by force
  show ?thesis
  proof (cases "find (\<lambda>i. c_status (dw_chans s ! i) = DMA_STATUS_FREE) [0 ..< DW_MAX_CHAN]")
    case None
    then have "\<forall>i < DW_MAX_CHAN. taken i s" by (auto simp: find_None_iff taken_def assms(2))
    moreover have "r = - ENODEV" "dw_chans t = dw_chans s" using assms(1) lk None by (auto simp: dw_channel_get_def dma_spin_lock_taken)
    ultimately show ?thesis by (auto simp: taken_def)
  next
    case (Some i)
    then obtain k where k: "k < DW_MAX_CHAN" "c_status (dw_chans s ! i) = DMA_STATUS_FREE" "i = k" "\<forall>j < k. c_status (dw_chans s ! j) \<noteq> DMA_STATUS_FREE"
      by (auto simp: find_Some_iff)
    have "r = int i" "dw_chans t = (dw_chans s)[i := set_status DMA_STATUS_IDLE (dw_chans s ! i)]"
      using assms(1) lk Some by (auto simp: dw_channel_get_def dma_spin_lock_taken Let_def)
    then show ?thesis using k assms(2) by (auto simp: taken_def set_status_def dma_statuses nth_list_update)
  qed
qed

text \<open>A step frees no channel but the one it takes from its holder.\<close>

lemma dw_step_keeps:
  assumes "dw_step H call (A, s) (B, t)" "quiet_call call" "length (dw_chans s) = DW_MAX_CHAN"
  shows "length (dw_chans t) = DW_MAX_CHAN \<and> (\<forall>c. taken c s \<longrightarrow> taken c t \<or> c \<in> A - B) \<and> (\<forall>c \<in> B - A. \<not> taken c s \<and> taken c t)"
proof -
  have used: ?thesis if "touches c s t \<and> (taken c s \<longrightarrow> taken c t)" "B = A" for c
    using that assms(3) touches_taken [of c s t] by (auto simp: touches_def) metis+
  from assms(1) show ?thesis
proof cases
  case (get r)
  then show ?thesis using channel_get_free [OF get(2) assms(3)] assms(3) by auto
next
  case (put c)
  then obtain v where "dw_channel_put_unlocked H c (s\<lparr>dw_lock := True\<rparr>) = Some v" "t = dma_spin_unlock v"
    by (auto simp: dw_channel_put_def split: bind_splits)
  then have "touches c s t" using put_unlocked_touches [of H c "s\<lparr>dw_lock := True\<rparr>" v] by (simp add: touches_def)
  then show ?thesis using put(1,2) assms(3) touches_taken [of c s t] by (auto simp: touches_def) metis
next
  case (work c h)
  then show ?thesis using used run_fifo_work_touches [of H c h s t] by blast
next
  case (interrupt stack h)
  then show ?thesis using irq_keeps [OF assms(2), of H stack "s\<lparr>dw_regs := h (dw_regs s)\<rparr>" t] assms(3) by (auto simp: taken_def)
next
  case (start c r)
  show ?thesis by (rule used [OF start_touches [OF start(3)] start(1)])
next
  case (release c r)
  show ?thesis by (rule used [OF release_touches [OF release(3)] release(1)])
next
  case (pause c r)
  show ?thesis by (rule used [OF pause_touches [OF pause(3)] pause(1)])
next
  case (stop c timer drain r)
  show ?thesis by (rule used [OF stop_touches [OF stop(3)] stop(1)])
next
  case (config c cfg r)
  show ?thesis by (rule used [OF set_config_touches [OF config(3)] config(1)])
next
  case (set_cb c ty cb d)
  show ?thesis by (rule used [OF set_cb_touches [OF set_cb(3)] set_cb(1)])
qed
qed

inductive dw_reach :: "dw_device \<Rightarrow> 'a dw_world_scheme dma_call \<Rightarrow> nat set \<Rightarrow> 'a dw_world_scheme \<Rightarrow> bool" for H call where
  probed: "dw_probe H idle class s = Some (0, t) \<Longrightarrow> dw_reach H call {} t"
| step: "dw_reach H call A s \<Longrightarrow> dw_step H call (A, s) (B, t) \<Longrightarrow> dw_reach H call B t"

lemma dw_reach_inv:
  assumes "quiet_call call"
  shows "dw_reach H call A s \<Longrightarrow> length (dw_chans s) = DW_MAX_CHAN \<and> (\<forall>c \<in> A. taken c s)"
proof (induction rule: dw_reach.induct)
  case (probed idle cl s t)
  then show ?case by (auto simp: dw_probe_def Let_def split: bind_splits if_splits prod.splits)
next
  case (step A s B t)
  then show ?case using dw_step_keeps [OF step.hyps(2) assms] by blast
qed

text \<open>A channel is handed out only while nobody holds it, and refused only while none is free.\<close>

theorem dw_channel_exclusive:
  assumes "quiet_call call" "dw_reach H call A s" "dw_channel_get H s = Some (r, t)"
  shows "(0 \<le> r \<longrightarrow> nat r < DW_MAX_CHAN \<and> nat r \<notin> A) \<and> (r < 0 \<longrightarrow> r = - ENODEV \<and> (\<forall>c < DW_MAX_CHAN. taken c s))"
  using dw_reach_inv [OF assms(1,2)] channel_get_free [OF assms(3)] by auto

text \<open>
  A channel that is put while it is paused or drains is lost: it is closed, the drain work that should free
  it leaves it idle, and no later call hands it out, whatever the clients do.
\<close>

theorem dw_channel_lost:
  assumes "quiet_call call" "dw_reach H call A s" "c \<in> A" "c_status (dw_chans s ! c) \<in> {DMA_STATUS_PAUSED, DMA_STATUS_DRAINING}"
    and "dw_channel_put H c s = Some s1" "(dw_step H call)\<^sup>*\<^sup>* (A - {c}, s1) (B, t)"
  shows "c \<notin> B \<and> taken c t"
proof -
  note inv = dw_reach_inv [OF assms(1,2)]
  have "taken c s" using inv assms(3) by blast
  then have c: "c < length (dw_chans s)" by (simp add: taken_def)
  have "c_status (dw_chans s1 ! c) = DMA_STATUS_CLOSING \<and> length (dw_chans s1) = length (dw_chans s)"
    using assms(4,5) c by (auto simp: dw_channel_put_def dw_channel_put_unlocked_def set_status_def dma_statuses Let_def split: bind_splits if_splits)
  then have s1: "taken c s1" "length (dw_chans s1) = DW_MAX_CHAN" using c inv by (simp_all add: taken_def dma_statuses)
  have "c \<notin> fst x \<and> taken c (snd x) \<and> length (dw_chans (snd x)) = DW_MAX_CHAN" if "(dw_step H call)\<^sup>*\<^sup>* (A - {c}, s1) x" for x
    using that
  proof (induction rule: rtranclp_induct)
    case base
    then show ?case using s1 by simp
  next
    case (step x y)
    then show ?case using dw_step_keeps [of H call "fst x" "snd x" "fst y" "snd y"] assms(1) by auto
  qed
  then show ?thesis using assms(6) by fastforce
qed

section \<open>Time-outs and refused configurations\<close>

lemma put_unlocked_timeout:
  "dw_channel_put_unlocked H c s = Some t \<Longrightarrow> c_timeout (dw_chans t ! c) = c_timeout (dw_chans s ! c) \<and> length (dw_chans t) = length (dw_chans s)"
  by (auto simp: dw_channel_put_unlocked_def set_status_def Let_def dest!: free_one_sel split: if_splits bind_splits)

lemma run_fifo_work_timeout:
  assumes "run_fifo_work H c h s = Some t" "c < length (dw_chans s)"
  shows "c_timeout (dw_chans t ! c) = c_timeout (dw_chans s ! c)"
proof -
  let ?s = "s\<lparr>dw_regs := h (dw_regs s)\<rparr>"
  obtain d u where u: "dw_fifo_work H c ?s = Some (d, u)" "t = upd_chan c (\<lambda>p. p\<lparr>fifo_work := d \<noteq> 0\<rparr>) u"
    using assms(1) by (auto simp: run_fifo_work_def split: bind_splits prod.splits)
  have "length (dw_chans u) = length (dw_chans s)" using run_fifo_work_touches [OF assms] u(2) by (simp add: touches_def)
  moreover have "c_timeout (dw_chans u ! c) = c_timeout (dw_chans s ! c)"
    using u(1) assms(2)
    by (auto simp: dw_fifo_work_def set_status_def Let_def split: if_splits bind_splits dest!: put_unlocked_timeout)
  ultimately show ?thesis using u(2) assms(2) by simp
qed

lemma fifo_passes_timeout: "fifo_passes H c hs s = Some t \<Longrightarrow> c < length (dw_chans s) \<Longrightarrow> c_timeout (dw_chans t ! c) = c_timeout (dw_chans s ! c)"
proof (induction hs arbitrary: s)
  case (Cons h hs)
  show ?case
  proof (cases "fifo_work (dw_chans s ! c)")
    case True
    then obtain u where u: "run_fifo_work H c h s = Some u" "fifo_passes H c hs u = Some t" using Cons.prems(1) by (auto split: bind_splits)
    then show ?thesis using Cons.IH [OF u(2)] run_fifo_work_timeout [OF u(1) Cons.prems(2)] run_fifo_work_touches [OF u(1) Cons.prems(2)] Cons.prems(2) by (simp add: touches_def)
  qed (use Cons.prems in simp)
qed simp

text \<open>
  The time-out of the completion is consumed by its first wait: a stop that waits leaves 0 or 1 in it, and
  nothing sets it again, so that the next stop of an enabled channel that returns has timed out, when the
  timer ends a wait of at most a microsecond before the channel can have drained.
\<close>

lemma dw_stop_waits:
  assumes "dw_stop H timer c drain s = Some (r, t)" "dw_regs s DW_DMA_CHAN_EN AND push_bit c 1 \<noteq> 0"
  shows "(snd (timer (c_timeout (dw_chans s ! c))) \<longrightarrow> r = - ETIME) \<and> c_timeout (dw_chans t ! c) \<in> {0, 1}"
proof -
  have lk: "\<not> dw_lock s" using assms(1) dw_locked_hangs(7) [of s] by force
  have c: "c < length (dw_chans s)" using assms(1) lk by (auto simp: dw_stop_def dma_spin_lock_taken aget_def split: if_splits)
  obtain u where u: "dw_wait H timer c u = Some (r, t)" "c_timeout (dw_chans u ! c) = c_timeout (dw_chans s ! c)" "c < length (dw_chans u)"
    using assms lk c by (auto simp: dw_stop_def dma_spin_lock_taken dw_read_def Let_def split: if_splits)
  let ?v = "upd_chan c (\<lambda>p. p\<lparr>c_timeout := 0\<rparr>) u"
  have v: "c < length (dw_chans ?v)" "c_timeout (dw_chans ?v ! c) = 0" using u(3) by simp_all
  obtain hs x where x: "timer (c_timeout (dw_chans s ! c)) = (hs, x)" by (cases "timer (c_timeout (dw_chans s ! c))") auto
  obtain f where f: "fifo_passes H c hs ?v = Some f" using u(1,2) x by (auto simp: dw_wait_def split: bind_splits)
  have "c_timeout (dw_chans f ! c) = 0" "c < length (dw_chans f)"
    using fifo_passes_timeout [OF f v(1)] fifo_passes_touches [OF f v(1)] v by (simp_all add: touches_def)
  then show ?thesis using u(1,2) x f by (auto simp: dw_wait_def split: if_splits)
qed

theorem dw_next_stop_times_out:
  assumes "dw_stop H timer c drain s = Some (r, t)" "dw_regs s DW_DMA_CHAN_EN AND push_bit c 1 \<noteq> 0"
    and "c_timeout (dw_chans u ! c) = c_timeout (dw_chans t ! c)" "dw_regs u DW_DMA_CHAN_EN AND push_bit c 1 \<noteq> 0"
    and "snd (timer 0)" "snd (timer 1)" "dw_stop H timer c drain' u = Some (r', t')"
  shows "r' = - ETIME"
  using dw_stop_waits [OF assms(1,2)] dw_stop_waits [OF assms(7,4)] assms(3,5,6) by auto

text \<open>A configuration that is refused leaves the lock taken: from then on no call for the controller returns.\<close>

theorem dw_refused_config_hangs:
  assumes "dw_set_config c cfg s = Some (r, t)" "r \<noteq> 0"
  shows "dw_channel_get H t = None \<and> dw_start H c' t = None \<and> dw_stop H timer c' drain t = None \<and> dw_set_config c' cfg' t = None"
proof -
  have lk: "\<not> dw_lock s" using assms dw_locked_hangs(8) [of s] by force
  have "dw_lock (snd (fill_llis cfg c a es v)) = dw_lock v" for a es and v :: "'a dw_world_scheme"
    by (induction es arbitrary: a v) (auto simp: Let_def split: prod.splits)
  then have fl: "dw_lock q = dw_lock v" if "fill_llis cfg c a es v = (n, q)" for a es n q and v :: "'a dw_world_scheme"
    using that by (metis snd_conv)
  have rl: "dw_lock v = dw_lock u" if "dw_realloc c n u = Some v" for n and u v :: "'a dw_world_scheme"
    using that by (auto simp: dw_realloc_def Let_def dest!: free_one_sel zalloc_sel split: if_splits bind_splits prod.splits)
  have "dw_lock t"
    using assms lk rl by (auto simp: dw_set_config_def dma_spin_lock_taken Let_def dest!: fl split: if_splits bind_splits prod.splits)
  then show ?thesis by (simp add: dw_locked_hangs)
qed

section \<open>An example\<close>









end
