(* ===== verification/Spec2Isabelle.thy ===== *)
theory Spec2Isabelle
  imports Reef_Prelude Reef_List Reef_Format Reef_Memory Reef_Alloc Reef_Alloc_Props Reef_Audio
    Reef_Ring Reef_Samples Reef_Volume Reef_Volume_Props Reef_Volume_Ctl Reef_Mixer Reef_Pipeline
    Reef_Pipeline_Props Reef_Time Reef_Schedule Reef_Schedule_Props Reef_Work Reef_Work_Props
    Reef_Ipc Reef_Ipc_Props Reef_Fir Reef_Iir Reef_Eq Reef_Eq_Props Reef_Eq_Fir Reef_Eq_Fir_Props
    Reef_Eq_Iir Reef_Eq_Iir_Props Reef_Src_Tables Reef_Src_Core Reef_Src_Copy Reef_Src_Props
    Reef_Src_Modes Reef_Src Reef_Src_Drv Reef_Src_Drv_Props Reef_Trig Reef_Sine Reef_Tone Reef_Tone_Blocks
    Reef_Tone_Props Reef_Tone_Copy Reef_Msg Reef_Msg_Props Reef_Dma Reef_Dispatch Reef_Dispatch_Props Reef_Host
    Reef_Host_Props Reef_Ssp Reef_Ssp_Props Reef_Dai Reef_Dai_Props Reef_Dw_Dma Reef_Dw_Dma_Props
begin

text \<open>
  A verification development for the Sound Open Firmware (Reef) of an Intel audio DSP, the C sources
  under src/src.

  The program. The host creates components, buffers and pipelines by IPC messages (src/ipc); a
  pipeline is a graph of components joined by ring buffers (src/audio). When a DMA engine has moved a
  period of samples, the pipeline's task is scheduled (src/lib/schedule.c), its soft interrupt runs
  (src/arch/xtensa/task.c), and the task copies samples from component to component. Slow changes,
  such as volume ramps, are delayed work on timer queues (src/lib/work.c). All memory comes from a
  block allocator (src/lib/alloc.c), all queues are intrusive lists (include/reef/list.h).

  The theories, each with the code it models:

    Reef_Prelude         integer types as words, error numbers, generic lemmas
    Reef_List            include/reef/list.h: the pointer lists and their sequences
    Reef_Format          include/reef/audio/format.h, math/numbers.c: fixed-point arithmetic
    Reef_Memory          byte memory; lib/lib.c: bzero, memset
    Reef_Alloc           lib/alloc.c with platform/memory.h: the heaps
    Reef_Alloc_Props     allocations are disjoint, first fit, releasing; the allocator's defects
    Reef_Audio           include/reef/audio/component.h, buffer.h, audio/buffer.c, component.c
    Reef_Ring            a buffer as a queue of bytes
    Reef_Samples         16 and 32 bit sample arrays in memory
    Reef_Volume          audio/volume.c
    Reef_Volume_Props    scaling of samples and of periods
    Reef_Volume_Ctl      ramps, mute and unmute, the choice of the scaling function
    Reef_Mixer           audio/mixer.c
    Reef_Pipeline        audio/pipeline.c: connections and graph walks
    Reef_Pipeline_Props  the walks return and reach every component
    Reef_Time            tick arithmetic shared by the two queues; platform/baytrail/clk.c
    Reef_Schedule        lib/schedule.c, include/reef/schedule.h, arch/xtensa/task.c
    Reef_Schedule_Props  which task runs, what queueing twice does, reachable task states
    Reef_Work            lib/work.c, lib/notifier.c
    Reef_Work_Props      pending work, timers, one pass, termination of a queue run
    Reef_Ipc             ipc/ipc.c: the object registry
    Reef_Ipc_Props       ids, connections, lost pipeline ids
    Reef_Fir             audio/fir.c, fir.h: the FIR filter and the convolution it computes
    Reef_Iir             audio/iir.c, iir.h: the biquad cascade and its difference equations
    Reef_Eq              the sample loop and the commands eq_fir.c and eq_iir.c have in common
    Reef_Eq_Props        one period of all channels; the loop at the end of a buffer
    Reef_Eq_Fir          audio/eq_fir.c, eq_fir.h
    Reef_Eq_Fir_Props    setup and periods of the FIR equalizer; channels without a response
    Reef_Eq_Iir          audio/eq_iir.c, eq_iir.h
    Reef_Eq_Iir_Props    channels without a response; short delay lines
    Reef_Src_Tables      include/reef/audio/coefficients/src: stages and coefficients of all modes
    Reef_Src_Core        audio/src_core.c, src_core.h: the sample rate converter's core
    Reef_Src_Copy        the copy loops of a stage: sample by sample, and as lists
    Reef_Src_Props       a stage is the polyphase filter bank
    Reef_Src_Modes       the rate ratio of every accepted mode, the layout of the delay lines
    Reef_Src             audio/src.c: the sample rate converter component
    Reef_Src_Drv         a period of a one-stage conversion, all channels
    Reef_Src_Drv_Props   conversions refused for want of memory; copying after a reset
    Reef_Trig            math/trig.c: the fixed-point sine and its table
    Reef_Sine            the fixed-point sine against the sine of the reals
    Reef_Tone            audio/tone.c, tone.h: the tone generator
    Reef_Tone_Blocks     blocks of samples and the ramps of the amplitude
    Reef_Tone_Props      samples and frequency against the reals
    Reef_Tone_Copy       a period of the tone generator in its ring
    Reef_Msg             ipc/intel-ipc.c, byt-ipc.c: the message queue and the doorbell
    Reef_Msg_Props       the queue as a state machine of firmware and host
    Reef_Dma             include/reef/dma.h, ipc/dma-copy.c
    Reef_Dispatch        ipc/intel-ipc.c: validation, dispatch and handlers of the host's commands
    Reef_Dispatch_Props  messages, page tables, what the handlers do with values and triggers
    Reef_Host            audio/host.c: the host endpoint
    Reef_Host_Props      the pieces a period is moved in
    Reef_Ssp             drivers/ssp.c, include/reef/ssp.h, platform/baytrail/dai.c: the serial ports
    Reef_Ssp_Props       the states of a port and its registers
    Reef_Dai             audio/dai.c: the DAI endpoint
    Reef_Dai_Props       the position the host reads, the end of a stream, stopping and starting
    Reef_Dw_Dma          drivers/dw-dma.c, include/reef/dw-dma.h, platform/baytrail/dma.c: the DMA
                         controller
    Reef_Dw_Dma_Props    cyclic streams, who holds a channel, channels lost, time-outs

  How the parts interact. A message of the host is copied from its mailbox, checked and dispatched
  (Reef_Dispatch) to the object registry (Reef_Ipc), to a walk over the pipeline (Reef_Pipeline) or to
  an operation of one component. Messages to the host wait in a queue for the doorbell (Reef_Msg). The
  endpoints of a pipeline, host and DAI, configure the channels of a DMA device (Reef_Dma is its
  interface, Reef_Dw_Dma the controller), whose call backs move their positions and schedule the
  pipeline; the DAI starts and stops a serial port (Reef_Ssp).

  How the state is modelled. Components, buffers and PCM parameters are records in maps from their
  addresses (record \<open>world\<close>); the drivers extend the world with their private data. Sample data and
  everything reached through computed addresses is in a byte memory. Calls through a driver's
  operations table take that table as the argument \<open>t\<close>; the theorems on walks hold for any component
  whose command returns and keeps the connections (\<open>drivers_return\<close>), or whose reset completes
  (\<open>resets_mark\<close>), and the drivers modelled here meet this, through interpretations of the locales that
  state what a walk needs. The endpoints take the DMA device as an argument, with what they rely on named
  where it is used (\<open>quiet_dma\<close>). The registers of the DMA controller are behind a function \<open>H\<close> that says
  what a write does to them, its wait for a channel to drain takes the runs of the drain work and the end
  of the wait from a function \<open>timer\<close>. The commands of the host in the state machine of the message queue
  are any functions that leave the queue alone (\<open>keeps_queue\<close>) and the outbox, while a message stands in
  it.

  Results. \<open>None\<close> is never an error code: it is a fault (panic, division by zero, access outside an
  array, a dereferenced \<open>NULL\<close>) or a loop that has not ended within the fuel. Error codes are the
  integers the C functions return.

  Fuel. \<open>list_for_item\<close> and the loops over a linked queue need one step for each item and one for
  the head; the theorems ask for fuel above the length. The graph walks need fuel above the longest
  path, which exists on an acyclic graph (\<open>ranked_on\<close>, \<open>up_ranked_on\<close>). \<open>pending_loop\<close> needs as many passes as there
  are one-shot items, plus one. The loops of the tone generator make one frame a step and need two
  steps more than the frames. Where the C loop does not end, the theorem says that the model is
  \<open>None\<close> for every fuel (\<open>schedule_twice_hangs\<close>).

  Interfaces. \<open>list_interface\<close> (lists as sequences), \<open>block_allocator\<close> (disjoint allocations, met by
  the runtime and the buffer heap), \<open>sample_format\<close> and \<open>sample_pair\<close> (sample arrays), \<open>walk_op\<close> and
  \<open>marking_op\<close> (operations a pipeline walk may run on the components it meets), \<open>due_scan\<close> (the search for the earliest item, in
  the scheduler and in the work queues), \<open>ctor\<close> (constructors of drivers). Each is interpreted on
  the definitions of the component that provides it.

  Locks. Where a spin lock is taken and given back on every path, the locked section is one atomic step.
  In Reef_Ssp and Reef_Dw_Dma, where some paths keep it, the lock is part of the state, and taking it
  while it is held never returns.

  Not modelled: the tracing macros, which have no effect on the state; the messages to the system
  controller (ipc/pmc-ipc.c, platform/baytrail/ipc.c) and the glue of the platform (platform.c but for
  the clearing of interrupts, timer.c), which are register accesses; the mux, the switch and the static
  pipeline, whose operations are empty or a table; the order of start-up, the main task and the trace
  output; assembler and vendor code of the Xtensa core.
\<close>

end
